(* ===== verification/JS_Prelude.thy ===== *)
theory JS_Prelude
  imports Main "HOL-Library.Sublist"
begin

text \<open>
  The JavaScript string and loop primitives the modelled TypeScript uses, and the generic lemmas the
  component theories share.

  Characters. A JavaScript string is a sequence of UTF-16 code units; the model uses HOL's
  8-bit \<open>char\<close> for a code unit. Code units up to U+00FE other than the control U+0080 are
  themselves. The byte-order mark U+FEFF is \<open>CHR 0x80\<close>; every other white
  space unit (U+1680, U+2000 and so on) is represented by the no-break space \<open>CHR 0xA0\<close>, and every
  other unit (U+0080, U+00FF and above, the halves of surrogate pairs included) by \<open>CHR 0xFF\<close>. The modelled code only tests characters
  against ASCII literals, against white space and against each other, so on strings of Latin-1
  text the model is exact, and elsewhere it sees a wide character as some non-ASCII character.
  The length of a string is its number of code units, as in the source.

  Positions. The source walks strings with integer offsets; so does the model where offsets are
  part of the interface (\<open>nat\<close>, with \<open>char_at\<close> returning \<open>None\<close> past the end as \<open>s[i]\<close> returns
  undefined). The loop \<open>while (i < n && p(i)) i++\<close> is \<open>scan_while\<close>.
\<close>

named_theorems js_defs "unfolding rules of the JavaScript string primitives"
named_theorems scan_bounds "position bounds of the scanning functions"

subsection \<open>Characters\<close>

text \<open>The byte-order mark, which JavaScript counts as white space.\<close>

abbreviation BOM :: char where
  "BOM \<equiv> CHR 0x80"

definition is_ws :: "char \<Rightarrow> bool" where
  "is_ws c \<longleftrightarrow> c \<in> {CHR '' '', CHR 0x09, CHR 0x0A, CHR 0x0B, CHR 0x0C, CHR 0x0D, CHR 0xA0, BOM}"

definition is_digit :: "char \<Rightarrow> bool" where
  "is_digit c \<longleftrightarrow> (48::nat) \<le> of_char c \<and> of_char c \<le> (57::nat)"

definition is_upper :: "char \<Rightarrow> bool" where
  "is_upper c \<longleftrightarrow> (65::nat) \<le> of_char c \<and> of_char c \<le> (90::nat)"

definition is_lower :: "char \<Rightarrow> bool" where
  "is_lower c \<longleftrightarrow> (97::nat) \<le> of_char c \<and> of_char c \<le> (122::nat)"

definition is_name_start :: "char \<Rightarrow> bool" where
  "is_name_start c \<longleftrightarrow> is_upper c \<or> is_lower c \<or> c = CHR ''_''"

definition is_name_char :: "char \<Rightarrow> bool" where
  "is_name_char c \<longleftrightarrow> is_name_start c \<or> is_digit c"

definition newline :: char where
  "newline = CHR 0x0A"

definition backslash :: char where
  "backslash = CHR 0x5C"

definition squote :: char where
  "squote = CHR 0x27"

definition dquote :: char where
  "dquote = CHR 0x22"

definition backtick :: char where
  "backtick = CHR 0x60"

lemmas char_consts [js_defs] = newline_def backslash_def squote_def dquote_def backtick_def

lemma char_distinct [simp]:
  "backslash \<noteq> newline" "newline \<noteq> backslash" "backslash \<noteq> squote" "squote \<noteq> backslash"
  "backslash \<noteq> dquote" "dquote \<noteq> backslash" "squote \<noteq> dquote" "dquote \<noteq> squote"
  "squote \<noteq> newline" "newline \<noteq> squote" "dquote \<noteq> newline" "newline \<noteq> dquote"
  by (simp_all add: char_consts)

text \<open>Equivalent equations that evaluate by comparing characters instead of their codes.\<close>

lemma char_mem_codes: "c \<in> set s \<longleftrightarrow> (of_char c :: nat) \<in> set (map of_char s)"
  by auto

lemma is_digit_code [code]: "is_digit c \<longleftrightarrow> c \<in> set ''0123456789''"
  unfolding char_mem_codes by (simp add: is_digit_def) presburger

lemma is_upper_code [code]: "is_upper c \<longleftrightarrow> c \<in> set ''ABCDEFGHIJKLMNOPQRSTUVWXYZ''"
  unfolding char_mem_codes by (simp add: is_upper_def) presburger

lemma is_lower_code [code]: "is_lower c \<longleftrightarrow> c \<in> set ''abcdefghijklmnopqrstuvwxyz''"
  unfolding char_mem_codes by (simp add: is_lower_def) presburger

text \<open>Lower and upper case of one code unit, on the Latin-1 range.\<close>

definition lower_char :: "char \<Rightarrow> char" where
  "lower_char c =
     (let n = of_char c :: nat
      in if (65 \<le> n \<and> n \<le> 90) \<or> (192 \<le> n \<and> n \<le> 222 \<and> n \<noteq> 215) then char_of (n + 32) else c)"

definition toLowerCase :: "string \<Rightarrow> string" where
  "toLowerCase s = map lower_char s"

text \<open>
  \<open>"c".toUpperCase()\<close> of a one-unit string: the sharp s becomes two letters; the micro sign and the
  y with diaeresis have their upper case above U+00FF.
\<close>

definition upper_unit :: "char \<Rightarrow> string" where
  "upper_unit c =
     (let n = of_char c :: nat
      in if (97 \<le> n \<and> n \<le> 122) \<or> (224 \<le> n \<and> n \<le> 254 \<and> n \<noteq> 247) then [char_of (n - 32)]
         else if n = 223 then ''SS''
         else if n = 181 then [CHR 0xFF]
         else [c])"

text \<open>
  \<open>String.fromCodePoint\<close> under the character representation above: one unit below U+10000,
  two (both surrogates, so both wide) above.
\<close>

definition wide_ws :: "nat \<Rightarrow> bool" where
  "wide_ws n \<longleftrightarrow> n = 5760 \<or> (8192 \<le> n \<and> n \<le> 8202) \<or> n \<in> {8232, 8233, 8239, 8287, 12288}"

definition fromCodePoint :: "nat \<Rightarrow> string" where
  "fromCodePoint n =
     (if n < 255 \<and> n \<noteq> 128 then [char_of n]
      else if n = 65279 then [BOM]
      else if wide_ws n then [CHR 0xA0]
      else if n < 65536 then [CHR 0xFF]
      else [CHR 0xFF, CHR 0xFF])"

subsection \<open>Strings\<close>

definition char_at :: "'a list \<Rightarrow> nat \<Rightarrow> 'a option" where
  "char_at s i = (if i < length s then Some (s ! i) else None)"

definition slice :: "'a list \<Rightarrow> nat \<Rightarrow> nat \<Rightarrow> 'a list" where
  "slice s i j = take (j - i) (drop i s)"

definition startsWith :: "'a list \<Rightarrow> 'a list \<Rightarrow> bool" where
  "startsWith s p \<longleftrightarrow> take (length p) s = p"

definition endsWith :: "'a list \<Rightarrow> 'a list \<Rightarrow> bool" where
  "endsWith s p \<longleftrightarrow> length p \<le> length s \<and> drop (length s - length p) s = p"

fun str_includes :: "'a list \<Rightarrow> 'a list \<Rightarrow> bool" where
  "str_includes [] p \<longleftrightarrow> p = []"
| "str_includes (c # s) p \<longleftrightarrow> startsWith (c # s) p \<or> str_includes s p"

fun indexOf :: "'a list \<Rightarrow> 'a \<Rightarrow> nat option" where
  "indexOf [] c = None"
| "indexOf (d # s) c = (if d = c then Some 0 else map_option Suc (indexOf s c))"

text \<open>\<open>s.split(c)\<close> for a one-character separator, and \<open>parts.join(sep)\<close>.\<close>

fun split_on :: "'a \<Rightarrow> 'a list \<Rightarrow> 'a list list" where
  "split_on c [] = [[]]"
| "split_on c (d # s) =
     (if d = c then [] # split_on c s
      else (case split_on c s of [] \<Rightarrow> [[d]] | p # ps \<Rightarrow> (d # p) # ps))"

fun join_with :: "'a list \<Rightarrow> 'a list list \<Rightarrow> 'a list" where
  "join_with sep [] = []"
| "join_with sep [p] = p"
| "join_with sep (p # q # ps) = p @ sep @ join_with sep (q # ps)"

definition trimStart :: "string \<Rightarrow> string" where
  "trimStart s = dropWhile is_ws s"

definition trim :: "string \<Rightarrow> string" where
  "trim s = rev (dropWhile is_ws (rev (dropWhile is_ws s)))"

text \<open>\<open>o ?? d\<close>\<close>

definition the_default :: "'a \<Rightarrow> 'a option \<Rightarrow> 'a" where
  "the_default d o' = (case o' of None \<Rightarrow> d | Some x \<Rightarrow> x)"

text \<open>The loop \<open>for (const x of xs) { const y = f(x); if (y !== undefined) return y; }\<close>.\<close>

fun first_some :: "('a \<Rightarrow> 'b option) \<Rightarrow> 'a list \<Rightarrow> 'b option" where
  "first_some f [] = None"
| "first_some f (x # xs) = (case f x of None \<Rightarrow> first_some f xs | Some y \<Rightarrow> Some y)"

lemma first_some_None: "first_some f xs = None \<longleftrightarrow> (\<forall>x\<in>set xs. f x = None)"
  by (induction xs) (auto split: option.splits)

lemma first_some_Some: "first_some f xs = Some y \<Longrightarrow> \<exists>x\<in>set xs. f x = Some y"
  by (induction xs) (auto split: option.splits)

subsection \<open>Loops over positions\<close>

function scan_while :: "(nat \<Rightarrow> bool) \<Rightarrow> nat \<Rightarrow> nat \<Rightarrow> nat" where
  "scan_while p n i = (if i < n \<and> p i then scan_while p n (Suc i) else i)"
  by pat_completeness auto
termination
  by (relation "measure (\<lambda>(p, n, i). n - i)") auto

declare scan_while.simps [simp del]

lemma scan_while_ge [scan_bounds, simp, intro]: "i \<le> scan_while p n i"
proof (induction p n i rule: scan_while.induct)
  case (1 p n i)
  then show ?case by (subst scan_while.simps) (auto dest: Suc_leD)
qed

lemma scan_while_le [scan_bounds]: "i \<le> n \<Longrightarrow> scan_while p n i \<le> n"
proof (induction p n i rule: scan_while.induct)
  case (1 p n i)
  then show ?case by (subst scan_while.simps) auto
qed

lemma scan_while_holds: "i \<le> j \<Longrightarrow> j < scan_while p n i \<Longrightarrow> p j"
proof (induction p n i rule: scan_while.induct)
  case (1 p n i)
  show ?case
  proof (cases "i < n \<and> p i")
    case True
    show ?thesis
    proof (cases "j = i")
      case True
      with \<open>i < n \<and> p i\<close> show ?thesis by simp
    next
      case False
      with "1.prems" True show ?thesis
        by (intro "1.IH") (auto simp: scan_while.simps [of p n i])
    qed
  next
    case False
    with "1.prems" show ?thesis by (auto simp: scan_while.simps [of p n i])
  qed
qed

lemma scan_while_stop: "scan_while p n i < n \<Longrightarrow> \<not> p (scan_while p n i)"
proof (induction p n i rule: scan_while.induct)
  case (1 p n i)
  show ?case
  proof (cases "i < n \<and> p i")
    case True
    with 1 show ?thesis by (simp add: scan_while.simps [of p n i])
  next
    case False
    with "1.prems" show ?thesis by (auto simp: scan_while.simps [of p n i])
  qed
qed

lemma scan_while_eqI:
  "i \<le> m \<Longrightarrow> m \<le> n \<Longrightarrow> (\<And>j. i \<le> j \<Longrightarrow> j < m \<Longrightarrow> p j) \<Longrightarrow> (m < n \<Longrightarrow> \<not> p m) \<Longrightarrow> scan_while p n i = m"
proof (induction "m - i" arbitrary: i)
  case 0
  then show ?case by (auto simp: scan_while.simps [of p n i])
next
  case (Suc d)
  then have "scan_while p n (Suc i) = m" by (intro Suc.hyps) auto
  with Suc show ?case by (auto simp: scan_while.simps [of p n i])
qed

lemma scan_while_reaches:
  "i \<le> m \<Longrightarrow> m \<le> n \<Longrightarrow> (\<And>j. i \<le> j \<Longrightarrow> j < m \<Longrightarrow> p j) \<Longrightarrow> m \<le> scan_while p n i"
  by (metis le_less_trans linorder_not_less order.strict_implies_order scan_while_ge scan_while_stop order_less_le_trans)

lemma scan_while_cong:
  "(\<And>j. i \<le> j \<Longrightarrow> j < n \<Longrightarrow> p j = q j) \<Longrightarrow> scan_while p n i = scan_while q n i"
proof (induction p n i rule: scan_while.induct)
  case (1 p n i)
  show ?case
  proof (cases "i < n \<and> p i")
    case True
    with "1.prems" have "scan_while p n (Suc i) = scan_while q n (Suc i)"
      by (intro "1.IH") auto
    with True "1.prems" [of i] show ?thesis
      by (simp add: scan_while.simps [of p n i] scan_while.simps [of q n i])
  next
    case False
    with "1.prems" [of i] show ?thesis
      by (auto simp: scan_while.simps [of p n i] scan_while.simps [of q n i])
  qed
qed

subsection \<open>Lemmas on the string primitives\<close>

lemma startsWith_iff_prefix [js_defs]: "startsWith s p \<longleftrightarrow> prefix p s"
  by (auto simp: startsWith_def prefix_def take_eq_Nil) (metis append_take_drop_id)

lemma endsWith_iff_suffix [js_defs]: "endsWith s p \<longleftrightarrow> suffix p s"
  by (auto simp: endsWith_def suffix_def) (metis append_take_drop_id)

lemma includes_iff: "str_includes s p \<longleftrightarrow> (\<exists>a b. s = a @ p @ b)"
proof (induction s)
  case Nil
  then show ?case by auto
next
  case (Cons c s)
  show ?case
  proof
    assume "str_includes (c # s) p"
    then consider "prefix p (c # s)" | "str_includes s p"
      by (auto simp: startsWith_iff_prefix)
    then show "\<exists>a b. c # s = a @ p @ b"
    proof cases
      case 1
      then obtain b where "c # s = [] @ p @ b" by (auto simp: prefix_def)
      then show ?thesis by blast
    next
      case 2
      with Cons.IH obtain a b where "s = a @ p @ b" by blast
      then have "c # s = (c # a) @ p @ b" by simp
      then show ?thesis by blast
    qed
  next
    assume "\<exists>a b. c # s = a @ p @ b"
    then obtain a b where ab: "c # s = a @ p @ b" by blast
    show "str_includes (c # s) p"
    proof (cases a)
      case Nil
      with ab have "prefix p (c # s)" by auto
      then show ?thesis by (simp add: startsWith_iff_prefix)
    next
      case (Cons d a')
      with ab have "s = a' @ p @ b" by simp
      with Cons.IH show ?thesis by auto
    qed
  qed
qed

lemma includes_single [simp]: "str_includes s [c] \<longleftrightarrow> c \<in> set s"
  by (auto simp: includes_iff in_set_conv_decomp)

lemma indexOf_None [simp]: "indexOf s c = None \<longleftrightarrow> c \<notin> set s"
  by (induction s) auto

lemma indexOf_Some:
  "indexOf s c = Some i \<longleftrightarrow> i < length s \<and> s ! i = c \<and> c \<notin> set (take i s)"
proof (induction s arbitrary: i)
  case Nil
  then show ?case by simp
next
  case (Cons d s)
  then show ?case by (cases i) auto
qed

lemma split_on_not_Nil [simp]: "split_on c s \<noteq> []"
  by (induction s) (auto split: list.splits)

lemma split_on_join: "join_with [c] (split_on c s) = s"
proof (induction s)
  case Nil
  then show ?case by simp
next
  case (Cons d s)
  obtain p ps where s: "split_on c s = p # ps"
    by (cases "split_on c s") auto
  with Cons show ?case by (cases ps) auto
qed

lemma split_on_notin: "p \<in> set (split_on c s) \<Longrightarrow> c \<notin> set p"
  by (induction s arbitrary: p) (auto split: list.splits if_splits)

lemma split_on_single: "c \<notin> set s \<Longrightarrow> split_on c s = [s]"
  by (induction s) auto

lemma split_on_append: "c \<notin> set a \<Longrightarrow> split_on c (a @ c # s) = a # split_on c s"
  by (induction a) auto

lemma split_on_join_with:
  "ps \<noteq> [] \<Longrightarrow> \<forall>p\<in>set ps. c \<notin> set p \<Longrightarrow> split_on c (join_with [c] ps) = ps"
  by (induction "[c]" ps rule: join_with.induct) (auto simp: split_on_single split_on_append)

lemma trimStart_idem [simp]: "trimStart (trimStart s) = trimStart s"
  by (simp add: trimStart_def)

lemma dropWhile_rev_dropWhile:
  "dropWhile p (rev (dropWhile p (rev (dropWhile p s)))) = rev (dropWhile p (rev (dropWhile p s)))"
proof -
  have "\<exists>zs. dropWhile p s = rev (dropWhile p (rev (dropWhile p s))) @ zs"
    by (metis rev_append rev_rev_ident takeWhile_dropWhile_id)
  then obtain zs where "dropWhile p s = rev (dropWhile p (rev (dropWhile p s))) @ zs" by blast
  then have "rev (dropWhile p (rev (dropWhile p s))) = []
      \<or> \<not> p (hd (rev (dropWhile p (rev (dropWhile p s)))))"
    by (metis append_is_Nil_conv hd_append2 hd_dropWhile)
  then show ?thesis by (simp only: dropWhile_eq_self_iff)
qed

lemma trim_idem [simp]: "trim (trim s) = trim s"
  by (simp add: trim_def dropWhile_rev_dropWhile)

lemma trim_hd: "trim s \<noteq> [] \<Longrightarrow> \<not> is_ws (hd (trim s))"
  unfolding trim_def by (metis dropWhile_rev_dropWhile hd_dropWhile)

lemma trim_last: "trim s \<noteq> [] \<Longrightarrow> \<not> is_ws (last (trim s))"
  unfolding trim_def by (metis Nil_is_rev_conv hd_dropWhile last_rev)

lemma length_trim_le: "length (trim s) \<le> length s"
  unfolding trim_def
  by (metis length_dropWhile_le length_rev le_trans)

lemma trim_no_ws: "\<forall>c\<in>set s. \<not> is_ws c \<Longrightarrow> trim s = s"
proof -
  assume h: "\<forall>c\<in>set s. \<not> is_ws c"
  then have "dropWhile is_ws s = s" and "dropWhile is_ws (rev s) = rev s"
    by (auto simp: dropWhile_eq_self_iff hd_rev)
  then show ?thesis by (simp add: trim_def)
qed

lemma slice_append: "i \<le> j \<Longrightarrow> j \<le> k \<Longrightarrow> slice s i j @ slice s j k = slice s i k"
  using take_add [of "j - i" "k - j" "drop i s"] by (simp add: slice_def)

lemma slice_full [simp]: "slice s 0 (length s) = s"
  by (simp add: slice_def)

lemma slice_empty [simp]: "slice s i i = []"
  by (simp add: slice_def)

lemma set_slice: "set (slice s i j) \<subseteq> set s"
  by (simp add: slice_def) (meson set_drop_subset set_take_subset subset_trans)

lemma char_at_Some: "char_at s i = Some c \<longleftrightarrow> i < length s \<and> s ! i = c"
  by (auto simp: char_at_def)

lemma split_on_append_sep: "split_on c (a @ c # s) = split_on c a @ split_on c s"
  by (induction a) (auto split: list.splits)

end
