(* ===== verification/Rule_Text.thy ===== *)
theory Rule_Text
  imports JS_Prelude
begin

text \<open>
  The text of permission rules: splitting \<open>Tool(content)\<close>, unescaping the content, the rule parser
  \<open>parseRule\<close> and the settings-load validator \<open>validatePermissionRuleString\<close> of
  \<^verbatim>\<open>permissions/grammar.ts\<close>. The URL parser of the platform is the argument \<open>url\<close>, a partial
  function from a text to the two properties the code reads. Lemmas: a split is lossless, escaping
  the content is undone by the parser, and the well-formedness of what the parser returns.
\<close>

subsection \<open>Data\<close>

datatype scalar = SStr string | SBool bool

datatype specifier =
    WildcardAll
  | Pattern string
  | Param string scalar
  | WebFetchDomain string
  | Invalid string

record parsed_rule =
  toolName :: string
  specifier :: "specifier option"
  isBareEquivalent :: bool

record parsed_url =
  href :: string
  hostname :: string
  pathname :: string
  protocol :: string
  username :: string
  password :: string
  httpsHref :: string

type_synonym url_parser = "string \<Rightarrow> parsed_url option"

definition BASH_PARAM_FIELDS :: "string list" where
  "BASH_PARAM_FIELDS = [''run_in_background'']"

definition FILE_RULE_TOOLS :: "string list" where
  "FILE_RULE_TOOLS = [''Read'', ''Edit'', ''Write'', ''NotebookEdit'', ''Glob'', ''Grep'']"

definition WEB_SEARCH_RULE_TOOL :: string where
  "WEB_SEARCH_RULE_TOOL = ''WebSearch''"

definition SKILL_RULE_TOOL :: string where
  "SKILL_RULE_TOOL = ''Skill''"

subsection \<open>Splitting the rule text\<close>

text \<open>The loop of \<open>unescapedParens\<close> from position \<open>i\<close> with the current run of backslashes.\<close>

fun parens_loop :: "string \<Rightarrow> nat \<Rightarrow> nat \<Rightarrow> nat list \<times> nat list" where
  "parens_loop [] i run = ([], [])"
| "parens_loop (ch # s) i run =
     (if ch = backslash then parens_loop s (Suc i) (Suc run)
      else
        (let (opens, closes) = parens_loop s (Suc i) 0 in
         if even run \<and> ch = CHR ''('' then (i # opens, closes)
         else if even run \<and> ch = CHR '')'' then (opens, i # closes)
         else (opens, closes)))"

definition unescapedParens :: "string \<Rightarrow> nat list \<times> nat list" where
  "unescapedParens txt = parens_loop txt 0 0"

definition splitRuleText :: "string \<Rightarrow> (string \<times> string) option" where
  "splitRuleText txt =
     (case unescapedParens txt of
        (opens, closes) \<Rightarrow>
          (case opens of
             [] \<Rightarrow> None
           | open # _ \<Rightarrow>
               if open = 0 then None
               else if closes = [] then None
               else
                 (let close = last closes in
                  if close \<noteq> length txt - 1 \<or> close \<le> open then None
                  else Some (take open txt, slice txt (Suc open) close))))"

fun unescapeRuleContent :: "string \<Rightarrow> string" where
  "unescapeRuleContent [] = []"
| "unescapeRuleContent [ch] = [ch]"
| "unescapeRuleContent (ch # next # s) =
     (if ch = backslash \<and> (next = CHR ''('' \<or> next = CHR '')'' \<or> next = backslash)
      then next # unescapeRuleContent s
      else ch # unescapeRuleContent (next # s))"

subsection \<open>The parser\<close>

definition parseScalar :: "string \<Rightarrow> scalar" where
  "parseScalar token =
     (if token = ''true'' then SBool True else if token = ''false'' then SBool False else SStr token)"

definition stripTrailingDot :: "string \<Rightarrow> string" where
  "stripTrailingDot host = (if endsWith host ''.'' then butlast host else host)"

text \<open>\<open>lowered.replace(/^\[[^\]]*\]/, "")\<close>: a leading bracketed part is removed.\<close>

definition drop_bracketed :: "string \<Rightarrow> string" where
  "drop_bracketed s =
     (if startsWith s ''['' \<and> CHR '']'' \<in> set s then tl (dropWhile (\<lambda>c. c \<noteq> CHR '']'') s) else s)"

definition normalizeRuleHostname :: "url_parser \<Rightarrow> string \<Rightarrow> string" where
  "normalizeRuleHostname url source =
     (let lowered = stripTrailingDot (toLowerCase (trim source)) in
      if lowered = '''' \<or> str_includes lowered ''*'' then lowered
      else if str_includes (drop_bracketed lowered) '':'' then lowered
      else
        (case url (''http://'' @ lowered @ ''/'') of
           None \<Rightarrow> lowered
         | Some parsed \<Rightarrow>
             if href parsed = ''http://'' @ hostname parsed @ ''/'' then stripTrailingDot (hostname parsed)
             else lowered))"

text \<open>The regular expression \<open>FIELD_VALUE\<close>: an identifier, a colon, anything.\<close>

definition FIELD_VALUE :: "string \<Rightarrow> (string \<times> string) option" where
  "FIELD_VALUE s =
     (if s = [] \<or> \<not> is_name_start (hd s) then None
      else (case dropWhile is_name_char s of
              [] \<Rightarrow> None
            | c # value \<Rightarrow> if c = CHR '':'' then Some (takeWhile is_name_char s, value) else None))"

text \<open>\<open>/^domain:(.*)$/is\<close>\<close>

definition domain_content :: "string \<Rightarrow> string option" where
  "domain_content s = (if toLowerCase (take 7 s) = ''domain:'' then Some (drop 7 s) else None)"

definition MCP_INVALID :: string where
  "MCP_INVALID =
     ''MCP tools reject parenthetical specifiers (WS-07 '' @ [CHR 0xA7] @
     ''3); use a mcp__server__tool name or glob directly''"

definition WEB_SEARCH_INVALID :: string where
  "WEB_SEARCH_INVALID =
     ''WebSearch has no specifier grammar -- use the bare tool name '' @ [backtick] @ ''WebSearch'' @ [backtick]"

definition scoped :: "string \<Rightarrow> specifier \<Rightarrow> parsed_rule" where
  "scoped tool spec = \<lparr>toolName = tool, specifier = Some spec, isBareEquivalent = False\<rparr>"

definition bare :: "string \<Rightarrow> parsed_rule" where
  "bare tool = \<lparr>toolName = tool, specifier = None, isBareEquivalent = True\<rparr>"

definition content_specifier :: "url_parser \<Rightarrow> string \<Rightarrow> string \<Rightarrow> specifier" where
  "content_specifier url tool content =
     (if startsWith tool ''mcp__'' then Invalid MCP_INVALID
      else if tool = ''WebFetch'' then
        (case domain_content content of
           Some host \<Rightarrow> WebFetchDomain (normalizeRuleHostname url host)
         | None \<Rightarrow> Pattern content)
      else if tool = WEB_SEARCH_RULE_TOOL then Invalid WEB_SEARCH_INVALID
      else if tool = ''Bash'' then
        (case FIELD_VALUE content of
           Some (field, value) \<Rightarrow>
             if field \<in> set BASH_PARAM_FIELDS then Param field (parseScalar value) else Pattern content
         | None \<Rightarrow> Pattern content)
      else if tool = SKILL_RULE_TOOL then Pattern content
      else if tool \<in> set FILE_RULE_TOOLS then Pattern content
      else
        (case FIELD_VALUE content of
           Some (field, value) \<Rightarrow> Param field (parseScalar value)
         | None \<Rightarrow> Pattern content))"

definition parseRule :: "url_parser \<Rightarrow> string \<Rightarrow> parsed_rule" where
  "parseRule url raw =
     (let trimmed = trim raw in
      case splitRuleText trimmed of
        None \<Rightarrow> bare trimmed
      | Some (tool, rawContent) \<Rightarrow>
          if list_ex is_ws tool then bare trimmed
          else if rawContent = '''' \<or> rawContent = ''*'' then
            \<lparr>toolName = tool, specifier = Some WildcardAll, isBareEquivalent = True\<rparr>
          else scoped tool (content_specifier url tool (unescapeRuleContent rawContent)))"

subsection \<open>The settings-load validator\<close>

datatype permission_behavior = BAllow | BDeny | BAsk

record rule_validation =
  valid :: bool
  error :: "string option"
  suggestion :: "string option"

definition rule_ok :: rule_validation where
  "rule_ok = \<lparr>valid = True, error = None, suggestion = None\<rparr>"

definition rule_invalid :: "string \<Rightarrow> string option \<Rightarrow> rule_validation" where
  "rule_invalid err sugg = \<lparr>valid = False, error = Some err, suggestion = sugg\<rparr>"

definition ALLOW_WILDCARD_SUGGESTION :: string where
  "ALLOW_WILDCARD_SUGGESTION =
     ''An allow pattern must name the scope it widens '' @ fromCodePoint 8212 @
     '' globs are permitted only in the tool position after a literal mcp__<server>__ prefix. '' @
     ''Deny and ask rules accept wildcards anywhere''"

definition LOAD_TIME_FILE_PATTERN_TOOLS :: "string list" where
  "LOAD_TIME_FILE_PATTERN_TOOLS =
     [''Read'', ''Write'', ''Edit'', ''Glob'', ''NotebookRead'', ''NotebookEdit'', ''Cd'']"

text \<open>\<open>toolName.split("__")\<close>\<close>

fun split_dunder :: "string \<Rightarrow> string list" where
  "split_dunder [] = [[]]"
| "split_dunder [c] = [[c]]"
| "split_dunder (c # d # s) =
     (if c = CHR ''_'' \<and> d = CHR ''_'' then [] # split_dunder s
      else (case split_dunder (d # s) of [] \<Rightarrow> [[c]] | p # ps \<Rightarrow> (c # p) # ps))"

definition mcp_server_of :: "string \<Rightarrow> string option" where
  "mcp_server_of tool =
     (case split_dunder tool of
        first # server # _ \<Rightarrow> if first = ''mcp'' \<and> server \<noteq> [] then Some server else None
      | _ \<Rightarrow> None)"

definition wildcardRefusal :: "string \<Rightarrow> rule_validation" where
  "wildcardRefusal tool =
     rule_invalid (''Wildcard tool name '' @ [dquote] @ tool @ [dquote] @ '' is not supported in allow rules'')
       (Some ALLOW_WILDCARD_SUGGESTION)"

text \<open>Checks 9 to 11, on a rule with content.\<close>

definition validate_content :: "string \<Rightarrow> string \<Rightarrow> rule_validation" where
  "validate_content tool content =
     (if tool = ''WebSearch'' \<and> (str_includes content ''*'' \<or> str_includes content ''?'') then
        rule_invalid ''WebSearch does not support wildcards'' (Some ''Use exact search terms without * or ?'')
      else if tool = ''WebFetch'' \<and> (str_includes content ''://'' \<or> startsWith content ''http'') then
        rule_invalid ''WebFetch permissions use domain format, not URLs''
          (Some (''Use '' @ [dquote] @ ''domain:hostname'' @ [dquote] @ '' format''))
      else if tool = ''WebFetch'' \<and> \<not> startsWith content ''domain:'' then
        rule_invalid (''WebFetch permissions must use '' @ [dquote] @ ''domain:'' @ [dquote] @ '' prefix'')
          (Some (''Use '' @ [dquote] @ ''domain:hostname'' @ [dquote] @ '' format''))
      else if tool = ''Bash'' \<and> str_includes content '':*'' \<and> \<not> endsWith content '':*'' then
        rule_invalid ''The :* pattern must be at the end''
          (Some ''Move :* to the end for prefix matching, or use * for wildcard matching'')
      else if tool = ''Bash'' \<and> content = '':*'' then
        rule_invalid ''Prefix cannot be empty before :*'' (Some ''Specify a command prefix before :*'')
      else if tool \<in> set LOAD_TIME_FILE_PATTERN_TOOLS \<and> str_includes content '':*'' then
        rule_invalid (''The '' @ [dquote] @ '':*'' @ [dquote] @ '' syntax is only for Bash prefix rules'')
          (Some (''Use glob patterns like '' @ [dquote] @ ''*'' @ [dquote] @ '' or '' @ [dquote] @ ''**'' @ [dquote] @
                 '' for file matching''))
      else rule_ok)"

text \<open>Checks 5 to 12, on the split rule; \<open>hasOpen\<close> says that the raw text has an unescaped parenthesis.\<close>

definition validate_split :: "string \<Rightarrow> string option \<Rightarrow> bool \<Rightarrow> permission_behavior \<Rightarrow> rule_validation" where
  "validate_split tool content hasOpen direction =
     (case mcp_server_of tool of
        Some server \<Rightarrow>
          if content \<noteq> None \<or> hasOpen then
            rule_invalid ''MCP rules do not support patterns in parentheses''
              (Some (''Use '' @ [dquote] @ tool @ [dquote] @ '' without parentheses, or use '' @ [dquote] @ ''mcp__'' @
                     server @ ''__*'' @ [dquote] @ '' for all tools''))
          else if direction = BAllow \<and> str_includes server ''*'' then wildcardRefusal tool
          else rule_ok
      | None \<Rightarrow>
          if tool = '''' then rule_invalid ''Tool name cannot be empty'' None
          else if direction = BAllow \<and> str_includes tool ''*'' then wildcardRefusal tool
          else if \<not> str_includes tool ''_'' \<and> [hd tool] \<noteq> upper_unit (hd tool) then
            rule_invalid ''Tool names must start with uppercase''
              (Some (''Use '' @ [dquote] @ upper_unit (hd tool) @ tl tool @ [dquote]))
          else (case content of None \<Rightarrow> rule_ok | Some c \<Rightarrow> validate_content tool c))"

definition split_content :: "string \<Rightarrow> string \<times> string option" where
  "split_content trimmed =
     (case splitRuleText trimmed of
        None \<Rightarrow> (trimmed, None)
      | Some (tool, rawContent) \<Rightarrow>
          (tool, if rawContent = '''' \<or> rawContent = ''*'' then None else Some (unescapeRuleContent rawContent)))"

definition validatePermissionRuleString :: "string \<Rightarrow> permission_behavior \<Rightarrow> rule_validation" where
  "validatePermissionRuleString raw direction =
     (let trimmed = trim raw in
      if trimmed = '''' then rule_invalid ''Permission rule cannot be empty'' None
      else
        (case unescapedParens raw of
           (opens, closes) \<Rightarrow>
             if length opens \<noteq> length closes then
               rule_invalid ''Mismatched parentheses''
                 (Some ''Ensure all opening parentheses have matching closing parentheses'')
             else if list_ex (\<lambda>i. char_at raw (Suc i) = Some (CHR '')'')) opens then
               (let before = takeWhile (\<lambda>c. c \<noteq> CHR ''('') raw in
                if before = '''' then
                  rule_invalid ''Empty parentheses with no tool name'' (Some ''Specify a tool name before the parentheses'')
                else
                  rule_invalid ''Empty parentheses''
                    (Some (''Either specify a pattern or use just '' @ [dquote] @ before @ [dquote] @ '' without parentheses'')))
             else
               (case split_content trimmed of
                  (tool, content) \<Rightarrow> validate_split tool content (opens \<noteq> []) direction)))"

subsection \<open>Splitting is lossless\<close>

lemma parens_loop_opens:
  "i \<in> set (fst (parens_loop s k run)) \<Longrightarrow> k \<le> i \<and> i < k + length s \<and> s ! (i - k) = CHR ''(''"
proof (induction s arbitrary: k run)
  case (Cons c s)
  show ?case
  proof (cases "i = k \<and> c = CHR ''(''")
    case True
    then show ?thesis by simp
  next
    case False
    with Cons.prems have "\<exists>r. i \<in> set (fst (parens_loop s (Suc k) r))"
      by (auto simp: Let_def split: if_splits prod.splits) (metis fst_conv)+
    with Cons.IH obtain r where "Suc k \<le> i \<and> i < Suc k + length s \<and> s ! (i - Suc k) = CHR ''(''" by blast
    then show ?thesis by (auto simp: nth_Cons' Suc_diff_le)
  qed
qed simp

lemma parens_loop_closes:
  "i \<in> set (snd (parens_loop s k run)) \<Longrightarrow> k \<le> i \<and> i < k + length s \<and> s ! (i - k) = CHR '')''"
proof (induction s arbitrary: k run)
  case (Cons c s)
  show ?case
  proof (cases "i = k \<and> c = CHR '')''")
    case True
    then show ?thesis by simp
  next
    case False
    with Cons.prems have "\<exists>r. i \<in> set (snd (parens_loop s (Suc k) r))"
      by (auto simp: Let_def split: if_splits prod.splits) (metis snd_conv)+
    with Cons.IH obtain r where "Suc k \<le> i \<and> i < Suc k + length s \<and> s ! (i - Suc k) = CHR '')''" by blast
    then show ?thesis by (auto simp: nth_Cons' Suc_diff_le)
  qed
qed simp

lemma slice_between:
  assumes "i < j" "j < length s"
  shows "s = take i s @ s ! i # slice s (Suc i) j @ s ! j # drop (Suc j) s"
proof -
  have "s = take i s @ s ! i # drop (Suc i) s" using assms id_take_nth_drop [of i s] by simp
  also have "drop (Suc i) s = slice s (Suc i) j @ drop j s"
    unfolding slice_def using assms(1)
    by (metis Suc_leI append_take_drop_id drop_drop le_add_diff_inverse2)
  also have "drop j s = s ! j # drop (Suc j) s" using assms by (simp add: Cons_nth_drop_Suc)
  finally show ?thesis .
qed

lemma splitRuleText_lossless:
  assumes "splitRuleText s = Some (tool, raw)"
  shows "s = tool @ ''('' @ raw @ '')''" "tool \<noteq> []"
proof -
  obtain opens closes where p: "unescapedParens s = (opens, closes)" by (cases "unescapedParens s")
  with assms obtain opn rest where o: "opens = opn # rest" "opn \<noteq> 0" "closes \<noteq> []"
      "last closes = length s - 1" "opn < last closes"
      and tr: "tool = take opn s" "raw = slice s (Suc opn) (last closes)"
    by (auto simp: splitRuleText_def Let_def split: list.splits if_splits)
  have "opn < length s \<and> s ! opn = CHR ''(''"
    using parens_loop_opens [of opn s 0 0] p o by (simp add: unescapedParens_def)
  moreover have "last closes < length s \<and> s ! last closes = CHR '')''"
    using parens_loop_closes [of "last closes" s 0 0] p o(3) by (simp add: unescapedParens_def)
  ultimately show "s = tool @ ''('' @ raw @ '')''" "tool \<noteq> []"
    using slice_between [of opn "last closes" s] o(2,4,5) tr by (auto simp: Suc_leI)
qed

subsection \<open>Printing and parsing\<close>

text \<open>How a rule is written: every parenthesis and backslash of the content is escaped.\<close>

definition escape_char :: "char \<Rightarrow> string" where
  "escape_char c = (if c = CHR ''('' \<or> c = CHR '')'' \<or> c = backslash then [backslash, c] else [c])"

definition escape_content :: "string \<Rightarrow> string" where
  "escape_content s = concat (map escape_char s)"

definition print_rule :: "string \<Rightarrow> string \<Rightarrow> string" where
  "print_rule tool content = tool @ ''('' @ escape_content content @ '')''"

lemma unescape_plain:
  "c \<noteq> backslash \<Longrightarrow> unescapeRuleContent (c # s) = c # unescapeRuleContent s"
  by (cases s) auto

lemma unescape_escape: "unescapeRuleContent (escape_content s) = s"
  by (induction s) (auto simp: escape_content_def escape_char_def unescape_plain)

lemma unescape_nonempty: "unescapeRuleContent s = [] \<longleftrightarrow> s = []"
  by (cases s rule: unescapeRuleContent.cases) auto

lemma unescape_star: "unescapeRuleContent s = ''*'' \<longleftrightarrow> s = ''*''"
  by (cases s rule: unescapeRuleContent.cases) (auto simp: unescape_nonempty backslash_def)

text \<open>A tool name the printer is used with: no parenthesis, no backslash.\<close>

definition plain_tool :: "string \<Rightarrow> bool" where
  "plain_tool tool \<longleftrightarrow> tool \<noteq> [] \<and> list_all (\<lambda>c. c \<noteq> CHR ''('' \<and> c \<noteq> CHR '')'' \<and> c \<noteq> backslash) tool"

lemma paren_not_backslash [simp]: "CHR ''('' \<noteq> backslash" "CHR '')'' \<noteq> backslash"
  by (simp_all add: backslash_def)

lemma parens_loop_plain:
  "list_all (\<lambda>c. c \<noteq> CHR ''('' \<and> c \<noteq> CHR '')'' \<and> c \<noteq> backslash) a \<Longrightarrow>
    parens_loop (a @ s) k 0 = parens_loop s (k + length a) 0"
  by (induction a arbitrary: k) (auto split: prod.splits)

lemma parens_loop_parity: "even run = even run' \<Longrightarrow> parens_loop s k run = parens_loop s k run'"
proof (induction s arbitrary: k run run')
  case (Cons c s)
  have "parens_loop s (Suc k) (Suc run) = parens_loop s (Suc k) (Suc run')"
    using Cons.prems by (intro Cons.IH) simp
  then show ?case using Cons.prems by (simp only: parens_loop.simps)
qed simp

lemma parens_loop_escape_char:
  "parens_loop (escape_char c @ s) k 0 = parens_loop s (k + length (escape_char c)) 0"
  using parens_loop_parity [of 2 0 s] by (auto simp: escape_char_def numeral_2_eq_2 split: prod.splits)

lemma parens_loop_escaped:
  "parens_loop (escape_content c @ s) k 0 = parens_loop s (k + length (escape_content c)) 0"
  by (induction c arbitrary: k) (auto simp: escape_content_def parens_loop_escape_char add.assoc)

lemma unescapedParens_print:
  assumes "plain_tool tool"
  shows "unescapedParens (print_rule tool c) =
      ([length tool], [length tool + 1 + length (escape_content c)])"
proof -
  have "unescapedParens (print_rule tool c) = parens_loop (''('' @ escape_content c @ '')'') (length tool) 0"
    using assms parens_loop_plain [of tool "''('' @ escape_content c @ '')''" 0]
    by (simp only: unescapedParens_def print_rule_def plain_tool_def add_0)
  then show ?thesis by (simp add: parens_loop_escaped)
qed

lemma splitRuleText_print:
  "plain_tool tool \<Longrightarrow> splitRuleText (print_rule tool c) = Some (tool, escape_content c)"
  by (simp add: splitRuleText_def unescapedParens_print)
    (auto simp: plain_tool_def print_rule_def slice_def)

lemma escape_content_shape: "escape_content c = [] \<longleftrightarrow> c = []" "escape_content c = ''*'' \<longleftrightarrow> c = ''*''"
  by (metis unescape_escape unescape_nonempty, metis unescape_escape unescape_star)

lemma trim_print:
  assumes "plain_tool tool" "\<not> list_ex is_ws tool"
  shows "trim (print_rule tool c) = print_rule tool c"
proof -
  have "dropWhile is_ws (print_rule tool c) = print_rule tool c"
    using assms by (cases tool) (auto simp: print_rule_def plain_tool_def)
  moreover have "dropWhile is_ws (rev (print_rule tool c)) = rev (print_rule tool c)"
    by (simp add: print_rule_def is_ws_def)
  ultimately show ?thesis by (simp add: trim_def)
qed

lemma parseRule_print_content:
  assumes "plain_tool tool" "\<not> list_ex is_ws tool" "c \<noteq> []" "c \<noteq> ''*''"
  shows "parseRule url (print_rule tool c) = scoped tool (content_specifier url tool c)"
  using assms
  by (simp add: parseRule_def trim_print splitRuleText_print escape_content_shape unescape_escape)

subsection \<open>What the parser returns\<close>

text \<open>The well-formedness of a parsed rule.\<close>

definition specifier_allowed :: "string \<Rightarrow> specifier \<Rightarrow> bool" where
  "specifier_allowed tool spec =
     (case spec of
        WildcardAll \<Rightarrow> True
      | Invalid _ \<Rightarrow> startsWith tool ''mcp__'' \<or> tool = WEB_SEARCH_RULE_TOOL
      | WebFetchDomain _ \<Rightarrow> tool = ''WebFetch''
      | Param field _ \<Rightarrow>
          \<not> startsWith tool ''mcp__'' \<and> tool \<noteq> ''WebFetch'' \<and> tool \<noteq> WEB_SEARCH_RULE_TOOL
          \<and> tool \<noteq> SKILL_RULE_TOOL \<and> tool \<notin> set FILE_RULE_TOOLS
          \<and> (tool = ''Bash'' \<longrightarrow> field \<in> set BASH_PARAM_FIELDS)
      | Pattern source \<Rightarrow>
          \<not> startsWith tool ''mcp__'' \<and> tool \<noteq> WEB_SEARCH_RULE_TOOL \<and> source \<noteq> '''' \<and> source \<noteq> ''*'')"

definition rule_wf :: "parsed_rule \<Rightarrow> bool" where
  "rule_wf r \<longleftrightarrow>
     (isBareEquivalent r \<longleftrightarrow> specifier r = None \<or> specifier r = Some WildcardAll)
     \<and> (case specifier r of None \<Rightarrow> True
        | Some spec \<Rightarrow> specifier_allowed (toolName r) spec \<and> toolName r \<noteq> [] \<and> \<not> list_ex is_ws (toolName r))"

lemma content_specifier_allowed:
  assumes "c \<noteq> ''''" "c \<noteq> ''*''"
  shows "content_specifier url tool c \<noteq> WildcardAll" "specifier_allowed tool (content_specifier url tool c)"
  using assms
  by (auto simp: specifier_allowed_def content_specifier_def WEB_SEARCH_RULE_TOOL_def
      SKILL_RULE_TOOL_def FILE_RULE_TOOLS_def BASH_PARAM_FIELDS_def startsWith_def split: option.splits)

lemma parseRule_rule_wf: "rule_wf (parseRule url raw)"
proof (cases "splitRuleText (trim raw)")
  case None
  then show ?thesis by (simp add: parseRule_def rule_wf_def bare_def)
next
  case (Some p)
  then obtain tool rc where sp: "splitRuleText (trim raw) = Some (tool, rc)" by (cases p) auto
  then have "tool \<noteq> []" by (rule splitRuleText_lossless)
  then show ?thesis
    using content_specifier_allowed [where c = "unescapeRuleContent rc" and url = url and tool = tool]
    by (auto simp: sp parseRule_def rule_wf_def bare_def scoped_def unescape_nonempty unescape_star
        specifier_allowed_def [of tool WildcardAll])
qed

subsection \<open>Properties\<close>

text \<open>
  C34: writing a rule and parsing it back. For a plain tool name and any content other than the two
  whole-tool spellings, the rule text with its parentheses and backslashes escaped parses to that
  tool with the specifier of exactly that content; a \<open>Skill\<close> or file tool rule gives back the
  content itself.
\<close>

theorem parseRule_print_roundtrip:
  assumes "plain_tool tool" and "\<not> list_ex is_ws tool" and "content \<noteq> ''''" and "content \<noteq> ''*''"
  shows "parseRule url (print_rule tool content) =
      \<lparr>toolName = tool, specifier = Some (content_specifier url tool content), isBareEquivalent = False\<rparr>
    \<and> (tool \<in> insert SKILL_RULE_TOOL (set FILE_RULE_TOOLS) \<longrightarrow>
        specifier (parseRule url (print_rule tool content)) = Some (Pattern content))"
proof -
  have "tool \<in> insert SKILL_RULE_TOOL (set FILE_RULE_TOOLS) \<Longrightarrow> content_specifier url tool content = Pattern content"
    by (auto simp: content_specifier_def SKILL_RULE_TOOL_def FILE_RULE_TOOLS_def startsWith_def WEB_SEARCH_RULE_TOOL_def)
  then show ?thesis using parseRule_print_content [OF assms, of url] by (simp add: scoped_def)
qed

theorem parseRule_print_roundtrip_witness:
  "specifier (parseRule (\<lambda>_. None) (print_rule ''Read'' ''a (b)/**'')) = Some (Pattern ''a (b)/**'')"
proof -
  have "plain_tool ''Read''" "\<not> list_ex is_ws ''Read''" "''Read'' \<in> insert SKILL_RULE_TOOL (set FILE_RULE_TOOLS)"
    by (simp_all add: plain_tool_def is_ws_def backslash_def FILE_RULE_TOOLS_def)
  then show ?thesis using parseRule_print_roundtrip [of "''Read''" "''a (b)/**''" "\<lambda>_. None"] by blast
qed

text \<open>
  A rule text is split without loss: when it is read as a tool name with a content, the text is
  that name, an opening parenthesis, that content and a closing parenthesis, and the name is not
  empty.
\<close>

lemma splitRuleText_exact:
  assumes "splitRuleText txt = Some (tool, rawContent)"
  shows "txt = tool @ ''('' @ rawContent @ '')'' \<and> tool \<noteq> ''''"
  using splitRuleText_lossless [OF assms] by simp

text \<open>
  C37: every parsed rule is well formed, for every text and every URL parser: it is marked
  bare-equivalent exactly when it has no specifier or the whole-tool one; an MCP or \<open>WebSearch\<close>
  rule with content is invalid; a file, \<open>Skill\<close>, \<open>WebFetch\<close> or MCP rule is never read as a parameter rule
  and a \<open>Bash\<close> rule only for the fields that are parameters of \<open>Bash\<close>; a domain specifier belongs to
  \<open>WebFetch\<close>; no pattern is the whole-tool spelling in disguise.
\<close>

theorem parseRule_wf: "rule_wf (parseRule url raw)"
  by (rule parseRule_rule_wf)

end
