(* ===== verification/Shell_Scan.thy ===== *)
theory Shell_Scan
  imports JS_Prelude
begin

text \<open>
  The shared quote/parenthesis scanner of \<^verbatim>\<open>packages/runtime/src/permissions/grammar.ts\<close> and what
  is built directly on it: the parseability gate \<open>scanIfParseable\<close>, the word reader
  \<open>leadingWordAt\<close>, the line-continuation join and the compound-command splitter
  \<open>splitCompound\<close>. Lemmas: the scan marks every position, marks no quoting character, the join is
  idempotent and agrees with its fast path, and the splitter loses no text and leaves no command
  separator inside a part.
\<close>

subsection \<open>The scanner\<close>

definition PARSE_LIMIT :: nat where
  "PARSE_LIMIT = 50000"

record scan_info =
  topLevel :: "bool list"
  ok :: bool

datatype quote_kind = DoubleQ | SingleQ | BacktickQ | AnsiCQ

definition emit :: "'a list \<Rightarrow> 'a list \<times> 'b \<Rightarrow> 'a list \<times> 'b" where
  "emit bs r = (bs @ fst r, snd r)"

lemma fst_emit [simp]: "fst (emit bs r) = bs @ fst r"
  and snd_emit [simp]: "snd (emit bs r) = snd r"
  by (simp_all add: emit_def)

definition closing_char :: "quote_kind \<Rightarrow> char" where
  "closing_char q =
     (case q of DoubleQ \<Rightarrow> dquote | SingleQ \<Rightarrow> squote | BacktickQ \<Rightarrow> backtick | AnsiCQ \<Rightarrow> squote)"

definition opened_quote :: "char \<Rightarrow> bool \<Rightarrow> quote_kind" where
  "opened_quote ch afterDollar =
     (if ch = squote then (if afterDollar then AnsiCQ else SingleQ)
      else if ch = dquote then DoubleQ else BacktickQ)"

definition is_quote_char :: "char \<Rightarrow> bool" where
  "is_quote_char ch \<longleftrightarrow> ch = squote \<or> ch = dquote \<or> ch = backtick"

text \<open>
  The variables of the loop of \<open>scanShellLike\<close> (\<open>dollarAt = None\<close> is the initial \<open>-2\<close>), and its
  body: from the position, the variables, the character there and whether another one follows, the
  \<open>topLevel\<close> flags of the characters consumed (two when an escaped character is skipped) and the
  new variables.
\<close>

record scan_vars =
  depth :: nat
  quote :: "quote_kind option"
  okay :: bool
  dollarAt :: "nat option"

definition scan_step :: "nat \<Rightarrow> scan_vars \<Rightarrow> char \<Rightarrow> bool \<Rightarrow> bool list \<times> scan_vars" where
  "scan_step i v ch hasNext =
     (case quote v of
        Some q \<Rightarrow>
          if q \<noteq> SingleQ \<and> ch = backslash \<and> hasNext then ([False, False], v)
          else if ch = closing_char q then ([False], v\<lparr>quote := None\<rparr>)
          else ([False], v)
      | None \<Rightarrow>
          if ch = backslash then (if hasNext then ([False, False], v) else ([False], v))
          else if is_quote_char ch then
            ([False], v\<lparr>quote := Some (opened_quote ch (map_option Suc (dollarAt v) = Some i))\<rparr>)
          else
            (let v' = (if ch = CHR ''$'' then v\<lparr>dollarAt := Some i\<rparr> else v) in
             if ch = CHR ''('' then ([False], v'\<lparr>depth := depth v' + 1\<rparr>)
             else if ch = CHR '')'' then
               ([False], if depth v' = 0 then v'\<lparr>okay := False\<rparr> else v'\<lparr>depth := depth v' - 1\<rparr>)
             else ([depth v' = 0], v')))"

fun scan_loop :: "nat \<Rightarrow> scan_vars \<Rightarrow> string \<Rightarrow> bool list \<times> scan_vars" where
  "scan_loop i v [] = ([], v)"
| "scan_loop i v (ch # rest) =
     (let r = scan_step i v ch (rest \<noteq> [])
      in emit (fst r) (scan_loop (i + length (fst r)) (snd r) (drop (length (fst r) - 1) rest)))"

definition init_vars :: scan_vars where
  "init_vars = \<lparr>depth = 0, quote = None, okay = True, dollarAt = None\<rparr>"

definition scanShellLike :: "string \<Rightarrow> scan_info" where
  "scanShellLike s =
     (let r = scan_loop 0 init_vars s; v = snd r
      in \<lparr>topLevel = fst r, ok = (okay v \<and> quote v = None \<and> depth v = 0)\<rparr>)"

definition scanIfParseable :: "string \<Rightarrow> scan_info option" where
  "scanIfParseable command =
     (if length command > PARSE_LIMIT then None
      else (let info = scanShellLike command in if ok info then Some info else None))"

lemma scanIfParseable_code [code]:
  "scanIfParseable command =
     (if int (length command) > 50000 then None
      else (let info = scanShellLike command in if ok info then Some info else None))"
  by (simp add: scanIfParseable_def PARSE_LIMIT_def)

text \<open>\<open>topLevel[i] === true\<close>, and the \<open>isTop\<close> closure of the word readers.\<close>

definition top_at :: "scan_info \<Rightarrow> nat \<Rightarrow> bool" where
  "top_at info i \<longleftrightarrow> char_at (topLevel info) i = Some True"

definition is_top :: "scan_info \<Rightarrow> nat \<Rightarrow> bool" where
  "is_top info i \<longleftrightarrow> (if ok info then top_at info i else True)"

definition top_ws :: "string \<Rightarrow> scan_info \<Rightarrow> nat \<Rightarrow> bool" where
  "top_ws s info i \<longleftrightarrow> is_top info i \<and> is_ws (s ! i)"

definition leadingWordAt :: "string \<Rightarrow> scan_info \<Rightarrow> nat \<Rightarrow> string option \<times> nat" where
  "leadingWordAt s info start =
     (let i = scan_while (top_ws s info) (length s) start
      in if i \<ge> length s then (None, i)
         else (let e = scan_while (\<lambda>j. \<not> top_ws s info j) (length s) i
               in (Some (slice s i e), e)))"

definition leadingWord :: "string \<Rightarrow> string option \<times> string" where
  "leadingWord s = (case leadingWordAt s (scanShellLike s) 0 of (w, e) \<Rightarrow> (w, drop e s))"

subsection \<open>Line continuations\<close>

function join_loop :: "string \<Rightarrow> string" where
  "join_loop [] = []"
| "join_loop (c # s) =
     (if c \<noteq> backslash then c # join_loop s
      else
        (let run = Suc (length (takeWhile ((=) backslash) s));
             rest = dropWhile ((=) backslash) s
         in if rest \<noteq> [] \<and> hd rest = newline \<and> odd run
            then replicate (run - 1) backslash @ join_loop (tl rest)
            else replicate run backslash @ join_loop rest))"
  by pat_completeness auto
termination
  by (relation "measure length") (auto simp: le_imp_less_Suc diff_le_self [THEN le_less_trans] length_dropWhile_le)

definition joinLineContinuations :: "string \<Rightarrow> string" where
  "joinLineContinuations command =
     (if \<not> str_includes command [backslash, newline] then command else join_loop command)"

subsection \<open>Compound commands\<close>

text \<open>
  The loop of \<open>splitCompound\<close>: \<open>i\<close> is the scan position and \<open>segStart\<close> the start of the part
  being read; the result is the list of parts from there on, before trimming.
\<close>

function split_loop :: "string \<Rightarrow> scan_info \<Rightarrow> nat \<Rightarrow> nat \<Rightarrow> string list" where
  "split_loop command info i segStart =
     (if i < length command then
        if \<not> top_at info i then split_loop command info (i + 1) segStart
        else if command ! i = CHR ''|'' \<and> i > 0 \<and> top_at info (i - 1) \<and> command ! (i - 1) = CHR ''>''
          then split_loop command info (i + 1) segStart
        else if slice command i (i + 2) \<in> {''&&'', ''||'', ''|&''}
          then slice command segStart i # split_loop command info (i + 2) (i + 2)
        else if slice command i (i + 2) = ''&>''
          then split_loop command info (i + 2) segStart
        else if command ! i = CHR ''&'' then
          (if i > 0 \<and> command ! (i - 1) = CHR ''>'' then split_loop command info (i + 1) segStart
           else slice command segStart i # split_loop command info (i + 1) (i + 1))
        else if command ! i = CHR ''|'' \<or> command ! i = CHR '';'' \<or> command ! i = newline
          then slice command segStart i # split_loop command info (i + 1) (i + 1)
        else split_loop command info (i + 1) segStart
      else [drop segStart command])"
  by pat_completeness auto
termination
  by (relation "measure (\<lambda>(command, info, i, segStart). length command - i)") auto

declare split_loop.simps [simp del]

definition splitCompound :: "string \<Rightarrow> string list option" where
  "splitCompound rawCommand =
     (let command = joinLineContinuations rawCommand
      in case scanIfParseable command of
           None \<Rightarrow> None
         | Some info \<Rightarrow> Some (filter (\<lambda>p. p \<noteq> []) (map trim (split_loop command info 0 0))))"

subsection \<open>Facts on the scanner\<close>

definition syntax_char :: "char \<Rightarrow> bool" where
  "syntax_char c \<longleftrightarrow> c \<in> {backslash, squote, dquote, backtick, CHR ''('', CHR '')''}"

lemma scan_step_flags:
  "fst (scan_step i v ch hasNext) = [False]
   \<or> (fst (scan_step i v ch hasNext) = [False, False] \<and> hasNext)
   \<or> (fst (scan_step i v ch hasNext) = [True] \<and> \<not> syntax_char ch)"
  by (cases "quote v")
    (auto simp: scan_step_def Let_def syntax_char_def is_quote_char_def)

lemma scan_loop_length [simp]: "length (fst (scan_loop i v s)) = length s"
proof (induction i v s rule: scan_loop.induct)
  case (1 i v)
  then show ?case by simp
next
  case (2 i v ch rest)
  then show ?case
    using scan_step_flags [of i v ch "rest \<noteq> []"] by (cases rest) (auto simp: Let_def)
qed

lemma scanShellLike_length [simp]: "length (topLevel (scanShellLike s)) = length s"
  by (simp add: scanShellLike_def Let_def)

lemma scan_loop_top_plain:
  "j < length s \<Longrightarrow> fst (scan_loop i v s) ! j \<Longrightarrow> \<not> syntax_char (s ! j)"
proof (induction i v s arbitrary: j rule: scan_loop.induct)
  case (1 i v)
  then show ?case by simp
next
  case (2 i v ch rest)
  let ?r = "scan_step i v ch (rest \<noteq> [])"
  consider "fst ?r = [False]" | "fst ?r = [False, False]" "rest \<noteq> []"
    | "fst ?r = [True]" "\<not> syntax_char ch"
    using scan_step_flags by blast
  then show ?case
  proof cases
    case 1
    with 2 show ?thesis by (cases j) (auto simp: Let_def)
  next
    case c: 2
    then obtain d rest' where r: "rest = d # rest'" by (cases rest) auto
    from c(1) "2.prems"(2) obtain m where m: "j = Suc (Suc m)"
      by (cases j; cases "j - 1") (auto simp: Let_def nth_Cons split: nat.splits)
    with c r 2 show ?thesis by (auto simp: Let_def)
  next
    case 3
    with 2 show ?thesis by (cases j) (auto simp: Let_def)
  qed
qed

lemma top_at_plain: "top_at (scanShellLike s) i \<Longrightarrow> i < length s \<and> \<not> syntax_char (s ! i)"
  using scan_loop_top_plain [of i s 0 init_vars]
  by (auto simp: scanShellLike_def top_at_def char_at_def Let_def split: if_splits)

text \<open>Text without quoting, escaping or parentheses is top level throughout.\<close>

lemma scan_loop_plain:
  "quote v = None \<Longrightarrow> depth v = 0 \<Longrightarrow> \<forall>c\<in>set s. \<not> syntax_char c \<Longrightarrow>
    fst (scan_loop i v s) = replicate (length s) True \<and>
    quote (snd (scan_loop i v s)) = None \<and> depth (snd (scan_loop i v s)) = 0 \<and>
    okay (snd (scan_loop i v s)) = okay v"
proof (induction s arbitrary: i v)
  case Nil
  then show ?case by simp
next
  case (Cons c s)
  let ?v = "if c = CHR ''$'' then v\<lparr>dollarAt := Some i\<rparr> else v"
  from Cons.prems have "scan_step i v c (s \<noteq> []) = ([True], ?v)"
    by (auto simp: scan_step_def syntax_char_def is_quote_char_def Let_def)
  with Cons show ?case by (simp add: Let_def)
qed

lemma scanShellLike_plain:
  "\<forall>c\<in>set s. \<not> syntax_char c \<Longrightarrow> scanShellLike s = \<lparr>topLevel = replicate (length s) True, ok = True\<rparr>"
  using scan_loop_plain [of init_vars s 0]
  by (simp add: scanShellLike_def Let_def init_vars_def)

lemma top_at_all [simp]: "top_at \<lparr>topLevel = replicate n True, ok = b\<rparr> i \<longleftrightarrow> i < n"
  by (simp add: top_at_def char_at_def)

lemma scanIfParseable_Some:
  "scanIfParseable s = Some info \<longleftrightarrow> length s \<le> PARSE_LIMIT \<and> info = scanShellLike s \<and> ok info"
  by (auto simp: scanIfParseable_def Let_def)

lemma leadingWordAt_end [scan_bounds]:
  "start \<le> length s \<Longrightarrow> start \<le> snd (leadingWordAt s info start) \<and> snd (leadingWordAt s info start) \<le> length s"
  by (auto simp: leadingWordAt_def Let_def scan_while_le intro: order_trans [OF scan_while_ge])

lemma leadingWordAt_Some:
  assumes "leadingWordAt s info st = (Some w, e)"
  shows "st < e" "e \<le> length s"
    "\<exists>i. st \<le> i \<and> i < e \<and> \<not> top_ws s info i \<and> w = slice s i e"
proof -
  from assms obtain i where i: "i = scan_while (top_ws s info) (length s) st" "i < length s"
    and e: "e = scan_while (\<lambda>j. \<not> top_ws s info j) (length s) i" and w: "w = slice s i e"
    by (auto simp: leadingWordAt_def Let_def split: if_splits)
  from i have nws: "\<not> top_ws s info i" by (metis scan_while_stop)
  with i(2) e have "e = scan_while (\<lambda>j. \<not> top_ws s info j) (length s) (Suc i)"
    by (simp add: scan_while.simps [of _ _ i])
  then have "Suc i \<le> e" by simp
  moreover from i(1) have "st \<le> i" by simp
  ultimately show "st < e" "\<exists>i. st \<le> i \<and> i < e \<and> \<not> top_ws s info i \<and> w = slice s i e"
    using nws w by auto
  show "e \<le> length s" using e i(2) by (simp add: scan_while_le)
qed

subsection \<open>The continuation join against bash's own reading\<close>

text \<open>
  Bash reads a backslash together with the character after it: the pair is kept, unless that
  character is a newline, in which case both vanish.
\<close>

fun bash_join :: "string \<Rightarrow> string" where
  "bash_join [] = []"
| "bash_join [c] = [c]"
| "bash_join (c # d # s) =
     (if c = backslash then (if d = newline then bash_join s else c # d # bash_join s)
      else c # bash_join (d # s))"

lemma bash_join_plain: "c \<noteq> backslash \<Longrightarrow> bash_join (c # s) = c # bash_join s"
  by (cases s) auto

lemma bash_join_even_run:
  "bash_join (replicate (2 * n) backslash @ s) = replicate (2 * n) backslash @ bash_join s"
  by (induction n) auto

lemma bash_join_run:
  assumes "s = [] \<or> hd s \<noteq> backslash"
  shows "bash_join (replicate n backslash @ s) =
    (if s \<noteq> [] \<and> hd s = newline \<and> odd n then replicate (n - 1) backslash @ bash_join (tl s)
     else replicate n backslash @ bash_join s)"
proof (cases "even n")
  case True
  then show ?thesis using bash_join_even_run [of "n div 2" s] by simp
next
  case False
  then obtain k where n: "n = 2 * k + 1" by (auto elim: oddE)
  then have e: "replicate n backslash = replicate (2 * k) backslash @ [backslash]"
    by (simp add: replicate_append_same)
  show ?thesis
    unfolding e using assms n
    by (cases s) (auto simp: bash_join_even_run bash_join_plain)
qed

lemma replicate_takeWhile: "replicate (length (takeWhile ((=) c) s)) c = takeWhile ((=) c) s"
  by (metis (full_types) replicate_length_same set_takeWhileD)

lemma join_loop_bash_join: "join_loop s = bash_join s"
proof (induction s rule: join_loop.induct)
  case 1
  then show ?case by simp
next
  case (2 c s)
  let ?run = "Suc (length (takeWhile ((=) backslash) s))"
  let ?rest = "dropWhile ((=) backslash) s"
  show ?case
  proof (cases "c = backslash")
    case True
    have "c # s = replicate ?run backslash @ ?rest"
      using True by (simp add: replicate_takeWhile)
    moreover have "?rest = [] \<or> hd ?rest \<noteq> backslash"
      by (metis (full_types) hd_dropWhile)
    ultimately have "bash_join (c # s) =
        (if ?rest \<noteq> [] \<and> hd ?rest = newline \<and> odd ?run
         then replicate (?run - 1) backslash @ bash_join (tl ?rest)
         else replicate ?run backslash @ bash_join ?rest)"
      using bash_join_run by metis
    then show ?thesis using 2 True by (auto simp: Let_def)
  next
    case False
    with 2 show ?thesis by (simp add: bash_join_plain)
  qed
qed

lemma bash_join_no_continuation:
  "\<not> str_includes s [backslash, newline] \<Longrightarrow> bash_join s = s"
  by (induction s rule: bash_join.induct) (auto simp: startsWith_def split: if_splits)

lemma joinLineContinuations_bash_join: "joinLineContinuations s = bash_join s"
  by (simp add: joinLineContinuations_def join_loop_bash_join bash_join_no_continuation)

lemma bash_join_no_backslash: "backslash \<notin> set s \<Longrightarrow> bash_join s = s"
  by (induction s rule: bash_join.induct) auto

lemma bash_join_idem: "bash_join (bash_join s) = bash_join s"
  by (induction s rule: bash_join.induct) (auto simp: bash_join_plain)

lemma joinLineContinuations_idem:
  "joinLineContinuations (joinLineContinuations s) = joinLineContinuations s"
  by (simp add: joinLineContinuations_bash_join bash_join_idem)

subsection \<open>What the splitter keeps and where it cuts\<close>

definition separators :: "string list" where
  "separators = [''&&'', ''||'', ''|&'', ''&'', ''|'', '';'', [newline]]"

text \<open>Parts and the operators between them, put back together.\<close>

fun weave :: "string list \<Rightarrow> string list \<Rightarrow> string" where
  "weave (p # ps) (q # qs) = p @ q @ weave ps qs"
| "weave (p # ps) [] = p"
| "weave [] qs = []"

text \<open>
  A position the splitter cuts at: outside quotes and parentheses, a semicolon, a newline, a bar
  that is not the second half of the redirection \<open>>|\<close>, or an ampersand that is part of neither
  \<open>>&\<close> nor \<open>&>\<close>.
\<close>

definition separator_at :: "string \<Rightarrow> scan_info \<Rightarrow> nat \<Rightarrow> bool" where
  "separator_at command info i \<longleftrightarrow>
     i < length command \<and> top_at info i \<and>
     (command ! i = CHR '';'' \<or> command ! i = newline
      \<or> (command ! i = CHR ''|'' \<and>
           \<not> (i > 0 \<and> top_at info (i - 1) \<and> command ! (i - 1) = CHR ''>''))
      \<or> (command ! i = CHR ''&'' \<and>
           \<not> (i > 0 \<and> command ! (i - 1) = CHR ''>'') \<and>
           \<not> (i + 1 < length command \<and> command ! (i + 1) = CHR ''>'')))"

fun parts_avoid :: "(nat \<Rightarrow> bool) \<Rightarrow> nat \<Rightarrow> string list \<Rightarrow> string list \<Rightarrow> bool" where
  "parts_avoid P off (p # ps) (q # qs) =
     ((\<forall>j<length p. \<not> P (off + j)) \<and> parts_avoid P (off + length p + length q) ps qs)"
| "parts_avoid P off [p] [] = (\<forall>j<length p. \<not> P (off + j))"
| "parts_avoid P off ps qs = False"

lemma slice2_eq:
  "slice s i (i + 2) = [a, b] \<longleftrightarrow> i + 1 < length s \<and> s ! i = a \<and> s ! (i + 1) = b"
proof -
  have "take 2 (drop i s) = [a, b] \<longleftrightarrow> Suc 0 < length (drop i s) \<and> drop i s ! 0 = a \<and> drop i s ! Suc 0 = b"
    by (cases "drop i s"; cases "tl (drop i s)") (auto simp: numeral_2_eq_2)
  also have "\<dots> \<longleftrightarrow> i + 1 < length s \<and> s ! i = a \<and> s ! (i + 1) = b"
    by (auto simp: less_diff_conv)
  finally show ?thesis by (simp add: slice_def)
qed

lemma slice2_eq_Suc:
  "slice s i (Suc (Suc i)) = [a, b] \<longleftrightarrow> i + 1 < length s \<and> s ! i = a \<and> s ! (i + 1) = b"
  using slice2_eq by simp

lemma slice1_eq: "i < length s \<Longrightarrow> slice s i (i + 1) = [s ! i]"
  by (simp add: slice_def take_Suc_conv_app_nth)

lemma split_loop_step:
  assumes "i < length command"
  shows
    "(\<exists>n. 0 < n \<and> i + n \<le> length command \<and>
        split_loop command info i segStart = split_loop command info (i + n) segStart \<and>
        (\<forall>pos. i \<le> pos \<and> pos < i + n \<longrightarrow> \<not> separator_at command info pos))
     \<or> (\<exists>n. 0 < n \<and> i + n \<le> length command \<and>
        split_loop command info i segStart =
          slice command segStart i # split_loop command info (i + n) (i + n) \<and>
        slice command i (i + n) \<in> set separators)"
    (is "?advance \<or> ?cut")
proof -
  note unf = split_loop.simps [of command info i segStart] assms
  have adv1: ?advance
    if "split_loop command info i segStart = split_loop command info (i + 1) segStart"
      "\<not> separator_at command info i"
    using that assms by (intro exI [of _ 1]) (auto simp: less_Suc_eq le_less_Suc_eq)
  have cut1: ?cut
    if "split_loop command info i segStart = slice command segStart i # split_loop command info (i + 1) (i + 1)"
      "[command ! i] \<in> set separators"
    using that assms slice1_eq [OF assms] by (intro exI [of _ 1]) auto
  consider (notop) "\<not> top_at info i"
    | (clobber) "top_at info i" "command ! i = CHR ''|''" "i > 0" "top_at info (i - 1)" "command ! (i - 1) = CHR ''>''"
    | (two) "top_at info i" "slice command i (i + 2) \<in> {''&&'', ''||'', ''|&''}"
        "\<not> (command ! i = CHR ''|'' \<and> i > 0 \<and> top_at info (i - 1) \<and> command ! (i - 1) = CHR ''>'')"
    | (both) "top_at info i" "slice command i (i + 2) = ''&>''"
    | (amp) "top_at info i" "command ! i = CHR ''&''" "slice command i (i + 2) \<notin> {''&&'', ''||'', ''|&'', ''&>''}"
    | (one) "top_at info i" "command ! i = CHR ''|'' \<or> command ! i = CHR '';'' \<or> command ! i = newline"
        "\<not> (command ! i = CHR ''|'' \<and> i > 0 \<and> top_at info (i - 1) \<and> command ! (i - 1) = CHR ''>'')"
        "slice command i (i + 2) \<notin> {''&&'', ''||'', ''|&'', ''&>''}"
    | (other) "top_at info i" "command ! i \<notin> {CHR ''|'', CHR ''&'', CHR '';'', newline}"
    by blast
  then show ?thesis
  proof cases
    case notop
    then show ?thesis using adv1 unf by (simp add: separator_at_def)
  next
    case clobber
    then show ?thesis using adv1 unf by (simp add: separator_at_def newline_def)
  next
    case two
    then have "i + 2 \<le> length command" by (auto simp: slice2_eq slice2_eq_Suc)
    moreover have "split_loop command info i segStart =
        slice command segStart i # split_loop command info (i + 2) (i + 2)"
      using two unf by auto
    moreover have "slice command i (i + 2) \<in> set separators"
      using two(2) by (auto simp: separators_def)
    ultimately show ?thesis by (intro disjI2 exI [of _ 2]) simp
  next
    case both
    then have b: "i + 1 < length command" "command ! i = CHR ''&''" "command ! (i + 1) = CHR ''>''"
      by (simp_all only: slice2_eq)
    have "\<not> separator_at command info pos" if "i \<le> pos \<and> pos < i + 2" for pos
      using that b by (cases "pos = i") (auto simp: separator_at_def newline_def le_less_Suc_eq less_Suc_eq)
    moreover have "split_loop command info i segStart = split_loop command info (i + 2) segStart"
      using both b unf by simp
    ultimately show ?thesis using b by (intro disjI1 exI [of _ 2]) simp
  next
    case amp
    show ?thesis
    proof (cases "i > 0 \<and> command ! (i - 1) = CHR ''>''")
      case True
      with amp have "split_loop command info i segStart = split_loop command info (i + 1) segStart"
        using unf by auto
      moreover from True amp have "\<not> separator_at command info i"
        by (simp add: separator_at_def newline_def)
      ultimately show ?thesis using adv1 by blast
    next
      case False
      with amp have "split_loop command info i segStart =
          slice command segStart i # split_loop command info (i + 1) (i + 1)"
        using unf by auto
      moreover from amp have "[command ! i] \<in> set separators" by (simp add: separators_def)
      ultimately show ?thesis using cut1 by blast
    qed
  next
    case one
    then have "split_loop command info i segStart =
        slice command segStart i # split_loop command info (i + 1) (i + 1)"
      using unf by (auto simp: newline_def)
    moreover from one have "[command ! i] \<in> set separators" by (auto simp: separators_def)
    ultimately show ?thesis using cut1 by blast
  next
    case other
    then have "slice command i (i + 2) \<notin> {''&&'', ''||'', ''|&'', ''&>''}"
      by (auto simp: slice2_eq slice2_eq_Suc)
    with other have "split_loop command info i segStart = split_loop command info (i + 1) segStart"
      using unf by auto
    moreover from other have "\<not> separator_at command info i" by (simp add: separator_at_def)
    ultimately show ?thesis using adv1 by blast
  qed
qed

lemma drop_slice: "i \<le> j \<Longrightarrow> drop i s = slice s i j @ drop j s"
  by (simp add: slice_def) (metis append_take_drop_id drop_drop le_add_diff_inverse2)

lemma split_loop_parts:
  assumes "segStart \<le> i" and "i \<le> length command"
    and "\<forall>pos. segStart \<le> pos \<and> pos < i \<longrightarrow> \<not> separator_at command info pos"
  shows "\<exists>ops. set ops \<subseteq> set separators
    \<and> weave (split_loop command info i segStart) ops = drop segStart command
    \<and> parts_avoid (separator_at command info) segStart (split_loop command info i segStart) ops"
  using assms
proof (induction "length command - i" arbitrary: i segStart rule: less_induct)
  case less
  show ?case
  proof (cases "i < length command")
    case False
    then have "split_loop command info i segStart = [drop segStart command]"
      by (subst split_loop.simps) simp
    moreover from False less.prems have "i = length command" by simp
    ultimately show ?thesis using less.prems by (intro exI [of _ "[]"]) auto
  next
    case True
    then consider
      (advance) n where "0 < n" "i + n \<le> length command"
        "split_loop command info i segStart = split_loop command info (i + n) segStart"
        "\<forall>pos. i \<le> pos \<and> pos < i + n \<longrightarrow> \<not> separator_at command info pos"
    | (cut) n where "0 < n" "i + n \<le> length command"
        "split_loop command info i segStart =
          slice command segStart i # split_loop command info (i + n) (i + n)"
        "slice command i (i + n) \<in> set separators"
      using split_loop_step [OF True, of info segStart] by blast
    then show ?thesis
    proof cases
      case advance
      have "\<forall>pos. segStart \<le> pos \<and> pos < i + n \<longrightarrow> \<not> separator_at command info pos"
        using less.prems(3) advance(4) by (meson not_less)
      moreover have "length command - (i + n) < length command - i" using advance(1) True by simp
      ultimately show ?thesis
        using less.hyps [of "i + n" segStart] less.prems(1) advance by simp
    next
      case cut
      have "length command - (i + n) < length command - i" using cut(1) True by simp
      then obtain ops where ops: "set ops \<subseteq> set separators"
        "weave (split_loop command info (i + n) (i + n)) ops = drop (i + n) command"
        "parts_avoid (separator_at command info) (i + n) (split_loop command info (i + n) (i + n)) ops"
        using less.hyps [of "i + n" "i + n"] cut(2) by fastforce
      have len: "length (slice command segStart i) = i - segStart" "length (slice command i (i + n)) = n"
        using less.prems(1,2) cut(2) by (simp_all add: slice_def)
      have "drop segStart command = slice command segStart i @ slice command i (i + n) @ drop (i + n) command"
        using less.prems(1) drop_slice [of segStart i command] drop_slice [of i "i + n" command] by simp
      with ops cut len less.prems show ?thesis
        by (intro exI [of _ "slice command i (i + n) # ops"]) auto
    qed
  qed
qed

subsection \<open>Properties\<close>

text \<open>
  Where a shell separates commands, said without the splitter: outside quotes and parentheses, a semicolon, a newline, and a bar or an ampersand that belongs to
  no redirection operator. A \<open>>\<close> begins a redirection operator only where it stands outside quotes and parentheses itself and is not escaped.
\<close>

definition redirects_before :: "string \<Rightarrow> scan_info \<Rightarrow> nat \<Rightarrow> bool" where
  "redirects_before command info i \<longleftrightarrow> i > 0 \<and> command ! (i - 1) = CHR ''>'' \<and> top_at info (i - 1)"

definition shell_separator :: "string \<Rightarrow> scan_info \<Rightarrow> nat \<Rightarrow> bool" where
  "shell_separator command info i \<longleftrightarrow>
     i < length command \<and> top_at info i
     \<and> (command ! i \<in> {CHR '';'', newline}
        \<or> command ! i \<in> {CHR ''|'', CHR ''&''} \<and> \<not> redirects_before command info i
          \<and> \<not> (command ! i = CHR ''&'' \<and> i + 1 < length command \<and> command ! (i + 1) = CHR ''>''))"

text \<open>The one separator the splitter passes over: an ampersand after a \<open>>\<close> that is an ordinary character.\<close>

definition hidden_ampersand :: "string \<Rightarrow> scan_info \<Rightarrow> nat \<Rightarrow> bool" where
  "hidden_ampersand command info i \<longleftrightarrow>
     command ! i = CHR ''&'' \<and> i > 0 \<and> command ! (i - 1) = CHR ''>'' \<and> \<not> top_at info (i - 1)"

lemma separator_cut: "shell_separator command info i \<Longrightarrow> hidden_ampersand command info i \<or> separator_at command info i"
  by (auto simp: shell_separator_def hidden_ampersand_def separator_at_def redirects_before_def)

lemma parts_avoid_mono: "parts_avoid P off ps qs \<Longrightarrow> (\<And>i. Q i \<Longrightarrow> P i) \<Longrightarrow> parts_avoid Q off ps qs"
  by (induction P off ps qs rule: parts_avoid.induct) auto

text \<open>
  C29: splitting a compound command loses nothing and leaves no separator behind, but for one case. The parts
  \<open>splitCompound\<close> returns are the trimmed non-blank pieces of the command; the pieces and the shell
  operators between them spell the whole command (after line continuations are joined), and the only separators of the shell that a
  piece can still hold are ampersands right after a \<open>>\<close> that is escaped, quoted or in parentheses, and so is no redirection.
\<close>

theorem splitCompound_lossless:
  assumes "splitCompound rawCommand = Some parts"
  shows "\<exists>pieces ops. set ops \<subseteq> set separators
    \<and> weave pieces ops = joinLineContinuations rawCommand
    \<and> parts_avoid (\<lambda>i. shell_separator (joinLineContinuations rawCommand) (scanShellLike (joinLineContinuations rawCommand)) i
          \<and> \<not> hidden_ampersand (joinLineContinuations rawCommand) (scanShellLike (joinLineContinuations rawCommand)) i) 0 pieces ops
    \<and> parts = filter (\<lambda>p. p \<noteq> []) (map trim pieces)"
proof -
  let ?c = "joinLineContinuations rawCommand"
  have "scanIfParseable ?c = Some (scanShellLike ?c)"
    using assms by (auto simp: splitCompound_def scanIfParseable_def Let_def split: if_splits)
  moreover from this have "parts = filter (\<lambda>p. p \<noteq> []) (map trim (split_loop ?c (scanShellLike ?c) 0 0))"
    using assms by (simp add: splitCompound_def Let_def)
  moreover obtain ops where "set ops \<subseteq> set separators" "weave (split_loop ?c (scanShellLike ?c) 0 0) ops = ?c"
    "parts_avoid (separator_at ?c (scanShellLike ?c)) 0 (split_loop ?c (scanShellLike ?c) 0 0) ops"
    using split_loop_parts [of 0 0 ?c "scanShellLike ?c"] by auto
  moreover have "parts_avoid (\<lambda>i. shell_separator ?c (scanShellLike ?c) i \<and> \<not> hidden_ampersand ?c (scanShellLike ?c) i) 0
      (split_loop ?c (scanShellLike ?c) 0 0) ops"
    by (rule parts_avoid_mono) (use calculation separator_cut in blast)+
  ultimately show ?thesis by blast
qed

theorem splitCompound_lossless_witness:
  "splitCompound ''cd x && ls -l | wc'' = Some [''cd x'', ''ls -l'', ''wc''] \<and>
    (\<exists>pieces ops. set ops \<subseteq> set separators \<and> weave pieces ops = ''cd x && ls -l | wc''
      \<and> [''cd x'', ''ls -l'', ''wc''] = filter (\<lambda>p. p \<noteq> []) (map trim pieces))"
proof -
  have s: "splitCompound ''cd x && ls -l | wc'' = Some [''cd x'', ''ls -l'', ''wc'']" by code_simp
  have "joinLineContinuations ''cd x && ls -l | wc'' = ''cd x && ls -l | wc''" by code_simp
  with s splitCompound_lossless [OF s] show ?thesis by auto
qed

text \<open>
  \<open>joinLineContinuations\<close>, which counts runs of backslashes, removes exactly the line
  continuations a shell removes: it equals the reference reader that goes left to right taking an
  escaped character with its backslash, and applying it twice changes nothing more.
\<close>

theorem joinLineContinuations_correct:
  "joinLineContinuations s = bash_join s
    \<and> joinLineContinuations (joinLineContinuations s) = joinLineContinuations s"
  by (simp add: joinLineContinuations_bash_join bash_join_idem)

end
