(* ===== verification/Shell_Words.thy ===== *)
theory Shell_Words
  imports Shell_Scan
begin

text \<open>
  Bash's quote removal and word splitting (\<open>shellWords\<close>, \<open>decodeAnsiCEscape\<close>, \<open>dequoteShellWord\<close>,
  \<open>shellWordReadings\<close> of \<^verbatim>\<open>permissions/grammar.ts\<close>). Lemmas: unquoted text is its own reading,
  a single-quoted text reads as its contents, the two readings agree on a word without a backslash,
  and reading without splitting gives one word.
\<close>

subsection \<open>ANSI-C escapes\<close>

definition is_hex :: "char \<Rightarrow> bool" where
  "is_hex c \<longleftrightarrow> is_digit c \<or> (of_char c \<in> {97..102::nat}) \<or> (of_char c \<in> {65..70::nat})"

definition is_octal :: "char \<Rightarrow> bool" where
  "is_octal c \<longleftrightarrow> (48::nat) \<le> of_char c \<and> of_char c \<le> (55::nat)"

definition digit_val :: "char \<Rightarrow> nat" where
  "digit_val c =
     (let n = of_char c :: nat
      in if n \<ge> 97 then n - 87 else if n \<ge> 65 then n - 55 else n - 48)"

text \<open>\<open>Number.parseInt\<close> on a string of digits of the base.\<close>

definition parse_base :: "nat \<Rightarrow> string \<Rightarrow> nat" where
  "parse_base b ds = foldl (\<lambda>a c. a * b + digit_val c) 0 ds"

definition ANSI_C_SIMPLE_ESCAPES :: "(char \<times> char) list" where
  "ANSI_C_SIMPLE_ESCAPES =
     [(CHR ''n'', CHR 0x0A), (CHR ''t'', CHR 0x09), (CHR ''r'', CHR 0x0D), (CHR ''a'', CHR 0x07),
      (CHR ''b'', CHR 0x08), (CHR ''e'', CHR 0x1B), (CHR ''E'', CHR 0x1B), (CHR ''f'', CHR 0x0C),
      (CHR ''v'', CHR 0x0B), (backslash, backslash), (squote, squote), (dquote, dquote),
      (CHR ''?'', CHR ''?'')]"

text \<open>
  \<open>numeric\<close>: a run of at most \<open>k\<close> hexadecimal digits, as a code point; \<open>None\<close> when there is none.
\<close>

definition ansi_numeric :: "nat \<Rightarrow> string \<Rightarrow> (string \<times> string) option" where
  "ansi_numeric k r =
     (let ds = takeWhile is_hex (take k r)
      in if ds = [] then None
         else Some (fromCodePoint (parse_base 16 ds mod 1114112), drop (length ds) r))"

text \<open>
  The argument is the text just after the backslash; the result is the decoded text and what
  follows the escape. (\<open>\c\<close> takes the low five bits of the next code unit; for a unit the model
  represents as \<open>CHR 0xFF\<close> these are the low bits of that representative.)
\<close>

definition decodeAnsiCEscape :: "string \<Rightarrow> string \<times> string" where
  "decodeAnsiCEscape t =
     (case t of
        [] \<Rightarrow> ([backslash], [])
      | ch # r \<Rightarrow>
          (case map_of ANSI_C_SIMPLE_ESCAPES ch of
             Some x \<Rightarrow> ([x], r)
           | None \<Rightarrow>
               if ch = CHR ''x'' then the_default ([backslash, ch], r) (ansi_numeric 2 r)
               else if ch = CHR ''u'' then the_default ([backslash, ch], r) (ansi_numeric 4 r)
               else if ch = CHR ''U'' then the_default ([backslash, ch], r) (ansi_numeric 8 r)
               else if is_octal ch then
                 (let ds = takeWhile is_octal (take 3 t)
                  in ([char_of (parse_base 8 ds mod 256)], drop (length ds) t))
               else if ch = CHR ''c'' \<and> r \<noteq> [] then ([char_of (of_char (hd r) mod (32::nat))], tl r)
               else ([backslash, ch], r)))"

lemma ansi_numeric_length: "length (snd (the_default (x, r) (ansi_numeric k r))) \<le> length r"
  by (simp add: ansi_numeric_def the_default_def Let_def)

lemma decodeAnsiCEscape_length: "length (snd (decodeAnsiCEscape t)) \<le> length t"
proof (cases t)
  case Nil
  then show ?thesis by (simp add: decodeAnsiCEscape_def)
next
  case (Cons ch r)
  show ?thesis
  proof (cases "map_of ANSI_C_SIMPLE_ESCAPES ch")
    case None
    note le = ansi_numeric_length [THEN le_SucI]
    show ?thesis
      unfolding decodeAnsiCEscape_def Cons list.case None option.case
      by (simp only: split: if_split) (auto simp: le Let_def)
  next
    case (Some x)
    with Cons show ?thesis by (simp add: decodeAnsiCEscape_def)
  qed
qed

subsection \<open>Words\<close>

record shell_word =
  word :: string
  raw :: string
  quoted :: bool

datatype quote_reading = Bash | Broad

datatype word_quote = WDouble | WSingle | WAnsiC

record word_vars =
  cur :: string
  start :: "nat option"
  wquoted :: bool
  wquote :: "word_quote option"

definition DOUBLE_QUOTE_ESCAPABLE :: "char list" where
  "DOUBLE_QUOTE_ESCAPABLE = [CHR ''$'', backtick, dquote, backslash, newline]"

definition fresh_vars :: word_vars where
  "fresh_vars = \<lparr>cur = [], start = None, wquoted = False, wquote = None\<rparr>"

text \<open>The closure \<open>end(i)\<close>: the word read so far, if one was started.\<close>

definition word_end :: "string \<Rightarrow> word_vars \<Rightarrow> nat \<Rightarrow> shell_word list" where
  "word_end s v i =
     (case start v of
        None \<Rightarrow> []
      | Some st \<Rightarrow> [\<lparr>word = cur v, raw = slice s st i, quoted = wquoted v\<rparr>])"

text \<open>
  One iteration inside a word: the character, the text after it and the new variables with the text
  still to read.
\<close>

definition word_step :: "nat \<Rightarrow> quote_reading \<Rightarrow> word_vars \<Rightarrow> char \<Rightarrow> string \<Rightarrow> word_vars \<times> string" where
  "word_step i reading v ch rest =
     (case wquote v of
        Some WSingle \<Rightarrow>
          (if ch = squote then v\<lparr>wquote := None\<rparr> else v\<lparr>cur := cur v @ [ch]\<rparr>, rest)
      | Some WAnsiC \<Rightarrow>
          if ch = squote then (v\<lparr>wquote := None\<rparr>, rest)
          else if ch = backslash then
            (let d = decodeAnsiCEscape rest in (v\<lparr>cur := cur v @ fst d\<rparr>, snd d))
          else (v\<lparr>cur := cur v @ [ch]\<rparr>, rest)
      | Some WDouble \<Rightarrow>
          if ch = dquote then (v\<lparr>wquote := None\<rparr>, rest)
          else if ch = backslash \<and> rest \<noteq> [] then
            (if reading = Bash \<and> hd rest \<notin> set DOUBLE_QUOTE_ESCAPABLE
               then v\<lparr>cur := cur v @ [ch, hd rest]\<rparr>
             else if hd rest \<noteq> newline then v\<lparr>cur := cur v @ [hd rest]\<rparr>
             else v, tl rest)
          else (v\<lparr>cur := cur v @ [ch]\<rparr>, rest)
      | None \<Rightarrow>
          (let v' = (if start v = None then v\<lparr>start := Some i\<rparr> else v) in
           if ch = backslash then
             (v'\<lparr>wquoted := True, cur := cur v' @ (if rest \<noteq> [] \<and> hd rest \<noteq> newline then [hd rest] else [])\<rparr>,
              drop 1 rest)
           else if ch = CHR ''$'' \<and> rest \<noteq> [] \<and> (hd rest = squote \<or> hd rest = dquote) then
             (v'\<lparr>wquote := Some (if hd rest = squote then WAnsiC else WDouble), wquoted := True\<rparr>, tl rest)
           else if ch = squote \<or> ch = dquote then
             (v'\<lparr>wquote := Some (if ch = squote then WSingle else WDouble), wquoted := True\<rparr>, rest)
           else (v'\<lparr>cur := cur v' @ [ch]\<rparr>, rest)))"

lemma word_step_length: "length (snd (word_step i reading v ch rest)) \<le> length rest"
proof (cases "wquote v")
  case None
  then show ?thesis by (simp add: word_step_def Let_def)
next
  case (Some q)
  then show ?thesis
    by (cases q) (simp_all add: word_step_def Let_def decodeAnsiCEscape_length)
qed

function words_loop ::
  "string \<Rightarrow> bool \<Rightarrow> quote_reading \<Rightarrow> word_vars \<Rightarrow> string \<Rightarrow> shell_word list" where
  "words_loop s splitting reading v [] = word_end s v (length s)"
| "words_loop s splitting reading v (ch # rest) =
     (let i = length s - length (ch # rest) in
      if wquote v = None \<and> splitting \<and> is_ws ch
      then word_end s v i @ words_loop s splitting reading fresh_vars rest
      else (let r = word_step i reading v ch rest in words_loop s splitting reading (fst r) (snd r)))"
  by pat_completeness auto
termination
  by (relation "measure (\<lambda>(s, sp, r, v, t). length t)") (auto simp: le_imp_less_Suc word_step_length case_prod_beta)

definition shellWords :: "string \<Rightarrow> bool \<Rightarrow> quote_reading \<Rightarrow> shell_word list" where
  "shellWords s splitting reading = words_loop s splitting reading fresh_vars s"

text \<open>\<open>shellWords(\<dots>)[0]?.word ?? ""\<close>\<close>

definition first_word :: "shell_word list \<Rightarrow> string" where
  "first_word ws = (case ws of [] \<Rightarrow> [] | w # _ \<Rightarrow> word w)"

definition dequoteShellWord :: "string \<Rightarrow> string" where
  "dequoteShellWord w = first_word (shellWords w False Bash)"

definition shellWordReadings :: "string \<Rightarrow> string list" where
  "shellWordReadings w =
     (let exact = dequoteShellWord w; broad = first_word (shellWords w False Broad)
      in if broad = exact then [exact] else [exact, broad])"

subsection \<open>Reading quoted and unquoted stretches\<close>

definition quoting_char :: "char \<Rightarrow> bool" where
  "quoting_char c \<longleftrightarrow> c \<in> {backslash, squote, dquote}"

text \<open>The variables after an unquoted stretch \<open>t\<close> that begins at position \<open>i\<close>.\<close>

definition read_plain :: "nat \<Rightarrow> string \<Rightarrow> word_vars \<Rightarrow> word_vars" where
  "read_plain i t v =
     (if t = [] then v else v\<lparr>cur := cur v @ t, start := Some (the_default i (start v))\<rparr>)"

lemma the_default_Some [simp]: "the_default d (Some x) = x"
  and the_default_None [simp]: "the_default d None = d"
  by (simp_all add: the_default_def)

lemma read_plain_simps [simp]:
  "wquote (read_plain i t v) = wquote v"
  "wquoted (read_plain i t v) = wquoted v"
  "cur (read_plain i t v) = cur v @ t"
  "start (read_plain i t v) = (if t = [] then start v else Some (the_default i (start v)))"
  by (simp_all add: read_plain_def)

lemma words_loop_plain:
  assumes "wquote v = None" and "\<forall>c\<in>set t. \<not> quoting_char c"
    and "CHR ''$'' \<notin> set t \<or> u = []" and "length (t @ u) \<le> length s"
  shows "words_loop s False reading v (t @ u) =
    words_loop s False reading (read_plain (length s - length (t @ u)) t v) u"
  using assms
proof (induction t arbitrary: v)
  case Nil
  then show ?case by (simp add: read_plain_def)
next
  case (Cons c t)
  let ?i = "length s - length ((c # t) @ u)"
  let ?v = "read_plain ?i [c] v"
  have nodollar: "\<not> (c = CHR ''$'' \<and> t @ u \<noteq> [] \<and> (hd (t @ u) = squote \<or> hd (t @ u) = dquote))"
  proof (cases t)
    case Nil
    with Cons.prems(3) show ?thesis by auto
  next
    case (Cons d t')
    with \<open>\<forall>c\<in>set (c # t). \<not> quoting_char c\<close> show ?thesis by (auto simp: quoting_char_def)
  qed
  have "word_step ?i reading v c (t @ u) = (?v, t @ u)"
    using Cons.prems(1,2) nodollar
    by (auto simp: word_step_def read_plain_def quoting_char_def Let_def the_default_def split: option.splits)
  then have "words_loop s False reading v ((c # t) @ u) = words_loop s False reading ?v (t @ u)"
    by (simp add: Let_def)
  also have "\<dots> = words_loop s False reading (read_plain (length s - length (t @ u)) t ?v) u"
    using Cons.prems by (intro Cons.IH) auto
  also have "read_plain (length s - length (t @ u)) t ?v = read_plain ?i (c # t) v"
    by (simp add: read_plain_def)
  finally show ?case .
qed

lemma word_step_in_quotes:
  "wquote v = Some WSingle \<Longrightarrow> ch \<noteq> squote \<Longrightarrow>
     word_step i reading v ch rest = (v\<lparr>cur := cur v @ [ch]\<rparr>, rest)"
  "wquote v = Some WDouble \<Longrightarrow> ch \<noteq> dquote \<Longrightarrow> ch \<noteq> backslash \<Longrightarrow>
     word_step i reading v ch rest = (v\<lparr>cur := cur v @ [ch]\<rparr>, rest)"
  "wquote v = Some WSingle \<Longrightarrow> word_step i reading v squote rest = (v\<lparr>wquote := None\<rparr>, rest)"
  "wquote v = Some WDouble \<Longrightarrow> word_step i reading v dquote rest = (v\<lparr>wquote := None\<rparr>, rest)"
  by (simp_all add: word_step_def)

lemma words_loop_quoted:
  assumes "wquote v = Some k" and "(k = WSingle \<and> q = squote) \<or> (k = WDouble \<and> q = dquote)"
    and "q \<notin> set t" and "backslash \<notin> set t"
  shows "words_loop s splitting reading v (t @ q # u) =
    words_loop s splitting reading (v\<lparr>cur := cur v @ t, wquote := None\<rparr>) u"
  using assms
proof (induction t arbitrary: v)
  case Nil
  then show ?case by (auto simp: word_step_in_quotes Let_def)
next
  case (Cons c t)
  then have "word_step i reading v c (t @ q # u) = (v\<lparr>cur := cur v @ [c]\<rparr>, t @ q # u)" for i
    by (auto simp: word_step_in_quotes)
  with Cons show ?case by (simp add: Let_def)
qed

lemma words_loop_quoted_span:
  assumes q: "q = squote \<or> q = dquote"
    and a: "\<forall>c\<in>set a. \<not> quoting_char c \<and> c \<noteq> CHR ''$''"
    and b: "\<forall>c\<in>set b. \<not> quoting_char c"
    and t: "q \<notin> set t" "backslash \<notin> set t"
  shows "first_word (shellWords (a @ q # t @ q # b) False reading) = a @ t @ b"
proof -
  let ?s = "a @ q # t @ q # b"
  let ?k = "if q = squote then WSingle else WDouble"
  let ?v = "(read_plain 0 a fresh_vars)\<lparr>start := Some 0, wquote := Some ?k, wquoted := True\<rparr>"
  let ?w = "?v\<lparr>cur := cur ?v @ t, wquote := None\<rparr>"
  have "words_loop ?s False reading fresh_vars ?s =
      words_loop ?s False reading (read_plain 0 a fresh_vars) (q # t @ q # b)"
    using words_loop_plain [of fresh_vars a "q # t @ q # b" ?s reading] a
    by (auto simp: fresh_vars_def)
  also have "\<dots> = words_loop ?s False reading ?v (t @ q # b)"
    using q by (auto simp: word_step_def read_plain_def fresh_vars_def Let_def char_consts)
  also have "\<dots> = words_loop ?s False reading ?w b"
    using q t by (intro words_loop_quoted) auto
  also have "\<dots> = words_loop ?s False reading (read_plain (length ?s - length b) b ?w) []"
    using words_loop_plain [of ?w b "[]" ?s reading] b by simp
  finally show ?thesis
    by (auto simp: shellWords_def word_end_def first_word_def fresh_vars_def)
qed

lemma words_loop_plain_word:
  assumes "\<forall>c\<in>set a. \<not> quoting_char c"
  shows "first_word (shellWords a False reading) = a"
  using words_loop_plain [of fresh_vars a "[]" a reading] assms
  by (auto simp: shellWords_def word_end_def first_word_def fresh_vars_def read_plain_def)

lemma shellWordReadings_single:
  "(\<And>reading. first_word (shellWords w False reading) = x) \<Longrightarrow> shellWordReadings w = [x]"
  by (simp add: shellWordReadings_def dequoteShellWord_def Let_def)

lemma dequoteShellWord_plain:
  "\<forall>c\<in>set a. \<not> quoting_char c \<Longrightarrow> dequoteShellWord a = a"
  by (simp add: dequoteShellWord_def words_loop_plain_word)

lemma shellWordReadings_plain:
  "\<forall>c\<in>set a. \<not> quoting_char c \<Longrightarrow> shellWordReadings a = [a]"
  by (rule shellWordReadings_single) (rule words_loop_plain_word)

lemma word_step_reading:
  "ch \<noteq> backslash \<Longrightarrow> word_step i Bash v ch rest = word_step i Broad v ch rest"
  by (simp add: word_step_def split: option.splits word_quote.splits)

lemma word_step_rest:
  "ch \<noteq> backslash \<Longrightarrow> set (snd (word_step i reading v ch rest)) \<subseteq> set rest"
proof (cases "wquote v")
  case None
  assume "ch \<noteq> backslash"
  with None show ?thesis by (cases rest) (simp_all add: word_step_def Let_def subset_insertI)
next
  case (Some q)
  assume "ch \<noteq> backslash"
  with Some show ?thesis by (cases q) (simp_all add: word_step_def)
qed

lemma words_loop_reading:
  "backslash \<notin> set t \<Longrightarrow> words_loop s splitting Bash v t = words_loop s splitting Broad v t"
proof (induction s splitting Bash v t rule: words_loop.induct)
  case (1 s splitting v)
  then show ?case by simp
next
  case (2 s splitting v ch rest)
  let ?i = "length s - length (ch # rest)"
  from 2(3) have "ch \<noteq> backslash" by auto
  then have "backslash \<notin> set (snd (word_step ?i Bash v ch rest))"
    using word_step_rest [of ch ?i Bash v rest] 2(3) by auto
  with 2 \<open>ch \<noteq> backslash\<close> show ?case
    by (simp add: Let_def word_step_reading)
qed

lemma shellWordReadings_no_backslash:
  "backslash \<notin> set w \<Longrightarrow> shellWordReadings w = [dequoteShellWord w]"
  by (simp add: shellWordReadings_def dequoteShellWord_def shellWords_def words_loop_reading)

lemma hd_shellWordReadings: "shellWordReadings w \<noteq> [] \<and> hd (shellWordReadings w) = dequoteShellWord w"
  by (simp add: shellWordReadings_def Let_def)

subsection \<open>One word when nothing splits\<close>

lemma word_step_grows:
  "start v \<noteq> None \<or> wquote v = None \<Longrightarrow>
    start (fst (word_step i reading v ch rest)) \<noteq> None \<and>
    prefix (cur v) (cur (fst (word_step i reading v ch rest)))"
proof (cases "wquote v")
  case None
  then show ?thesis by (simp add: word_step_def Let_def)
next
  case (Some q)
  assume "start v \<noteq> None \<or> wquote v = None"
  with Some show ?thesis by (cases q) (simp_all add: word_step_def Let_def)
qed

lemma words_loop_one:
  "start v \<noteq> None \<Longrightarrow> \<exists>w. words_loop s False reading v t = [w] \<and> prefix (cur v) (word w)"
proof (induction s "False" reading v t rule: words_loop.induct)
  case (1 s reading v)
  then show ?case by (auto simp: word_end_def)
next
  case (2 s reading v ch rest)
  let ?r = "word_step (length s - length (ch # rest)) reading v ch rest"
  have g: "start (fst ?r) \<noteq> None" "prefix (cur v) (cur (fst ?r))"
    using word_step_grows 2(3) by blast+
  with 2(2) [OF refl _ refl] obtain w where
    "words_loop s False reading (fst ?r) (snd ?r) = [w]" "prefix (cur (fst ?r)) (word w)" by auto
  with g(2) show ?case by (auto simp: Let_def intro: prefix_order.trans)
qed

lemma first_word_plain_prefix:
  assumes "p \<noteq> []" and "\<forall>c\<in>set p. \<not> quoting_char c \<and> c \<noteq> CHR ''$''"
  shows "prefix p (first_word (shellWords (p @ u) False reading))"
proof -
  have "words_loop (p @ u) False reading fresh_vars (p @ u) =
      words_loop (p @ u) False reading (read_plain 0 p fresh_vars) u"
    using words_loop_plain [of fresh_vars p u "p @ u" reading] assms by (auto simp: fresh_vars_def)
  moreover have "start (read_plain 0 p fresh_vars) \<noteq> None" using assms(1) by simp
  ultimately show ?thesis
    using words_loop_one [of "read_plain 0 p fresh_vars" "p @ u" reading u]
    by (auto simp: shellWords_def first_word_def fresh_vars_def)
qed

subsection \<open>The contract of a quote-removing reading\<close>

text \<open>
  What the path and rule checks rely on in a reading of a shell word: unquoted text is read as
  written, and a quoted stretch anywhere in the word is read as its contents.
\<close>

locale quote_removal =
  fixes reading :: "string \<Rightarrow> string"
  assumes plain: "\<forall>c\<in>set a. \<not> quoting_char c \<Longrightarrow> reading a = a"
    and quoted_span: "q = squote \<or> q = dquote \<Longrightarrow> \<forall>c\<in>set a. \<not> quoting_char c \<and> c \<noteq> CHR ''$'' \<Longrightarrow>
      \<forall>c\<in>set b. \<not> quoting_char c \<Longrightarrow> q \<notin> set t \<Longrightarrow> backslash \<notin> set t \<Longrightarrow>
      reading (a @ q # t @ q # b) = a @ t @ b"
begin

lemma quoting_invisible:
  assumes "q = squote \<or> q = dquote" and "\<forall>c\<in>set a. \<not> quoting_char c \<and> c \<noteq> CHR ''$''"
    and "\<forall>c\<in>set t. \<not> quoting_char c" and "\<forall>c\<in>set b. \<not> quoting_char c"
  shows "reading (a @ q # t @ q # b) = reading (a @ t @ b)"
proof -
  have "reading (a @ q # t @ q # b) = a @ t @ b"
    using assms by (intro quoted_span) (auto simp: quoting_char_def)
  also have "\<dots> = reading (a @ t @ b)"
    using assms by (intro plain [symmetric]) auto
  finally show ?thesis .
qed

lemma fully_quoted: "q = squote \<or> q = dquote \<Longrightarrow> q \<notin> set t \<Longrightarrow> backslash \<notin> set t \<Longrightarrow> reading (q # t @ [q]) = t"
  using quoted_span [of q "[]" "[]" t] by simp

end

interpretation bash: quote_removal dequoteShellWord
  by unfold_locales (simp_all add: dequoteShellWord_def words_loop_plain_word words_loop_quoted_span)

interpretation broad: quote_removal "\<lambda>w. first_word (shellWords w False Broad)"
  by unfold_locales (simp_all add: words_loop_plain_word words_loop_quoted_span)

subsection \<open>Properties\<close>

text \<open>
  Quote removal. In the reading of a word as bash reads it, a single or double quoted stretch
  stands for its contents wherever in the word it stands, so no spelling of a path by partial
  quoting hides it from a path check.
\<close>

theorem dequoteShellWord_quoted_span:
  assumes "q = squote \<or> q = dquote" and "\<forall>c\<in>set a. \<not> quoting_char c \<and> c \<noteq> CHR ''$''"
    and "\<forall>c\<in>set b. \<not> quoting_char c" and "q \<notin> set t" and "backslash \<notin> set t"
  shows "dequoteShellWord (a @ q # t @ q # b) = a @ t @ b"
  using assms by (rule bash.quoted_span)

theorem dequoteShellWord_quoted_span_witness:
  "dequoteShellWord (''.g'' @ squote # ''i'' @ squote # ''t/config'') = ''.git/config''"
  using dequoteShellWord_quoted_span [of squote "''.g''" "''t/config''" "''i''"]
  by (simp add: quoting_char_def char_consts)

end
