(* ===== verification/Redirects.thy ===== *)
theory Redirects
  imports Shell_Words
begin

text \<open>
  The file-writing redirections of a command (\<open>redirectWordAt\<close>, \<open>redirectWriteSpans\<close>,
  \<open>extractRedirectWrites\<close>, \<open>extractRedirectTargets\<close> of \<^verbatim>\<open>permissions/grammar.ts\<close>). Lemmas: the spans
  lie inside the command, in order and without overlap, every one has a target, and each of the
  file-writing operators is recognised with its target.
\<close>

record redirect_span =
  rs_start :: nat
  rs_end :: nat
  rs_target :: string

record redirect_write =
  rw_raw :: string
  rw_target :: string

definition redirect_word_stop :: "char \<Rightarrow> bool" where
  "redirect_word_stop c \<longleftrightarrow>
     is_ws c \<or> c \<in> {CHR '';'', CHR ''&'', CHR ''|'', CHR ''<'', CHR ''>'', CHR ''('', CHR '')''}"

definition redirectWordAt :: "string \<Rightarrow> scan_info \<Rightarrow> nat \<Rightarrow> string option \<times> nat" where
  "redirectWordAt s info st =
     (let wordStart = scan_while (\<lambda>j. top_at info j \<and> (s ! j = CHR '' '' \<or> s ! j = CHR 0x09)) (length s) st;
          e = scan_while (\<lambda>j. \<not> (top_at info j \<and> redirect_word_stop (s ! j))) (length s) wordStart
      in (if e > wordStart then Some (slice s wordStart e) else None, e))"

text \<open>
  What stands at position \<open>i\<close>, whose digit run ends at \<open>k\<close>: an operator (with the end of the
  operator and whether it is the descriptor-copy form \<open>>&\<close>), or nothing to record, with the position
  to go on from.
\<close>

datatype redirect_op = RedirectOp nat bool | NoRedirect nat

definition redirect_op_at :: "string \<Rightarrow> nat \<Rightarrow> nat \<Rightarrow> redirect_op" where
  "redirect_op_at command i k =
     (if char_at command i = Some (CHR ''&'') \<and> char_at command (i + 1) = Some (CHR ''>'') then
        RedirectOp (if char_at command (i + 2) = Some (CHR ''>'') then i + 3 else i + 2) False
      else if char_at command k = Some (CHR ''<'') \<and> char_at command (k + 1) = Some (CHR ''>'') then
        RedirectOp (k + 2) False
      else if char_at command k = Some (CHR ''>'') then
        (if char_at command (k + 1) = Some (CHR ''('') then NoRedirect (k + 1)
         else if char_at command (k + 1) = Some (CHR ''>'') then RedirectOp (k + 2) False
         else if char_at command (k + 1) = Some (CHR ''|'') then RedirectOp (k + 2) False
         else if char_at command (k + 1) = Some (CHR ''&'') then RedirectOp (k + 2) True
         else RedirectOp (k + 1) False)
      else NoRedirect (if k > i then k else i + 1))"

definition is_descriptor :: "string \<Rightarrow> bool" where
  "is_descriptor w \<longleftrightarrow> (w \<noteq> [] \<and> list_all is_digit w) \<or> w = ''-''"

definition digit_run_end :: "string \<Rightarrow> scan_info \<Rightarrow> nat \<Rightarrow> nat" where
  "digit_run_end command info i =
     scan_while (\<lambda>k. top_at info k \<and> is_digit (command ! k)) (length command) i"

lemma redirect_op_at_progress:
  "i \<le> k \<Longrightarrow> redirect_op_at command i k = RedirectOp e d \<Longrightarrow> i < e \<and> e \<le> length command"
  "i \<le> k \<Longrightarrow> redirect_op_at command i k = NoRedirect n \<Longrightarrow> i < n"
  by (auto simp: redirect_op_at_def char_at_def split: if_splits)

lemma redirectWordAt_ge: "st \<le> snd (redirectWordAt s info st)"
  by (simp add: redirectWordAt_def Let_def order_trans [OF scan_while_ge scan_while_ge])

lemma redirectWordAt_end: "(w, e) = redirectWordAt s info st \<Longrightarrow> st \<le> e"
  by (metis redirectWordAt_ge snd_conv)

lemma redirectWordAt_le: "st \<le> length s \<Longrightarrow> snd (redirectWordAt s info st) \<le> length s"
  by (simp add: redirectWordAt_def Let_def scan_while_le)

lemma digit_run_end_ge: "i \<le> digit_run_end command info i"
  by (simp add: digit_run_end_def)

function spans_loop :: "string \<Rightarrow> scan_info \<Rightarrow> nat \<Rightarrow> redirect_span list" where
  "spans_loop command info i =
     (if i < length command then
        if \<not> top_at info i then spans_loop command info (i + 1)
        else if startsWith (drop i command) ''<<'' then
          spans_loop command info (if char_at command (i + 2) = Some (CHR ''<'') then i + 3 else i + 2)
        else
          (case redirect_op_at command i (digit_run_end command info i) of
             NoRedirect n \<Rightarrow> spans_loop command info n
           | RedirectOp opEnd descriptorCopy \<Rightarrow>
               (case redirectWordAt command info opEnd of
                  (None, _) \<Rightarrow> spans_loop command info opEnd
                | (Some w, e) \<Rightarrow>
                    (if descriptorCopy \<and> is_descriptor (dequoteShellWord w) then []
                     else [\<lparr>rs_start = i, rs_end = e, rs_target = w\<rparr>])
                    @ spans_loop command info e))
      else [])"
  by pat_completeness auto
termination
proof (relation "measure (\<lambda>(command, info, i). length command - i)", goal_cases)
  case (4 command info i opEnd d)
  then show ?case using redirect_op_at_progress(1) [OF digit_run_end_ge 4(4)] by auto
next
  case (5 command info i opEnd d)
  then show ?case
    using redirect_op_at_progress(1) [OF digit_run_end_ge 5(4)] by (auto dest: redirectWordAt_end)
next
  case (6 command info i n)
  then show ?case using redirect_op_at_progress(2) [OF digit_run_end_ge 6(4)] by auto
qed auto

declare spans_loop.simps [simp del]

definition redirectWriteSpans :: "string \<Rightarrow> scan_info \<Rightarrow> redirect_span list" where
  "redirectWriteSpans command info = spans_loop command info 0"

definition push_readings :: "string \<Rightarrow> redirect_write list" where
  "push_readings r = map (\<lambda>t. \<lparr>rw_raw = r, rw_target = t\<rparr>) (shellWordReadings r)"

definition span_writes :: "redirect_span \<Rightarrow> redirect_write list" where
  "span_writes sp =
     push_readings (rs_target sp)
     @ (if length (rs_target sp) > 1 \<and> startsWith (rs_target sp) ''!''
        then push_readings (drop 1 (rs_target sp)) else [])"

definition extractRedirectWrites :: "string \<Rightarrow> redirect_write list" where
  "extractRedirectWrites rawCommand =
     (let command = joinLineContinuations rawCommand; info = scanShellLike command
      in if \<not> ok info then [] else concat (map span_writes (redirectWriteSpans command info)))"

definition extractRedirectTargets :: "string \<Rightarrow> string list" where
  "extractRedirectTargets command = map rw_target (extractRedirectWrites command)"

subsection \<open>Where the spans lie\<close>

text \<open>
  Spans from position \<open>lo\<close> on in a command: in order, disjoint, inside the command, and each ending with
  its own non-empty target.
\<close>

fun spans_ordered :: "string \<Rightarrow> nat \<Rightarrow> redirect_span list \<Rightarrow> bool" where
  "spans_ordered command lo [] = True"
| "spans_ordered command lo (sp # sps) =
     (lo \<le> rs_start sp \<and> rs_start sp + length (rs_target sp) < rs_end sp \<and> rs_end sp \<le> length command \<and>
      rs_target sp \<noteq> [] \<and>
      rs_target sp = slice command (rs_end sp - length (rs_target sp)) (rs_end sp) \<and>
      spans_ordered command (rs_end sp) sps)"

lemma spans_ordered_mono: "lo \<le> lo' \<Longrightarrow> spans_ordered command lo' sps \<Longrightarrow> spans_ordered command lo sps"
  by (cases sps) auto

lemma redirectWordAt_Some:
  assumes "redirectWordAt s info st = (Some w, e)" and "st \<le> length s"
  shows "w \<noteq> []" "st + length w \<le> e" "e \<le> length s" "w = slice s (e - length w) e"
proof -
  define ws where "ws = scan_while (\<lambda>j. top_at info j \<and> (s ! j = CHR '' '' \<or> s ! j = CHR 0x09)) (length s) st"
  have w: "w = slice s ws e" "ws < e"
    and e: "e = scan_while (\<lambda>j. \<not> (top_at info j \<and> redirect_word_stop (s ! j))) (length s) ws"
    using assms(1) by (auto simp: redirectWordAt_def Let_def ws_def split: if_splits)
  have "ws \<le> length s" using assms(2) by (simp add: ws_def scan_while_le)
  then show "e \<le> length s" using e by (simp add: scan_while_le)
  then have "length w = e - ws" using w by (simp add: slice_def)
  moreover have "st \<le> ws" by (simp add: ws_def)
  ultimately show "w \<noteq> []" "st + length w \<le> e" "w = slice s (e - length w) e"
    using w by auto
qed

lemma spans_loop_ordered: "spans_ordered command i (spans_loop command info i)"
proof (induction command info i rule: spans_loop.induct)
  case (1 command info i)
  show ?case
  proof (cases "i < length command \<and> top_at info i \<and> \<not> startsWith (drop i command) ''<<''")
    case False
    with "1.IH"(1,2) show ?thesis
      by (subst spans_loop.simps) (auto intro: spans_ordered_mono [rotated])
  next
    case T: True
    show ?thesis
    proof (cases "redirect_op_at command i (digit_run_end command info i)")
      case (NoRedirect n)
      then have "i < n" using redirect_op_at_progress(2) digit_run_end_ge by blast
      with NoRedirect T "1.IH"(5) show ?thesis
        by (subst spans_loop.simps) (auto intro: spans_ordered_mono [rotated])
    next
      case (RedirectOp opEnd d)
      then have op: "i < opEnd" "opEnd \<le> length command"
        using redirect_op_at_progress(1) digit_run_end_ge by blast+
      obtain w e where we: "redirectWordAt command info opEnd = (w, e)" by (cases "redirectWordAt command info opEnd")
      show ?thesis
      proof (cases w)
        case None
        with RedirectOp T op we "1.IH"(3) [OF _ _ _ RedirectOp we [symmetric] None] show ?thesis
          by (subst spans_loop.simps) (auto intro: spans_ordered_mono [rotated])
      next
        case (Some t)
        note facts = redirectWordAt_Some [OF we [unfolded Some] op(2)]
        with RedirectOp T op we Some "1.IH"(4) [OF _ _ _ RedirectOp we [symmetric] Some] show ?thesis
          by (subst spans_loop.simps) (auto intro: spans_ordered_mono [rotated])
      qed
    qed
  qed
qed

subsection \<open>Every file-writing operator is seen\<close>

definition file_write_operators :: "string list" where
  "file_write_operators = [''>'', ''>>'', ''>|'', ''&>'', ''&>>'', ''<>'']"

definition plain_command_char :: "char \<Rightarrow> bool" where
  "plain_command_char c \<longleftrightarrow> \<not> syntax_char c \<and> c \<notin> {CHR ''<'', CHR ''>'', CHR ''&''}"

definition plain_target_char :: "char \<Rightarrow> bool" where
  "plain_target_char c \<longleftrightarrow> \<not> syntax_char c \<and> \<not> redirect_word_stop c"

lemma file_write_operators_plain: "oper \<in> set file_write_operators \<Longrightarrow> c \<in> set oper \<Longrightarrow> \<not> syntax_char c"
  by (auto simp: file_write_operators_def syntax_char_def char_consts)

lemma file_write_operators_hd:
  "oper \<in> set file_write_operators \<Longrightarrow> \<exists>o1 os. oper = o1 # os \<and> o1 \<in> {CHR ''>'', CHR ''&'', CHR ''<''}"
  by (auto simp: file_write_operators_def)

lemma char_at_append_left: "i < length a \<Longrightarrow> char_at (a @ b) i = Some (a ! i)"
  by (simp add: char_at_def nth_append)

lemma char_at_append_right: "char_at (a @ b) (length a + i) = char_at b i"
  by (simp add: char_at_def nth_append)

lemma char_at_Cons: "char_at (c # s) 0 = Some c" "char_at (c # s) (Suc i) = char_at s i"
  by (simp_all add: char_at_def)

lemma char_at_pad:
  assumes "w \<noteq> []" and "\<forall>c\<in>set w. plain_target_char c"
  shows "char_at (replicate n (CHR '' '') @ w) 0 \<notin> {Some (CHR ''>''), Some (CHR ''|''), Some (CHR ''&''), Some (CHR ''('')}"
  using assms by (cases n; cases w) (auto simp: char_at_def plain_target_char_def redirect_word_stop_def)

lemma redirect_op_at_operator:
  assumes "oper \<in> set file_write_operators" and "w \<noteq> []" and "\<forall>c\<in>set w. plain_target_char c"
    and "\<forall>c\<in>set a. plain_command_char c" and "i \<le> length a" and "hd oper = CHR ''&'' \<Longrightarrow> i = length a"
  shows "redirect_op_at (a @ oper @ replicate n (CHR '' '') @ w) i (length a)
    = RedirectOp (length a + length oper) False"
proof -
  let ?t = "replicate n (CHR '' '') @ w"
  have pad: "char_at ?t 0 \<notin> {Some (CHR ''>''), Some (CHR ''|''), Some (CHR ''&''), Some (CHR ''('')}"
    using assms(2,3) by (rule char_at_pad)
  have amp: "char_at (a @ oper @ ?t) i \<noteq> Some (CHR ''&'')" if "hd oper \<noteq> CHR ''&''"
  proof (cases "i = length a")
    case True
    with that assms(1) show ?thesis
      using char_at_append_right [of a "oper @ ?t" 0] by (auto simp: file_write_operators_def char_at_Cons)
  next
    case False
    with assms(4,5) show ?thesis by (auto simp: char_at_append_left plain_command_char_def)
  qed
  have at: "char_at (a @ oper @ ?t) (length a + m) = char_at (oper @ ?t) m" for m
    by (rule char_at_append_right)
  from assms(1) consider "oper = ''>''" | "oper = ''>>''" | "oper = ''>|''" | "oper = ''&>''"
    | "oper = ''&>>''" | "oper = ''<>''"
    by (auto simp: file_write_operators_def)
  then show ?thesis
    using amp at [of 0] at [of 1] at [of 2] pad assms(6)
    by cases (auto simp: redirect_op_at_def char_at_Cons numeral_2_eq_2)
qed

lemma redirectWordAt_plain:
  fixes p w :: string and n :: nat
  assumes "w \<noteq> []" and "\<forall>c\<in>set w. plain_target_char c"
  defines "command \<equiv> p @ replicate n (CHR '' '') @ w"
  shows "redirectWordAt command \<lparr>topLevel = replicate (length command) True, ok = True\<rparr> (length p)
    = (Some w, length command)"
proof -
  let ?info = "\<lparr>topLevel = replicate (length command) True, ok = True\<rparr>"
  let ?ws = "length p + n"
  have len: "length command = length p + n + length w" by (simp add: command_def)
  have "scan_while (\<lambda>j. top_at ?info j \<and> (command ! j = CHR '' '' \<or> command ! j = CHR 0x09)) (length command)
      (length p) = ?ws"
  proof (rule scan_while_eqI)
    fix j assume "length p \<le> j" "j < ?ws"
    moreover from this have "j - length p < n" by simp
    ultimately show "top_at ?info j \<and> (command ! j = CHR '' '' \<or> command ! j = CHR 0x09)"
      using len by (simp add: command_def nth_append)
  next
    have "command ! ?ws = hd w" using assms(1) by (simp add: command_def nth_append hd_conv_nth)
    moreover have "plain_target_char (hd w)" using assms(1,2) by simp
    ultimately show "\<not> (top_at ?info ?ws \<and> (command ! ?ws = CHR '' '' \<or> command ! ?ws = CHR 0x09))"
      by (auto simp: plain_target_char_def redirect_word_stop_def is_ws_def)
  qed (use len in auto)
  moreover have "scan_while (\<lambda>j. \<not> (top_at ?info j \<and> redirect_word_stop (command ! j))) (length command) ?ws
      = length command"
  proof (rule scan_while_eqI)
    fix j assume "?ws \<le> j" "j < length command"
    then have "\<not> j < length p" "\<not> j - length p < n" "j - length p - n < length w" using len by auto
    then have "command ! j \<in> set w" by (simp add: command_def nth_append)
    then show "\<not> (top_at ?info j \<and> redirect_word_stop (command ! j))"
      using assms(2) by (auto simp: plain_target_char_def)
  qed (use len in auto)
  moreover have "slice command ?ws (length command) = w" by (simp add: slice_def command_def)
  ultimately show ?thesis using len assms(1) by (simp add: redirectWordAt_def Let_def)
qed

lemma spans_loop_operator:
  fixes a w oper :: string and n :: nat
  defines "command \<equiv> a @ oper @ replicate n (CHR '' '') @ w"
  assumes op: "oper \<in> set file_write_operators" and w: "w \<noteq> []" "\<forall>c\<in>set w. plain_target_char c"
    and a: "\<forall>c\<in>set a. plain_command_char c" and i: "i \<le> length a"
  shows "\<exists>st. spans_loop command (scanShellLike command) i
    = [\<lparr>rs_start = st, rs_end = length command, rs_target = w\<rparr>]"
  using i
proof (induction "length a - i" arbitrary: i rule: less_induct)
  case less
  let ?info = "scanShellLike command"
  have len: "length command = length a + length oper + n + length w"
    by (simp add: command_def)
  have blank: "\<not> syntax_char (CHR '' '')" by (simp add: syntax_char_def char_consts)
  have plain: "\<forall>c\<in>set command. \<not> syntax_char c"
  proof
    fix c assume "c \<in> set command"
    then consider "c \<in> set a" | "c \<in> set oper" | "c = CHR '' ''" | "c \<in> set w"
      by (auto simp: command_def)
    then show "\<not> syntax_char c"
      using w(2) a file_write_operators_plain [OF op] blank
      by cases (simp_all add: plain_target_char_def plain_command_char_def)
  qed
  then have info: "?info = \<lparr>topLevel = replicate (length command) True, ok = True\<rparr>"
    by (rule scanShellLike_plain)
  have nth_a: "command ! j = a ! j" if "j < length a" for j using that by (simp add: command_def nth_append)
  have nth_op: "command ! length a \<in> {CHR ''>'', CHR ''&'', CHR ''<''}"
    using file_write_operators_hd [OF op] by (auto simp: command_def nth_append)
  let ?k = "digit_run_end command ?info i"
  have kle: "?k \<le> length a"
  proof (rule ccontr)
    assume "\<not> ?k \<le> length a"
    then have "is_digit (command ! length a)"
      using scan_while_holds [of i "length a"] less.prems unfolding digit_run_end_def by (metis not_le)
    with nth_op show False by (auto simp: is_digit_def)
  qed
  have noheredoc: "\<not> startsWith (drop i command) ''<<''"
  proof (cases "i = length a")
    case True
    then have "drop i command = oper @ replicate n (CHR '' '') @ w" by (simp add: command_def)
    with op show ?thesis by (auto simp: file_write_operators_def startsWith_def)
  next
    case False
    with less.prems have "i < length a" by simp
    then have "drop i command = a ! i # drop (Suc i) command"
      using len nth_a by (simp add: Cons_nth_drop_Suc [symmetric])
    moreover have "a ! i \<noteq> CHR ''<''" using a \<open>i < length a\<close> by (auto simp: plain_command_char_def)
    ultimately show ?thesis by (simp add: startsWith_def)
  qed
  have ilen: "i < length command" using less.prems op len w(1) by (auto simp: file_write_operators_def)
  have wordAt: "redirectWordAt command ?info (length a + length oper) = (Some w, length command)"
    using redirectWordAt_plain [of w "a @ oper" n] w info by (simp add: command_def)
  have stop: "spans_loop command ?info (length command) = []" by (subst spans_loop.simps) simp
  have here: ?case if "redirect_op_at command i ?k = RedirectOp (length a + length oper) False"
    using that ilen noheredoc info wordAt stop by (subst spans_loop.simps) simp
  show ?case
  proof (cases "?k = length a \<and> (hd oper = CHR ''&'' \<longrightarrow> i = length a)")
    case True
    with op w a less.prems show ?thesis
      by (intro here) (simp add: redirect_op_at_operator command_def)
  next
    case False
    have ia: "i < length a"
    proof (rule ccontr)
      assume "\<not> i < length a"
      with less.prems have "i = length a" by simp
      with kle digit_run_end_ge [of i command ?info] False show False by simp
    qed
    have knot: "command ! ?k \<noteq> CHR ''>'' \<and> command ! ?k \<noteq> CHR ''<''"
    proof (cases "?k = length a")
      case True
      with False op show ?thesis by (auto simp: file_write_operators_def command_def nth_append)
    next
      case False
      with kle have "?k < length a" by simp
      with a nth_a show ?thesis by (auto simp: plain_command_char_def)
    qed
    have inot: "command ! i \<noteq> CHR ''&''" using a ia nth_a by (auto simp: plain_command_char_def)
    let ?n = "if ?k > i then ?k else i + 1"
    have "redirect_op_at command i ?k = NoRedirect ?n"
      using knot inot by (simp add: redirect_op_at_def char_at_def)
    then have "spans_loop command ?info i = spans_loop command ?info ?n"
      using ilen noheredoc info by (subst spans_loop.simps) simp
    moreover have "i < ?n" "?n \<le> length a" using kle ia by auto
    ultimately show ?thesis using less.hyps [of ?n] ia by simp
  qed
qed

subsection \<open>Properties\<close>

text \<open>
  Every file-writing redirection operator is seen. A command of ordinary characters followed by
  one of the operators that can write a file, any number of blanks and an ordinary target has
  exactly that target among the writes \<open>extractRedirectTargets\<close> reports.
\<close>

theorem extractRedirectTargets_operator:
  assumes "oper \<in> set file_write_operators" and "w \<noteq> []" and "hd w \<noteq> CHR ''!''"
    and "\<forall>c\<in>set w. plain_target_char c \<and> c \<noteq> CHR ''$''" and "\<forall>c\<in>set a. plain_command_char c"
  shows "extractRedirectTargets (a @ oper @ replicate n (CHR '' '') @ w) = [w]"
proof -
  let ?c = "a @ oper @ replicate n (CHR '' '') @ w"
  have plain: "\<forall>c\<in>set ?c. \<not> syntax_char c"
  proof -
    have "\<not> syntax_char (CHR '' '')" by (simp add: syntax_char_def char_consts)
    then show ?thesis
      using assms file_write_operators_plain unfolding plain_target_char_def plain_command_char_def
      by (auto simp only: set_append set_replicate_conv_if Un_iff split: if_splits)
  qed
  have join: "joinLineContinuations ?c = ?c"
  proof -
    have "syntax_char backslash" by (simp add: syntax_char_def)
    with plain have "backslash \<notin> set ?c" by blast
    then show ?thesis unfolding joinLineContinuations_bash_join by (rule bash_join_no_backslash)
  qed
  obtain st where sp: "spans_loop ?c (scanShellLike ?c) 0 = [\<lparr>rs_start = st, rs_end = length ?c, rs_target = w\<rparr>]"
    using spans_loop_operator [of oper w a 0 n] assms by auto
  have "shellWordReadings w = [w]"
    using assms(4) by (intro shellWordReadings_plain) (auto simp: plain_target_char_def syntax_char_def quoting_char_def)
  moreover have "\<not> startsWith w ''!''" using assms(2,3) by (cases w) (auto simp: startsWith_def)
  moreover have "ok (scanShellLike ?c)" using plain scanShellLike_plain by simp
  ultimately show ?thesis
    using sp by (simp only: extractRedirectTargets_def extractRedirectWrites_def join redirectWriteSpans_def Let_def)
      (simp add: span_writes_def push_readings_def)
qed

theorem extractRedirectTargets_operator_witness:
  "extractRedirectTargets (''ls '' @ ''&>>'' @ replicate 1 (CHR '' '') @ ''out.txt'') = [''out.txt'']"
  by (rule extractRedirectTargets_operator)
    (simp_all add: file_write_operators_def plain_target_char_def plain_command_char_def syntax_char_def
      redirect_word_stop_def is_ws_def char_consts)

text \<open>
  The redirection spans of a command are in order, disjoint and inside the command, and
  each ends with its own non-empty target, so cutting them out of the text or carrying them over
  never takes a character twice.
\<close>

theorem redirectWriteSpans_ordered: "spans_ordered command 0 (redirectWriteSpans command info)"
  by (simp add: redirectWriteSpans_def spans_loop_ordered)

end
