(* ===== verification/Wrappers.thy ===== *)
theory Wrappers
  imports Redirects
begin

text \<open>
  Looking through leading assignments and wrapper commands (\<open>stripLeadingAssignmentsAt\<close>,
  \<open>stripWrappersDetailed\<close>, \<open>stripWrappers\<close>, \<open>ruleMatchTexts\<close> of \<^verbatim>\<open>permissions/grammar.ts\<close>). Lemmas: the
  loop terminates and what remains is a suffix of the command, a deny or ask rule looks through at
  least as much as an allow rule, an allow never looks through a dangerous assignment, and no
  redirection of the part looked through is lost.
\<close>

datatype direction = Allow | DenyAsk

definition DANGEROUS_ASSIGNMENT_NAMES :: "string list" where
  "DANGEROUS_ASSIGNMENT_NAMES =
     [''LD_PRELOAD'', ''LD_LIBRARY_PATH'', ''DYLD_INSERT_LIBRARIES'', ''DYLD_LIBRARY_PATH'', ''PATH'',
      ''BASH_ENV'', ''ENV'', ''IFS'', ''PERL5LIB'', ''PYTHONPATH'', ''NODE_OPTIONS'']"

definition FIXED_WRAPPERS :: "string list" where
  "FIXED_WRAPPERS =
     [''timeout'', ''time'', ''nice'', ''nohup'', ''stdbuf'', ''command'', ''builtin'', ''noglob'']"

definition XARGS :: string where
  "XARGS = ''xargs''"

definition WRAPPERS_WITH_POSITIONAL_ARG :: "string list" where
  "WRAPPERS_WITH_POSITIONAL_ARG = [''timeout'']"

definition isSafeAssignmentValue :: "string \<Rightarrow> bool" where
  "isSafeAssignmentValue v \<longleftrightarrow>
     \<not> (str_includes v ''$('' \<or> str_includes v [backtick] \<or> str_includes v ''${'')"

subsection \<open>Leading assignments\<close>

text \<open>
  The sticky \<open>ASSIGNMENT_NAME_RE\<close> at position \<open>pos\<close>: the position of the equals sign that ends a
  name starting there.
\<close>

definition assignment_name_end :: "string \<Rightarrow> nat \<Rightarrow> nat option" where
  "assignment_name_end s pos =
     (if pos < length s \<and> is_name_start (s ! pos) then
        (let e = scan_while (\<lambda>j. is_name_char (s ! j)) (length s) (Suc pos)
         in if char_at s e = Some (CHR ''='') then Some e else None)
      else None)"

lemma assignment_name_end_bounds: "assignment_name_end s pos = Some e \<Longrightarrow> pos < e \<and> e < length s"
  by (auto simp: assignment_name_end_def Let_def char_at_def split: if_splits
      intro: Suc_le_lessD [OF scan_while_ge])

definition assignment_blocked :: "direction \<Rightarrow> string \<Rightarrow> string \<Rightarrow> bool" where
  "assignment_blocked dir name v \<longleftrightarrow>
     dir \<noteq> DenyAsk \<and> (name \<in> set DANGEROUS_ASSIGNMENT_NAMES \<or> \<not> isSafeAssignmentValue v)"

definition value_end :: "string \<Rightarrow> scan_info \<Rightarrow> nat \<Rightarrow> nat" where
  "value_end s info i = scan_while (\<lambda>j. \<not> top_ws s info j) (length s) i"

definition skip_ws :: "string \<Rightarrow> scan_info \<Rightarrow> nat \<Rightarrow> nat" where
  "skip_ws s info i = scan_while (top_ws s info) (length s) i"

lemma skip_ws_ge: "i \<le> skip_ws s info i" and value_end_ge: "i \<le> value_end s info i"
  by (simp_all add: skip_ws_def value_end_def)

function stripLeadingAssignmentsAt :: "string \<Rightarrow> scan_info \<Rightarrow> nat \<Rightarrow> direction \<Rightarrow> nat" where
  "stripLeadingAssignmentsAt s info st dir =
     (let pos = skip_ws s info st in
      if pos \<ge> length s \<or> \<not> is_top info pos then pos
      else
        (case assignment_name_end s pos of
           None \<Rightarrow> pos
         | Some eq \<Rightarrow>
             (let vEnd = value_end s info (eq + 1) in
              if assignment_blocked dir (slice s pos eq) (slice s (eq + 1) vEnd) then pos
              else stripLeadingAssignmentsAt s info vEnd dir)))"
  by pat_completeness auto
termination
proof (relation "measure (\<lambda>(s, info, st, dir). length s - st)", goal_cases)
  case (2 s info st dir pos eq vEnd)
  with skip_ws_ge [of st s info] value_end_ge [of "eq + 1" s info]
    assignment_name_end_bounds [of s pos eq]
  show ?case by auto
qed auto

declare stripLeadingAssignmentsAt.simps [simp del]

subsection \<open>Wrapper commands\<close>

definition is_wrapper_name :: "string \<Rightarrow> bool" where
  "is_wrapper_name r \<longleftrightarrow> r = XARGS \<or> r \<in> set FIXED_WRAPPERS"

definition is_flag_word :: "string option \<Rightarrow> bool" where
  "is_flag_word w \<longleftrightarrow> (case w of None \<Rightarrow> False | Some f \<Rightarrow> startsWith f ''-'')"

text \<open>The inner loop over a wrapper's flags.\<close>

function skip_flags :: "string \<Rightarrow> scan_info \<Rightarrow> nat \<Rightarrow> nat" where
  "skip_flags s info pos =
     (case leadingWordAt s info pos of
        (None, _) \<Rightarrow> pos
      | (Some f, e) \<Rightarrow> if startsWith f ''-'' then skip_flags s info e else pos)"
  by pat_completeness auto
termination
proof (relation "measure (\<lambda>(s, info, pos). length s - pos)", goal_cases)
  case (2 s info pos x e f)
  then have "leadingWordAt s info pos = (Some f, e)" by simp
  from leadingWordAt_Some(1,2) [OF this] show ?case by auto
qed auto

declare skip_flags.simps [simp del]

definition after_wrapper :: "string \<Rightarrow> scan_info \<Rightarrow> string \<Rightarrow> nat \<Rightarrow> nat" where
  "after_wrapper s info w pos =
     (let r = skip_flags s info pos in
      if w \<in> set WRAPPERS_WITH_POSITIONAL_ARG then
        (case leadingWordAt s info r of
           (None, _) \<Rightarrow> r
         | (Some a, e) \<Rightarrow> if startsWith a ''-'' then r else e)
      else r)"

text \<open>
  The word of an iteration: an allow takes bash's own reading, a deny or ask the first reading that
  names a wrapper.
\<close>

definition wrapper_word :: "direction \<Rightarrow> string \<Rightarrow> string" where
  "wrapper_word dir rawWord =
     (let readings = shellWordReadings rawWord; exact = hd readings
      in case dir of
           Allow \<Rightarrow> exact
         | DenyAsk \<Rightarrow> the_default exact (find is_wrapper_name readings))"

definition ambiguous_word :: "direction \<Rightarrow> string \<Rightarrow> bool" where
  "ambiguous_word dir rawWord \<longleftrightarrow>
     (let readings = shellWordReadings rawWord
      in dir = Allow \<and> \<not> is_wrapper_name (hd readings) \<and> list_ex is_wrapper_name readings)"

lemma skip_flags_ge: "pos \<le> skip_flags s info pos"
proof (induction s info pos rule: skip_flags.induct)
  case (1 s info pos)
  show ?case
  proof (cases "leadingWordAt s info pos")
    case (Pair w e)
    with 1 show ?thesis
      by (subst skip_flags.simps) (auto split: option.splits dest: leadingWordAt_Some(1) intro: less_imp_le order_trans)
  qed
qed

lemma after_wrapper_ge: "pos \<le> after_wrapper s info w pos"
  using skip_flags_ge [of pos s info]
  by (auto simp: after_wrapper_def Let_def split: option.splits prod.splits dest!: leadingWordAt_Some(1))

lemma stripLeadingAssignmentsAt_ge: "st \<le> stripLeadingAssignmentsAt s info st dir"
proof (induction s info st dir rule: stripLeadingAssignmentsAt.induct)
  case (1 s info st dir)
  let ?pos = "skip_ws s info st"
  show ?case
  proof (cases "assignment_name_end s ?pos")
    case None
    then show ?thesis by (subst stripLeadingAssignmentsAt.simps) (simp add: Let_def skip_ws_ge)
  next
    case (Some eq)
    let ?v = "value_end s info (eq + 1)"
    have "st \<le> ?v"
      using assignment_name_end_bounds [OF Some] skip_ws_ge [of st s info] value_end_ge [of "eq + 1" s info]
      by linarith
    with 1 [OF refl _ Some refl] Some show ?thesis
      by (subst stripLeadingAssignmentsAt.simps) (auto simp: Let_def skip_ws_ge intro: order_trans)
  qed
qed

text \<open>
  The main loop: the position where the remaining command starts and whether the wrapper word was
  ambiguous.
\<close>

function strip_loop :: "string \<Rightarrow> scan_info \<Rightarrow> direction \<Rightarrow> nat \<Rightarrow> nat \<times> bool" where
  "strip_loop cmd info dir st =
     (let pos = stripLeadingAssignmentsAt cmd info st dir in
      case leadingWordAt cmd info pos of
        (None, _) \<Rightarrow> (pos, False)
      | (Some rawWord, afterWordEnd) \<Rightarrow>
          if ambiguous_word dir rawWord then (pos, True)
          else if wrapper_word dir rawWord = XARGS then
            (if is_flag_word (fst (leadingWordAt cmd info afterWordEnd)) then (pos, False)
             else strip_loop cmd info dir afterWordEnd)
          else if wrapper_word dir rawWord \<notin> set FIXED_WRAPPERS then (pos, False)
          else strip_loop cmd info dir (after_wrapper cmd info (wrapper_word dir rawWord) afterWordEnd))"
  by pat_completeness auto
termination
proof (relation "measure (\<lambda>(cmd, info, dir, st). length cmd - st)", goal_cases)
  case (2 cmd info dir st pos w e rawWord)
  then have "leadingWordAt cmd info pos = (Some rawWord, e)" by simp
  from leadingWordAt_Some(1,2) [OF this] stripLeadingAssignmentsAt_ge [of st cmd info dir] 2(1)
  show ?case by auto
next
  case (3 cmd info dir st pos w e rawWord)
  then have "leadingWordAt cmd info pos = (Some rawWord, e)" by simp
  from leadingWordAt_Some(1,2) [OF this] stripLeadingAssignmentsAt_ge [of st cmd info dir] 3(1)
    after_wrapper_ge [of e cmd info "wrapper_word dir rawWord"]
  show ?case by auto
qed auto

declare strip_loop.simps [simp del]

record wrapper_strip =
  ws_inner :: string
  ws_carried :: "string list"
  ambiguousForAllow :: bool

definition carried_before :: "string \<Rightarrow> scan_info \<Rightarrow> nat \<Rightarrow> string list" where
  "carried_before cmd info pos =
     (if ok info
      then map (\<lambda>sp. slice cmd (rs_start sp) (rs_end sp))
             (filter (\<lambda>sp. rs_start sp < pos) (redirectWriteSpans cmd info))
      else [])"

definition stripWrappersDetailed :: "string \<Rightarrow> direction \<Rightarrow> wrapper_strip" where
  "stripWrappersDetailed rawCmd dir =
     (let cmd = joinLineContinuations rawCmd; info = scanShellLike cmd; r = strip_loop cmd info dir 0
      in \<lparr>ws_inner = drop (fst r) cmd, ws_carried = carried_before cmd info (fst r),
          ambiguousForAllow = snd r\<rparr>)"

definition joinedStrip :: "wrapper_strip \<Rightarrow> string" where
  "joinedStrip strip = join_with '' '' (filter (\<lambda>part. part \<noteq> []) (ws_inner strip # ws_carried strip))"

definition stripWrappers :: "string \<Rightarrow> direction \<Rightarrow> string" where
  "stripWrappers rawCmd dir =
     (let strip = stripWrappersDetailed rawCmd dir
      in if ambiguousForAllow strip then trimStart (joinLineContinuations rawCmd) else joinedStrip strip)"

definition ruleMatchTexts :: "string \<Rightarrow> direction \<Rightarrow> string list" where
  "ruleMatchTexts command dir =
     (let strip = stripWrappersDetailed command dir
      in if ambiguousForAllow strip then []
         else (case dir of Allow \<Rightarrow> [ws_inner strip] | DenyAsk \<Rightarrow> [joinedStrip strip, ws_inner strip]))"

subsection \<open>A deny or ask rule looks through at least as much as an allow rule\<close>

lemma strip_loop_ge_assignments:
  "stripLeadingAssignmentsAt cmd info st dir \<le> fst (strip_loop cmd info dir st)"
proof (induction cmd info dir st rule: strip_loop.induct)
  case (1 cmd info dir st)
  let ?pos = "stripLeadingAssignmentsAt cmd info st dir"
  obtain w e where we: "leadingWordAt cmd info ?pos = (w, e)" by (cases "leadingWordAt cmd info ?pos")
  show ?case
  proof (cases w)
    case None
    with we show ?thesis by (subst strip_loop.simps) (simp add: Let_def)
  next
    case (Some rawWord)
    note we' = we [unfolded Some]
    have e: "?pos \<le> e" using leadingWordAt_Some(1) [OF we'] by simp
    have up: "?pos \<le> fst (strip_loop cmd info dir q)"
      if "e \<le> q" "stripLeadingAssignmentsAt cmd info q dir \<le> fst (strip_loop cmd info dir q)" for q
      using that e stripLeadingAssignmentsAt_ge [of q cmd info dir] by linarith
    show ?thesis
      using up [OF order_refl "1.IH"(1) [OF refl we [symmetric] Some]]
        up [OF after_wrapper_ge "1.IH"(2) [OF refl we [symmetric] Some]] we'
      by (subst strip_loop.simps) (simp add: Let_def)
  qed
qed

lemma assignment_prefix:
  assumes "assignment_name_end s pos = Some eq" and "j \<in> set (slice s pos (eq + 1))"
  shows "is_name_char j \<or> j = CHR ''=''"
proof -
  have b: "pos < eq" "eq < length s" using assignment_name_end_bounds [OF assms(1)] by auto
  have eq: "eq = scan_while (\<lambda>j. is_name_char (s ! j)) (length s) (Suc pos)" "s ! eq = CHR ''=''"
    and n0: "is_name_start (s ! pos)"
    using assms(1) by (auto simp: assignment_name_end_def Let_def char_at_def split: if_splits)
  from assms(2) b obtain k where k: "k < eq + 1 - pos" "j = s ! (pos + k)"
    by (auto simp: slice_def in_set_conv_nth)
  show ?thesis
  proof (cases "k = 0 \<or> pos + k = eq")
    case True
    with k n0 eq show ?thesis by (auto simp: is_name_char_def)
  next
    case False
    with k b have "Suc pos \<le> pos + k" "pos + k < eq" by auto
    with eq(1) k show ?thesis by (metis scan_while_holds)
  qed
qed

lemma name_char_plain: "is_name_char c \<Longrightarrow> \<not> is_ws c \<and> \<not> quoting_char c \<and> c \<noteq> CHR ''$''"
  by (auto simp: is_name_char_def is_name_start_def is_upper_def is_lower_def is_digit_def
      is_ws_def quoting_char_def char_consts)

lemma equals_plain: "\<not> is_ws (CHR ''='')" "\<not> quoting_char (CHR ''='')"
  by (simp_all add: is_ws_def quoting_char_def char_consts)

lemma assignment_prefix_plain:
  assumes "assignment_name_end s pos = Some eq" and "c \<in> set (slice s pos (eq + 1))"
  shows "\<not> is_ws c \<and> \<not> quoting_char c \<and> c \<noteq> CHR ''$''"
  using assignment_prefix [OF assms]
proof
  assume "is_name_char c"
  then show ?thesis by (rule name_char_plain)
next
  assume "c = CHR ''=''"
  then show ?thesis using equals_plain by simp
qed

lemma wrapper_name_no_equals: "is_wrapper_name r \<Longrightarrow> CHR ''='' \<notin> set r"
  by (auto simp: is_wrapper_name_def XARGS_def FIXED_WRAPPERS_def)

lemma assignment_word:
  assumes "assignment_name_end s pos = Some eq"
  obtains u e where "leadingWordAt s info pos = (Some (slice s pos (eq + 1) @ u), e)"
proof -
  have b: "pos < eq" "eq < length s" using assignment_name_end_bounds [OF assms] by auto
  have plain: "\<not> top_ws s info j" if "pos \<le> j" "j < eq + 1" for j
  proof -
    have "s ! j \<in> set (slice s pos (eq + 1))"
      using that b by (auto simp: slice_def in_set_conv_nth intro!: exI [of _ "j - pos"])
    then have "\<not> is_ws (s ! j)" using assignment_prefix_plain [OF assms] by blast
    then show ?thesis by (simp add: top_ws_def)
  qed
  have i: "scan_while (top_ws s info) (length s) pos = pos"
    using plain [of pos] b by (simp add: scan_while.simps [of _ _ pos])
  let ?e = "scan_while (\<lambda>j. \<not> top_ws s info j) (length s) pos"
  have "eq + 1 \<le> ?e" using plain b by (intro scan_while_reaches) auto
  then have "slice s pos ?e = slice s pos (eq + 1) @ slice s (eq + 1) ?e"
    using b by (simp add: slice_append)
  with i b that show thesis by (simp add: leadingWordAt_def Let_def)
qed

lemma assignment_readings:
  assumes "assignment_name_end s pos = Some eq" and "r \<in> set (shellWordReadings (slice s pos (eq + 1) @ u))"
  shows "\<not> is_wrapper_name r"
proof -
  let ?p = "slice s pos (eq + 1)"
  have b: "pos < eq" "eq < length s" using assignment_name_end_bounds [OF assms(1)] by auto
  have "s ! eq = CHR ''=''"
    using assms(1) by (auto simp: assignment_name_end_def Let_def char_at_def split: if_splits)
  then have eqin: "CHR ''='' \<in> set ?p"
    using b by (auto simp: slice_def in_set_conv_nth intro!: exI [of _ "eq - pos"])
  have "\<forall>c\<in>set ?p. \<not> quoting_char c \<and> c \<noteq> CHR ''$''"
    using assignment_prefix_plain [OF assms(1)] by blast
  moreover have "?p \<noteq> []" using eqin by (cases ?p) simp_all
  ultimately have "prefix ?p (first_word (shellWords (?p @ u) False reading))" for reading
    by (intro first_word_plain_prefix)
  then have "prefix ?p r"
    using assms(2) by (auto simp: shellWordReadings_def dequoteShellWord_def Let_def split: if_splits)
  then have "CHR ''='' \<in> set r" using eqin set_mono_prefix by blast
  then show ?thesis using wrapper_name_no_equals by blast
qed

lemma strip_loop_at_assignment:
  assumes "assignment_name_end cmd (stripLeadingAssignmentsAt cmd info st dir) = Some eq"
  shows "strip_loop cmd info dir st = (stripLeadingAssignmentsAt cmd info st dir, False)"
proof -
  let ?pos = "stripLeadingAssignmentsAt cmd info st dir"
  obtain u e where w: "leadingWordAt cmd info ?pos = (Some (slice cmd ?pos (eq + 1) @ u), e)"
    using assignment_word [OF assms] by blast
  let ?w = "slice cmd ?pos (eq + 1) @ u"
  have nowrap: "\<forall>r\<in>set (shellWordReadings ?w). \<not> is_wrapper_name r"
    using assignment_readings [OF assms] by blast
  moreover have "hd (shellWordReadings ?w) \<in> set (shellWordReadings ?w)"
    using hd_shellWordReadings [of ?w] by (intro hd_in_set) blast
  ultimately have "find is_wrapper_name (shellWordReadings ?w) = None" "\<not> is_wrapper_name (hd (shellWordReadings ?w))"
    by (auto simp: find_None_iff)
  then have "\<not> is_wrapper_name (wrapper_word dir ?w)" "\<not> ambiguous_word dir ?w"
    using nowrap by (auto simp: wrapper_word_def ambiguous_word_def Let_def list_ex_iff split: direction.splits)
  with w show ?thesis
    by (subst strip_loop.simps) (simp add: Let_def is_wrapper_name_def)
qed

lemma assignments_allow_deny:
  "stripLeadingAssignmentsAt s info st Allow = stripLeadingAssignmentsAt s info st DenyAsk
   \<or> (\<exists>eq. assignment_name_end s (stripLeadingAssignmentsAt s info st Allow) = Some eq)"
  "stripLeadingAssignmentsAt s info st Allow \<le> stripLeadingAssignmentsAt s info st DenyAsk"
proof (induction s info st Allow rule: stripLeadingAssignmentsAt.induct)
  case (1 s info st)
  let ?pos = "skip_ws s info st"
  let ?d = "stripLeadingAssignmentsAt s info st DenyAsk"
  show "stripLeadingAssignmentsAt s info st Allow = ?d
      \<or> (\<exists>eq. assignment_name_end s (stripLeadingAssignmentsAt s info st Allow) = Some eq)"
    and "stripLeadingAssignmentsAt s info st Allow \<le> ?d"
  proof -
    have allow: "stripLeadingAssignmentsAt s info st Allow =
        (if ?pos \<ge> length s \<or> \<not> is_top info ?pos then ?pos
         else case assignment_name_end s ?pos of None \<Rightarrow> ?pos
           | Some eq \<Rightarrow> if assignment_blocked Allow (slice s ?pos eq) (slice s (eq + 1) (value_end s info (eq + 1))) then ?pos
               else stripLeadingAssignmentsAt s info (value_end s info (eq + 1)) Allow)"
      by (simp only: stripLeadingAssignmentsAt.simps [of s info st Allow] Let_def)
    have deny: "?d =
        (if ?pos \<ge> length s \<or> \<not> is_top info ?pos then ?pos
         else case assignment_name_end s ?pos of None \<Rightarrow> ?pos
           | Some eq \<Rightarrow> stripLeadingAssignmentsAt s info (value_end s info (eq + 1)) DenyAsk)"
      by (simp only: stripLeadingAssignmentsAt.simps [of s info st DenyAsk] Let_def
          assignment_blocked_def not_True_eq_False simp_thms if_False)
    have "?pos \<le> ?d"
    proof (cases "assignment_name_end s ?pos")
      case (Some eq)
      have "?pos \<le> value_end s info (eq + 1)"
        using assignment_name_end_bounds [OF Some] value_end_ge [of "eq + 1" s info] by linarith
      with Some show ?thesis
        using stripLeadingAssignmentsAt_ge [of "value_end s info (eq + 1)" s info DenyAsk]
        by (subst deny) simp
    qed (use deny in simp)
    then show "stripLeadingAssignmentsAt s info st Allow = ?d
      \<or> (\<exists>eq. assignment_name_end s (stripLeadingAssignmentsAt s info st Allow) = Some eq)"
      and "stripLeadingAssignmentsAt s info st Allow \<le> ?d"
      using 1(1,2) allow deny by (cases "assignment_name_end s ?pos"; auto)+
  qed
qed

lemma strip_loop_allow_le_deny:
  "fst (strip_loop cmd info Allow st) \<le> fst (strip_loop cmd info DenyAsk st)"
proof (induction cmd info Allow st rule: strip_loop.induct)
  case (1 cmd info st)
  let ?pa = "stripLeadingAssignmentsAt cmd info st Allow"
  let ?pd = "stripLeadingAssignmentsAt cmd info st DenyAsk"
  have ge: "?pa \<le> fst (strip_loop cmd info DenyAsk st)"
    using strip_loop_ge_assignments [of cmd info st DenyAsk] assignments_allow_deny(2) [of cmd info st]
    by linarith
  obtain w e where we: "leadingWordAt cmd info ?pa = (w, e)" by (cases "leadingWordAt cmd info ?pa")
  have stays: ?case if "fst (strip_loop cmd info Allow st) = ?pa" using that ge by simp
  show ?case
  proof (cases "?pa = ?pd \<and> w \<noteq> None \<and> is_wrapper_name (hd (shellWordReadings (the w)))")
    case False
    consider (eq) eq where "assignment_name_end cmd ?pa = Some eq" | (none) "w = None"
      | (word) "w \<noteq> None" "\<not> is_wrapper_name (hd (shellWordReadings (the w)))"
      using False assignments_allow_deny(1) [of cmd info st] by blast
    then show ?thesis
    proof cases
      case eq
      then show ?thesis using strip_loop_at_assignment stays by simp
    next
      case none
      with we show ?thesis by (intro stays) (subst strip_loop.simps, simp add: Let_def)
    next
      case word
      with we show ?thesis
        by (intro stays) (subst strip_loop.simps, auto simp: Let_def wrapper_word_def is_wrapper_name_def)
    qed
  next
    case True
    then obtain raw where raw: "w = Some raw" "is_wrapper_name (hd (shellWordReadings raw))" by auto
    obtain rs where rs: "shellWordReadings raw = hd (shellWordReadings raw) # rs"
      using hd_shellWordReadings [of raw] by (cases "shellWordReadings raw") auto
    then have same: "wrapper_word DenyAsk raw = wrapper_word Allow raw"
      using raw(2) by (metis find.simps(2) the_default_Some wrapper_word_def direction.simps(3,4))
    have amb: "\<not> ambiguous_word Allow raw" "\<not> ambiguous_word DenyAsk raw"
      using raw(2) by (auto simp: ambiguous_word_def Let_def)
    have wp: "is_wrapper_name (wrapper_word Allow raw)" using raw(2) by (simp add: wrapper_word_def Let_def)
    note IH = "1.hyps"(1) [OF refl we [symmetric] raw(1)] "1.hyps"(2) [OF refl we [symmetric] raw(1)]
    show ?thesis
      using IH True we raw(1) amb wp same
      by (subst (1 2) strip_loop.simps) (auto simp: Let_def is_wrapper_name_def)
  qed
qed

subsection \<open>An allow never looks through a dangerous assignment\<close>

lemma name_append_end:
  assumes "name \<noteq> []" "is_name_start (hd name)" "list_all is_name_char name"
  shows "assignment_name_end (name @ CHR ''='' # rest) 0 = Some (length name)"
proof -
  let ?s = "name @ CHR ''='' # rest"
  have "scan_while (\<lambda>j. is_name_char (?s ! j)) (length ?s) (Suc 0) = length name"
  proof (rule scan_while_eqI)
    show "Suc 0 \<le> length name" using assms(1) by (cases name) auto
    show "is_name_char (?s ! j)" if "Suc 0 \<le> j" "j < length name" for j
      using that assms(3) by (simp add: nth_append list_all_length)
    show "\<not> is_name_char (?s ! length name)"
      by (simp add: is_name_char_def is_name_start_def is_upper_def is_lower_def is_digit_def)
  qed simp
  moreover have "is_name_start (?s ! 0)" using assms(1,2) by (cases name) auto
  ultimately show ?thesis using assms(1)
    by (simp add: assignment_name_end_def char_at_def nth_append Let_def)
qed

lemma name_char_not_syntax: "is_name_char c \<Longrightarrow> \<not> syntax_char c"
  by (auto simp: is_name_char_def is_name_start_def is_upper_def is_lower_def is_digit_def
      syntax_char_def char_consts)

lemma top_at_first: "\<not> syntax_char c \<Longrightarrow> top_at (scanShellLike (c # s)) 0"
proof -
  assume "\<not> syntax_char c"
  then have "fst (scan_step 0 init_vars c (s \<noteq> [])) = [True]"
    by (simp add: scan_step_def init_vars_def syntax_char_def is_quote_char_def Let_def)
  then show ?thesis
    by (simp add: scanShellLike_def top_at_def char_at_def Let_def)
qed

lemma dangerous_names: "name \<in> set DANGEROUS_ASSIGNMENT_NAMES \<Longrightarrow>
    name \<noteq> [] \<and> is_name_start (hd name) \<and> list_all is_name_char name"
  by (auto simp: DANGEROUS_ASSIGNMENT_NAMES_def is_name_char_def is_name_start_def is_upper_def is_digit_def)

lemma strip_loop_dangerous:
  fixes name rest :: string
  assumes "name \<in> set DANGEROUS_ASSIGNMENT_NAMES"
  defines "cmd \<equiv> name @ CHR ''='' # rest"
  shows "strip_loop cmd (scanShellLike cmd) Allow 0 = (0, False)"
proof -
  note n = dangerous_names [OF assms(1), THEN conjunct1] dangerous_names [OF assms(1), THEN conjunct2]
  have c: "is_name_char (hd name)" using n by (cases name) auto
  have cmd: "cmd = hd name # tl name @ CHR ''='' # rest" using n(1) by (simp add: cmd_def)
  have top: "is_top (scanShellLike cmd) 0"
    using top_at_first [OF name_char_not_syntax [OF c]] cmd by (simp add: is_top_def)
  have ws: "skip_ws cmd (scanShellLike cmd) 0 = 0"
    using name_char_plain [OF c] cmd
    by (simp add: skip_ws_def scan_while.simps [of _ _ 0] top_ws_def)
  have ne: "assignment_name_end cmd 0 = Some (length name)"
    using name_append_end n by (simp add: cmd_def)
  have "slice cmd 0 (length name) = name" by (simp add: cmd_def slice_def)
  then have "stripLeadingAssignmentsAt cmd (scanShellLike cmd) 0 Allow = 0"
    using ws top ne cmd assms(1)
    by (subst stripLeadingAssignmentsAt.simps) (simp add: Let_def assignment_blocked_def)
  with ne show ?thesis using strip_loop_at_assignment by metis
qed

lemma bash_join_append_plain: "backslash \<notin> set p \<Longrightarrow> bash_join (p @ s) = p @ bash_join s"
  by (induction p) (auto simp: bash_join_plain)

subsection \<open>Properties\<close>

text \<open>
  Looking through assignments and wrappers never makes a deny or ask rule see less than an allow
  rule: the command a deny or ask rule is matched against is a final part of the one an allow rule
  is matched against, for every command text.
\<close>

theorem deny_looks_through_allow:
  "suffix (ws_inner (stripWrappersDetailed command DenyAsk)) (ws_inner (stripWrappersDetailed command Allow))"
proof -
  let ?c = "joinLineContinuations command"
  let ?a = "fst (strip_loop ?c (scanShellLike ?c) Allow 0)" and ?d = "fst (strip_loop ?c (scanShellLike ?c) DenyAsk 0)"
  have "drop ?d ?c = drop (?d - ?a) (drop ?a ?c)"
    using strip_loop_allow_le_deny [of ?c "scanShellLike ?c" 0] by simp
  then show ?thesis by (simp add: stripWrappersDetailed_def Let_def suffix_drop del: drop_drop)
qed

end
