(* ===== verification/Glob.thy ===== *)
theory Glob
  imports JS_Prelude
begin

text \<open>
  The glob and prefix patterns of permission rules (\<open>escapeRegExpLiteral\<close>, \<open>globToRegExpSource\<close>,
  \<open>compilePattern\<close> of \<^verbatim>\<open>permissions/grammar.ts\<close>). A compiled pattern is the list of its atoms: a
  literal character, the dot-all wildcard, and the optional tail of the prefix form (a space and
  anything, or nothing). Lemmas: what a compiled pattern accepts, as a language and for the
  patterns rules are written with.
\<close>

subsection \<open>Escaping literal text for a regular expression\<close>

definition regexp_special :: "char \<Rightarrow> bool" where
  "regexp_special c \<longleftrightarrow> c \<in> set ''.*+?^${}()|[]'' \<or> c = backslash"

definition escapeRegExpLiteral :: "string \<Rightarrow> string" where
  "escapeRegExpLiteral s = concat (map (\<lambda>c. if regexp_special c then [backslash, c] else [c]) s)"

text \<open>How a regular expression reads literal text: a backslash makes the next character literal, an
  unescaped special character is not literal.\<close>

fun regexp_literal :: "string \<Rightarrow> string option" where
  "regexp_literal [] = Some []"
| "regexp_literal [c] = (if regexp_special c then None else Some [c])"
| "regexp_literal (c # d # s) =
     (if c = backslash then map_option ((#) d) (regexp_literal s)
      else if regexp_special c then None
      else map_option ((#) c) (regexp_literal (d # s)))"

lemma regexp_literal_plain:
  "\<not> regexp_special c \<Longrightarrow> regexp_literal (c # s) = map_option ((#) c) (regexp_literal s)"
  by (cases s) (auto simp: regexp_special_def)

lemma regexp_literal_escape: "regexp_literal (escapeRegExpLiteral s) = Some s"
  by (induction s) (auto simp: escapeRegExpLiteral_def regexp_literal_plain)

subsection \<open>Compiled patterns\<close>

datatype atom = Lit char | DotStar | OptTail

fun globToRegExpSource :: "string \<Rightarrow> atom list" where
  "globToRegExpSource pattern = join_with [DotStar] (map (map Lit) (split_on (CHR ''*'') pattern))"

declare globToRegExpSource.simps [simp del]

definition compilePattern :: "string \<Rightarrow> atom list" where
  "compilePattern pattern =
     (let s = (if endsWith pattern '':*'' then take (length pattern - 2) pattern @ '' *'' else pattern)
      in if endsWith s '' *'' then globToRegExpSource (take (length s - 2) s) @ [OptTail]
         else globToRegExpSource s)"

fun regexp_test :: "atom list \<Rightarrow> string \<Rightarrow> bool" where
  "regexp_test [] s = (s = [])"
| "regexp_test (Lit c # r) s = (case s of [] \<Rightarrow> False | d # t \<Rightarrow> d = c \<and> regexp_test r t)"
| "regexp_test (DotStar # r) s =
     (regexp_test r s \<or> (case s of [] \<Rightarrow> False | d # t \<Rightarrow> regexp_test (DotStar # r) t))"
| "regexp_test (OptTail # r) s =
     (regexp_test r s \<or> (case s of [] \<Rightarrow> False | d # t \<Rightarrow> d = CHR '' '' \<and> regexp_test (DotStar # r) t))"

subsection \<open>What a compiled pattern accepts\<close>

fun accepts :: "atom list \<Rightarrow> string set" where
  "accepts [] = {[]}"
| "accepts (Lit c # r) = {c # t | t. t \<in> accepts r}"
| "accepts (DotStar # r) = {a @ t | a t. t \<in> accepts r}"
| "accepts (OptTail # r) = accepts r \<union> {CHR '' '' # a @ t | a t. t \<in> accepts r}"

lemma accepts_DotStar_Cons: "d # t \<in> accepts (DotStar # r) \<longleftrightarrow> d # t \<in> accepts r \<or> t \<in> accepts (DotStar # r)"
  by (auto simp: Cons_eq_append_conv)

lemma regexp_test_accepts: "regexp_test r s \<longleftrightarrow> s \<in> accepts r"
proof (induction r s rule: regexp_test.induct)
  case (3 r s)
  then show ?case
    by (cases s) (auto simp: accepts_DotStar_Cons simp del: accepts.simps(3), auto)
next
  case (4 r s)
  then show ?case by (cases s) auto
qed (auto split: list.splits)

lemma accepts_append_iff:
  "s \<in> accepts (r @ r') \<longleftrightarrow> (\<exists>a b. s = a @ b \<and> a \<in> accepts r \<and> b \<in> accepts r')"
proof (induction r arbitrary: s)
  case Nil
  then show ?case by simp
next
  case (Cons x r)
  show ?case
  proof (cases x)
    case (Lit c)
    have "s \<in> accepts ((x # r) @ r') \<longleftrightarrow> (\<exists>t a b. s = c # t \<and> t = a @ b \<and> a \<in> accepts r \<and> b \<in> accepts r')"
      unfolding Lit append_Cons accepts.simps mem_Collect_eq Cons.IH by blast
    also have "\<dots> \<longleftrightarrow> (\<exists>a b. s = (c # a) @ b \<and> a \<in> accepts r \<and> b \<in> accepts r')" by auto
    also have "\<dots> \<longleftrightarrow> (\<exists>a b. s = a @ b \<and> a \<in> accepts (x # r) \<and> b \<in> accepts r')"
      unfolding Lit accepts.simps by blast
    finally show ?thesis .
  next
    case DotStar
    have "s \<in> accepts ((x # r) @ r') \<longleftrightarrow> (\<exists>u a b. s = u @ a @ b \<and> a \<in> accepts r \<and> b \<in> accepts r')"
      using DotStar Cons.IH by auto
    also have "\<dots> \<longleftrightarrow> (\<exists>u a b. s = (u @ a) @ b \<and> a \<in> accepts r \<and> b \<in> accepts r')" by simp
    also have "\<dots> \<longleftrightarrow> (\<exists>a b. s = a @ b \<and> a \<in> accepts (x # r) \<and> b \<in> accepts r')"
      unfolding DotStar accepts.simps by blast
    finally show ?thesis .
  next
    case OptTail
    have "s \<in> accepts ((x # r) @ r') \<longleftrightarrow>
        (\<exists>a b. s = a @ b \<and> a \<in> accepts r \<and> b \<in> accepts r')
        \<or> (\<exists>u a b. s = CHR '' '' # u @ a @ b \<and> a \<in> accepts r \<and> b \<in> accepts r')"
      using OptTail Cons.IH by auto
    also have "\<dots> \<longleftrightarrow>
        (\<exists>a b. s = a @ b \<and> a \<in> accepts r \<and> b \<in> accepts r')
        \<or> (\<exists>u a b. s = (CHR '' '' # u @ a) @ b \<and> a \<in> accepts r \<and> b \<in> accepts r')" by simp
    also have "\<dots> \<longleftrightarrow> (\<exists>a b. s = a @ b \<and> a \<in> accepts (x # r) \<and> b \<in> accepts r')"
      unfolding OptTail accepts.simps by blast
    finally show ?thesis .
  qed
qed

lemma accepts_append: "accepts (r @ r') = {a @ b | a b. a \<in> accepts r \<and> b \<in> accepts r'}"
  using accepts_append_iff by blast

lemma accepts_literal: "accepts (map Lit p) = {p}"
  by (induction p) auto

lemma glob_literal: "CHR ''*'' \<notin> set p \<Longrightarrow> globToRegExpSource p = map Lit p"
  by (simp add: globToRegExpSource.simps split_on_single)

lemma glob_star: "CHR ''*'' \<notin> set p \<Longrightarrow> globToRegExpSource (p @ CHR ''*'' # q) = map Lit p @ DotStar # globToRegExpSource q"
  by (cases "split_on (CHR ''*'') q") (auto simp: globToRegExpSource.simps split_on_append)

lemma accepts_glob_star:
  "CHR ''*'' \<notin> set p \<Longrightarrow>
    accepts (globToRegExpSource (p @ CHR ''*'' # q)) = {p @ x @ t | x t. t \<in> accepts (globToRegExpSource q)}"
  by (auto simp: glob_star accepts_append accepts_literal)

text \<open>Every string a glob accepts starts with its text before the first star.\<close>

lemma accepts_glob_prefix:
  assumes "s \<in> accepts (globToRegExpSource p)"
  shows "prefix (takeWhile (\<lambda>c. c \<noteq> CHR ''*'') p) s"
proof (cases "CHR ''*'' \<in> set p")
  case False
  then have "takeWhile (\<lambda>c. c \<noteq> CHR ''*'') p = p" unfolding takeWhile_eq_all_conv by blast
  moreover from False assms have "s = p" by (simp add: glob_literal accepts_literal)
  ultimately show ?thesis by (simp only: prefix_order.order_refl)
next
  case True
  then obtain a b where p: "p = a @ CHR ''*'' # b" "CHR ''*'' \<notin> set a" by (meson split_list_first)
  then have "takeWhile (\<lambda>c. c \<noteq> CHR ''*'') p = a"
    by (subst p(1), subst takeWhile_append2) auto
  with p assms show ?thesis by (auto simp: accepts_glob_star)
qed

lemma compilePattern_colon_star: "compilePattern (p @ '':*'') = compilePattern (p @ '' *'')"
  by (simp add: compilePattern_def endsWith_def Let_def)

lemma compilePattern_space_star: "compilePattern (p @ '' *'') = globToRegExpSource p @ [OptTail]"
  by (simp add: compilePattern_def endsWith_def Let_def)

lemma compilePattern_plain:
  "\<not> suffix '':*'' p \<Longrightarrow> \<not> suffix '' *'' p \<Longrightarrow> compilePattern p = globToRegExpSource p"
  by (simp add: compilePattern_def endsWith_iff_suffix Let_def)

lemma prefix_rule_accepts:
  "CHR ''*'' \<notin> set p \<Longrightarrow>
    regexp_test (compilePattern (p @ '' *'')) s \<longleftrightarrow> s = p \<or> (\<exists>t. s = p @ '' '' @ t)"
  by (auto simp: compilePattern_space_star regexp_test_accepts accepts_append accepts_literal glob_literal)

lemma literal_rule_accepts:
  "CHR ''*'' \<notin> set p \<Longrightarrow> regexp_test (compilePattern p) s \<longleftrightarrow> s = p"
  by (subst compilePattern_plain)
    (auto simp: suffix_def regexp_test_accepts glob_literal accepts_literal)

subsection \<open>Properties\<close>

text \<open>
  A rule that ends in the prefix spelling, with a colon or with a blank before the star, is
  the same pattern: it accepts the prefix alone, and the prefix followed by a blank and anything, and
  nothing else; in particular not a longer word that starts with the prefix.
\<close>

theorem prefix_rule_language:
  assumes "CHR ''*'' \<notin> set p"
  shows "compilePattern (p @ '':*'') = compilePattern (p @ '' *'')
    \<and> (regexp_test (compilePattern (p @ '':*'')) s \<longleftrightarrow> s = p \<or> (\<exists>t. s = p @ '' '' @ t))"
  using assms by (simp only: compilePattern_colon_star prefix_rule_accepts simp_thms)

theorem prefix_rule_language_witness:
  "regexp_test (compilePattern (''ls'' @ '':*'')) ''ls -l'' \<and> \<not> regexp_test (compilePattern (''ls'' @ '':*'')) ''lsof''"
  using prefix_rule_language [of "''ls''" "''ls -l''"] prefix_rule_language [of "''ls''" "''lsof''"] by auto

text \<open>
  Text put through \<open>escapeRegExpLiteral\<close> stands for itself in a regular expression: read back by
  the rules of regular expressions it has no special character left and gives the original text.
\<close>

lemma escapeRegExpLiteral_roundtrip: "regexp_literal (escapeRegExpLiteral s) = Some s"
  by (rule regexp_literal_escape)

end
