(* ===== verification/Rule_Match.thy ===== *)
theory Rule_Match
  imports Rule_Text Wrappers Glob
begin

text \<open>
  Matching one parsed rule against one tool call (\<open>toolNameMatches\<close>, \<open>matchesRule\<close> and the
  \<open>WebFetch\<close> helpers of \<^verbatim>\<open>permissions/grammar.ts\<close>). The input of a call is a finite or infinite map
  from field names to JSON values. The locale \<open>direction_matcher\<close> is the contract of a matcher whose
  deny and ask direction covers at least what its allow direction covers.
\<close>

datatype json = JNull | JBool bool | JNum int | JStr string | JArr "json list" | JObj "(string \<times> json) list"

record tool_call =
  call_toolName :: string
  call_input :: "string \<Rightarrow> json option"

definition webFetchUrlOf :: "url_parser \<Rightarrow> (string \<Rightarrow> json option) \<Rightarrow> parsed_url option" where
  "webFetchUrlOf url input = (case input ''url'' of Some (JStr txt) \<Rightarrow> url txt | _ \<Rightarrow> None)"

definition webFetchHostnameOf :: "url_parser \<Rightarrow> (string \<Rightarrow> json option) \<Rightarrow> string option" where
  "webFetchHostnameOf url input =
     (case webFetchUrlOf url input of
        None \<Rightarrow> None
      | Some u \<Rightarrow>
          (let host = stripTrailingDot (toLowerCase (hostname u))
           in if host = '''' then None else Some host))"

definition isExactWebFetchDomainRule :: "parsed_rule \<Rightarrow> string \<Rightarrow> bool" where
  "isExactWebFetchDomainRule rule host =
     (toolName rule = ''WebFetch'' \<and>
      (case specifier rule of
         Some (WebFetchDomain source) \<Rightarrow> \<not> str_includes source ''*'' \<and> source = host
       | _ \<Rightarrow> False))"

definition isAnchoredMcpAllowGlob :: "string \<Rightarrow> bool" where
  "isAnchoredMcpAllowGlob name =
     (let before = takeWhile (\<lambda>c. c \<noteq> CHR ''*'') name
      in str_includes (drop (length ''mcp__'') before) ''__'')"

definition toolNameMatches :: "string \<Rightarrow> string \<Rightarrow> direction \<Rightarrow> bool" where
  "toolNameMatches ruleTool callTool direction =
     (if \<not> str_includes ruleTool ''*'' then ruleTool = callTool
      else if startsWith ruleTool ''mcp__'' \<and> direction = Allow \<and> \<not> isAnchoredMcpAllowGlob ruleTool then False
      else regexp_test (compilePattern ruleTool) callTool)"

fun scalar_json :: "scalar \<Rightarrow> json" where
  "scalar_json (SStr s) = JStr s"
| "scalar_json (SBool b) = JBool b"

definition command_text :: "(string \<Rightarrow> json option) \<Rightarrow> string" where
  "command_text input = (case input ''command'' of Some (JStr txt) \<Rightarrow> txt | _ \<Rightarrow> '''')"

definition matchesRule :: "url_parser \<Rightarrow> parsed_rule \<Rightarrow> tool_call \<Rightarrow> direction \<Rightarrow> bool" where
  "matchesRule url rule call direction =
     (if \<not> toolNameMatches (toolName rule) (call_toolName call) direction then False
      else
        (case specifier rule of
           None \<Rightarrow> True
         | Some WildcardAll \<Rightarrow> True
         | Some (Invalid _) \<Rightarrow> False
         | Some (Param field value) \<Rightarrow>
             direction = DenyAsk \<and> call_input call field = Some (scalar_json value)
         | Some (WebFetchDomain source) \<Rightarrow>
             (case webFetchHostnameOf url (call_input call) of
                None \<Rightarrow> False
              | Some host \<Rightarrow> regexp_test (globToRegExpSource source) host)
         | Some (Pattern source) \<Rightarrow>
             list_ex (regexp_test (compilePattern source))
               (ruleMatchTexts (command_text (call_input call)) direction)))"

subsection \<open>The contract of a direction\<close>

text \<open>
  Wherever a rule is read in two directions, a deny or ask rule must cover at least the calls an
  allow rule of the same text covers: an allow rule may be refused for being too broad, a deny rule
  may not.
\<close>

locale direction_matcher =
  fixes m :: "'r \<Rightarrow> 'c \<Rightarrow> direction \<Rightarrow> bool"
  assumes allow_deny: "m r c Allow \<Longrightarrow> m r c DenyAsk"
begin

lemma covered_subset: "{c. m r c Allow} \<subseteq> {c. m r c DenyAsk}"
  using allow_deny by blast

lemma some_rule_covers: "list_ex (\<lambda>r. m r c Allow) rs \<Longrightarrow> list_ex (\<lambda>r. m r c DenyAsk) rs"
  using allow_deny by (auto simp: list_ex_iff)

lemma guarded: "direction_matcher (\<lambda>r c d. p r c \<and> m r c d)"
  by unfold_locales (auto intro: allow_deny)

end

interpretation tool_name: direction_matcher toolNameMatches
  by unfold_locales (auto simp: toolNameMatches_def split: if_splits)

subsection \<open>Tool names\<close>

lemma toolNameMatches_plain: "CHR ''*'' \<notin> set r \<Longrightarrow> toolNameMatches r t d \<longleftrightarrow> r = t"
  by (simp add: toolNameMatches_def)

lemma str_includes_prefix: "str_includes a p \<Longrightarrow> prefix a b \<Longrightarrow> str_includes b p"
  unfolding includes_iff prefix_def by force

lemma takeWhile_stop: "x \<notin> set a \<Longrightarrow> takeWhile (\<lambda>c. c \<noteq> x) (a @ x # b) = a"
  by (subst takeWhile_append2) auto

lemma takeWhile_none: "x \<notin> set a \<Longrightarrow> takeWhile (\<lambda>c. c \<noteq> x) a = a"
  unfolding takeWhile_eq_all_conv by blast

lemma compiled_literal_prefix:
  assumes "regexp_test (compilePattern (a @ CHR ''*'' # b)) t" "CHR ''*'' \<notin> set a"
  shows "prefix a t \<or> (\<exists>a' y. a = a' @ [y] \<and> y \<in> {CHR '':'', CHR '' ''} \<and> prefix a' t)"
proof -
  let ?p = "a @ CHR ''*'' # b"
  consider q y where "?p = q @ [y, CHR ''*'']" "y \<in> {CHR '':'', CHR '' ''}" "compilePattern ?p = globToRegExpSource q @ [OptTail]"
    | "compilePattern ?p = globToRegExpSource ?p"
  proof (cases "suffix '':*'' ?p \<or> suffix '' *'' ?p")
    case True
    then obtain q where "?p = q @ '':*'' \<or> ?p = q @ '' *''" by (auto simp: suffix_def)
    then show ?thesis
    proof
      assume p: "?p = q @ '':*''"
      show ?thesis by (rule that(1) [of q "CHR '':''"]) (simp_all only: p compilePattern_colon_star compilePattern_space_star, simp_all)
    next
      assume p: "?p = q @ '' *''"
      show ?thesis by (rule that(1) [of q "CHR '' ''"]) (simp_all only: p compilePattern_space_star, simp_all)
    qed
  qed (use that(2) compilePattern_plain in blast)
  then show ?thesis
  proof cases
    case 1
    have "t \<in> accepts (globToRegExpSource q @ [OptTail])"
      using assms(1) unfolding 1(3) regexp_test_accepts .
    then obtain u v where t: "t = u @ v" "u \<in> accepts (globToRegExpSource q)"
      unfolding accepts_append by blast
    then have u: "prefix (takeWhile (\<lambda>c. c \<noteq> CHR ''*'') q) t"
      using accepts_glob_prefix [of u q] by (auto intro: prefix_prefix)
    show ?thesis
    proof (cases b rule: rev_cases)
      case Nil
      with 1(1) have "a = q @ [y]" by simp
      moreover from this have "takeWhile (\<lambda>c. c \<noteq> CHR ''*'') q = q" using assms(2) by (intro takeWhile_none) simp
      ultimately have "a = q @ [y] \<and> prefix q t" using u by (simp only: simp_thms)
      then show ?thesis using 1(2) by blast
    next
      case (snoc b' z)
      show ?thesis
      proof (cases b' rule: rev_cases)
        case Nil
        with snoc 1(1) have "q = a" "y = CHR ''*''" by auto
        with 1(2) show ?thesis by simp
      next
        case (snoc b'' z')
        with \<open>b = b' @ [z]\<close> 1(1) have "q = a @ CHR ''*'' # b''" by simp
        with u show ?thesis using takeWhile_stop [OF assms(2)] by simp
      qed
    qed
  next
    case 2
    with assms have "prefix (takeWhile (\<lambda>c. c \<noteq> CHR ''*'') ?p) t"
      by (simp only: regexp_test_accepts accepts_glob_prefix)
    then show ?thesis using takeWhile_stop [OF assms(2)] by simp
  qed
qed

text \<open>An allow glob over MCP tools covers tools of one literally named server only.\<close>

lemma mcp_allow_glob_server:
  assumes "toolNameMatches r t Allow" "prefix ''mcp__'' r" "CHR ''*'' \<in> set r"
  shows "\<exists>server. prefix (''mcp__'' @ server @ ''__'') r \<and> prefix (''mcp__'' @ server @ ''__'') t
    \<and> CHR ''*'' \<notin> set server"
proof -
  from assms(3) obtain a b where r: "r = a @ CHR ''*'' # b" and a: "CHR ''*'' \<notin> set a" by (meson split_list_first)
  have "regexp_test (compilePattern r) t" "isAnchoredMcpAllowGlob r"
    using assms by (auto simp: toolNameMatches_def startsWith_iff_prefix split: if_splits)
  then have inc: "str_includes (drop 5 a) ''__''" and t: "regexp_test (compilePattern (a @ CHR ''*'' # b)) t"
    using takeWhile_stop [OF a] by (simp_all add: isAnchoredMcpAllowGlob_def r eval_nat_numeral)
  from inc obtain sv c where sv: "drop 5 a = sv @ ''__'' @ c" by (auto simp: includes_iff)
  then have "5 < length a" by (cases "length a \<le> 5") simp_all
  moreover have "take 5 r = ''mcp__''" using assms(2) by (auto simp: prefix_def)
  ultimately have "take 5 a = ''mcp__''" by (simp add: r)
  then have a': "a = ''mcp__'' @ sv @ ''__'' @ c"
    using sv append_take_drop_id [of 5 a] by (simp only:)
  have "prefix (''mcp__'' @ sv @ ''__'') t"
    using compiled_literal_prefix [OF t a]
  proof
    assume "prefix a t"
    then show ?thesis unfolding a' by (auto simp: prefix_def)
  next
    assume "\<exists>a' y. a = a' @ [y] \<and> y \<in> {CHR '':'', CHR '' ''} \<and> prefix a' t"
    then obtain a2 y where y: "a = a2 @ [y]" "y \<in> {CHR '':'', CHR '' ''}" "prefix a2 t" by blast
    then obtain c' where "c = c' @ [y]" using a' by (cases c rule: rev_cases) auto
    with a' y have "a2 = ''mcp__'' @ sv @ ''__'' @ c'" by simp
    with y(3) show ?thesis by (auto simp: prefix_def)
  qed
  moreover have "prefix (''mcp__'' @ sv @ ''__'') r" unfolding r a' by simp
  moreover have "CHR ''*'' \<notin> set sv" using a a' by simp
  ultimately show ?thesis by blast
qed

subsection \<open>Rules read from their text\<close>

lemma FIELD_VALUE_Some:
  assumes "FIELD_VALUE s = Some (f, v)"
  shows "s = f @ '':'' @ v"
proof -
  from assms have "dropWhile is_name_char s = CHR '':'' # v" "takeWhile is_name_char s = f"
    by (auto simp: FIELD_VALUE_def split: if_splits list.splits)
  then show ?thesis using takeWhile_dropWhile_id [of is_name_char s] by simp
qed

lemma bash_rule_specifier:
  assumes "plain_content = p @ '':*''"
  shows "parseRule url (print_rule ''Bash'' plain_content) = scoped ''Bash'' (content_specifier url ''Bash'' plain_content)"
  using assms by (intro parseRule_print_content) (auto simp: plain_tool_def is_ws_def backslash_def)

lemma bash_content:
  "content_specifier url ''Bash'' c =
     (case FIELD_VALUE c of
        Some (field, value) \<Rightarrow>
          if field \<in> set BASH_PARAM_FIELDS then Param field (parseScalar value) else Pattern c
      | None \<Rightarrow> Pattern c)"
  by (simp add: content_specifier_def startsWith_def WEB_SEARCH_RULE_TOOL_def)

lemma bash_prefix_content:
  assumes "\<not> prefix ''run_in_background:'' (p @ '':'')"
  shows "content_specifier url ''Bash'' (p @ '':*'') = Pattern (p @ '':*'')"
proof (cases "FIELD_VALUE (p @ '':*'')")
  case (Some fv)
  obtain f v where fv: "fv = (f, v)" by (cases fv)
  have s: "p @ '':*'' = f @ '':'' @ v" using FIELD_VALUE_Some Some fv by simp
  have "f \<noteq> ''run_in_background''"
  proof
    assume "f = ''run_in_background''"
    with s have eq: "p @ '':*'' = ''run_in_background:'' @ v" by simp
    then have "v \<noteq> []" by (cases v) (auto dest: arg_cong [where f = last])
    then obtain v' z where "v = v' @ [z]" by (cases v rule: rev_cases) auto
    with eq have "(p @ '':'') @ ''*'' = (''run_in_background:'' @ v') @ [z]" by simp
    then have "p @ '':'' = ''run_in_background:'' @ v'" by (simp only: append1_eq_conv)
    with assms show False by simp
  qed
  with Some fv show ?thesis by (simp add: bash_content BASH_PARAM_FIELDS_def)
qed (simp add: bash_content)

lemma bash_prefix_allow_texts:
  assumes "matchesRule url (parseRule url (print_rule ''Bash'' (p @ '':*''))) call Allow"
  shows "list_ex (regexp_test (compilePattern (p @ '':*''))) (ruleMatchTexts (command_text (call_input call)) Allow)"
proof -
  have "content_specifier url ''Bash'' (p @ '':*'') = Pattern (p @ '':*'')
      \<or> (\<exists>f v. content_specifier url ''Bash'' (p @ '':*'') = Param f v)"
    unfolding bash_content by (auto split: option.split)
  with assms show ?thesis
    unfolding bash_rule_specifier [OF refl] matchesRule_def scoped_def by (auto split: if_splits)
qed

lemma ruleMatchTexts_dangerous:
  assumes "name \<in> set DANGEROUS_ASSIGNMENT_NAMES"
  shows "ruleMatchTexts (name @ ''='' @ rest) Allow = [name @ ''='' @ bash_join rest]"
proof -
  have "backslash \<notin> set (name @ ''='')"
    using assms by (auto simp: DANGEROUS_ASSIGNMENT_NAMES_def backslash_def)
  then have j: "joinLineContinuations (name @ ''='' @ rest) = name @ CHR ''='' # bash_join rest"
    using bash_join_append_plain [of "name @ ''=''" rest] by (simp add: joinLineContinuations_bash_join)
  show ?thesis
    using strip_loop_dangerous [OF assms, of "bash_join rest"]
    unfolding ruleMatchTexts_def stripWrappersDetailed_def j Let_def by simp
qed

lemma dangerous_name_no_space: "name \<in> set DANGEROUS_ASSIGNMENT_NAMES \<Longrightarrow> CHR '' '' \<notin> set name"
  by (auto simp: DANGEROUS_ASSIGNMENT_NAMES_def)

subsection \<open>Properties\<close>

text \<open>
  An allow rule with a wildcard over MCP tools only ever approves tools of one server that the
  rule names literally: the text before any wildcard has the whole server prefix, and so has the
  name of the called tool.
\<close>

theorem mcp_allow_names_server:
  assumes "matchesRule url rule call Allow" and "prefix ''mcp__'' (toolName rule)" and "CHR ''*'' \<in> set (toolName rule)"
  shows "\<exists>server. CHR ''*'' \<notin> set server
    \<and> prefix (''mcp__'' @ server @ ''__'') (toolName rule)
    \<and> prefix (''mcp__'' @ server @ ''__'') (call_toolName call)"
proof -
  have "toolNameMatches (toolName rule) (call_toolName call) Allow"
    using assms(1) by (auto simp: matchesRule_def split: if_splits)
  then show ?thesis using mcp_allow_glob_server assms(2,3) by blast
qed

theorem mcp_allow_names_server_witness:
  "\<exists>server. prefix (''mcp__'' @ server @ ''__'') ''mcp__github__get_*'' \<and> prefix (''mcp__'' @ server @ ''__'') ''mcp__github__get_me''"
proof -
  have "matchesRule (\<lambda>_. None) (bare ''mcp__github__get_*'') \<lparr>call_toolName = ''mcp__github__get_me'', call_input = (\<lambda>_. None)\<rparr> Allow"
    by code_simp
  then show ?thesis using mcp_allow_names_server [where rule = "bare ''mcp__github__get_*''"] by (force simp: bare_def)
qed

text \<open>
  A \<open>WebFetch\<close> domain rule without a wildcard matches, in either direction, exactly the calls
  whose URL has the canonical form of the named host as its host name: no subdomain, no other field
  of the call and no URL without a host satisfies it.
\<close>

theorem webfetch_domain_exact:
  assumes "CHR ''*'' \<notin> set (normalizeRuleHostname url host)"
  shows "matchesRule url (parseRule url (print_rule ''WebFetch'' (''domain:'' @ host))) call direction \<longleftrightarrow>
    call_toolName call = ''WebFetch'' \<and> webFetchHostnameOf url (call_input call) = Some (normalizeRuleHostname url host)"
proof -
  have "parseRule url (print_rule ''WebFetch'' (''domain:'' @ host))
      = scoped ''WebFetch'' (WebFetchDomain (normalizeRuleHostname url host))"
    by (subst parseRule_print_content)
      (simp_all add: plain_tool_def is_ws_def backslash_def content_specifier_def startsWith_def domain_content_def
        toLowerCase_def lower_char_def)
  then show ?thesis
    using assms by (auto simp: matchesRule_def scoped_def toolNameMatches_plain glob_literal regexp_test_accepts
        accepts_literal split: option.splits)
qed

theorem webfetch_domain_exact_witness:
  "\<not> matchesRule (\<lambda>_. None) (parseRule (\<lambda>_. None) (print_rule ''WebFetch'' (''domain:'' @ ''example.com'')))
      \<lparr>call_toolName = ''WebFetch'', call_input = [''domain'' \<mapsto> JStr ''example.com'']\<rparr> Allow"
proof -
  have "normalizeRuleHostname (\<lambda>_. None) ''example.com'' = ''example.com''" by code_simp
  then show ?thesis
    by (subst webfetch_domain_exact) (simp_all add: webFetchHostnameOf_def webFetchUrlOf_def)
qed

text \<open>
  C28: a \<open>Bash\<close> prefix rule, in either direction, matches a call exactly when one of the texts the
  direction looks at is the prefix, or the prefix followed by a blank and anything. (A content that
  starts with the parameter \<open>run_in_background\<close> is a parameter rule instead.)
\<close>

theorem bash_prefix_rule:
  assumes "CHR ''*'' \<notin> set p" and "\<not> prefix ''run_in_background:'' (p @ '':'')"
  shows "matchesRule url (parseRule url (print_rule ''Bash'' (p @ '':*''))) call direction \<longleftrightarrow>
    call_toolName call = ''Bash'' \<and>
    (\<exists>txt\<in>set (ruleMatchTexts (command_text (call_input call)) direction). txt = p \<or> (\<exists>u. txt = p @ '' '' @ u))"
  using assms
  by (auto simp: bash_rule_specifier [OF refl] bash_prefix_content matchesRule_def scoped_def toolNameMatches_plain
      list_ex_iff compilePattern_colon_star prefix_rule_accepts)

theorem bash_prefix_rule_witness:
  "matchesRule (\<lambda>_. None) (parseRule (\<lambda>_. None) (print_rule ''Bash'' (''ls'' @ '':*'')))
      \<lparr>call_toolName = ''Bash'', call_input = [''command'' \<mapsto> JStr ''ls -l'']\<rparr> Allow"
proof -
  have "ruleMatchTexts ''ls -l'' Allow = [''ls -l'']" by code_simp
  then show ?thesis by (subst bash_prefix_rule) (simp_all add: command_text_def)
qed

text \<open>
  An allow rule never looks through an assignment that can change what a program runs. A \<open>Bash\<close>
  prefix rule whose prefix has no equals sign never approves a command that starts by assigning one
  of the dangerous variables, whatever follows.
\<close>

theorem dangerous_assignment_never_allowed:
  assumes "name \<in> set DANGEROUS_ASSIGNMENT_NAMES" and "CHR ''*'' \<notin> set p" and "CHR ''='' \<notin> set p"
    and "call_input call ''command'' = Some (JStr (name @ ''='' @ rest))"
  shows "\<not> matchesRule url (parseRule url (print_rule ''Bash'' (p @ '':*''))) call Allow"
proof
  assume "matchesRule url (parseRule url (print_rule ''Bash'' (p @ '':*''))) call Allow"
  then have m: "regexp_test (compilePattern (p @ '':*'')) (name @ ''='' @ bash_join rest)"
    using bash_prefix_allow_texts [of url p call] assms(1,4) by (simp add: command_text_def ruleMatchTexts_dangerous [simplified])
  consider "name @ ''='' @ bash_join rest = p" | u where "name @ ''='' @ bash_join rest = p @ '' '' @ u"
    using m prefix_rule_accepts [OF assms(2)] unfolding compilePattern_colon_star by blast
  then show False
  proof cases
    case 1
    with assms(3) show False by auto
  next
    case 2
    then have "CHR '' '' \<in> set name \<or> CHR ''='' \<in> set p"
      by (auto simp: append_eq_append_conv2 append_eq_Cons_conv Cons_eq_append_conv)
    with assms(3) dangerous_name_no_space [OF assms(1)] show False by blast
  qed
qed

theorem dangerous_assignment_never_allowed_witness:
  "\<not> matchesRule (\<lambda>_. None) (parseRule (\<lambda>_. None) (print_rule ''Bash'' (''ls'' @ '':*'')))
      \<lparr>call_toolName = ''Bash'', call_input = [''command'' \<mapsto> JStr (''LD_PRELOAD'' @ ''='' @ ''x.so ls'')]\<rparr> Allow"
  by (rule dangerous_assignment_never_allowed [where name = "''LD_PRELOAD''" and rest = "''x.so ls''"])
    (simp_all add: DANGEROUS_ASSIGNMENT_NAMES_def)

end
