(* ===== verification/Shell_Structure.thy ===== *)
theory Shell_Structure
  imports Shell_Scan
begin

text \<open>
  Every simple command a shell text runs (\<^verbatim>\<open>permissions/shell-structure.ts\<close>): removal of here-documents
  and comments, the bodies of substitutions and subshells, reserved heads, and the recursive
  \<open>flattenSubcommands\<close>. The scanners walk the text from the left; the model carries the rest of the
  text where the code carries an index (\<open>i\<close> is the length of the text less the length of the rest).
  A refusal (\<open>null\<close>, or the index -1) is \<open>None\<close>. Lemmas: nothing but comments and here-document bodies is
  ever dropped, bodies are parts of the text, and what the flattening keeps.
\<close>

definition MAX_NESTING :: nat where
  "MAX_NESTING = 32"

definition RESERVED_HEADS :: "string list" where
  "RESERVED_HEADS =
     [''!'', ''{'', ''}'', ''('', '')'', ''then'', ''else'', ''do'', ''if'', ''elif'', ''while'', ''until'']"

text \<open>\<open>opensAnsiQuote(s, i)\<close>; \<open>before\<close> is the text before the quote, last character first.\<close>

definition opensAnsiQuote :: "string \<Rightarrow> bool" where
  "opensAnsiQuote before =
     (before \<noteq> [] \<and> hd before = CHR ''$'' \<and> even (length (takeWhile ((=) backslash) (tl before))))"

subsection \<open>Here-documents and comments\<close>

datatype scan_context = Cmd "char option" bool | ParamC | BracketC | Dq | Sq | Ansi

record heredoc =
  hd_delim :: string
  hd_quoted :: bool
  hd_stripTabs :: bool

record heredoc_state =
  ctx_stack :: "scan_context list"
  pending :: "heredoc list"
  liveBodies :: "string list"
  outText :: string
  seen :: string
  rest :: string
  wordStart :: bool

definition ctx_top :: "heredoc_state \<Rightarrow> scan_context" where
  "ctx_top st = (case ctx_stack st of [] \<Rightarrow> Cmd None False | c # _ \<Rightarrow> c)"

text \<open>Keep the next \<open>n\<close> characters: append them to the output and step over them.\<close>

definition keep :: "nat \<Rightarrow> heredoc_state \<Rightarrow> heredoc_state" where
  "keep n st = st\<lparr>outText := outText st @ take n (rest st), seen := rev (take n (rest st)) @ seen st, rest := drop n (rest st)\<rparr>"

definition push_ctx :: "scan_context \<Rightarrow> heredoc_state \<Rightarrow> heredoc_state" where
  "push_ctx c st = st\<lparr>ctx_stack := c # ctx_stack st\<rparr>"

definition pop_ctx :: "heredoc_state \<Rightarrow> heredoc_state" where
  "pop_ctx st = st\<lparr>ctx_stack := tl (ctx_stack st)\<rparr>"

definition set_ws :: "bool \<Rightarrow> heredoc_state \<Rightarrow> heredoc_state" where
  "set_ws b st = st\<lparr>wordStart := b\<rparr>"

definition peek :: "heredoc_state \<Rightarrow> nat \<Rightarrow> char option" where
  "peek st n = char_at (rest st) n"

definition openExpansion :: "bool \<Rightarrow> heredoc_state \<Rightarrow> heredoc_state option" where
  "openExpansion inArith st =
     (if peek st 0 = Some (CHR ''$'') \<and> peek st 1 = Some (CHR ''('') then
        Some (set_ws True (push_ctx (Cmd (Some (CHR '')'')) (inArith \<or> peek st 2 = Some (CHR ''(''))) (keep 2 st)))
      else if peek st 0 = Some (CHR ''$'') \<and> peek st 1 = Some (CHR ''{'') then Some (push_ctx ParamC (keep 2 st))
      else if peek st 0 = Some (CHR ''$'') \<and> peek st 1 = Some (CHR ''['') then Some (push_ctx BracketC (keep 2 st))
      else if peek st 0 = Some backtick then
        Some (set_ws True (push_ctx (Cmd (Some backtick) False) (keep 1 st)))
      else if peek st 0 = Some squote then
        Some (push_ctx (if opensAnsiQuote (seen st) then Ansi else Sq) (keep 1 st))
      else if peek st 0 = Some dquote then Some (push_ctx Dq (keep 1 st))
      else None)"

definition word_break :: "char \<Rightarrow> bool" where
  "word_break c \<longleftrightarrow> is_ws c \<or> c \<in> {CHR '';'', CHR ''&'', CHR ''|'', CHR ''<'', CHR ''>''}"

definition delim_stop :: "char \<Rightarrow> bool" where
  "delim_stop c \<longleftrightarrow> word_break c \<or> c = CHR ''('' \<or> c = CHR '')''"

text \<open>The delimiter word of a here-document, from its first character.\<close>

function read_delim :: "string \<Rightarrow> string \<Rightarrow> bool \<Rightarrow> (string \<times> bool \<times> string) option" where
  "read_delim [] delim quot = Some (delim, quot, [])"
| "read_delim (c # s) delim quot =
     (if delim_stop c then Some (delim, quot, c # s)
      else if c = squote \<or> c = dquote then
        (case indexOf s c of
           None \<Rightarrow> None
         | Some k \<Rightarrow> read_delim (drop (Suc k) s) (delim @ take k s) True)
      else if c = backslash then
        (case s of [] \<Rightarrow> read_delim [] delim True | d # s' \<Rightarrow> read_delim s' (delim @ [d]) True)
      else read_delim s (delim @ [c]) quot)"
  by pat_completeness auto
termination
  by (relation "measure (\<lambda>(s, delim, quot). length s)") auto

definition heredoc_operator :: "heredoc_state \<Rightarrow> heredoc_state option" where
  "heredoc_operator st =
     (let afterOp = drop 2 (rest st);
          stripTabs = startsWith afterOp ''-'';
          r = dropWhile (\<lambda>c. c = CHR '' '' \<or> c = CHR 0x09) (if stripTabs then drop 1 afterOp else afterOp)
      in case read_delim r [] False of
           None \<Rightarrow> None
         | Some (delim, quot, r') \<Rightarrow>
             if delim = [] then None
             else Some (set_ws False
                    (keep (length (rest st) - length r')
                      (st\<lparr>pending := pending st @ [\<lparr>hd_delim = delim, hd_quoted = quot, hd_stripTabs = stripTabs\<rparr>]\<rparr>))))"

text \<open>The body of one pending here-document: lines up to its delimiter line, and the text after it.\<close>

function read_body :: "heredoc \<Rightarrow> string \<Rightarrow> string list \<Rightarrow> string list \<times> string" where
  "read_body doc s body =
     (if s = [] then (body, [])
      else
        (let line = takeWhile (\<lambda>c. c \<noteq> newline) s; s' = drop (Suc (length line)) s in
         if (if hd_stripTabs doc then dropWhile (\<lambda>c. c = CHR 0x09) line else line) = hd_delim doc then (body, s')
         else read_body doc s' (body @ [line])))"
  by pat_completeness auto
termination
  by (relation "measure (\<lambda>(doc, s, body). length s)") auto

declare read_body.simps [simp del]

fun read_bodies :: "heredoc list \<Rightarrow> string \<Rightarrow> string list \<Rightarrow> string list \<times> string" where
  "read_bodies [] s live = (live, s)"
| "read_bodies (doc # docs) s live =
     (case read_body doc s [] of
        (body, s') \<Rightarrow> read_bodies docs s' (if hd_quoted doc then live else live @ [join_with [newline] body]))"

definition heredoc_newline :: "heredoc_state \<Rightarrow> heredoc_state" where
  "heredoc_newline st =
     (let st1 = keep 1 st in
      case read_bodies (pending st) (rest st1) (liveBodies st) of
        (live, r) \<Rightarrow>
          st1\<lparr>liveBodies := live, pending := [], wordStart := True,
              seen := rev (take (length (rest st1) - length r) (rest st1)) @ seen st1, rest := r\<rparr>)"

definition skip_comment :: "bool \<Rightarrow> heredoc_state \<Rightarrow> heredoc_state" where
  "skip_comment inBacktick st =
     (let n = length (takeWhile (\<lambda>c. c \<noteq> newline \<and> \<not> (inBacktick \<and> c = backtick)) (rest st))
      in st\<lparr>seen := rev (take n (rest st)) @ seen st, rest := drop n (rest st)\<rparr>)"

text \<open>One turn of the loop, for each kind of context; \<open>ch\<close> is the next character.\<close>

definition quote_step :: "char \<Rightarrow> bool \<Rightarrow> heredoc_state \<Rightarrow> heredoc_state" where
  "quote_step ch ansi st =
     (if ansi \<and> ch = backslash \<and> length (rest st) > 1 then keep 2 st
      else if ch = squote then set_ws False (pop_ctx (keep 1 st))
      else keep 1 st)"

definition dq_step :: "char \<Rightarrow> heredoc_state \<Rightarrow> heredoc_state" where
  "dq_step ch st =
     (if ch = dquote then set_ws False (pop_ctx (keep 1 st))
      else (case (if ch \<noteq> squote then openExpansion False st else None) of Some st' \<Rightarrow> st' | None \<Rightarrow> keep 1 st))"

definition param_step :: "char \<Rightarrow> bool \<Rightarrow> heredoc_state \<Rightarrow> heredoc_state" where
  "param_step ch bracket st =
     (if ch = (if bracket then CHR '']'' else CHR ''}'') then set_ws False (pop_ctx (keep 1 st))
      else if bracket \<and> ch = CHR ''['' then push_ctx BracketC (keep 1 st)
      else (case openExpansion bracket st of Some st' \<Rightarrow> st' | None \<Rightarrow> keep 1 st))"

definition cmd_other :: "char \<Rightarrow> char option \<Rightarrow> bool \<Rightarrow> heredoc_state \<Rightarrow> heredoc_state option" where
  "cmd_other ch closer arith st =
     (if ch = CHR ''('' then
        Some (set_ws True (push_ctx (Cmd (Some (CHR '')'')) (arith \<or> peek st 1 = Some (CHR ''(''))) (keep 1 st)))
      else if ch = CHR '')'' then
        Some (set_ws True (if closer = Some (CHR '')'') then pop_ctx (keep 1 st) else keep 1 st))
      else if \<not> arith \<and> ch = CHR ''<'' \<and> peek st 1 = Some (CHR ''<'') \<and> peek st 2 \<noteq> Some (CHR ''<'') then
        heredoc_operator st
      else if ch = newline \<and> pending st \<noteq> [] then Some (heredoc_newline st)
      else Some (set_ws (word_break ch) (keep 1 st)))"

definition cmd_step :: "char \<Rightarrow> char option \<Rightarrow> bool \<Rightarrow> heredoc_state \<Rightarrow> heredoc_state option" where
  "cmd_step ch closer arith st =
     (if ch = CHR ''#'' \<and> wordStart st \<and> \<not> arith then Some (skip_comment (closer = Some backtick) st)
      else if ch = backtick \<and> closer = Some backtick then Some (set_ws True (pop_ctx (keep 1 st)))
      else
        (case openExpansion arith st of
           Some st' \<Rightarrow> Some (if ch = squote \<or> ch = dquote then set_ws False st' else st')
         | None \<Rightarrow> cmd_other ch closer arith st))"

definition heredoc_step :: "char \<Rightarrow> heredoc_state \<Rightarrow> heredoc_state option" where
  "heredoc_step ch st =
     (case ctx_top st of
        Sq \<Rightarrow> Some (quote_step ch False st)
      | Ansi \<Rightarrow> Some (quote_step ch True st)
      | _ \<Rightarrow>
          if ch = backslash \<and> length (rest st) > 1 then Some (set_ws False (keep 2 st))
          else (case ctx_top st of
                  Dq \<Rightarrow> Some (dq_step ch st)
                | ParamC \<Rightarrow> Some (param_step ch False st)
                | BracketC \<Rightarrow> Some (param_step ch True st)
                | Cmd closer arith \<Rightarrow> cmd_step ch closer arith st
                | _ \<Rightarrow> None))"

subsection \<open>The scan ends and drops only comments and bodies\<close>

lemma rest_helpers [simp]:
  "rest (set_ws b st) = rest st" "rest (push_ctx c st) = rest st" "rest (pop_ctx st) = rest st" "rest (keep n st) = drop n (rest st)"
  "outText (set_ws b st) = outText st" "outText (push_ctx c st) = outText st" "outText (pop_ctx st) = outText st"
  "outText (keep n st) = outText st @ take n (rest st)"
  "liveBodies (set_ws b st) = liveBodies st" "liveBodies (push_ctx c st) = liveBodies st" "liveBodies (pop_ctx st) = liveBodies st"
  "liveBodies (keep n st) = liveBodies st"
  "pending (set_ws b st) = pending st" "pending (push_ctx c st) = pending st" "pending (pop_ctx st) = pending st"
  "pending (keep n st) = pending st"
  by (simp_all add: set_ws_def push_ctx_def pop_ctx_def keep_def)

text \<open>A turn that keeps what it steps over.\<close>

definition keeps :: "heredoc_state \<Rightarrow> heredoc_state \<Rightarrow> bool" where
  "keeps st st' \<longleftrightarrow> (\<exists>n>0. rest st' = drop n (rest st) \<and> outText st' = outText st @ take n (rest st)
     \<and> liveBodies st' = liveBodies st \<and> pending st' = pending st)"

lemma keepsI: "n > 0 \<Longrightarrow> rest st' = drop n (rest st) \<Longrightarrow> outText st' = outText st @ take n (rest st) \<Longrightarrow>
    liveBodies st' = liveBodies st \<Longrightarrow> pending st' = pending st \<Longrightarrow> keeps st st'"
  unfolding keeps_def by blast

lemma keeps_shorter: "keeps st st' \<Longrightarrow> rest st \<noteq> [] \<Longrightarrow> length (rest st') < length (rest st)"
  by (auto simp: keeps_def)

lemma keeps_keep [simp]:
  "n > 0 \<Longrightarrow> keeps st (keep n st)" "n > 0 \<Longrightarrow> keeps st (set_ws b (keep n st))" "n > 0 \<Longrightarrow> keeps st (push_ctx c (keep n st))"
  "n > 0 \<Longrightarrow> keeps st (pop_ctx (keep n st))" "n > 0 \<Longrightarrow> keeps st (set_ws b (pop_ctx (keep n st)))"
  "n > 0 \<Longrightarrow> keeps st (set_ws b (push_ctx c (keep n st)))"
  by (auto intro!: keepsI [of n])

lemma openExpansion_keeps: "openExpansion a st = Some st' \<Longrightarrow> keeps st st'"
  by (auto simp: openExpansion_def split: if_splits)

lemma quote_step_keeps: "keeps st (quote_step ch ansi st)"
  by (simp add: quote_step_def)

lemma dq_step_keeps: "keeps st (dq_step ch st)"
  using openExpansion_keeps [of False st] by (auto simp: dq_step_def split: option.split)

lemma param_step_keeps: "keeps st (param_step ch b st)"
  using openExpansion_keeps [of b st] by (auto simp: param_step_def split: option.split)

lemma keeps_set_ws [simp]: "keeps st (set_ws b st') = keeps st st'"
  by (simp add: keeps_def)

lemma read_delim_length: "read_delim s d q = Some (d', q', r) \<Longrightarrow> length r \<le> length s"
proof (induction s d q rule: read_delim.induct)
  case (2 c s d q)
  show ?case
  proof (cases "c = squote \<or> c = dquote")
    case True
    with 2 show ?thesis by (fastforce split: if_splits option.splits)
  next
    case False
    with 2 show ?thesis by (fastforce split: if_splits list.splits)
  qed
qed simp

lemma read_body_length: "length (snd (read_body doc s body)) \<le> length s"
proof (induction doc s body rule: read_body.induct)
  case (1 doc s body)
  then show ?case by (subst read_body.simps) (fastforce simp: Let_def)
qed

lemma read_bodies_length: "length (snd (read_bodies docs s live)) \<le> length s"
proof (induction docs s live rule: read_bodies.induct)
  case (2 doc docs s live)
  then show ?case using read_body_length [of doc s "[]"] by (fastforce split: prod.splits)
qed simp

lemma heredoc_operator_shorter:
  assumes "heredoc_operator st = Some st'" "length (rest st) \<ge> 2"
  shows "length (rest st') < length (rest st)"
proof -
  let ?a = "drop 2 (rest st)"
  let ?r = "dropWhile (\<lambda>c. c = CHR '' '' \<or> c = CHR 0x09) (if startsWith ?a ''-'' then drop 1 ?a else ?a)"
  from assms obtain d q r' where r': "read_delim ?r [] False = Some (d, q, r')"
    "rest st' = drop (length (rest st) - length r') (rest st)"
    by (auto simp: heredoc_operator_def Let_def split: option.splits if_splits)
  have "length ?r \<le> length (rest st) - 2"
    using length_dropWhile_le [of "\<lambda>c. c = CHR '' '' \<or> c = CHR 0x09" "if startsWith ?a ''-'' then drop 1 ?a else ?a"]
    by (auto split: if_splits)
  with read_delim_length [OF r'(1)] r'(2) assms(2) show ?thesis by simp
qed

lemma heredoc_newline_shorter: "rest st \<noteq> [] \<Longrightarrow> length (rest (heredoc_newline st)) < length (rest st)"
  using read_bodies_length [of "pending st" "drop 1 (rest st)" "liveBodies st"]
  by (cases "rest st") (auto simp: heredoc_newline_def Let_def split: prod.splits)

lemma skip_comment_shorter:
  "rest st = CHR ''#'' # s \<Longrightarrow> length (rest (skip_comment b st)) < length (rest st)"
  by (auto simp: skip_comment_def Let_def char_consts)

text \<open>A turn in a command context keeps what it steps over, skips a comment, or is about a here-document.\<close>

lemma cmd_other_cases:
  assumes "cmd_other ch closer arith st = Some st'"
  shows "keeps st st' \<or> (heredoc_operator st = Some st' \<and> peek st 1 = Some (CHR ''<'') \<and> ch = CHR ''<'')
    \<or> (st' = heredoc_newline st \<and> pending st \<noteq> [])"
  using assms unfolding cmd_other_def by (auto split: if_split_asm)

lemma cmd_step_cases:
  assumes "cmd_step ch closer arith st = Some st'"
  shows "keeps st st' \<or> (ch = CHR ''#'' \<and> st' = skip_comment (closer = Some backtick) st)
    \<or> (heredoc_operator st = Some st' \<and> peek st 1 = Some (CHR ''<'') \<and> ch = CHR ''<'')
    \<or> (st' = heredoc_newline st \<and> pending st \<noteq> [])"
proof (cases "(ch = CHR ''#'' \<and> wordStart st \<and> \<not> arith) \<or> (ch = backtick \<and> closer = Some backtick)")
  case True
  with assms have "st' = skip_comment (closer = Some backtick) st \<and> ch = CHR ''#''
      \<or> st' = set_ws True (pop_ctx (keep 1 st))"
    unfolding cmd_step_def by (auto split: if_split_asm)
  then show ?thesis by auto
next
  case False
  show ?thesis
  proof (cases "openExpansion arith st")
    case None
    with False assms have "cmd_other ch closer arith st = Some st'" by (auto simp: cmd_step_def)
    then show ?thesis using cmd_other_cases by blast
  next
    case (Some st1)
    with False assms have "st' = st1 \<or> st' = set_ws False st1" by (auto simp: cmd_step_def split: if_splits)
    with openExpansion_keeps [OF Some] show ?thesis by auto
  qed
qed

lemma cmd_step_shorter:
  assumes "cmd_step ch closer arith st = Some st'" "rest st = ch # s"
  shows "length (rest st') < length (rest st)"
proof -
  have ne: "rest st \<noteq> []" using assms(2) by simp
  consider "keeps st st'" | "ch = CHR ''#''" "st' = skip_comment (closer = Some backtick) st"
    | "heredoc_operator st = Some st'" "peek st 1 = Some (CHR ''<'')" | "st' = heredoc_newline st"
    using cmd_step_cases [OF assms(1)] by blast
  then show ?thesis
  proof cases
    case 1
    then show ?thesis using keeps_shorter ne by blast
  next
    case 2
    then show ?thesis using skip_comment_shorter assms(2) by blast
  next
    case 3
    then show ?thesis by (intro heredoc_operator_shorter) (auto simp: peek_def char_at_def split: if_splits)
  next
    case 4
    then show ?thesis using heredoc_newline_shorter ne by blast
  qed
qed

lemma heredoc_step_cases:
  assumes "heredoc_step ch st = Some st'"
  shows "keeps st st' \<or> (\<exists>closer arith. cmd_step ch closer arith st = Some st')"
  using assms quote_step_keeps dq_step_keeps param_step_keeps
  by (auto simp: heredoc_step_def split: scan_context.splits if_splits)

lemma heredoc_step_shorter:
  assumes "heredoc_step ch st = Some st'" "rest st = ch # s"
  shows "length (rest st') < length (rest st)"
  using heredoc_step_cases [OF assms(1)]
proof
  assume "keeps st st'"
  then show ?thesis using keeps_shorter [of st st'] assms(2) by simp
qed (use cmd_step_shorter [OF _ assms(2)] in blast)

function heredoc_loop :: "heredoc_state \<Rightarrow> heredoc_state option" where
  "heredoc_loop st =
     (case rest st of
        [] \<Rightarrow> Some st
      | ch # _ \<Rightarrow> (case heredoc_step ch st of None \<Rightarrow> None | Some st' \<Rightarrow> heredoc_loop st'))"
  by pat_completeness auto
termination
  by (relation "measure (\<lambda>st. length (rest st))") (auto dest: heredoc_step_shorter)

declare heredoc_loop.simps [simp del]

definition heredoc_start :: "string \<Rightarrow> heredoc_state" where
  "heredoc_start command =
     \<lparr>ctx_stack = [Cmd None False], pending = [], liveBodies = [], outText = [], seen = [], rest = command, wordStart = True\<rparr>"

definition extractHeredocs :: "string \<Rightarrow> (string \<times> string list) option" where
  "extractHeredocs command = map_option (\<lambda>st. (outText st, liveBodies st)) (heredoc_loop (heredoc_start command))"

subsection \<open>Substitutions and subshells\<close>

datatype paren_quote = QSingle | QDouble | QBacktick | QAnsi

text \<open>
  The variables of \<open>matchingParen\<close>. The recursive call for a substitution inside double quotes is a
  frame on \<open>pn_frames\<close>: the nesting depth to return to.
\<close>

record paren_vars =
  pn_depth :: nat
  pn_quote :: "paren_quote option"
  pn_frames :: "nat list"

text \<open>One character, not an escape; \<open>None\<close> when it is the closing parenthesis that was looked for.\<close>

definition paren_plain :: "string \<Rightarrow> char \<Rightarrow> paren_vars \<Rightarrow> paren_vars option" where
  "paren_plain before ch v =
     (if ch = squote then Some (v\<lparr>pn_quote := Some (if opensAnsiQuote before then QAnsi else QSingle)\<rparr>)
      else if ch = dquote then Some (v\<lparr>pn_quote := Some QDouble\<rparr>)
      else if ch = backtick then Some (v\<lparr>pn_quote := Some QBacktick\<rparr>)
      else if ch = CHR ''('' then Some (v\<lparr>pn_depth := Suc (pn_depth v)\<rparr>)
      else if ch = CHR '')'' then
        (if pn_depth v - 1 = 0 then
           (case pn_frames v of
              [] \<Rightarrow> None
            | outer # frames \<Rightarrow> Some \<lparr>pn_depth = outer, pn_quote = Some QDouble, pn_frames = frames\<rparr>)
         else Some (v\<lparr>pn_depth := pn_depth v - 1\<rparr>))
      else Some v)"

definition paren_char :: "string \<Rightarrow> char \<Rightarrow> string \<Rightarrow> paren_vars \<Rightarrow> paren_vars option" where
  "paren_char before ch after v =
     (case pn_quote v of
        None \<Rightarrow> paren_plain before ch v
      | Some QSingle \<Rightarrow> Some (if ch = squote then v\<lparr>pn_quote := None\<rparr> else v)
      | Some QAnsi \<Rightarrow> Some (if ch = squote then v\<lparr>pn_quote := None\<rparr> else v)
      | Some QBacktick \<Rightarrow> Some (if ch = backtick then v\<lparr>pn_quote := None\<rparr> else v)
      | Some QDouble \<Rightarrow>
          Some (if ch = dquote then v\<lparr>pn_quote := None\<rparr>
                else if ch = CHR ''$'' \<and> startsWith after ''(''
                then \<lparr>pn_depth = 0, pn_quote = None, pn_frames = pn_depth v # pn_frames v\<rparr>
                else v))"

text \<open>The loop; \<open>before\<close> is the text before the position, last character first. The result is the text after the parenthesis.\<close>

fun paren_scan :: "string \<Rightarrow> string \<Rightarrow> paren_vars \<Rightarrow> string option" where
  "paren_scan before [] v = None"
| "paren_scan before (ch # s) v =
     (if pn_quote v \<noteq> Some QSingle \<and> ch = backslash
      then (case s of [] \<Rightarrow> None | d # s' \<Rightarrow> paren_scan (d # ch # before) s' v)
      else (case paren_char before ch s v of None \<Rightarrow> Some s | Some v' \<Rightarrow> paren_scan (ch # before) s v'))"

definition matchingParen :: "string \<Rightarrow> string \<Rightarrow> string option" where
  "matchingParen before s = paren_scan before s \<lparr>pn_depth = 0, pn_quote = None, pn_frames = []\<rparr>"

text \<open>The text up to, and the text after, the closing backtick or quote; the argument starts after the opening one.\<close>

fun closingBacktick :: "string \<Rightarrow> (string \<times> string) option" where
  "closingBacktick [] = None"
| "closingBacktick [c] = (if c = backtick then Some ([], []) else None)"
| "closingBacktick (c # d # s) =
     (if c = backslash then map_option (map_prod (\<lambda>b. c # d # b) id) (closingBacktick s)
      else if c = backtick then Some ([], d # s)
      else map_option (map_prod (\<lambda>b. c # b) id) (closingBacktick (d # s)))"

fun closingSingleQuote :: "bool \<Rightarrow> string \<Rightarrow> (string \<times> string) option" where
  "closingSingleQuote ansi [] = None"
| "closingSingleQuote ansi [c] = (if c = squote then Some ([], []) else None)"
| "closingSingleQuote ansi (c # d # s) =
     (if ansi \<and> c = backslash then map_option (map_prod (\<lambda>b. c # d # b) id) (closingSingleQuote ansi s)
      else if c = squote then Some ([], d # s)
      else map_option (map_prod (\<lambda>b. c # b) id) (closingSingleQuote ansi (d # s)))"

lemma paren_char_None: "paren_char before ch after v = None \<Longrightarrow> ch = CHR '')''"
  by (auto simp: paren_char_def paren_plain_def split: option.splits paren_quote.splits if_splits)

lemma paren_scan_suffix: "paren_scan before s v = Some r \<Longrightarrow> \<exists>b. s = b @ CHR '')'' # r"
proof (induction before s v rule: paren_scan.induct)
  case (2 before ch s v)
  show ?case
  proof (cases "pn_quote v \<noteq> Some QSingle \<and> ch = backslash")
    case True
    then obtain d s' where s: "s = d # s'" "paren_scan (d # ch # before) s' v = Some r"
      using "2.prems" by (auto split: list.splits)
    with "2.IH"(1) [OF True s(1)] obtain b where "s' = b @ CHR '')'' # r" by blast
    with s have "ch # s = (ch # d # b) @ CHR '')'' # r" by simp
    then show ?thesis by blast
  next
    case False
    show ?thesis
    proof (cases "paren_char before ch s v")
      case None
      with False "2.prems" have "r = s" by (auto split: if_splits)
      with paren_char_None [OF None] have "ch # s = [] @ CHR '')'' # r" by simp
      then show ?thesis by blast
    next
      case (Some v')
      with False "2.prems" have "paren_scan (ch # before) s v' = Some r" by (auto split: if_splits)
      with "2.IH"(2) [OF False Some] obtain b where "s = b @ CHR '')'' # r" by blast
      then have "ch # s = (ch # b) @ CHR '')'' # r" by simp
      then show ?thesis by blast
    qed
  qed
qed simp

lemma matchingParen_suffix: "matchingParen before s = Some r \<Longrightarrow> \<exists>b. s = b @ CHR '')'' # r"
  unfolding matchingParen_def by (rule paren_scan_suffix)

lemma closingBacktick_split: "closingBacktick s = Some (b, r) \<Longrightarrow> s = b @ backtick # r"
  by (induction s arbitrary: b rule: closingBacktick.induct) (auto split: if_splits)

lemma closingSingleQuote_split: "closingSingleQuote a s = Some (b, r) \<Longrightarrow> s = b @ squote # r"
  by (induction a s arbitrary: b rule: closingSingleQuote.induct) (auto split: if_splits)

text \<open>
  The loop of \<open>substitutionBodies\<close>; \<open>before\<close> is the text before the position, last character first. The
  parenthesis of a construct is its first character, or the second one after \<open>$\<close>, \<open><\<close> or \<open>>\<close>.
\<close>

definition paren_open :: "bool \<Rightarrow> string \<Rightarrow> bool" where
  "paren_open inDouble s =
     (startsWith s ''$('' \<or> (\<not> inDouble \<and> (startsWith s ''<('' \<or> startsWith s ''>('')) \<or> (\<not> inDouble \<and> startsWith s ''(''))"

function bodies_loop :: "bool \<Rightarrow> string \<Rightarrow> string \<Rightarrow> bool \<Rightarrow> string list option" where
  "bodies_loop doubleQuoted before s inDouble =
     (case s of
        [] \<Rightarrow> (if inDouble \<and> \<not> doubleQuoted then None else Some [])
      | ch # t \<Rightarrow>
          if ch = backslash then bodies_loop doubleQuoted (rev (take 1 t) @ ch # before) (drop 1 t) inDouble
          else if \<not> inDouble \<and> ch = squote then
            (case closingSingleQuote (opensAnsiQuote before) t of
               None \<Rightarrow> None
             | Some (q, r) \<Rightarrow> bodies_loop doubleQuoted (squote # rev q @ ch # before) r inDouble)
          else if ch = dquote \<and> \<not> doubleQuoted then bodies_loop doubleQuoted (ch # before) t (\<not> inDouble)
          else if ch = backtick then
            (case closingBacktick t of
               None \<Rightarrow> None
             | Some (b, r) \<Rightarrow> map_option ((#) b) (bodies_loop doubleQuoted (backtick # rev b @ ch # before) r inDouble))
          else if paren_open inDouble s then
            (let before' = (if ch = CHR ''('' then before else ch # before);
                 fromParen = (if ch = CHR ''('' then s else t)
             in case matchingParen before' fromParen of
                  None \<Rightarrow> None
                | Some r \<Rightarrow>
                    (let consumed = take (length fromParen - length r) fromParen;
                         result = bodies_loop doubleQuoted (rev consumed @ before') r inDouble
                     in if ch = CHR ''('' \<and> before \<noteq> [] \<and> hd before = CHR ''='' then result
                        else map_option ((#) (butlast (tl consumed))) result))
          else bodies_loop doubleQuoted (ch # before) t inDouble)"
  by pat_completeness auto
termination
proof (relation "measure (\<lambda>(dq, before, s, inD). length s)")
qed (auto dest!: closingSingleQuote_split closingBacktick_split matchingParen_suffix
      dest: arg_cong [where f = length] split: if_splits)

declare bodies_loop.simps [simp del]

definition substitutionBodies :: "string \<Rightarrow> bool \<Rightarrow> string list option" where
  "substitutionBodies txt doubleQuoted = bodies_loop doubleQuoted [] txt doubleQuoted"

subsection \<open>Reserved heads\<close>

definition fn_name_char :: "char \<Rightarrow> bool" where
  "fn_name_char c \<longleftrightarrow> \<not> is_ws c \<and> c \<notin> set ''(){}|&;<>''"

text \<open>\<open>\(\s*\)\s*\<close> at the start of a text: the text after it.\<close>

definition empty_parens :: "string \<Rightarrow> string option" where
  "empty_parens s =
     (if startsWith s ''('' then
        (let t = dropWhile is_ws (tl s)
         in if startsWith t '')'' then Some (dropWhile is_ws (tl t)) else None)
      else None)"

text \<open>\<open>FUNCTION_DEFINITION_HEAD\<close>: the text after the head of a function definition.\<close>

definition FUNCTION_DEFINITION_HEAD :: "string \<Rightarrow> string option" where
  "FUNCTION_DEFINITION_HEAD s =
     (let afterKw = drop 8 s;
          nameOn = dropWhile is_ws afterKw;
          tail = dropWhile is_ws (dropWhile fn_name_char nameOn)
      in if startsWith s ''function'' \<and> afterKw \<noteq> [] \<and> is_ws (hd afterKw) \<and> nameOn \<noteq> [] \<and> fn_name_char (hd nameOn)
         then Some (case empty_parens tail of Some r \<Rightarrow> r | None \<Rightarrow> tail)
         else if s \<noteq> [] \<and> fn_name_char (hd s) then empty_parens (dropWhile is_ws (dropWhile fn_name_char s))
         else None)"

lemma empty_parens_length: "empty_parens s = Some r \<Longrightarrow> length r < length s"
proof -
  assume h: "empty_parens s = Some r"
  let ?t = "dropWhile is_ws (tl s)"
  have ne: "s \<noteq> []" and t: "startsWith ?t '')''" and r: "r = dropWhile is_ws (tl ?t)"
    using h by (auto simp: empty_parens_def Let_def startsWith_def split: if_splits)
  have "length r \<le> length (tl ?t)" unfolding r by (rule length_dropWhile_le)
  also have "\<dots> \<le> length ?t" by simp
  also have "\<dots> \<le> length (tl s)" by (rule length_dropWhile_le)
  finally show ?thesis using ne by (cases s) auto
qed

lemma dropWhile_shorter: "s \<noteq> [] \<Longrightarrow> P (hd s) \<Longrightarrow> length (dropWhile P s) < length s"
  using length_dropWhile_le [of P "tl s"] by (cases s) auto

lemma function_head_length: "FUNCTION_DEFINITION_HEAD s = Some r \<Longrightarrow> length r < length s"
proof -
  assume h: "FUNCTION_DEFINITION_HEAD s = Some r"
  let ?a = "drop 8 s" and ?d = "\<lambda>t. dropWhile is_ws (dropWhile fn_name_char t)"
  have d: "length (?d t) \<le> length (dropWhile fn_name_char t)" for t by (rule length_dropWhile_le)
  show ?thesis
  proof (cases "startsWith s ''function'' \<and> ?a \<noteq> [] \<and> is_ws (hd ?a) \<and> dropWhile is_ws ?a \<noteq> [] \<and> fn_name_char (hd (dropWhile is_ws ?a))")
    case True
    let ?n = "dropWhile is_ws ?a"
    have "r = (case empty_parens (?d ?n) of Some r \<Rightarrow> r | None \<Rightarrow> ?d ?n)"
      using h True unfolding FUNCTION_DEFINITION_HEAD_def Let_def by simp
    then have "length r \<le> length (?d ?n)" by (auto dest: empty_parens_length split: option.splits)
    also have "\<dots> < length ?n" using d [of ?n] dropWhile_shorter [of ?n fn_name_char] True by linarith
    also have "\<dots> \<le> length s" using length_dropWhile_le [of is_ws ?a] by simp
    finally show ?thesis .
  next
    case False
    with h have c: "s \<noteq> []" "fn_name_char (hd s)" "empty_parens (?d s) = Some r"
      unfolding FUNCTION_DEFINITION_HEAD_def Let_def by (simp_all split: if_splits)
    then show ?thesis using d [of s] empty_parens_length [OF c(3)] dropWhile_shorter [of s fn_name_char] by linarith
  qed
qed

lemma leadingWord_shorter: "leadingWord s = (Some w, r) \<Longrightarrow> length r < length s"
proof -
  assume h: "leadingWord s = (Some w, r)"
  obtain w' e where e: "leadingWordAt s (scanShellLike s) 0 = (w', e)" by (cases "leadingWordAt s (scanShellLike s) 0")
  with h have "w' = Some w" "r = drop e s" by (simp_all add: leadingWord_def)
  with leadingWordAt_Some(1,2) [of s "scanShellLike s" 0 w e] e show ?thesis by simp
qed

function strip_heads :: "string \<Rightarrow> string" where
  "strip_heads s =
     (case FUNCTION_DEFINITION_HEAD s of
        Some r \<Rightarrow> strip_heads (trim r)
      | None \<Rightarrow>
          (case leadingWord s of
             (None, _) \<Rightarrow> s
           | (Some word, afterWord) \<Rightarrow> if word \<notin> set RESERVED_HEADS then s else strip_heads (trim afterWord)))"
  by pat_completeness auto
termination
  by (relation "measure length")
    (auto intro: le_less_trans [OF length_trim_le] dest: function_head_length leadingWord_shorter [OF sym])

declare strip_heads.simps [simp del]

definition stripReservedHeads :: "string \<Rightarrow> string" where
  "stripReservedHeads part = strip_heads (trim part)"

subsection \<open>Flattening\<close>

definition ident_word :: "string \<Rightarrow> bool" where
  "ident_word s \<longleftrightarrow> s \<noteq> [] \<and> is_name_start (hd s) \<and> list_all is_name_char s"

text \<open>\<open>LITERAL_CAT_HEREDOC\<close>: \<open>cat\<close> of one here-document whose delimiter is quoted in one of the three ways.\<close>

definition LITERAL_CAT_HEREDOC :: "string \<Rightarrow> bool" where
  "LITERAL_CAT_HEREDOC s =
     (let blank = (\<lambda>c. c = CHR '' '' \<or> c = CHR 0x09);
          t = trim s;
          u = dropWhile blank (drop 3 t);
          v = drop 2 u;
          w = dropWhile blank (if startsWith v ''-'' then drop 1 v else v)
      in startsWith t ''cat'' \<and> startsWith u ''<<'' \<and> w \<noteq> [] \<and>
         (((hd w = squote \<or> hd w = dquote) \<and> length w > 1 \<and> last w = hd w \<and> ident_word (butlast (tl w)))
          \<or> (hd w = backslash \<and> ident_word (tl w))))"

text \<open>The outputs of a list of visits; a failed visit makes the whole fail.\<close>

fun concat_visits :: "'a list option list \<Rightarrow> 'a list option" where
  "concat_visits [] = Some []"
| "concat_visits (v # vs) =
     (case v of None \<Rightarrow> None | Some xs \<Rightarrow> map_option ((@) xs) (concat_visits vs))"

function visit :: "string \<Rightarrow> nat \<Rightarrow> string list option" where
  "visit txt level =
     (if level > MAX_NESTING then None
      else
        (let visitBodies = (\<lambda>bodies. case bodies of None \<Rightarrow> None
               | Some bs \<Rightarrow> concat_visits (map (\<lambda>body. visit body (level + 1)) bs)) in
         case extractHeredocs txt of
           None \<Rightarrow> None
         | Some (text', live) \<Rightarrow>
             if level > 0 \<and> live = [] \<and> LITERAL_CAT_HEREDOC text' then Some []
             else
               (case concat_visits (map (\<lambda>body. visitBodies (substitutionBodies (joinLineContinuations body) True)) live) of
                  None \<Rightarrow> None
                | Some fromLive \<Rightarrow>
                    (case splitCompound text' of
                       None \<Rightarrow> None
                     | Some parts \<Rightarrow>
                         map_option ((@) fromLive)
                           (concat_visits (map (\<lambda>part.
                              case visitBodies (substitutionBodies part False) of
                                None \<Rightarrow> None
                              | Some inner \<Rightarrow>
                                  (let head = stripReservedHeads part
                                   in Some (inner @ (if head = [] then [] else [head])))) parts))))))"
  by pat_completeness auto
termination
  by (relation "measure (\<lambda>(txt, level). Suc MAX_NESTING - level)") auto

declare visit.simps [simp del]

definition flattenSubcommands :: "string \<Rightarrow> string list option" where
  "flattenSubcommands command = visit command 0"

subsection \<open>Other scans\<close>

fun process_scan :: "string \<Rightarrow> string \<Rightarrow> paren_quote option \<Rightarrow> bool" where
  "process_scan before [] q = False"
| "process_scan before (ch # s) q =
     (if q = Some QSingle then process_scan (ch # before) s (if ch = squote then None else q)
      else if ch = backslash then (case s of [] \<Rightarrow> False | d # s' \<Rightarrow> process_scan (d # ch # before) s' q)
      else if q = Some QAnsi then process_scan (ch # before) s (if ch = squote then None else q)
      else if q = Some QDouble then process_scan (ch # before) s (if ch = dquote then None else q)
      else if ch = squote then process_scan (ch # before) s (Some (if opensAnsiQuote before then QAnsi else QSingle))
      else if ch = dquote then process_scan (ch # before) s (Some QDouble)
      else if (ch = CHR ''<'' \<or> ch = CHR ''>'') \<and> startsWith s ''('' then True
      else process_scan (ch # before) s None)"

definition hasProcessSubstitution :: "string \<Rightarrow> bool" where
  "hasProcessSubstitution command = process_scan [] command None"

definition naive_separator :: "char \<Rightarrow> bool" where
  "naive_separator c \<longleftrightarrow> c \<in> {CHR '';'', CHR ''&'', CHR ''|'', newline, CHR ''('', CHR '')'', backtick}"

fun naive_split :: "string \<Rightarrow> string list" where
  "naive_split [] = [[]]"
| "naive_split (c # s) =
     (if naive_separator c then [] # naive_split s
      else if c = CHR ''$'' \<and> startsWith s ''('' then (case s of [] \<Rightarrow> [] | _ # s' \<Rightarrow> [] # naive_split s')
      else (case naive_split s of [] \<Rightarrow> [[c]] | p # ps \<Rightarrow> (c # p) # ps))"

definition naiveCommandPieces :: "string \<Rightarrow> string list" where
  "naiveCommandPieces command = filter (\<lambda>piece. piece \<noteq> []) (map trim (naive_split command))"

subsection \<open>Nothing is invented, little is dropped\<close>

lemma subseq_drop_mid: "subseq (a @ drop n b) (a @ b)"
  by (intro list_emb_append_mono subseq_order.order_refl) (metis append_take_drop_id list_emb_append2 subseq_order.order_refl)

lemma keeps_total: "keeps st st' \<Longrightarrow> outText st' @ rest st' = outText st @ rest st"
  by (auto simp: keeps_def)

lemma heredoc_operator_total:
  "heredoc_operator st = Some st' \<Longrightarrow> outText st' @ rest st' = outText st @ rest st"
  by (auto simp: heredoc_operator_def Let_def keep_def set_ws_def split: option.splits if_splits)

lemma read_body_suffix: "suffix (snd (read_body doc s body)) s"
proof (induction doc s body rule: read_body.induct)
  case (1 doc s body)
  let ?line = "takeWhile (\<lambda>c. c \<noteq> newline) s"
  let ?s' = "drop (Suc (length ?line)) s"
  have d: "suffix ?s' s" by (rule suffix_drop)
  show ?case
  proof (cases "s = [] \<or> (if hd_stripTabs doc then dropWhile (\<lambda>c. c = CHR 0x09) ?line else ?line) = hd_delim doc")
    case True
    then show ?thesis using d by (subst read_body.simps) (auto simp: Let_def)
  next
    case False
    then have "suffix (snd (read_body doc ?s' (body @ [?line]))) ?s'" by (intro 1) auto
    then show ?thesis using False d by (subst read_body.simps) (auto simp: Let_def intro: suffix_order.trans)
  qed
qed

lemma read_bodies_suffix: "suffix (snd (read_bodies docs s live)) s"
proof (induction docs s live rule: read_bodies.induct)
  case (2 doc docs s live)
  then show ?case using read_body_suffix [of doc s "[]"] by (auto split: prod.split intro: suffix_order.trans)
qed simp

lemma heredoc_newline_subseq:
  assumes "rest st \<noteq> []"
  shows "subseq (outText (heredoc_newline st) @ rest (heredoc_newline st)) (outText st @ rest st)"
proof -
  obtain c s where r: "rest st = c # s" using assms by (cases "rest st") auto
  obtain live r' where b: "read_bodies (pending st) s (liveBodies st) = (live, r')" by (cases "read_bodies (pending st) s (liveBodies st)")
  then obtain u where s: "s = u @ r'" using read_bodies_suffix [of "pending st" s "liveBodies st"] by (auto simp: suffix_def)
  have "outText (heredoc_newline st) = outText st @ [c]" "rest (heredoc_newline st) = r'"
    using r b by (simp_all add: heredoc_newline_def Let_def)
  moreover have "subseq (outText st @ [c] @ r') (outText st @ [c] @ s)"
    unfolding s by (intro list_emb_append_mono subseq_order.order_refl) (simp add: list_emb_append2)
  ultimately show ?thesis by (simp add: r)
qed

lemma skip_comment_subseq: "subseq (outText (skip_comment b st) @ rest (skip_comment b st)) (outText st @ rest st)"
  by (simp add: skip_comment_def Let_def subseq_drop_mid)

lemma heredoc_step_subseq:
  assumes "heredoc_step ch st = Some st'" "rest st = ch # s"
  shows "subseq (outText st' @ rest st') (outText st @ rest st)"
proof -
  consider "keeps st st'" | b where "st' = skip_comment b st" | "heredoc_operator st = Some st'" | "st' = heredoc_newline st"
    using heredoc_step_cases [OF assms(1)] cmd_step_cases by blast
  then show ?thesis
  proof cases
    case 4
    then show ?thesis using heredoc_newline_subseq [of st] assms(2) by simp
  qed (simp_all add: keeps_total heredoc_operator_total skip_comment_subseq)
qed

lemma heredoc_loop_subseq: "heredoc_loop st = Some st' \<Longrightarrow> subseq (outText st') (outText st @ rest st)"
proof (induction st rule: heredoc_loop.induct)
  case (1 st)
  show ?case
  proof (cases "rest st")
    case Nil
    with "1.prems" show ?thesis by (subst (asm) heredoc_loop.simps) simp
  next
    case (Cons ch s)
    with "1.prems" obtain st1 where s1: "heredoc_step ch st = Some st1" "heredoc_loop st1 = Some st'"
      by (subst (asm) heredoc_loop.simps) (auto split: option.splits)
    with "1.IH" [OF Cons s1(1)] heredoc_step_subseq [OF s1(1) Cons] show ?thesis by (blast intro: subseq_order.trans)
  qed
qed

text \<open>Without a comment sign and without a here-document operator every turn keeps what it reads.\<close>

lemma heredoc_step_quiet:
  assumes "rest st = ch # s" "CHR ''#'' \<notin> set (rest st)" "\<not> str_includes (rest st) ''<<''" "pending st = []"
  shows "\<exists>st'. heredoc_step ch st = Some st' \<and> keeps st st'"
proof -
  have nop: "\<not> (ch = CHR ''<'' \<and> peek st 1 = Some (CHR ''<''))"
  proof
    assume "ch = CHR ''<'' \<and> peek st 1 = Some (CHR ''<'')"
    then obtain t where "rest st = ''<<'' @ t" using assms(1) by (cases s) (auto simp: peek_def char_at_def split: if_splits)
    with assms(3) show False by (auto simp: includes_iff)
  qed
  have "cmd_other ch closer arith st \<noteq> None" for closer arith
    using nop unfolding cmd_other_def by (auto split: if_split)
  then have "cmd_step ch closer arith st \<noteq> None" for closer arith
    unfolding cmd_step_def by (auto split: option.split)
  then have "heredoc_step ch st \<noteq> None"
    unfolding heredoc_step_def by (auto split: scan_context.split)
  then obtain st' where st': "heredoc_step ch st = Some st'" by blast
  have "keeps st st'" using heredoc_step_cases [OF st'] cmd_step_cases nop assms(1,2,4) by fastforce
  with st' show ?thesis by blast
qed

lemma heredoc_loop_quiet:
  "CHR ''#'' \<notin> set (rest st) \<Longrightarrow> \<not> str_includes (rest st) ''<<'' \<Longrightarrow> pending st = [] \<Longrightarrow>
    \<exists>st'. heredoc_loop st = Some st' \<and> outText st' = outText st @ rest st \<and> liveBodies st' = liveBodies st"
proof (induction st rule: heredoc_loop.induct)
  case (1 st)
  show ?case
  proof (cases "rest st")
    case Nil
    then show ?thesis by (subst heredoc_loop.simps) simp
  next
    case (Cons ch s)
    then obtain st1 where s1: "heredoc_step ch st = Some st1" "keeps st st1"
      using heredoc_step_quiet [OF Cons "1.prems"] by blast
    obtain n where n: "rest st1 = drop n (rest st)" "liveBodies st1 = liveBodies st" "pending st1 = []"
      using s1(2) "1.prems"(3) by (auto simp: keeps_def)
    have "CHR ''#'' \<notin> set (rest st1)" using "1.prems"(1) n(1) by (metis in_set_dropD)
    moreover have "\<not> str_includes (rest st1) ''<<''"
      using "1.prems"(2) n(1) by (metis append.assoc append_take_drop_id includes_iff)
    ultimately obtain st' where "heredoc_loop st1 = Some st'" "outText st' = outText st1 @ rest st1" "liveBodies st' = liveBodies st1"
      using "1.IH" [OF Cons s1(1)] n(3) by blast
    then show ?thesis using Cons s1(1) keeps_total [OF s1(2)] n(2) by (subst heredoc_loop.simps) simp
  qed
qed

subsection \<open>What the flattening reports\<close>

lemma bodies_loop_sublist:
  "bodies_loop dq before s inD = Some bs \<Longrightarrow> \<forall>b\<in>set bs. sublist b s"
proof (induction dq before s inD arbitrary: bs rule: bodies_loop.induct)
  case (1 dq before s inD)
  show ?case
  proof (cases s)
    case Nil
    with "1.prems" show ?thesis by (subst (asm) bodies_loop.simps) (auto split: if_splits)
  next
    case (Cons ch t)
    note IH = "1.IH" [OF Cons]
    have up: "\<forall>b\<in>set bs'. sublist b s" if "\<forall>b\<in>set bs'. sublist b r" "suffix r s" for bs' r
      using that by (meson sublist_order.order_trans suffix_imp_sublist)
    have tl: "suffix t s" "suffix (drop 1 t) s" using Cons by (auto simp: suffix_Cons suffix_drop)
    consider (esc) "ch = backslash" | (sq) "ch \<noteq> backslash" "\<not> inD" "ch = squote"
      | (dq) "ch \<noteq> backslash" "\<not> (\<not> inD \<and> ch = squote)" "ch = dquote \<and> \<not> dq"
      | (bt) "ch \<noteq> backslash" "\<not> (\<not> inD \<and> ch = squote)" "\<not> (ch = dquote \<and> \<not> dq)" "ch = backtick"
      | (paren) "ch \<noteq> backslash" "\<not> (\<not> inD \<and> ch = squote)" "\<not> (ch = dquote \<and> \<not> dq)" "ch \<noteq> backtick" "paren_open inD s"
      | (plain) "ch \<noteq> backslash" "\<not> (\<not> inD \<and> ch = squote)" "\<not> (ch = dquote \<and> \<not> dq)" "ch \<noteq> backtick" "\<not> paren_open inD s"
      by blast
    then show ?thesis
    proof cases
      case esc
      with "1.prems" Cons have "bodies_loop dq (rev (take 1 t) @ ch # before) (drop 1 t) inD = Some bs"
        by (subst (asm) bodies_loop.simps) simp
      then show ?thesis using IH(1) [OF esc] up tl(2) by blast
    next
      case sq
      with "1.prems" Cons obtain q r where q: "closingSingleQuote (opensAnsiQuote before) t = Some (q, r)"
        "bodies_loop dq (squote # rev q @ ch # before) r inD = Some bs"
        by (subst (asm) bodies_loop.simps) (auto split: option.splits)
      have "suffix r s" using closingSingleQuote_split [OF q(1)] Cons by (auto simp: suffix_def)
      then show ?thesis using IH(2) [of "(q, r)" q r] sq q up by blast
    next
      case dq
      with "1.prems" Cons have "bodies_loop dq (ch # before) t (\<not> inD) = Some bs"
        by (subst (asm) bodies_loop.simps) auto
      then show ?thesis using IH(3) dq up tl(1) by blast
    next
      case bt
      with "1.prems" Cons obtain b r bs' where b: "closingBacktick t = Some (b, r)" "bs = b # bs'"
        "bodies_loop dq (backtick # rev b @ ch # before) r inD = Some bs'"
        by (subst (asm) bodies_loop.simps) (auto split: option.splits)
      have t: "t = b @ backtick # r" by (rule closingBacktick_split [OF b(1)])
      have s1: "s = (ch # b @ [backtick]) @ r" "s = [ch] @ b @ backtick # r" using Cons t by simp_all
      have "suffix r s" by (rule suffixI [OF s1(1)])
      moreover have "sublist b s" unfolding sublist_def using s1(2) by blast
      moreover have "\<forall>b\<in>set bs'. sublist b r" using IH(4) [of "(b, r)" b r] bt b by blast
      ultimately show ?thesis using b(2) up [of bs' r] by auto
    next
      case paren
      let ?b = "if ch = CHR ''('' then before else ch # before" and ?f = "if ch = CHR ''('' then s else t"
      from paren "1.prems" Cons obtain r where r: "matchingParen ?b ?f = Some r"
        by (subst (asm) bodies_loop.simps) (auto simp: Let_def split: option.splits)
      let ?c = "take (length ?f - length r) ?f"
      from paren "1.prems" Cons r obtain bs' where bs': "bodies_loop dq (rev ?c @ ?b) r inD = Some bs'"
        "bs = bs' \<or> bs = butlast (tl ?c) # bs'"
        by (subst (asm) bodies_loop.simps) (auto simp: Let_def split: if_splits)
      have f: "suffix ?f s" using Cons tl by auto
      have "suffix r ?f" using matchingParen_suffix [OF r] by (auto simp: suffix_def)
      then have "suffix r s" using f by (rule suffix_order.trans)
      moreover have "sublist (butlast (tl ?c)) s"
      proof -
        have "sublist (butlast (tl ?c)) (tl ?c)" by (simp add: prefixeq_butlast prefix_imp_sublist)
        also have "sublist (tl ?c) ?c" by (simp add: suffix_imp_sublist suffix_tl)
        also have "sublist ?c ?f" by (simp add: prefix_imp_sublist take_is_prefix)
        also have "sublist ?f s" using f by (rule suffix_imp_sublist)
        finally show ?thesis .
      qed
      moreover have "\<forall>b\<in>set bs'. sublist b r" using IH(5) [OF paren refl refl r refl] bs'(1) by blast
      ultimately show ?thesis using bs'(2) up [of bs' r] by auto
    next
      case plain
      with "1.prems" Cons have "bodies_loop dq (ch # before) t inD = Some bs"
        by (subst (asm) bodies_loop.simps) auto
      then show ?thesis using IH(6) plain up tl(1) by blast
    qed
  qed
qed

lemma concat_visits_Some:
  "concat_visits vs = Some xs \<Longrightarrow> v \<in> set vs \<Longrightarrow> \<exists>ys. v = Some ys \<and> set ys \<subseteq> set xs"
proof (induction vs arbitrary: xs)
  case (Cons w vs)
  then show ?case by (fastforce split: option.splits)
qed simp

definition part_output :: "nat \<Rightarrow> string \<Rightarrow> string list option" where
  "part_output level part =
     (case (case substitutionBodies part False of None \<Rightarrow> None
            | Some bs \<Rightarrow> concat_visits (map (\<lambda>body. visit body (level + 1)) bs)) of
        None \<Rightarrow> None
      | Some inner \<Rightarrow> (let head = stripReservedHeads part in Some (inner @ (if head = [] then [] else [head]))))"

lemma visit_top:
  assumes "visit txt 0 = Some cmds" "extractHeredocs txt = Some (txt, [])"
  shows "\<exists>parts. splitCompound txt = Some parts \<and> concat_visits (map (part_output 0) parts) = Some cmds"
proof -
  have po: "part_output 0 = (\<lambda>part. case (case substitutionBodies part False of None \<Rightarrow> None
            | Some bs \<Rightarrow> concat_visits (map (\<lambda>body. visit body (Suc 0)) bs)) of
        None \<Rightarrow> None
      | Some inner \<Rightarrow> (let head = stripReservedHeads part in Some (inner @ (if head = [] then [] else [head]))))"
    unfolding part_output_def One_nat_def add_0 ..
  show ?thesis
    using assms(1) unfolding visit.simps [of "txt" 0] assms(2) po
    by (cases "splitCompound txt") (simp_all add: Let_def option.map_id0 id_def)
qed

lemma part_output_Some:
  assumes "part_output level part = Some out"
  shows "stripReservedHeads part \<noteq> [] \<Longrightarrow> stripReservedHeads part \<in> set out"
    and "substitutionBodies part False = Some bodies \<Longrightarrow> body \<in> set bodies \<Longrightarrow>
      \<exists>inner. visit body (level + 1) = Some inner \<and> set inner \<subseteq> set out"
    and "substitutionBodies part False \<noteq> None"
proof -
  from assms obtain bs inner where b: "substitutionBodies part False = Some bs"
    "concat_visits (map (\<lambda>body. visit body (level + 1)) bs) = Some inner"
    "out = inner @ (if stripReservedHeads part = [] then [] else [stripReservedHeads part])"
    by (auto simp: part_output_def Let_def split: option.splits)
  then show "stripReservedHeads part \<noteq> [] \<Longrightarrow> stripReservedHeads part \<in> set out" "substitutionBodies part False \<noteq> None"
    by simp_all
  show "\<exists>inner. visit body (level + 1) = Some inner \<and> set inner \<subseteq> set out"
    if "substitutionBodies part False = Some bodies" "body \<in> set bodies"
    using concat_visits_Some [OF b(2), of "visit body (level + 1)"] b(1,3) that by auto
qed

lemma extractHeredocs_quiet:
  "CHR ''#'' \<notin> set command \<Longrightarrow> \<not> str_includes command ''<<'' \<Longrightarrow> extractHeredocs command = Some (command, [])"
  using heredoc_loop_quiet [of "heredoc_start command"] by (auto simp: extractHeredocs_def heredoc_start_def)

lemma concat_visits_plain: "concat_visits (map (\<lambda>x. Some (f x)) xs) = Some (concat (map f xs))"
  by (induction xs) simp_all

text \<open>A command with nothing to expand is just its parts.\<close>

lemma flattenSubcommands_plain:
  assumes "CHR ''#'' \<notin> set command" and "\<not> str_includes command ''<<''"
    and "splitCompound command = Some parts" and "\<forall>part\<in>set parts. substitutionBodies part False = Some []"
  shows "flattenSubcommands command =
    Some (concat (map (\<lambda>part. if stripReservedHeads part = [] then [] else [stripReservedHeads part]) parts))"
proof -
  have "(case (case substitutionBodies part False of None \<Rightarrow> None | Some bs \<Rightarrow> concat_visits (map (\<lambda>body. visit body (0 + 1)) bs)) of
          None \<Rightarrow> None
        | Some inner \<Rightarrow> (let head = stripReservedHeads part in Some (inner @ (if head = [] then [] else [head]))))
      = Some (if stripReservedHeads part = [] then [] else [stripReservedHeads part])" if "part \<in> set parts" for part
    using assms(4) that by (simp add: Let_def)
  then have m: "map (\<lambda>part. case (case substitutionBodies part False of None \<Rightarrow> None
            | Some bs \<Rightarrow> concat_visits (map (\<lambda>body. visit body (0 + 1)) bs)) of
          None \<Rightarrow> None
        | Some inner \<Rightarrow> (let head = stripReservedHeads part in Some (inner @ (if head = [] then [] else [head])))) parts
      = map (\<lambda>part. Some (if stripReservedHeads part = [] then [] else [stripReservedHeads part])) parts"
    by (rule map_cong [OF refl])
  show ?thesis
    unfolding flattenSubcommands_def visit.simps [of command 0] extractHeredocs_quiet [OF assms(1,2)] Let_def
    by (simp add: assms(3) concat_visits_plain m [unfolded Let_def] option.map_ident)
qed

lemma naive_split_not_Nil: "naive_split s \<noteq> []"
proof (cases s)
  case (Cons c t)
  have "t \<noteq> []" if "startsWith t ''(''" using that by (auto simp: startsWith_def)
  moreover have "(case naive_split t of [] \<Rightarrow> [[c]] | p # ps \<Rightarrow> (c # p) # ps) \<noteq> []" by (cases "naive_split t") simp_all
  moreover have "(case t of [] \<Rightarrow> [] | _ # s' \<Rightarrow> [] # naive_split s') \<noteq> []" if "t \<noteq> []"
    using that by (cases t) (simp_all del: naive_split.simps)
  ultimately show ?thesis unfolding Cons naive_split.simps(2) by (metis list.distinct(1))
qed simp

lemma naive_split_pieces: "p \<in> set (naive_split s) \<Longrightarrow> c \<in> set p \<Longrightarrow> \<not> naive_separator c"
proof (induction s arbitrary: p rule: naive_split.induct)
  case (2 d s)
  obtain q qs where q: "naive_split s = q # qs" by (cases "naive_split s") (auto simp: naive_split_not_Nil)
  consider "naive_separator d" | "\<not> naive_separator d" "d = CHR ''$'' \<and> startsWith s ''(''"
    | "\<not> naive_separator d" "\<not> (d = CHR ''$'' \<and> startsWith s ''('')" by blast
  then show ?case
  proof cases
    case 1
    with 2 show ?thesis by auto
  next
    case sub: 2
    then obtain e s' where s: "s = e # s'" by (cases s) (auto simp: startsWith_def)
    with 2 sub have "p = [] \<or> p \<in> set (naive_split s')" by auto
    with "2.IH"(2) [OF sub s] "2.prems"(2) show ?thesis by auto
  next
    case 3
    with "2.prems" q have "p = d # q \<or> p \<in> set qs" by auto
    then show ?thesis using "2.IH"(3) [OF 3, of q] "2.IH"(3) [OF 3, of p] "2.prems"(2) 3(1) q by auto
  qed
qed simp

lemma set_trim: "set (trim s) \<subseteq> set s"
  unfolding trim_def by (metis set_dropWhileD set_rev subsetI)

subsection \<open>Properties\<close>

text \<open>
  Removing here-documents never invents or reorders text, and it drops nothing when there is
  nothing to drop: the remaining text is a subsequence of the command, and a command without a
  comment sign and without the here-document operator is returned whole, with no bodies.
\<close>

theorem extractHeredocs_faithful:
  "(\<forall>txt live. extractHeredocs command = Some (txt, live) \<longrightarrow> subseq txt command)
    \<and> (CHR ''#'' \<notin> set command \<longrightarrow> \<not> str_includes command ''<<'' \<longrightarrow> extractHeredocs command = Some (command, []))"
  using heredoc_loop_subseq [of "heredoc_start command"] extractHeredocs_quiet
  by (auto simp: extractHeredocs_def heredoc_start_def)

theorem extractHeredocs_faithful_witness:
  "extractHeredocs ''ls $(rm -rf x) < y'' = Some (''ls $(rm -rf x) < y'', [])"
proof -
  have "CHR ''#'' \<notin> set ''ls $(rm -rf x) < y''" "\<not> str_includes ''ls $(rm -rf x) < y'' ''<<''"
    by (simp_all add: startsWith_def)
  then show ?thesis using extractHeredocs_faithful by blast
qed

text \<open>
  No command escapes the flattening. When a command without here-documents and comments can be analysed, every
  top-level part of it is reported with its keyword head removed, and everything
  that runs inside a substitution, subshell or process substitution of a part is reported too.
\<close>

theorem flattenSubcommands_complete:
  assumes "flattenSubcommands command = Some cmds" and "CHR ''#'' \<notin> set command" and "\<not> str_includes command ''<<''"
  shows "\<exists>parts. splitCompound command = Some parts \<and>
    (\<forall>part\<in>set parts. (stripReservedHeads part \<noteq> [] \<longrightarrow> stripReservedHeads part \<in> set cmds)
      \<and> (\<exists>bodies. substitutionBodies part False = Some bodies
           \<and> (\<forall>body\<in>set bodies. \<exists>inner. visit body 1 = Some inner \<and> set inner \<subseteq> set cmds)))"
proof -
  obtain parts where p: "splitCompound command = Some parts" "concat_visits (map (part_output 0) parts) = Some cmds"
    using visit_top [of command cmds] extractHeredocs_quiet [OF assms(2,3)] assms(1) by (auto simp: flattenSubcommands_def)
  have "(stripReservedHeads part \<noteq> [] \<longrightarrow> stripReservedHeads part \<in> set cmds)
      \<and> (\<exists>bodies. substitutionBodies part False = Some bodies
           \<and> (\<forall>body\<in>set bodies. \<exists>inner. visit body 1 = Some inner \<and> set inner \<subseteq> set cmds))"
    if part: "part \<in> set parts" for part
  proof -
    obtain out where out: "part_output 0 part = Some out" "set out \<subseteq> set cmds"
      using concat_visits_Some [OF p(2), of "part_output 0 part"] part by auto
    obtain bodies where b: "substitutionBodies part False = Some bodies"
      using part_output_Some(3) [OF out(1)] by blast
    show ?thesis
      using part_output_Some(1) [OF out(1)] part_output_Some(2) [OF out(1) b] b out(2) by fastforce
  qed
  with p(1) show ?thesis by blast
qed

theorem flattenSubcommands_complete_witness:
  "\<exists>inner. visit ''rm x'' 1 = Some inner \<and> set inner \<subseteq> set [''rm x'', ''ls $(rm x)'']"
proof -
  have split: "splitCompound ''ls $(rm x)'' = Some [''ls $(rm x)'']" by code_simp
  have bodies: "substitutionBodies ''ls $(rm x)'' False = Some [''rm x'']" by code_simp
  have inside: "visit ''rm x'' (Suc 0) = Some [''rm x'']"
  proof -
    have "extractHeredocs ''rm x'' = Some (''rm x'', [])" "splitCompound ''rm x'' = Some [''rm x'']"
      "substitutionBodies ''rm x'' False = Some []" "stripReservedHeads ''rm x'' = ''rm x''"
      "\<not> LITERAL_CAT_HEREDOC ''rm x''" by code_simp+
    then show ?thesis by (subst visit.simps) (simp add: MAX_NESTING_def)
  qed
  have quiet: "CHR ''#'' \<notin> set ''ls $(rm x)''" "\<not> str_includes ''ls $(rm x)'' ''<<''"
    by (simp_all add: startsWith_def)
  have "stripReservedHeads ''ls $(rm x)'' = ''ls $(rm x)''" by code_simp
  then have flat: "flattenSubcommands ''ls $(rm x)'' = Some [''rm x'', ''ls $(rm x)'']"
    unfolding flattenSubcommands_def
    by (subst visit.simps) (simp add: MAX_NESTING_def split bodies inside extractHeredocs_quiet [OF quiet])
  show ?thesis using flattenSubcommands_complete [OF flat quiet] split bodies by auto
qed

text \<open>
  The bodies \<open>substitutionBodies\<close> reports are stretches of the text itself, in every
  quoting context.
\<close>

theorem substitutionBodies_sublist:
  assumes "substitutionBodies txt doubleQuoted = Some bodies" and "body \<in> set bodies"
  shows "sublist body txt"
  using bodies_loop_sublist assms unfolding substitutionBodies_def by blast

theorem substitutionBodies_sublist_witness: "sublist ''id'' ''a $(id) b''"
proof -
  have "substitutionBodies ''a $(id) b'' False = Some [''id'']" by code_simp
  then show ?thesis by (rule substitutionBodies_sublist) simp
qed

text \<open>
  The naive pieces of a command that cannot be parsed hold no separator, parenthesis, backtick
  or newline, so each is at most one simple command.
\<close>

lemma naiveCommandPieces_no_separator:
  "\<forall>piece\<in>set (naiveCommandPieces command). piece \<noteq> [] \<and> (\<forall>c\<in>set piece. \<not> naive_separator c)"
  using naive_split_pieces set_trim by (fastforce simp: naiveCommandPieces_def)

end
