(* ===== verification/Node_Path.thy ===== *)
theory Node_Path
  imports JS_Prelude
begin

text \<open>
  The functions of the platform's POSIX path module that the permission code calls: \<open>normalize\<close>,
  \<open>isAbsolute\<close>, \<open>join\<close>, \<open>resolve\<close>, \<open>dirname\<close> and \<open>basename\<close>, on strings and character by character as
  the platform defines them. Lemmas: their behaviour on the absolute paths that are already in
  normal form, given as the list of their names.
\<close>

definition isAbsolute :: "string \<Rightarrow> bool" where
  "isAbsolute p = startsWith p ''/''"

text \<open>The names left after the dot names are resolved; \<open>acc\<close> is the result so far, last name first.\<close>

fun normalize_names :: "bool \<Rightarrow> string list \<Rightarrow> string list \<Rightarrow> string list" where
  "normalize_names aboveRoot acc [] = rev acc"
| "normalize_names aboveRoot acc (seg # segs) =
     (if seg = '''' \<or> seg = ''.'' then normalize_names aboveRoot acc segs
      else if seg = ''..'' then
        (if acc \<noteq> [] \<and> hd acc \<noteq> ''..'' then normalize_names aboveRoot (tl acc) segs
         else if aboveRoot then normalize_names aboveRoot (''..'' # acc) segs
         else normalize_names aboveRoot acc segs)
      else normalize_names aboveRoot (seg # acc) segs)"

definition normalizeString :: "string \<Rightarrow> bool \<Rightarrow> string" where
  "normalizeString p aboveRoot = join_with ''/'' (normalize_names aboveRoot [] (split_on (CHR ''/'') p))"

definition normalize :: "string \<Rightarrow> string" where
  "normalize p =
     (if p = '''' then ''.''
      else
        (let isAbs = isAbsolute p;
             trailing = endsWith p ''/'';
             q = normalizeString p (\<not> isAbs)
         in if q = '''' then (if isAbs then ''/'' else if trailing then ''./'' else ''.'')
            else (if isAbs then ''/'' else '''') @ q @ (if trailing then ''/'' else '''')))"

definition path_join :: "string list \<Rightarrow> string" where
  "path_join parts =
     (let joined = join_with ''/'' (filter (\<lambda>p. p \<noteq> '''') parts)
      in if joined = '''' then ''.'' else normalize joined)"

text \<open>\<open>resolve(base, p)\<close> under a process working directory.\<close>

definition path_resolve :: "string \<Rightarrow> string \<Rightarrow> string \<Rightarrow> string" where
  "path_resolve process_cwd base p =
     (let full = (if isAbsolute p then p
                  else if isAbsolute base then (if p = '''' then base else base @ ''/'' @ p)
                  else join_with ''/'' (process_cwd # filter (\<lambda>s. s \<noteq> '''') [base, p]))
      in if isAbsolute full then ''/'' @ normalizeString full False
         else (let q = normalizeString full True in if q = '''' then ''.'' else q))"

definition dirname :: "string \<Rightarrow> string" where
  "dirname p =
     (if p = '''' then ''.''
      else
        (case dropWhile (\<lambda>c. c \<noteq> CHR ''/'') (dropWhile (\<lambda>c. c = CHR ''/'') (rev (tl p))) of
           [] \<Rightarrow> (if isAbsolute p then ''/'' else ''.'')
         | _ # before \<Rightarrow>
             (if isAbsolute p \<and> before = [] then ''//'' else take (Suc (length before)) p)))"

definition basename :: "string \<Rightarrow> string" where
  "basename p = rev (takeWhile (\<lambda>c. c \<noteq> CHR ''/'') (dropWhile (\<lambda>c. c = CHR ''/'') (rev p)))"

text \<open>
  \<open>relative(from, to)\<close>: both are resolved, the names they share at the front are dropped, and one \<open>..\<close>
  stands for each name of \<open>from\<close> that is left.
\<close>

definition path_names :: "string \<Rightarrow> string list" where
  "path_names p = filter (\<lambda>s. s \<noteq> '''') (split_on (CHR ''/'') p)"

definition path_relative :: "string \<Rightarrow> string \<Rightarrow> string \<Rightarrow> string" where
  "path_relative process_cwd src dst =
     (let f = path_names (path_resolve process_cwd '''' src);
          t = path_names (path_resolve process_cwd '''' dst);
          n = length (longest_common_prefix f t)
      in join_with ''/'' (replicate (length f - n) ''..'' @ drop n t))"

subsection \<open>Walking up a path ends\<close>

definition height :: "string \<Rightarrow> nat" where
  "height p = (if p = ''.'' \<or> p = ''/'' then 0 else Suc (length p))"

lemma dirname_take:
  assumes "dropWhile (\<lambda>c. c \<noteq> CHR ''/'') (dropWhile (\<lambda>c. c = CHR ''/'') (rev (tl p))) = x # before"
  shows "Suc (length before) < length p"
proof -
  have "length (x # before) \<le> length (dropWhile (\<lambda>c. c = CHR ''/'') (rev (tl p)))"
    unfolding assms [symmetric] by (rule length_dropWhile_le)
  also have "\<dots> \<le> length (tl p)" using length_dropWhile_le [of _ "rev (tl p)"] by simp
  finally show ?thesis by (cases p) auto
qed

lemma dropWhile_ConsD: "dropWhile P s = x # t \<Longrightarrow> \<not> P x"
  by (metis hd_dropWhile list.distinct(1) list.sel(1))

lemma dirname_double_root:
  assumes "dropWhile (\<lambda>c. c \<noteq> CHR ''/'') (dropWhile (\<lambda>c. c = CHR ''/'') (rev (tl p))) = [x]"
  shows "2 < length p"
proof -
  define r where "r = dropWhile (\<lambda>c. c = CHR ''/'') (rev (tl p))"
  obtain u where r: "r = u @ [x]"
    using assms takeWhile_dropWhile_id [of "\<lambda>c. c \<noteq> CHR ''/''" r] unfolding r_def by metis
  have x: "x = CHR ''/''" using dropWhile_ConsD [OF assms] by simp
  have "u \<noteq> []"
  proof
    assume "u = []"
    with r have "r = x # []" by simp
    from dropWhile_ConsD [OF this [unfolded r_def]] x show False by simp
  qed
  then have "1 < length r" unfolding r by (cases u) simp_all
  also have "length r \<le> length (tl p)"
    unfolding r_def using length_dropWhile_le [of _ "rev (tl p)"] by simp
  finally show ?thesis by simp
qed

lemma dirname_height: "dirname p \<noteq> p \<Longrightarrow> height (dirname p) < height p"
proof -
  assume ne: "dirname p \<noteq> p"
  let ?d = "dropWhile (\<lambda>c. c \<noteq> CHR ''/'') (dropWhile (\<lambda>c. c = CHR ''/'') (rev (tl p)))"
  have root: "p \<noteq> ''.''" "p \<noteq> ''/''" using ne by (auto simp: dirname_def isAbsolute_def startsWith_def)
  show ?thesis
  proof (cases "p = '''' \<or> ?d = []")
    case True
    then have "dirname p = ''.'' \<or> dirname p = ''/''"
    proof
      assume "?d = []"
      then show ?thesis unfolding dirname_def by (simp only: list.case) simp
    qed (simp add: dirname_def)
    then have "height (dirname p) = 0" unfolding height_def by (elim disjE) simp_all
    with root show ?thesis unfolding height_def by simp
  next
    case False
    then obtain x before where d: "?d = x # before" by (cases ?d) auto
    have "length (dirname p) < length p"
    proof (cases "isAbsolute p \<and> before = []")
      case True
      have "2 < length p" using d True by (intro dirname_double_root [of p x]) simp
      with True False d show ?thesis by (simp add: dirname_def)
    next
      case no: False
      have "dirname p = take (Suc (length before)) p" using no False d by (auto simp: dirname_def)
      then show ?thesis using dirname_take [OF d] by simp
    qed
    with root show ?thesis by (simp add: height_def)
  qed
qed

subsection \<open>Absolute paths in normal form\<close>

definition proper_name :: "string \<Rightarrow> bool" where
  "proper_name s \<longleftrightarrow> s \<noteq> '''' \<and> s \<noteq> ''.'' \<and> s \<noteq> ''..'' \<and> CHR ''/'' \<notin> set s"

definition abs_path :: "string list \<Rightarrow> string" where
  "abs_path segs = ''/'' @ join_with ''/'' segs"

lemma split_abs_path:
  assumes "list_all proper_name segs" "segs \<noteq> []"
  shows "split_on (CHR ''/'') (abs_path segs) = [] # segs"
proof -
  have "split_on (CHR ''/'') (join_with ''/'' segs) = segs"
    using assms by (intro split_on_join_with) (auto simp: list_all_iff proper_name_def)
  then show ?thesis by (simp add: abs_path_def)
qed

lemma normalize_names_proper:
  "list_all proper_name segs \<Longrightarrow> normalize_names aboveRoot acc segs = rev acc @ segs"
  by (induction segs arbitrary: acc) (auto simp: proper_name_def)

lemma join_with_last:
  "ps \<noteq> [] \<Longrightarrow> last ps \<noteq> [] \<Longrightarrow> join_with sep ps \<noteq> [] \<and> last (join_with sep ps) = last (last ps)"
  by (induction sep ps rule: join_with.induct) auto

lemma abs_path_no_trailing:
  assumes "list_all proper_name segs" "segs \<noteq> []"
  shows "\<not> endsWith (abs_path segs) ''/''" "length (abs_path segs) > 1"
proof -
  have p: "proper_name (last segs)" using assms by (simp add: list_all_iff)
  then have l: "last segs \<noteq> []" by (simp add: proper_name_def)
  have j: "join_with ''/'' segs \<noteq> [] \<and> last (join_with ''/'' segs) = last (last segs)"
    using join_with_last [OF assms(2) l] .
  moreover have "last (last segs) \<noteq> CHR ''/''"
    using p last_in_set [OF l] unfolding proper_name_def by metis
  ultimately show "\<not> endsWith (abs_path segs) ''/''"
    by (cases "join_with ''/'' segs" rule: rev_cases) (auto simp: abs_path_def endsWith_iff_suffix suffix_def)
  show "length (abs_path segs) > 1" using j by (simp add: abs_path_def)
qed

lemma normalize_abs_path: "list_all proper_name segs \<Longrightarrow> normalize (abs_path segs) = abs_path segs"
proof (cases "segs = []")
  case True
  then show ?thesis by (simp add: normalize_def abs_path_def isAbsolute_def normalizeString_def startsWith_def)
next
  case False
  assume p: "list_all proper_name segs"
  have "join_with ''/'' segs \<noteq> []"
    using abs_path_no_trailing(2) [OF p False] by (auto simp: abs_path_def)
  moreover have "isAbsolute (abs_path segs)" by (simp add: isAbsolute_def abs_path_def startsWith_def)
  moreover have "abs_path segs \<noteq> []" by (simp add: abs_path_def)
  moreover have "normalizeString (abs_path segs) False = join_with ''/'' segs"
    by (simp add: normalizeString_def split_abs_path [OF p False] normalize_names_proper [OF p])
  ultimately show ?thesis
    using abs_path_no_trailing(1) [OF p False] by (simp add: normalize_def Let_def abs_path_def)
qed

lemma abs_path_inj:
  "list_all proper_name a \<Longrightarrow> list_all proper_name b \<Longrightarrow> abs_path a = abs_path b \<longleftrightarrow> a = b"
proof -
  assume p: "list_all proper_name a" "list_all proper_name b"
  have "a = b" if eq: "abs_path a = abs_path b"
  proof (cases "a = [] \<or> b = []")
    case True
    have "length (abs_path []) = 1" by (simp add: abs_path_def)
    with True eq abs_path_no_trailing(2) p show ?thesis by (metis less_irrefl)
  next
    case False
    with split_abs_path p eq show ?thesis by (metis list.inject)
  qed
  then show ?thesis by auto
qed

lemma join_with_append:
  "a \<noteq> [] \<Longrightarrow> b \<noteq> [] \<Longrightarrow> join_with sep (a @ b) = join_with sep a @ sep @ join_with sep b"
proof (induction sep a rule: join_with.induct)
  case (2 sep p)
  then show ?case by (cases b) auto
qed auto

lemma abs_path_append: "a \<noteq> [] \<Longrightarrow> b \<noteq> [] \<Longrightarrow> abs_path (a @ b) = abs_path a @ ''/'' @ join_with ''/'' b"
  by (simp add: abs_path_def join_with_append)

text \<open>\<open>normalize\<close> always gives a normal form back for an absolute path: normalising twice is normalising once.\<close>

lemma normalize_names_abs:
  assumes "list_all proper_name acc" "\<forall>s\<in>set segs. CHR ''/'' \<notin> set s"
  shows "list_all proper_name (normalize_names False acc segs)"
  using assms
proof (induction False acc segs rule: normalize_names.induct)
  case (2 acc seg segs)
  then show ?case by (cases acc) (auto simp: proper_name_def)
qed (simp add: list_all_iff)

text \<open>\<open>resolve\<close> leaves an absolute path in normal form as it is.\<close>

lemma path_resolve_abs_path:
  assumes "list_all proper_name segs"
  shows "path_resolve process_cwd base (abs_path segs) = abs_path segs"
proof -
  have a: "isAbsolute (abs_path segs)" by (simp add: isAbsolute_def abs_path_def startsWith_def)
  have "normalizeString (abs_path segs) False = join_with ''/'' segs"
  proof (cases "segs = []")
    case False
    then show ?thesis by (simp add: normalizeString_def split_abs_path [OF assms False] normalize_names_proper [OF assms])
  qed (simp add: normalizeString_def abs_path_def)
  with a show ?thesis by (simp add: path_resolve_def abs_path_def)
qed

subsection \<open>What a path names, read name by name\<close>

text \<open>Starting from a directory: an empty name and \<open>.\<close> stay, \<open>..\<close> goes up and stays at the root, any other name goes down.\<close>

fun walk :: "string list \<Rightarrow> string list \<Rightarrow> string list" where
  "walk dir [] = dir"
| "walk dir (n # ns) = walk (if n = [] \<or> n = ''.'' then dir else if n = ''..'' then butlast dir else dir @ [n]) ns"

lemma walk_append [simp]: "walk dir (a @ b) = walk (walk dir a) b"
  by (induction dir a rule: walk.induct) simp_all

lemma walk_proper: "list_all proper_name ns \<Longrightarrow> walk dir ns = dir @ ns"
  by (induction dir ns rule: walk.induct) (auto simp: proper_name_def)

lemma walk_names: "list_all proper_name dir \<Longrightarrow> \<forall>n \<in> set ns. CHR ''/'' \<notin> set n \<Longrightarrow> list_all proper_name (walk dir ns)"
proof (induction dir ns rule: walk.induct)
  case (2 dir n ns)
  have "list_all proper_name (butlast dir)" using 2(2) by (auto simp: list_all_iff dest: in_set_butlastD)
  then have "list_all proper_name (if n = [] \<or> n = ''.'' then dir else if n = ''..'' then butlast dir else dir @ [n])"
    using 2(2,3) by (auto simp: proper_name_def [of n])
  then show ?case using 2(1,3) by simp
qed simp

lemma normalize_walk:
  "list_all proper_name acc \<Longrightarrow> \<forall>n \<in> set ns. CHR ''/'' \<notin> set n \<Longrightarrow> normalize_names False acc ns = walk (rev acc) ns"
proof (induction ns arbitrary: acc)
  case (Cons n ns)
  show ?case
  proof (cases acc)
    case Nil
    then show ?thesis using Cons.IH [of "[]"] Cons.IH [of "[n]"] Cons.prems by (auto simp: proper_name_def)
  next
    case (Cons a as)
    have "a \<noteq> ''..''" using Cons Cons.prems(1) by (simp add: proper_name_def)
    then show ?thesis using Cons Cons.IH [of as] Cons.IH [of acc] Cons.IH [of "n # acc"] Cons.prems
      by (auto simp: proper_name_def)
  qed
qed simp

text \<open>The directory \<open>resolve\<close> gives back is the one a path names.\<close>

definition named_from :: "string list \<Rightarrow> string \<Rightarrow> string list" where
  "named_from base p = walk (if startsWith p ''/'' then [] else base) (split_on (CHR ''/'') p)"

lemma resolve_absolute: "isAbsolute p \<Longrightarrow> path_resolve process_cwd base p = abs_path (walk [] (split_on (CHR ''/'') p))"
proof -
  have "\<forall>n \<in> set (split_on (CHR ''/'') p). CHR ''/'' \<notin> set n" using split_on_notin by fastforce
  then have n: "normalize_names False [] (split_on (CHR ''/'') p) = walk [] (split_on (CHR ''/'') p)" using normalize_walk [of "[]"] by simp
  assume "isAbsolute p"
  then show ?thesis by (simp add: path_resolve_def abs_path_def normalizeString_def n)
qed

lemma split_walk_abs_path: "list_all proper_name base \<Longrightarrow> walk [] (split_on (CHR ''/'') (abs_path base @ ''/'' @ p)) = walk base (split_on (CHR ''/'') p)"
proof (cases "base = []")
  case True
  then show ?thesis by (simp add: abs_path_def)
next
  case False
  assume b: "list_all proper_name base"
  have "split_on (CHR ''/'') (abs_path base @ ''/'' @ p) = ([] # base) @ split_on (CHR ''/'') p"
    using split_on_append_sep [of "CHR ''/''" "abs_path base" p] split_abs_path [OF b False] by simp
  then show ?thesis using walk_proper [OF b, of "[]"] by simp
qed

lemma path_resolve_named:
  assumes "list_all proper_name base"
  shows "path_resolve process_cwd (abs_path base) p = abs_path (named_from base p)"
proof (cases "startsWith p ''/''")
  case True
  then show ?thesis by (simp add: resolve_absolute named_from_def isAbsolute_def)
next
  case rel: False
  have a: "isAbsolute (abs_path base)" "isAbsolute (abs_path base @ ''/'' @ p)" by (simp_all add: isAbsolute_def abs_path_def startsWith_def)
  show ?thesis
  proof (cases "p = []")
    case True
    have "path_resolve process_cwd (abs_path base) p = path_resolve process_cwd [] (abs_path base)"
      using True a by (simp add: path_resolve_def isAbsolute_def startsWith_def)
    then show ?thesis using path_resolve_abs_path [OF assms] True by (simp add: named_from_def startsWith_def)
  next
    case False
    have "path_resolve process_cwd (abs_path base) p = path_resolve process_cwd [] (abs_path base @ ''/'' @ p)"
      using False a rel by (simp add: path_resolve_def isAbsolute_def)
    then show ?thesis using resolve_absolute [OF a(2)] split_walk_abs_path [OF assms] rel by (simp add: named_from_def)
  qed
qed

end
