(* ===== verification/Edit_Recognition.thy ===== *)
theory Edit_Recognition
  imports Rule_Match Shell_Structure Node_Path
begin

text \<open>
  \<open>edit-recognition.ts\<close>: which files a tool call writes. A file tool names its path; a shell command is
  flattened into every command it runs, and each of them contributes the operands of the seven
  blessed file verbs, the targets of its redirections and the operands of \<open>tee\<close>. The second half is
  \<open>shellWriteConstraint\<close>, the reasons why the writes of a shell command cannot be approved
  automatically. Lemmas: what the verdict \<open>bashFsOp\<close> guarantees, that no write of a
  parsed command is missing from the recognised paths, and that an unconstrained command writes
  only to literal names.
\<close>

subsection \<open>The brand fields\<close>

record brand_profile =
  homeDirName :: string
  projectDirName :: string
  instructionsFile :: string

definition WINTER_BRAND :: brand_profile where
  "WINTER_BRAND = \<lparr>homeDirName = ''.winter'', projectDirName = ''.winter'', instructionsFile = ''WINTER.md''\<rparr>"

subsection \<open>Words of one command\<close>

datatype edit_kind = EditKind | BashFsOp | OtherKind

record recognized_edit =
  re_kind :: edit_kind
  re_paths :: "string list"

definition RECOGNIZED_BASH_FS_OPS :: "string list" where
  "RECOGNIZED_BASH_FS_OPS = [''mkdir'', ''touch'', ''rm'', ''rmdir'', ''mv'', ''cp'', ''sed'']"

definition tokenizeWords :: "string \<Rightarrow> string list" where
  "tokenizeWords s = map word (shellWords s True Broad)"

definition isFlagToken :: "string \<Rightarrow> bool" where
  "isFlagToken token = startsWith token ''-''"

definition REDIRECT_OPERATOR_TOKEN :: "string \<Rightarrow> bool" where
  "REDIRECT_OPERATOR_TOKEN w \<longleftrightarrow>
     w = ''&>'' \<or> w = ''&>>'' \<or> w = ''<''
     \<or> (let r = dropWhile is_digit w
        in r = ''>'' \<or> r = ''>>'' \<or> (startsWith r ''>&'' \<and> list_all is_digit (drop 2 r)))"

definition truncateAtFirstRedirectOperator :: "shell_word list \<Rightarrow> shell_word list" where
  "truncateAtFirstRedirectOperator tokens =
     takeWhile (\<lambda>t. \<not> (\<not> quoted t \<and> REDIRECT_OPERATOR_TOKEN (word t))) tokens"

fun non_flag_loop :: "bool \<Rightarrow> shell_word list \<Rightarrow> shell_word list" where
  "non_flag_loop sawDoubleDash [] = []"
| "non_flag_loop sawDoubleDash (tok # toks) =
     (if \<not> sawDoubleDash \<and> word tok = ''--'' then non_flag_loop True toks
      else if \<not> sawDoubleDash \<and> isFlagToken (word tok) then non_flag_loop sawDoubleDash toks
      else tok # non_flag_loop sawDoubleDash toks)"

definition nonFlagWords :: "shell_word list \<Rightarrow> shell_word list" where
  "nonFlagWords tokens = non_flag_loop False tokens"

definition nonFlagOperands :: "string list \<Rightarrow> string list" where
  "nonFlagOperands tokens = map word (nonFlagWords (map (\<lambda>w. \<lparr>word = w, raw = w, quoted = False\<rparr>) tokens))"

text \<open>The loop of \<open>sedOperandWords\<close>: the words kept and whether an in-place flag was seen.\<close>

fun sed_loop :: "bool \<Rightarrow> bool \<Rightarrow> shell_word list \<Rightarrow> shell_word list \<times> bool" where
  "sed_loop sawDoubleDash sawI [] = ([], sawI)"
| "sed_loop sawDoubleDash sawI (tok # toks) =
     (if \<not> sawDoubleDash \<and> word tok = ''--'' then sed_loop True sawI toks
      else if \<not> sawDoubleDash \<and> isFlagToken (word tok) then
        (let sawI' = (sawI \<or> word tok = ''-i'' \<or> startsWith (word tok) ''-i'')
         in case toks of
              bak # toks' \<Rightarrow>
                if word tok = ''-i'' \<and> word bak = '''' then sed_loop sawDoubleDash sawI' toks'
                else sed_loop sawDoubleDash sawI' toks
            | [] \<Rightarrow> sed_loop sawDoubleDash sawI' [])
      else (let r = sed_loop sawDoubleDash sawI toks in (tok # fst r, snd r)))"

definition sedOperandWords :: "shell_word list \<Rightarrow> shell_word list option" where
  "sedOperandWords args =
     (let r = sed_loop False False (truncateAtFirstRedirectOperator args)
      in if \<not> snd r then None
         else (let paths = drop 1 (fst r) in if paths \<noteq> [] then Some paths else None))"

text \<open>
  The regular expression \<open>/^-[A-Za-z]*t.+/\<close> on the text after the dash: letters, a \<open>t\<close> and one more
  character on the same line.
\<close>

fun short_t_option :: "string \<Rightarrow> bool" where
  "short_t_option [] = False"
| "short_t_option (c # s) =
     ((c = CHR ''t'' \<and> s \<noteq> [] \<and> hd s \<noteq> newline \<and> hd s \<noteq> CHR 0x0D)
      \<or> ((is_upper c \<or> is_lower c) \<and> short_t_option s))"

definition TARGET_DIRECTORY_PREFIX :: string where
  "TARGET_DIRECTORY_PREFIX = ''--target-directory=''"

fun targetDirectoryWords :: "shell_word list \<Rightarrow> shell_word list" where
  "targetDirectoryWords [] = []"
| "targetDirectoryWords (tok # toks) =
     (let w = word tok; n = length TARGET_DIRECTORY_PREFIX in
      if w = ''--'' then []
      else if startsWith w TARGET_DIRECTORY_PREFIX then
        \<lparr>word = drop n w, raw = (if startsWith (raw tok) TARGET_DIRECTORY_PREFIX then drop n (raw tok) else raw tok),
         quoted = quoted tok\<rparr> # targetDirectoryWords toks
      else if (w = ''--target-directory'' \<or> w = ''-t'') \<and> toks \<noteq> [] then hd toks # targetDirectoryWords toks
      else if startsWith w ''-'' \<and> short_t_option (drop 1 w) \<and> \<not> startsWith w ''--'' then
        \<lparr>word = drop 1 (dropWhile (\<lambda>c. c \<noteq> CHR ''t'') w), raw = raw tok, quoted = quoted tok\<rparr> # targetDirectoryWords toks
      else targetDirectoryWords toks)"

definition recognizeBashFsOpWords :: "string \<Rightarrow> shell_word list option" where
  "recognizeBashFsOpWords stripped =
     (case shellWords stripped True Broad of
        [] \<Rightarrow> None
      | cmd # args \<Rightarrow>
          if word cmd \<notin> set RECOGNIZED_BASH_FS_OPS then None
          else if word cmd = ''sed'' then sedOperandWords args
          else
            (let truncated = truncateAtFirstRedirectOperator args;
                 operands = nonFlagWords truncated
                   @ (if word cmd = ''cp'' \<or> word cmd = ''mv'' then targetDirectoryWords truncated else [])
             in if operands \<noteq> [] then Some operands else None))"

definition teeWriteWords :: "string \<Rightarrow> shell_word list" where
  "teeWriteWords stripped =
     (case shellWords stripped True Broad of
        [] \<Rightarrow> []
      | cmd # args \<Rightarrow> if word cmd \<noteq> ''tee'' then [] else nonFlagWords (truncateAtFirstRedirectOperator args))"

subsection \<open>The naive reading of a command that cannot be parsed\<close>

text \<open>
  The redirection expression of \<open>naiveWriteWords\<close> at the start of a text: the target and the text after
  it. At most one of the four operator alternatives can be followed by a target, so they are tried in turn.
\<close>

definition naive_operator :: "string \<Rightarrow> string option" where
  "naive_operator s =
     (if startsWith s ''&>'' then Some (if startsWith (drop 2 s) ''>'' then drop 3 s else drop 2 s)
      else if startsWith s ''<>'' then Some (drop 2 s)
      else
        (let r = dropWhile is_digit s in
         if \<not> startsWith r ''>'' then None
         else if startsWith (drop 1 r) ''&'' then Some (drop 2 r)
         else (let r2 = (if startsWith (drop 1 r) ''>'' then drop 2 r else drop 1 r)
               in Some (if startsWith r2 ''|'' then drop 1 r2 else r2))))"

definition naive_redirect :: "string \<Rightarrow> (string \<times> string) option" where
  "naive_redirect s =
     (case naive_operator s of
        None \<Rightarrow> None
      | Some r \<Rightarrow>
          (let r' = dropWhile (\<lambda>c. c = CHR '' '' \<or> c = CHR 0x09) r;
               t = takeWhile (\<lambda>c. \<not> redirect_word_stop c) r'
           in if t = [] then None else Some (t, drop (length t) r')))"

lemma naive_operator_length: "naive_operator s = Some r \<Longrightarrow> length r < length s"
proof -
  assume a: "naive_operator s = Some r"
  have d: "length (dropWhile is_digit s) \<le> length s" by (rule length_dropWhile_le)
  have n: "s \<noteq> []" using a by (auto simp: naive_operator_def startsWith_def)
  have "dropWhile is_digit s \<noteq> []" if "startsWith (dropWhile is_digit s) ''>''"
    using that unfolding startsWith_def by (metis take_Nil list.distinct(1))
  with a d n show ?thesis
    by (cases s) (auto simp: naive_operator_def Let_def split: if_splits)
qed

lemma naive_redirect_length: "naive_redirect s = Some (t, r) \<Longrightarrow> length r < length s"
proof -
  assume a: "naive_redirect s = Some (t, r)"
  then obtain q where q: "naive_operator s = Some q" and r: "r = drop (length t) (dropWhile (\<lambda>c. c = CHR '' '' \<or> c = CHR 0x09) q)"
    by (auto simp: naive_redirect_def Let_def split: option.splits if_splits)
  have "length r \<le> length q" unfolding r using length_dropWhile_le [of _ q] by (simp add: le_diff_conv trans_le_add1)
  with naive_operator_length [OF q] show ?thesis by simp
qed

function naive_redirects :: "string \<Rightarrow> string list" where
  "naive_redirects [] = []"
| "naive_redirects (c # s) =
     (case naive_redirect (c # s) of
        Some (t, args) \<Rightarrow> t # naive_redirects args
      | None \<Rightarrow> naive_redirects s)"
  by pat_completeness auto
termination
  by (relation "measure length") (auto dest: naive_redirect_length)

definition naive_target_words :: "string \<Rightarrow> shell_word list" where
  "naive_target_words r =
     map (\<lambda>w. \<lparr>word = w, raw = r, quoted = (w \<noteq> r)\<rparr>) (filter (\<lambda>w. \<not> is_descriptor w) (shellWordReadings r))"

definition naive_piece_words :: "string \<Rightarrow> shell_word list" where
  "naive_piece_words piece =
     (let stripped = stripWrappers piece DenyAsk
      in the_default [] (recognizeBashFsOpWords stripped) @ teeWriteWords stripped)"

definition naiveWriteWords :: "string \<Rightarrow> shell_word list" where
  "naiveWriteWords command =
     concat (map naive_target_words (naive_redirects command))
     @ concat (map naive_piece_words (naiveCommandPieces command))"

subsection \<open>Recognition\<close>

text \<open>A path as the shell will see it; \<open>home\<close> is optional in the source.\<close>

definition pathOf :: "string option \<Rightarrow> string \<times> string \<Rightarrow> string" where
  "pathOf home rw =
     (case home of
        None \<Rightarrow> snd rw
      | Some h \<Rightarrow>
          if fst rw = ''~'' then h
          else if startsWith (fst rw) ''~/'' \<and> startsWith (snd rw) ''~/'' then h @ drop 1 (snd rw)
          else snd rw)"

definition fileRulePathField :: "string \<Rightarrow> string" where
  "fileRulePathField name =
     (if name = ''NotebookEdit'' then ''notebook_path''
      else if name = ''Glob'' \<or> name = ''Grep'' then ''path''
      else ''file_path'')"

definition shellCommandOf :: "tool_call \<Rightarrow> string option" where
  "shellCommandOf call =
     (if call_toolName call \<noteq> ''Bash'' \<and> call_toolName call \<noteq> ''Monitor'' then None
      else (case call_input call ''command'' of Some (JStr txt) \<Rightarrow> Some txt | _ \<Rightarrow> None))"

record edit_opts =
  eo_sessionRoot :: "string option"
  eo_brand :: "brand_profile option"
  eo_home :: "string option"

definition no_edit_opts :: edit_opts where
  "no_edit_opts = \<lparr>eo_sessionRoot = None, eo_brand = None, eo_home = None\<rparr>"

definition raw_word :: "shell_word \<Rightarrow> string \<times> string" where
  "raw_word w = (raw w, word w)"

text \<open>One iteration of the loop over the subcommands: whether it is blessed, and its words.\<close>

definition part_write_words :: "string \<Rightarrow> bool \<times> (string \<times> string) list" where
  "part_write_words part =
     (let stripped = stripWrappers part DenyAsk;
          redirects = map (\<lambda>w. (rw_raw w, rw_target w)) (extractRedirectWrites stripped);
          fsOpWords = recognizeBashFsOpWords stripped;
          teeWords = teeWriteWords stripped
      in case fsOpWords of
           Some ws \<Rightarrow>
             if redirects = [] then (True, map raw_word ws)
             else (False, map raw_word ws @ redirects @ map raw_word teeWords)
         | None \<Rightarrow> (False, redirects @ map raw_word teeWords))"

definition recognize_shell :: "string \<Rightarrow> edit_opts \<Rightarrow> recognized_edit option" where
  "recognize_shell command opts =
     (case flattenSubcommands command of
        None \<Rightarrow>
          (let naive = naiveWriteWords command
           in if naive \<noteq> [] then Some \<lparr>re_kind = OtherKind, re_paths = map (pathOf (eo_home opts) \<circ> raw_word) naive\<rparr> else None)
      | Some parts \<Rightarrow>
          (let results = map part_write_words parts; allWords = concat (map snd results)
           in if parts = [] \<or> allWords = [] then None
              else Some \<lparr>re_kind = (if list_all fst results then BashFsOp else OtherKind),
                         re_paths = map (pathOf (eo_home opts)) allWords\<rparr>))"

definition recognizeEditOperation :: "tool_call \<Rightarrow> edit_opts \<Rightarrow> recognized_edit option" where
  "recognizeEditOperation call opts =
     (if call_toolName call \<in> {''Edit'', ''Write'', ''NotebookEdit''} then
        (case call_input call (fileRulePathField (call_toolName call)) of
           Some (JStr p) \<Rightarrow> Some \<lparr>re_kind = EditKind, re_paths = [trim p]\<rparr>
         | _ \<Rightarrow> None)
      else if call_toolName call = ''CronCreate'' then
        (case eo_sessionRoot opts of
           Some root \<Rightarrow>
             if call_input call ''durable'' \<noteq> Some (JBool True) then None
             else Some \<lparr>re_kind = EditKind,
               re_paths = [path_join [root, projectDirName (the_default WINTER_BRAND (eo_brand opts)), ''scheduled_tasks.json'']]\<rparr>
         | None \<Rightarrow> None)
      else (case shellCommandOf call of None \<Rightarrow> None | Some command \<Rightarrow> recognize_shell command opts))"

subsection \<open>Why the writes of a command need a person\<close>

definition SHELL_EXPANSION_REASON :: string where
  "SHELL_EXPANSION_REASON = ''Shell expansion syntax in paths requires manual approval''"

definition GLOB_REASON :: string where
  "GLOB_REASON = ''Glob patterns are not allowed in write operations. Please specify an exact file path.''"

definition TILDE_REASON :: string where
  "TILDE_REASON = ''Tilde expansion variants (~user, ~+, ~-) in paths require manual approval''"

definition PROCESS_SUBSTITUTION_REASON :: string where
  "PROCESS_SUBSTITUTION_REASON =
     ''Process substitution (>(...) or <(...)) can execute arbitrary commands and requires manual approval''"

definition UNPARSEABLE_REASON :: string where
  "UNPARSEABLE_REASON =
     ''This command could not be parsed, so the files it writes cannot be checked; it requires manual approval''"

definition writeTargetReason :: "string \<Rightarrow> string \<Rightarrow> string option" where
  "writeTargetReason r target =
     (if target = [] then Some SHELL_EXPANSION_REASON
      else if startsWith r ''~'' \<and> r \<noteq> ''~'' \<and> \<not> startsWith r ''~/'' then Some TILDE_REASON
      else if CHR ''$'' \<in> set r \<or> CHR ''%'' \<in> set r \<or> backtick \<in> set r \<or> startsWith r ''='' then Some SHELL_EXPANSION_REASON
      else if list_ex (\<lambda>c. c \<in> set ''*?[]{}'') r then Some GLOB_REASON
      else None)"

definition part_constraint :: "string \<Rightarrow> string option" where
  "part_constraint part =
     (let stripped = stripWrappers part DenyAsk;
          writes = filter (\<lambda>w. rw_target w \<noteq> ''/dev/null'') (extractRedirectWrites stripped);
          tokens = tokenizeWords stripped
      in case first_some (\<lambda>w. writeTargetReason (rw_raw w) (rw_target w)) writes of
           Some reason \<Rightarrow> Some reason
         | None \<Rightarrow>
             if tokens \<noteq> [] \<and> (hd tokens = ''cp'' \<or> hd tokens = ''mv'') \<and> list_ex (\<lambda>t. startsWith t ''-'') (tl tokens)
             then Some (hd tokens @ '' command with flags requires manual approval'')
             else first_some (\<lambda>w. writeTargetReason (raw w) (word w))
                    (the_default [] (recognizeBashFsOpWords stripped) @ teeWriteWords stripped))"

definition shellWriteConstraint :: "string \<Rightarrow> string option" where
  "shellWriteConstraint command =
     (if hasProcessSubstitution command then Some PROCESS_SUBSTITUTION_REASON
      else
        (case flattenSubcommands command of
           None \<Rightarrow> if trim command \<noteq> [] then Some UNPARSEABLE_REASON else None
         | Some parts \<Rightarrow> first_some part_constraint parts))"


subsection \<open>What the recognition finds\<close>

lemma first_word_tokens: "shellWords s True Broad = cmd # ws \<Longrightarrow> tokenizeWords s = word cmd # map word ws"
  by (simp add: tokenizeWords_def)

lemma recognizeBashFsOpWords_verb:
  assumes "recognizeBashFsOpWords stripped = Some ws"
  shows "\<exists>verb args. tokenizeWords stripped = verb # args \<and> verb \<in> set RECOGNIZED_BASH_FS_OPS"
  using assms unfolding recognizeBashFsOpWords_def
  by (auto split: list.splits if_splits dest: first_word_tokens)

lemma part_write_words_blessed:
  assumes "fst (part_write_words part)"
  shows "\<exists>ws. recognizeBashFsOpWords (stripWrappers part DenyAsk) = Some ws
    \<and> extractRedirectWrites (stripWrappers part DenyAsk) = [] \<and> snd (part_write_words part) = map raw_word ws"
  using assms by (auto simp: part_write_words_def Let_def split: option.splits if_splits)

lemma part_write_words_all:
  "(\<lambda>w. (rw_raw w, rw_target w)) ` set (extractRedirectWrites (stripWrappers part DenyAsk)) \<subseteq> set (snd (part_write_words part))"
  "recognizeBashFsOpWords (stripWrappers part DenyAsk) = Some ws \<Longrightarrow> raw_word ` set ws \<subseteq> set (snd (part_write_words part))"
  by (auto simp: part_write_words_def Let_def split: option.splits if_splits)

lemma recognizeEditOperation_shell:
  assumes "shellCommandOf call = Some command"
  shows "recognizeEditOperation call opts = recognize_shell command opts"
proof -
  have "call_toolName call = ''Bash'' \<or> call_toolName call = ''Monitor''"
    using assms by (auto simp: shellCommandOf_def split: if_splits)
  then show ?thesis using assms unfolding recognizeEditOperation_def by (elim disjE) simp_all
qed

lemma recognize_shell_parts:
  assumes "flattenSubcommands command = Some parts" and "part \<in> set parts" and "rw \<in> set (snd (part_write_words part))"
  shows "\<exists>r. recognize_shell command opts = Some r \<and> pathOf (eo_home opts) rw \<in> set (re_paths r)
    \<and> (\<not> fst (part_write_words part) \<longrightarrow> re_kind r = OtherKind)"
proof -
  let ?all = "concat (map snd (map part_write_words parts))"
  have rw: "rw \<in> set ?all" using assms(2,3) by auto
  then have "?all \<noteq> []" "parts \<noteq> []" using assms(2) by (metis empty_iff empty_set)+
  then have "recognize_shell command opts = Some \<lparr>re_kind = (if list_all fst (map part_write_words parts) then BashFsOp else OtherKind),
      re_paths = map (pathOf (eo_home opts)) ?all\<rparr>"
    using assms(1) unfolding recognize_shell_def Let_def by simp
  then show ?thesis using rw assms(2) by (auto simp: list_all_iff)
qed

lemma recognize_shell_Some:
  assumes "recognize_shell command opts = Some r" and "re_kind r = BashFsOp"
  obtains parts where "flattenSubcommands command = Some parts" "parts \<noteq> []" "\<forall>part\<in>set parts. fst (part_write_words part)"
  using assms by (auto simp: recognize_shell_def Let_def list_all_iff split: option.splits if_splits)

lemma recognizeEditOperation_fsop:
  assumes "recognizeEditOperation call opts = Some r" and "re_kind r = BashFsOp"
  obtains command where "shellCommandOf call = Some command" "recognize_shell command opts = Some r"
  using assms unfolding recognizeEditOperation_def
  by (cases "shellCommandOf call") (auto split: if_splits option.splits json.splits)

lemma writeTargetReason_None:
  assumes "writeTargetReason r target = None"
  shows "target \<noteq> []" "set r \<inter> set ''$%*?[]{}'' = {}" "backtick \<notin> set r"
    "startsWith r ''~'' \<Longrightarrow> r = ''~'' \<or> startsWith r ''~/''"
  using assms unfolding writeTargetReason_def by (auto simp: list_ex_iff split: if_splits)


subsection \<open>Properties\<close>

text \<open>
  What makes a shell command eligible for automatic approval as a file operation. When a call is
  recognised as \<open>bashFsOp\<close>, its command parses, and every command it runs (inside substitutions,
  subshells and compound statements too) is, after wrappers, one of the seven file verbs with no
  file-writing redirection at all, and every operand the verb writes is among the recognised paths.
\<close>

theorem bashFsOp_sound:
  assumes "recognizeEditOperation call opts = Some r" and "re_kind r = BashFsOp"
  shows "\<exists>command parts. shellCommandOf call = Some command \<and> flattenSubcommands command = Some parts \<and> parts \<noteq> []
    \<and> (\<forall>part\<in>set parts. extractRedirectWrites (stripWrappers part DenyAsk) = []
        \<and> (\<exists>verb args ws. tokenizeWords (stripWrappers part DenyAsk) = verb # args \<and> verb \<in> set RECOGNIZED_BASH_FS_OPS
            \<and> recognizeBashFsOpWords (stripWrappers part DenyAsk) = Some ws
            \<and> (\<forall>w\<in>set ws. pathOf (eo_home opts) (raw w, word w) \<in> set (re_paths r))))"
proof -
  obtain command where c: "shellCommandOf call = Some command" "recognize_shell command opts = Some r"
    using assms by (rule recognizeEditOperation_fsop)
  obtain parts where p: "flattenSubcommands command = Some parts" "parts \<noteq> []" "\<forall>part\<in>set parts. fst (part_write_words part)"
    using c(2) assms(2) by (rule recognize_shell_Some)
  have "extractRedirectWrites (stripWrappers part DenyAsk) = []
        \<and> (\<exists>verb args ws. tokenizeWords (stripWrappers part DenyAsk) = verb # args \<and> verb \<in> set RECOGNIZED_BASH_FS_OPS
            \<and> recognizeBashFsOpWords (stripWrappers part DenyAsk) = Some ws
            \<and> (\<forall>w\<in>set ws. pathOf (eo_home opts) (raw w, word w) \<in> set (re_paths r)))" if part: "part \<in> set parts" for part
  proof -
    obtain ws where ws: "recognizeBashFsOpWords (stripWrappers part DenyAsk) = Some ws"
      "extractRedirectWrites (stripWrappers part DenyAsk) = []" "snd (part_write_words part) = map raw_word ws"
      using part_write_words_blessed p(3) part by blast
    have "pathOf (eo_home opts) (raw w, word w) \<in> set (re_paths r)" if "w \<in> set ws" for w
      using recognize_shell_parts [OF p(1) part, of "raw_word w" opts] ws(3) that c(2) by (auto simp: raw_word_def)
    then show ?thesis using ws(1,2) recognizeBashFsOpWords_verb [OF ws(1)] by blast
  qed
  with c(1) p(1,2) show ?thesis by blast
qed

lemma tee_words_recognized: "set (map raw_word (teeWriteWords (stripWrappers part DenyAsk))) \<subseteq> set (snd (part_write_words part))"
proof -
  have "recognizeBashFsOpWords s \<noteq> None \<Longrightarrow> teeWriteWords s = []" for s
    by (auto simp: recognizeBashFsOpWords_def teeWriteWords_def RECOGNIZED_BASH_FS_OPS_def split: list.splits if_splits)
  then show ?thesis by (auto simp: part_write_words_def Let_def split: option.splits)
qed


text \<open>
  A shell command without a write constraint writes only to names that are what they look like. It
  has no process substitution, it parses (or is blank), and every redirection target other than the
  null device and every file operand is a non-empty word without expansion or glob
  characters; \<open>cp\<close> and \<open>mv\<close> have no flag.
\<close>

theorem unconstrained_writes_literal:
  assumes "shellWriteConstraint command = None" and "trim command \<noteq> []"
  shows "\<not> hasProcessSubstitution command \<and> (\<exists>parts. flattenSubcommands command = Some parts
    \<and> (\<forall>part\<in>set parts.
        (\<forall>w\<in>set (extractRedirectWrites (stripWrappers part DenyAsk)). rw_target w \<noteq> ''/dev/null'' \<longrightarrow>
           rw_target w \<noteq> [] \<and> set (rw_raw w) \<inter> set ''$%*?[]{}'' = {})
        \<and> (\<forall>ws. recognizeBashFsOpWords (stripWrappers part DenyAsk) = Some ws \<longrightarrow>
            (\<forall>w\<in>set ws. word w \<noteq> [] \<and> set (raw w) \<inter> set ''$%*?[]{}'' = {}))
        \<and> (\<forall>verb args. tokenizeWords (stripWrappers part DenyAsk) = verb # args \<longrightarrow> verb = ''cp'' \<or> verb = ''mv'' \<longrightarrow>
            \<not> list_ex isFlagToken args)))"
proof -
  obtain parts where p: "\<not> hasProcessSubstitution command" "flattenSubcommands command = Some parts"
    "\<forall>part\<in>set parts. part_constraint part = None"
    using assms by (auto simp: shellWriteConstraint_def first_some_None split: if_splits option.splits)
  have "(\<forall>w\<in>set (extractRedirectWrites (stripWrappers part DenyAsk)). rw_target w \<noteq> ''/dev/null'' \<longrightarrow>
           writeTargetReason (rw_raw w) (rw_target w) = None)
        \<and> (\<forall>ws. recognizeBashFsOpWords (stripWrappers part DenyAsk) = Some ws \<longrightarrow>
            (\<forall>w\<in>set ws. writeTargetReason (raw w) (word w) = None))
        \<and> (\<forall>verb args. tokenizeWords (stripWrappers part DenyAsk) = verb # args \<longrightarrow> verb = ''cp'' \<or> verb = ''mv'' \<longrightarrow>
            \<not> list_ex isFlagToken args)" if "part \<in> set parts" for part
  proof -
    have c: "part_constraint part = None" using p(3) that by blast
    then show ?thesis
      unfolding part_constraint_def Let_def
      by (auto simp: first_some_None isFlagToken_def list_ex_iff the_default_def split: option.splits if_splits)
  qed
  with p(1,2) writeTargetReason_None(1,2) show ?thesis by blast
qed

subsection \<open>Examples\<close>

lemma touch_a_flat: "flattenSubcommands ''touch a'' = Some [''touch a'']"
proof -
  have s: "splitCompound ''touch a'' = Some [''touch a'']" by code_simp
  have b: "substitutionBodies ''touch a'' False = Some []" by code_simp
  have h: "stripReservedHeads ''touch a'' = ''touch a''" by code_simp
  have q: "CHR ''#'' \<notin> set ''touch a''" "\<not> str_includes ''touch a'' ''<<''" by (simp_all add: startsWith_def)
  show ?thesis using flattenSubcommands_plain [OF q s] b h by simp
qed

lemma touch_a_words:
  "stripWrappers ''touch a'' DenyAsk = ''touch a''" "extractRedirectWrites ''touch a'' = []"
  "recognizeBashFsOpWords ''touch a'' = Some [\<lparr>word = ''a'', raw = ''a'', quoted = False\<rparr>]"
  "teeWriteWords ''touch a'' = []"
  by code_simp+


definition touch_call :: tool_call where
  "touch_call = \<lparr>call_toolName = ''Bash'', call_input = [''command'' \<mapsto> JStr ''touch a'']\<rparr>"

lemma touch_call_command: "shellCommandOf touch_call = Some ''touch a''"
  by (simp add: touch_call_def shellCommandOf_def)

lemma touch_call_recognized:
  "recognizeEditOperation touch_call no_edit_opts = Some \<lparr>re_kind = BashFsOp, re_paths = [''a'']\<rparr>"
  unfolding recognizeEditOperation_shell [OF touch_call_command] recognize_shell_def touch_a_flat
  by (simp add: part_write_words_def touch_a_words Let_def raw_word_def pathOf_def no_edit_opts_def)

theorem bashFsOp_sound_witness:
  "\<exists>command parts. shellCommandOf touch_call = Some command \<and> flattenSubcommands command = Some parts \<and> parts \<noteq> []"
proof -
  have "re_kind \<lparr>re_kind = BashFsOp, re_paths = [''a'']\<rparr> = BashFsOp" by simp
  from bashFsOp_sound [OF touch_call_recognized this] show ?thesis by blast
qed


theorem unconstrained_writes_literal_witness:
  "shellWriteConstraint ''touch a'' = None \<and> \<not> hasProcessSubstitution ''touch a''"
proof -
  have p: "\<not> hasProcessSubstitution ''touch a''" by code_simp
  have t: "tokenizeWords ''touch a'' = [''touch'', ''a'']" by code_simp
  have r: "writeTargetReason ''a'' ''a'' = None" by code_simp
  have "part_constraint ''touch a'' = None"
    by (simp add: part_constraint_def touch_a_words t r the_default_def)
  with p have s: "shellWriteConstraint ''touch a'' = None"
    by (simp add: shellWriteConstraint_def touch_a_flat)
  have "trim ''touch a'' \<noteq> []" by code_simp
  with unconstrained_writes_literal [OF s] s show ?thesis by blast
qed


end
