(* ===== verification/Protected.thy ===== *)
theory Protected
  imports Edit_Recognition
begin

text \<open>
  \<open>protected.ts\<close>: the paths no write may reach without approval (repository and tool configuration, shell
  start files, lock files, the agent's own home), the three carve-outs inside the agent's home, and the
  removals that are never approved silently. \<open>resolve\<close> takes the working directory of the process
  as its last resort, so the functions that call it have it as their first argument. Lemmas: the exact shape of the carve-outs, what is inside a
  protected directory, and which removal targets are critical.
\<close>

subsection \<open>Protected names\<close>

definition PROTECTED_DIRECTORY_NAMES :: "string list" where
  "PROTECTED_DIRECTORY_NAMES =
     [''.git'', ''.vscode'', ''.idea'', ''.husky'', ''.cargo'', ''.devcontainer'', ''.yarn'', ''.mvn'']"

definition PROTECTED_FILE_BASENAMES :: "string list" where
  "PROTECTED_FILE_BASENAMES =
     [''.bashrc'', ''.bash_profile'', ''.bash_login'', ''.profile'', ''.zshrc'', ''.zprofile'', ''.zshenv'', ''.zlogin'',
      ''package-lock.json'', ''yarn.lock'', ''pnpm-lock.yaml'', ''bun.lock'', ''bun.lockb'', ''Cargo.lock'', ''Gemfile.lock'',
      ''poetry.lock'', ''go.sum'', ''package.json'', ''Cargo.toml'', ''Gemfile'', ''pyproject.toml'', ''go.mod'',
      ''.mcp.json'', ''.gitconfig'', ''.gitmodules'', ''.ripgreprc'', instructionsFile WINTER_BRAND]"

definition WINTER_PROJECTS_SEGMENT :: string where
  "WINTER_PROJECTS_SEGMENT = ''projects''"

definition WORKFLOW_SCRIPTS_SEGMENTS :: "string list" where
  "WORKFLOW_SCRIPTS_SEGMENTS = [''workflows'', ''scripts'']"

definition MEMORY_SEGMENTS :: "string list" where
  "MEMORY_SEGMENTS = [''memory'']"

definition PROTECTED_DIRECTORY_NAMES_LC :: "string list" where
  "PROTECTED_DIRECTORY_NAMES_LC = map toLowerCase PROTECTED_DIRECTORY_NAMES"

definition PROTECTED_FILE_BASENAMES_LC :: "string list" where
  "PROTECTED_FILE_BASENAMES_LC = map toLowerCase PROTECTED_FILE_BASENAMES"

definition WINTER_HOME_STATE_DIRS :: "string list" where
  "WINTER_HOME_STATE_DIRS = [''run'', ''runtimes'', ''file-history'', ''projects'']"

definition pathSegments :: "string \<Rightarrow> string list" where
  "pathSegments absPath = filter (\<lambda>s. s \<noteq> []) (split_on (CHR ''/'') absPath)"

definition basenameOf :: "string \<Rightarrow> string" where
  "basenameOf absPath = rev (takeWhile (\<lambda>c. c \<noteq> CHR ''/'') (rev absPath))"

subsection \<open>The carve-outs\<close>

definition matchesCarveOut :: "string list \<Rightarrow> string list \<Rightarrow> nat \<Rightarrow> string list \<Rightarrow> bool" where
  "matchesCarveOut segments pre wildcards tail =
     (if length segments < length pre + wildcards + length tail + 1 then False
      else if \<not> list_all (\<lambda>i. segments ! i = pre ! i) [0..<length pre] then False
      else list_all (\<lambda>i. segments ! (length pre + wildcards + i) = tail ! i) [0..<length tail])"

text \<open>\<open>resolve(p)\<close>\<close>

definition resolve1 :: "string \<Rightarrow> string \<Rightarrow> string" where
  "resolve1 pcwd p = path_resolve pcwd '''' p"

definition carve_out :: "string \<Rightarrow> nat \<Rightarrow> string list \<Rightarrow> string \<Rightarrow> string \<Rightarrow> string option \<Rightarrow> brand_profile option \<Rightarrow> bool" where
  "carve_out pcwd wildcards tail absPath home resolvedWinterHome brand =
     ((case resolvedWinterHome of
         Some wh \<Rightarrow> matchesCarveOut (pathSegments absPath) (pathSegments (resolve1 pcwd wh) @ [WINTER_PROJECTS_SEGMENT]) wildcards tail
       | None \<Rightarrow> False)
      \<or> matchesCarveOut (pathSegments absPath)
          (pathSegments (resolve1 pcwd home) @ [homeDirName (the_default WINTER_BRAND brand), WINTER_PROJECTS_SEGMENT]) wildcards tail)"

definition isWorkflowScriptCarveOut :: "string \<Rightarrow> string \<Rightarrow> string \<Rightarrow> string option \<Rightarrow> brand_profile option \<Rightarrow> bool" where
  "isWorkflowScriptCarveOut pcwd = carve_out pcwd 2 WORKFLOW_SCRIPTS_SEGMENTS"

definition isMemoryCarveOut :: "string \<Rightarrow> string \<Rightarrow> string \<Rightarrow> string option \<Rightarrow> brand_profile option \<Rightarrow> bool" where
  "isMemoryCarveOut pcwd = carve_out pcwd 1 MEMORY_SEGMENTS"

text \<open>The loop of \<open>isInsideProtectedDirectory\<close> over the lower-cased names.\<close>

fun protected_segments :: "string list \<Rightarrow> string list \<Rightarrow> bool" where
  "protected_segments ownDirs [] = False"
| "protected_segments ownDirs (seg # segs) =
     (let nextSeg = (case segs of [] \<Rightarrow> None | s # _ \<Rightarrow> Some s) in
      if seg = ''.config'' \<and> nextSeg = Some ''git'' then True
      else if seg \<in> set ownDirs then (if nextSeg = Some ''worktrees'' then protected_segments ownDirs segs else True)
      else if seg \<in> set PROTECTED_DIRECTORY_NAMES_LC then True
      else protected_segments ownDirs segs)"

definition isInsideProtectedDirectory :: "string \<Rightarrow> brand_profile \<Rightarrow> bool" where
  "isInsideProtectedDirectory absPath brand =
     protected_segments [toLowerCase (projectDirName brand), toLowerCase (homeDirName brand)]
       (map toLowerCase (pathSegments absPath))"

definition winterHomeRoots :: "string \<Rightarrow> string \<Rightarrow> string option \<Rightarrow> brand_profile \<Rightarrow> string list" where
  "winterHomeRoots pcwd home resolvedWinterHome brand =
     (let branded = path_resolve pcwd home (homeDirName brand) in
      case resolvedWinterHome of
        Some wh \<Rightarrow> if wh \<noteq> [] then remdups [resolve1 pcwd wh, branded] else [branded]
      | None \<Rightarrow> [branded])"

fun carvable_loop :: "brand_profile \<Rightarrow> string \<Rightarrow> string list \<Rightarrow> bool" where
  "carvable_loop b dir [] = False"
| "carvable_loop b dir (root # roots) =
     (if dir = root \<or> \<not> startsWith dir (if root = ''/'' then ''/'' else root @ ''/'') then carvable_loop b dir roots
      else
        (let below = pathSegments (drop (length root) dir)
         in if toLowerCase (hd below) \<in> set WINTER_HOME_STATE_DIRS then False
            else \<not> isInsideProtectedDirectory (''/'' @ join_with ''/'' below) b))"

definition isCarvableOutputsDir :: "string \<Rightarrow> string \<Rightarrow> string \<Rightarrow> string option \<Rightarrow> brand_profile option \<Rightarrow> bool" where
  "isCarvableOutputsDir pcwd outputsDir home resolvedWinterHome brand =
     (let b = the_default WINTER_BRAND brand
      in carvable_loop b (resolve1 pcwd outputsDir) (winterHomeRoots pcwd home resolvedWinterHome b))"

definition protected_name :: "string \<Rightarrow> brand_profile \<Rightarrow> bool" where
  "protected_name absPath b =
     (isInsideProtectedDirectory absPath b
      \<or> toLowerCase (basenameOf absPath) \<in> set PROTECTED_FILE_BASENAMES_LC
      \<or> toLowerCase (basenameOf absPath) = toLowerCase (instructionsFile b))"

fun outputs_loop :: "string \<Rightarrow> string \<Rightarrow> brand_profile \<Rightarrow> string list \<Rightarrow> bool" where
  "outputs_loop pcwd absPath b [] = False"
| "outputs_loop pcwd absPath b (dir # dirs) =
     (let root = resolve1 pcwd dir in
      if \<not> startsWith absPath (root @ ''/'') then outputs_loop pcwd absPath b dirs
      else
        (let below = ''/'' @ join_with ''/'' (pathSegments (drop (length root) absPath))
         in if below = ''/'' then outputs_loop pcwd absPath b dirs else \<not> protected_name below b))"

definition isOutputsCarveOut :: "string \<Rightarrow> string \<Rightarrow> string list \<Rightarrow> brand_profile option \<Rightarrow> bool" where
  "isOutputsCarveOut pcwd absPath outputsDirs brand = outputs_loop pcwd absPath (the_default WINTER_BRAND brand) outputsDirs"

subsection \<open>Protected writes\<close>

definition isAncestorOfOrEqual :: "string \<Rightarrow> string \<Rightarrow> bool" where
  "isAncestorOfOrEqual candidate target =
     (candidate = target \<or> startsWith target (if candidate = ''/'' then ''/'' else candidate @ ''/''))"

record protected_ctx =
  pc_cwd :: string
  pc_home :: string
  pc_winterHome :: "string option"
  pc_storeHome :: "string option"
  pc_brand :: "brand_profile option"
  pc_outputsDirs :: "string list option"

definition inside_home :: "string \<Rightarrow> string option \<Rightarrow> string \<Rightarrow> bool" where
  "inside_home pcwd root absPath =
     (case root of
        Some h \<Rightarrow> h \<noteq> [] \<and> isAncestorOfOrEqual (toLowerCase (resolve1 pcwd h)) (toLowerCase absPath)
      | None \<Rightarrow> False)"

definition isProtectedWrite :: "string \<Rightarrow> string \<Rightarrow> protected_ctx \<Rightarrow> bool" where
  "isProtectedWrite pcwd path ctx =
     (let brand = the_default WINTER_BRAND (pc_brand ctx);
          absPath = path_resolve pcwd (pc_cwd ctx) (trim path);
          durableRoot = (case pc_storeHome ctx of Some s \<Rightarrow> Some s | None \<Rightarrow> pc_winterHome ctx)
      in if isWorkflowScriptCarveOut pcwd absPath (pc_home ctx) durableRoot (Some brand) then False
         else if isMemoryCarveOut pcwd absPath (pc_home ctx) durableRoot (Some brand) then False
         else if (case pc_outputsDirs ctx of Some dirs \<Rightarrow> isOutputsCarveOut pcwd absPath dirs (Some brand) | None \<Rightarrow> False) then False
         else if inside_home pcwd (pc_winterHome ctx) absPath then True
         else if inside_home pcwd (pc_storeHome ctx) absPath then True
         else protected_name absPath brand)"

subsection \<open>Critical removals\<close>

record critical_removal =
  cr_critical :: bool
  cr_reason :: "string option"

record removal_ctx =
  rc_cwd :: string
  rc_home :: string
  rc_additionalDirectories :: "string list"

definition isRootOrDirectChild :: "string \<Rightarrow> bool" where
  "isRootOrDirectChild absPath = (length (pathSegments absPath) \<le> 1)"

definition expandTilde :: "string \<Rightarrow> string \<Rightarrow> string" where
  "expandTilde r home = (if r = ''~'' then home else if startsWith r ''~/'' then home @ drop 1 r else r)"

definition resolveToken :: "string \<Rightarrow> removal_ctx \<Rightarrow> string \<Rightarrow> string" where
  "resolveToken pcwd ctx r = path_resolve pcwd (rc_cwd ctx) (expandTilde r (rc_home ctx))"

definition isConservativeCriticalShape :: "string \<Rightarrow> string option" where
  "isConservativeCriticalShape rawToken =
     (if startsWith rawToken ''$'' then Some (''variable-rooted target: '' @ rawToken)
      else if str_includes rawToken ''$('' \<or> backtick \<in> set rawToken then Some (''command substitution in target: '' @ rawToken)
      else if str_includes rawToken ''<('' \<or> str_includes rawToken ''>('' then Some (''process substitution in target: '' @ rawToken)
      else None)"

text \<open>The expression \<open>/^(.*)\/\*+$/\<close>, whose dot does not cross a line end.\<close>

definition trailingGlobParent :: "string \<Rightarrow> string option" where
  "trailingGlobParent absPath =
     (let r = rev absPath; stars = takeWhile (\<lambda>c. c = CHR ''*'') r; r' = drop (length stars) r in
      if stars = [] \<or> \<not> startsWith r' ''/'' then None
      else (let parent = rev (tl r')
            in if newline \<in> set parent \<or> CHR 0x0D \<in> set parent then None
               else Some (if parent = [] then ''/'' else parent)))"

definition criticalR :: "string \<Rightarrow> critical_removal" where
  "criticalR reason = \<lparr>cr_critical = True, cr_reason = Some reason\<rparr>"

definition not_critical :: critical_removal where
  "not_critical = \<lparr>cr_critical = False, cr_reason = None\<rparr>"

definition classifyRemovalTarget :: "string \<Rightarrow> removal_ctx \<Rightarrow> string \<Rightarrow> critical_removal" where
  "classifyRemovalTarget pcwd ctx rawToken =
     (case isConservativeCriticalShape rawToken of
        Some reason \<Rightarrow> criticalR reason
      | None \<Rightarrow>
          (let resolved = resolveToken pcwd ctx rawToken in
           if isRootOrDirectChild resolved then criticalR (''filesystem root or a direct child of it: '' @ resolved)
           else if resolved = rc_home ctx then criticalR ''the user's home directory''
           else if isAncestorOfOrEqual resolved (rc_cwd ctx) then criticalR (''the working directory or an ancestor of it: '' @ resolved)
           else
             (case trailingGlobParent resolved of
                None \<Rightarrow> not_critical
              | Some globParent \<Rightarrow>
                  (let grantedRoots = map (resolveToken pcwd ctx) (rc_cwd ctx # rc_home ctx # rc_additionalDirectories ctx)
                   in if globParent = ''/'' \<or> isRootOrDirectChild globParent \<or> globParent \<in> set grantedRoots
                      then criticalR (''broad glob at the top of a working/granted directory: '' @ rawToken)
                      else not_critical))))"

definition removal_of_part :: "string \<Rightarrow> removal_ctx \<Rightarrow> string \<Rightarrow> critical_removal option" where
  "removal_of_part pcwd ctx part =
     (case tokenizeWords (stripWrappers part DenyAsk) of
        [] \<Rightarrow> None
      | cmd # args \<Rightarrow>
          if cmd \<noteq> ''rm'' \<and> cmd \<noteq> ''rmdir'' then None
          else first_some (\<lambda>operand. let result = classifyRemovalTarget pcwd ctx operand
                                     in if cr_critical result then Some result else None) (nonFlagOperands args))"

definition isCriticalRemoval :: "string \<Rightarrow> string \<Rightarrow> removal_ctx \<Rightarrow> critical_removal" where
  "isCriticalRemoval pcwd command ctx =
     (let parts = (case flattenSubcommands command of
                     Some split \<Rightarrow> if split \<noteq> [] then split else [command]
                   | None \<Rightarrow> naiveCommandPieces command)
      in the_default not_critical (first_some (removal_of_part pcwd ctx) parts))"

subsection \<open>The shape of the carve-outs\<close>

lemma nth_eq_take: "length a \<le> length s \<Longrightarrow> (\<forall>i<length a. s ! i = a ! i) \<longleftrightarrow> take (length a) s = a"
  by (auto simp: list_eq_iff_nth_eq)

lemma matchesCarveOut_drop:
  "matchesCarveOut segments pre n tail \<longleftrightarrow>
     length pre + n + length tail < length segments \<and> take (length pre) segments = pre
     \<and> take (length tail) (drop (length pre + n) segments) = tail"
proof (cases "length pre + n + length tail < length segments")
  case True
  have "(\<forall>i<length tail. segments ! (length pre + n + i) = tail ! i) \<longleftrightarrow> take (length tail) (drop (length pre + n) segments) = tail"
    using nth_eq_take [of tail "drop (length pre + n) segments"] True by simp
  moreover have "(\<forall>i<length pre. segments ! i = pre ! i) \<longleftrightarrow> take (length pre) segments = pre"
    using nth_eq_take [of pre segments] True by simp
  ultimately show ?thesis using True by (simp add: matchesCarveOut_def list_all_iff Ball_def)
qed (simp add: matchesCarveOut_def)

lemma matchesCarveOut_shape:
  "matchesCarveOut segments pre n tail \<longleftrightarrow>
     (\<exists>ws below. segments = pre @ ws @ tail @ below \<and> length ws = n \<and> below \<noteq> [])"
proof
  assume m: "matchesCarveOut segments pre n tail"
  let ?s = "drop (length pre) segments"
  have len: "length pre + n + length tail < length segments" and pre: "take (length pre) segments = pre"
    and tail: "take (length tail) (drop n ?s) = tail"
    using m by (simp_all add: matchesCarveOut_drop add.commute)
  have "segments = pre @ ?s" by (metis append_take_drop_id pre)
  also have "?s = take n ?s @ tail @ drop (length tail) (drop n ?s)" by (metis append_take_drop_id tail)
  finally show "\<exists>ws below. segments = pre @ ws @ tail @ below \<and> length ws = n \<and> below \<noteq> []"
    using len by (intro exI [of _ "take n ?s"] exI [of _ "drop (length tail) (drop n ?s)"]) auto
qed (auto simp: matchesCarveOut_drop)

lemma pathSegments_abs_path: "list_all proper_name segs \<Longrightarrow> pathSegments (abs_path segs) = segs"
proof (cases "segs = []")
  case False
  assume p: "list_all proper_name segs"
  then have "filter (\<lambda>s. s \<noteq> []) segs = segs" by (auto simp: list_all_iff proper_name_def)
  with split_abs_path [OF p False] show ?thesis by (simp add: pathSegments_def)
qed (simp add: pathSegments_def abs_path_def)

subsection \<open>Inside a protected directory\<close>

text \<open>Any protected directory name makes the whole path protected, wherever it stands.\<close>

lemma protected_segments_name:
  "seg \<in> set segs \<Longrightarrow> seg \<in> set PROTECTED_DIRECTORY_NAMES_LC \<Longrightarrow> seg \<notin> set ownDirs \<Longrightarrow> protected_segments ownDirs segs"
proof (induction segs)
  case (Cons s segs)
  show ?case
  proof (cases "s = seg")
    case True
    then show ?thesis using Cons.prems(2,3) unfolding protected_segments.simps Let_def by simp
  next
    case False
    then have "protected_segments ownDirs segs" using Cons by simp
    then show ?thesis unfolding protected_segments.simps Let_def by simp
  qed
qed simp

lemma protected_segments_append: "protected_segments ownDirs b \<Longrightarrow> protected_segments ownDirs (a @ b)"
proof (induction a)
  case (Cons x a)
  then show ?case by (auto simp: Let_def)
qed simp

lemma isAncestorOfOrEqual_abs:
  assumes "list_all proper_name p" "list_all proper_name q" "prefix p q"
  shows "isAncestorOfOrEqual (abs_path p) (abs_path q)"
proof -
  obtain r where q: "q = p @ r" using assms(3) by (auto simp: prefix_def)
  show ?thesis
  proof (cases "p = [] \<or> r = []")
    case True
    then show ?thesis by (auto simp: q isAncestorOfOrEqual_def abs_path_def startsWith_def)
  next
    case False
    then have "abs_path q = abs_path p @ ''/'' @ join_with ''/'' r" by (simp add: q abs_path_append)
    moreover have "abs_path p \<noteq> ''/''" using abs_path_no_trailing(2) [OF assms(1)] False by auto
    ultimately show ?thesis by (simp add: isAncestorOfOrEqual_def startsWith_def)
  qed
qed

subsection \<open>Critical removal targets\<close>

lemma criticalR_critical [simp]: "cr_critical (criticalR reason)" "\<not> cr_critical not_critical"
  by (simp_all add: criticalR_def not_critical_def)

text \<open>What an operand names: the home directory for a leading tilde, and otherwise a path from the working directory or from the root, name by name.\<close>

definition operand_names :: "string list \<Rightarrow> string list \<Rightarrow> string \<Rightarrow> string list" where
  "operand_names home base operand =
     (if operand = ''~'' then home
      else if startsWith operand ''~/'' then walk home (split_on (CHR ''/'') (drop 2 operand))
      else walk (if startsWith operand ''/'' then [] else base) (split_on (CHR ''/'') operand))"

lemma resolveToken_names:
  assumes "list_all proper_name home" "list_all proper_name base" "rc_home ctx = abs_path home" "rc_cwd ctx = abs_path base"
  shows "resolveToken pcwd ctx operand = abs_path (operand_names home base operand)"
proof -
  have "expandTilde operand (abs_path home) =
      (if operand = ''~'' then abs_path home else if startsWith operand ''~/'' then abs_path home @ ''/'' @ drop 2 operand else operand)"
  proof (cases "startsWith operand ''~/''")
    case True
    then obtain rest where "operand = ''~/'' @ rest" unfolding startsWith_def by (metis append_take_drop_id)
    then show ?thesis by (simp add: expandTilde_def startsWith_def)
  qed (auto simp: expandTilde_def)
  moreover have "named_from base (abs_path home) = home"
    using walk_proper [OF assms(1), of "[]"] split_abs_path [OF assms(1)] by (cases "home = []") (simp_all add: named_from_def abs_path_def startsWith_def)
  moreover have "named_from base (abs_path home @ ''/'' @ drop 2 operand) = walk home (split_on (CHR ''/'') (drop 2 operand))"
    using split_walk_abs_path [OF assms(1)] by (simp add: named_from_def abs_path_def startsWith_def)
  ultimately show ?thesis
    using path_resolve_named [OF assms(2)] by (simp add: resolveToken_def assms(3,4) operand_names_def named_from_def)
qed

lemma operand_names_proper:
  "list_all proper_name home \<Longrightarrow> list_all proper_name base \<Longrightarrow> list_all proper_name (operand_names home base operand)"
proof -
  have n: "\<forall>n \<in> set (split_on (CHR ''/'') s). CHR ''/'' \<notin> set n" for s using split_on_notin by fastforce
  assume "list_all proper_name home" "list_all proper_name base"
  then show ?thesis using walk_names [OF _ n] by (simp add: operand_names_def)
qed

lemma classify_ancestor_critical:
  assumes "list_all proper_name home" "list_all proper_name base" "rc_home ctx = abs_path home" "rc_cwd ctx = abs_path base"
    and "prefix (operand_names home base operand) base"
  shows "cr_critical (classifyRemovalTarget pcwd ctx operand)"
  using isAncestorOfOrEqual_abs [OF operand_names_proper [OF assms(1,2)] assms(2,5)] resolveToken_names [OF assms(1-4)] assms(4)
  by (simp add: classifyRemovalTarget_def Let_def split: option.splits)

lemma first_some_ex: "x \<in> set xs \<Longrightarrow> f x \<noteq> None \<Longrightarrow> \<exists>y. first_some f xs = Some y"
  by (metis first_some_None not_None_eq)

lemma removal_of_part_critical: "removal_of_part pcwd ctx part = Some r \<Longrightarrow> cr_critical r"
  by (auto simp: removal_of_part_def Let_def split: list.splits if_splits dest!: first_some_Some)

lemma isCriticalRemoval_part:
  assumes "flattenSubcommands command = Some parts \<or> flattenSubcommands command = None \<and> parts = naiveCommandPieces command"
    and "part \<in> set parts"
    and "tokenizeWords (stripWrappers part DenyAsk) = verb # args" and "verb = ''rm'' \<or> verb = ''rmdir''"
    and "operand \<in> set (nonFlagOperands args)" and "cr_critical (classifyRemovalTarget pcwd ctx operand)"
  shows "cr_critical (isCriticalRemoval pcwd command ctx)"
proof -
  have "\<exists>r. removal_of_part pcwd ctx part = Some r"
  proof -
    let ?f = "\<lambda>operand. let result = classifyRemovalTarget pcwd ctx operand in if cr_critical result then Some result else None"
    have "?f operand \<noteq> None" using assms(6) by (simp add: Let_def)
    then have e: "\<exists>r. first_some ?f (nonFlagOperands args) = Some r" by (rule first_some_ex [OF assms(5)])
    have v: "\<not> (verb \<noteq> ''rm'' \<and> verb \<noteq> ''rmdir'')" using assms(4) by blast
    show ?thesis unfolding removal_of_part_def assms(3) list.case if_not_P [OF v] by (rule e)
  qed
  then have "removal_of_part pcwd ctx part \<noteq> None" by (metis option.distinct(1))
  then have "\<exists>r. first_some (removal_of_part pcwd ctx) parts = Some r" by (rule first_some_ex [OF assms(2)])
  then obtain r where "first_some (removal_of_part pcwd ctx) parts = Some r" ..
  moreover from this have "cr_critical r"
    using first_some_Some [of "removal_of_part pcwd ctx" parts r] removal_of_part_critical [of pcwd ctx _ r] by blast
  moreover have "parts \<noteq> []" using assms(2) by auto
  ultimately show ?thesis using assms(1) by (auto simp: isCriticalRemoval_def the_default_def)
qed


subsection \<open>Properties\<close>

text \<open>
  C31: removing the working directory, or any directory above it, is always a critical removal, however it is spelled. Whatever
  the flags and the other operands, when a part of the command, behind its wrappers, is an \<open>rm\<close> or \<open>rmdir\<close> with an operand that names the
  working directory or an ancestor of it (absolute or relative, through \<open>.\<close> and \<open>..\<close>, from the home directory by a tilde, with slashes doubled or trailing), the
  whole command is critical. The parts are the ones the flattener returns, or the naive pieces of a command that cannot be parsed.
\<close>

theorem removal_of_ancestor_critical:
  assumes "list_all proper_name base" and "rc_cwd ctx = abs_path base" and "list_all proper_name home" and "rc_home ctx = abs_path home"
    and "flattenSubcommands command = Some parts \<or> flattenSubcommands command = None \<and> parts = naiveCommandPieces command"
    and "part \<in> set parts"
    and "tokenizeWords (stripWrappers part DenyAsk) = verb # args" and "verb = ''rm'' \<or> verb = ''rmdir''"
    and "operand \<in> set (nonFlagOperands args)" and "prefix (operand_names home base operand) base"
  shows "cr_critical (isCriticalRemoval pcwd command ctx)"
  by (rule isCriticalRemoval_part [OF assms(5-9)]) (rule classify_ancestor_critical [OF assms(3,1,4,2,10)])

lemma rm_p_flat: "flattenSubcommands ''rm -rf /p'' = Some [''rm -rf /p'']"
proof -
  have s: "splitCompound ''rm -rf /p'' = Some [''rm -rf /p'']" by code_simp
  have b: "substitutionBodies ''rm -rf /p'' False = Some []" by code_simp
  have h: "stripReservedHeads ''rm -rf /p'' = ''rm -rf /p''" by code_simp
  have q: "CHR ''#'' \<notin> set ''rm -rf /p''" "\<not> str_includes ''rm -rf /p'' ''<<''" by (simp_all add: startsWith_def)
  show ?thesis using flattenSubcommands_plain [OF q s] b h by simp
qed

lemma rm_up_flat: "flattenSubcommands ''rm -rf ../.././'' = Some [''rm -rf ../.././'']"
proof -
  have s: "splitCompound ''rm -rf ../.././'' = Some [''rm -rf ../.././'']" by code_simp
  have b: "substitutionBodies ''rm -rf ../.././'' False = Some []" by code_simp
  have h: "stripReservedHeads ''rm -rf ../.././'' = ''rm -rf ../.././''" by code_simp
  have q: "CHR ''#'' \<notin> set ''rm -rf ../.././''" "\<not> str_includes ''rm -rf ../.././'' ''<<''" by (simp_all add: startsWith_def)
  show ?thesis using flattenSubcommands_plain [OF q s] b h by simp
qed

theorem removal_of_ancestor_critical_witness:
  "cr_critical (isCriticalRemoval ''/'' ''rm -rf ../.././'' \<lparr>rc_cwd = ''/p/q/r'', rc_home = ''/h'', rc_additionalDirectories = []\<rparr>)"
proof -
  let ?ctx = "\<lparr>rc_cwd = ''/p/q/r'', rc_home = ''/h'', rc_additionalDirectories = []\<rparr>"
  have base: "list_all proper_name [''p'', ''q'', ''r'']" "rc_cwd ?ctx = abs_path [''p'', ''q'', ''r'']"
      "list_all proper_name [''h'']" "rc_home ?ctx = abs_path [''h'']"
    by (simp_all add: proper_name_def abs_path_def)
  have t: "tokenizeWords (stripWrappers ''rm -rf ../.././'' DenyAsk) = ''rm'' # [''-rf'', ''../.././'']" by code_simp
  have o: "''../.././'' \<in> set (nonFlagOperands [''-rf'', ''../.././''])" by code_simp
  have p: "prefix (operand_names [''h''] [''p'', ''q'', ''r''] ''../.././'') [''p'', ''q'', ''r'']" by code_simp
  show ?thesis using removal_of_ancestor_critical [OF base _ _ t _ o p] rm_up_flat by simp
qed

text \<open>
  The carve-outs have exactly the documented shape. A path is in the workflow-script carve-out
  when it is the agent's project area followed by exactly two names, the two fixed names and at least one
  more name, and in the memory carve-out when exactly one name stands between; the directories
  themselves, deeper nestings and shallower paths are not in them.
\<close>

theorem carve_out_shape:
  "(isWorkflowScriptCarveOut pcwd absPath home None brand \<longleftrightarrow>
      (\<exists>key uuid below. pathSegments absPath = pathSegments (resolve1 pcwd home)
          @ [homeDirName (the_default WINTER_BRAND brand), ''projects'', key, uuid, ''workflows'', ''scripts''] @ below \<and> below \<noteq> []))
    \<and> (isMemoryCarveOut pcwd absPath home None brand \<longleftrightarrow>
      (\<exists>key below. pathSegments absPath = pathSegments (resolve1 pcwd home)
          @ [homeDirName (the_default WINTER_BRAND brand), ''projects'', key, ''memory''] @ below \<and> below \<noteq> []))"
proof -
  have two: "length ws = 2 \<longleftrightarrow> (\<exists>a b. ws = [a, b])" for ws :: "string list"
    by (auto simp: numeral_2_eq_2 length_Suc_conv)
  have one: "length ws = 1 \<longleftrightarrow> (\<exists>a. ws = [a])" for ws :: "string list"
    by (auto simp: length_Suc_conv)
  have pull: "(\<exists>ws below. P ws below \<and> (\<exists>a b. ws = [a, b]) \<and> Q below) \<longleftrightarrow> (\<exists>a b below. P [a, b] below \<and> Q below)"
    "(\<exists>ws below. P ws below \<and> (\<exists>a. ws = [a]) \<and> Q below) \<longleftrightarrow> (\<exists>a below. P [a] below \<and> Q below)"
    for P :: "string list \<Rightarrow> string list \<Rightarrow> bool" and Q by blast+
  show ?thesis
    unfolding isWorkflowScriptCarveOut_def isMemoryCarveOut_def carve_out_def matchesCarveOut_shape one two pull
      WINTER_PROJECTS_SEGMENT_def WORKFLOW_SCRIPTS_SEGMENTS_def MEMORY_SEGMENTS_def
    by simp
qed

text \<open>
  Configuration directories are protected at any depth. A write whose path (absolute and in normal form) has one of the
  protected directory names anywhere, in any letter case, is a protected write exactly when it is in neither of the two project carve-outs.
\<close>

theorem protected_directory_write:
  assumes "list_all proper_name segs" and "trim (abs_path segs) = abs_path segs"
    and "seg \<in> set segs" and "toLowerCase seg \<in> set PROTECTED_DIRECTORY_NAMES_LC"
    and "\<forall>own\<in>{projectDirName, homeDirName}. toLowerCase (own (the_default WINTER_BRAND (pc_brand ctx))) \<notin> set PROTECTED_DIRECTORY_NAMES_LC"
    and "pc_outputsDirs ctx = None"
    and "root = (case pc_storeHome ctx of Some s \<Rightarrow> Some s | None \<Rightarrow> pc_winterHome ctx)"
  shows "isProtectedWrite pcwd (abs_path segs) ctx \<longleftrightarrow>
    \<not> isWorkflowScriptCarveOut pcwd (abs_path segs) (pc_home ctx) root (Some (the_default WINTER_BRAND (pc_brand ctx)))
    \<and> \<not> isMemoryCarveOut pcwd (abs_path segs) (pc_home ctx) root (Some (the_default WINTER_BRAND (pc_brand ctx)))"
proof -
  let ?b = "the_default WINTER_BRAND (pc_brand ctx)"
  have "toLowerCase seg \<in> set (map toLowerCase segs)" using assms(3) by simp
  then have "isInsideProtectedDirectory (abs_path segs) ?b"
    unfolding isInsideProtectedDirectory_def pathSegments_abs_path [OF assms(1)]
    using assms(4,5) by (intro protected_segments_name) auto
  then have n: "protected_name (abs_path segs) ?b" by (simp add: protected_name_def)
  have a: "path_resolve pcwd (pc_cwd ctx) (abs_path segs) = abs_path segs" by (rule path_resolve_abs_path [OF assms(1)])
  show ?thesis
    unfolding isProtectedWrite_def Let_def assms(2) a using n assms(6,7) by auto
qed

theorem protected_directory_write_witness:
  "isProtectedWrite ''/'' ''/p/.GIT/config'' \<lparr>pc_cwd = ''/p'', pc_home = ''/h'', pc_winterHome = None, pc_storeHome = None,
      pc_brand = None, pc_outputsDirs = None\<rparr>"
proof -
  let ?ctx = "\<lparr>pc_cwd = ''/p'', pc_home = ''/h'', pc_winterHome = None, pc_storeHome = None, pc_brand = None, pc_outputsDirs = None\<rparr>"
  have p: "list_all proper_name [''p'', ''.GIT'', ''config'']" by (simp add: proper_name_def)
  have t: "trim (abs_path [''p'', ''.GIT'', ''config'']) = abs_path [''p'', ''.GIT'', ''config'']" by code_simp
  have i: "''.GIT'' \<in> set [''p'', ''.GIT'', ''config'']" by simp
  have l: "toLowerCase ''.GIT'' \<in> set PROTECTED_DIRECTORY_NAMES_LC" by code_simp
  have w: "toLowerCase (projectDirName WINTER_BRAND) \<notin> set PROTECTED_DIRECTORY_NAMES_LC"
    "toLowerCase (homeDirName WINTER_BRAND) \<notin> set PROTECTED_DIRECTORY_NAMES_LC" by code_simp+
  have o: "\<forall>own\<in>{projectDirName, homeDirName}. toLowerCase (own (the_default WINTER_BRAND (pc_brand ?ctx))) \<notin> set PROTECTED_DIRECTORY_NAMES_LC"
    using w by (simp add: the_default_def)
  have out: "pc_outputsDirs ?ctx = None" by simp
  have r: "None = (case pc_storeHome ?ctx of Some s \<Rightarrow> Some s | None \<Rightarrow> pc_winterHome ?ctx)" by simp
  have c: "\<not> isWorkflowScriptCarveOut ''/'' ''/p/.GIT/config'' ''/h'' None (Some WINTER_BRAND)"
    "\<not> isMemoryCarveOut ''/'' ''/p/.GIT/config'' ''/h'' None (Some WINTER_BRAND)" by code_simp+
  have "abs_path [''p'', ''.GIT'', ''config''] = ''/p/.GIT/config''" by (simp add: abs_path_def)
  with protected_directory_write [OF p t i l o out r, of "''/''"] c show ?thesis by (simp add: the_default_def)
qed


end
