(* ===== verification/Paths.thy ===== *)
theory Paths
  imports Node_Path Rule_Match
begin

text \<open>
  File patterns (\<^verbatim>\<open>permissions/paths.ts\<close>): anchors, the path glob compiler with its two caps, and
  \<open>matchFileRule\<close>. A compiled glob is the list of its atoms, matched against the whole absolute path
  as the regular expression of the source is: case-insensitively, a star staying within one name,
  a double star crossing directories. Lemmas: what a pattern matches on paths in normal form, and that
  the deny direction covers the allow direction.
\<close>

record match_file_opts =
  mf_path :: string
  mf_cwd :: string
  mf_sourceDir :: "string option"
  mf_home :: string
  mf_direction :: direction

record anchor_resolution =
  anchor_base :: string
  anchor_rest :: string

definition resolveAnchor :: "string \<Rightarrow> match_file_opts \<Rightarrow> anchor_resolution option" where
  "resolveAnchor pattern opts =
     (if startsWith pattern ''//'' then Some \<lparr>anchor_base = ''/'', anchor_rest = drop 2 pattern\<rparr>
      else if pattern = ''~'' then Some \<lparr>anchor_base = mf_home opts, anchor_rest = ''''\<rparr>
      else if startsWith pattern ''~/'' then Some \<lparr>anchor_base = mf_home opts, anchor_rest = drop 2 pattern\<rparr>
      else if startsWith pattern ''/'' then
        (case mf_sourceDir opts of
           None \<Rightarrow> None
         | Some dir \<Rightarrow> Some \<lparr>anchor_base = dir, anchor_rest = drop 1 pattern\<rparr>)
      else if startsWith pattern ''./'' then Some \<lparr>anchor_base = mf_cwd opts, anchor_rest = drop 2 pattern\<rparr>
      else Some \<lparr>anchor_base = mf_cwd opts, anchor_rest = pattern\<rparr>)"

definition stripTrailingSlash :: "string \<Rightarrow> string" where
  "stripTrailingSlash s = (if length s > 1 \<and> endsWith s ''/'' then butlast s else s)"

definition joinBaseAndRest :: "string \<Rightarrow> string \<Rightarrow> string" where
  "joinBaseAndRest base rest =
     (let stripped = stripTrailingSlash base;
          cleanBase = (if stripped = '''' then ''/'' else stripped);
          cleanRest = dropWhile (\<lambda>c. c = CHR ''/'') rest
      in if cleanRest = '''' then cleanBase
         else (if cleanBase = ''/'' then '''' else cleanBase) @ ''/'' @ cleanRest)"

fun hasUnescapedWildcard :: "string \<Rightarrow> bool" where
  "hasUnescapedWildcard [] = False"
| "hasUnescapedWildcard [ch] = (ch \<noteq> backslash \<and> ch \<in> {CHR ''*'', CHR ''?'', CHR ''[''})"
| "hasUnescapedWildcard (ch # next # s) =
     (if ch = backslash then hasUnescapedWildcard s
      else if ch = CHR ''*'' \<or> ch = CHR ''?'' \<or> ch = CHR ''['' then True
      else hasUnescapedWildcard (next # s))"

definition isSingleSegmentDirectoryPattern :: "anchor_resolution \<Rightarrow> bool" where
  "isSingleSegmentDirectoryPattern anchor =
     (let trimmed = stripTrailingSlash (anchor_rest anchor)
      in trimmed = '''' \<or> (\<not> str_includes trimmed ''/'' \<and> \<not> hasUnescapedWildcard trimmed))"

definition resolveTargetPath :: "string \<Rightarrow> string \<Rightarrow> string" where
  "resolveTargetPath path cwd =
     (let trimmed = trim path;
          abs = (if isAbsolute trimmed then trimmed else path_join [cwd, trimmed])
      in stripTrailingSlash (normalize abs))"

definition isExactOrDescendant :: "string \<Rightarrow> string \<Rightarrow> bool" where
  "isExactOrDescendant targetPath base =
     (targetPath = base \<or> startsWith targetPath (if base = ''/'' then ''/'' else base @ ''/''))"

subsection \<open>The path glob compiler\<close>

datatype class_item = One char | Range char char

datatype path_atom =
    PLit char
  | PAny                          \<comment> \<open>\<open>[^/]\<close>\<close>
  | PStar                         \<comment> \<open>\<open>[^/]*\<close>\<close>
  | PClass bool "class_item list" \<comment> \<open>negated, members\<close>
  | PBadClass                     \<comment> \<open>a class with a reversed range: the expression does not compile\<close>
  | PDeep                         \<comment> \<open>\<open>(?:/[^/]+)*\<close>\<close>
  | PDeepName                     \<comment> \<open>inside a name of the repetition\<close>

text \<open>
  The members of a character class: a dash between two characters is a range. A backslash of the
  body is doubled by \<open>sanitizeCharClassBody\<close>, so it is an ordinary member here.
\<close>

fun class_items :: "string \<Rightarrow> class_item list" where
  "class_items [] = []"
| "class_items [a] = [One a]"
| "class_items [a, b] = [One a, One b]"
| "class_items (a # b # c # s) =
     (if b = CHR ''-'' then Range a c # class_items s else One a # class_items (b # c # s))"

fun bad_range :: "class_item \<Rightarrow> bool" where
  "bad_range (One _) = False"
| "bad_range (Range a b) = ((of_char b :: nat) < of_char a)"

definition class_atom :: "string \<Rightarrow> path_atom" where
  "class_atom body =
     (let neg = startsWith body ''^''; items = class_items (if neg then drop 1 body else body)
      in if list_ex bad_range items then PBadClass else PClass neg items)"

fun globSegmentToRegexBody :: "string \<Rightarrow> path_atom list" where
  "globSegmentToRegexBody [] = []"
| "globSegmentToRegexBody (ch # s) =
     (if ch = backslash then
        (case s of
           [] \<Rightarrow> [PLit backslash]
         | next # s' \<Rightarrow>
             if next = CHR ''['' \<or> next = CHR '']'' \<or> next = CHR ''*'' then PLit next # globSegmentToRegexBody s'
             else if next = CHR ''?'' then PLit backslash # PAny # globSegmentToRegexBody s'
             else PLit backslash # globSegmentToRegexBody s)
      else if ch = CHR ''*'' then PStar # globSegmentToRegexBody s
      else if ch = CHR ''?'' then PAny # globSegmentToRegexBody s
      else if ch = CHR ''['' then
        (case indexOf s (CHR '']'') of
           None \<Rightarrow> [PClass False []]
         | Some close \<Rightarrow> class_atom (take close s) # globSegmentToRegexBody (drop (Suc close) s))
      else PLit ch # globSegmentToRegexBody s)"

definition compileFsGlobToRegex :: "string list \<Rightarrow> path_atom list option" where
  "compileFsGlobToRegex segments =
     (let atoms = concat (map (\<lambda>seg. if seg = ''**'' then [PDeep] else PLit (CHR ''/'') # globSegmentToRegexBody seg) segments)
      in if PBadClass \<in> set atoms then None else Some atoms)"

text \<open>Case folding of the \<open>i\<close> flag, on Latin-1 letters.\<close>

definition canon :: "char \<Rightarrow> char" where
  "canon c =
     (let n = of_char c :: nat
      in if (97 \<le> n \<and> n \<le> 122) \<or> (224 \<le> n \<and> n \<le> 254 \<and> n \<noteq> 247) then char_of (n - 32) else c)"

definition all_chars :: "char list" where
  "all_chars = map char_of [0..<256 :: nat]"

fun item_matches :: "char \<Rightarrow> class_item \<Rightarrow> bool" where
  "item_matches ch (One a) = (canon a = canon ch)"
| "item_matches ch (Range a b) =
     list_ex (\<lambda>c. (of_char a :: nat) \<le> of_char c \<and> (of_char c :: nat) \<le> of_char b \<and> canon c = canon ch) all_chars"

fun atom_weight :: "path_atom \<Rightarrow> nat" where
  "atom_weight PDeepName = 2"
| "atom_weight _ = 1"

function path_test :: "path_atom list \<Rightarrow> string \<Rightarrow> bool" where
  "path_test [] s = (s = [])"
| "path_test (PLit c # r) s = (case s of [] \<Rightarrow> False | d # t \<Rightarrow> canon d = canon c \<and> path_test r t)"
| "path_test (PAny # r) s = (case s of [] \<Rightarrow> False | d # t \<Rightarrow> d \<noteq> CHR ''/'' \<and> path_test r t)"
| "path_test (PStar # r) s =
     (path_test r s \<or> (case s of [] \<Rightarrow> False | d # t \<Rightarrow> d \<noteq> CHR ''/'' \<and> path_test (PStar # r) t))"
| "path_test (PClass neg items # r) s =
     (case s of [] \<Rightarrow> False | d # t \<Rightarrow> list_ex (item_matches d) items \<noteq> neg \<and> path_test r t)"
| "path_test (PBadClass # r) s = False"
| "path_test (PDeep # r) s =
     (path_test r s \<or>
      (case s of [] \<Rightarrow> False
       | d # t \<Rightarrow> d = CHR ''/'' \<and>
           (case t of [] \<Rightarrow> False | e # u \<Rightarrow> e \<noteq> CHR ''/'' \<and> path_test (PDeepName # r) u)))"
| "path_test (PDeepName # r) s =
     (path_test (PDeep # r) s \<or>
      (case s of [] \<Rightarrow> False | d # t \<Rightarrow> d \<noteq> CHR ''/'' \<and> path_test (PDeepName # r) t))"
  by pat_completeness auto
termination
  by (relation "measures [\<lambda>(r, s). length s, \<lambda>(r, s). sum_list (map atom_weight r)]")
    auto

declare path_test.simps [simp del]

subsection \<open>The caps\<close>

definition MAX_DOUBLE_STARS :: nat where
  "MAX_DOUBLE_STARS = 8"

definition MAX_STARS_PER_SEGMENT :: nat where
  "MAX_STARS_PER_SEGMENT = 8"

text \<open>A double star that follows a double star is dropped.\<close>

fun collapseConsecutiveDoubleStars :: "string list \<Rightarrow> string list" where
  "collapseConsecutiveDoubleStars (a # b # segs) =
     (if a = ''**'' \<and> b = ''**'' then collapseConsecutiveDoubleStars (b # segs)
      else a # collapseConsecutiveDoubleStars (b # segs))"
| "collapseConsecutiveDoubleStars segs = segs"

definition countStars :: "string \<Rightarrow> nat" where
  "countStars segment = length (filter (\<lambda>ch. ch = CHR ''*'') segment)"

definition exceedsStarsPerSegment :: "string list \<Rightarrow> bool" where
  "exceedsStarsPerSegment segments =
     list_ex (\<lambda>seg. seg \<noteq> ''**'' \<and> countStars seg > MAX_STARS_PER_SEGMENT) segments"

definition exceedsStarsPerSegmentCap :: "string \<Rightarrow> bool" where
  "exceedsStarsPerSegmentCap pattern =
     exceedsStarsPerSegment (collapseConsecutiveDoubleStars (split_on (CHR ''/'') pattern))"

definition doubleStarCount :: "string list \<Rightarrow> nat" where
  "doubleStarCount segments = length (filter (\<lambda>seg. seg = ''**'') segments)"

definition exceedsDoubleStarCap :: "string \<Rightarrow> bool" where
  "exceedsDoubleStarCap pattern =
     (doubleStarCount (collapseConsecutiveDoubleStars (split_on (CHR ''/'') pattern)) > MAX_DOUBLE_STARS)"

subsection \<open>Matching a pattern\<close>

definition pattern_segments :: "anchor_resolution \<Rightarrow> string list" where
  "pattern_segments anchor =
     collapseConsecutiveDoubleStars
       (split_on (CHR ''/'') (drop 1 (normalize (joinBaseAndRest (anchor_base anchor) (anchor_rest anchor)))))"

definition matchFileRule :: "string \<Rightarrow> match_file_opts \<Rightarrow> bool" where
  "matchFileRule pattern opts =
     (case resolveAnchor pattern opts of
        None \<Rightarrow> False
      | Some anchor \<Rightarrow>
          (let targetPath = resolveTargetPath (mf_path opts) (mf_cwd opts) in
           if isSingleSegmentDirectoryPattern anchor then
             (let exact = resolveTargetPath
                    (joinBaseAndRest (anchor_base anchor) (stripTrailingSlash (anchor_rest anchor))) (mf_cwd opts)
              in if mf_direction opts = Allow then targetPath = exact else isExactOrDescendant targetPath exact)
           else
             (let segments = pattern_segments anchor in
              if exceedsStarsPerSegment segments then mf_direction opts = DenyAsk
              else if doubleStarCount segments > MAX_DOUBLE_STARS then False
              else (case compileFsGlobToRegex segments of
                      None \<Rightarrow> False
                    | Some atoms \<Rightarrow> path_test atoms targetPath))))"

text \<open>The two branches of \<open>matchFileRule\<close> on their own.\<close>

definition general_match :: "anchor_resolution \<Rightarrow> string \<Rightarrow> direction \<Rightarrow> bool" where
  "general_match anchor targetPath direction =
     (let segments = pattern_segments anchor in
      if exceedsStarsPerSegment segments then direction = DenyAsk
      else if doubleStarCount segments > MAX_DOUBLE_STARS then False
      else (case compileFsGlobToRegex segments of None \<Rightarrow> False | Some atoms \<Rightarrow> path_test atoms targetPath))"

definition single_match :: "anchor_resolution \<Rightarrow> string \<Rightarrow> string \<Rightarrow> direction \<Rightarrow> bool" where
  "single_match anchor cwd targetPath direction =
     (let exact = resolveTargetPath (joinBaseAndRest (anchor_base anchor) (stripTrailingSlash (anchor_rest anchor))) cwd
      in if direction = Allow then targetPath = exact else isExactOrDescendant targetPath exact)"

lemma matchFileRule_cases:
  "matchFileRule pattern opts =
     (case resolveAnchor pattern opts of
        None \<Rightarrow> False
      | Some anchor \<Rightarrow>
          (if isSingleSegmentDirectoryPattern anchor
           then single_match anchor (mf_cwd opts) (resolveTargetPath (mf_path opts) (mf_cwd opts)) (mf_direction opts)
           else general_match anchor (resolveTargetPath (mf_path opts) (mf_cwd opts)) (mf_direction opts)))"
  unfolding matchFileRule_def single_match_def general_match_def Let_def ..

lemma general_allow_deny: "general_match a t Allow \<Longrightarrow> general_match a t DenyAsk"
  by (simp add: general_match_def Let_def split: if_splits)

lemma single_allow_deny: "single_match a c t Allow \<Longrightarrow> single_match a c t DenyAsk"
  by (simp add: single_match_def isExactOrDescendant_def Let_def)

lemma resolveAnchor_direction [simp]: "resolveAnchor pattern (opts\<lparr>mf_direction := d\<rparr>) = resolveAnchor pattern opts"
  "resolveAnchor pattern (opts\<lparr>mf_path := p\<rparr>) = resolveAnchor pattern opts"
  by (simp_all add: resolveAnchor_def)

interpretation file_rule: direction_matcher "\<lambda>pattern opts d. matchFileRule pattern (opts\<lparr>mf_direction := d\<rparr>)"
proof unfold_locales
  fix pattern opts
  assume "matchFileRule pattern (opts\<lparr>mf_direction := Allow\<rparr>)"
  then show "matchFileRule pattern (opts\<lparr>mf_direction := DenyAsk\<rparr>)"
    by (cases "resolveAnchor pattern opts")
      (auto simp: matchFileRule_cases intro: general_allow_deny single_allow_deny split: if_splits)
qed

subsection \<open>Matching a compiled glob name by name\<close>

fun path_of :: "string list \<Rightarrow> string" where
  "path_of [] = []"
| "path_of (seg # segs) = CHR ''/'' # seg @ path_of segs"

lemma abs_path_path_of: "segs \<noteq> [] \<Longrightarrow> abs_path segs = path_of segs"
proof (induction segs)
  case (Cons a segs)
  then show ?case by (cases segs) (auto simp: abs_path_def)
qed simp

lemma canon_slash: "canon c = canon (CHR ''/'') \<longleftrightarrow> c = CHR ''/''"
proof
  assume "canon c = canon (CHR ''/'')"
  then have e: "canon c = CHR ''/''" by (simp add: canon_def)
  show "c = CHR ''/''"
  proof (cases "(97 \<le> (of_char c :: nat) \<and> of_char c \<le> (122 :: nat)) \<or>
      (224 \<le> (of_char c :: nat) \<and> of_char c \<le> (254 :: nat) \<and> of_char c \<noteq> (247 :: nat))")
    case True
    then have "char_of ((of_char c :: nat) - 32) = CHR ''/''" using e by (simp add: canon_def Let_def)
    then have "(of_char (char_of ((of_char c :: nat) - 32) :: char) :: nat) = of_char (CHR ''/'')" by (simp only:)
    with True show ?thesis by auto
  next
    case False
    then have "canon c = c" unfolding canon_def Let_def by (rule if_not_P)
    with e show ?thesis by simp
  qed
qed simp

text \<open>A rest of a glob that only accepts at the end of a name.\<close>

definition boundary :: "path_atom list \<Rightarrow> bool" where
  "boundary r \<longleftrightarrow> (\<forall>t. path_test r t \<longrightarrow> t = [] \<or> hd t = CHR ''/'')"

lemma boundaryD: "boundary r \<Longrightarrow> c \<noteq> CHR ''/'' \<Longrightarrow> \<not> path_test r (c # t)"
  by (auto simp: boundary_def)

lemma boundary_Nil [intro]: "boundary []"
  by (simp add: boundary_def path_test.simps)

lemma boundary_slash [intro]: "boundary (PLit (CHR ''/'') # r)"
  by (auto simp: boundary_def path_test.simps canon_slash split: list.splits)

lemma boundary_PDeep [intro]: "boundary r \<Longrightarrow> boundary (PDeep # r)"
  by (auto simp: boundary_def path_test.simps(7) split: list.splits)

lemma path_test_literal:
  "path_test (map PLit a @ r) s \<longleftrightarrow> (\<exists>u t. s = u @ t \<and> map canon u = map canon a \<and> path_test r t)"
proof (induction a arbitrary: s)
  case (Cons c a)
  show ?case
  proof (cases s)
    case (Cons d s')
    have "path_test (map PLit (c # a) @ r) s \<longleftrightarrow>
        canon d = canon c \<and> (\<exists>u t. s' = u @ t \<and> map canon u = map canon a \<and> path_test r t)"
      using Cons.IH by (simp add: path_test.simps Cons)
    also have "\<dots> \<longleftrightarrow> (\<exists>u t. s = (d # u) @ t \<and> map canon (d # u) = map canon (c # a) \<and> path_test r t)"
      by (auto simp: Cons)
    also have "\<dots> \<longleftrightarrow> (\<exists>u t. s = u @ t \<and> map canon u = map canon (c # a) \<and> path_test r t)"
      unfolding Cons by (metis append_Cons list.inject list.map_disc_iff list.distinct(1) list.exhaust)
    finally show ?thesis .
  qed (simp add: path_test.simps)
qed simp

lemma map_canon_slash: "map canon u = map canon a \<Longrightarrow> CHR ''/'' \<notin> set a \<Longrightarrow> CHR ''/'' \<notin> set u"
proof
  assume m: "map canon u = map canon a" "CHR ''/'' \<notin> set a" "CHR ''/'' \<in> set u"
  then have "canon (CHR ''/'') \<in> set (map canon a)" by (metis image_eqI set_map)
  then obtain x where "x \<in> set a" "canon x = canon (CHR ''/'')" by auto
  with m(2) show False by (simp add: canon_slash)
qed

lemma path_test_name:
  assumes "boundary r" "CHR ''/'' \<notin> set a" "CHR ''/'' \<notin> set seg"
  shows "path_test (map PLit a @ r) (seg @ path_of segs) \<longleftrightarrow>
    map canon seg = map canon a \<and> path_test r (path_of segs)"
proof
  assume "path_test (map PLit a @ r) (seg @ path_of segs)"
  then obtain u t where ut: "seg @ path_of segs = u @ t" "map canon u = map canon a" "path_test r t"
    by (auto simp: path_test_literal)
  have u: "CHR ''/'' \<notin> set u" using map_canon_slash ut(2) assms(2) by blast
  from ut(1) obtain w where "seg = u @ w \<and> t = w @ path_of segs \<or> u = seg @ w \<and> path_of segs = w @ t"
    by (auto simp: append_eq_append_conv2)
  then show "map canon seg = map canon a \<and> path_test r (path_of segs)"
  proof
    assume w: "seg = u @ w \<and> t = w @ path_of segs"
    have "w = []"
    proof (cases w)
      case (Cons x w')
      then have "x \<noteq> CHR ''/''" using w assms(3) by auto
      from boundaryD [OF assms(1) this, of "w' @ path_of segs"] show ?thesis using Cons w ut(3) by simp
    qed
    with w ut show ?thesis by simp
  next
    assume w: "u = seg @ w \<and> path_of segs = w @ t"
    then have "w = []" using u by (cases segs) (auto simp: Cons_eq_append_conv)
    with w ut show ?thesis by simp
  qed
qed (auto simp: path_test_literal)

lemma path_test_star:
  assumes "boundary r" "CHR ''/'' \<notin> set seg"
  shows "path_test (PStar # r) (seg @ path_of segs) \<longleftrightarrow> path_test r (path_of segs)"
  using assms(2)
proof (induction seg)
  case Nil
  then show ?case by (cases segs) (simp_all add: path_test.simps(4))
next
  case (Cons c seg)
  then have c: "c \<noteq> CHR ''/''" "CHR ''/'' \<notin> set seg" by auto
  have "path_test (PStar # r) ((c # seg) @ path_of segs) \<longleftrightarrow> path_test (PStar # r) (seg @ path_of segs)"
    using boundaryD [OF assms(1) c(1), of "seg @ path_of segs"] c(1) by (subst path_test.simps(4)) simp
  with Cons.IH [OF c(2)] show ?case by (simp only:)
qed

lemma path_test_deep_name:
  assumes "boundary r" "CHR ''/'' \<notin> set seg"
  shows "path_test (PDeepName # r) (seg @ path_of segs) \<longleftrightarrow> path_test (PDeep # r) (path_of segs)"
  using assms(2)
proof (induction seg)
  case Nil
  then show ?case by (cases segs) (simp_all add: path_test.simps(8))
next
  case (Cons c seg)
  then have c: "c \<noteq> CHR ''/''" "CHR ''/'' \<notin> set seg" by auto
  have "path_test (PDeepName # r) ((c # seg) @ path_of segs) \<longleftrightarrow> path_test (PDeepName # r) (seg @ path_of segs)"
    using boundaryD [OF boundary_PDeep [OF assms(1)] c(1), of "seg @ path_of segs"] c(1)
    by (subst path_test.simps(8)) simp
  with Cons.IH [OF c(2)] show ?case by (simp only:)
qed

lemma path_test_deep:
  assumes "boundary r" "list_all proper_name segs"
  shows "path_test (PDeep # r) (path_of segs) \<longleftrightarrow> (\<exists>k\<le>length segs. path_test r (path_of (drop k segs)))"
  using assms(2)
proof (induction segs)
  case Nil
  then show ?case by (simp add: path_test.simps(7))
next
  case (Cons seg segs)
  obtain c seg' where seg: "seg = c # seg'" using Cons.prems by (cases seg) (auto simp: proper_name_def)
  have ns: "c \<noteq> CHR ''/''" "CHR ''/'' \<notin> set seg'" using Cons.prems seg by (auto simp: proper_name_def)
  have "path_test (PDeep # r) (path_of (seg # segs)) \<longleftrightarrow>
      path_test r (path_of (seg # segs)) \<or> path_test (PDeep # r) (path_of segs)"
    using ns(1) path_test_deep_name [OF assms(1) ns(2), of segs] by (subst path_test.simps(7)) (simp add: seg)
  also have "\<dots> \<longleftrightarrow> path_test r (path_of (drop 0 (seg # segs)))
      \<or> (\<exists>k\<le>length segs. path_test r (path_of (drop (Suc k) (seg # segs))))"
    using Cons by simp
  also have "\<dots> \<longleftrightarrow> (\<exists>k\<le>length (seg # segs). path_test r (path_of (drop k (seg # segs))))"
    by (metis (no_types, lifting) Suc_le_mono le0 length_Cons not0_implies_Suc)
  finally show ?case .
qed

subsection \<open>Patterns of plain names\<close>

definition plain_seg :: "string \<Rightarrow> bool" where
  "plain_seg seg \<longleftrightarrow> proper_name seg \<and> list_all (\<lambda>c. c \<notin> {backslash, CHR ''*'', CHR ''?'', CHR ''[''}) seg"

lemma plain_seg_proper: "list_all plain_seg segs \<Longrightarrow> list_all proper_name segs"
  by (auto simp: list_all_iff plain_seg_def)

lemma globSegment_plain: "plain_seg seg \<Longrightarrow> globSegmentToRegexBody seg = map PLit seg"
proof -
  have "list_all (\<lambda>c. c \<notin> {backslash, CHR ''*'', CHR ''?'', CHR ''[''}) s \<Longrightarrow> globSegmentToRegexBody s = map PLit s" for s
    by (induction s) auto
  then show "plain_seg seg \<Longrightarrow> globSegmentToRegexBody seg = map PLit seg" by (simp add: plain_seg_def)
qed

lemma plain_seg_no_star: "plain_seg seg \<Longrightarrow> CHR ''*'' \<notin> set seg"
  by (auto simp: plain_seg_def list_all_iff)

lemma plain_seg_no_slash: "plain_seg seg \<Longrightarrow> CHR ''/'' \<notin> set seg"
  by (auto simp: plain_seg_def proper_name_def)

lemma plain_not_deep: "plain_seg seg \<Longrightarrow> seg \<noteq> ''**''"
  using plain_seg_no_star by force

definition name_atoms :: "string \<Rightarrow> path_atom list" where
  "name_atoms seg = PLit (CHR ''/'') # map PLit seg"

lemma name_atoms_ok: "PBadClass \<notin> set (name_atoms seg)"
  by (auto simp: name_atoms_def)

lemma compile_plain:
  assumes "list_all plain_seg segs"
  shows "concat (map (\<lambda>seg. if seg = ''**'' then [PDeep] else PLit (CHR ''/'') # globSegmentToRegexBody seg) segs)
    = concat (map name_atoms segs)"
  using assms by (induction segs) (auto simp: name_atoms_def globSegment_plain plain_not_deep)

lemma compile_plain_append:
  assumes "list_all plain_seg segs"
  shows "compileFsGlobToRegex (segs @ [''**'']) = Some (concat (map name_atoms segs) @ [PDeep])"
    and "compileFsGlobToRegex (segs @ [''*'']) = Some (concat (map name_atoms segs) @ [PLit (CHR ''/''), PStar])"
  using compile_plain [OF assms] name_atoms_ok by (auto simp: compileFsGlobToRegex_def Let_def backslash_def)

lemma boundary_names: "boundary r \<Longrightarrow> boundary (concat (map name_atoms segs) @ r)"
  by (cases segs) (auto simp: name_atoms_def)

lemma path_test_name_atoms:
  assumes "boundary r" "plain_seg a" "proper_name seg"
  shows "path_test (name_atoms a @ r) (path_of (seg # segs)) \<longleftrightarrow> map canon seg = map canon a \<and> path_test r (path_of segs)"
proof -
  have "path_test (name_atoms a @ r) (path_of (seg # segs)) = path_test (map PLit a @ r) (seg @ path_of segs)"
    by (simp add: name_atoms_def path_test.simps(2))
  then show ?thesis
    using path_test_name [OF assms(1) plain_seg_no_slash [OF assms(2)], of seg segs] assms(3) by (simp add: proper_name_def)
qed

lemma path_test_names:
  assumes "boundary r" "list_all plain_seg dir" "list_all proper_name segs"
  shows "path_test (concat (map name_atoms dir) @ r) (path_of segs) \<longleftrightarrow>
    length dir \<le> length segs \<and> map (map canon) (take (length dir) segs) = map (map canon) dir
    \<and> path_test r (path_of (drop (length dir) segs))"
  using assms(2,3)
proof (induction dir arbitrary: segs)
  case (Cons a dir)
  show ?case
  proof (cases segs)
    case Nil
    then show ?thesis by (simp add: name_atoms_def path_test.simps(2))
  next
    case (Cons seg segs')
    with Cons.prems have "path_test (concat (map name_atoms (a # dir)) @ r) (path_of segs) \<longleftrightarrow>
        map canon seg = map canon a \<and> path_test (concat (map name_atoms dir) @ r) (path_of segs')"
      using path_test_name_atoms [OF boundary_names [OF assms(1)], of a seg dir segs'] by simp
    with Cons.IH [of segs'] Cons.prems Cons show ?thesis by auto
  qed
qed simp

lemma join_names_hd: "list_all proper_name segs \<Longrightarrow> segs \<noteq> [] \<Longrightarrow> hd (join_with ''/'' segs) \<noteq> CHR ''/'' \<and> join_with ''/'' segs \<noteq> []"
  by (cases segs; cases "tl segs"; cases "hd segs") (auto simp: proper_name_def)

lemma stripTrailingSlash_abs: "list_all proper_name segs \<Longrightarrow> stripTrailingSlash (abs_path segs) = abs_path segs"
  using abs_path_no_trailing(1) [of segs] by (cases "segs = []") (auto simp: stripTrailingSlash_def abs_path_def)

lemma joinBaseAndRest_abs:
  assumes "list_all proper_name base" "list_all proper_name segs" "segs \<noteq> []"
  shows "joinBaseAndRest (abs_path base) (join_with ''/'' segs) = abs_path (base @ segs)"
proof -
  have "dropWhile (\<lambda>c. c = CHR ''/'') (join_with ''/'' segs) = join_with ''/'' segs" "join_with ''/'' segs \<noteq> []"
    using join_names_hd [OF assms(2,3)] by (auto simp: dropWhile_eq_self_iff)
  moreover have "abs_path base \<noteq> []" by (simp add: abs_path_def)
  moreover have "base \<noteq> [] \<Longrightarrow> abs_path base \<noteq> ''/''"
    using abs_path_no_trailing(2) [OF assms(1)] by (auto simp: abs_path_def)
  ultimately show ?thesis
    using stripTrailingSlash_abs [OF assms(1)] abs_path_append [of base segs] assms(3)
    by (cases "base = []") (auto simp: joinBaseAndRest_def Let_def abs_path_def)
qed

lemma pattern_segments_abs:
  assumes "list_all proper_name base" "list_all proper_name segs" "segs \<noteq> []"
  shows "pattern_segments \<lparr>anchor_base = abs_path base, anchor_rest = join_with ''/'' segs\<rparr>
    = collapseConsecutiveDoubleStars (base @ segs)"
proof -
  have "list_all proper_name (base @ segs)" using assms by simp
  moreover from this have "split_on (CHR ''/'') (join_with ''/'' (base @ segs)) = base @ segs"
    using assms(3) by (intro split_on_join_with) (auto simp: list_all_iff proper_name_def)
  ultimately show ?thesis
    using normalize_abs_path [of "base @ segs"] joinBaseAndRest_abs [OF assms]
    by (simp add: pattern_segments_def abs_path_def)
qed

lemma collapse_plain:
  "list_all plain_seg segs \<Longrightarrow> collapseConsecutiveDoubleStars (segs @ [x]) = segs @ [x]"
proof (induction segs)
  case (Cons a segs)
  then show ?case using plain_not_deep by (cases "segs @ [x]") auto
qed simp

lemma plain_within_caps:
  assumes "list_all plain_seg segs" "x = ''**'' \<or> x = ''*''"
  shows "\<not> exceedsStarsPerSegment (segs @ [x])" "\<not> doubleStarCount (segs @ [x]) > MAX_DOUBLE_STARS"
proof -
  have "countStars seg = 0" "seg \<noteq> ''**''" if "seg \<in> set segs" for seg
    using that assms(1) plain_seg_no_star plain_not_deep by (auto simp: list_all_iff countStars_def filter_empty_conv)
  then show "\<not> exceedsStarsPerSegment (segs @ [x])" "\<not> doubleStarCount (segs @ [x]) > MAX_DOUBLE_STARS"
    using assms(2) by (auto simp: exceedsStarsPerSegment_def doubleStarCount_def MAX_DOUBLE_STARS_def
        MAX_STARS_PER_SEGMENT_def list_ex_iff countStars_def cong: filter_cong)
qed

lemma resolveTargetPath_abs:
  "list_all proper_name segs \<Longrightarrow> trim (abs_path segs) = abs_path segs \<Longrightarrow> resolveTargetPath (abs_path segs) cwd = abs_path segs"
  by (simp add: resolveTargetPath_def Let_def normalize_abs_path stripTrailingSlash_abs)
    (simp add: isAbsolute_def abs_path_def startsWith_def)

lemma startsWith_name_slash: "CHR ''/'' \<notin> set d \<Longrightarrow> d \<noteq> [] \<Longrightarrow> startsWith (d @ CHR ''/'' # s) [x, CHR ''/''] \<longleftrightarrow> d = [x]"
  by (cases d; cases "tl d") (auto simp: startsWith_def)

text \<open>A pattern below the working directory: at least one plain name, then a star or a double star.\<close>

lemma below_cwd_anchor:
  assumes "list_all plain_seg dir" "dir \<noteq> []" "hd dir \<noteq> ''~''" "x = ''**'' \<or> x = ''*''"
  shows "resolveAnchor (join_with ''/'' (dir @ [x])) opts = Some \<lparr>anchor_base = mf_cwd opts, anchor_rest = join_with ''/'' (dir @ [x])\<rparr>"
    and "\<not> isSingleSegmentDirectoryPattern \<lparr>anchor_base = b, anchor_rest = join_with ''/'' (dir @ [x])\<rparr>"
proof -
  obtain d ds where d: "dir = d # ds" using assms(2) by (cases dir) auto
  obtain s where s: "join_with ''/'' (dir @ [x]) = d @ CHR ''/'' # s" by (cases ds) (auto simp: d)
  have pd: "d \<noteq> []" "d \<noteq> ''.''" "CHR ''/'' \<notin> set d" "d \<noteq> ''~''"
    using assms(1,3) d by (auto simp: plain_seg_def proper_name_def)
  have "\<not> startsWith (d @ CHR ''/'' # s) ''/''" "d @ CHR ''/'' # s \<noteq> ''~''"
    using pd by (cases d; simp add: startsWith_def; fastforce)+
  moreover from this have "\<not> startsWith (d @ CHR ''/'' # s) ''//''" by (cases d) (auto simp: startsWith_def)
  ultimately show "resolveAnchor (join_with ''/'' (dir @ [x])) opts = Some \<lparr>anchor_base = mf_cwd opts, anchor_rest = join_with ''/'' (dir @ [x])\<rparr>"
    using startsWith_name_slash [OF pd(3,1), of s] pd(2,4) by (simp add: s resolveAnchor_def)
  have "\<not> endsWith (join_with ''/'' (dir @ [x])) ''/''"
    using join_with_last [of "dir @ [x]" "''/''"] assms(4)
    by (cases "join_with ''/'' (dir @ [x])" rule: rev_cases) (auto simp: endsWith_iff_suffix suffix_def)
  then have "stripTrailingSlash (join_with ''/'' (dir @ [x])) = d @ CHR ''/'' # s"
    by (simp add: stripTrailingSlash_def s)
  then show "\<not> isSingleSegmentDirectoryPattern \<lparr>anchor_base = b, anchor_rest = join_with ''/'' (dir @ [x])\<rparr>"
    by (simp add: isSingleSegmentDirectoryPattern_def Let_def)
qed

lemma below_cwd_match:
  assumes "list_all plain_seg base" "list_all plain_seg dir" "dir \<noteq> []" "hd dir \<noteq> ''~''" "x = ''**'' \<or> x = ''*''"
    and "mf_cwd opts = abs_path base" "mf_path opts = abs_path segs"
    and "list_all proper_name segs" "trim (abs_path segs) = abs_path segs"
    and "compileFsGlobToRegex ((base @ dir) @ [x]) = Some atoms"
  shows "matchFileRule (join_with ''/'' (dir @ [x])) opts = path_test atoms (abs_path segs)"
proof -
  have p: "list_all proper_name base" "list_all proper_name (dir @ [x])" "list_all plain_seg (base @ dir)"
    using assms(1,2,5) plain_seg_proper by (auto simp: proper_name_def)
  have "pattern_segments \<lparr>anchor_base = abs_path base, anchor_rest = join_with ''/'' (dir @ [x])\<rparr> = (base @ dir) @ [x]"
    using pattern_segments_abs [OF p(1,2)] collapse_plain [OF p(3), of x] by simp
  then show ?thesis
    using below_cwd_anchor [OF assms(2-5)] plain_within_caps [OF p(3) assms(5)] assms(6-10)
    by (simp add: matchFileRule_cases general_match_def Let_def resolveTargetPath_abs)
qed

lemma trim_abs_snoc:
  assumes "trim name = name" "name \<noteq> []"
  shows "trim (abs_path (base @ [name])) = abs_path (base @ [name])"
proof -
  have "\<not> is_ws (last name)" using trim_last [of name] assms by simp
  moreover have "last (abs_path (base @ [name])) = last name"
    using join_with_last [of "base @ [name]" "''/''"] assms(2) by (simp add: abs_path_def)
  moreover have "\<not> is_ws (hd (abs_path (base @ [name])))" "abs_path (base @ [name]) \<noteq> []"
    by (simp_all add: abs_path_def is_ws_def)
  ultimately have "dropWhile is_ws (abs_path (base @ [name])) = abs_path (base @ [name])"
    "dropWhile is_ws (rev (abs_path (base @ [name]))) = rev (abs_path (base @ [name]))"
    by (auto simp: dropWhile_eq_self_iff hd_rev)
  then show ?thesis by (simp add: trim_def)
qed

lemma isExactOrDescendant_abs:
  assumes "list_all proper_name segs" "list_all proper_name base"
  shows "isExactOrDescendant (abs_path segs) (abs_path base) \<longleftrightarrow> prefix base segs"
proof (cases "base = []")
  case True
  then show ?thesis by (simp add: isExactOrDescendant_def abs_path_def startsWith_def)
next
  case False
  have root: "abs_path base \<noteq> ''/''" using abs_path_no_trailing(2) [OF assms(2) False] by auto
  show ?thesis
  proof
    assume "prefix base segs"
    then obtain r where r: "segs = base @ r" by (auto simp: prefix_def)
    show "isExactOrDescendant (abs_path segs) (abs_path base)"
      using root False abs_path_append [of base r]
      by (cases "r = []") (auto simp: isExactOrDescendant_def r startsWith_iff_prefix prefix_def)
  next
    assume "isExactOrDescendant (abs_path segs) (abs_path base)"
    then consider "abs_path segs = abs_path base" | u where "abs_path segs = abs_path base @ ''/'' @ u"
      using root by (auto simp: isExactOrDescendant_def startsWith_iff_prefix prefix_def)
    then show "prefix base segs"
    proof cases
      case 1
      then show ?thesis using abs_path_inj assms by auto
    next
      case 2
      have "segs \<noteq> []" using 2 root by (cases "segs = []") (auto simp: abs_path_def Cons_eq_append_conv)
      then have "[] # segs = split_on (CHR ''/'') (abs_path base @ ''/'' @ u)"
        using split_abs_path [OF assms(1)] 2 by simp
      also have "\<dots> = split_on (CHR ''/'') (abs_path base) @ split_on (CHR ''/'') u"
        using split_on_append_sep [of "CHR ''/''" "abs_path base" u] by simp
      finally show ?thesis using split_abs_path [OF assms(2) False] by (auto simp: prefix_def)
    qed
  qed
qed

subsection \<open>Properties\<close>

text \<open>
  The deny direction of a file pattern covers the allow direction: whatever the pattern, the
  path and the directories, a call an allow rule of that pattern matches is also matched by a deny
  or ask rule of the same pattern, the capped patterns included.
\<close>

theorem matchFileRule_deny_covers_allow:
  assumes "matchFileRule pattern (opts\<lparr>mf_direction := Allow\<rparr>)"
  shows "matchFileRule pattern (opts\<lparr>mf_direction := DenyAsk\<rparr>)"
  using assms by (rule file_rule.allow_deny)

theorem matchFileRule_deny_covers_allow_witness:
  "matchFileRule ''build'' (\<lparr>mf_path = ''/p/build'', mf_cwd = ''/p'', mf_sourceDir = None, mf_home = ''/h'',
      mf_direction = DenyAsk\<rparr>)"
proof -
  let ?o = "\<lparr>mf_path = ''/p/build'', mf_cwd = ''/p'', mf_sourceDir = None, mf_home = ''/h'', mf_direction = Allow\<rparr>"
  have "matchFileRule ''build'' (?o\<lparr>mf_direction := Allow\<rparr>)" by code_simp
  from matchFileRule_deny_covers_allow [OF this] show ?thesis by simp
qed

text \<open>
  A bare name is shallow for an allow rule and deep for a deny or ask rule. Below a working
  directory, the pattern of one plain name matches as an allow exactly that entry, and as a
  deny or ask exactly that entry and everything beneath it.
\<close>

theorem matchFileRule_bare_name:
  assumes "list_all proper_name base" and "plain_seg name" and "name \<noteq> ''~''" and "trim name = name"
    and "list_all proper_name segs" and "trim (abs_path segs) = abs_path segs"
    and "mf_cwd opts = abs_path base" and "mf_path opts = abs_path segs"
  shows "matchFileRule name opts =
    (if mf_direction opts = Allow then segs = base @ [name] else prefix (base @ [name]) segs)"
proof -
  have n: "proper_name name" "name \<noteq> []" using assms(2) by (auto simp: plain_seg_def proper_name_def)
  have ns: "CHR ''/'' \<notin> set name" using n(1) by (simp add: proper_name_def)
  have strip: "stripTrailingSlash name = name"
    using ns by (auto simp: stripTrailingSlash_def endsWith_iff_suffix suffix_def)
  have sw: "\<not> startsWith name (x # ''/'')" "\<not> startsWith name ''/''" for x
    using ns by (auto simp: startsWith_iff_prefix prefix_def)
  have anchor: "resolveAnchor name opts = Some \<lparr>anchor_base = abs_path base, anchor_rest = name\<rparr>"
    using sw assms(3,7) by (simp add: resolveAnchor_def)
  have "\<not> hasUnescapedWildcard s" if "list_all (\<lambda>c. c \<notin> {backslash, CHR ''*'', CHR ''?'', CHR ''[''}) s" for s
    using that by (induction s rule: hasUnescapedWildcard.induct) auto
  then have single: "isSingleSegmentDirectoryPattern \<lparr>anchor_base = abs_path base, anchor_rest = name\<rparr>"
    using assms(2) ns by (simp add: isSingleSegmentDirectoryPattern_def Let_def strip plain_seg_def)
  have full: "list_all proper_name (base @ [name])" using assms(1) n(1) by simp
  have "joinBaseAndRest (abs_path base) name = abs_path (base @ [name])"
    using joinBaseAndRest_abs [OF assms(1), of "[name]"] n by simp
  moreover have "resolveTargetPath (abs_path (base @ [name])) (abs_path base) = abs_path (base @ [name])"
    by (intro resolveTargetPath_abs full trim_abs_snoc assms(4) n(2))
  ultimately have "matchFileRule name opts =
      (if mf_direction opts = Allow then abs_path segs = abs_path (base @ [name])
       else isExactOrDescendant (abs_path segs) (abs_path (base @ [name])))"
    using anchor single assms(5-8)
    by (simp add: matchFileRule_cases single_match_def Let_def strip resolveTargetPath_abs)
  then show ?thesis
    using abs_path_inj [OF assms(5) full] isExactOrDescendant_abs [OF assms(5) full] by simp
qed

theorem matchFileRule_bare_name_witness:
  "matchFileRule ''build'' \<lparr>mf_path = abs_path [''p'', ''build'', ''x''], mf_cwd = abs_path [''p''], mf_sourceDir = None,
      mf_home = ''/h'', mf_direction = DenyAsk\<rparr>
    \<and> \<not> matchFileRule ''build'' \<lparr>mf_path = abs_path [''p'', ''build'', ''x''], mf_cwd = abs_path [''p''], mf_sourceDir = None,
      mf_home = ''/h'', mf_direction = Allow\<rparr>"
proof -
  have h: "list_all proper_name [''p'']" "plain_seg ''build''" "trim ''build'' = ''build''"
    "list_all proper_name [''p'', ''build'', ''x'']"
    "trim (abs_path [''p'', ''build'', ''x'']) = abs_path [''p'', ''build'', ''x'']"
    by (simp_all add: proper_name_def plain_seg_def backslash_def trim_def abs_path_def is_ws_def)
  show ?thesis
    using matchFileRule_bare_name [OF h(1,2) _ h(3-5)] by simp
qed

text \<open>
  C30: a double star crosses directories and a single star does not. Below a working directory of
  plain names, the pattern of a directory followed by a double star matches exactly the directory and
  every path beneath it, and the one followed by a single star exactly the paths one level beneath
  it, in either direction; names are compared without regard to case.
\<close>

theorem matchFileRule_stars:
  assumes "list_all plain_seg base" and "list_all plain_seg dir" and "dir \<noteq> []" and "hd dir \<noteq> ''~''"
    and "mf_cwd opts = abs_path base" and "mf_path opts = abs_path segs"
    and "list_all proper_name segs" and "segs \<noteq> []" and "trim (abs_path segs) = abs_path segs"
  shows "(matchFileRule (join_with ''/'' (dir @ [''**''])) opts \<longleftrightarrow>
      length (base @ dir) \<le> length segs
      \<and> map (map canon) (take (length (base @ dir)) segs) = map (map canon) (base @ dir))
    \<and> (matchFileRule (join_with ''/'' (dir @ [''*''])) opts \<longleftrightarrow>
      length segs = Suc (length (base @ dir))
      \<and> map (map canon) (take (length (base @ dir)) segs) = map (map canon) (base @ dir))"
proof -
  let ?n = "length (base @ dir)"
  have p: "list_all plain_seg (base @ dir)" using assms by simp
  note m = below_cwd_match [OF assms(1-4) _ assms(5-7) assms(9)]
  note names = path_test_names [OF _ p assms(7)]
  have "path_test [PDeep] (path_of u)" if "list_all proper_name u" for u
    using path_test_deep [OF boundary_Nil that] by (auto simp: path_test.simps(1) intro!: exI [of _ "length u"])
  moreover have "path_test [PLit (CHR ''/''), PStar] (path_of u) \<longleftrightarrow> length u = 1" if "list_all proper_name u" for u
  proof (cases u)
    case (Cons a v)
    then have "CHR ''/'' \<notin> set a" using that by (simp add: proper_name_def)
    from path_test_star [OF boundary_Nil this, of v] Cons show ?thesis
      by (cases v) (simp_all add: path_test.simps(1,2))
  qed (simp add: path_test.simps(2))
  moreover have "list_all proper_name (drop ?n segs)" using assms(7) by (auto simp: list_all_iff dest: in_set_dropD)
  ultimately show ?thesis
    using m [OF _ compile_plain_append(1) [OF p]] m [OF _ compile_plain_append(2) [OF p]]
      names [OF boundary_PDeep [OF boundary_Nil]] names [OF boundary_slash] abs_path_path_of [OF assms(8)]
    by auto
qed

theorem matchFileRule_stars_witness:
  "matchFileRule (join_with ''/'' ([''src''] @ [''**''])) \<lparr>mf_path = abs_path [''p'', ''SRC'', ''a'', ''b''], mf_cwd = abs_path [''p''],
      mf_sourceDir = None, mf_home = ''/h'', mf_direction = Allow\<rparr>
    \<and> \<not> matchFileRule (join_with ''/'' ([''src''] @ [''*''])) \<lparr>mf_path = abs_path [''p'', ''SRC'', ''a'', ''b''],
      mf_cwd = abs_path [''p''], mf_sourceDir = None, mf_home = ''/h'', mf_direction = Allow\<rparr>"
proof -
  let ?s = "[''p'', ''SRC'', ''a'', ''b'']"
  have h: "list_all plain_seg [''p'']" "list_all plain_seg [''src'']" "list_all proper_name ?s" "trim (abs_path ?s) = abs_path ?s"
    by (simp_all add: proper_name_def plain_seg_def backslash_def trim_def abs_path_def is_ws_def)
  have c: "map (map canon) [''p'', ''SRC''] = map (map canon) [''p'', ''src'']" by code_simp
  show ?thesis
    using matchFileRule_stars [OF h(1,2) _ _ _ _ h(3) _ h(4)] c by simp
qed

text \<open>
  A pattern over the same-segment star cap fails safe. When a name of the anchored pattern has
  more stars than the cap, an allow rule with that pattern matches nothing and a deny or ask rule
  matches every path.
\<close>

theorem star_cap_fails_safe:
  assumes "resolveAnchor pattern opts = Some anchor" and "\<not> isSingleSegmentDirectoryPattern anchor"
    and "exceedsStarsPerSegment (pattern_segments anchor)"
  shows "matchFileRule pattern opts \<longleftrightarrow> mf_direction opts = DenyAsk"
  using assms by (simp add: matchFileRule_cases general_match_def Let_def)

theorem star_cap_fails_safe_witness:
  "matchFileRule ''x*********'' \<lparr>mf_path = ''/q'', mf_cwd = ''/p'', mf_sourceDir = None, mf_home = ''/h'', mf_direction = DenyAsk\<rparr>"
proof -
  let ?o = "\<lparr>mf_path = ''/q'', mf_cwd = ''/p'', mf_sourceDir = None, mf_home = ''/h'', mf_direction = DenyAsk\<rparr>"
  have "resolveAnchor ''x*********'' ?o = Some \<lparr>anchor_base = ''/p'', anchor_rest = ''x*********''\<rparr>"
    "\<not> isSingleSegmentDirectoryPattern \<lparr>anchor_base = ''/p'', anchor_rest = ''x*********''\<rparr>"
    "exceedsStarsPerSegment (pattern_segments \<lparr>anchor_base = ''/p'', anchor_rest = ''x*********''\<rparr>)"
    by code_simp+
  from star_cap_fails_safe [OF this] show ?thesis by simp
qed

text \<open>
  The working directory is read as part of the glob. When a directory name holds a bracket, as
  in a project directory named \<open>[id]\<close>, a pattern anchored there does not match the files under it:
  a deny rule on everything below a subdirectory does not cover a file that lies there.
\<close>

theorem cwd_read_as_glob:
  "\<not> matchFileRule ''keys/**'' \<lparr>mf_path = ''/app/[id]/keys/a'', mf_cwd = ''/app/[id]'', mf_sourceDir = None,
      mf_home = ''/h'', mf_direction = DenyAsk\<rparr>
    \<and> matchFileRule ''keys/**'' \<lparr>mf_path = ''/app/id/keys/a'', mf_cwd = ''/app/id'', mf_sourceDir = None,
      mf_home = ''/h'', mf_direction = DenyAsk\<rparr>"
  by code_simp

end
