(* ===== verification/Symlinks.thy ===== *)
theory Symlinks
  imports Paths
begin

text \<open>
  Symbolic links at both ends of a file rule (\<^verbatim>\<open>permissions/paths.ts\<close>: \<open>resolveRealTarget\<close>,
  \<open>resolveSymlinkTargetChain\<close>, \<open>checkSymlinkBothEnds\<close>, \<open>matchFileRuleAtBothEnds\<close>,
  \<open>readDenyBlocksEdit\<close>). The file system is an argument: the outcome of \<open>realpath\<close> (an error code on
  the left, a path on the right) and of \<open>readlink\<close>, and the working directory of the process.
  An error that the code lets escape is a value on the left. The locale \<open>both_ends\<close> extends the
  contract of a direction to the composition over all ends of a path.
\<close>

record file_system =
  fs_realpath :: "string \<Rightarrow> string + string"
  fs_readlink :: "string \<Rightarrow> string option"
  fs_cwd :: string

function resolveRealTarget :: "file_system \<Rightarrow> string \<Rightarrow> string + string" where
  "resolveRealTarget fs path =
     (case fs_realpath fs path of
        Inr real \<Rightarrow> Inr real
      | Inl code \<Rightarrow>
          if code \<noteq> ''ENOENT'' then Inl code
          else if dirname path = path then Inr path
          else (case resolveRealTarget fs (dirname path) of
                  Inl e \<Rightarrow> Inl e
                | Inr dir \<Rightarrow> Inr (path_join [dir, basename path])))"
  by pat_completeness auto
termination
  by (relation "measure (\<lambda>(fs, path). height path)") (auto intro: dirname_height)

declare resolveRealTarget.simps [simp del]

definition realpathOrUndefined :: "file_system \<Rightarrow> string \<Rightarrow> string option" where
  "realpathOrUndefined fs path = (case fs_realpath fs path of Inr real \<Rightarrow> Some real | Inl _ \<Rightarrow> None)"

definition readlinkOrUndefined :: "file_system \<Rightarrow> string \<Rightarrow> string option" where
  "readlinkOrUndefined fs path = fs_readlink fs path"

text \<open>A path followed by each successive directory, up to the one that is its own directory.\<close>

function lineage :: "string \<Rightarrow> string list" where
  "lineage path = (if dirname path = path then [path] else path # lineage (dirname path))"
  by pat_completeness auto
termination
  by (relation "measure height") (auto intro: dirname_height)

declare lineage.simps [simp del]

record ancestor_split =
  realAncestor :: string
  nextName :: string
  remainingNames :: "string list"

function ancestor_loop :: "file_system \<Rightarrow> string list \<Rightarrow> nat \<Rightarrow> ancestor_split option" where
  "ancestor_loop fs lin level =
     (if level < length lin then
        (case realpathOrUndefined fs (lin ! level) of
           None \<Rightarrow> ancestor_loop fs lin (Suc level)
         | Some real \<Rightarrow>
             (let leafward = map basename (take level lin)
              in Some \<lparr>realAncestor = real, nextName = leafward ! (level - 1),
                       remainingNames = rev (take (level - 1) leafward)\<rparr>))
      else None)"
  by pat_completeness auto
termination
  by (relation "measure (\<lambda>(fs, lin, level). length lin - level)") auto

declare ancestor_loop.simps [simp del]

definition splitAtDeepestResolvableAncestor :: "file_system \<Rightarrow> string \<Rightarrow> ancestor_split option" where
  "splitAtDeepestResolvableAncestor fs path = ancestor_loop fs (lineage path) 1"

definition MAX_HAND_FOLLOWED_LINKS :: nat where
  "MAX_HAND_FOLLOWED_LINKS = 40"

function followChainFrom :: "file_system \<Rightarrow> string \<Rightarrow> nat \<Rightarrow> string option" where
  "followChainFrom fs current followsLeft =
     (case realpathOrUndefined fs current of
        Some real \<Rightarrow> Some real
      | None \<Rightarrow>
          (case splitAtDeepestResolvableAncestor fs current of
             None \<Rightarrow> None
           | Some split \<Rightarrow>
               (case readlinkOrUndefined fs (path_join [realAncestor split, nextName split]) of
                  None \<Rightarrow> Some (path_join (realAncestor split # nextName split # remainingNames split))
                | Some linkTarget \<Rightarrow>
                    if followsLeft \<le> 1 then None
                    else followChainFrom fs
                           (path_join (path_resolve (fs_cwd fs) (realAncestor split) linkTarget # remainingNames split))
                           (followsLeft - 1))))"
  by pat_completeness auto
termination
  by (relation "measure (\<lambda>(fs, current, followsLeft). followsLeft)") auto

declare followChainFrom.simps [simp del]

definition resolveSymlinkTargetChain :: "file_system \<Rightarrow> string \<Rightarrow> string option" where
  "resolveSymlinkTargetChain fs path = followChainFrom fs path MAX_HAND_FOLLOWED_LINKS"

record symlink_ends =
  se_target :: string
  se_chainTarget :: "string option"

definition resolveSymlinkEnds :: "file_system \<Rightarrow> string \<Rightarrow> string + symlink_ends" where
  "resolveSymlinkEnds fs path =
     (case resolveRealTarget fs path of
        Inl e \<Rightarrow> Inl e
      | Inr target \<Rightarrow> Inr \<lparr>se_target = target, se_chainTarget = resolveSymlinkTargetChain fs path\<rparr>)"

record both_ends_result =
  allowRequiresBoth :: bool
  denyIfEither :: bool

definition checkSymlinkBothEnds :: "file_system \<Rightarrow> string \<Rightarrow> (string \<Rightarrow> bool) \<Rightarrow> string + both_ends_result" where
  "checkSymlinkBothEnds fs path matcher =
     (case resolveSymlinkEnds fs path of
        Inl e \<Rightarrow> Inl e
      | Inr ends \<Rightarrow>
          (let linkMatches = matcher path;
               targetMatches = matcher (se_target ends);
               chainTargetMatches = map_option matcher (se_chainTarget ends)
           in Inr \<lparr>allowRequiresBoth = (linkMatches \<and> targetMatches \<and> the_default True chainTargetMatches),
                   denyIfEither = (linkMatches \<or> targetMatches \<or> the_default False chainTargetMatches)\<rparr>))"

definition matchFileRuleAtBothEnds :: "file_system \<Rightarrow> string \<Rightarrow> match_file_opts \<Rightarrow> string + bool" where
  "matchFileRuleAtBothEnds fs pattern opts =
     (let absPath = resolveTargetPath (mf_path opts) (mf_cwd opts);
          matcher = (\<lambda>candidatePath. matchFileRule pattern (opts\<lparr>mf_path := candidatePath\<rparr>))
      in case checkSymlinkBothEnds fs absPath matcher of
           Inl e \<Rightarrow> Inl e
         | Inr r \<Rightarrow> Inr (if mf_direction opts = Allow then allowRequiresBoth r else denyIfEither r))"

record file_rule_entry =
  fr_toolName :: string
  fr_pattern :: string
  fr_behavior :: permission_behavior
  fr_sourceDir :: "string option"

fun readDenyBlocksEdit :: "file_system \<Rightarrow> file_rule_entry list \<Rightarrow> string \<Rightarrow> string \<Rightarrow> string \<Rightarrow> string + bool" where
  "readDenyBlocksEdit fs [] path cwd home = Inr False"
| "readDenyBlocksEdit fs (rule # rules) path cwd home =
     (if fr_toolName rule \<noteq> ''Read'' \<or> fr_behavior rule \<noteq> BDeny then readDenyBlocksEdit fs rules path cwd home
      else
        (case matchFileRuleAtBothEnds fs (fr_pattern rule)
                \<lparr>mf_path = path, mf_cwd = cwd, mf_sourceDir = fr_sourceDir rule, mf_home = home, mf_direction = DenyAsk\<rparr> of
           Inl e \<Rightarrow> Inl e
         | Inr b \<Rightarrow> if b then Inr True else readDenyBlocksEdit fs rules path cwd home))"

subsection \<open>The contract of the composition\<close>

text \<open>
  A matcher composed over the ends of its object: an allow needs every end, a deny any end. The
  composition is a matcher with the same contract.
\<close>

locale both_ends = direction_matcher m for m :: "'r \<Rightarrow> 'c \<Rightarrow> direction \<Rightarrow> bool" +
  fixes ends :: "'c \<Rightarrow> 'c list"
begin

definition at_ends :: "'r \<Rightarrow> 'c \<Rightarrow> direction \<Rightarrow> bool" where
  "at_ends r c d \<longleftrightarrow>
     ends c \<noteq> [] \<and> (case d of Allow \<Rightarrow> list_all (\<lambda>e. m r e Allow) (ends c)
                      | DenyAsk \<Rightarrow> list_ex (\<lambda>e. m r e DenyAsk) (ends c))"

lemma at_ends_allow_deny: "at_ends r c Allow \<Longrightarrow> at_ends r c DenyAsk"
  using allow_deny by (cases "ends c") (auto simp: at_ends_def)

lemma allow_every_end: "at_ends r c Allow \<Longrightarrow> e \<in> set (ends c) \<Longrightarrow> m r e Allow"
  by (auto simp: at_ends_def list_all_iff)

lemma deny_any_end: "e \<in> set (ends c) \<Longrightarrow> m r e DenyAsk \<Longrightarrow> at_ends r c DenyAsk"
  by (auto simp: at_ends_def list_ex_iff)

end

sublocale both_ends \<subseteq> composed: direction_matcher at_ends
  by unfold_locales (rule at_ends_allow_deny)

text \<open>The ends of a call: its own path, the real target and the target of the link chain.\<close>

definition end_opts :: "file_system \<Rightarrow> match_file_opts \<Rightarrow> match_file_opts list" where
  "end_opts fs opts =
     (let absPath = resolveTargetPath (mf_path opts) (mf_cwd opts) in
      case resolveSymlinkEnds fs absPath of
        Inl _ \<Rightarrow> []
      | Inr ends \<Rightarrow> map (\<lambda>p. opts\<lparr>mf_path := p\<rparr>)
          (absPath # se_target ends # (case se_chainTarget ends of None \<Rightarrow> [] | Some t \<Rightarrow> [t])))"

interpretation file_rule_ends:
  both_ends "\<lambda>pattern opts d. matchFileRule pattern (opts\<lparr>mf_direction := d\<rparr>)" "end_opts fs" for fs
  by (rule both_ends.intro) (rule file_rule.direction_matcher_axioms)

lemma opts_update_commute: "opts\<lparr>mf_direction := d, mf_path := p\<rparr> = opts\<lparr>mf_path := p, mf_direction := d\<rparr>"
  by (cases opts) simp

lemma matchFileRuleAtBothEnds_at_ends:
  "matchFileRuleAtBothEnds fs pattern (opts\<lparr>mf_direction := d\<rparr>) = Inr True \<longleftrightarrow> file_rule_ends.at_ends fs pattern opts d"
proof (cases "resolveSymlinkEnds fs (resolveTargetPath (mf_path opts) (mf_cwd opts))")
  case (Inl e)
  then show ?thesis
    by (simp add: matchFileRuleAtBothEnds_def checkSymlinkBothEnds_def file_rule_ends.at_ends_def end_opts_def Let_def)
next
  case (Inr ends)
  then show ?thesis
    by (cases d; cases "se_chainTarget ends")
      (simp_all add: matchFileRuleAtBothEnds_def checkSymlinkBothEnds_def file_rule_ends.at_ends_def end_opts_def Let_def
        the_default_def opts_update_commute)
qed

subsection \<open>Following links\<close>

lemma realpath_ends:
  assumes "fs_realpath fs (resolveTargetPath (mf_path opts) (mf_cwd opts)) = Inr target"
  shows "opts\<lparr>mf_path := target\<rparr> \<in> set (end_opts fs opts)"
  using assms by (simp add: end_opts_def Let_def resolveSymlinkEnds_def resolveRealTarget.simps [of fs "resolveTargetPath (mf_path opts) (mf_cwd opts)"])

lemma ancestor_loop_real:
  "ancestor_loop fs lin level = Some split \<Longrightarrow> \<exists>p. fs_realpath fs p = Inr (realAncestor split)"
proof (induction fs lin level rule: ancestor_loop.induct)
  case (1 fs lin level)
  have lt: "level < length lin" using "1.prems" by (subst (asm) ancestor_loop.simps) (simp split: if_splits)
  show ?case
  proof (cases "realpathOrUndefined fs (lin ! level)")
    case None
    with 1 lt show ?thesis by (subst (asm) (2) ancestor_loop.simps) simp
  next
    case (Some real)
    with "1.prems" lt have "realAncestor split = real" by (subst (asm) ancestor_loop.simps) (auto simp: Let_def)
    with Some show ?thesis by (auto simp: realpathOrUndefined_def split: sum.splits)
  qed
qed

text \<open>An answer of the chain is a real path, or a path whose first missing name is not a link.\<close>

definition settled :: "file_system \<Rightarrow> string \<Rightarrow> bool" where
  "settled fs r \<longleftrightarrow>
     (\<exists>p. fs_realpath fs p = Inr r) \<or>
     (\<exists>p dir name names. fs_realpath fs p = Inr dir \<and> fs_readlink fs (path_join [dir, name]) = None
        \<and> r = path_join (dir # name # names))"

lemma followChainFrom_settled: "followChainFrom fs current n = Some r \<Longrightarrow> settled fs r"
proof (induction fs current n rule: followChainFrom.induct)
  case (1 fs current n)
  show ?case
  proof (cases "realpathOrUndefined fs current")
    case (Some real)
    with "1.prems" have "r = real" by (subst (asm) followChainFrom.simps) simp
    with Some show ?thesis by (auto simp: settled_def realpathOrUndefined_def split: sum.splits)
  next
    case None
    then obtain split where sp: "splitAtDeepestResolvableAncestor fs current = Some split"
      using "1.prems" by (subst (asm) followChainFrom.simps) (auto split: option.splits)
    then obtain p where p: "fs_realpath fs p = Inr (realAncestor split)"
      using ancestor_loop_real unfolding splitAtDeepestResolvableAncestor_def by blast
    show ?thesis
    proof (cases "readlinkOrUndefined fs (path_join [realAncestor split, nextName split])")
      case no: None
      with "1.prems" None sp have "r = path_join (realAncestor split # nextName split # remainingNames split)"
        by (subst (asm) followChainFrom.simps) simp
      with p no show ?thesis unfolding settled_def readlinkOrUndefined_def by blast
    next
      case (Some link)
      with "1.prems" None sp have "\<not> n \<le> 1" by (subst (asm) followChainFrom.simps) (auto split: if_splits)
      with 1 None sp Some show ?thesis by (subst (asm) (2) followChainFrom.simps) auto
    qed
  qed
qed

subsection \<open>Properties\<close>

text \<open>
  C35: a file rule holds at both ends of a symbolic link. When the path of a call resolves to a real
  path, an allow rule matches the call only if its pattern matches that real path too, and a deny or
  ask rule whose pattern matches the real path matches the call, whatever the link is called.
\<close>

theorem both_ends_real_target:
  assumes "fs_realpath fs (resolveTargetPath (mf_path opts) (mf_cwd opts)) = Inr target"
  shows "(matchFileRuleAtBothEnds fs pattern (opts\<lparr>mf_direction := Allow\<rparr>) = Inr True \<longrightarrow>
      matchFileRule pattern (opts\<lparr>mf_path := target, mf_direction := Allow\<rparr>))
    \<and> (matchFileRule pattern (opts\<lparr>mf_path := target, mf_direction := DenyAsk\<rparr>) \<longrightarrow>
      matchFileRuleAtBothEnds fs pattern (opts\<lparr>mf_direction := DenyAsk\<rparr>) = Inr True)"
  using file_rule_ends.allow_every_end [OF _ realpath_ends [OF assms]]
    file_rule_ends.deny_any_end [OF realpath_ends [OF assms]]
  by (auto simp: matchFileRuleAtBothEnds_at_ends)

theorem both_ends_real_target_witness:
  "matchFileRuleAtBothEnds \<lparr>fs_realpath = (\<lambda>_. Inr ''/etc/passwd''), fs_readlink = (\<lambda>_. None), fs_cwd = ''/''\<rparr> ''//etc/passwd''
     \<lparr>mf_path = ''/p/link'', mf_cwd = ''/p'', mf_sourceDir = None, mf_home = ''/h'', mf_direction = DenyAsk\<rparr> = Inr True"
proof -
  let ?fs = "\<lparr>fs_realpath = (\<lambda>_. Inr ''/etc/passwd''), fs_readlink = (\<lambda>_. None), fs_cwd = ''/''\<rparr>"
  let ?o = "\<lparr>mf_path = ''/p/link'', mf_cwd = ''/p'', mf_sourceDir = None, mf_home = ''/h'', mf_direction = DenyAsk\<rparr>"
  have "fs_realpath ?fs (resolveTargetPath (mf_path ?o) (mf_cwd ?o)) = Inr ''/etc/passwd''" by simp
  moreover have "matchFileRule ''//etc/passwd'' (?o\<lparr>mf_path := ''/etc/passwd'', mf_direction := DenyAsk\<rparr>)" by code_simp
  ultimately show ?thesis using both_ends_real_target [of ?fs ?o "''/etc/passwd''" "''//etc/passwd''"] by simp
qed

text \<open>
  Composing over the ends keeps the contract of the directions: a call that an allow rule
  matches at all ends is matched by the deny or ask rule of the same pattern, on every file system.
\<close>

theorem both_ends_deny_covers_allow:
  assumes "matchFileRuleAtBothEnds fs pattern (opts\<lparr>mf_direction := Allow\<rparr>) = Inr True"
  shows "matchFileRuleAtBothEnds fs pattern (opts\<lparr>mf_direction := DenyAsk\<rparr>) = Inr True"
  using assms unfolding matchFileRuleAtBothEnds_at_ends by (rule file_rule_ends.composed.allow_deny)

theorem both_ends_deny_covers_allow_witness:
  "matchFileRuleAtBothEnds \<lparr>fs_realpath = Inr, fs_readlink = (\<lambda>_. None), fs_cwd = ''/''\<rparr> ''build''
     \<lparr>mf_path = ''/p/build'', mf_cwd = ''/p'', mf_sourceDir = None, mf_home = ''/h'', mf_direction = DenyAsk\<rparr> = Inr True"
proof -
  let ?fs = "\<lparr>fs_realpath = Inr, fs_readlink = (\<lambda>_. None), fs_cwd = ''/''\<rparr>"
  let ?o = "\<lparr>mf_path = ''/p/build'', mf_cwd = ''/p'', mf_sourceDir = None, mf_home = ''/h'', mf_direction = DenyAsk\<rparr>"
  have "matchFileRuleAtBothEnds ?fs ''build'' (?o\<lparr>mf_direction := Allow\<rparr>) = Inr True" by code_simp
  from both_ends_deny_covers_allow [OF this] show ?thesis by simp
qed

text \<open>
  C36: the link chain never stops at a link. Whatever the file system answers, the target
  \<open>resolveSymlinkTargetChain\<close> reports is a real path, or it lies below a real directory and the first
  name below that directory is not a symbolic link.
\<close>

theorem symlink_chain_settled:
  assumes "resolveSymlinkTargetChain fs path = Some target"
  shows "(\<exists>p. fs_realpath fs p = Inr target) \<or>
    (\<exists>p dir name names. fs_realpath fs p = Inr dir \<and> fs_readlink fs (path_join [dir, name]) = None
      \<and> target = path_join (dir # name # names))"
  using followChainFrom_settled assms unfolding resolveSymlinkTargetChain_def settled_def by blast

definition hooks_fs :: file_system where
  "hooks_fs = \<lparr>fs_realpath = (\<lambda>p. if p = ''/'' then Inr ''/'' else Inl ''ENOENT''),
     fs_readlink = (\<lambda>p. if p = ''/a'' then Some ''b/c'' else None), fs_cwd = ''/''\<rparr>"

theorem symlink_chain_settled_witness:
  "resolveSymlinkTargetChain hooks_fs ''/a'' = Some ''/b/c'' \<and>
    ((\<exists>p. fs_realpath hooks_fs p = Inr ''/b/c'') \<or>
     (\<exists>p dir name names. fs_realpath hooks_fs p = Inr dir \<and> fs_readlink hooks_fs (path_join [dir, name]) = None
      \<and> ''/b/c'' = path_join (dir # name # names)))"
proof -
  have r: "resolveSymlinkTargetChain hooks_fs ''/a'' = Some ''/b/c''" by code_simp
  show ?thesis using r symlink_chain_settled [OF r] by (rule conjI)
qed

text \<open>
  \<open>resolveRealTarget\<close> ends on every path, and it only fails with an error other than a missing
  file: on a file system whose only error is \<open>ENOENT\<close> it always has an answer.
\<close>

theorem resolveRealTarget_answers:
  assumes "\<forall>p code. fs_realpath fs p = Inl code \<longrightarrow> code = ''ENOENT''"
  shows "\<exists>target. resolveRealTarget fs path = Inr target"
  using assms
proof (induction fs path rule: resolveRealTarget.induct)
  case (1 fs path)
  show ?case
  proof (cases "fs_realpath fs path")
    case (Inl code)
    with "1.prems" have code: "code = ''ENOENT''" by blast
    show ?thesis
    proof (cases "dirname path = path")
      case False
      with "1.IH" Inl code "1.prems" obtain d where "resolveRealTarget fs (dirname path) = Inr d" by blast
      with Inl code False show ?thesis by (subst resolveRealTarget.simps) simp
    qed (use Inl code in \<open>subst resolveRealTarget.simps, simp\<close>)
  qed (subst resolveRealTarget.simps, simp)
qed

theorem resolveRealTarget_answers_witness:
  "\<exists>target. resolveRealTarget hooks_fs ''/no/such/file'' = Inr target"
  by (rule resolveRealTarget_answers) (auto simp: hooks_fs_def split: if_splits)

end
