(* ===== verification/File_Rules.thy ===== *)
theory File_Rules
  imports Symlinks
begin

text \<open>
  \<open>file-rules.ts\<close>: how the patterns of \<open>Read\<close> and \<open>Edit\<close> rules decide about a path. A pattern is anchored
  at a root, normalised, rewritten when it ends in a double star, and handed, with all the other
  patterns of that root, to one matcher of the \<open>ignore\<close> package. That package is not part of the
  repository: it is the parameter \<open>ignore\<close>, which takes the patterns in the order they were added
  and a relative path, and either fails or tells whether the path is ignored and by which pattern.
  Also here: the working-directory boundary \<open>isPathWithinRoot\<close>, the trusted system links, the
  escaping of real paths into patterns and the fence around plugin directories. Lemmas:
  which candidates can decide a match, and that the boundary is the prefix order on names.
\<close>

subsection \<open>Kinds and anchors\<close>

datatype file_rule_kind = EditRules | ReadRules

definition fileRuleKindFor :: "string \<Rightarrow> file_rule_kind option" where
  "fileRuleKindFor name =
     (if name \<in> {''Edit'', ''Write'', ''NotebookEdit''} then Some EditRules
      else if name \<in> {''Read'', ''Glob'', ''Grep''} then Some ReadRules
      else None)"

definition canonicalFileRuleAuthoringToolName :: "file_rule_kind \<Rightarrow> string" where
  "canonicalFileRuleAuthoringToolName kind = (case kind of EditRules \<Rightarrow> ''Edit'' | ReadRules \<Rightarrow> ''Read'')"

datatype anchor_root = RootAt string | RootCwd | InertAnchor

record file_rule_anchor =
  relativePattern :: string
  anchorRoot :: anchor_root

definition resolveFileRuleAnchor :: "string \<Rightarrow> string \<Rightarrow> string option \<Rightarrow> file_rule_anchor" where
  "resolveFileRuleAnchor pattern home sourceDir =
     (if startsWith pattern ''//'' then \<lparr>relativePattern = drop 1 pattern, anchorRoot = RootAt ''/''\<rparr>
      else if startsWith pattern ''~/'' then \<lparr>relativePattern = drop 1 pattern, anchorRoot = RootAt home\<rparr>
      else if startsWith pattern ''/'' then
        \<lparr>relativePattern = pattern, anchorRoot = (case sourceDir of Some d \<Rightarrow> RootAt d | None \<Rightarrow> InertAnchor)\<rparr>
      else if startsWith pattern ''./'' then \<lparr>relativePattern = drop 2 pattern, anchorRoot = RootCwd\<rparr>
      else \<lparr>relativePattern = pattern, anchorRoot = RootCwd\<rparr>)"

subsection \<open>Pattern normalisation\<close>

text \<open>\<open>s.replace(/\/{2,}/g, "/")\<close>\<close>

fun collapse_slashes :: "string \<Rightarrow> string" where
  "collapse_slashes (a # b # s) =
     (if a = CHR ''/'' \<and> b = CHR ''/'' then collapse_slashes (b # s) else a # collapse_slashes (b # s))"
| "collapse_slashes s = s"

datatype bom_treatment = KeepBom | EscapeDirective | BracketSecondBom | DropBom

definition leadingBomTreatment :: "string \<Rightarrow> bom_treatment" where
  "leadingBomTreatment pattern =
     (if list_all is_ws pattern
         \<or> (endsWith pattern ''/**'' \<and> list_all is_ws (take (length pattern - 3) pattern))
         \<or> \<not> startsWith pattern [BOM] then KeepBom
      else (case char_at pattern 1 of
              Some c \<Rightarrow> if c = CHR ''!'' \<or> c = CHR ''#'' then EscapeDirective
                        else if c = BOM then BracketSecondBom else DropBom
            | None \<Rightarrow> DropBom))"

definition normalizeFileRulePattern :: "string \<Rightarrow> string" where
  "normalizeFileRulePattern pattern =
     (let collapsed = collapse_slashes pattern in
      case leadingBomTreatment collapsed of
        KeepBom \<Rightarrow> collapsed
      | EscapeDirective \<Rightarrow> backslash # drop 1 collapsed
      | BracketSecondBom \<Rightarrow> ''['' @ [BOM] @ '']'' @ drop 2 collapsed
      | DropBom \<Rightarrow> drop 1 collapsed)"

definition unanchorTrailingDoubleStar :: "string \<Rightarrow> bool \<Rightarrow> string" where
  "unanchorTrailingDoubleStar pattern isAllow =
     (if \<not> endsWith pattern ''/**'' then pattern
      else
        (let front = take (length pattern - 3) pattern in
         if list_all (\<lambda>c. c = CHR ''/'') front then ''/**''
         else if \<not> isAllow then front
         else if CHR ''/'' \<notin> set front \<and> \<not> (startsWith front ''!'' \<or> startsWith front ''#'') then ''/'' @ front
         else front))"

subsection \<open>One path for a rule\<close>

definition rule_glob_char :: "char \<Rightarrow> bool" where
  "rule_glob_char c \<longleftrightarrow> c \<in> set ''*?[]''"

definition isGlobShapedFileRulePattern :: "string \<Rightarrow> bool" where
  "isGlobShapedFileRulePattern txt = list_ex rule_glob_char txt"

definition strip_double_star :: "string \<Rightarrow> string" where
  "strip_double_star p = (if endsWith p ''/**'' then take (length p - 3) p else p)"

definition under_root :: "string \<Rightarrow> string \<Rightarrow> string" where
  "under_root root p =
     (let relativePart = (if startsWith p ''/'' then drop 1 p else p)
      in if relativePart = '''' \<or> relativePart = ''.'' then root else path_join [root, relativePart])"

definition anchor_base :: "string \<Rightarrow> anchor_root \<Rightarrow> string option" where
  "anchor_base cwd r = (case r of RootAt d \<Rightarrow> Some d | RootCwd \<Rightarrow> Some cwd | InertAnchor \<Rightarrow> None)"

definition resolveFileRuleAbsolutePath :: "string \<Rightarrow> string \<Rightarrow> string \<Rightarrow> string option \<Rightarrow> string option" where
  "resolveFileRuleAbsolutePath pattern cwd home sourceDir =
     (let anchor = resolveFileRuleAnchor pattern home sourceDir;
          bare = strip_double_star (normalizeFileRulePattern (relativePattern anchor))
      in case anchor_base cwd (anchorRoot anchor) of
           None \<Rightarrow> None
         | Some rootPath \<Rightarrow> if list_ex rule_glob_char bare then None else Some (under_root rootPath bare))"

definition resolveFileRuleAbsoluteGlobText :: "string \<Rightarrow> string \<Rightarrow> string \<Rightarrow> string option \<Rightarrow> string option" where
  "resolveFileRuleAbsoluteGlobText pattern cwd home sourceDir =
     (let anchor = resolveFileRuleAnchor pattern home sourceDir;
          bare = strip_double_star (normalizeFileRulePattern (relativePattern anchor))
      in map_option (\<lambda>rootPath. under_root rootPath bare) (anchor_base cwd (anchorRoot anchor)))"

subsection \<open>Grouped matching\<close>

record ignore_result =
  ir_ignored :: bool
  ir_rule :: "string option"

type_synonym ignore_package = "string list \<Rightarrow> string \<Rightarrow> string + ignore_result"

record 'e file_rule_candidate =
  frc_entry :: 'e
  frc_pattern :: string
  frc_sourceDir :: "string option"

record 'e rule_group =
  rg_root :: string
  rg_patterns :: "string list"
  rg_entryByPattern :: "string \<rightharpoonup> 'e"

text \<open>The root a candidate is anchored at and its compiled pattern; \<open>None\<close> for an inert candidate.\<close>

definition compiled_candidate :: "string \<Rightarrow> string \<Rightarrow> direction \<Rightarrow> 'e file_rule_candidate \<Rightarrow> (string \<times> string) option" where
  "compiled_candidate cwd home direction c =
     (let anchor = resolveFileRuleAnchor (frc_pattern c) home (frc_sourceDir c)
      in map_option (\<lambda>root. (root, unanchorTrailingDoubleStar (normalizeFileRulePattern (relativePattern anchor)) (direction = Allow)))
           (anchor_base cwd (anchorRoot anchor)))"

fun add_to_groups :: "string \<Rightarrow> string \<Rightarrow> 'e \<Rightarrow> 'e rule_group list \<Rightarrow> 'e rule_group list" where
  "add_to_groups root compiled entry [] = [\<lparr>rg_root = root, rg_patterns = [compiled], rg_entryByPattern = [compiled \<mapsto> entry]\<rparr>]"
| "add_to_groups root compiled entry (g # gs) =
     (if rg_root g = root
      then g\<lparr>rg_patterns := rg_patterns g @ [compiled], rg_entryByPattern := (rg_entryByPattern g)(compiled \<mapsto> entry)\<rparr> # gs
      else g # add_to_groups root compiled entry gs)"

definition file_rule_groups :: "string \<Rightarrow> string \<Rightarrow> direction \<Rightarrow> 'e file_rule_candidate list \<Rightarrow> 'e rule_group list" where
  "file_rule_groups cwd home direction candidates =
     fold (\<lambda>c groups. case compiled_candidate cwd home direction c of
                         None \<Rightarrow> groups
                       | Some (root, compiled) \<Rightarrow> add_to_groups root compiled (frc_entry c) groups) candidates []"

definition isOutsideIgnoreRoot :: "string \<Rightarrow> bool" where
  "isOutsideIgnoreRoot rel \<longleftrightarrow>
     rel = '''' \<or> rel = ''.'' \<or> rel = ''..'' \<or> startsWith rel ''/'' \<or> startsWith rel ''./'' \<or> startsWith rel ''../''"

datatype file_rule_error = FileRuleCompileError string

fun match_groups :: "ignore_package \<Rightarrow> string \<Rightarrow> string \<Rightarrow> 'e rule_group list \<Rightarrow> file_rule_error + 'e option" where
  "match_groups ignore pcwd path [] = Inr None"
| "match_groups ignore pcwd path (g # gs) =
     (let rel = path_relative pcwd (rg_root g) path in
      if isOutsideIgnoreRoot rel then match_groups ignore pcwd path gs
      else
        (case ignore (rg_patterns g) rel of
           Inl _ \<Rightarrow> Inl (FileRuleCompileError (rg_root g))
         | Inr result \<Rightarrow>
             if \<not> ir_ignored result then match_groups ignore pcwd path gs
             else
               (case ir_rule result of
                  None \<Rightarrow> match_groups ignore pcwd path gs
                | Some matchedPattern \<Rightarrow>
                    (case rg_entryByPattern g matchedPattern of
                       None \<Rightarrow> match_groups ignore pcwd path gs
                     | Some entry \<Rightarrow> Inr (Some entry)))))"

definition matchFileRulesGrouped ::
  "ignore_package \<Rightarrow> string \<Rightarrow> 'e file_rule_candidate list \<Rightarrow> string \<Rightarrow> string \<Rightarrow> string \<Rightarrow> direction \<Rightarrow> file_rule_error + 'e option" where
  "matchFileRulesGrouped ignore pcwd candidates path cwd home direction =
     match_groups ignore pcwd path (file_rule_groups cwd home direction candidates)"

definition matchesSingleFileRulePattern ::
  "ignore_package \<Rightarrow> string \<Rightarrow> string \<Rightarrow> string \<Rightarrow> string \<Rightarrow> string \<Rightarrow> direction \<Rightarrow> file_rule_error + bool" where
  "matchesSingleFileRulePattern ignore pcwd pattern path cwd home direction =
     map_sum id (\<lambda>r. r \<noteq> None)
       (matchFileRulesGrouped ignore pcwd [\<lparr>frc_entry = True, frc_pattern = pattern, frc_sourceDir = None\<rparr>] path cwd home direction)"

subsection \<open>System links, the boundary, escaping\<close>

definition TRUSTED_SYMLINK_PAIRS :: "(string \<times> string) list" where
  "TRUSTED_SYMLINK_PAIRS =
     [(''/private/tmp'', ''/tmp''), (''/private/var'', ''/var''), (''/private/etc'', ''/etc''),
      (''/usr/bin'', ''/bin''), (''/usr/lib'', ''/lib''), (''/usr/sbin'', ''/sbin'')]"

definition verifiedTrustedSymlinkPairs :: "file_system \<Rightarrow> (string \<times> string) list" where
  "verifiedTrustedSymlinkPairs fs = filter (\<lambda>(real, alias). fs_realpath fs alias = Inr real) TRUSTED_SYMLINK_PAIRS"

definition canonicalizeTrustedSymlinkPath :: "file_system \<Rightarrow> string \<Rightarrow> string" where
  "canonicalizeTrustedSymlinkPath fs path =
     the_default path
       (first_some (\<lambda>(real, alias). if path = real then Some alias
                     else if startsWith path (real @ ''/'') then Some (alias @ drop (length real) path) else None)
         (verifiedTrustedSymlinkPairs fs))"

definition shortSystemAlias :: "string \<Rightarrow> string" where
  "shortSystemAlias p =
     (if startsWith p ''/private/var/'' then ''/var/'' @ drop (length ''/private/var/'') p
      else if p = ''/private/tmp'' \<or> startsWith p ''/private/tmp/'' then ''/tmp'' @ drop (length ''/private/tmp'') p
      else p)"

definition isPathWithinRoot :: "string \<Rightarrow> string \<Rightarrow> string \<Rightarrow> bool \<Rightarrow> bool" where
  "isPathWithinRoot pcwd childPath rootPath caseFold =
     (let prepare = (\<lambda>p. if caseFold then toLowerCase (shortSystemAlias p) else shortSystemAlias p);
          rel = path_relative pcwd (prepare rootPath) (prepare childPath)
      in if rel = '''' then True
         else if rel = ''..'' \<or> startsWith rel ''../'' then False
         else \<not> isAbsolute rel)"

definition resolvesWithinPluginRoot :: "file_system \<Rightarrow> string \<Rightarrow> string \<Rightarrow> bool" where
  "resolvesWithinPluginRoot fs candidatePath pluginRoot =
     (if backslash \<in> set candidatePath then False
      else
        (case resolveRealTarget fs candidatePath of
           Inl _ \<Rightarrow> False
         | Inr realCandidate \<Rightarrow>
             (case resolveRealTarget fs pluginRoot of
                Inl _ \<Rightarrow> False
              | Inr realRoot \<Rightarrow>
                  (let rel = path_relative (fs_cwd fs) realRoot realCandidate
                   in if rel = '''' then True else if startsWith rel ''..'' then False else \<not> isAbsolute rel))))"

definition escapeFileRulePathSegment :: "string \<Rightarrow> string" where
  "escapeFileRulePathSegment path =
     (let escaped = concat (map (\<lambda>c. if c \<in> set ''[]*'' \<or> c = backslash then [backslash, c] else [c]) path);
          tail = takeWhile is_ws (rev escaped)
      in take (length escaped - length tail) escaped @ concat (map (\<lambda>c. [backslash, c]) (rev tail)))"

subsection \<open>The groups\<close>

definition patterns_at :: "string \<Rightarrow> string \<Rightarrow> direction \<Rightarrow> string \<Rightarrow> 'e file_rule_candidate list \<Rightarrow> string list" where
  "patterns_at cwd home direction root candidates =
     concat (map (\<lambda>c. case compiled_candidate cwd home direction c of
                        Some (r, p) \<Rightarrow> if r = root then [p] else [] | None \<Rightarrow> []) candidates)"

lemma add_to_groups_roots:
  "map rg_root (add_to_groups root p e gs) = (if root \<in> set (map rg_root gs) then map rg_root gs else map rg_root gs @ [root])"
  by (induction gs) auto

lemma add_to_groups_mem:
  assumes "g \<in> set (add_to_groups root p e gs)" and "distinct (map rg_root gs)"
  shows "(g \<in> set gs \<and> rg_root g \<noteq> root)
    \<or> (rg_root g = root \<and> root \<notin> set (map rg_root gs) \<and> rg_patterns g = [p] \<and> rg_entryByPattern g = [p \<mapsto> e])
    \<or> (rg_root g = root \<and> (\<exists>g0\<in>set gs. rg_root g0 = root \<and> rg_patterns g = rg_patterns g0 @ [p]
          \<and> rg_entryByPattern g = (rg_entryByPattern g0)(p \<mapsto> e)))"
  using assms by (induction gs) (auto simp: image_iff split: if_splits)

lemma add_to_groups_cases:
  assumes "g \<in> set (add_to_groups root p e gs)" and "distinct (map rg_root gs)"
  obtains (old) "g \<in> set gs" "rg_root g \<noteq> root"
    | (fresh) "rg_root g = root" "root \<notin> set (map rg_root gs)" "rg_patterns g = [p]" "rg_entryByPattern g = [p \<mapsto> e]"
    | (extended) g0 where "g0 \<in> set gs" "rg_root g = root" "rg_root g0 = root" "rg_patterns g = rg_patterns g0 @ [p]"
        "rg_entryByPattern g = (rg_entryByPattern g0)(p \<mapsto> e)"
  using add_to_groups_mem [OF assms] by blast

lemma file_rule_groups_snoc:
  "file_rule_groups cwd home direction (candidates @ [c]) =
     (case compiled_candidate cwd home direction c of
        None \<Rightarrow> file_rule_groups cwd home direction candidates
      | Some (root, compiled) \<Rightarrow> add_to_groups root compiled (frc_entry c) (file_rule_groups cwd home direction candidates))"
  unfolding file_rule_groups_def by (simp split: option.split)

lemma patterns_at_snoc:
  "patterns_at cwd home direction root (candidates @ [c]) = patterns_at cwd home direction root candidates
     @ (case compiled_candidate cwd home direction c of Some (r, p) \<Rightarrow> if r = root then [p] else [] | None \<Rightarrow> [])"
  by (simp add: patterns_at_def)

lemma file_rule_groups_distinct: "distinct (map rg_root (file_rule_groups cwd home direction candidates))"
proof (induction candidates rule: rev_induct)
  case (snoc c candidates)
  then show ?case by (auto simp: file_rule_groups_snoc add_to_groups_roots split: option.splits)
qed (simp add: file_rule_groups_def)

lemma file_rule_groups_roots:
  "root \<in> set (map rg_root (file_rule_groups cwd home direction candidates)) \<longleftrightarrow> patterns_at cwd home direction root candidates \<noteq> []"
proof (induction candidates rule: rev_induct)
  case (snoc c candidates)
  then show ?case
    by (auto simp: file_rule_groups_snoc add_to_groups_roots patterns_at_snoc simp del: set_map split: option.splits if_splits)
qed (simp add: file_rule_groups_def patterns_at_def)

lemma file_rule_groups_patterns:
  "g \<in> set (file_rule_groups cwd home direction candidates) \<Longrightarrow> rg_patterns g = patterns_at cwd home direction (rg_root g) candidates"
proof (induction candidates arbitrary: g rule: rev_induct)
  case (snoc c candidates)
  show ?case
  proof (cases "compiled_candidate cwd home direction c")
    case None
    then show ?thesis using snoc by (simp add: file_rule_groups_snoc patterns_at_snoc)
  next
    case (Some rp)
    obtain root p where rp: "rp = (root, p)" by (cases rp)
    have "g \<in> set (add_to_groups root p (frc_entry c) (file_rule_groups cwd home direction candidates))"
      using snoc.prems Some rp by (simp add: file_rule_groups_snoc)
    from this file_rule_groups_distinct show ?thesis
    proof (cases rule: add_to_groups_cases)
      case fresh
      then show ?thesis
        using file_rule_groups_roots [of root cwd home direction candidates] Some rp by (simp add: patterns_at_snoc)
    qed (use snoc.IH Some rp in \<open>simp_all add: patterns_at_snoc\<close>)
  qed
qed (simp add: file_rule_groups_def)

lemma file_rule_groups_entries:
  "g \<in> set (file_rule_groups cwd home direction candidates) \<Longrightarrow> rg_entryByPattern g p = Some e \<Longrightarrow>
     \<exists>c\<in>set candidates. compiled_candidate cwd home direction c = Some (rg_root g, p) \<and> frc_entry c = e"
proof (induction candidates arbitrary: g rule: rev_induct)
  case (snoc c candidates)
  show ?case
  proof (cases "compiled_candidate cwd home direction c")
    case None
    then show ?thesis using snoc by (auto simp: file_rule_groups_snoc)
  next
    case (Some rp)
    obtain root q where rp: "rp = (root, q)" by (cases rp)
    have "g \<in> set (add_to_groups root q (frc_entry c) (file_rule_groups cwd home direction candidates))"
      using snoc.prems Some rp by (simp add: file_rule_groups_snoc)
    from this file_rule_groups_distinct show ?thesis
    proof (cases rule: add_to_groups_cases)
      case old
      then show ?thesis using snoc.IH snoc.prems(2) by auto
    next
      case fresh
      then show ?thesis using snoc.prems(2) Some rp by (auto split: if_splits)
    next
      case (extended g0)
      then show ?thesis using snoc.IH [of g0] snoc.prems(2) Some rp by (cases "p = q") auto
    qed
  qed
qed (simp add: file_rule_groups_def)

lemma match_groups_Some:
  "match_groups ignore pcwd path gs = Inr (Some e) \<Longrightarrow> \<exists>g\<in>set gs. \<exists>p result.
     \<not> isOutsideIgnoreRoot (path_relative pcwd (rg_root g) path)
     \<and> ignore (rg_patterns g) (path_relative pcwd (rg_root g) path) = Inr result
     \<and> ir_ignored result \<and> ir_rule result = Some p \<and> rg_entryByPattern g p = Some e"
  by (induction gs) (auto simp: Let_def split: if_splits sum.splits option.splits)

lemma compiled_candidate_root: "compiled_candidate cwd home direction c = Some (root, p) \<Longrightarrow> frc_sourceDir c = None \<Longrightarrow>
    root = ''/'' \<or> root = home \<or> root = cwd"
  by (auto simp: compiled_candidate_def resolveFileRuleAnchor_def anchor_base_def Let_def split: if_splits)

subsection \<open>The boundary is the prefix order on names\<close>

lemma path_names_abs_path: "list_all proper_name segs \<Longrightarrow> path_names (abs_path segs) = segs"
proof (cases "segs = []")
  case False
  assume p: "list_all proper_name segs"
  then have "filter (\<lambda>s. s \<noteq> '''') segs = segs" by (auto simp: list_all_iff proper_name_def)
  with split_abs_path [OF p False] show ?thesis by (simp add: path_names_def)
qed (simp add: path_names_def abs_path_def)

lemma path_relative_abs:
  assumes "list_all proper_name r" "list_all proper_name c"
  shows "path_relative pcwd (abs_path r) (abs_path c) =
    (let n = length (longest_common_prefix r c) in join_with ''/'' (replicate (length r - n) ''..'' @ drop n c))"
  by (simp add: path_relative_def path_resolve_abs_path assms path_names_abs_path)

lemma first_name_join: "CHR ''/'' \<notin> set x \<Longrightarrow> takeWhile (\<lambda>c. c \<noteq> CHR ''/'') (join_with ''/'' (x # xs)) = x"
proof (cases xs)
  case Nil
  assume "CHR ''/'' \<notin> set x"
  then have "takeWhile (\<lambda>c. c \<noteq> CHR ''/'') x = x" unfolding takeWhile_eq_all_conv by blast
  then show ?thesis using Nil by simp
next
  case (Cons y ys)
  assume "CHR ''/'' \<notin> set x"
  then have "takeWhile (\<lambda>c. c \<noteq> CHR ''/'') (x @ ''/'' @ join_with ''/'' (y # ys)) = x"
    by (subst takeWhile_append2) auto
  then show ?thesis using Cons by simp
qed

lemma relative_inside:
  assumes "list_all proper_name d"
  shows "join_with ''/'' d \<noteq> ''..'' \<and> \<not> startsWith (join_with ''/'' d) ''../'' \<and> \<not> isAbsolute (join_with ''/'' d)"
proof (cases d)
  case Nil
  then show ?thesis by (simp add: startsWith_def isAbsolute_def)
next
  case (Cons x xs)
  then have x: "x \<noteq> ''..''" "x \<noteq> ''''" "CHR ''/'' \<notin> set x" using assms by (simp_all add: proper_name_def)
  let ?j = "join_with ''/'' (x # xs)"
  have t: "takeWhile (\<lambda>c. c \<noteq> CHR ''/'') ?j = x" using x(3) by (rule first_name_join)
  have "takeWhile (\<lambda>c. c \<noteq> CHR ''/'') ?j = ''..''" if "startsWith ?j ''../''"
  proof -
    from that have "\<exists>u. ?j = ''../'' @ u" unfolding startsWith_iff_prefix prefix_def .
    then obtain u where "?j = ''../'' @ u" ..
    then show ?thesis by simp
  qed
  moreover have "takeWhile (\<lambda>c. c \<noteq> CHR ''/'') ?j = ''''" if "isAbsolute ?j"
    using that by (cases ?j) (auto simp: isAbsolute_def startsWith_def)
  moreover have "takeWhile (\<lambda>c. c \<noteq> CHR ''/'') ?j = ''..''" if "?j = ''..''" using that by simp
  ultimately show ?thesis using t x Cons by metis
qed

lemma relative_outside:
  "n > 0 \<Longrightarrow> join_with ''/'' (replicate n ''..'' @ d) = ''..'' \<or> startsWith (join_with ''/'' (replicate n ''..'' @ d)) ''../''"
proof (cases n)
  case (Suc m)
  then show ?thesis by (cases "replicate m ''..'' @ d") (simp_all add: startsWith_def)
qed simp

lemma lcp_prefix_iff: "length (longest_common_prefix r c) = length r \<longleftrightarrow> prefix r c"
proof
  assume "length (longest_common_prefix r c) = length r"
  then have "longest_common_prefix r c = r"
    using longest_common_prefix_prefix1 [of r c] by (metis append_Nil2 append_eq_append_conv prefix_def)
  then show "prefix r c" using longest_common_prefix_prefix2 [of r c] by simp
next
  assume "prefix r c"
  then show "length (longest_common_prefix r c) = length r"
    using longest_common_prefix_max_prefix [of r r c] longest_common_prefix_prefix1 [of r c]
    by (metis prefix_order.antisym prefix_order.order_refl)
qed

lemma within_abs:
  assumes "list_all proper_name r" "list_all proper_name c"
  shows "(let rel = path_relative pcwd (abs_path r) (abs_path c)
          in if rel = '''' then True else if rel = ''..'' \<or> startsWith rel ''../'' then False else \<not> isAbsolute rel) \<longleftrightarrow> prefix r c"
proof (cases "prefix r c")
  case True
  then have n: "length (longest_common_prefix r c) = length r" by (simp add: lcp_prefix_iff)
  have "list_all proper_name (drop (length r) c)" using assms(2) by (metis list_all_append append_take_drop_id)
  from relative_inside [OF this] show ?thesis by (simp add: path_relative_abs [OF assms] n Let_def True)
next
  case False
  then have "length (longest_common_prefix r c) < length r"
    using lcp_prefix_iff [of r c] longest_common_prefix_prefix1 [of r c] prefix_length_le le_neq_implies_less by blast
  then have o: "path_relative pcwd (abs_path r) (abs_path c) = ''..'' \<or> startsWith (path_relative pcwd (abs_path r) (abs_path c)) ''../''"
    unfolding path_relative_abs [OF assms] Let_def by (intro relative_outside) simp
  then have "path_relative pcwd (abs_path r) (abs_path c) \<noteq> ''''" by (auto simp: startsWith_def)
  with o False show ?thesis by (simp add: Let_def)
qed


subsection \<open>Escaped paths read back\<close>

text \<open>Reading a pattern with every escaped character literal; \<open>None\<close> when a special character is left.\<close>

fun literal_pattern :: "string \<Rightarrow> string option" where
  "literal_pattern [] = Some []"
| "literal_pattern (c # s) =
     (if c = backslash then (case s of [] \<Rightarrow> None | d # s' \<Rightarrow> map_option ((#) d) (literal_pattern s'))
      else if c \<in> set ''[]*'' then None
      else map_option ((#) c) (literal_pattern s))"

lemma literal_pattern_append: "literal_pattern a = Some a' \<Longrightarrow> literal_pattern (a @ b) = map_option ((@) a') (literal_pattern b)"
proof (induction a arbitrary: a' rule: literal_pattern.induct)
  case (2 c s)
  show ?case
  proof (cases "c = backslash")
    case True
    with "2.prems" obtain d s' u where "s = d # s'" "literal_pattern s' = Some u" "a' = d # u"
      by (cases s) auto
    then show ?thesis using "2.IH"(1) [OF True] True by (auto simp: option.map_comp comp_def)
  next
    case False
    with "2.prems" obtain u where "c \<notin> set ''[]*''" "literal_pattern s = Some u" "a' = c # u"
      by (auto split: if_splits)
    then show ?thesis using "2.IH"(2) [OF False] False by (auto simp: option.map_comp comp_def)
  qed
qed (cases "literal_pattern b", simp_all)

definition escape_unit :: "char \<Rightarrow> string" where
  "escape_unit c = (if c \<in> set ''[]*'' \<or> c = backslash then [backslash, c] else [c])"

lemma literal_pattern_units: "literal_pattern (concat (map escape_unit s)) = Some s"
  by (induction s) (auto simp: escape_unit_def backslash_def)

lemma literal_pattern_all_escaped: "literal_pattern (concat (map (\<lambda>c. [backslash, c]) s)) = Some s"
  by (induction s) auto

lemma takeWhile_rev_split: "s = dropEnd @ rev (takeWhile P (rev s))"
  if "dropEnd = rev (dropWhile P (rev s))" for s :: "'a list"
  unfolding that rev_append [symmetric] takeWhile_dropWhile_id by simp

text \<open>The trailing white space of the escaped text is the trailing white space of the path.\<close>

lemma escape_split:
  obtains body ws where "path = body @ ws" "list_all is_ws ws" "body = [] \<or> \<not> is_ws (last body)"
    "escapeFileRulePathSegment path = concat (map escape_unit body) @ concat (map (\<lambda>c. [backslash, c]) ws)"
proof -
  define ws where "ws = rev (takeWhile is_ws (rev path))"
  define body where "body = rev (dropWhile is_ws (rev path))"
  have p: "path = body @ ws" unfolding body_def ws_def using takeWhile_rev_split by blast
  have w: "list_all is_ws ws" unfolding ws_def by (auto simp: list_all_iff dest: set_takeWhileD)
  have uw: "concat (map escape_unit ws) = ws"
    using w by (induction ws) (auto simp: escape_unit_def is_ws_def backslash_def)
  have l: "body = [] \<or> \<not> is_ws (last body)"
    unfolding body_def using hd_dropWhile [of is_ws "rev path"] by (metis last_rev rev_is_Nil_conv)
  let ?e = "concat (map escape_unit path)"
  have e: "?e = concat (map escape_unit body) @ ws" by (simp add: p uw)
  have t: "takeWhile is_ws (rev ?e) = rev ws"
  proof (cases "body = []")
    case True
    have "takeWhile is_ws (rev ws) = rev ws" unfolding takeWhile_eq_all_conv using w by (auto simp: list_all_iff)
    then show ?thesis by (simp add: e True)
  next
    case False
    then obtain b c where b: "body = b @ [c]" by (cases body rule: rev_cases) auto
    have c: "\<not> is_ws c" using l b by simp
    then have last: "rev (concat (map escape_unit body)) = c # tl (rev (concat (map escape_unit body)))"
      by (simp add: b escape_unit_def)
    have "takeWhile is_ws (rev ws @ c # tl (rev (concat (map escape_unit body)))) = rev ws"
      using w c by (subst takeWhile_append2) (auto simp: list_all_iff)
    then show ?thesis using last by (simp add: e)
  qed
  have "escapeFileRulePathSegment path = concat (map escape_unit body) @ concat (map (\<lambda>c. [backslash, c]) ws)"
    unfolding escapeFileRulePathSegment_def escape_unit_def [symmetric] Let_def t by (simp add: e)
  with p w l show ?thesis by (rule that)
qed

subsection \<open>Properties\<close>

text \<open>
  C33: all the rules with one root are given to one matcher, in the order they were written, whatever the order
  the roots appear in: the groups have pairwise different roots, there is a group for exactly the roots
  some rule is anchored at, and the patterns of a group are exactly the compiled patterns of the rules of that root, in order.
  A rule anchored at a settings file without a known directory is in no group.
\<close>

theorem file_rules_grouped_by_root:
  "distinct (map rg_root (file_rule_groups cwd home direction candidates))
    \<and> (\<forall>root. root \<in> rg_root ` set (file_rule_groups cwd home direction candidates) \<longleftrightarrow>
         (\<exists>c\<in>set candidates. \<exists>p. compiled_candidate cwd home direction c = Some (root, p)))
    \<and> (\<forall>g\<in>set (file_rule_groups cwd home direction candidates).
         rg_patterns g = patterns_at cwd home direction (rg_root g) candidates)"
proof -
  have "patterns_at cwd home direction root candidates \<noteq> [] \<longleftrightarrow>
      (\<exists>c\<in>set candidates. \<exists>p. compiled_candidate cwd home direction c = Some (root, p))" for root
  proof -
    have "(case compiled_candidate cwd home direction c of Some (r, p) \<Rightarrow> if r = root then [p] else [] | None \<Rightarrow> []) \<noteq> []
        \<longleftrightarrow> (\<exists>p. compiled_candidate cwd home direction c = Some (root, p))" for c :: "'a file_rule_candidate"
      by (auto split: option.split)
    then show ?thesis by (simp add: patterns_at_def del: not_Cons_self2)
  qed
  then show ?thesis
    using file_rule_groups_distinct [of cwd home direction candidates] file_rule_groups_roots [of _ cwd home direction candidates]
      file_rule_groups_patterns by auto
qed

theorem file_rules_grouped_by_root_witness:
  "\<forall>root. root \<in> rg_root ` set (file_rule_groups ''/p'' ''/h'' Allow
      [\<lparr>frc_entry = (1::nat), frc_pattern = ''/x'', frc_sourceDir = None\<rparr>, \<lparr>frc_entry = 2, frc_pattern = ''a'', frc_sourceDir = None\<rparr>]) \<longleftrightarrow>
    root = ''/p''"
proof -
  let ?cs = "[\<lparr>frc_entry = (1::nat), frc_pattern = ''/x'', frc_sourceDir = None\<rparr>, \<lparr>frc_entry = 2, frc_pattern = ''a'', frc_sourceDir = None\<rparr>]"
  have a: "compiled_candidate ''/p'' ''/h'' Allow (?cs ! 0) = None" by code_simp
  have b: "compiled_candidate ''/p'' ''/h'' Allow (?cs ! 1) = Some (''/p'', ''a'')" by code_simp
  have e: "(\<exists>c\<in>set ?cs. \<exists>p. compiled_candidate ''/p'' ''/h'' Allow c = Some (root, p)) \<longleftrightarrow> root = ''/p''" for root
    using a b by auto
  show ?thesis
    using conjunct1 [OF conjunct2 [OF file_rules_grouped_by_root [of "''/p''" "''/h''" Allow ?cs]]] unfolding e .
qed

text \<open>
  A match always names a rule that was asked about. When the grouped match gives an entry, it is the
  entry of a candidate whose compiled pattern the matcher of its root reported for the path made relative to that root, and
  the path is inside that root.
\<close>

theorem file_rule_match_sound:
  assumes "matchFileRulesGrouped ignore pcwd candidates path cwd home direction = Inr (Some e)"
  shows "\<exists>c\<in>set candidates. \<exists>root p result. frc_entry c = e \<and> compiled_candidate cwd home direction c = Some (root, p)
    \<and> \<not> isOutsideIgnoreRoot (path_relative pcwd root path)
    \<and> ignore (patterns_at cwd home direction root candidates) (path_relative pcwd root path) = Inr result
    \<and> ir_ignored result \<and> ir_rule result = Some p"
proof -
  obtain g p result where g: "g \<in> set (file_rule_groups cwd home direction candidates)"
    "\<not> isOutsideIgnoreRoot (path_relative pcwd (rg_root g) path)"
    "ignore (rg_patterns g) (path_relative pcwd (rg_root g) path) = Inr result"
    "ir_ignored result" "ir_rule result = Some p" "rg_entryByPattern g p = Some e"
    using match_groups_Some assms unfolding matchFileRulesGrouped_def by metis
  obtain c where "c \<in> set candidates" "compiled_candidate cwd home direction c = Some (rg_root g, p)" "frc_entry c = e"
    using file_rule_groups_entries [OF g(1,6)] by blast
  then show ?thesis using g(2-5) file_rule_groups_patterns [OF g(1)] by metis
qed

text \<open>A matcher that reports the last pattern for every path.\<close>

definition report_last :: ignore_package where
  "report_last patterns rel = Inr \<lparr>ir_ignored = True, ir_rule = Some (last patterns)\<rparr>"

theorem file_rule_match_sound_witness:
  "\<exists>root p. compiled_candidate ''/p'' ''/h'' DenyAsk \<lparr>frc_entry = (7::nat), frc_pattern = ''a/**'', frc_sourceDir = None\<rparr> = Some (root, p)
    \<and> \<not> isOutsideIgnoreRoot (path_relative ''/'' root ''/p/a/b'')"
proof -
  let ?c = "\<lparr>frc_entry = (7::nat), frc_pattern = ''a/**'', frc_sourceDir = None\<rparr>"
  have "matchFileRulesGrouped report_last ''/'' [?c] ''/p/a/b'' ''/p'' ''/h'' DenyAsk = Inr (Some 7)" by code_simp
  from file_rule_match_sound [OF this] show ?thesis by auto
qed

text \<open>
  The working-directory boundary is the prefix order on names. For absolute paths in normal form outside the system's
  private aliases, a path is within a root exactly when the names of the root are the first names of the
  path: a sibling whose name merely starts with the root's name is outside, and the root itself is inside.
\<close>

theorem isPathWithinRoot_prefix:
  assumes "list_all proper_name root" and "list_all proper_name child"
    and "\<not> prefix [''private''] root" and "\<not> prefix [''private''] child"
  shows "isPathWithinRoot pcwd (abs_path child) (abs_path root) False \<longleftrightarrow> prefix root child"
proof -
  have short: "shortSystemAlias (abs_path s) = abs_path s"
    if "list_all proper_name s" "\<not> prefix [''private''] s" for s
  proof (cases s)
    case Nil
    then show ?thesis by (simp add: shortSystemAlias_def abs_path_def startsWith_def)
  next
    case (Cons x xs)
    then have x: "CHR ''/'' \<notin> set x" "x \<noteq> ''private''" using that by (simp_all add: proper_name_def)
    have f: "takeWhile (\<lambda>c. c \<noteq> CHR ''/'') (join_with ''/'' s) = x" unfolding Cons using x(1) by (rule first_name_join)
    have no: "\<not> prefix (''/private/'' @ u) (abs_path s)" for u
    proof
      assume "prefix (''/private/'' @ u) (abs_path s)"
      then obtain v where "join_with ''/'' s = ''private/'' @ u @ v" by (auto simp: prefix_def abs_path_def)
      with f x(2) show False by simp
    qed
    then have "\<not> prefix ''/private/var/'' (abs_path s)" "\<not> prefix ''/private/tmp'' (abs_path s)" 
      using no [of "''var/''"] no [of "''tmp''"] by simp_all
    then show ?thesis by (auto simp: shortSystemAlias_def startsWith_iff_prefix prefix_def)
  qed
  show ?thesis
    unfolding isPathWithinRoot_def Let_def if_False short [OF assms(1,3)] short [OF assms(2,4)]
    by (rule within_abs [OF assms(1,2), unfolded Let_def])
qed

theorem isPathWithinRoot_prefix_witness:
  "isPathWithinRoot ''/'' ''/w/project/src'' ''/w/project'' False \<and> \<not> isPathWithinRoot ''/'' ''/w/project2/src'' ''/w/project'' False"
proof -
  have p: "list_all proper_name [''w'', ''project'']" "list_all proper_name [''w'', ''project'', ''src'']"
    "list_all proper_name [''w'', ''project2'', ''src'']" by (simp_all add: proper_name_def)
  have a: "abs_path [''w'', ''project''] = ''/w/project''" "abs_path [''w'', ''project'', ''src''] = ''/w/project/src''"
    "abs_path [''w'', ''project2'', ''src''] = ''/w/project2/src''" by (simp_all add: abs_path_def)
  show ?thesis
    using isPathWithinRoot_prefix [OF p(1,2), of "''/''"] isPathWithinRoot_prefix [OF p(1,3), of "''/''"] by (simp add: a)
qed

text \<open>
  A real path put into a rule pattern stands for itself. Reading the escaped text with each
  escaped character literal gives the path back, so no bracket, star or backslash of it is left to act as a
  glob, and its trailing white space is escaped and so not trimmed away.
\<close>

theorem escapeFileRulePathSegment_literal:
  "literal_pattern (escapeFileRulePathSegment path) = Some path
    \<and> (path = [] \<or> \<not> is_ws (last path) \<or> (\<exists>pre c. escapeFileRulePathSegment path = pre @ [backslash, c]))"
proof -
  obtain body ws where s: "path = body @ ws" "list_all is_ws ws" "body = [] \<or> \<not> is_ws (last body)"
    "escapeFileRulePathSegment path = concat (map escape_unit body) @ concat (map (\<lambda>c. [backslash, c]) ws)"
    by (rule escape_split)
  have "literal_pattern (escapeFileRulePathSegment path) = Some path"
    unfolding s(4) literal_pattern_append [OF literal_pattern_units] literal_pattern_all_escaped by (simp add: s(1))
  moreover have "\<exists>pre c. escapeFileRulePathSegment path = pre @ [backslash, c]" if "ws \<noteq> []"
    using that unfolding s(4) by (cases ws rule: rev_cases) auto
  moreover have "path = [] \<or> \<not> is_ws (last path) \<or> (\<exists>pre c. escapeFileRulePathSegment path = pre @ [backslash, c])" if "ws = []"
    using that s(1,3) by auto
  ultimately show ?thesis by blast
qed



theorem escapeFileRulePathSegment_literal_witness:
  "literal_pattern (escapeFileRulePathSegment ''/w/[id] '') = Some ''/w/[id] ''
    \<and> (\<exists>pre c. escapeFileRulePathSegment ''/w/[id] '' = pre @ [backslash, c])"
  using escapeFileRulePathSegment_literal [of "''/w/[id] ''"] by (auto simp: is_ws_def)

end
