(* ===== verification/Store_Contract.thy ===== *)
theory Store_Contract
  imports Main
begin

text \<open>
  The contracts of a mutable store whose operations may be refused. An operation on a store in state
  \<open>s\<close> either raises (a value on the left, the store keeps its state) or gives the next state. The
  locales state what the users of such a store rely on: a part that a class of operations cannot
  change, an invariant, a version number that tells the states of one run apart.
\<close>

text \<open>The state after a sequence of operations, refused ones skipped.\<close>

fun run_updates :: "('u \<Rightarrow> 's \<Rightarrow> 'e + 's) \<Rightarrow> 's \<Rightarrow> 'u list \<Rightarrow> 's" where
  "run_updates step s [] = s"
| "run_updates step s (u # us) = (case step u s of Inl _ \<Rightarrow> run_updates step s us | Inr s' \<Rightarrow> run_updates step s' us)"

text \<open>A store with a part that the operations in \<open>ordinary\<close> never change.\<close>

locale guarded_store =
  fixes step :: "'u \<Rightarrow> 's \<Rightarrow> 'e + 's"
    and ordinary :: "'u \<Rightarrow> bool"
    and part :: "'s \<Rightarrow> 'p"
  assumes untouched: "ordinary u \<Longrightarrow> step u s = Inr s' \<Longrightarrow> part s' = part s"
begin

lemma run_untouched: "list_all ordinary us \<Longrightarrow> part (run_updates step s us) = part s"
proof (induction us arbitrary: s)
  case (Cons u us)
  then show ?case using untouched [of u s] by (auto split: sum.split)
qed simp

end

text \<open>A store whose operations keep an invariant.\<close>

locale invariant_store =
  fixes step :: "'u \<Rightarrow> 's \<Rightarrow> 'e + 's"
    and inv :: "'s \<Rightarrow> bool"
  assumes kept: "inv s \<Longrightarrow> step u s = Inr s' \<Longrightarrow> inv s'"
begin

lemma run_kept: "inv s \<Longrightarrow> inv (run_updates step s us)"
proof (induction us arbitrary: s)
  case (Cons u us)
  then show ?case using kept [of s u] by (auto split: sum.split)
qed simp

end

text \<open>A store that counts its changes.\<close>

locale versioned_store =
  fixes step :: "'u \<Rightarrow> 's \<Rightarrow> 'e + 's"
    and version :: "'s \<Rightarrow> nat"
  assumes bumped: "step u s = Inr s' \<Longrightarrow> version s' = Suc (version s)"
begin

lemma run_monotone: "version s \<le> version (run_updates step s us)"
proof (induction us arbitrary: s)
  case (Cons u us)
  show ?case
  proof (cases "step u s")
    case (Inr s')
    with bumped [of u s s'] Cons [of s'] show ?thesis by simp
  qed (use Cons in simp)
qed simp

text \<open>A run that ends with the version it started with has changed nothing.\<close>

lemma same_version_same_state: "version (run_updates step s us) = version s \<Longrightarrow> run_updates step s us = s"
proof (induction us arbitrary: s)
  case (Cons u us)
  show ?case
  proof (cases "step u s")
    case (Inr s')
    have "version s < version (run_updates step s' us)"
      using bumped [OF Inr] run_monotone [of s' us] by simp
    with Cons.prems Inr show ?thesis by simp
  qed (use Cons in simp)
qed simp

end

end
