(* ===== verification/Ruleset.thy ===== *)
theory Ruleset
  imports Paths Store_Contract
begin

text \<open>
  The sourced rule store (\<^verbatim>\<open>permissions/ruleset.ts\<close> and the update types of
  \<^verbatim>\<open>sdk/src/permissions/types.ts\<close>): construction and validation of entries, the six permission
  updates with their authority checks, and the lookup \<open>resolveRules\<close>. A raised error is a value on
  the left of a sum, with the class and the case of the error (not its message text). The tool
  registry, which the store only reads, is the argument \<open>registry\<close>: the permission class of a
  registered tool. The locale \<open>guarded_store\<close> is the contract of a store with a part that
  ordinary callers cannot change.
\<close>

subsection \<open>Data\<close>

datatype permission_mode = Default | AcceptEdits | BypassPermissions | Plan | DontAsk | Auto

datatype rule_source = Managed | User | Project | Local | CliArg | Session | Sdk

record permission_rule_value =
  rv_toolName :: string
  rv_ruleContent :: "string option"

record sourced_rule_entry =
  entry_rule :: parsed_rule
  entry_behavior :: permission_behavior
  entry_source :: rule_source
  entry_ruleValue :: permission_rule_value
  entry_sourceDir :: "string option"

record directory_grant =
  dir_path :: string
  dir_source :: rule_source

record sourced_rule_set =
  entries :: "sourced_rule_entry list"
  set_mode :: "(permission_mode \<times> rule_source) option"
  directories :: "directory_grant list"

text \<open>An update as it arrives; its destination is a text, and its type may be one the runtime does not know.\<close>

datatype permission_update =
    AddRules "permission_rule_value list" permission_behavior string
  | ReplaceRules "permission_rule_value list" permission_behavior string
  | RemoveRules "permission_rule_value list" permission_behavior string
  | SetMode permission_mode string
  | AddDirectories "string list" string
  | RemoveDirectories "string list" string
  | UnknownUpdate string

datatype rule_error_case = MisroutedFileRule | InvalidRule string | UnanchoredMcpAllow | DoubleStarsOverCap | SegmentStarsOverCap

datatype permission_error =
    PermissionRuleValidationError rule_error_case permission_rule_value permission_behavior
  | PermissionUpdateAuthorityError rule_source string

type_synonym tool_registry = "string \<Rightarrow> string option"

definition emptyRuleSet :: sourced_rule_set where
  "emptyRuleSet = \<lparr>entries = [], set_mode = None, directories = []\<rparr>"

subsection \<open>Rule values and rule texts\<close>

definition ruleValueToRaw :: "permission_rule_value \<Rightarrow> string" where
  "ruleValueToRaw v =
     (case rv_ruleContent v of Some content \<Rightarrow> rv_toolName v @ ''('' @ content @ '')'' | None \<Rightarrow> rv_toolName v)"

text \<open>The regular expression \<open>RAW_RULE_SHAPE\<close>: a name without blanks, the rest in parentheses.\<close>

definition RAW_RULE_SHAPE :: "string \<Rightarrow> (string \<times> string) option" where
  "RAW_RULE_SHAPE txt =
     (let name = takeWhile (\<lambda>c. \<not> is_ws c \<and> c \<noteq> CHR ''('') txt; rest = drop (length name) txt
      in if name \<noteq> [] \<and> length rest \<ge> 2 \<and> hd rest = CHR ''('' \<and> last rest = CHR '')''
         then Some (name, butlast (tl rest)) else None)"

definition rawToRuleValue :: "string \<Rightarrow> permission_rule_value" where
  "rawToRuleValue rawText =
     (let trimmed = trim rawText in
      case RAW_RULE_SHAPE trimmed of
        None \<Rightarrow> \<lparr>rv_toolName = trimmed, rv_ruleContent = None\<rparr>
      | Some (name, content) \<Rightarrow> \<lparr>rv_toolName = name, rv_ruleContent = Some content\<rparr>)"

subsection \<open>Validation when a rule is added\<close>

definition assertFileRuleRoutingConsistency ::
  "tool_registry \<Rightarrow> permission_rule_value \<Rightarrow> permission_behavior \<Rightarrow> parsed_rule \<Rightarrow> permission_error option" where
  "assertFileRuleRoutingConsistency registry value behavior parsed =
     (case registry (toolName parsed) of
        None \<Rightarrow> None
      | Some permissionClass \<Rightarrow>
          if permissionClass = ''edit'' \<and> toolName parsed \<notin> set FILE_RULE_TOOLS
          then Some (PermissionRuleValidationError MisroutedFileRule value behavior) else None)"

text \<open>The checks of \<open>validateNewRule\<close>, in order: the specifier, an allow glob over MCP tools, the glob caps.\<close>

definition validate_caps :: "permission_rule_value \<Rightarrow> permission_behavior \<Rightarrow> parsed_rule \<Rightarrow> permission_error + parsed_rule" where
  "validate_caps value behavior parsed =
     (if toolName parsed = ''Read'' \<or> toolName parsed = ''Edit'' then
        (case rv_ruleContent value of
           None \<Rightarrow> Inr parsed
         | Some content \<Rightarrow>
             if exceedsDoubleStarCap content then Inl (PermissionRuleValidationError DoubleStarsOverCap value behavior)
             else if exceedsStarsPerSegmentCap content then Inl (PermissionRuleValidationError SegmentStarsOverCap value behavior)
             else Inr parsed)
      else Inr parsed)"

definition validate_glob :: "permission_rule_value \<Rightarrow> permission_behavior \<Rightarrow> parsed_rule \<Rightarrow> permission_error + parsed_rule" where
  "validate_glob value behavior parsed =
     (if behavior = BAllow \<and> startsWith (toolName parsed) ''mcp__'' \<and> str_includes (toolName parsed) ''*''
         \<and> \<not> isAnchoredMcpAllowGlob (toolName parsed)
      then Inl (PermissionRuleValidationError UnanchoredMcpAllow value behavior)
      else validate_caps value behavior parsed)"

definition validateNewRule ::
  "url_parser \<Rightarrow> tool_registry \<Rightarrow> permission_rule_value \<Rightarrow> permission_behavior \<Rightarrow> permission_error + parsed_rule" where
  "validateNewRule url registry value behavior =
     (let parsed = parseRule url (ruleValueToRaw value)
      in case (if rv_ruleContent value \<noteq> None
               then assertFileRuleRoutingConsistency registry value behavior parsed else None) of
           Some err \<Rightarrow> Inl err
         | None \<Rightarrow>
             (case specifier parsed of
                Some (Invalid reason) \<Rightarrow> Inl (PermissionRuleValidationError (InvalidRule reason) value behavior)
              | _ \<Rightarrow> validate_glob value behavior parsed))"

definition sourceRule ::
  "url_parser \<Rightarrow> tool_registry \<Rightarrow> permission_rule_value \<Rightarrow> permission_behavior \<Rightarrow> rule_source \<Rightarrow> string option
    \<Rightarrow> permission_error + sourced_rule_entry" where
  "sourceRule url registry value behavior source sourceDir =
     map_sum id (\<lambda>parsed. \<lparr>entry_rule = parsed, entry_behavior = behavior, entry_source = source,
                           entry_ruleValue = value, entry_sourceDir = sourceDir\<rparr>)
       (validateNewRule url registry value behavior)"

subsection \<open>Destinations and authority\<close>

definition DESTINATION_TO_SOURCE :: "string \<Rightarrow> rule_source option" where
  "DESTINATION_TO_SOURCE =
     map_of [(''userSettings'', User), (''projectSettings'', Project), (''localSettings'', Local),
             (''session'', Session), (''cliArg'', CliArg)]"

text \<open>
  \<open>assertKnownDestination\<close>, \<open>assertAuthorityMayWriteDestination\<close> and the lookup of the source, in the
  order of \<open>applyPermissionUpdate\<close>.
\<close>

definition destination_source :: "string \<Rightarrow> rule_source \<Rightarrow> permission_error + rule_source" where
  "destination_source destination authority =
     (case DESTINATION_TO_SOURCE destination of
        None \<Rightarrow> Inl (PermissionUpdateAuthorityError authority destination)
      | Some source \<Rightarrow>
          if destination = ''cliArg'' \<and> authority \<noteq> CliArg
          then Inl (PermissionUpdateAuthorityError authority destination)
          else Inr source)"

definition assertMayTouchManagedSource :: "rule_source \<Rightarrow> rule_source \<Rightarrow> permission_error option" where
  "assertMayTouchManagedSource currentSource authority =
     (if currentSource = Managed \<and> authority \<noteq> Managed
      then Some (PermissionUpdateAuthorityError authority ''managed'') else None)"

text \<open>Two parsed rules have the same serialisation exactly when they are equal.\<close>

definition sameRule :: "parsed_rule \<Rightarrow> parsed_rule \<Rightarrow> bool" where
  "sameRule a b \<longleftrightarrow> a = b"

text \<open>\<open>xs.map(f)\<close> for a function that may raise: the first error wins.\<close>

fun map_result :: "('a \<Rightarrow> 'e + 'b) \<Rightarrow> 'a list \<Rightarrow> 'e + 'b list" where
  "map_result f [] = Inr []"
| "map_result f (x # xs) =
     (case f x of
        Inl e \<Rightarrow> Inl e
      | Inr y \<Rightarrow> (case map_result f xs of Inl e \<Rightarrow> Inl e | Inr ys \<Rightarrow> Inr (y # ys)))"

text \<open>The first error of a loop that only checks.\<close>

fun first_error :: "('a \<Rightarrow> 'e option) \<Rightarrow> 'a list \<Rightarrow> 'e option" where
  "first_error f [] = None"
| "first_error f (x # xs) = (case f x of Some e \<Rightarrow> Some e | None \<Rightarrow> first_error f xs)"

subsection \<open>Updates\<close>

definition update_destination :: "permission_update \<Rightarrow> string option" where
  "update_destination update =
     (case update of
        AddRules _ _ d \<Rightarrow> Some d | ReplaceRules _ _ d \<Rightarrow> Some d | RemoveRules _ _ d \<Rightarrow> Some d
      | SetMode _ d \<Rightarrow> Some d | AddDirectories _ d \<Rightarrow> Some d | RemoveDirectories _ d \<Rightarrow> Some d
      | UnknownUpdate _ \<Rightarrow> None)"

definition apply_known ::
  "url_parser \<Rightarrow> tool_registry \<Rightarrow> sourced_rule_set \<Rightarrow> permission_update \<Rightarrow> rule_source \<Rightarrow> rule_source
    \<Rightarrow> permission_error + sourced_rule_set" where
  "apply_known url registry st update authority source =
     (case update of
        AddRules rules behavior _ \<Rightarrow>
          map_sum id (\<lambda>added. st\<lparr>entries := entries st @ added\<rparr>)
            (map_result (\<lambda>r. sourceRule url registry r behavior source None) rules)
      | ReplaceRules rules behavior _ \<Rightarrow>
          map_sum id
            (\<lambda>added. st\<lparr>entries :=
               filter (\<lambda>e. \<not> (entry_source e = source \<and> entry_behavior e = behavior)) (entries st) @ added\<rparr>)
            (map_result (\<lambda>r. sourceRule url registry r behavior source None) rules)
      | RemoveRules rules behavior _ \<Rightarrow>
          (let targets = map (\<lambda>r. parseRule url (ruleValueToRaw r)) rules in
           case first_error
                  (\<lambda>t. if list_ex (\<lambda>e. entry_behavior e = behavior \<and> entry_source e = Managed \<and> sameRule (entry_rule e) t)
                              (entries st)
                        then assertMayTouchManagedSource Managed authority else None) targets of
             Some err \<Rightarrow> Inl err
           | None \<Rightarrow>
               Inr (st\<lparr>entries :=
                 filter (\<lambda>e. entry_behavior e \<noteq> behavior \<or> \<not> list_ex (sameRule (entry_rule e)) targets) (entries st)\<rparr>))
      | SetMode mode _ \<Rightarrow> Inr (st\<lparr>set_mode := Some (mode, source)\<rparr>)
      | AddDirectories dirs _ \<Rightarrow>
          Inr (st\<lparr>directories := directories st @ map (\<lambda>p. \<lparr>dir_path = p, dir_source = source\<rparr>) dirs\<rparr>)
      | RemoveDirectories dirs _ \<Rightarrow>
          (case first_error
                  (\<lambda>p. if list_ex (\<lambda>d. dir_path d = p \<and> dir_source d = Managed) (directories st)
                        then assertMayTouchManagedSource Managed authority else None) dirs of
             Some err \<Rightarrow> Inl err
           | None \<Rightarrow> Inr (st\<lparr>directories := filter (\<lambda>d. dir_path d \<notin> set dirs) (directories st)\<rparr>))
      | UnknownUpdate _ \<Rightarrow> Inr st)"

definition applyPermissionUpdate ::
  "url_parser \<Rightarrow> tool_registry \<Rightarrow> sourced_rule_set \<Rightarrow> permission_update \<Rightarrow> rule_source
    \<Rightarrow> permission_error + sourced_rule_set" where
  "applyPermissionUpdate url registry st update authority =
     (case update_destination update of
        None \<Rightarrow> Inr st
      | Some destination \<Rightarrow>
          (case destination_source destination authority of
             Inl err \<Rightarrow> Inl err
           | Inr source \<Rightarrow> apply_known url registry st update authority source))"

subsection \<open>Lookup\<close>

record resolved_rules =
  rr_deny :: "sourced_rule_entry option"
  rr_ask :: "sourced_rule_entry option"
  rr_allow :: "sourced_rule_entry option"

definition behavior_direction :: "permission_behavior \<Rightarrow> direction" where
  "behavior_direction b = (if b = BAllow then Allow else DenyAsk)"

definition entry_active :: "bool \<Rightarrow> permission_behavior \<Rightarrow> sourced_rule_entry \<Rightarrow> bool" where
  "entry_active trustedWorkspace behavior entry \<longleftrightarrow>
     entry_behavior entry = behavior \<and>
     \<not> (behavior = BAllow \<and> entry_source entry = Project \<and> \<not> trustedWorkspace)"

definition firstMatch ::
  "url_parser \<Rightarrow> bool \<Rightarrow> sourced_rule_entry list \<Rightarrow> tool_call \<Rightarrow> permission_behavior \<Rightarrow> direction \<Rightarrow> sourced_rule_entry option" where
  "firstMatch url trustedWorkspace pool call behavior direction =
     find (\<lambda>entry. entry_active trustedWorkspace behavior entry \<and> matchesRule url (entry_rule entry) call direction) pool"

definition resolveRules ::
  "url_parser \<Rightarrow> sourced_rule_set \<Rightarrow> tool_call \<Rightarrow> bool \<Rightarrow> bool \<Rightarrow> resolved_rules" where
  "resolveRules url st call trustedWorkspace allowManagedPermissionRulesOnly =
     (let pool = (if allowManagedPermissionRulesOnly then filter (\<lambda>e. entry_source e = Managed) (entries st) else entries st)
      in \<lparr>rr_deny = firstMatch url trustedWorkspace pool call BDeny DenyAsk,
          rr_ask = firstMatch url trustedWorkspace pool call BAsk DenyAsk,
          rr_allow = firstMatch url trustedWorkspace pool call BAllow Allow\<rparr>)"

text \<open>The entries a lookup looks at, and the slot of a behaviour in its answer.\<close>

definition effective_pool :: "bool \<Rightarrow> sourced_rule_set \<Rightarrow> sourced_rule_entry list" where
  "effective_pool managedOnly st =
     (if managedOnly then filter (\<lambda>e. entry_source e = Managed) (entries st) else entries st)"

definition slot_of :: "permission_behavior \<Rightarrow> resolved_rules \<Rightarrow> sourced_rule_entry option" where
  "slot_of b r = (case b of BDeny \<Rightarrow> rr_deny r | BAsk \<Rightarrow> rr_ask r | BAllow \<Rightarrow> rr_allow r)"

definition effectiveDirectories :: "sourced_rule_set \<Rightarrow> bool \<Rightarrow> string list" where
  "effectiveDirectories st trustedWorkspace =
     map dir_path (filter (\<lambda>d. dir_source d \<noteq> Project \<or> trustedWorkspace) (directories st))"

subsection \<open>Entries from the SDK options\<close>

record sdk_rule_inputs =
  opt_allowedTools :: "string list option"
  opt_disallowedTools :: "string list option"
  opt_allow :: "string list option"
  opt_ask :: "string list option"
  opt_deny :: "string list option"

definition buildSdkSourcedEntries ::
  "url_parser \<Rightarrow> tool_registry \<Rightarrow> sdk_rule_inputs \<Rightarrow> permission_error + sourced_rule_entry list" where
  "buildSdkSourcedEntries url registry opts =
     map_result (\<lambda>(rawText, behavior). sourceRule url registry (rawToRuleValue rawText) behavior Sdk None)
       (concat (map (\<lambda>(raws, behavior). map (\<lambda>r. (r, behavior)) (the_default [] raws))
          [(opt_allowedTools opts, BAllow), (opt_disallowedTools opts, BDeny), (opt_allow opts, BAllow),
           (opt_ask opts, BAsk), (opt_deny opts, BDeny)]))"

subsection \<open>Rule values and rule texts are inverse\<close>

lemma RAW_RULE_SHAPE_Some:
  assumes "RAW_RULE_SHAPE s = Some (name, content)"
  shows "s = name @ ''('' @ content @ '')''"
proof -
  define n where "n = takeWhile (\<lambda>c. \<not> is_ws c \<and> c \<noteq> CHR ''('') s"
  define r where "r = drop (length n) s"
  have h: "length r \<ge> 2" "hd r = CHR ''(''" "last r = CHR '')''" "name = n" "content = butlast (tl r)"
    using assms unfolding RAW_RULE_SHAPE_def Let_def n_def [symmetric] r_def [symmetric] by (auto split: if_splits)
  have "s = n @ r"
    unfolding r_def n_def dropWhile_eq_drop [symmetric] by (rule takeWhile_dropWhile_id [symmetric])
  moreover have "r = ''('' @ butlast (tl r) @ '')''"
  proof (cases r)
    case (Cons c r')
    then have "r' \<noteq> []" using h(1) by (cases r') auto
    then have "r' = butlast r' @ [last r']" by simp
    with Cons h \<open>r' \<noteq> []\<close> show ?thesis by simp
  qed (use h in simp)
  ultimately show ?thesis using h by simp
qed

lemma ruleValueToRaw_rawToRuleValue: "ruleValueToRaw (rawToRuleValue s) = trim s"
  using RAW_RULE_SHAPE_Some [of "trim s"]
  by (auto simp: rawToRuleValue_def ruleValueToRaw_def Let_def split: option.split)

lemma parseRule_trim: "parseRule url (trim s) = parseRule url s"
  by (simp add: parseRule_def)

subsection \<open>What a validated rule satisfies\<close>

definition entry_valid :: "url_parser \<Rightarrow> sourced_rule_entry \<Rightarrow> bool" where
  "entry_valid url e \<longleftrightarrow>
     entry_rule e = parseRule url (ruleValueToRaw (entry_ruleValue e))
     \<and> (\<forall>reason. specifier (entry_rule e) \<noteq> Some (Invalid reason))
     \<and> (entry_behavior e = BAllow \<longrightarrow> startsWith (toolName (entry_rule e)) ''mcp__'' \<longrightarrow>
          str_includes (toolName (entry_rule e)) ''*'' \<longrightarrow> isAnchoredMcpAllowGlob (toolName (entry_rule e)))
     \<and> (toolName (entry_rule e) \<in> {''Read'', ''Edit''} \<longrightarrow>
          (\<forall>content. rv_ruleContent (entry_ruleValue e) = Some content \<longrightarrow>
             \<not> exceedsDoubleStarCap content \<and> \<not> exceedsStarsPerSegmentCap content))"

lemma validateNewRule_Inr:
  assumes "validateNewRule url registry value behavior = Inr parsed"
  shows "parsed = parseRule url (ruleValueToRaw value)" "\<forall>reason. specifier parsed \<noteq> Some (Invalid reason)"
    "behavior = BAllow \<Longrightarrow> startsWith (toolName parsed) ''mcp__'' \<Longrightarrow> str_includes (toolName parsed) ''*'' \<Longrightarrow>
      isAnchoredMcpAllowGlob (toolName parsed)"
    "toolName parsed \<in> {''Read'', ''Edit''} \<Longrightarrow> rv_ruleContent value = Some content \<Longrightarrow>
      \<not> exceedsDoubleStarCap content \<and> \<not> exceedsStarsPerSegmentCap content"
proof -
  let ?p = "parseRule url (ruleValueToRaw value)"
  have ni: "\<forall>reason. specifier ?p \<noteq> Some (Invalid reason)" and g: "validate_glob value behavior ?p = Inr parsed"
    using assms by (auto simp: validateNewRule_def Let_def split: option.splits specifier.splits)
  have c: "validate_caps value behavior ?p = Inr parsed" using g by (simp add: validate_glob_def split: if_splits)
  show p: "parsed = ?p" using c by (auto simp: validate_caps_def split: if_splits option.splits)
  show "\<forall>reason. specifier parsed \<noteq> Some (Invalid reason)" using ni p by simp
  show "behavior = BAllow \<Longrightarrow> startsWith (toolName parsed) ''mcp__'' \<Longrightarrow> str_includes (toolName parsed) ''*'' \<Longrightarrow>
      isAnchoredMcpAllowGlob (toolName parsed)"
    using g p by (simp add: validate_glob_def split: if_splits)
  show "toolName parsed \<in> {''Read'', ''Edit''} \<Longrightarrow> rv_ruleContent value = Some content \<Longrightarrow>
      \<not> exceedsDoubleStarCap content \<and> \<not> exceedsStarsPerSegmentCap content"
    using c p by (auto simp: validate_caps_def split: if_splits)
qed

lemma sourceRule_Inr:
  assumes "sourceRule url registry value behavior source dir = Inr e"
  shows "entry_valid url e" "entry_source e = source" "entry_behavior e = behavior" "entry_ruleValue e = value"
    "entry_rule e = parseRule url (ruleValueToRaw value)"
proof -
  from assms obtain parsed where v: "validateNewRule url registry value behavior = Inr parsed"
    and e: "e = \<lparr>entry_rule = parsed, entry_behavior = behavior, entry_source = source,
                 entry_ruleValue = value, entry_sourceDir = dir\<rparr>"
    by (cases "validateNewRule url registry value behavior") (auto simp: sourceRule_def)
  show "entry_source e = source" "entry_behavior e = behavior" "entry_ruleValue e = value"
    "entry_rule e = parseRule url (ruleValueToRaw value)"
    using validateNewRule_Inr(1) [OF v] by (simp_all add: e)
  show "entry_valid url e" using validateNewRule_Inr [OF v] unfolding entry_valid_def e by (simp only: sourced_rule_entry.select_convs) blast
qed

lemma map_result_Inr: "map_result f xs = Inr ys \<Longrightarrow> length ys = length xs \<and> (\<forall>i<length xs. f (xs ! i) = Inr (ys ! i))"
proof (induction xs arbitrary: ys)
  case (Cons x xs)
  then show ?case by (auto split: sum.splits simp: nth_Cons' All_less_Suc2)
qed simp

lemma map_result_all: "map_result f xs = Inr ys \<Longrightarrow> (\<And>x y. f x = Inr y \<Longrightarrow> P y) \<Longrightarrow> list_all P ys"
proof (induction xs arbitrary: ys)
  case (Cons x xs)
  then show ?case by (auto split: sum.splits)
qed simp

lemma first_error_None: "first_error f xs = None \<longleftrightarrow> (\<forall>x\<in>set xs. f x = None)"
  by (induction xs) (auto split: option.splits)

subsection \<open>The managed part of a rule set\<close>

definition managed_part :: "sourced_rule_set \<Rightarrow> sourced_rule_entry list \<times> directory_grant list" where
  "managed_part st =
     (filter (\<lambda>e. entry_source e = Managed) (entries st), filter (\<lambda>d. dir_source d = Managed) (directories st))"

lemma destination_not_managed: "destination_source d a = Inr s \<Longrightarrow> s \<noteq> Managed"
  by (auto simp: destination_source_def DESTINATION_TO_SOURCE_def split: option.splits if_splits)

lemma map_result_sources:
  "map_result (\<lambda>r. sourceRule url registry r behavior source dir) rules = Inr added \<Longrightarrow>
    list_all (\<lambda>e. entry_source e = source \<and> entry_behavior e = behavior \<and> entry_valid url e) added"
  by (erule map_result_all) (simp add: sourceRule_Inr)

lemma applyPermissionUpdate_Inr:
  assumes "applyPermissionUpdate url registry st update authority = Inr st'"
  obtains "update_destination update = None" "st' = st"
  | d source where "update_destination update = Some d" "destination_source d authority = Inr source"
      "source \<noteq> Managed" "apply_known url registry st update authority source = Inr st'"
  using assms destination_not_managed
  by (auto simp: applyPermissionUpdate_def split: option.splits sum.splits)

lemma filter_managed_added:
  "source \<noteq> Managed \<Longrightarrow> list_all (\<lambda>e. entry_source e = source \<and> P e) added \<Longrightarrow> filter (\<lambda>e. entry_source e = Managed) added = []"
  by (auto simp: filter_empty_conv list_all_iff)

lemma remove_managed_check:
  assumes "first_error (\<lambda>t. if list_ex (Q t) xs then assertMayTouchManagedSource Managed authority else None) targets = None"
    and "authority \<noteq> Managed" and "t \<in> set targets"
  shows "\<not> list_ex (Q t) xs"
  using assms by (auto simp: first_error_None assertMayTouchManagedSource_def)

lemma apply_known_managed:
  assumes "apply_known url registry st update authority source = Inr st'" "source \<noteq> Managed" "authority \<noteq> Managed"
  shows "managed_part st' = managed_part st"
proof (cases update)
  case (AddRules rules behavior d)
  with assms obtain added where a: "map_result (\<lambda>r. sourceRule url registry r behavior source None) rules = Inr added"
    "st' = st\<lparr>entries := entries st @ added\<rparr>"
    by (cases "map_result (\<lambda>r. sourceRule url registry r behavior source None) rules") (auto simp: apply_known_def)
  show ?thesis using filter_managed_added [OF assms(2) map_result_sources [OF a(1)]] by (simp add: a(2) managed_part_def)
next
  case (ReplaceRules rules behavior d)
  with assms obtain added where a: "map_result (\<lambda>r. sourceRule url registry r behavior source None) rules = Inr added"
    "st' = st\<lparr>entries := filter (\<lambda>e. \<not> (entry_source e = source \<and> entry_behavior e = behavior)) (entries st) @ added\<rparr>"
    by (cases "map_result (\<lambda>r. sourceRule url registry r behavior source None) rules") (auto simp: apply_known_def)
  have "filter (\<lambda>e. entry_source e = Managed) (filter (\<lambda>e. \<not> (entry_source e = source \<and> entry_behavior e = behavior)) (entries st))
      = filter (\<lambda>e. entry_source e = Managed) (entries st)"
    unfolding filter_filter using assms(2) by (intro filter_cong) auto
  then show ?thesis using filter_managed_added [OF assms(2) map_result_sources [OF a(1)]] by (simp add: a(2) managed_part_def)
next
  case (RemoveRules rules behavior d)
  let ?targets = "map (\<lambda>r. parseRule url (ruleValueToRaw r)) rules"
  have ok: "first_error
      (\<lambda>t. if list_ex (\<lambda>e. entry_behavior e = behavior \<and> entry_source e = Managed \<and> sameRule (entry_rule e) t) (entries st)
            then assertMayTouchManagedSource Managed authority else None) ?targets = None"
    and st': "st' = st\<lparr>entries := filter (\<lambda>e. entry_behavior e \<noteq> behavior \<or> \<not> list_ex (sameRule (entry_rule e)) ?targets) (entries st)\<rparr>"
    using assms(1) RemoveRules by (auto simp: apply_known_def Let_def split: option.splits)
  have "\<not> (entry_behavior e = behavior \<and> list_ex (sameRule (entry_rule e)) ?targets)"
    if e: "e \<in> set (entries st)" "entry_source e = Managed" for e
    using remove_managed_check [OF ok assms(3)] e by (auto simp: list_ex_iff)
  then have "filter (\<lambda>e. entry_source e = Managed)
      (filter (\<lambda>e. entry_behavior e \<noteq> behavior \<or> \<not> list_ex (sameRule (entry_rule e)) ?targets) (entries st))
      = filter (\<lambda>e. entry_source e = Managed) (entries st)"
    unfolding filter_filter by (intro filter_cong) auto
  then show ?thesis by (simp add: st' managed_part_def)
next
  case (RemoveDirectories dirs d)
  have ok: "first_error (\<lambda>p. if list_ex (\<lambda>d. dir_path d = p \<and> dir_source d = Managed) (directories st)
      then assertMayTouchManagedSource Managed authority else None) dirs = None"
    and st': "st' = st\<lparr>directories := filter (\<lambda>d. dir_path d \<notin> set dirs) (directories st)\<rparr>"
    using assms(1) RemoveDirectories by (auto simp: apply_known_def split: option.splits)
  have "dir_path g \<notin> set dirs" if g: "g \<in> set (directories st)" "dir_source g = Managed" for g
    using remove_managed_check [OF ok assms(3)] g by (auto simp: list_ex_iff)
  then have "filter (\<lambda>d. dir_source d = Managed) (filter (\<lambda>d. dir_path d \<notin> set dirs) (directories st))
      = filter (\<lambda>d. dir_source d = Managed) (directories st)"
    unfolding filter_filter by (intro filter_cong) auto
  then show ?thesis by (simp add: st' managed_part_def)
qed (use assms in \<open>auto simp: apply_known_def managed_part_def filter_empty_conv\<close>)

definition update_step ::
  "url_parser \<Rightarrow> tool_registry \<Rightarrow> permission_update \<times> rule_source \<Rightarrow> sourced_rule_set \<Rightarrow> permission_error + sourced_rule_set" where
  "update_step url registry u st = applyPermissionUpdate url registry st (fst u) (snd u)"

interpretation managed_rules: guarded_store "update_step url registry" "\<lambda>u. snd u \<noteq> Managed" managed_part
  for url registry
  by unfold_locales
    (auto simp: update_step_def elim!: applyPermissionUpdate_Inr intro: apply_known_managed)

lemma apply_known_valid:
  assumes "apply_known url registry st update authority source = Inr st'" "list_all (entry_valid url) (entries st)"
  shows "list_all (entry_valid url) (entries st')"
proof (cases update)
  case (AddRules rules behavior d)
  with assms show ?thesis
    by (cases "map_result (\<lambda>r. sourceRule url registry r behavior source None) rules")
      (auto simp: apply_known_def list_all_iff dest!: map_result_sources)
next
  case (ReplaceRules rules behavior d)
  with assms show ?thesis
    by (cases "map_result (\<lambda>r. sourceRule url registry r behavior source None) rules")
      (auto simp: apply_known_def list_all_iff dest!: map_result_sources)
qed (use assms in \<open>auto simp: apply_known_def Let_def list_all_iff split: option.splits\<close>)

interpretation valid_rules: invariant_store "update_step url registry" "\<lambda>st. list_all (entry_valid url) (entries st)"
  for url registry
  by unfold_locales (auto simp: update_step_def elim!: applyPermissionUpdate_Inr intro: apply_known_valid)

lemma subseq_filter_both: "subseq (filter P (filter Q xs)) (filter P xs)"
proof -
  have "filter P (filter Q xs) = filter Q (filter P xs)" by (simp add: conj_commute)
  then show ?thesis using subseq_filter_left [of Q "filter P xs"] by (simp only:)
qed

lemma find_first: "find P xs = Some x \<longleftrightarrow> (\<exists>i<length xs. P (xs ! i) \<and> x = xs ! i \<and> (\<forall>j<i. \<not> P (xs ! j)))"
  by (rule find_Some_iff)

subsection \<open>Properties\<close>

text \<open>
  C27: managed rules cannot be weakened. Whatever sequence of updates of every kind is applied by
  authorities other than the managed one (refused updates leave the set as it is), the managed rule
  entries and the managed directory grants of the set stay exactly the same, in the same order.
\<close>

theorem managed_rules_unweakenable:
  assumes "list_all (\<lambda>u. snd u \<noteq> Managed) updates"
  shows "managed_part (run_updates (\<lambda>u s. applyPermissionUpdate url registry s (fst u) (snd u)) st updates) = managed_part st"
  using managed_rules.run_untouched [OF assms, of url registry st] unfolding update_step_def .

definition managed_deny :: sourced_rule_entry where
  "managed_deny = \<lparr>entry_rule = parseRule (\<lambda>_. None) ''Bash(rm *)'', entry_behavior = BDeny, entry_source = Managed,
     entry_ruleValue = \<lparr>rv_toolName = ''Bash'', rv_ruleContent = Some ''rm *''\<rparr>, entry_sourceDir = None\<rparr>"

theorem managed_rules_unweakenable_witness:
  "managed_part (run_updates (\<lambda>u s. applyPermissionUpdate (\<lambda>_. None) (\<lambda>_. None) s (fst u) (snd u))
      \<lparr>entries = [managed_deny], set_mode = None, directories = []\<rparr>
      [(RemoveRules [\<lparr>rv_toolName = ''Bash'', rv_ruleContent = Some ''rm *''\<rparr>] BDeny ''userSettings'', User),
       (ReplaceRules [] BDeny ''session'', Session)]) = ([managed_deny], [])"
proof -
  have "managed_part \<lparr>entries = [managed_deny], set_mode = None, directories = []\<rparr> = ([managed_deny], [])"
    by (simp add: managed_part_def managed_deny_def)
  then show ?thesis by (subst managed_rules_unweakenable) simp_all
qed

text \<open>
  No update makes a managed rule. Whoever applies it, managed authority included, the managed
  entries and grants after an update are among those before it, in the same order.
\<close>

lemma updates_never_add_managed:
  assumes "applyPermissionUpdate url registry st update authority = Inr st'"
  shows "subseq (fst (managed_part st')) (fst (managed_part st)) \<and> subseq (snd (managed_part st')) (snd (managed_part st))"
  using assms
proof (cases rule: applyPermissionUpdate_Inr)
  case (2 d source)
  show ?thesis
  proof (cases "authority = Managed")
    case False
    then show ?thesis using apply_known_managed [OF 2(4,3)] by simp
  next
    case True
    show ?thesis
    proof (cases update)
      case (AddRules rules behavior d)
      then show ?thesis
        using 2(4) filter_managed_added [OF 2(3) map_result_sources]
        by (cases "map_result (\<lambda>r. sourceRule url registry r behavior source None) rules")
          (auto simp: apply_known_def managed_part_def)
    next
      case (ReplaceRules rules behavior d)
      then show ?thesis
        using 2(4) filter_managed_added [OF 2(3) map_result_sources]
        by (cases "map_result (\<lambda>r. sourceRule url registry r behavior source None) rules")
          (auto simp: apply_known_def managed_part_def simp del: filter_filter intro: subseq_filter_both)
    qed (use 2(3,4) in \<open>auto simp: apply_known_def managed_part_def Let_def filter_empty_conv
        simp del: filter_filter intro: subseq_filter_both split: option.splits\<close>)
  qed
qed simp

text \<open>
  Every entry the store ever holds is a valid rule. A set whose entries are valid keeps valid entries
  through any sequence of updates, and the entries built from the SDK options are valid: the
  parsed rule is the parse of its own text, no rule is of the invalid kind, no allow rule has a
  wildcard over MCP servers, and no \<open>Read\<close> or \<open>Edit\<close> pattern is over a glob cap.
\<close>

theorem store_entries_valid:
  "(list_all (entry_valid url) (entries st) \<longrightarrow>
      list_all (entry_valid url)
        (entries (run_updates (\<lambda>u s. applyPermissionUpdate url registry s (fst u) (snd u)) st updates)))
    \<and> (\<forall>opts es. buildSdkSourcedEntries url registry opts = Inr es \<longrightarrow> list_all (entry_valid url) es)"
proof -
  have "list_all (entry_valid url) es" if "buildSdkSourcedEntries url registry opts = Inr es" for opts es
    using that unfolding buildSdkSourcedEntries_def by (rule map_result_all) (auto simp: sourceRule_Inr)
  then show ?thesis
    using valid_rules.run_kept [where url = url and registry = registry and s = st and us = updates] unfolding update_step_def by blast
qed

theorem store_entries_valid_witness:
  "list_all (entry_valid (\<lambda>_. None))
    (entries (run_updates (\<lambda>u s. applyPermissionUpdate (\<lambda>_. None) (\<lambda>_. None) s (fst u) (snd u)) emptyRuleSet
      [(AddRules [\<lparr>rv_toolName = ''mcp__*'', rv_ruleContent = None\<rparr>] BAllow ''session'', Session)]))"
proof -
  have "list_all (entry_valid (\<lambda>_. None)) (entries emptyRuleSet)" by (simp add: emptyRuleSet_def)
  then show ?thesis using store_entries_valid by blast
qed

text \<open>
  A rule written as text in the SDK options or a settings file is the rule of that text. Splitting
  a text into a rule value and putting the value back together gives the trimmed text, so the entry
  \<open>sourceRule\<close> makes from it holds exactly what \<open>parseRule\<close> reads from the text.
\<close>

theorem rule_text_roundtrip:
  "ruleValueToRaw (rawToRuleValue txt) = trim txt
    \<and> (\<forall>e. sourceRule url registry (rawToRuleValue txt) behavior source dir = Inr e \<longrightarrow> entry_rule e = parseRule url txt)"
  using sourceRule_Inr(5) [of url registry "rawToRuleValue txt"] by (auto simp: ruleValueToRaw_rawToRuleValue parseRule_trim)

theorem rule_text_roundtrip_witness:
  "\<exists>e. sourceRule (\<lambda>_. None) (\<lambda>_. None) (rawToRuleValue '' Bash(ls) '') BAllow Sdk None = Inr e
    \<and> entry_rule e = parseRule (\<lambda>_. None) '' Bash(ls) ''"
proof -
  have "\<not> isl (sourceRule (\<lambda>_. None) (\<lambda>_. None) (rawToRuleValue '' Bash(ls) '') BAllow Sdk None)" by code_simp
  then obtain e where "sourceRule (\<lambda>_. None) (\<lambda>_. None) (rawToRuleValue '' Bash(ls) '') BAllow Sdk None = Inr e"
    by (cases "sourceRule (\<lambda>_. None) (\<lambda>_. None) (rawToRuleValue '' Bash(ls) '') BAllow Sdk None") simp_all
  then show ?thesis using rule_text_roundtrip by blast
qed

text \<open>
  Replacing the rules of one settings file touches no other. After a \<open>replaceRules\<close> update, the
  entries of the destination's source with that behaviour are exactly the new rules in order, and
  every other entry, directory grant and the mode are as before.
\<close>

theorem replaceRules_scoped:
  assumes "applyPermissionUpdate url registry st (ReplaceRules rules behavior destination) authority = Inr st'"
  shows "\<exists>source. destination_source destination authority = Inr source
    \<and> map entry_ruleValue (filter (\<lambda>e. entry_source e = source \<and> entry_behavior e = behavior) (entries st')) = rules
    \<and> filter (\<lambda>e. \<not> (entry_source e = source \<and> entry_behavior e = behavior)) (entries st')
      = filter (\<lambda>e. \<not> (entry_source e = source \<and> entry_behavior e = behavior)) (entries st)
    \<and> directories st' = directories st \<and> set_mode st' = set_mode st"
proof -
  from assms obtain source where src: "destination_source destination authority = Inr source"
    and k: "apply_known url registry st (ReplaceRules rules behavior destination) authority source = Inr st'"
    by (auto simp: applyPermissionUpdate_def update_destination_def split: sum.splits)
  let ?P = "\<lambda>e. entry_source e = source \<and> entry_behavior e = behavior"
  from k obtain added where a: "map_result (\<lambda>r. sourceRule url registry r behavior source None) rules = Inr added"
    and st': "st' = st\<lparr>entries := filter (\<lambda>e. \<not> ?P e) (entries st) @ added\<rparr>"
    by (cases "map_result (\<lambda>r. sourceRule url registry r behavior source None) rules") (auto simp: apply_known_def)
  have all: "list_all (\<lambda>e. entry_source e = source \<and> entry_behavior e = behavior \<and> entry_valid url e) added"
    by (rule map_result_sources [OF a])
  then have "filter ?P added = added" "filter (\<lambda>e. \<not> ?P e) added = []"
    by (auto simp: list_all_iff filter_id_conv filter_empty_conv)
  moreover have "map entry_ruleValue added = rules"
    using map_result_Inr [OF a] by (intro nth_equalityI) (auto simp: sourceRule_Inr(4))
  ultimately show ?thesis using src by (auto simp: st' filter_empty_conv)
qed

theorem replaceRules_scoped_witness:
  "\<exists>st'. applyPermissionUpdate (\<lambda>_. None) (\<lambda>_. None) \<lparr>entries = [managed_deny], set_mode = None, directories = []\<rparr>
      (ReplaceRules [] BDeny ''session'') Session = Inr st' \<and> directories st' = []"
proof -
  let ?st = "\<lparr>entries = [managed_deny], set_mode = None, directories = []\<rparr> :: sourced_rule_set"
  let ?r = "applyPermissionUpdate (\<lambda>_. None) (\<lambda>_. None) ?st (ReplaceRules [] BDeny ''session'') Session"
  have "?r = Inr (?st\<lparr>entries := filter (\<lambda>e. \<not> (entry_source e = Session \<and> entry_behavior e = BDeny)) [managed_deny] @ []\<rparr>)"
    by (simp add: applyPermissionUpdate_def update_destination_def destination_source_def DESTINATION_TO_SOURCE_def
        apply_known_def)
  then obtain st' where "?r = Inr st'" by blast
  with replaceRules_scoped [OF this] show ?thesis by auto
qed

text \<open>
  Without workspace trust, what a project's own settings allow counts for nothing and what they
  deny still holds. The allow slot never holds a project entry and project directory grants are not
  effective; the deny and ask slots are the same with and without trust.
\<close>

theorem project_allow_needs_trust:
  "(\<forall>e. rr_allow (resolveRules url st call False managedOnly) = Some e \<longrightarrow> entry_source e \<noteq> Project)
    \<and> rr_deny (resolveRules url st call trusted managedOnly) = rr_deny (resolveRules url st call trusted' managedOnly)
    \<and> rr_ask (resolveRules url st call trusted managedOnly) = rr_ask (resolveRules url st call trusted' managedOnly)
    \<and> (\<forall>p\<in>set (effectiveDirectories st False). \<exists>d\<in>set (directories st). dir_path d = p \<and> dir_source d \<noteq> Project)"
  by (auto simp: resolveRules_def firstMatch_def entry_active_def effectiveDirectories_def Let_def find_first)

definition project_allow :: sourced_rule_entry where
  "project_allow = \<lparr>entry_rule = bare ''WebSearch'', entry_behavior = BAllow, entry_source = Project,
     entry_ruleValue = \<lparr>rv_toolName = ''WebSearch'', rv_ruleContent = None\<rparr>, entry_sourceDir = None\<rparr>"

theorem project_allow_needs_trust_witness:
  "rr_allow (resolveRules (\<lambda>_. None) \<lparr>entries = [project_allow], set_mode = None, directories = []\<rparr>
      \<lparr>call_toolName = ''WebSearch'', call_input = (\<lambda>_. None)\<rparr> False False) = None"
proof -
  let ?r = "resolveRules (\<lambda>_. None) \<lparr>entries = [project_allow], set_mode = None, directories = []\<rparr>
      \<lparr>call_toolName = ''WebSearch'', call_input = (\<lambda>_. None)\<rparr> False False"
  have "rr_allow ?r = Some e \<Longrightarrow> e = project_allow" for e
    by (auto simp: resolveRules_def firstMatch_def split: if_splits)
  moreover have "entry_source project_allow = Project" by (simp add: project_allow_def)
  ultimately show ?thesis
    using project_allow_needs_trust [of "\<lambda>_. None"] by (metis option.exhaust)
qed

text \<open>
  The lookup reports a matching rule whenever there is one. A slot of \<open>resolveRules\<close> is empty
  exactly when no entry of the effective set that is active for its behaviour matches the call in
  the direction of that behaviour, and otherwise it holds the first such entry; with managed
  rules only, that entry is managed.
\<close>

theorem resolveRules_first_match:
  "slot_of b (resolveRules url st call trusted managedOnly) =
      find (\<lambda>e. entry_active trusted b e \<and> matchesRule url (entry_rule e) call (behavior_direction b))
        (effective_pool managedOnly st)
    \<and> (slot_of b (resolveRules url st call trusted managedOnly) = None \<longleftrightarrow>
      (\<forall>e\<in>set (effective_pool managedOnly st).
        entry_active trusted b e \<longrightarrow> \<not> matchesRule url (entry_rule e) call (behavior_direction b)))
    \<and> (\<forall>e. managedOnly \<longrightarrow> slot_of b (resolveRules url st call trusted managedOnly) = Some e \<longrightarrow> entry_source e = Managed)"
proof -
  let ?P = "\<lambda>e. entry_active trusted b e \<and> matchesRule url (entry_rule e) call (behavior_direction b)"
  have slot: "slot_of b (resolveRules url st call trusted managedOnly) = find ?P (effective_pool managedOnly st)"
    by (cases b) (simp_all add: slot_of_def effective_pool_def resolveRules_def firstMatch_def behavior_direction_def Let_def)
  have "entry_source e = Managed" if "managedOnly" "find ?P (effective_pool managedOnly st) = Some e" for e
  proof -
    have "e \<in> set (effective_pool managedOnly st)" using that(2) by (auto simp: find_first)
    with that(1) show ?thesis by (simp add: effective_pool_def)
  qed
  then show ?thesis unfolding slot by (auto simp: find_None_iff)
qed

theorem resolveRules_first_match_witness:
  "slot_of BAllow (resolveRules (\<lambda>_. None)
      \<lparr>entries = [project_allow, project_allow\<lparr>entry_source := Managed\<rparr>], set_mode = None, directories = []\<rparr>
      \<lparr>call_toolName = ''WebSearch'', call_input = (\<lambda>_. None)\<rparr> True True) = Some (project_allow\<lparr>entry_source := Managed\<rparr>)
    \<and> entry_source (project_allow\<lparr>entry_source := Managed\<rparr>) = Managed"
proof -
  have "slot_of BAllow (resolveRules (\<lambda>_. None)
      \<lparr>entries = [project_allow, project_allow\<lparr>entry_source := Managed\<rparr>], set_mode = None, directories = []\<rparr>
      \<lparr>call_toolName = ''WebSearch'', call_input = (\<lambda>_. None)\<rparr> True True) = Some (project_allow\<lparr>entry_source := Managed\<rparr>)"
    (is "slot_of BAllow (resolveRules ?url ?st ?call True True) = Some ?e")
    by code_simp
  with conjunct2 [OF conjunct2 [OF resolveRules_first_match [of BAllow ?url ?st ?call True True]], THEN spec, of ?e]
  show ?thesis by (simp only: simp_thms)
qed

text \<open>
  A mode set by managed policy is not protected. An update of the mode by an ordinary session
  replaces a managed mode in the rule set, although no other part with the managed source can be
  changed that way.
\<close>

theorem setMode_replaces_managed_mode:
  "applyPermissionUpdate url registry (st\<lparr>set_mode := Some (Plan, Managed)\<rparr>) (SetMode AcceptEdits ''session'') Session
    = Inr (st\<lparr>set_mode := Some (AcceptEdits, Session)\<rparr>)"
  by (simp add: applyPermissionUpdate_def update_destination_def destination_source_def DESTINATION_TO_SOURCE_def
      apply_known_def)

end
