(* ===== verification/Policy_State.thy ===== *)
theory Policy_State
  imports Ruleset
begin

text \<open>
  The live policy of a session (\<^verbatim>\<open>permissions/policy-state.ts\<close>): the permission mode, the rule set and the
  version counter, changed only through \<open>setMode\<close> and \<open>applyUpdate\<close> behind the gate of the bypass mode.
  The automatic-mode configuration the state carries is never read or changed here and is a type
  parameter. Lemmas: the bypass mode is unreachable when the gate closes it, and the version
  tells the states of a session apart.
\<close>

record 'auto policy_state =
  ps_mode :: permission_mode
  ps_version :: nat
  ps_rules :: sourced_rule_set
  ps_autoConfig :: "'auto option"

definition PERMISSION_MODES :: "(string \<times> permission_mode) list" where
  "PERMISSION_MODES =
     [(''default'', Default), (''acceptEdits'', AcceptEdits), (''bypassPermissions'', BypassPermissions),
      (''plan'', Plan), (''dontAsk'', DontAsk), (''auto'', Auto)]"

definition isPermissionMode :: "string \<Rightarrow> bool" where
  "isPermissionMode value \<longleftrightarrow> value \<in> set (map fst PERMISSION_MODES)"

datatype policy_error = InvalidModeInConfig string | BypassDisabled | BypassNotAllowed | UpdateError permission_error

definition assertKnownPermissionMode :: "string option \<Rightarrow> policy_error + permission_mode" where
  "assertKnownPermissionMode mode =
     (case mode of
        None \<Rightarrow> Inr Default
      | Some m \<Rightarrow> (case map_of PERMISSION_MODES m of None \<Rightarrow> Inl (InvalidModeInConfig m) | Some v \<Rightarrow> Inr v))"

record bypass_gate =
  allowDangerouslySkipPermissions :: bool
  disableBypassPermissionsMode :: bool

definition checkBypassGate :: "permission_mode \<Rightarrow> bypass_gate \<Rightarrow> policy_error option" where
  "checkBypassGate mode gate =
     (if mode \<noteq> BypassPermissions then None
      else if disableBypassPermissionsMode gate then Some BypassDisabled
      else if \<not> allowDangerouslySkipPermissions gate then Some BypassNotAllowed
      else None)"

definition new_store ::
  "bypass_gate \<Rightarrow> permission_mode \<Rightarrow> sourced_rule_set \<Rightarrow> 'auto option \<Rightarrow> policy_error + 'auto policy_state" where
  "new_store gate mode rules autoConfig =
     (case checkBypassGate mode gate of
        Some err \<Rightarrow> Inl err
      | None \<Rightarrow> Inr \<lparr>ps_mode = mode, ps_version = 0, ps_rules = rules, ps_autoConfig = autoConfig\<rparr>)"

definition setMode :: "bypass_gate \<Rightarrow> 'auto policy_state \<Rightarrow> permission_mode \<Rightarrow> policy_error + 'auto policy_state" where
  "setMode gate state mode =
     (case checkBypassGate mode gate of
        Some err \<Rightarrow> Inl err
      | None \<Rightarrow> Inr (state\<lparr>ps_mode := mode, ps_version := ps_version state + 1\<rparr>))"

definition requested_mode :: "permission_update \<Rightarrow> permission_mode option" where
  "requested_mode update = (case update of SetMode mode _ \<Rightarrow> Some mode | _ \<Rightarrow> None)"

definition applyUpdate ::
  "url_parser \<Rightarrow> tool_registry \<Rightarrow> bypass_gate \<Rightarrow> 'auto policy_state \<Rightarrow> permission_update \<Rightarrow> rule_source
    \<Rightarrow> policy_error + 'auto policy_state" where
  "applyUpdate url registry gate state update authority =
     (case (case requested_mode update of Some mode \<Rightarrow> checkBypassGate mode gate | None \<Rightarrow> None) of
        Some err \<Rightarrow> Inl err
      | None \<Rightarrow>
          (case applyPermissionUpdate url registry (ps_rules state) update authority of
             Inl err \<Rightarrow> Inl (UpdateError err)
           | Inr rules \<Rightarrow>
               Inr (state\<lparr>ps_rules := rules, ps_mode := the_default (ps_mode state) (requested_mode update),
                          ps_version := ps_version state + 1\<rparr>)))"

subsection \<open>The store as a transition system\<close>

datatype policy_op = SwitchMode permission_mode | Update permission_update rule_source

definition policy_op_step ::
  "url_parser \<Rightarrow> tool_registry \<Rightarrow> bypass_gate \<Rightarrow> policy_op \<Rightarrow> 'auto policy_state \<Rightarrow> policy_error + 'auto policy_state" where
  "policy_op_step url registry gate oper state =
     (case oper of
        SwitchMode mode \<Rightarrow> setMode gate state mode
      | Update update authority \<Rightarrow> applyUpdate url registry gate state update authority)"

inductive policy_step ::
  "url_parser \<Rightarrow> tool_registry \<Rightarrow> bypass_gate \<Rightarrow> 'auto policy_state \<Rightarrow> 'auto policy_state \<Rightarrow> bool"
  for url registry gate where
  accept: "policy_op_step url registry gate oper s = Inr s' \<Longrightarrow> policy_step url registry gate s s'"
| refuse: "policy_op_step url registry gate oper s = Inl err \<Longrightarrow> policy_step url registry gate s s"

inductive_cases policy_stepE: "policy_step url registry gate s s'"

inductive policy_reachable ::
  "url_parser \<Rightarrow> tool_registry \<Rightarrow> bypass_gate \<Rightarrow> 'auto policy_state \<Rightarrow> bool"
  for url registry gate where
  created: "new_store gate mode rules autoConfig = Inr s \<Longrightarrow> policy_reachable url registry gate s"
| stepped: "policy_reachable url registry gate s \<Longrightarrow> policy_step url registry gate s s' \<Longrightarrow> policy_reachable url registry gate s'"

subsection \<open>Lemmas\<close>

lemmas policy_ops = policy_op_step_def setMode_def applyUpdate_def

lemma op_mode:
  "policy_op_step url registry gate oper s = Inr s' \<Longrightarrow> ps_mode s' = ps_mode s \<or> checkBypassGate (ps_mode s') gate = None"
  by (auto simp: policy_ops the_default_def split: policy_op.splits option.splits sum.splits)

interpretation policy_version: versioned_store "policy_op_step url registry gate" ps_version
  for url registry gate
  by unfold_locales (auto simp: policy_ops split: policy_op.splits option.splits sum.splits)

definition op_authority :: "policy_op \<Rightarrow> rule_source option" where
  "op_authority oper = (case oper of SwitchMode _ \<Rightarrow> None | Update _ authority \<Rightarrow> Some authority)"

interpretation policy_managed: guarded_store "policy_op_step url registry gate"
  "\<lambda>oper. op_authority oper \<noteq> Some Managed" "\<lambda>s. managed_part (ps_rules s)"
  for url registry gate
proof unfold_locales
  fix oper and s s' :: "'a policy_state"
  assume o: "op_authority oper \<noteq> Some Managed" and st: "policy_op_step url registry gate oper s = Inr s'"
  show "managed_part (ps_rules s') = managed_part (ps_rules s)"
  proof (cases oper)
    case (SwitchMode mode)
    with st show ?thesis by (auto simp: policy_ops split: option.splits)
  next
    case (Update update authority)
    with st obtain rules where "applyPermissionUpdate url registry (ps_rules s) update authority = Inr rules" "ps_rules s' = rules"
      by (auto simp: policy_ops split: option.splits sum.splits)
    with o Update show ?thesis
      using managed_rules.untouched [of "(update, authority)" url registry "ps_rules s" rules]
      by (simp add: update_step_def op_authority_def)
  qed
qed

lemma checkBypassGate_closed:
  "disableBypassPermissionsMode gate \<or> \<not> allowDangerouslySkipPermissions gate \<Longrightarrow>
    checkBypassGate mode gate = None \<longleftrightarrow> mode \<noteq> BypassPermissions"
  by (auto simp: checkBypassGate_def)

subsection \<open>Properties\<close>

text \<open>
  C1: the bypass mode cannot be reached through a closed gate. When managed configuration disables the
  mode, or the dangerous flag is not set, no state of a session is in the bypass mode: not the first, and
  none after any sequence of mode switches and permission updates, mode updates included.
\<close>

theorem bypass_unreachable:
  assumes "policy_reachable url registry gate s"
    and "disableBypassPermissionsMode gate \<or> \<not> allowDangerouslySkipPermissions gate"
  shows "ps_mode s \<noteq> BypassPermissions"
  using assms(1)
proof induction
  case (created mode rules autoConfig s)
  then have "checkBypassGate mode gate = None" "ps_mode s = mode"
    by (cases "checkBypassGate mode gate"; auto simp: new_store_def)+
  then show ?case using checkBypassGate_closed [OF assms(2), of mode] by simp
next
  case (stepped s s')
  from stepped.hyps(2) show ?case
  proof cases
    case (accept oper)
    then show ?thesis
      using op_mode [OF accept] checkBypassGate_closed [OF assms(2), of "ps_mode s'"] stepped.IH by metis
  qed (use stepped.IH in simp)
qed

theorem bypass_unreachable_witness:
  "\<exists>s :: unit policy_state. policy_reachable (\<lambda>_. None) (\<lambda>_. None)
      \<lparr>allowDangerouslySkipPermissions = True, disableBypassPermissionsMode = True\<rparr> s \<and> ps_mode s \<noteq> BypassPermissions"
proof -
  let ?g = "\<lparr>allowDangerouslySkipPermissions = True, disableBypassPermissionsMode = True\<rparr>"
  let ?s = "\<lparr>ps_mode = Plan, ps_version = 0, ps_rules = emptyRuleSet, ps_autoConfig = None\<rparr> :: unit policy_state"
  have "new_store ?g Plan emptyRuleSet None = Inr ?s" by (simp add: new_store_def checkBypassGate_def)
  then have "policy_reachable (\<lambda>_. None) (\<lambda>_. None) ?g ?s" by (rule policy_reachable.created)
  with bypass_unreachable [OF this] show ?thesis by auto
qed

text \<open>
  The version of a policy identifies it within a session. Along any sequence of operations the version
  never goes down, and a sequence that ends with the version it began with has changed nothing at
  all; so a decision stamped with the current version was made under the current mode and rules.
\<close>

theorem same_version_same_policy:
  assumes "ps_version (run_updates (policy_op_step url registry gate) s ops) = ps_version s"
  shows "run_updates (policy_op_step url registry gate) s ops = s"
  using assms by (rule policy_version.same_version_same_state)

theorem same_version_same_policy_witness:
  "run_updates (policy_op_step (\<lambda>_. None) (\<lambda>_. None) \<lparr>allowDangerouslySkipPermissions = False, disableBypassPermissionsMode = False\<rparr>)
      (\<lparr>ps_mode = Plan, ps_version = 0, ps_rules = emptyRuleSet, ps_autoConfig = None\<rparr> :: unit policy_state)
      [SwitchMode BypassPermissions]
    = \<lparr>ps_mode = Plan, ps_version = 0, ps_rules = emptyRuleSet, ps_autoConfig = None\<rparr>"
  by (rule same_version_same_policy) (simp add: policy_ops checkBypassGate_def)

text \<open>
  Every accepted operation makes a new version, a refused one leaves the state: \<open>setMode\<close> and
  \<open>applyUpdate\<close> that succeed raise the version by one and set the requested mode; an update
  that asks for a mode is checked by the same gate as a direct switch, before any rule is touched.
\<close>

lemma accepted_operations:
  "(setMode gate s mode = Inr s' \<longrightarrow> ps_version s' = ps_version s + 1 \<and> ps_mode s' = mode \<and> ps_rules s' = ps_rules s)
    \<and> (applyUpdate url registry gate s update authority = Inr s' \<longrightarrow>
        ps_version s' = ps_version s + 1
        \<and> applyPermissionUpdate url registry (ps_rules s) update authority = Inr (ps_rules s')
        \<and> (\<forall>m d. update = SetMode m d \<longrightarrow> ps_mode s' = m \<and> checkBypassGate m gate = None)
        \<and> ((\<forall>m d. update \<noteq> SetMode m d) \<longrightarrow> ps_mode s' = ps_mode s))"
  by (cases update) (auto simp: setMode_def applyUpdate_def requested_mode_def the_default_def split: option.splits sum.splits)

text \<open>
  The managed rules of a session's policy are out of reach of its own operations: mode switches and
  updates by any authority but the managed one leave the managed part of the live rule set unchanged.
\<close>

theorem policy_managed_unweakenable:
  assumes "list_all (\<lambda>oper. op_authority oper \<noteq> Some Managed) ops"
  shows "managed_part (ps_rules (run_updates (policy_op_step url registry gate) s ops)) = managed_part (ps_rules s)"
  using assms by (rule policy_managed.run_untouched)

theorem policy_managed_unweakenable_witness:
  "managed_part (ps_rules (run_updates
      (policy_op_step (\<lambda>_. None) (\<lambda>_. None) \<lparr>allowDangerouslySkipPermissions = False, disableBypassPermissionsMode = False\<rparr>)
      (\<lparr>ps_mode = Plan, ps_version = 0, ps_rules = \<lparr>entries = [managed_deny], set_mode = None, directories = []\<rparr>,
        ps_autoConfig = None\<rparr> :: unit policy_state)
      [SwitchMode Default, Update (ReplaceRules [] BDeny ''userSettings'') Session])) = ([managed_deny], [])"
  by (subst policy_managed_unweakenable) (simp_all add: op_authority_def managed_part_def managed_deny_def)

text \<open>
  A configured mode is accepted exactly when it is one of the six modes; an absent one is the
  default mode.
\<close>

lemma assertKnownPermissionMode_total:
  "assertKnownPermissionMode None = Inr Default
    \<and> (isPermissionMode m \<longleftrightarrow> (\<exists>mode. assertKnownPermissionMode (Some m) = Inr mode))
    \<and> (\<forall>mode. \<exists>name. assertKnownPermissionMode (Some name) = Inr mode)"
proof -
  have "\<exists>m. assertKnownPermissionMode (Some m) = Inr mode" for mode
  proof -
    have "map_of PERMISSION_MODES
        (case mode of Default \<Rightarrow> ''default'' | AcceptEdits \<Rightarrow> ''acceptEdits'' | BypassPermissions \<Rightarrow> ''bypassPermissions''
         | Plan \<Rightarrow> ''plan'' | DontAsk \<Rightarrow> ''dontAsk'' | Auto \<Rightarrow> ''auto'') = Some mode"
      by (cases mode) (simp_all add: PERMISSION_MODES_def)
    then obtain m where "map_of PERMISSION_MODES m = Some mode" by blast
    then show ?thesis by (intro exI [of _ m]) (simp add: assertKnownPermissionMode_def)
  qed
  moreover have "isPermissionMode m \<longleftrightarrow> map_of PERMISSION_MODES m \<noteq> None"
    unfolding isPermissionMode_def map_of_eq_None_iff by simp
  ultimately show ?thesis by (cases "map_of PERMISSION_MODES m") (simp_all add: assertKnownPermissionMode_def)
qed

end
