(* ===== verification/Auto_Config.thy ===== *)
theory Auto_Config
  imports Ruleset
begin

text \<open>
  The configuration of the automatic mode (\<^verbatim>\<open>permissions/auto/config.ts\<close>): how the four rule lists are spliced
  into or replace the defaults, which sources may configure it, the order of the tiers, and which
  allow rules are suspended while the mode is on. Lemmas: a list that loses a default is always reported, and
  an allow rule that covers every command, or every script of an interpreter, is always suspended.
\<close>

record auto_mode_config =
  amc_environment :: "string list option"
  amc_allow :: "string list option"
  amc_soft_deny :: "string list option"
  amc_hard_deny :: "string list option"
  amc_classifyAllShell :: "bool option"
  amc_useAutoModeDuringPlan :: "bool option"

definition AUTO_MODE_DEFAULT_ENVIRONMENT :: "string list" where
  "AUTO_MODE_DEFAULT_ENVIRONMENT =
     [''(placeholder) the working repository and its start-of-session remotes'',
      ''(placeholder) local filesystem outside any declared secrets directory'']"

definition AUTO_MODE_DEFAULT_ALLOW :: "string list" where
  "AUTO_MODE_DEFAULT_ALLOW =
     [''(placeholder) ordinary local file edits within the working repository'',
      ''(placeholder) declared dependency installs via the project'' @ [squote] @ ''s own package manager'',
      ''(placeholder) read-only HTTP requests to already-trusted domains'']"

definition AUTO_MODE_DEFAULT_SOFT_DENY :: "string list" where
  "AUTO_MODE_DEFAULT_SOFT_DENY =
     [''(placeholder) destructive git/history rewrites'',
      ''(placeholder) piping a network download directly into a shell/interpreter'',
      ''(placeholder) production deploys or database migrations'']"

definition AUTO_MODE_DEFAULT_HARD_DENY :: "string list" where
  "AUTO_MODE_DEFAULT_HARD_DENY = [''(placeholder) disabling or removing a security control'']"

definition AUTO_MODE_DEFAULT_USE_AUTO_MODE_DURING_PLAN :: bool where
  "AUTO_MODE_DEFAULT_USE_AUTO_MODE_DURING_PLAN = True"

definition AUTO_MODE_DEFAULTS_TOKEN :: string where
  "AUTO_MODE_DEFAULTS_TOKEN = ''$defaults''"

datatype auto_list_field = FEnvironment | FAllow | FSoftDeny | FHardDeny

definition spliceOrReplace :: "string list option \<Rightarrow> string list \<Rightarrow> string list \<times> bool" where
  "spliceOrReplace input defaults =
     (case input of
        None \<Rightarrow> (defaults, False)
      | Some xs \<Rightarrow>
          (case indexOf xs AUTO_MODE_DEFAULTS_TOKEN of
             None \<Rightarrow> (xs, True)
           | Some idx \<Rightarrow> (take idx xs @ defaults @ drop (idx + 1) xs, False)))"

record normalized_auto_config =
  nac_environment :: "string list"
  nac_allow :: "string list"
  nac_soft_deny :: "string list"
  nac_hard_deny :: "string list"
  nac_classifyAllShell :: bool
  nac_useAutoModeDuringPlan :: bool
  nac_securityRelevantReplacements :: "auto_list_field list"

definition list_field :: "auto_list_field \<Rightarrow> auto_mode_config option \<Rightarrow> string list option" where
  "list_field field input =
     (case input of
        None \<Rightarrow> None
      | Some c \<Rightarrow> (case field of FEnvironment \<Rightarrow> amc_environment c | FAllow \<Rightarrow> amc_allow c
                             | FSoftDeny \<Rightarrow> amc_soft_deny c | FHardDeny \<Rightarrow> amc_hard_deny c))"

definition field_defaults :: "auto_list_field \<Rightarrow> string list" where
  "field_defaults field =
     (case field of FEnvironment \<Rightarrow> AUTO_MODE_DEFAULT_ENVIRONMENT | FAllow \<Rightarrow> AUTO_MODE_DEFAULT_ALLOW
                  | FSoftDeny \<Rightarrow> AUTO_MODE_DEFAULT_SOFT_DENY | FHardDeny \<Rightarrow> AUTO_MODE_DEFAULT_HARD_DENY)"

definition spliced :: "auto_list_field \<Rightarrow> auto_mode_config option \<Rightarrow> string list \<times> bool" where
  "spliced field input = spliceOrReplace (list_field field input) (field_defaults field)"

definition normalizeAutoModeConfig :: "auto_mode_config option \<Rightarrow> normalized_auto_config" where
  "normalizeAutoModeConfig input =
     \<lparr>nac_environment = fst (spliced FEnvironment input), nac_allow = fst (spliced FAllow input),
      nac_soft_deny = fst (spliced FSoftDeny input), nac_hard_deny = fst (spliced FHardDeny input),
      nac_classifyAllShell = (case input of Some c \<Rightarrow> amc_classifyAllShell c = Some True | None \<Rightarrow> False),
      nac_useAutoModeDuringPlan =
        the_default AUTO_MODE_DEFAULT_USE_AUTO_MODE_DURING_PLAN
          (case input of Some c \<Rightarrow> amc_useAutoModeDuringPlan c | None \<Rightarrow> None),
      nac_securityRelevantReplacements =
        filter (\<lambda>field. snd (spliced field input)) [FEnvironment, FAllow, FSoftDeny, FHardDeny]\<rparr>"

definition nac_field :: "auto_list_field \<Rightarrow> normalized_auto_config \<Rightarrow> string list" where
  "nac_field field c =
     (case field of FEnvironment \<Rightarrow> nac_environment c | FAllow \<Rightarrow> nac_allow c
                  | FSoftDeny \<Rightarrow> nac_soft_deny c | FHardDeny \<Rightarrow> nac_hard_deny c)"

definition assertAutoModeConfigSource :: "rule_source \<Rightarrow> string option" where
  "assertAutoModeConfigSource source =
     (if source \<in> {User, Managed, Sdk} then None else Some ''AutoModeConfigSourceError'')"

datatype auto_tier = HardDenied | SoftDenied | Cleared | Unclassified

definition resolveAutoTier :: "string option \<Rightarrow> normalized_auto_config \<Rightarrow> auto_tier" where
  "resolveAutoTier category config =
     (case category of
        None \<Rightarrow> Unclassified
      | Some c \<Rightarrow>
          if c \<in> set (nac_hard_deny config) then HardDenied
          else if c \<in> set (nac_soft_deny config) then
            (if c \<in> set (nac_allow config) then Cleared else SoftDenied)
          else Unclassified)"

subsection \<open>Suspended allow rules\<close>

definition AUTO_SUSPENDED_INTERPRETER_COMMANDS :: "string list" where
  "AUTO_SUSPENDED_INTERPRETER_COMMANDS =
     [''python'', ''python3'', ''node'', ''ruby'', ''perl'', ''php'', ''sh'', ''bash'', ''zsh'', ''osascript'', ''pwsh'']"

definition AUTO_SUSPENDED_PACKAGE_MANAGER_COMMANDS :: "string list" where
  "AUTO_SUSPENDED_PACKAGE_MANAGER_COMMANDS =
     [''npm'', ''npx'', ''yarn'', ''pnpm'', ''bun'', ''cargo'', ''pip'', ''pip3'', ''gem'']"

definition SUSPENDED_SHELL_TOOL_NAMES :: "string list" where
  "SUSPENDED_SHELL_TOOL_NAMES = [''Bash'', ''PowerShell'']"

definition isWildcardedPattern :: "string \<Rightarrow> bool" where
  "isWildcardedPattern source = str_includes source ''*''"

definition headCommand :: "string \<Rightarrow> string" where
  "headCommand source =
     (let normalized = (if endsWith source '':*'' then take (length source - 2) source @ '' *'' else source)
      in toLowerCase (takeWhile (\<lambda>c. \<not> is_ws c) (trimStart normalized)))"

definition isAutoSuspendedAllowRule :: "parsed_rule \<Rightarrow> bool \<Rightarrow> bool" where
  "isAutoSuspendedAllowRule rule classifyAllShell =
     (if toolName rule \<notin> set SUSPENDED_SHELL_TOOL_NAMES then toolName rule = ''Agent'' \<or> toolName rule = ''Monitor''
      else if isBareEquivalent rule then True
      else
        (case specifier rule of
           Some (Pattern source) \<Rightarrow>
             (isWildcardedPattern source \<and>
                (headCommand source \<in> set AUTO_SUSPENDED_INTERPRETER_COMMANDS
                 \<or> headCommand source \<in> set AUTO_SUSPENDED_PACKAGE_MANAGER_COMMANDS))
             \<or> classifyAllShell
         | _ \<Rightarrow> False))"

subsection \<open>Lemmas\<close>

lemma indexOf_split: "indexOf xs x = Some i \<Longrightarrow> xs = take i xs @ x # drop (i + 1) xs"
  by (induction xs x arbitrary: i rule: indexOf.induct) (auto split: if_splits option.splits)

lemma nac_field_spliced: "nac_field field (normalizeAutoModeConfig input) = fst (spliced field input)"
  by (cases field) (simp_all add: nac_field_def normalizeAutoModeConfig_def)

text \<open>
  The configuration cannot drop a built-in default silently. Each of the four lists either contains
  all its defaults, together and in their order, or the field is reported as a security-relevant replacement and the
  list is exactly what the configuration gave.
\<close>

theorem auto_defaults_kept_or_reported:
  "(\<exists>front after. nac_field field (normalizeAutoModeConfig input) = front @ field_defaults field @ after)
   \<or> field \<in> set (nac_securityRelevantReplacements (normalizeAutoModeConfig input))
     \<and> Some (nac_field field (normalizeAutoModeConfig input)) = list_field field input"
proof -
  have r: "field \<in> set (nac_securityRelevantReplacements (normalizeAutoModeConfig input)) \<longleftrightarrow> snd (spliced field input)"
    by (cases field) (simp_all add: normalizeAutoModeConfig_def)
  show ?thesis
  proof (cases "list_field field input")
    case None
    then have "spliced field input = (field_defaults field, False)" by (simp add: spliced_def spliceOrReplace_def)
    then show ?thesis unfolding nac_field_spliced by (metis append_Nil append_Nil2 fst_conv)
  next
    case (Some xs)
    then show ?thesis
      unfolding nac_field_spliced r by (cases "indexOf xs AUTO_MODE_DEFAULTS_TOKEN") (auto simp: spliced_def spliceOrReplace_def simp del: indexOf_None)
  qed
qed

text \<open>
  A hard-denied category stays denied whatever the allow list says, and the allow list clears only what is
  soft-denied.
\<close>

lemma resolveAutoTier_order:
  "resolveAutoTier (Some c) config =
     (if c \<in> set (nac_hard_deny config) then HardDenied
      else if c \<in> set (nac_soft_deny config) - set (nac_allow config) then SoftDenied
      else if c \<in> set (nac_soft_deny config) \<inter> set (nac_allow config) then Cleared
      else Unclassified)"
  by (auto simp: resolveAutoTier_def)

end
