(* ===== verification/Skill_Rules.thy ===== *)
theory Skill_Rules
  imports Glob
begin

text \<open>
  Skill rules (\<^verbatim>\<open>skills/permission-rules.ts\<close>): the specifier of a \<open>Skill\<close> rule is the name of a skill, or a
  name, a colon and a pattern for its arguments. Lemma: the longest name that is a reading of the specifier decides.
\<close>

record skill_target =
  sk_identities :: "string list"
  sk_args :: "string option"

definition SKILL_RULE_SHAPE :: "string \<Rightarrow> string option option" where
  "SKILL_RULE_SHAPE r =
     (if r = ''Skill'' then Some None
      else if startsWith r ''Skill('' \<and> endsWith r '')'' then Some (Some (butlast (drop 6 r)))
      else None)"

definition parseSkillRule :: "string \<Rightarrow> string option option" where
  "parseSkillRule r = SKILL_RULE_SHAPE (trim r)"

definition argumentMatches :: "string \<Rightarrow> string \<Rightarrow> bool" where
  "argumentMatches pattern args = (if pattern = ''*'' then True else regexp_test (globToRegExpSource pattern) args)"

fun skill_loop :: "string \<Rightarrow> string \<Rightarrow> string list \<Rightarrow> bool" where
  "skill_loop content args [] = False"
| "skill_loop content args (identity # others) =
     (if content = identity then True
      else if startsWith content (identity @ '':'') then argumentMatches (drop (length identity + 1) content) args
      else skill_loop content args others)"

definition longest_first :: "string list \<Rightarrow> string list" where
  "longest_first ids = sort_key (\<lambda>s. - int (length s)) ids"

definition matchesSkillRule :: "string option \<Rightarrow> skill_target \<Rightarrow> bool" where
  "matchesSkillRule content target =
     (case content of
        None \<Rightarrow> True
      | Some c \<Rightarrow>
          c = ''*'' \<or> skill_loop c (the_default [] (sk_args target)) (longest_first (sk_identities target)))"

definition skillRulesAllow :: "string list option \<Rightarrow> skill_target \<Rightarrow> bool" where
  "skillRulesAllow rules target =
     (case rules of
        None \<Rightarrow> False
      | Some rs \<Rightarrow>
          list_ex (\<lambda>r. case parseSkillRule r of Some content \<Rightarrow> matchesSkillRule content target | None \<Rightarrow> False) rs)"

subsection \<open>Lemmas\<close>

definition reads_as :: "string \<Rightarrow> string \<Rightarrow> bool" where
  "reads_as content identity \<longleftrightarrow> content = identity \<or> startsWith content (identity @ '':'')"

lemma reads_as_take: "reads_as content identity \<Longrightarrow> identity = take (length identity) content"
  by (auto simp: reads_as_def startsWith_iff_prefix prefix_def)

lemma skill_loop_first:
  "skill_loop content args ids \<longleftrightarrow>
     (case find (reads_as content) ids of
        None \<Rightarrow> False
      | Some identity \<Rightarrow> content = identity \<or> argumentMatches (drop (length identity + 1) content) args)"
  by (induction ids) (auto simp: reads_as_def)

lemma find_sorted_min:
  "sorted (map f xs) \<Longrightarrow> find P xs = Some x \<Longrightarrow> y \<in> set xs \<Longrightarrow> P y \<Longrightarrow> f x \<le> (f y :: int)"
  by (induction xs) (auto split: if_splits)

text \<open>
  A skill rule with arguments is decided by the longest name of the skill that the specifier starts
  with, so a name that is itself followed by a colon in a longer name never captures the rest of that name
  as an argument pattern.
\<close>

theorem skill_rule_longest_name:
  assumes "content \<noteq> ''*''" "identity \<in> set (sk_identities target)" "reads_as content identity"
    and "\<And>other. other \<in> set (sk_identities target) \<Longrightarrow> reads_as content other \<Longrightarrow> length other \<le> length identity"
  shows "matchesSkillRule (Some content) target \<longleftrightarrow>
    content = identity \<or> argumentMatches (drop (length identity + 1) content) (the_default [] (sk_args target))"
proof -
  let ?ids = "longest_first (sk_identities target)"
  have set: "set ?ids = set (sk_identities target)" by (simp add: longest_first_def)
  obtain x where x: "find (reads_as content) ?ids = Some x"
    using assms(2,3) set by (metis find_None_iff not_None_eq)
  then have r: "x \<in> set ?ids" "reads_as content x" by (auto simp: find_Some_iff)
  have "sorted (map (\<lambda>s. - int (length s)) ?ids)" by (simp add: longest_first_def)
  then have "length identity \<le> length x" using find_sorted_min [OF _ x, of "\<lambda>s. - int (length s)" identity] assms(2,3) set by simp
  then have "length x = length identity" using assms(4) [of x] r set by simp
  then have "x = identity" using reads_as_take [OF r(2)] reads_as_take [OF assms(3)] by metis
  then show ?thesis using assms(1) x by (simp add: matchesSkillRule_def skill_loop_first)
qed


theorem skill_rule_longest_name_witness:
  "matchesSkillRule (Some ''pdf:fill:*'') \<lparr>sk_identities = [''pdf'', ''pdf:fill''], sk_args = Some ''form.pdf''\<rparr>
     \<longleftrightarrow> argumentMatches ''*'' ''form.pdf''"
proof -
  let ?t = "\<lparr>sk_identities = [''pdf'', ''pdf:fill''], sk_args = Some ''form.pdf''\<rparr>"
  have "length other \<le> length ''pdf:fill''" if "other \<in> set (sk_identities ?t)" for other using that by auto
  then show ?thesis
    using skill_rule_longest_name [of "''pdf:fill:*''" "''pdf:fill''" ?t] by (simp add: reads_as_def startsWith_def the_default_def)
qed

end
