(* ===== verification/Address.thy ===== *)
theory Address
  imports "HOL-Library.Word" JS_Prelude
begin

text \<open>
  Which network addresses a fetch may reach (\<^verbatim>\<open>packages/web/src/address.ts\<close>): parsing of IPv4 in the strict and
  in the \<open>inet_aton\<close> spelling and of IPv6, printing, the refusal tables of both families with the IPv4
  address embedded in an IPv6 one, and the lexical reading of a host name. A byte is an 8-bit word and
  an IPv4 value a 32-bit word, as the code computes them. The table of the machine's own
  interfaces is an argument.
\<close>

unbundle bit_operations_syntax

subsection \<open>Verdicts\<close>

datatype refusal_reason =
    Unspecified | Loopback | PrivateUse | Cgnat | LinkLocal | SiteLocal | UniqueLocal | Multicast | Broadcast
  | Reserved | Documentation | Benchmarking | LocalNat64 | NotGlobalUnicast | LocalInterface | ReservedName
  | ZoneId | Unparseable

datatype address_verdict = PublicAddress | Refused refusal_reason "string option"

type_synonym byte = "8 word"

definition refuse :: "refusal_reason \<Rightarrow> address_verdict" where
  "refuse reason = Refused reason None"

subsection \<open>Numbers in text\<close>

definition digit_value :: "char \<Rightarrow> nat" where
  "digit_value c =
     (if is_digit c then of_char c - 48
      else if is_lower c then of_char c - 87
      else of_char c - 55)"

definition hex_digit :: "char \<Rightarrow> bool" where
  "hex_digit c \<longleftrightarrow> is_digit c \<or> lower_char c \<in> set ''abcdef''"

definition parse_radix :: "nat \<Rightarrow> string \<Rightarrow> nat" where
  "parse_radix b s = foldl (\<lambda>n c. n * b + digit_value c) 0 s"

definition digit_char :: "nat \<Rightarrow> char" where
  "digit_char d = (if d < 10 then char_of (48 + d) else char_of (87 + d))"

function show_radix :: "nat \<Rightarrow> nat \<Rightarrow> string" where
  "show_radix b n = (if n < b \<or> b < 2 then [digit_char n] else show_radix b (n div b) @ [digit_char (n mod b)])"
  by pat_completeness auto
termination
  by (relation "measure snd") (auto intro: div_less_dividend)

declare show_radix.simps [simp del]

definition MAX_SAFE_INTEGER :: nat where
  "MAX_SAFE_INTEGER = 2 ^ 53 - 1"

subsection \<open>Parsing\<close>

fun octet_shape :: "string \<Rightarrow> bool" where
  "octet_shape [] = False"
| "octet_shape (c # s) = (c # s = ''0'' \<or> is_digit c \<and> c \<noteq> CHR ''0'' \<and> length s \<le> 2 \<and> list_all is_digit s)"

definition parseIPv4 :: "string \<Rightarrow> byte list option" where
  "parseIPv4 text =
     (let parts = split_on CHR ''.'' text in
      if length parts \<noteq> 4 then None
      else if \<exists>p \<in> set parts. \<not> octet_shape p \<or> parse_radix 10 p > 255 then None
      else Some (map (\<lambda>p. word_of_nat (parse_radix 10 p)) parts))"

definition capped :: "nat \<Rightarrow> nat" where
  "capped n = (if n \<le> MAX_SAFE_INTEGER then n else MAX_SAFE_INTEGER)"

definition parseIPv4Part :: "string \<Rightarrow> nat option" where
  "parseIPv4Part part =
     (if part = [] then None
      else if toLowerCase (take 2 part) = ''0x'' \<and> list_all hex_digit (drop 2 part) then
        Some (capped (if length part = 2 then 0 else parse_radix 16 (drop 2 part)))
      else if hd part = CHR ''0'' \<and> tl part \<noteq> [] \<and> list_all (\<lambda>c. c \<in> set ''01234567'') (tl part) then
        Some (capped (parse_radix 8 (tl part)))
      else if hd part = CHR ''0'' \<and> tl part \<noteq> [] \<and> list_all is_digit (tl part) then None
      else if list_all is_digit part then Some (capped (parse_radix 10 part))
      else None)"

fun all_some :: "'a option list \<Rightarrow> 'a list option" where
  "all_some [] = Some []"
| "all_some (None # xs) = None"
| "all_some (Some x # xs) = map_option ((#) x) (all_some xs)"

text \<open>The trailing bytes of the last number, most significant first.\<close>

fun tail_bytes :: "nat \<Rightarrow> nat \<Rightarrow> byte list" where
  "tail_bytes 0 left = []"
| "tail_bytes (Suc k) left = tail_bytes k (left div 256) @ [word_of_nat (left mod 256)]"

definition parseIPv4Loose :: "string \<Rightarrow> byte list option" where
  "parseIPv4Loose text =
     (let t = (if endsWith text ''.'' then butlast text else text) in
      if t = [] then None
      else
        (let parts = split_on CHR ''.'' t in
         if length parts > 4 then None
         else
           (case all_some (map parseIPv4Part parts) of
              None \<Rightarrow> None
            | Some all \<Rightarrow>
                (let nums = butlast all; final = last all; lastBytes = 4 - length nums in
                 if \<exists>n \<in> set nums. n > 255 then None
                 else if final \<ge> 2 ^ (8 * lastBytes) then None
                 else Some (map word_of_nat nums @ tail_bytes lastBytes final)))))"

definition hex_group :: "string \<Rightarrow> bool" where
  "hex_group g \<longleftrightarrow> g \<noteq> [] \<and> length g \<le> 4 \<and> list_all hex_digit g"

definition groups :: "string \<Rightarrow> nat list option" where
  "groups s =
     (if s = [] then Some []
      else
        (let gs = split_on CHR '':'' s in
         if list_all hex_group gs then Some (map (parse_radix 16) gs) else None))"

text \<open>The text before and after the first double colon.\<close>

fun split_double :: "string \<Rightarrow> (string \<times> string) option" where
  "split_double (a # b # s) =
     (if a = CHR '':'' \<and> b = CHR '':'' then Some ([], s)
      else map_option (\<lambda>(h, r). (a # h, r)) (split_double (b # s)))"
| "split_double s = None"

definition word_bytes :: "nat \<Rightarrow> byte list" where
  "word_bytes w = [word_of_nat (w div 256), word_of_nat (w mod 256)]"

definition ipv6_words :: "nat \<Rightarrow> string \<Rightarrow> nat list option" where
  "ipv6_words capacity t =
     (case split_double t of
        Some (pre, after) \<Rightarrow>
          if str_includes (CHR '':'' # after) ''::'' then None
          else
            (case (groups pre, groups after) of
               (Some head, Some tail) \<Rightarrow>
                 if length head + length tail > capacity - 1 then None
                 else Some (head @ replicate (capacity - length head - length tail) 0 @ tail)
             | _ \<Rightarrow> None)
      | None \<Rightarrow>
          (case groups t of
             Some all \<Rightarrow> if length all = capacity then Some all else None
           | None \<Rightarrow> None))"

definition after_last_colon :: "string \<Rightarrow> string" where
  "after_last_colon t = rev (takeWhile (\<lambda>c. c \<noteq> CHR '':'') (rev t))"

definition parseIPv6 :: "string \<Rightarrow> byte list option" where
  "parseIPv6 text =
     (let t = (if startsWith text ''['' \<and> endsWith text '']'' then butlast (tl text) else text) in
      if t = [] \<or> length t > 45 \<or> str_includes t ''%'' \<or> \<not> str_includes t '':'' then None
      else
        (let tail = after_last_colon t in
         if str_includes tail ''.'' then
           (case parseIPv4 tail of
              None \<Rightarrow> None
            | Some v4 \<Rightarrow>
                (let head = take (length t - length tail) t;
                     u = (if endsWith head ''::'' then head else butlast head)
                 in map_option (\<lambda>words. concat (map word_bytes words) @ v4) (ipv6_words 6 u)))
         else map_option (\<lambda>words. concat (map word_bytes words)) (ipv6_words 8 t)))"

definition parseIpLiteral :: "string \<Rightarrow> byte list option" where
  "parseIpLiteral text = (case parseIPv4 text of Some b \<Rightarrow> Some b | None \<Rightarrow> parseIPv6 text)"

subsection \<open>Printing\<close>

fun byte_words :: "byte list \<Rightarrow> nat list" where
  "byte_words (a # b # s) = (unat a * 256 + unat b) # byte_words s"
| "byte_words _ = []"

text \<open>The longest run of at least two zero words, the first of its length: start and length.\<close>

function best_run :: "nat list \<Rightarrow> nat \<Rightarrow> (nat \<times> nat) option \<Rightarrow> (nat \<times> nat) option" where
  "best_run [] i best = best"
| "best_run (w # ws) i best =
     (if w \<noteq> 0 then best_run ws (Suc i) best
      else
        (let n = length (takeWhile ((=) 0) (w # ws));
             len = (case best of None \<Rightarrow> 0 | Some (_, l) \<Rightarrow> l)
         in best_run (dropWhile ((=) 0) ws) (i + n) (if n > len \<and> n \<ge> 2 then Some (i, n) else best)))"
  by pat_completeness auto
termination
  by (relation "measure (\<lambda>(ws, i, best). length ws)") (auto simp: le_imp_less_Suc length_dropWhile_le)

definition formatAddress :: "byte list \<Rightarrow> string" where
  "formatAddress bytes =
     (if length bytes = 4 then join_with ''.'' (map (\<lambda>b. show_radix 10 (unat b)) bytes)
      else
        (let words = byte_words (take 16 bytes); hex = map (show_radix 16) words in
         case best_run words 0 None of
           None \<Rightarrow> join_with '':'' hex
         | Some (start, len) \<Rightarrow> join_with '':'' (take start hex) @ ''::'' @ join_with '':'' (drop (start + len) hex)))"

subsection \<open>IPv4\<close>

definition quad :: "byte list \<Rightarrow> 32 word" where
  "quad b = push_bit 24 (ucast (b ! 0)) OR push_bit 16 (ucast (b ! 1)) OR push_bit 8 (ucast (b ! 2)) OR ucast (b ! 3)"

definition v4_mask :: "nat \<Rightarrow> 32 word" where
  "v4_mask bits = (if bits = 0 then 0 else push_bit (32 - bits) (- 1))"

definition inV4 :: "byte list \<Rightarrow> byte list \<Rightarrow> nat \<Rightarrow> bool" where
  "inV4 b base bits \<longleftrightarrow> (quad b AND v4_mask bits) = (quad base AND v4_mask bits)"

definition classifyIPv4Bytes :: "byte list \<Rightarrow> address_verdict" where
  "classifyIPv4Bytes b =
     (if inV4 b [0, 0, 0, 0] 8 then refuse Unspecified
      else if inV4 b [10, 0, 0, 0] 8 then refuse PrivateUse
      else if inV4 b [100, 64, 0, 0] 10 then refuse Cgnat
      else if inV4 b [127, 0, 0, 0] 8 then refuse Loopback
      else if inV4 b [169, 254, 0, 0] 16 then refuse LinkLocal
      else if inV4 b [172, 16, 0, 0] 12 then refuse PrivateUse
      else if inV4 b [192, 0, 0, 0] 24 then refuse Reserved
      else if inV4 b [192, 0, 2, 0] 24 then refuse Documentation
      else if inV4 b [192, 88, 99, 0] 24 then refuse Reserved
      else if inV4 b [192, 168, 0, 0] 16 then refuse PrivateUse
      else if inV4 b [198, 18, 0, 0] 15 then refuse Benchmarking
      else if inV4 b [198, 51, 100, 0] 24 then refuse Documentation
      else if inV4 b [203, 0, 113, 0] 24 then refuse Documentation
      else if inV4 b [224, 0, 0, 0] 4 then refuse Multicast
      else if inV4 b [255, 255, 255, 255] 32 then refuse Broadcast
      else if inV4 b [240, 0, 0, 0] 4 then refuse Reserved
      else PublicAddress)"

subsection \<open>IPv6\<close>

definition prefix_byte :: "byte list \<Rightarrow> nat \<Rightarrow> byte" where
  "prefix_byte bs i = (if i < length bs then bs ! i else 0)"

definition prefixIs :: "byte list \<Rightarrow> byte list \<Rightarrow> nat \<Rightarrow> bool" where
  "prefixIs b pre bits \<longleftrightarrow>
     list_all (\<lambda>i. bit (b ! (i div 8)) (7 - i mod 8) = bit (prefix_byte pre (i div 8)) (7 - i mod 8)) [0..<bits]"

definition embedded :: "byte list \<Rightarrow> nat \<Rightarrow> byte \<Rightarrow> byte list" where
  "embedded b at flip = map (\<lambda>i. (b ! (at + i)) XOR flip) [0..<4]"

definition viaEmbedded :: "byte list \<Rightarrow> address_verdict" where
  "viaEmbedded v4 =
     (case classifyIPv4Bytes v4 of
        PublicAddress \<Rightarrow> PublicAddress
      | Refused reason _ \<Rightarrow> Refused reason (Some (formatAddress v4)))"

definition zeroUpTo :: "byte list \<Rightarrow> nat \<Rightarrow> bool" where
  "zeroUpTo b n \<longleftrightarrow> list_all (\<lambda>x. x = 0) (take n b)"

definition classifyIPv6Bytes :: "byte list \<Rightarrow> address_verdict" where
  "classifyIPv6Bytes b =
     (if list_all (\<lambda>x. x = 0) b then refuse Unspecified
      else if zeroUpTo b 15 \<and> b ! 15 = 1 then refuse Loopback
      else if zeroUpTo b 10 \<and> b ! 10 = 0xff \<and> b ! 11 = 0xff then viaEmbedded (embedded b 12 0)
      else if zeroUpTo b 12 then viaEmbedded (embedded b 12 0)
      else if zeroUpTo b 8 \<and> b ! 8 = 0xff \<and> b ! 9 = 0xff \<and> b ! 10 = 0 \<and> b ! 11 = 0 then viaEmbedded (embedded b 12 0)
      else if prefixIs b [0x00, 0x64, 0xff, 0x9b, 0, 0, 0, 0, 0, 0, 0, 0] 96 then viaEmbedded (embedded b 12 0)
      else if prefixIs b [0x00, 0x64, 0xff, 0x9b, 0x00, 0x01] 48 then refuse LocalNat64
      else if prefixIs b [0x01, 0x00, 0, 0, 0, 0, 0, 0] 64 then refuse Reserved
      else if prefixIs b [0xfe, 0x80] 10 then refuse LinkLocal
      else if prefixIs b [0xfe, 0xc0] 10 then refuse SiteLocal
      else if prefixIs b [0xfc, 0x00] 7 then refuse UniqueLocal
      else if prefixIs b [0xff] 8 then refuse Multicast
      else if prefixIs b [0x20, 0x01, 0x00, 0x00] 32 then
        (let server = viaEmbedded (embedded b 4 0)
         in if server \<noteq> PublicAddress then server else viaEmbedded (embedded b 12 0xff))
      else if prefixIs b [0x20, 0x01, 0x0d, 0xb8] 32 then refuse Documentation
      else if prefixIs b [0x3f, 0xff] 20 then refuse Documentation
      else if prefixIs b [0x20, 0x01, 0x00, 0x10] 28 \<or> prefixIs b [0x20, 0x01, 0x00, 0x20] 28 then refuse Reserved
      else if prefixIs b [0x20, 0x02] 16 then viaEmbedded (embedded b 2 0)
      else if \<not> prefixIs b [0x20] 3 then refuse NotGlobalUnicast
      else PublicAddress)"

subsection \<open>Addresses and host names\<close>

definition sameBytes :: "byte list \<Rightarrow> byte list \<Rightarrow> bool" where
  "sameBytes a b \<longleftrightarrow> a = b"

definition localInterfaceAddresses :: "string list \<Rightarrow> byte list list" where
  "localInterfaceAddresses interfaces =
     List.map_filter (\<lambda>address. parseIpLiteral (takeWhile (\<lambda>c. c \<noteq> CHR ''%'') address)) interfaces"

definition unmapped :: "byte list \<Rightarrow> byte list option" where
  "unmapped bytes =
     (if length bytes \<noteq> 16 then None
      else if zeroUpTo bytes 10 \<and> bytes ! 10 = 0xff \<and> bytes ! 11 = 0xff then Some (drop 12 bytes)
      else None)"

definition classifyAddressBytes :: "string list \<Rightarrow> byte list \<Rightarrow> address_verdict" where
  "classifyAddressBytes interfaces bytes =
     (let verdict = (if length bytes = 4 then classifyIPv4Bytes bytes else classifyIPv6Bytes bytes) in
      if verdict \<noteq> PublicAddress then verdict
      else if \<exists>own \<in> set (localInterfaceAddresses interfaces).
                sameBytes own bytes \<or> (case unmapped bytes of Some v4 \<Rightarrow> sameBytes own v4 | None \<Rightarrow> False)
           then refuse LocalInterface
      else verdict)"

definition classifyAddress :: "string list \<Rightarrow> string \<Rightarrow> address_verdict" where
  "classifyAddress interfaces address =
     (if str_includes address ''%'' then refuse ZoneId
      else case parseIpLiteral address of
             None \<Rightarrow> refuse Unparseable
           | Some bytes \<Rightarrow> classifyAddressBytes interfaces bytes)"

definition without_root_dot :: "string \<Rightarrow> string" where
  "without_root_dot h = (if endsWith h ''.'' then butlast h else h)"

definition isReservedPrivateName :: "string \<Rightarrow> bool" where
  "isReservedPrivateName hostname =
     (let h = without_root_dot (toLowerCase hostname)
      in h = ''localhost'' \<or> endsWith h ''.localhost'' \<or> h = ''local'' \<or> endsWith h ''.local'')"

definition hostnameAsAddress :: "string \<Rightarrow> byte list option" where
  "hostnameAsAddress hostname =
     (if startsWith hostname ''['' \<or> str_includes hostname '':'' then parseIPv6 hostname
      else case parseIPv4 hostname of Some b \<Rightarrow> Some b | None \<Rightarrow> parseIPv4Loose hostname)"

definition numeric_label :: "string \<Rightarrow> bool" where
  "numeric_label l \<longleftrightarrow>
     (toLowerCase (take 2 l) = ''0x'' \<and> list_all hex_digit (drop 2 l)) \<or> (l \<noteq> [] \<and> list_all is_digit l)"

definition lexical_verdict :: "string list \<Rightarrow> string \<Rightarrow> address_verdict option" where
  "lexical_verdict interfaces hostname =
     (if str_includes hostname ''%'' then Some (refuse ZoneId)
      else case hostnameAsAddress hostname of
             Some literal \<Rightarrow> Some (classifyAddressBytes interfaces literal)
           | None \<Rightarrow>
               if startsWith hostname ''['' \<or> str_includes hostname '':'' then Some (refuse Unparseable)
               else if numeric_label (last (split_on CHR ''.'' (without_root_dot hostname))) then Some (refuse Unparseable)
               else if isReservedPrivateName hostname then Some (refuse ReservedName)
               else None)"

subsection \<open>The IPv4 table by octets\<close>

lemma unat_byte: "unat (x :: byte) < 256"
  using unsigned_less [of x] by simp

lemma unat_ucast_byte [simp]: "unat (ucast (x :: byte) :: 32 word) = unat x"
  using unat_byte [of x] by (simp add: unsigned_ucast_eq take_bit_nat_eq_self_iff) 

lemma unat_push_byte:
  "k \<le> 24 \<Longrightarrow> unat (push_bit k (ucast (x :: byte)) :: 32 word) = unat x * 2 ^ k"
proof -
  assume "k \<le> 24"
  then have "(2 :: nat) ^ k \<le> 2 ^ 24" by (rule power_increasing) simp
  then have "unat x * 2 ^ k < 256 * 2 ^ 24" using unat_byte [of x] by (intro mult_less_le_imp_less) auto
  then show ?thesis
    by (simp add: unsigned_push_bit_eq take_bit_nat_def push_bit_nat_def mult.commute)
qed

lemma or_disjoint: 
  assumes "n < 2 ^ k" shows "push_bit k m OR n = m * 2 ^ k + (n :: nat)"
proof -
  have "take_bit k n = n" using assms by (simp add: take_bit_nat_eq_self)
  then have "push_bit k m AND n = push_bit k m AND take_bit k n" by simp
  also have "\<dots> = 0" by (rule bit_eqI) (auto simp: bit_simps)
  finally have "push_bit k m + n = push_bit k m OR n" by (rule disjunctive_add_eq_or)
  then show ?thesis by (simp add: push_bit_nat_def mult.commute)
qed

lemma unat_quad:
  "unat (quad [a, b, c, d]) = unat a * 2 ^ 24 + unat b * 2 ^ 16 + unat c * 2 ^ 8 + unat d"
proof -
  have u: "unat a < 256" "unat b < 256" "unat c < 256" "unat d < 256" by (rule unat_byte)+
  have "unat (quad [a, b, c, d])
      = push_bit 24 (unat a) OR (push_bit 16 (unat b) OR (push_bit 8 (unat c) OR unat d))"
    by (simp add: quad_def unsigned_or_eq unat_push_byte push_bit_nat_def or.assoc mult.commute)
  also have "push_bit 8 (unat c) OR unat d = unat c * 2 ^ 8 + unat d" using u by (intro or_disjoint) simp
  also have "push_bit 16 (unat b) OR (unat c * 2 ^ 8 + unat d) = unat b * 2 ^ 16 + (unat c * 2 ^ 8 + unat d)"
    using u by (intro or_disjoint) simp
  also have "push_bit 24 (unat a) OR (unat b * 2 ^ 16 + (unat c * 2 ^ 8 + unat d))
      = unat a * 2 ^ 24 + (unat b * 2 ^ 16 + (unat c * 2 ^ 8 + unat d))"
    using u by (intro or_disjoint) simp
  finally show ?thesis by simp
qed

lemma masked_eq: "(v AND push_bit k (- 1)) = (w AND push_bit k (- 1)) \<longleftrightarrow> drop_bit k v = drop_bit k (w :: 32 word)"
proof
  assume e: "(v AND push_bit k (- 1)) = (w AND push_bit k (- 1))"
  show "drop_bit k v = drop_bit k w"
  proof (rule bit_eqI)
    fix n
    have "bit (v AND push_bit k (- 1)) (k + n) = bit (w AND push_bit k (- 1)) (k + n)" by (simp only: e)
    then show "bit (drop_bit k v) n = bit (drop_bit k w) n"
      by (cases "k + n < 32") (auto simp: bit_simps dest: bit_imp_le_length)
  qed
next
  assume e: "drop_bit k v = drop_bit k w"
  show "(v AND push_bit k (- 1)) = (w AND push_bit k (- 1))"
  proof (rule bit_eqI)
    fix n
    have "bit (drop_bit k v) (n - k) = bit (drop_bit k w) (n - k)" by (simp only: e)
    then show "bit (v AND push_bit k (- 1)) n = bit (w AND push_bit k (- 1)) n"
      by (auto simp: bit_simps)
  qed
qed

lemma inV4_div:
  assumes "0 < bits" "bits \<le> 32"
  shows "inV4 b base bits \<longleftrightarrow> unat (quad b) div 2 ^ (32 - bits) = unat (quad base) div 2 ^ (32 - bits)"
proof -
  have m: "v4_mask bits = push_bit (32 - bits) (- 1)" using assms by (simp add: v4_mask_def)
  show ?thesis
    unfolding inV4_def m masked_eq by (simp only: word_unat_eq_iff unat_drop_bit_eq drop_bit_nat_def)
qed

text \<open>The special-purpose blocks of IPv4, by their octets.\<close>

definition special_quad :: "nat \<Rightarrow> nat \<Rightarrow> nat \<Rightarrow> nat \<Rightarrow> bool" where
  "special_quad a b c d \<longleftrightarrow>
     a = 0 \<or> 224 \<le> a \<or> a = 10 \<or> a = 127
     \<or> a = 100 \<and> 64 \<le> b \<and> b \<le> 127
     \<or> a = 169 \<and> b = 254
     \<or> a = 172 \<and> 16 \<le> b \<and> b \<le> 31
     \<or> a = 192 \<and> (b = 168 \<or> b = 0 \<and> (c = 0 \<or> c = 2) \<or> b = 88 \<and> c = 99)
     \<or> a = 198 \<and> (18 \<le> b \<and> b \<le> 19 \<or> b = 51 \<and> c = 100)
     \<or> a = 203 \<and> b = 0 \<and> c = 113"

lemma quad_div:
  fixes a b c d :: nat
  assumes "b < 256" "c < 256" "d < 256"
  shows "(a * 16777216 + b * 65536 + c * 256 + d) div 16777216 = a"
    "(a * 16777216 + b * 65536 + c * 256 + d) div 65536 = a * 256 + b"
    "(a * 16777216 + b * 65536 + c * 256 + d) div 256 = a * 65536 + b * 256 + c"
    "(a * 16777216 + b * 65536 + c * 256 + d) div 4194304 = a * 4 + b div 64"
    "(a * 16777216 + b * 65536 + c * 256 + d) div 1048576 = a * 16 + b div 16"
    "(a * 16777216 + b * 65536 + c * 256 + d) div 131072 = a * 128 + b div 2"
    "(a * 16777216 + b * 65536 + c * 256 + d) div 268435456 = a div 16"
  using assms by linarith+

lemmas in_blocks = inV4_div unat_quad quad_div [OF unat_byte unat_byte unat_byte]

lemma pair_eq:
  fixes a b x y n :: nat
  assumes "b < n" "y < n"
  shows "a * n + b = x * n + y \<longleftrightarrow> a = x \<and> b = y"
proof
  assume e: "a * n + b = x * n + y"
  have "(a * n + b) div n = a" "(x * n + y) div n = x" using assms by simp_all
  then show "a = x \<and> b = y" using e by simp
qed simp

lemma octet_blocks:
  fixes a b c :: nat
  assumes "b < 256" "c < 256"
  shows "a * 256 + b = 43518 \<longleftrightarrow> a = 169 \<and> b = 254"
    "a * 256 + b = 49320 \<longleftrightarrow> a = 192 \<and> b = 168"
    "a * 65536 + b * 256 + c = 12582912 \<longleftrightarrow> a = 192 \<and> b = 0 \<and> c = 0"
    "a * 65536 + b * 256 + c = 12582914 \<longleftrightarrow> a = 192 \<and> b = 0 \<and> c = 2"
    "a * 65536 + b * 256 + c = 12605539 \<longleftrightarrow> a = 192 \<and> b = 88 \<and> c = 99"
    "a * 65536 + b * 256 + c = 12989284 \<longleftrightarrow> a = 198 \<and> b = 51 \<and> c = 100"
    "a * 65536 + b * 256 + c = 13303921 \<longleftrightarrow> a = 203 \<and> b = 0 \<and> c = 113"
    "a * 4 + b div 64 = 401 \<longleftrightarrow> a = 100 \<and> 64 \<le> b \<and> b \<le> 127"
    "a * 16 + b div 16 = 2753 \<longleftrightarrow> a = 172 \<and> 16 \<le> b \<and> b \<le> 31"
    "a * 128 + b div 2 = 25353 \<longleftrightarrow> a = 198 \<and> 18 \<le> b \<and> b \<le> 19"
    "a div 16 = 14 \<longleftrightarrow> 224 \<le> a \<and> a < 240"
    "a < 256 \<Longrightarrow> a div 16 = 15 \<longleftrightarrow> 240 \<le> a"
proof -
  have d: "b div 64 < 4" "b div 16 < 16" "b div 2 < 128" using assms by auto
  note two = pair_eq [OF assms(1)] and three = pair_eq [OF assms(2)]
  show "a * 256 + b = 43518 \<longleftrightarrow> a = 169 \<and> b = 254" "a * 256 + b = 49320 \<longleftrightarrow> a = 192 \<and> b = 168"
    using two [of 254 a 169] two [of 168 a 192] by simp_all
  show "a * 65536 + b * 256 + c = 12582912 \<longleftrightarrow> a = 192 \<and> b = 0 \<and> c = 0"
    "a * 65536 + b * 256 + c = 12582914 \<longleftrightarrow> a = 192 \<and> b = 0 \<and> c = 2"
    "a * 65536 + b * 256 + c = 12605539 \<longleftrightarrow> a = 192 \<and> b = 88 \<and> c = 99"
    "a * 65536 + b * 256 + c = 12989284 \<longleftrightarrow> a = 198 \<and> b = 51 \<and> c = 100"
    "a * 65536 + b * 256 + c = 13303921 \<longleftrightarrow> a = 203 \<and> b = 0 \<and> c = 113"
    using three [of 0 "a * 256 + b" "192 * 256 + 0"] three [of 2 "a * 256 + b" "192 * 256 + 0"]
      three [of 99 "a * 256 + b" "192 * 256 + 88"] three [of 100 "a * 256 + b" "198 * 256 + 51"]
      three [of 113 "a * 256 + b" "203 * 256 + 0"]
      two [of 0 a 192] two [of 88 a 192] two [of 51 a 198] two [of 0 a 203]
    by (simp_all add: algebra_simps)
  show "a * 4 + b div 64 = 401 \<longleftrightarrow> a = 100 \<and> 64 \<le> b \<and> b \<le> 127"
    using pair_eq [OF d(1), of 1 a 100] by auto
  show "a * 16 + b div 16 = 2753 \<longleftrightarrow> a = 172 \<and> 16 \<le> b \<and> b \<le> 31"
    using pair_eq [OF d(2), of 1 a 172] by auto
  show "a * 128 + b div 2 = 25353 \<longleftrightarrow> a = 198 \<and> 18 \<le> b \<and> b \<le> 19"
    using pair_eq [OF d(3), of 9 a 198] by auto
qed auto

lemma inV4_blocks:
  "inV4 [a, b, c, d] [0, 0, 0, 0] 8 \<longleftrightarrow> unat a = 0"
  "inV4 [a, b, c, d] [10, 0, 0, 0] 8 \<longleftrightarrow> unat a = 10"
  "inV4 [a, b, c, d] [127, 0, 0, 0] 8 \<longleftrightarrow> unat a = 127"
  "inV4 [a, b, c, d] [169, 254, 0, 0] 16 \<longleftrightarrow> unat a = 169 \<and> unat b = 254"
  "inV4 [a, b, c, d] [192, 168, 0, 0] 16 \<longleftrightarrow> unat a = 192 \<and> unat b = 168"
  "inV4 [a, b, c, d] [100, 64, 0, 0] 10 \<longleftrightarrow> unat a = 100 \<and> 64 \<le> unat b \<and> unat b \<le> 127"
  "inV4 [a, b, c, d] [172, 16, 0, 0] 12 \<longleftrightarrow> unat a = 172 \<and> 16 \<le> unat b \<and> unat b \<le> 31"
  "inV4 [a, b, c, d] [198, 18, 0, 0] 15 \<longleftrightarrow> unat a = 198 \<and> 18 \<le> unat b \<and> unat b \<le> 19"
  "inV4 [a, b, c, d] [192, 0, 0, 0] 24 \<longleftrightarrow> unat a = 192 \<and> unat b = 0 \<and> unat c = 0"
  "inV4 [a, b, c, d] [192, 0, 2, 0] 24 \<longleftrightarrow> unat a = 192 \<and> unat b = 0 \<and> unat c = 2"
  "inV4 [a, b, c, d] [192, 88, 99, 0] 24 \<longleftrightarrow> unat a = 192 \<and> unat b = 88 \<and> unat c = 99"
  "inV4 [a, b, c, d] [198, 51, 100, 0] 24 \<longleftrightarrow> unat a = 198 \<and> unat b = 51 \<and> unat c = 100"
  "inV4 [a, b, c, d] [203, 0, 113, 0] 24 \<longleftrightarrow> unat a = 203 \<and> unat b = 0 \<and> unat c = 113"
  "inV4 [a, b, c, d] [224, 0, 0, 0] 4 \<longleftrightarrow> 224 \<le> unat a \<and> unat a < 240"
  "inV4 [a, b, c, d] [240, 0, 0, 0] 4 \<longleftrightarrow> 240 \<le> unat a"
  by (simp_all add: in_blocks octet_blocks [OF unat_byte unat_byte] unat_byte)

lemma inV4_broadcast: "inV4 [a, b, c, d] [255, 255, 255, 255] 32 \<Longrightarrow> 240 \<le> unat a"
  using unat_byte [of a] unat_byte [of b] unat_byte [of c] unat_byte [of d] by (simp add: inV4_div unat_quad)

lemma refuse_chain: "(if c then refuse r else v) = PublicAddress \<longleftrightarrow> \<not> c \<and> v = PublicAddress"
  by (simp add: refuse_def)

lemma classifyIPv4_special:
  "classifyIPv4Bytes [a, b, c, d] = PublicAddress \<longleftrightarrow> \<not> special_quad (unat a) (unat b) (unat c) (unat d)"
proof -
  have multicast: "unat a \<ge> 224 \<longleftrightarrow> 224 \<le> unat a \<and> unat a < 240 \<or> 240 \<le> unat a" by auto
  have "classifyIPv4Bytes [a, b, c, d] = PublicAddress \<longleftrightarrow>
      \<not> inV4 [a, b, c, d] [255, 255, 255, 255] 32 \<and> \<not> special_quad (unat a) (unat b) (unat c) (unat d)"
    unfolding classifyIPv4Bytes_def refuse_chain inV4_blocks special_quad_def using multicast by argo
  moreover have "special_quad (unat a) (unat b) (unat c) (unat d)" if "inV4 [a, b, c, d] [255, 255, 255, 255] 32"
  proof -
    have "224 \<le> unat a" using inV4_broadcast [OF that] by simp
    then show ?thesis unfolding special_quad_def by (intro disjI2 disjI1)
  qed
  ultimately show ?thesis by blast
qed

subsection \<open>Spellings of an address\<close>

lemma digit_chars:
  assumes "d < 16"
  shows "digit_value (digit_char d) = d" "hex_digit (digit_char d)"
    "d < 10 \<Longrightarrow> is_digit (digit_char d)" "d < 8 \<Longrightarrow> digit_char d \<in> set ''01234567''"
    "d \<noteq> 0 \<Longrightarrow> digit_char d \<noteq> CHR ''0''" "digit_char d \<notin> set ''.:%[]xX''" "lower_char (digit_char d) = digit_char d"
proof -
  have "d \<in> set [0..<16]" using assms by simp
  moreover have "list_all (\<lambda>d. digit_value (digit_char d) = d \<and> hex_digit (digit_char d) \<and>
      (d < 10 \<longrightarrow> is_digit (digit_char d)) \<and> (d < 8 \<longrightarrow> digit_char d \<in> set ''01234567'')
      \<and> (d \<noteq> 0 \<longrightarrow> digit_char d \<noteq> CHR ''0'') \<and> digit_char d \<notin> set ''.:%[]xX'' \<and> lower_char (digit_char d) = digit_char d) [0..<16]"
    by code_simp
  ultimately have "digit_value (digit_char d) = d \<and> hex_digit (digit_char d) \<and>
      (d < 10 \<longrightarrow> is_digit (digit_char d)) \<and> (d < 8 \<longrightarrow> digit_char d \<in> set ''01234567'')
      \<and> (d \<noteq> 0 \<longrightarrow> digit_char d \<noteq> CHR ''0'') \<and> digit_char d \<notin> set ''.:%[]xX'' \<and> lower_char (digit_char d) = digit_char d"
    unfolding list_all_iff by blast
  then show "digit_value (digit_char d) = d" "hex_digit (digit_char d)"
    "d < 10 \<Longrightarrow> is_digit (digit_char d)" "d < 8 \<Longrightarrow> digit_char d \<in> set ''01234567''"
    "d \<noteq> 0 \<Longrightarrow> digit_char d \<noteq> CHR ''0''" "digit_char d \<notin> set ''.:%[]xX''" "lower_char (digit_char d) = digit_char d" by blast+
qed

lemma show_radix_not_Nil [simp]: "show_radix b n \<noteq> []"
  by (subst show_radix.simps) simp

lemma parse_show_radix:
  assumes "2 \<le> b" "b \<le> 16"
  shows "parse_radix b (show_radix b n) = n"
  using assms
proof (induction n rule: less_induct)
  case (less n)
  have "n mod b < 16" using less.prems mod_less_divisor [of b n] by linarith
  then show ?case
    using less.prems less.IH [of "n div b"] digit_chars(1) [of n] digit_chars(1) [of "n mod b"]
    by (subst show_radix.simps) (auto simp: parse_radix_def)
qed

lemma show_radix_digits:
  assumes "2 \<le> b" "c \<in> set (show_radix b n)"
  obtains d where "d < b" "c = digit_char d"
proof -
  have "\<exists>d < b. c = digit_char d"
    using assms
  proof (induction n rule: less_induct)
    case (less n)
    then have *: "c \<in> set (show_radix b (n div b)) \<or> c = digit_char (n mod b)" if "\<not> n < b"
      using that by (subst (asm) (2) show_radix.simps) auto
    show ?case
    proof (cases "n < b")
      case True
      then show ?thesis using less.prems by (subst (asm) show_radix.simps) auto
    next
      case False
      then have "n div b < n" "n mod b < b" using less.prems by auto
      then show ?thesis using * [OF False] less.IH less.prems(1) by blast
    qed
  qed
  then show ?thesis using that by blast
qed

lemma show_radix_hd: "2 \<le> b \<Longrightarrow> b \<le> 16 \<Longrightarrow> n \<noteq> 0 \<Longrightarrow> hd (show_radix b n) \<noteq> CHR ''0''"
proof (induction n rule: less_induct)
  case (less n)
  show ?case
  proof (cases "n < b")
    case True
    then show ?thesis using less.prems digit_chars(5) [of n] by (subst show_radix.simps) auto
  next
    case False
    then have "n div b < n" "n div b \<noteq> 0" using less.prems by (auto simp: div_eq_0_iff)
    then show ?thesis using False less by (subst show_radix.simps) (auto simp: hd_append)
  qed
qed


lemma octet_shape_show: "n < 256 \<Longrightarrow> octet_shape (show_radix 10 n)"
proof -
  assume n: "n < 256"
  have d: "n mod 10 < 16" "n div 10 mod 10 < 16" "n mod 10 < 10" "n div 10 mod 10 < 10" by auto
  consider "n < 10" | "10 \<le> n" "n < 100" | "100 \<le> n" by linarith
  then show ?thesis
  proof cases
    case 1
    then show ?thesis
      using digit_chars [of n] by (subst show_radix.simps) (cases "n = 0"; simp add: digit_char_def)
  next
    case 2
    then have "show_radix 10 n = [digit_char (n div 10), digit_char (n mod 10)]"
      by (subst show_radix.simps, subst show_radix.simps) auto
    then show ?thesis using 2 digit_chars [of "n div 10"] digit_chars(3) [OF d(1,3)] by auto
  next
    case 3
    then have "show_radix 10 n = [digit_char (n div 10 div 10), digit_char (n div 10 mod 10), digit_char (n mod 10)]"
      using n by (subst show_radix.simps, subst show_radix.simps, subst show_radix.simps) auto
    moreover have "n div 10 div 10 < 10" "n div 10 div 10 \<noteq> 0" using 3 n by auto
    ultimately show ?thesis
      using digit_chars [of "n div 10 div 10"] digit_chars(3) [OF d(1,3)] digit_chars(3) [OF d(2,4)] by auto
  qed
qed

lemma show_radix_no: "2 \<le> b \<Longrightarrow> b \<le> 16 \<Longrightarrow> c \<in> set ''.:%[]xX'' \<Longrightarrow> c \<notin> set (show_radix b n)"
  by (metis digit_chars(6) order_less_le_trans show_radix_digits)

lemma parseIPv4_format: "parseIPv4 (formatAddress [a, b, c, d]) = Some [a, b, c, d]"
proof -
  let ?ps = "map (\<lambda>x. show_radix 10 (unat (x :: byte))) [a, b, c, d]"
  have s: "split_on CHR ''.'' (join_with ''.'' ?ps) = ?ps"
    by (rule split_on_join_with) (auto simp: show_radix_no)
  have p: "parse_radix 10 (show_radix 10 n) = n" for n by (simp add: parse_show_radix)
  have u: "unat (x :: byte) \<le> 255" "octet_shape (show_radix 10 (unat (x :: byte)))" for x
    using unat_byte [of x] octet_shape_show [of "unat x"] by simp_all
  have f: "formatAddress [a, b, c, d] = join_with ''.'' ?ps" by (simp add: formatAddress_def)
  show ?thesis unfolding parseIPv4_def f s Let_def by (simp add: p u linorder_not_less)
qed

definition quad_value :: "byte list \<Rightarrow> nat" where
  "quad_value bytes = unat (quad bytes)"

lemma tail_bytes_snoc: "tail_bytes (Suc k) (n * 256 + unat (d :: byte)) = tail_bytes k n @ [d]"
  using unat_byte [of d] by simp

lemma tail_bytes_quad: "tail_bytes 4 (quad_value [a, b, c, d]) = [a, b, c, d]"
proof -
  have v: "quad_value [a, b, c, d] = (((0 * 256 + unat a) * 256 + unat b) * 256 + unat c) * 256 + unat d"
    by (simp add: quad_value_def unat_quad)
  have four: "(4 :: nat) = Suc (Suc (Suc (Suc 0)))" by simp
  show ?thesis unfolding v four tail_bytes_snoc by simp
qed

lemma quad_value_less: "quad_value bytes < 2 ^ 32"
  using unsigned_less [of "quad bytes"] by (simp add: quad_value_def)

lemma quad_value_safe: "capped (quad_value bytes) = quad_value bytes"
  using quad_value_less [of bytes] by (simp add: capped_def MAX_SAFE_INTEGER_def)

lemma parts_single:
  assumes "CHR ''.'' \<notin> set t" "t \<noteq> []" "parseIPv4Part t = Some (quad_value [a, b, c, d])"
  shows "parseIPv4 t = None" "parseIPv4Loose t = Some [a, b, c, d]"
proof -
  have s: "split_on CHR ''.'' t = [t]" using assms(1) by (rule split_on_single)
  have e: "\<not> endsWith t ''.''" using assms(1,2) by (auto simp: endsWith_iff_suffix suffix_def)
  show "parseIPv4 t = None" by (simp add: parseIPv4_def s)
  show "parseIPv4Loose t = Some [a, b, c, d]"
    using quad_value_less [of "[a, b, c, d]"] assms(2,3) tail_bytes_quad [of a b c d]
    by (simp add: parseIPv4Loose_def e s)
qed

lemma show_radix_all:
  assumes "2 \<le> b" "\<And>d. d < b \<Longrightarrow> P (digit_char d)"
  shows "list_all P (show_radix b n)"
  unfolding list_all_iff using assms by (metis show_radix_digits)

lemma show_radix_lower: "2 \<le> b \<Longrightarrow> b \<le> 16 \<Longrightarrow> toLowerCase (show_radix b n) = show_radix b n"
  using show_radix_all [of b "\<lambda>c. lower_char c = c" n] digit_chars(7)
  by (simp add: toLowerCase_def map_idI list_all_iff)

lemma not_hex_prefix:
  assumes "2 \<le> b" "b \<le> 16"
  shows "toLowerCase (take 2 (show_radix b n)) \<noteq> ''0x''" "toLowerCase (take 2 (''0'' @ show_radix b n)) \<noteq> ''0x''"
proof -
  have x: "CHR ''x'' \<notin> set (toLowerCase (show_radix b n))"
    using assms by (simp add: show_radix_lower show_radix_no)
  then have "CHR ''x'' \<notin> set (toLowerCase (take k (show_radix b n)))" for k
    using in_set_takeD [of "CHR ''x''" k "toLowerCase (show_radix b n)"] by (auto simp: toLowerCase_def take_map)
  then show "toLowerCase (take 2 (show_radix b n)) \<noteq> ''0x''"
    by (metis list.set_intros)
  have "CHR ''x'' \<notin> set (toLowerCase (take (Suc 0) (show_radix b n)))" by fact
  then show "toLowerCase (take 2 (''0'' @ show_radix b n)) \<noteq> ''0x''"
    by (auto simp: toLowerCase_def numeral_2_eq_2)
qed

lemma parseIPv4Part_decimal: "parseIPv4Part (show_radix 10 n) = Some (capped n)"
proof -
  let ?t = "show_radix 10 n"
  have digits: "list_all is_digit ?t" by (rule show_radix_all) (auto simp: digit_chars(3))
  have p: "parse_radix 10 ?t = n" by (simp add: parse_show_radix)
  have "n = 0 \<Longrightarrow> ?t = ''0''" by (simp, code_simp)
  then have "hd ?t = CHR ''0'' \<Longrightarrow> tl ?t = []" using show_radix_hd [of 10 n] by fastforce
  then show ?thesis using digits not_hex_prefix(1) [of 10 n] by (auto simp: parseIPv4Part_def p)
qed

lemma parseIPv4Part_hex: "parseIPv4Part (''0x'' @ show_radix 16 n) = Some (capped n)"
proof -
  have "list_all hex_digit (show_radix 16 n)" by (rule show_radix_all) (auto simp: digit_chars(2))
  moreover have "toLowerCase (take 2 (''0x'' @ show_radix 16 n)) = ''0x''" by (simp add: toLowerCase_def lower_char_def)
  ultimately show ?thesis by (simp add: parseIPv4Part_def parse_show_radix)
qed

lemma parseIPv4Part_octal: "parseIPv4Part (''0'' @ show_radix 8 n) = Some (capped n)"
proof -
  have o: "list_all (\<lambda>c. c \<in> set ''01234567'') (show_radix 8 n)" by (rule show_radix_all, simp, rule digit_chars(4)) auto
  show ?thesis using o not_hex_prefix(2) [of 8 n] by (simp add: parseIPv4Part_def parse_show_radix)
qed

text \<open>
  Every spelling of an IPv4 address as a host name names the same address: dotted decimal, one decimal
  number, one hexadecimal number and one octal number are all read as its four bytes, so the verdict on the
  host name is the verdict on the address.
\<close>

theorem spellings_same_address:
  "map (lexical_verdict interfaces)
      [formatAddress [a, b, c, d], show_radix 10 (quad_value [a, b, c, d]),
       ''0x'' @ show_radix 16 (quad_value [a, b, c, d]), ''0'' @ show_radix 8 (quad_value [a, b, c, d])]
    = replicate 4 (Some (classifyAddressBytes interfaces [a, b, c, d]))"
proof -
  let ?v = "quad_value [a, b, c, d]"
  have plain: "lexical_verdict interfaces h = Some (classifyAddressBytes interfaces [a, b, c, d])"
    if "set h \<inter> set '':%['' = {}" "case parseIPv4 h of Some x \<Rightarrow> x = [a, b, c, d] | None \<Rightarrow> parseIPv4Loose h = Some [a, b, c, d]" for h
    using that by (auto simp: lexical_verdict_def hostnameAsAddress_def startsWith_iff_prefix prefix_def split: option.splits)
  have d: "set (formatAddress [a, b, c, d]) \<inter> set '':%['' = {}"
    using show_radix_no [of 10] by (auto simp: formatAddress_def)
  have s: "CHR ''.'' \<notin> set (show_radix r ?v)" "set (show_radix r ?v) \<inter> set '':%['' = {}" if "r \<in> {8, 10, 16}" for r
    using that show_radix_no [of r _ ?v] by auto
  have "lexical_verdict interfaces (formatAddress [a, b, c, d]) = Some (classifyAddressBytes interfaces [a, b, c, d])"
    by (rule plain) (use d in \<open>simp_all add: parseIPv4_format\<close>)
  moreover have "lexical_verdict interfaces (show_radix 10 ?v) = Some (classifyAddressBytes interfaces [a, b, c, d])"
    by (rule plain) (use s [of 10] in \<open>simp_all add: parts_single [OF _ _ parseIPv4Part_decimal [of ?v, unfolded quad_value_safe]]\<close>)
  moreover have "lexical_verdict interfaces (''0x'' @ show_radix 16 ?v) = Some (classifyAddressBytes interfaces [a, b, c, d])"
    by (rule plain) (use s [of 16] parts_single [OF _ _ parseIPv4Part_hex [of ?v, unfolded quad_value_safe]] in \<open>simp_all\<close>)
  moreover have "lexical_verdict interfaces (''0'' @ show_radix 8 ?v) = Some (classifyAddressBytes interfaces [a, b, c, d])"
    by (rule plain) (use s [of 8] parts_single [OF _ _ parseIPv4Part_octal [of ?v, unfolded quad_value_safe]] in \<open>simp_all\<close>)
  ultimately show ?thesis by (simp add: numeral_eq_Suc)
qed

subsection \<open>IPv4 inside IPv6\<close>

lemma byte_eq_bits: "(x :: byte) = y \<longleftrightarrow> (\<forall>j < 8. bit x (7 - j) = bit y (7 - j))"
proof
  assume r: "\<forall>j < 8. bit x (7 - j) = bit y (7 - j)"
  show "x = y"
  proof (rule bit_eqI)
    fix n assume "possible_bit TYPE(byte) n"
    then have "n < 8" by simp
    then show "bit x n = bit y n" using r [rule_format, of "7 - n"] by simp
  qed
qed simp

lemma prefixIs_bytes: "prefixIs b pre (8 * k) \<longleftrightarrow> (\<forall>i < k. b ! i = prefix_byte pre i)"
proof -
  have "prefixIs b pre (8 * k) \<longleftrightarrow>
      (\<forall>i < k. \<forall>j < 8. bit (b ! i) (7 - j) = bit (prefix_byte pre i) (7 - j))" (is "?l \<longleftrightarrow> ?r")
  proof
    assume l: ?l
    show ?r
    proof (intro allI impI)
      fix i j :: nat assume ij: "i < k" "j < 8"
      then have "8 * i + j < 8 * k" by linarith
      then show "bit (b ! i) (7 - j) = bit (prefix_byte pre i) (7 - j)"
        using l ij by (auto simp: prefixIs_def list_all_iff dest: bspec [of _ _ "8 * i + j"])
    qed
  next
    assume r: ?r
    show ?l unfolding prefixIs_def list_all_iff
    proof
      fix n assume "n \<in> set [0..<8 * k]"
      then have "n div 8 < k" "n mod 8 < 8" by auto
      then show "bit (b ! (n div 8)) (7 - n mod 8) = bit (prefix_byte pre (n div 8)) (7 - n mod 8)"
        using r by blast
    qed
  qed
  then show ?thesis by (simp add: byte_eq_bits)
qed

lemma viaEmbedded_public: "viaEmbedded v4 = PublicAddress \<longleftrightarrow> classifyIPv4Bytes v4 = PublicAddress"
  by (simp add: viaEmbedded_def split: address_verdict.splits)

lemma embedded_plain: "length b = 16 \<Longrightarrow> at \<le> 12 \<Longrightarrow> embedded b at 0 = take 4 (drop at b)"
  by (rule nth_equalityI) (auto simp: embedded_def)

lemma branchE: "(if c then x else y) = (v :: address_verdict) \<Longrightarrow> (c \<Longrightarrow> x = v \<Longrightarrow> R) \<Longrightarrow> (\<not> c \<Longrightarrow> y = v \<Longrightarrow> R) \<Longrightarrow> R"
  by (cases c) auto

lemma refuse_not_public [simp]: "refuse r \<noteq> PublicAddress"
  by (simp add: refuse_def)

lemma prefix_first:
  assumes "prefixIs b pre (8 * k)" "i < k" shows "b ! i = prefix_byte pre i"
  using assms by (simp add: prefixIs_bytes)

lemma zero_first: "length b = 16 \<Longrightarrow> zeroUpTo b n \<Longrightarrow> 0 < n \<Longrightarrow> b ! 0 = 0"
  by (cases b; cases n) (auto simp: zeroUpTo_def)

lemma public_in_2000:
  assumes l: "length b = 16" and p: "classifyIPv6Bytes b = PublicAddress"
  shows "prefixIs b [0x20] 3 \<or> classifyIPv4Bytes (drop 12 b) = PublicAddress"
proof (rule ccontr)
  assume n: "\<not> ?thesis"
  then have e: "viaEmbedded (embedded b 12 0) \<noteq> PublicAddress" "\<not> prefixIs b [0x20] 3"
    using l by (auto simp: viaEmbedded_public embedded_plain)
  have q: "prefixIs b [0x20, 0x01, 0x00, 0x00] 32 \<Longrightarrow> prefixIs b [0x20] 3" "prefixIs b [0x20, 0x02] 16 \<Longrightarrow> prefixIs b [0x20] 3"
    by (auto simp: prefixIs_def prefix_byte_def upt_rec)
  show False
    using p unfolding classifyIPv6Bytes_def
    by (elim branchE) (insert e q, simp_all only: refuse_not_public simp_thms not_False_eq_True not_True_eq_False)
qed

lemma not_low:
  assumes l: "length b = 16" and f: "b ! 0 \<noteq> 0"
  shows "\<not> zeroUpTo b 8" "\<not> zeroUpTo b 10" "\<not> zeroUpTo b 12"
    "\<not> prefixIs b [0x00, 0x64, 0xff, 0x9b, 0, 0, 0, 0, 0, 0, 0, 0] 96"
  using zero_first [OF l, of 8] zero_first [OF l, of 10] zero_first [OF l, of 12] f prefix_first [of b "[0x00, 0x64, 0xff, 0x9b, 0, 0, 0, 0, 0, 0, 0, 0]" 12 0]
  by (auto simp: prefix_byte_def)

lemma public_6to4:
  assumes l: "length b = 16" and p: "classifyIPv6Bytes b = PublicAddress" and x: "prefixIs b [0x20, 0x02] 16"
  shows "classifyIPv4Bytes (take 4 (drop 2 b)) = PublicAddress"
proof -
  have f: "b ! 0 = 0x20" "b ! 1 = 0x02"
    using prefix_first [of b "[0x20, 0x02]" 2 0] prefix_first [of b "[0x20, 0x02]" 2 1] x by (auto simp: prefix_byte_def)
  have e: "\<not> prefixIs b [0x20, 0x01, 0x00, 0x00] 32"
    using f prefix_first [of b "[0x20, 0x01, 0x00, 0x00]" 4 1] by (auto simp: prefix_byte_def)
  have n: "b ! 0 \<noteq> 0" using f by simp
  have "viaEmbedded (embedded b 2 0) = PublicAddress"
    using p unfolding classifyIPv6Bytes_def
    by (elim branchE) (insert not_low [OF l n] e x, simp_all only: refuse_not_public simp_thms not_False_eq_True not_True_eq_False)
  then show ?thesis using l by (simp add: viaEmbedded_public embedded_plain)
qed

lemma public_teredo:
  assumes l: "length b = 16" and p: "classifyIPv6Bytes b = PublicAddress" and x: "prefixIs b [0x20, 0x01, 0x00, 0x00] 32"
  shows "classifyIPv4Bytes (take 4 (drop 4 b)) = PublicAddress \<and> classifyIPv4Bytes (map NOT (drop 12 b)) = PublicAddress"
proof -
  have f: "b ! 0 = 0x20" using prefix_first [of b "[0x20, 0x01, 0x00, 0x00]" 4 0] x by (auto simp: prefix_byte_def)
  have n: "b ! 0 \<noteq> 0" using f by simp
  have "(let server = viaEmbedded (embedded b 4 0)
         in if server \<noteq> PublicAddress then server else viaEmbedded (embedded b 12 0xff)) = PublicAddress"
    using p unfolding classifyIPv6Bytes_def
    by (elim branchE) (insert not_low [OF l n] x, simp_all only: refuse_not_public simp_thms not_False_eq_True not_True_eq_False)
  moreover have "embedded b 12 0xff = map NOT (drop 12 b)"
  proof (rule nth_equalityI)
    fix i assume "i < length (embedded b 12 0xff)"
    then have "i < 4" by (simp add: embedded_def)
    moreover have "x XOR 0xff = NOT x" for x :: byte
    proof (rule bit_eqI)
      fix n assume "possible_bit TYPE(byte) n"
      then have "n < 8" by simp
      then have "n \<in> set [0..<8]" by simp
      then have "bit (0xff :: byte) n" by (auto simp: upt_rec)
      then show "bit (x XOR 0xff) n = bit (NOT x) n" using \<open>n < 8\<close> by (simp add: bit_simps)
    qed
    ultimately show "embedded b 12 0xff ! i = map NOT (drop 12 b) ! i" using l by (simp add: embedded_def)
  qed (use l in \<open>simp add: embedded_def\<close>)
  ultimately show ?thesis using l by (auto simp: viaEmbedded_public embedded_plain split: if_splits)
qed

text \<open>
  An IPv6 address that is let through is a global unicast one or carries a public IPv4 address, and the
  IPv4 addresses carried by a tunnel address (6to4, and the server and the client of Teredo) are
  themselves public; no private IPv4 target can be reached by wrapping it in an IPv6 address.
\<close>

theorem public_ipv6_carries_public_ipv4:
  assumes "length b = 16" "classifyIPv6Bytes b = PublicAddress"
  shows "(prefixIs b [0x20] 3 \<or> classifyIPv4Bytes (drop 12 b) = PublicAddress)
    \<and> (prefixIs b [0x20, 0x02] 16 \<longrightarrow> classifyIPv4Bytes (take 4 (drop 2 b)) = PublicAddress)
    \<and> (prefixIs b [0x20, 0x01, 0x00, 0x00] 32 \<longrightarrow>
        classifyIPv4Bytes (take 4 (drop 4 b)) = PublicAddress \<and> classifyIPv4Bytes (map NOT (drop 12 b)) = PublicAddress)"
  using public_in_2000 [OF assms] public_6to4 [OF assms] public_teredo [OF assms] by blast

theorem public_ipv6_carries_public_ipv4_witness:
  "classifyIPv6Bytes [0x20, 0x02, 8, 8, 8, 8, 0, 0, 0, 0, 0, 0, 0, 0, 0, 1] = PublicAddress
    \<and> classifyIPv4Bytes [8, 8, 8, 8] = PublicAddress"
proof -
  let ?b = "[0x20, 0x02, 8, 8, 8, 8, 0, 0, 0, 0, 0, 0, 0, 0, 0, 1] :: byte list"
  have c: "classifyIPv6Bytes ?b = PublicAddress" by code_simp
  have x: "prefixIs ?b [0x20, 0x02] 16" by code_simp
  show ?thesis using public_ipv6_carries_public_ipv4 [of ?b, OF _ c] c x by simp
qed

text \<open>
  C39: the table of refused IPv4 blocks, written with 32-bit masks, lets an address through exactly when its
  octets lie outside the special-purpose blocks.
\<close>

theorem ipv4_public_iff_not_special:
  "classifyIPv4Bytes [a, b, c, d] = PublicAddress \<longleftrightarrow> \<not> special_quad (unat a) (unat b) (unat c) (unat d)"
  by (rule classifyIPv4_special)

end
