(* ===== verification/Web_Target.thy ===== *)
theory Web_Target
  imports Address Rule_Match
begin

text \<open>
  What a \<open>WebFetch\<close> call may reach, as the permission pipeline asks it: the classification of a host name
  (\<^verbatim>\<open>runtime/src/web/private-address.ts\<close>), the refusals that need no network access
  (\<^verbatim>\<open>packages/web/src/url.ts\<close>, \<^verbatim>\<open>runtime/src/web/fetchable-url.ts\<close>) and the preapproved hosts
  (\<^verbatim>\<open>runtime/src/web/preapproved-hosts.ts\<close>). The table of interfaces and the name resolver are arguments;
  a resolver that throws is the value \<open>None\<close>.
\<close>

subsection \<open>Private addresses\<close>

datatype address_class = PublicClass | PrivateClass

record address_finding =
  af_class :: address_class
  af_reason :: "string option"

fun reason_text :: "refusal_reason \<Rightarrow> string" where
  "reason_text Unspecified = ''unspecified''"
| "reason_text Loopback = ''loopback''"
| "reason_text PrivateUse = ''private''"
| "reason_text Cgnat = ''cgnat''"
| "reason_text LinkLocal = ''link-local''"
| "reason_text SiteLocal = ''site-local''"
| "reason_text UniqueLocal = ''unique-local''"
| "reason_text Multicast = ''multicast''"
| "reason_text Broadcast = ''broadcast''"
| "reason_text Reserved = ''reserved''"
| "reason_text Documentation = ''documentation''"
| "reason_text Benchmarking = ''benchmarking''"
| "reason_text LocalNat64 = ''local-nat64''"
| "reason_text NotGlobalUnicast = ''not-global-unicast''"
| "reason_text LocalInterface = ''local-interface''"
| "reason_text ReservedName = ''reserved-name''"
| "reason_text ZoneId = ''zone-id''"
| "reason_text Unparseable = ''unparseable''"

definition public_finding :: address_finding where
  "public_finding = \<lparr>af_class = PublicClass, af_reason = None\<rparr>"

definition finding_of :: "address_verdict \<Rightarrow> address_finding" where
  "finding_of verdict =
     (case verdict of
        PublicAddress \<Rightarrow> \<lparr>af_class = PublicClass, af_reason = Some ''public''\<rparr>
      | Refused reason _ \<Rightarrow> \<lparr>af_class = PrivateClass, af_reason = Some (reason_text reason)\<rparr>)"

definition stripIpv6Brackets :: "string \<Rightarrow> string" where
  "stripIpv6Brackets host =
     (if startsWith host ''['' \<and> endsWith host '']'' then butlast (tl host) else host)"

text \<open>
  \<open>net.isIP\<close>: 4 for a dotted quad without leading zeros, 6 for an IPv6 address with an optional zone after
  a percent sign, 0 otherwise. Brackets are not part of an address.
\<close>

definition zone_char :: "char \<Rightarrow> bool" where
  "zone_char c \<longleftrightarrow> is_digit c \<or> is_upper c \<or> is_lower c \<or> c \<in> set ''-.:''"

definition isIP :: "string \<Rightarrow> nat" where
  "isIP s =
     (if parseIPv4 s \<noteq> None then 4
      else
        (let body = takeWhile (\<lambda>c. c \<noteq> CHR ''%'') s; zone = drop (length body) s in
         if \<not> startsWith body ''['' \<and> parseIPv6 body \<noteq> None \<and> (zone = [] \<or> tl zone \<noteq> [] \<and> list_all zone_char (tl zone)) then 6
         else 0))"

definition classifyIpLiteral :: "string list \<Rightarrow> string \<Rightarrow> address_finding option" where
  "classifyIpLiteral interfaces address =
     (if isIP address = 0 then None else Some (finding_of (classifyAddress interfaces address)))"

definition classifyReservedName :: "string \<Rightarrow> address_finding option" where
  "classifyReservedName host =
     (if \<not> isReservedPrivateName host then None
      else
        (let h = without_root_dot (toLowerCase host) in
         Some \<lparr>af_class = PrivateClass,
               af_reason = Some (if h = ''localhost'' \<or> endsWith h ''.localhost'' then ''the localhost TLD (RFC 6761)''
                                 else ''the .local mDNS TLD'')\<rparr>))"

definition classifyHostnameLexically :: "string list \<Rightarrow> string \<Rightarrow> address_finding option" where
  "classifyHostnameLexically interfaces host =
     (case classifyIpLiteral interfaces (stripIpv6Brackets host) of
        Some finding \<Rightarrow> Some finding
      | None \<Rightarrow>
          (case classifyReservedName host of
             Some finding \<Rightarrow> Some finding
           | None \<Rightarrow> map_option finding_of (lexical_verdict interfaces host)))"

definition classifyResolvedAddress :: "string list \<Rightarrow> string \<Rightarrow> address_finding" where
  "classifyResolvedAddress interfaces address = the_default public_finding (classifyIpLiteral interfaces address)"

definition UNRESOLVABLE_HOST_REASON :: string where
  "UNRESOLVABLE_HOST_REASON = ''could not resolve any address for this host''"

definition unresolvable :: address_finding where
  "unresolvable = \<lparr>af_class = PrivateClass, af_reason = Some UNRESOLVABLE_HOST_REASON\<rparr>"

definition classifyHostname :: "string list \<Rightarrow> (string \<Rightarrow> string list option) \<Rightarrow> string \<Rightarrow> address_finding" where
  "classifyHostname interfaces resolver host =
     (case classifyHostnameLexically interfaces host of
        Some finding \<Rightarrow> finding
      | None \<Rightarrow>
          (case resolver host of
             None \<Rightarrow> unresolvable
           | Some addresses \<Rightarrow>
               if addresses = [] then unresolvable
               else (case find (\<lambda>f. af_class f = PrivateClass) (map (classifyResolvedAddress interfaces) addresses) of
                       Some finding \<Rightarrow> finding
                     | None \<Rightarrow> public_finding)))"

subsection \<open>Certain refusals\<close>

datatype unfetchable_reason = TooLong | EmbeddedCredentials | SingleLabelHostname | UnsupportedScheme

definition MAX_URL_LENGTH :: nat where
  "MAX_URL_LENGTH = 2000"

definition upgradeToHttps :: "parsed_url \<Rightarrow> parsed_url" where
  "upgradeToHttps url =
     (if protocol url \<noteq> ''http:'' then url else url\<lparr>protocol := ''https:'', href := httpsHref url\<rparr>)"

definition fetchTimeUrlRefusal :: "parsed_url \<Rightarrow> unfetchable_reason option" where
  "fetchTimeUrlRefusal url =
     (if length (href url) > MAX_URL_LENGTH then Some TooLong
      else if username url \<noteq> [] \<or> password url \<noteq> [] then Some EmbeddedCredentials
      else if length (split_on CHR ''.'' (hostname url)) < 2 then Some SingleLabelHostname
      else None)"

definition unfetchableUrlReason :: "parsed_url \<Rightarrow> unfetchable_reason option" where
  "unfetchableUrlReason url =
     (let upgraded = upgradeToHttps url in
      if protocol upgraded \<noteq> ''https:'' then Some UnsupportedScheme else fetchTimeUrlRefusal upgraded)"

definition isCertainlyUnfetchableUrl :: "parsed_url \<Rightarrow> unfetchable_reason option" where
  "isCertainlyUnfetchableUrl url = fetchTimeUrlRefusal (upgradeToHttps url)"

subsection \<open>Preapproved hosts\<close>

definition PREAPPROVED_HOST_ENTRIES :: "string list" where
  "PREAPPROVED_HOST_ENTRIES =
     [''platform.claude.com'', ''code.claude.com'', ''claude.com/docs'', ''modelcontextprotocol.io'',
      ''github.com/anthropics'', ''agentskills.io'', ''docs.python.org'', ''en.cppreference.com'',
      ''docs.oracle.com'', ''learn.microsoft.com'', ''developer.mozilla.org'', ''go.dev/doc'', ''go.dev/ref'',
      ''www.php.net'', ''docs.swift.org'', ''kotlinlang.org'', ''ruby-doc.org'', ''doc.rust-lang.org'',
      ''www.typescriptlang.org'', ''react.dev'', ''angular.io'', ''vuejs.org'', ''nextjs.org'', ''expressjs.com'',
      ''nodejs.org'', ''bun.sh'', ''jquery.com'', ''getbootstrap.com'', ''tailwindcss.com'', ''d3js.org'',
      ''threejs.org'', ''redux.js.org'', ''webpack.js.org'', ''jestjs.io'', ''reactrouter.com'',
      ''docs.djangoproject.com'', ''flask.palletsprojects.com'', ''fastapi.tiangolo.com'', ''pandas.pydata.org'',
      ''numpy.org'', ''www.tensorflow.org'', ''pytorch.org'', ''scikit-learn.org'', ''matplotlib.org'',
      ''requests.readthedocs.io'', ''jupyter.org'', ''laravel.com'', ''symfony.com'',
      ''wordpress.org/documentation'', ''docs.spring.io'', ''hibernate.org'', ''tomcat.apache.org'', ''gradle.org'',
      ''maven.apache.org'', ''asp.net'', ''dotnet.microsoft.com'', ''blazor.net'', ''reactnative.dev'',
      ''docs.flutter.dev'', ''developer.apple.com'', ''developer.android.com'', ''keras.io'', ''spark.apache.org'',
      ''huggingface.co/docs'', ''www.kaggle.com/docs'', ''www.mongodb.com'', ''redis.io'', ''www.postgresql.org'',
      ''dev.mysql.com'', ''www.sqlite.org'', ''graphql.org'', ''prisma.io'', ''docs.getdbt.com'',
      ''docs.aws.amazon.com'', ''cloud.google.com'', ''learn.microsoft.com'', ''kubernetes.io'', ''www.docker.com'',
      ''www.terraform.io'', ''www.ansible.com'', ''vercel.com/docs'', ''docs.stripe.com'', ''docs.netlify.com'',
      ''devcenter.heroku.com'', ''dev.wix.com/docs'', ''cypress.io'', ''selenium.dev'', ''docs.unity.com'',
      ''docs.unrealengine.com'', ''git-scm.com'', ''nginx.org'', ''httpd.apache.org'']"

definition entry_host :: "string \<Rightarrow> string" where
  "entry_host entry = takeWhile (\<lambda>c. c \<noteq> CHR ''/'') entry"

definition entry_prefix :: "string \<Rightarrow> string" where
  "entry_prefix entry = dropWhile (\<lambda>c. c \<noteq> CHR ''/'') entry"

definition HOSTNAME_ONLY :: "string list" where
  "HOSTNAME_ONLY = filter (\<lambda>entry. CHR ''/'' \<notin> set entry) PREAPPROVED_HOST_ENTRIES"

definition PATH_PREFIXES :: "string \<Rightarrow> string list" where
  "PATH_PREFIXES host =
     remdups (map entry_prefix (filter (\<lambda>entry. CHR ''/'' \<in> set entry \<and> entry_host entry = host) PREAPPROVED_HOST_ENTRIES))"

text \<open>The expression \<open>ENCODED_TRAVERSAL\<close>: a percent sign, any number of \<open>25\<close>, then \<open>2f\<close>, \<open>5c\<close> or \<open>2e\<close> in either case.\<close>

fun traversal_code :: "string \<Rightarrow> bool" where
  "traversal_code (a # b # s) =
     (if [a, b] = ''25'' then traversal_code s else toLowerCase [a, b] \<in> {''2f'', ''5c'', ''2e''})"
| "traversal_code _ = False"

fun isTraversalEncoded :: "string \<Rightarrow> bool" where
  "isTraversalEncoded [] = False"
| "isTraversalEncoded (c # s) = (c = CHR ''%'' \<and> traversal_code s \<or> isTraversalEncoded s)"

definition underPrefix :: "string \<Rightarrow> string \<Rightarrow> bool" where
  "underPrefix path pre \<longleftrightarrow> path = pre \<or> startsWith path (pre @ ''/'')"

definition isPreapprovedHost :: "string \<Rightarrow> string \<Rightarrow> bool" where
  "isPreapprovedHost host path =
     (if host \<in> set HOSTNAME_ONLY then True
      else if PATH_PREFIXES host = [] then False
      else if isTraversalEncoded path then False
      else list_ex (underPrefix path) (PATH_PREFIXES host))"

definition isPreapprovedUrl :: "parsed_url \<Rightarrow> bool" where
  "isPreapprovedUrl url = isPreapprovedHost (hostname url) (pathname url)"

definition wwwVariants :: "string \<Rightarrow> string list" where
  "wwwVariants host =
     (let short = (if startsWith host ''www.'' then drop 4 host else host)
      in rev (remdups (rev [host, short, ''www.'' @ short])))"

record preapproved_match =
  pm_host :: string
  pm_pathPrefix :: "string option"

fun scope_loop :: "string \<Rightarrow> string list \<Rightarrow> preapproved_match option" where
  "scope_loop path [] = None"
| "scope_loop path (candidate # rest) =
     (if candidate \<in> set HOSTNAME_ONLY then Some \<lparr>pm_host = candidate, pm_pathPrefix = None\<rparr>
      else if PATH_PREFIXES candidate = [] then scope_loop path rest
      else if isTraversalEncoded path then None
      else (case find (underPrefix path) (PATH_PREFIXES candidate) of
              Some pre \<Rightarrow> Some \<lparr>pm_host = candidate, pm_pathPrefix = Some pre\<rparr>
            | None \<Rightarrow> scope_loop path rest))"

definition preapprovedScopeOf :: "parsed_url \<Rightarrow> preapproved_match option" where
  "preapprovedScopeOf url = scope_loop (pathname url) (wwwVariants (hostname url))"

definition staysWithinScope :: "preapproved_match \<Rightarrow> parsed_url \<Rightarrow> bool" where
  "staysWithinScope origin url =
     (if hostname url \<notin> set (wwwVariants (pm_host origin)) then False
      else (case pm_pathPrefix origin of
              None \<Rightarrow> True
            | Some pre \<Rightarrow> \<not> isTraversalEncoded (pathname url) \<and> underPrefix (pathname url) pre))"

subsection \<open>Lemmas\<close>

text \<open>
  C40: a host that is only known by name counts as public only if it resolved, and every IP address it
  resolved to is public; an empty answer and a resolver that fails are private.
\<close>

theorem public_host_resolves_public:
  assumes "classifyHostnameLexically interfaces host = None"
    and "af_class (classifyHostname interfaces resolver host) = PublicClass"
  shows "\<exists>addresses. resolver host = Some addresses \<and> addresses \<noteq> [] \<and>
    list_all (\<lambda>a. isIP a = 0 \<or> classifyAddress interfaces a = PublicAddress) addresses"
proof -
  obtain addresses where r: "resolver host = Some addresses" "addresses \<noteq> []"
    and none: "find (\<lambda>f. af_class f = PrivateClass) (map (classifyResolvedAddress interfaces) addresses) = None"
    using assms by (auto simp: classifyHostname_def unresolvable_def find_Some_iff split: option.splits if_splits)
  have "isIP a = 0 \<or> classifyAddress interfaces a = PublicAddress" if "a \<in> set addresses" for a
  proof -
    have "af_class (classifyResolvedAddress interfaces a) \<noteq> PrivateClass"
      using none that by (auto simp: find_None_iff)
    then show ?thesis
      by (cases "isIP a = 0"; cases "classifyAddress interfaces a")
        (simp_all add: classifyResolvedAddress_def classifyIpLiteral_def finding_of_def the_default_def)
  qed
  then show ?thesis using r by (auto simp: list_all_iff)
qed

theorem public_host_resolves_public_witness:
  "\<exists>addresses. Some [''8.8.8.8''] = Some addresses \<and> addresses \<noteq> [] \<and>
    list_all (\<lambda>a. isIP a = 0 \<or> classifyAddress [] a = PublicAddress) addresses"
proof -
  have "classifyHostnameLexically [] ''example.com'' = None" by code_simp
  moreover have "af_class (classifyHostname [] (\<lambda>_. Some [''8.8.8.8'']) ''example.com'') = PublicClass" by code_simp
  ultimately show ?thesis using public_host_resolves_public [of "[]" "''example.com''" "\<lambda>_. Some [''8.8.8.8'']"] by blast
qed

lemma prefixes_of: "pre \<in> set (PATH_PREFIXES host) \<longleftrightarrow>
    (\<exists>entry \<in> set PREAPPROVED_HOST_ENTRIES. CHR ''/'' \<in> set entry \<and> entry_host entry = host \<and> entry_prefix entry = pre)"
  by (auto simp: PATH_PREFIXES_def)

text \<open>
  A URL is preapproved only through an entry of the list: either the entry is the host itself, or it
  is the host followed by a path that contains the path of the URL at a segment boundary, and then the path hides no
  encoded slash, backslash or dot.
\<close>

theorem preapproved_only_by_entry:
  assumes "isPreapprovedUrl url"
  shows "\<exists>entry \<in> set PREAPPROVED_HOST_ENTRIES.
    entry = hostname url
    \<or> (\<exists>tail. entry = hostname url @ entry_prefix entry \<and> pathname url = entry_prefix entry @ tail
        \<and> (tail = [] \<or> hd tail = CHR ''/'')) \<and> \<not> isTraversalEncoded (pathname url)"
proof (cases "hostname url \<in> set HOSTNAME_ONLY")
  case True
  then show ?thesis by (auto simp: HOSTNAME_ONLY_def)
next
  case False
  then have t: "\<not> isTraversalEncoded (pathname url)"
    and "list_ex (underPrefix (pathname url)) (PATH_PREFIXES (hostname url))"
    using assms by (auto simp: isPreapprovedUrl_def isPreapprovedHost_def split: if_splits)
  then obtain pre where p: "pre \<in> set (PATH_PREFIXES (hostname url))" "underPrefix (pathname url) pre"
    by (auto simp: list_ex_iff)
  then obtain entry where e: "entry \<in> set PREAPPROVED_HOST_ENTRIES" "entry_host entry = hostname url" "entry_prefix entry = pre"
    using prefixes_of by blast
  have "entry = hostname url @ entry_prefix entry"
    using e(2) unfolding entry_host_def entry_prefix_def by (metis takeWhile_dropWhile_id)
  moreover have "\<exists>tail. pathname url = pre @ tail \<and> (tail = [] \<or> hd tail = CHR ''/'')"
    using p(2) by (auto simp: underPrefix_def startsWith_iff_prefix prefix_def)
  ultimately show ?thesis using e t by blast
qed

theorem preapproved_only_by_entry_witness:
  "\<exists>entry \<in> set PREAPPROVED_HOST_ENTRIES.
    entry = ''go.dev''
    \<or> (\<exists>tail. entry = ''go.dev'' @ entry_prefix entry \<and> ''/doc/effective_go'' = entry_prefix entry @ tail
        \<and> (tail = [] \<or> hd tail = CHR ''/'')) \<and> \<not> isTraversalEncoded ''/doc/effective_go''"
proof -
  let ?u = "\<lparr>href = ''https://go.dev/doc/effective_go'', hostname = ''go.dev'', pathname = ''/doc/effective_go'',
    protocol = ''https:'', username = [], password = [], httpsHref = ''https://go.dev/doc/effective_go''\<rparr>"
  have "isPreapprovedUrl ?u" unfolding isPreapprovedUrl_def parsed_url.simps by code_simp
  from preapproved_only_by_entry [OF this] show ?thesis by (simp only: parsed_url.simps)
qed

end
