(* ===== verification/Evaluation.thy ===== *)
theory Evaluation
  imports Protected File_Rules Policy_State Auto_Config Skill_Rules Web_Target
begin

text \<open>
  The context of a permission decision and the path checks of the evaluator
  (\<^verbatim>\<open>permissions/evaluator.ts\<close>, first part): the call, the answers of the stages it consults, the decision
  record, the bounded roots, suspicious paths, the approval floor of shell writes and the real special
  checks. The host is an argument: file system, URL parser, network interfaces and the pattern-matching
  package. The hook stage, the prompt and the classifier are interfaces other components
  implement; the context holds their answers as functions of the call. An error that
  escapes is a value on the left: a file-system error, or the failure to compile a file rule.
\<close>

subsection \<open>Results\<close>

datatype eval_error = FsError string | CompileError file_rule_error

definition bind_result :: "'e + 'a \<Rightarrow> ('a \<Rightarrow> 'e + 'b) \<Rightarrow> 'e + 'b" where
  "bind_result r f = (case r of Inl e \<Rightarrow> Inl e | Inr a \<Rightarrow> f a)"

lemma bind_result_simps [simp]: "bind_result (Inl e) f = Inl e" "bind_result (Inr a) f = f a"
  by (simp_all add: bind_result_def)

lemma bind_result_Inr [simp]: "bind_result r f = Inr b \<longleftrightarrow> (\<exists>a. r = Inr a \<and> f a = Inr b)"
  by (cases r) auto

fun some_result :: "('a \<Rightarrow> 'e + bool) \<Rightarrow> 'a list \<Rightarrow> 'e + bool" where
  "some_result f [] = Inr False"
| "some_result f (x # xs) = bind_result (f x) (\<lambda>b. if b then Inr True else some_result f xs)"

fun every_result :: "('a \<Rightarrow> 'e + bool) \<Rightarrow> 'a list \<Rightarrow> 'e + bool" where
  "every_result f [] = Inr True"
| "every_result f (x # xs) = bind_result (f x) (\<lambda>b. if b then every_result f xs else Inr False)"

fun first_result :: "('a \<Rightarrow> 'e + 'b option) \<Rightarrow> 'a list \<Rightarrow> 'e + 'b option" where
  "first_result f [] = Inr None"
| "first_result f (x # xs) = bind_result (f x) (\<lambda>r. case r of Some y \<Rightarrow> Inr (Some y) | None \<Rightarrow> first_result f xs)"

lemma some_result_True: "some_result f xs = Inr True \<Longrightarrow> \<exists>x \<in> set xs. f x = Inr True"
  by (induction xs) (auto split: if_splits)

lemma some_result_False: "some_result f xs = Inr False \<Longrightarrow> x \<in> set xs \<Longrightarrow> f x = Inr False"
  by (induction xs) (auto split: if_splits)

lemma every_result_True: "every_result f xs = Inr True \<longleftrightarrow> (\<forall>x \<in> set xs. f x = Inr True)"
  by (induction xs) auto

lemma first_result_Some: "first_result f xs = Inr (Some y) \<Longrightarrow> \<exists>x \<in> set xs. f x = Inr (Some y)"
  by (induction xs) (auto split: option.splits)

lemma first_result_None: "first_result f xs = Inr None \<Longrightarrow> x \<in> set xs \<Longrightarrow> f x = Inr None"
  by (induction xs) (auto split: option.splits)

subsection \<open>The call and the stages\<close>

type_synonym tool_input = "string \<Rightarrow> json option"

record permission_call =
  pc_call :: tool_call
  pc_toolUseId :: "string option"
  pc_agentId :: "string option"

definition ASK_USER_QUESTION_TOOL_NAME :: string where
  "ASK_USER_QUESTION_TOOL_NAME = ''AskUserQuestion''"

datatype hook_verdict = HookAllow | HookDeny | HookAsk | HookDefer | HookNoOpinion

record hook_decision =
  hd_decision :: hook_verdict
  hd_transformedInput :: "tool_input option"
  hd_message :: "string option"
  hd_interrupt :: "bool option"
  hd_hookId :: "string option"

datatype answer = AnswerAllow | AnswerDeny

record request_hook_decision =
  rh_decision :: answer
  rh_transformedInput :: "tool_input option"
  rh_updatedPermissions :: "permission_update list option"
  rh_message :: "string option"
  rh_interrupt :: "bool option"
  rh_hookId :: "string option"

record prompt_meta =
  pm_decisionReason :: string
  pm_toolUseID :: "string option"
  pm_agentID :: "string option"
  pm_matchedAskRule :: "(rule_source \<times> string \<times> string option) option"
  pm_blockedPath :: "string option"

record prompt_decision =
  pd_decision :: answer
  pd_transformedInput :: "tool_input option"
  pd_message :: "string option"
  pd_interrupt :: "bool option"
  pd_updatedPermissions :: "permission_update list option"
  pd_decisionClassification :: "string option"

datatype auto_verdict = VerdictAllow | VerdictDeny | NoVerdict

record auto_engine_verdict =
  av_verdict :: auto_verdict
  av_fallbackToPrompt :: bool

datatype special_checks = RealSpecialChecks | CustomChecks "permission_call \<Rightarrow> bool" "permission_call \<Rightarrow> critical_removal"

record host_env =
  he_fs :: file_system
  he_url :: url_parser
  he_interfaces :: "string list"
  he_ignore :: ignore_package

record evaluation_context =
  cx_policy :: "auto_mode_config policy_state"
  cx_cwd :: string
  cx_sessionRoot :: string
  cx_home :: string
  cx_trustedWorkspace :: bool
  cx_managedOnly :: bool
  cx_additionalDirectories :: "string list"
  cx_sessionBypassEnabled :: bool
  cx_skillIdentities :: "(string \<Rightarrow> string list) option"
  cx_winterHome :: "string option"
  cx_storeHome :: "string option"
  cx_outputsDir :: "string option"
  cx_brand :: "brand_profile option"
  cx_bashSandboxEscape :: "(permission_call \<Rightarrow> bool) option"
  cx_bashRunsSandboxed :: "(permission_call \<Rightarrow> bool) option"
  cx_requiresInteraction :: "(string \<Rightarrow> bool) option"
  cx_webFetchPrivateAddressPolicy :: "string option"
  cx_preToolUse :: "permission_call \<Rightarrow> hook_decision"
  cx_permissionRequest :: "permission_call \<Rightarrow> prompt_meta \<Rightarrow> request_hook_decision option"
  cx_prompt :: "permission_call \<Rightarrow> prompt_meta \<Rightarrow> prompt_decision option"
  cx_classify :: "permission_call \<Rightarrow> auto_engine_verdict"
  cx_specialChecks :: special_checks

datatype decision = DAllow | DDeny | DAsk | DDefer

datatype mechanism = MHook | MRule | MMode | MCanUseTool | MAutoEngine | MCrash

datatype explicit_approval = ApprovedByPrompt | ApprovedByRule

record decision_record =
  dr_decision :: decision
  dr_mechanism :: mechanism
  dr_source :: "rule_source option"
  dr_hookId :: "string option"
  dr_ruleRef :: "string option"
  dr_transformedInput :: "tool_input option"
  dr_message :: "string option"
  dr_interrupt :: "bool option"
  dr_updatedPermissions :: "permission_update list option"
  dr_decisionClassification :: "string option"
  dr_policyVersion :: nat
  dr_deniedBareSchemaRemoval :: bool
  dr_decisionReason :: "string option"
  dr_explicitApproval :: "explicit_approval option"
  dr_promptAnswered :: bool

text \<open>Two characters of the messages that are not ASCII: the section sign, and the dash (beyond Latin-1).\<close>

abbreviation section_sign :: string where
  "section_sign \<equiv> [CHR 0xA7]"

abbreviation em_dash :: string where
  "em_dash \<equiv> [CHR 0xFF]"

abbreviation tool_of :: "permission_call \<Rightarrow> string" where
  "tool_of call \<equiv> call_toolName (pc_call call)"

abbreviation input_of :: "permission_call \<Rightarrow> tool_input" where
  "input_of call \<equiv> call_input (pc_call call)"

abbreviation pcwd :: "host_env \<Rightarrow> string" where
  "pcwd env \<equiv> fs_cwd (he_fs env)"

subsection \<open>Bounds\<close>

definition real_target :: "host_env \<Rightarrow> string \<Rightarrow> eval_error + string" where
  "real_target env path = map_sum FsError id (resolveRealTarget (he_fs env) path)"

definition boundedRoots :: "evaluation_context \<Rightarrow> string list" where
  "boundedRoots ctx =
     cx_cwd ctx # effectiveDirectories (ps_rules (cx_policy ctx)) (cx_trustedWorkspace ctx) @ cx_additionalDirectories ctx"

definition isWithinBounds :: "host_env \<Rightarrow> evaluation_context \<Rightarrow> string \<Rightarrow> eval_error + bool" where
  "isWithinBounds env ctx path =
     (let absPath = path_resolve (pcwd env) (cx_cwd ctx) (trim path) in
      bind_result (real_target env absPath) (\<lambda>target.
        let chainTarget = resolveSymlinkTargetChain (he_fs env) absPath in
        Inr (list_ex (\<lambda>root. isPathWithinRoot (pcwd env) absPath root False
               \<and> isPathWithinRoot (pcwd env) target root False
               \<and> (case chainTarget of Some c \<Rightarrow> isPathWithinRoot (pcwd env) c root False | None \<Rightarrow> False))
             (boundedRoots ctx))))"

definition edit_options :: "evaluation_context \<Rightarrow> edit_opts" where
  "edit_options ctx = \<lparr>eo_sessionRoot = Some (cx_sessionRoot ctx), eo_brand = cx_brand ctx, eo_home = Some (cx_home ctx)\<rparr>"

definition extractCandidateWritePaths :: "evaluation_context \<Rightarrow> permission_call \<Rightarrow> string list" where
  "extractCandidateWritePaths ctx call =
     (case recognizeEditOperation (pc_call call) (edit_options ctx) of Some r \<Rightarrow> re_paths r | None \<Rightarrow> [])"

subsection \<open>Suspicious paths\<close>

definition path_sep :: "char \<Rightarrow> bool" where
  "path_sep c \<longleftrightarrow> c = CHR ''/'' \<or> c = backslash"

definition SUSPICIOUS_PATH_PREFIXES :: "string list" where
  "SUSPICIOUS_PATH_PREFIXES =
     [[backslash, backslash, CHR ''?'', backslash], [backslash, backslash, CHR ''.'', backslash], ''//?/'', ''//./'']"

fun short_name :: "string \<Rightarrow> bool" where
  "short_name (a # b # s) = (a = CHR ''~'' \<and> is_digit b \<or> short_name (b # s))"
| "short_name _ = False"

definition object_path :: "string \<Rightarrow> bool" where
  "object_path p =
     (case p of a # b # c # d # _ \<Rightarrow> path_sep a \<and> b = CHR ''?'' \<and> c = CHR ''?'' \<and> path_sep d | _ \<Rightarrow> False)"

definition path_components :: "string \<Rightarrow> string list" where
  "path_components p = split_on CHR ''/'' (map (\<lambda>c. if c = backslash then CHR ''/'' else c) p)"

definition odd_component :: "string \<Rightarrow> bool" where
  "odd_component component \<longleftrightarrow>
     component \<notin> {[], ''.'', ''..''} \<and> (last component = CHR ''.'' \<or> is_ws (last component))"

definition DEVICE_NAMES :: "string list" where
  "DEVICE_NAMES =
     [''con'', ''prn'', ''aux'', ''nul''] @ map (\<lambda>d. ''com'' @ [d]) ''123456789'' @ map (\<lambda>d. ''lpt'' @ [d]) ''123456789''"

definition isSuspiciousPath :: "string \<Rightarrow> bool" where
  "isSuspiciousPath path =
     (object_path path \<or> short_name path
      \<or> list_ex (startsWith path) SUSPICIOUS_PATH_PREFIXES
      \<or> list_ex odd_component (path_components path)
      \<or> list_ex (\<lambda>n. endsWith (toLowerCase path) (''.'' @ n)) DEVICE_NAMES)"

definition suspiciousSymlinkTarget :: "host_env \<Rightarrow> evaluation_context \<Rightarrow> string \<Rightarrow> string option" where
  "suspiciousSymlinkTarget env ctx rawCandidate =
     (let absPath = resolveTargetPath rawCandidate (cx_cwd ctx) in
      case real_target env absPath of
        Inl _ \<Rightarrow> None
      | Inr target \<Rightarrow>
          if isSuspiciousPath target then Some target
          else (case resolveSymlinkTargetChain (he_fs env) absPath of
                  Some c \<Rightarrow> if isSuspiciousPath c then Some c else None
                | None \<Rightarrow> None))"

definition isShellCall :: "permission_call \<Rightarrow> bool" where
  "isShellCall call \<longleftrightarrow> tool_of call = ''Bash'' \<or> tool_of call = ''Monitor''"

definition shellWriteTargets :: "evaluation_context \<Rightarrow> permission_call \<Rightarrow> string list" where
  "shellWriteTargets ctx call =
     (if \<not> isShellCall call then [] else filter (\<lambda>p. p \<noteq> ''/dev/null'') (extractCandidateWritePaths ctx call))"

definition suspicious_candidate :: "host_env \<Rightarrow> evaluation_context \<Rightarrow> string \<Rightarrow> string option" where
  "suspicious_candidate env ctx candidate =
     (if isSuspiciousPath candidate then Some candidate else suspiciousSymlinkTarget env ctx candidate)"

definition firstSuspiciousWritePath :: "host_env \<Rightarrow> evaluation_context \<Rightarrow> permission_call \<Rightarrow> string option" where
  "firstSuspiciousWritePath env ctx call =
     (if tool_of call \<in> {''Edit'', ''Write'', ''NotebookEdit''} then
        (case input_of call (fileRulePathField (tool_of call)) of
           Some (JStr p) \<Rightarrow> suspicious_candidate env ctx (trim p)
         | _ \<Rightarrow> None)
      else if isShellCall call then first_some (suspicious_candidate env ctx) (shellWriteTargets ctx call)
      else None)"

definition suspiciousPathAskMessage :: "string \<Rightarrow> string" where
  "suspiciousPathAskMessage path =
     ''Claude requested permissions to write to '' @ path
     @ '', which contains a suspicious Windows path pattern that requires manual approval.''"


subsection \<open>The approval floor of shell writes\<close>

definition CONTROL_PLANE_BASENAMES :: "string list" where
  "CONTROL_PLANE_BASENAMES = [''permissions.local.json'', ''settings.json'', ''settings.local.json'']"

definition changes_directory :: "string \<Rightarrow> bool" where
  "changes_directory sub =
     (case shellWords (stripWrappers sub DenyAsk) True Broad of
        [] \<Rightarrow> False
      | w # _ \<Rightarrow> word w \<in> {''cd'', ''pushd'', ''popd''})"

definition shellCommandChangesDirectory :: "permission_call \<Rightarrow> bool" where
  "shellCommandChangesDirectory call =
     (case input_of call ''command'' of
        Some (JStr command) \<Rightarrow>
          (case flattenSubcommands command of None \<Rightarrow> True | Some parts \<Rightarrow> list_ex changes_directory parts)
      | _ \<Rightarrow> False)"

text \<open>The first end of the path that matches: the path itself, its real target, the target of its link chain.\<close>

definition matchedProtectedEnd :: "host_env \<Rightarrow> string \<Rightarrow> (string \<Rightarrow> bool) \<Rightarrow> eval_error + string option" where
  "matchedProtectedEnd env path matcher =
     (case resolveSymlinkEnds (he_fs env) path of
        Inl e \<Rightarrow> Inl (FsError e)
      | Inr ends \<Rightarrow>
          Inr (find matcher ([path, se_target ends] @ (case se_chainTarget ends of Some c \<Rightarrow> [c] | None \<Rightarrow> []))))"

definition after_last_slash :: "string \<Rightarrow> string" where
  "after_last_slash p = rev (takeWhile (\<lambda>c. c \<noteq> CHR ''/'') (rev p))"

definition protectedShellTargetPath :: "host_env \<Rightarrow> evaluation_context \<Rightarrow> string \<Rightarrow> eval_error + string option" where
  "protectedShellTargetPath env ctx path =
     matchedProtectedEnd env (path_resolve (pcwd env) (cx_cwd ctx) path)
       (\<lambda>candidate. toLowerCase (after_last_slash candidate) \<in> set CONTROL_PLANE_BASENAMES)"

definition outputsCarveOutDirs :: "host_env \<Rightarrow> evaluation_context \<Rightarrow> string list option" where
  "outputsCarveOutDirs env ctx =
     (case cx_outputsDir ctx of
        None \<Rightarrow> None
      | Some dir \<Rightarrow>
          if dir = [] then None
          else
            (let lexical = path_resolve (pcwd env) (cx_cwd ctx) dir in
             if \<not> isCarvableOutputsDir (pcwd env) lexical (cx_home ctx) (cx_winterHome ctx) (cx_brand ctx) then None
             else (case resolveRealTarget (he_fs env) lexical of
                     Inl _ \<Rightarrow> Some [lexical]
                   | Inr real \<Rightarrow> Some (if real = lexical then [lexical] else [lexical, real]))))"

definition within_real_root :: "string \<Rightarrow> string \<Rightarrow> bool" where
  "within_real_root realRoot candidate \<longleftrightarrow>
     candidate = realRoot \<or> startsWith candidate (if endsWith realRoot ''/'' then realRoot else realRoot @ ''/'')"

definition isShellTargetInWorkingDirs :: "host_env \<Rightarrow> evaluation_context \<Rightarrow> string \<Rightarrow> bool" where
  "isShellTargetInWorkingDirs env ctx path =
     (let absPath = path_resolve (pcwd env) (cx_cwd ctx) path in
      case (resolveRealTarget (he_fs env) absPath, resolveSymlinkTargetChain (he_fs env) absPath) of
        (Inr real, Some chainTarget) \<Rightarrow>
          list_ex (\<lambda>root.
            case resolveRealTarget (he_fs env) (resolve1 (pcwd env) root) of
              Inl _ \<Rightarrow> False
            | Inr realRoot \<Rightarrow> within_real_root realRoot real \<and> within_real_root realRoot chainTarget)
            (boundedRoots ctx @
              (case cx_outputsDir ctx of
                 Some dir \<Rightarrow> if dir \<noteq> [] then [path_resolve (pcwd env) (cx_cwd ctx) dir] else []
               | None \<Rightarrow> []))
      | _ \<Rightarrow> False)"

definition CHANGES_DIRECTORY_REASON :: string where
  "CHANGES_DIRECTORY_REASON =
     ''Commands that change directories and write via output redirection or file commands require explicit approval: '' @
     ''the final working directory cannot be determined, so the write targets cannot be checked''"

definition outside_reason :: "host_env \<Rightarrow> evaluation_context \<Rightarrow> string \<Rightarrow> string" where
  "outside_reason env ctx outside =
     ''Writing to '' @ [squote] @ path_resolve (pcwd env) (cx_cwd ctx) outside @ [squote] @
     '' requires approval: it is outside the allowed working directories for this session ('' @
     join_with '', '' (boundedRoots ctx) @ '')''"

definition shellWriteNeedsApproval :: "host_env \<Rightarrow> evaluation_context \<Rightarrow> permission_call \<Rightarrow> string option" where
  "shellWriteNeedsApproval env ctx call =
     (let targets = shellWriteTargets ctx call in
      if targets = [] then None
      else if shellCommandChangesDirectory call then Some CHANGES_DIRECTORY_REASON
      else map_option (outside_reason env ctx) (find (\<lambda>p. \<not> isShellTargetInWorkingDirs env ctx p) targets))"

definition shellPathConstraint :: "host_env \<Rightarrow> evaluation_context \<Rightarrow> permission_call \<Rightarrow> string option" where
  "shellPathConstraint env ctx call =
     (case shellCommandOf (pc_call call) of
        None \<Rightarrow> None
      | Some command \<Rightarrow>
          (case shellWriteConstraint command of
             Some structural \<Rightarrow> Some structural
           | None \<Rightarrow> shellWriteNeedsApproval env ctx call))"

subsection \<open>The real special checks\<close>

definition protected_context :: "host_env \<Rightarrow> evaluation_context \<Rightarrow> protected_ctx" where
  "protected_context env ctx =
     \<lparr>pc_cwd = cx_cwd ctx, pc_home = cx_home ctx, pc_winterHome = cx_winterHome ctx, pc_storeHome = cx_storeHome ctx,
      pc_brand = cx_brand ctx, pc_outputsDirs = outputsCarveOutDirs env ctx\<rparr>"

definition realProtectedWriteCandidate :: "host_env \<Rightarrow> evaluation_context \<Rightarrow> permission_call \<Rightarrow> eval_error + string option" where
  "realProtectedWriteCandidate env ctx call =
     bind_result
       (first_result (\<lambda>path. matchedProtectedEnd env (path_resolve (pcwd env) (cx_cwd ctx) path)
                       (\<lambda>candidate. isProtectedWrite (pcwd env) candidate (protected_context env ctx)))
         (extractCandidateWritePaths ctx call))
       (\<lambda>r. case r of
              Some p \<Rightarrow> Inr (Some p)
            | None \<Rightarrow> first_result (protectedShellTargetPath env ctx) (shellWriteTargets ctx call))"

definition removal_context :: "evaluation_context \<Rightarrow> removal_ctx" where
  "removal_context ctx = \<lparr>rc_cwd = cx_cwd ctx, rc_home = cx_home ctx, rc_additionalDirectories = boundedRoots ctx\<rparr>"

definition real_isCriticalRemoval :: "host_env \<Rightarrow> evaluation_context \<Rightarrow> permission_call \<Rightarrow> critical_removal" where
  "real_isCriticalRemoval env ctx call =
     (case shellCommandOf (pc_call call) of
        None \<Rightarrow> not_critical
      | Some command \<Rightarrow> isCriticalRemoval (pcwd env) command (removal_context ctx))"

definition check_protected :: "host_env \<Rightarrow> evaluation_context \<Rightarrow> permission_call \<Rightarrow> eval_error + bool" where
  "check_protected env ctx call =
     (case cx_specialChecks ctx of
        RealSpecialChecks \<Rightarrow> map_sum id (\<lambda>r. r \<noteq> None) (realProtectedWriteCandidate env ctx call)
      | CustomChecks p _ \<Rightarrow> Inr (p call))"

definition check_critical :: "host_env \<Rightarrow> evaluation_context \<Rightarrow> permission_call \<Rightarrow> critical_removal" where
  "check_critical env ctx call =
     (case cx_specialChecks ctx of
        RealSpecialChecks \<Rightarrow> real_isCriticalRemoval env ctx call
      | CustomChecks _ c \<Rightarrow> c call)"

subsection \<open>Lemmas\<close>

text \<open>The answer of \<open>matchedProtectedEnd\<close> agrees with the both-ends check it is written with.\<close>

lemma matchedProtectedEnd_check:
  assumes "matchedProtectedEnd env path matcher = Inr r"
  shows "\<exists>b. checkSymlinkBothEnds (he_fs env) path matcher = Inr b \<and> denyIfEither b = (r \<noteq> None)"
proof -
  obtain ends where e: "resolveSymlinkEnds (he_fs env) path = Inr ends"
    using assms by (auto simp: matchedProtectedEnd_def split: sum.splits)
  show ?thesis
    using assms e by (cases "se_chainTarget ends")
      (auto simp: matchedProtectedEnd_def checkSymlinkBothEnds_def the_default_def Let_def split: if_splits dest: sym [of "Some _"])
qed

lemma no_shell_write_approval:
  assumes "shellWriteNeedsApproval env ctx call = None"
  shows "shellWriteTargets ctx call = [] \<or>
    \<not> shellCommandChangesDirectory call \<and> (\<forall>p \<in> set (shellWriteTargets ctx call). isShellTargetInWorkingDirs env ctx p)"
  using assms by (auto simp: shellWriteNeedsApproval_def Let_def find_None_iff split: if_splits)

end
