(* ===== verification/Rule_Lookup.thy ===== *)
theory Rule_Lookup
  imports Evaluation
begin

text \<open>
  Which rule decides a call (\<^verbatim>\<open>permissions/evaluator.ts\<close>, second part): the match of one rule against a whole
  call, with a Bash command taken apart into every subcommand, the lookup of a rule in the two file
  families and in the rest, the deny rules that block a write to a file, the carve-outs of the projects
  directory, and the check that the edit rules of a read compile. Lemmas: a deny rule sees a command wherever it
  stands in the text while an allow rule must cover all of it, and a lookup only
  answers with an active rule of the asked behaviour.
\<close>

subsection \<open>One rule, one call\<close>

definition with_command :: "tool_call \<Rightarrow> string \<Rightarrow> tool_call" where
  "with_command call txt = call\<lparr>call_input := (call_input call)(''command'' \<mapsto> JStr txt)\<rparr>"

definition dequoted :: "string \<Rightarrow> string" where
  "dequoted sub = join_with '' '' (map word (shellWords sub True Broad))"

definition bash_rule_matches :: "url_parser \<Rightarrow> parsed_rule \<Rightarrow> tool_call \<Rightarrow> direction \<Rightarrow> bool" where
  "bash_rule_matches url rule call direction =
     (let command = command_text (call_input call);
          matchesText = (\<lambda>sub. matchesRule url rule (with_command call sub) direction);
          matchesSub = (\<lambda>sub. matchesText sub \<or> direction = DenyAsk \<and> matchesText (dequoted sub))
      in case flattenSubcommands command of
           None \<Rightarrow> direction = DenyAsk \<and> list_ex (\<lambda>sub. matchesText sub \<or> matchesText (dequoted sub)) (naiveCommandPieces command)
         | Some parts \<Rightarrow>
             if parts = [] then False
             else if direction = DenyAsk then list_ex matchesSub parts
             else list_all matchesSub parts)"

definition skill_rule_matches :: "evaluation_context \<Rightarrow> string \<Rightarrow> tool_call \<Rightarrow> bool" where
  "skill_rule_matches ctx source call =
     (case call_input call ''skill'' of
        Some (JStr rawName) \<Rightarrow>
          matchesSkillRule (Some source)
            \<lparr>sk_identities = (case cx_skillIdentities ctx of Some f \<Rightarrow> f rawName | None \<Rightarrow> [rawName]),
             sk_args = (case call_input call ''args'' of Some (JStr a) \<Rightarrow> Some a | _ \<Rightarrow> None)\<rparr>
      | _ \<Rightarrow> False)"

definition matchesRuleForCall :: "host_env \<Rightarrow> evaluation_context \<Rightarrow> parsed_rule \<Rightarrow> permission_call \<Rightarrow> direction \<Rightarrow> bool" where
  "matchesRuleForCall env ctx rule call direction =
     (case specifier rule of
        Some (Pattern source) \<Rightarrow>
          if toolName rule = SKILL_RULE_TOOL \<and> tool_of call = SKILL_RULE_TOOL then skill_rule_matches ctx source (pc_call call)
          else if toolName rule = ''Bash'' \<and> tool_of call = ''Bash'' then bash_rule_matches (he_url env) rule (pc_call call) direction
          else matchesRule (he_url env) rule (pc_call call) direction
      | _ \<Rightarrow> matchesRule (he_url env) rule (pc_call call) direction)"

subsection \<open>Lookup\<close>

definition rule_pool :: "evaluation_context \<Rightarrow> sourced_rule_set \<Rightarrow> sourced_rule_entry list" where
  "rule_pool ctx rules = (if cx_managedOnly ctx then filter (\<lambda>e. entry_source e = Managed) (entries rules) else entries rules)"

definition call_path :: "permission_call \<Rightarrow> string option" where
  "call_path call =
     (case input_of call (fileRulePathField (tool_of call)) of
        Some (JStr p) \<Rightarrow> Some p
      | Some _ \<Rightarrow> None
      | None \<Rightarrow> if tool_of call = ''Glob'' \<or> tool_of call = ''Grep'' then Some ''.'' else None)"

type_synonym entry_skip = "(sourced_rule_entry \<Rightarrow> bool) option"

definition skipped :: "entry_skip \<Rightarrow> sourced_rule_entry \<Rightarrow> bool" where
  "skipped skip entry = (case skip of Some f \<Rightarrow> f entry | None \<Rightarrow> False)"

definition entry_considered :: "evaluation_context \<Rightarrow> permission_behavior \<Rightarrow> entry_skip \<Rightarrow> sourced_rule_entry \<Rightarrow> bool" where
  "entry_considered ctx behavior skip entry \<longleftrightarrow>
     entry_behavior entry = behavior \<and> \<not> skipped skip entry
     \<and> \<not> (behavior = BAllow \<and> entry_source entry = Project \<and> \<not> cx_trustedWorkspace ctx)"

definition as_candidate :: "string \<Rightarrow> sourced_rule_entry \<Rightarrow> sourced_rule_entry file_rule_candidate option" where
  "as_candidate authoring entry =
     (case specifier (entry_rule entry) of
        Some (Pattern source) \<Rightarrow>
          if toolName (entry_rule entry) = authoring
          then Some \<lparr>frc_entry = entry, frc_pattern = source, frc_sourceDir = entry_sourceDir entry\<rparr>
          else None
      | _ \<Rightarrow> None)"

definition grouped_match ::
  "host_env \<Rightarrow> evaluation_context \<Rightarrow> sourced_rule_entry file_rule_candidate list \<Rightarrow> direction \<Rightarrow> string
    \<Rightarrow> eval_error + sourced_rule_entry option" where
  "grouped_match env ctx candidates direction path =
     map_sum CompileError id
       (matchFileRulesGrouped (he_ignore env) (pcwd env) candidates path (cx_cwd ctx) (cx_home ctx) direction)"

definition match_with_alias ::
  "host_env \<Rightarrow> evaluation_context \<Rightarrow> sourced_rule_entry file_rule_candidate list \<Rightarrow> string \<Rightarrow> eval_error + sourced_rule_entry option" where
  "match_with_alias env ctx candidates path =
     bind_result (grouped_match env ctx candidates Allow path) (\<lambda>direct.
       case direct of
         Some e \<Rightarrow> Inr (Some e)
       | None \<Rightarrow>
           (let aliased = canonicalizeTrustedSymlinkPath (he_fs env) path in
            if aliased \<noteq> path then grouped_match env ctx candidates Allow aliased else Inr None))"

definition link_ends :: "string \<Rightarrow> string \<Rightarrow> string option \<Rightarrow> string list" where
  "link_ends absPath target chainTarget = [absPath, target] @ (case chainTarget of Some c \<Rightarrow> [c] | None \<Rightarrow> [])"

definition findMatchingFileRuleEntry ::
  "host_env \<Rightarrow> evaluation_context \<Rightarrow> sourced_rule_set \<Rightarrow> permission_call \<Rightarrow> permission_behavior \<Rightarrow> file_rule_kind
    \<Rightarrow> entry_skip \<Rightarrow> eval_error + sourced_rule_entry option" where
  "findMatchingFileRuleEntry env ctx rules call behavior kind skip =
     (case call_path call of
        None \<Rightarrow> Inr None
      | Some path \<Rightarrow>
          (let candidates = List.map_filter (as_candidate (canonicalFileRuleAuthoringToolName kind))
                              (filter (entry_considered ctx behavior skip) (rule_pool ctx rules))
           in if candidates = [] then Inr None
              else
                (let absPath = resolveTargetPath path (cx_cwd ctx) in
                 bind_result (real_target env absPath) (\<lambda>target.
                   let chainTarget = resolveSymlinkTargetChain (he_fs env) absPath in
                   if behavior = BAllow then
                     bind_result (match_with_alias env ctx candidates absPath) (\<lambda>linkMatch.
                     bind_result (match_with_alias env ctx candidates target) (\<lambda>targetMatch.
                     bind_result (case chainTarget of
                                    Some c \<Rightarrow> map_sum id (\<lambda>r. r \<noteq> None) (match_with_alias env ctx candidates c)
                                  | None \<Rightarrow> Inr True) (\<lambda>chainMatches.
                       Inr (if linkMatch \<noteq> None \<and> targetMatch \<noteq> None \<and> chainMatches then linkMatch else None))))
                   else first_result (grouped_match env ctx candidates DenyAsk) (link_ends absPath target chainTarget)))))"

text \<open>A rule of the file family that the grouped lookup has already answered for is not tried again.\<close>

definition grouped_elsewhere :: "file_rule_kind option \<Rightarrow> parsed_rule \<Rightarrow> bool" where
  "grouped_elsewhere kind rule \<longleftrightarrow>
     kind \<noteq> None \<and> (case specifier rule of Some (Pattern _) \<Rightarrow> fileRuleKindFor (toolName rule) = kind | _ \<Rightarrow> False)"

definition findMatchingRuleEntry ::
  "host_env \<Rightarrow> evaluation_context \<Rightarrow> sourced_rule_set \<Rightarrow> permission_call \<Rightarrow> permission_behavior \<Rightarrow> entry_skip
    \<Rightarrow> eval_error + sourced_rule_entry option" where
  "findMatchingRuleEntry env ctx rules call behavior skip =
     (let kind = fileRuleKindFor (tool_of call) in
      bind_result (case kind of Some k \<Rightarrow> findMatchingFileRuleEntry env ctx rules call behavior k skip | None \<Rightarrow> Inr None) (\<lambda>fileMatch.
        case fileMatch of
          Some e \<Rightarrow> Inr (Some e)
        | None \<Rightarrow>
            Inr (find (\<lambda>entry. entry_considered ctx behavior skip entry \<and> \<not> grouped_elsewhere kind (entry_rule entry)
                        \<and> matchesRuleForCall env ctx (entry_rule entry) call (behavior_direction behavior))
                  (rule_pool ctx rules))))"

subsection \<open>Agent types\<close>

text \<open>The Unicode normal form of a text is an argument.\<close>

definition normalizeAgentTypeName :: "(string \<Rightarrow> string) \<Rightarrow> string \<Rightarrow> string" where
  "normalizeAgentTypeName nfkc name = filter (\<lambda>c. \<not> (is_ws c \<or> c = CHR ''-'' \<or> c = CHR ''_'')) (toLowerCase (nfkc name))"

definition findAgentDenyRule :: "(string \<Rightarrow> string) \<Rightarrow> sourced_rule_set \<Rightarrow> string \<Rightarrow> bool \<Rightarrow> sourced_rule_entry option" where
  "findAgentDenyRule nfkc rules type managedOnly =
     find (\<lambda>entry. entry_behavior entry = BDeny \<and> toolName (entry_rule entry) = ''Agent'' \<and>
             (case rv_ruleContent (entry_ruleValue entry) of
                None \<Rightarrow> False
              | Some content \<Rightarrow>
                  normalizeAgentTypeName nfkc type
                    \<in> set (map (\<lambda>s. normalizeAgentTypeName nfkc (trim s)) (split_on CHR '','' content))))
       (if managedOnly then filter (\<lambda>e. entry_source e = Managed) (entries rules) else entries rules)"

subsection \<open>Carve-outs of the projects directory\<close>

definition WRITE_BLOCKING_DENY_TOOLS :: "string list" where
  "WRITE_BLOCKING_DENY_TOOLS = [''Read'', ''Write'', ''Edit'', ''NotebookEdit'']"

definition PROJECTS_WRITE_FLOOR_TOOLS :: "string list" where
  "PROJECTS_WRITE_FLOOR_TOOLS = [''Write'', ''Edit'', ''NotebookEdit'']"

definition durable_root :: "evaluation_context \<Rightarrow> string option" where
  "durable_root ctx = (case cx_storeHome ctx of Some s \<Rightarrow> Some s | None \<Rightarrow> cx_winterHome ctx)"

definition at_or_below :: "string \<Rightarrow> string \<Rightarrow> bool" where
  "at_or_below content anchor \<longleftrightarrow> content = anchor \<or> startsWith content (anchor @ ''/'')"

definition isProjectsBaselineDeny :: "host_env \<Rightarrow> evaluation_context \<Rightarrow> sourced_rule_entry \<Rightarrow> bool" where
  "isProjectsBaselineDeny env ctx entry =
     (if entry_behavior entry \<noteq> BDeny \<or> entry_source entry \<noteq> Managed then False
      else if toolName (entry_rule entry) \<notin> set PROJECTS_WRITE_FLOOR_TOOLS then False
      else
        (case rv_ruleContent (entry_ruleValue entry) of
           None \<Rightarrow> False
         | Some content \<Rightarrow>
             if at_or_below content (''~/'' @ homeDirName (the_default WINTER_BRAND (cx_brand ctx)) @ ''/projects'') then True
             else
               (case durable_root ctx of
                  None \<Rightarrow> False
                | Some root \<Rightarrow>
                    at_or_below content (''/'' @ escapeFileRulePathSegment (resolve1 (pcwd env) root) @ ''/projects''))))"

definition callIsEntirelyWorkflowScriptWrite :: "host_env \<Rightarrow> evaluation_context \<Rightarrow> permission_call \<Rightarrow> bool" where
  "callIsEntirelyWorkflowScriptWrite env ctx call =
     (let paths = extractCandidateWritePaths ctx call in
      paths \<noteq> [] \<and>
      list_all (\<lambda>p. isWorkflowScriptCarveOut (pcwd env) (path_resolve (pcwd env) (cx_cwd ctx) p) (cx_home ctx) (durable_root ctx) (cx_brand ctx)) paths)"

definition workflowScriptCarveOutSkip :: "host_env \<Rightarrow> evaluation_context \<Rightarrow> permission_call \<Rightarrow> entry_skip" where
  "workflowScriptCarveOutSkip env ctx call =
     (if callIsEntirelyWorkflowScriptWrite env ctx call then Some (isProjectsBaselineDeny env ctx) else None)"

definition MEMORY_CARVE_OUT_TOOLS :: "string list" where
  "MEMORY_CARVE_OUT_TOOLS = [''Write'', ''Edit'', ''MultiEdit'', ''NotebookEdit'']"

definition callIsEntirelyMemoryWrite :: "host_env \<Rightarrow> evaluation_context \<Rightarrow> permission_call \<Rightarrow> bool" where
  "callIsEntirelyMemoryWrite env ctx call =
     (tool_of call \<in> set MEMORY_CARVE_OUT_TOOLS \<and>
      (let paths = extractCandidateWritePaths ctx call in
       paths \<noteq> [] \<and>
       list_all (\<lambda>p. isMemoryCarveOut (pcwd env) (path_resolve (pcwd env) (cx_cwd ctx) p) (cx_home ctx) (durable_root ctx) (cx_brand ctx)) paths))"

definition memoryCarveOutSkip :: "host_env \<Rightarrow> evaluation_context \<Rightarrow> permission_call \<Rightarrow> entry_skip" where
  "memoryCarveOutSkip env ctx call =
     (if callIsEntirelyMemoryWrite env ctx call then Some (isProjectsBaselineDeny env ctx) else None)"

definition projectsCarveOutSkip :: "host_env \<Rightarrow> evaluation_context \<Rightarrow> permission_call \<Rightarrow> entry_skip" where
  "projectsCarveOutSkip env ctx call =
     (case workflowScriptCarveOutSkip env ctx call of Some f \<Rightarrow> Some f | None \<Rightarrow> memoryCarveOutSkip env ctx call)"

subsection \<open>File deny rules and writes\<close>

definition pattern_hits :: "host_env \<Rightarrow> evaluation_context \<Rightarrow> string \<Rightarrow> string \<Rightarrow> eval_error + bool" where
  "pattern_hits env ctx pattern path =
     (let absPath = resolveTargetPath path (cx_cwd ctx) in
      bind_result (real_target env absPath) (\<lambda>target.
        some_result (\<lambda>p. map_sum CompileError id
                       (matchesSingleFileRulePattern (he_ignore env) (pcwd env) pattern p (cx_cwd ctx) (cx_home ctx) DenyAsk))
          (link_ends absPath target (resolveSymlinkTargetChain (he_fs env) absPath))))"

definition blocking_entry ::
  "host_env \<Rightarrow> evaluation_context \<Rightarrow> permission_call \<Rightarrow> string list \<Rightarrow> sourced_rule_entry \<Rightarrow> eval_error + sourced_rule_entry option" where
  "blocking_entry env ctx call paths entry =
     (if toolName (entry_rule entry) = tool_of call \<or> skipped (projectsCarveOutSkip env ctx call) entry
         \<or> toolName (entry_rule entry) \<notin> set WRITE_BLOCKING_DENY_TOOLS \<or> entry_behavior entry \<noteq> BDeny then Inr None
      else
        (case specifier (entry_rule entry) of
           Some (Pattern source) \<Rightarrow>
             map_sum id (\<lambda>hit. if hit then Some entry else None) (some_result (pattern_hits env ctx source) paths)
         | _ \<Rightarrow> Inr None))"

definition findFileDenyBlockingEdit :: "host_env \<Rightarrow> evaluation_context \<Rightarrow> permission_call \<Rightarrow> eval_error + sourced_rule_entry option" where
  "findFileDenyBlockingEdit env ctx call =
     (let paths = extractCandidateWritePaths ctx call in
      if paths = [] then Inr None
      else first_result (blocking_entry env ctx call paths) (rule_pool ctx (ps_rules (cx_policy ctx))))"

definition edit_stage_matched ::
  "host_env \<Rightarrow> evaluation_context \<Rightarrow> sourced_rule_set \<Rightarrow> string list \<Rightarrow> permission_behavior \<Rightarrow> eval_error + bool" where
  "edit_stage_matched env ctx rules ends behavior =
     (let candidates = List.map_filter (as_candidate ''Edit'')
                         (filter (\<lambda>e. entry_behavior e = behavior) (rule_pool ctx rules))
      in if candidates = [] then Inr False
         else some_result (\<lambda>p. map_sum id (\<lambda>r. r \<noteq> None) (grouped_match env ctx candidates (behavior_direction behavior) p)) ends)"

definition crashCheckEditRulesDuringRead ::
  "host_env \<Rightarrow> evaluation_context \<Rightarrow> sourced_rule_set \<Rightarrow> permission_call \<Rightarrow> file_rule_kind \<Rightarrow> eval_error + unit" where
  "crashCheckEditRulesDuringRead env ctx rules call kind =
     (if kind \<noteq> ReadRules then Inr ()
      else
        (case call_path call of
           None \<Rightarrow> Inr ()
         | Some path \<Rightarrow>
             (let absPath = resolveTargetPath path (cx_cwd ctx) in
              bind_result (real_target env absPath) (\<lambda>target.
                let stage = edit_stage_matched env ctx rules (link_ends absPath target (resolveSymlinkTargetChain (he_fs env) absPath)) in
                bind_result (stage BDeny) (\<lambda>denied.
                  if denied then Inr ()
                  else bind_result (stage BAsk) (\<lambda>asked.
                    if asked then Inr () else map_sum id (\<lambda>_. ()) (stage BAllow)))))))"

subsection \<open>Messages\<close>

definition formatRuleRef :: "sourced_rule_entry \<Rightarrow> string" where
  "formatRuleRef entry =
     (case rv_ruleContent (entry_ruleValue entry) of
        Some content \<Rightarrow> rv_toolName (entry_ruleValue entry) @ ''('' @ content @ '')''
      | None \<Rightarrow> rv_toolName (entry_ruleValue entry))"

definition ruleDenialMessage :: "sourced_rule_entry \<Rightarrow> string" where
  "ruleDenialMessage entry = ''Denied by permission rule: '' @ formatRuleRef entry"

definition ruleAskUnresolvedMessage :: "sourced_rule_entry \<Rightarrow> string" where
  "ruleAskUnresolvedMessage entry =
     ''Denied: ask rule '' @ formatRuleRef entry @ '' requires approval and no prompt handler answered it''"

subsection \<open>What a lookup answers with\<close>

locale rule_lookup =
  fixes lookup :: "entry_skip \<Rightarrow> eval_error + sourced_rule_entry option"
    and pool :: "sourced_rule_entry set" and considered :: "entry_skip \<Rightarrow> sourced_rule_entry \<Rightarrow> bool"
  assumes found: "lookup skip = Inr (Some e) \<Longrightarrow> e \<in> pool \<and> considered skip e"
    and considered_unskipped: "considered skip e \<Longrightarrow> \<not> skipped skip e"
begin

lemma never_skipped: "lookup skip = Inr (Some e) \<Longrightarrow> \<not> skipped skip e"
  using found considered_unskipped by blast

lemma in_pool: "lookup skip = Inr (Some e) \<Longrightarrow> e \<in> pool"
  using found by blast

end

lemma grouped_match_entry:
  assumes "grouped_match env ctx candidates direction path = Inr (Some e)"
  shows "e \<in> frc_entry ` set candidates"
proof -
  have "match_groups (he_ignore env) (pcwd env) path (file_rule_groups (cx_cwd ctx) (cx_home ctx) direction candidates) = Inr (Some e)"
    using assms by (cases "matchFileRulesGrouped (he_ignore env) (pcwd env) candidates path (cx_cwd ctx) (cx_home ctx) direction")
      (auto simp: grouped_match_def matchFileRulesGrouped_def)
  then show ?thesis by (auto dest!: match_groups_Some file_rule_groups_entries)
qed

lemma match_with_alias_entry:
  "match_with_alias env ctx candidates path = Inr (Some e) \<Longrightarrow> e \<in> frc_entry ` set candidates"
  by (auto simp: match_with_alias_def Let_def dest: grouped_match_entry split: option.splits if_splits)

lemma as_candidate_entry: "as_candidate authoring entry = Some c \<Longrightarrow> frc_entry c = entry"
  by (auto simp: as_candidate_def split: option.splits specifier.splits if_splits)

lemma candidates_considered:
  "e \<in> frc_entry ` set (List.map_filter (as_candidate authoring) (filter (entry_considered ctx behavior skip) xs)) \<Longrightarrow>
     e \<in> set xs \<and> entry_considered ctx behavior skip e"
  by (auto simp: map_filter_def as_candidate_entry)

lemma file_lookup_found:
  assumes "findMatchingFileRuleEntry env ctx rules call behavior kind skip = Inr (Some e)"
  shows "e \<in> set (rule_pool ctx rules) \<and> entry_considered ctx behavior skip e"
proof -
  let ?cs = "List.map_filter (as_candidate (canonicalFileRuleAuthoringToolName kind)) (filter (entry_considered ctx behavior skip) (rule_pool ctx rules))"
  have "e \<in> frc_entry ` set ?cs"
    using assms
    by (auto simp: findMatchingFileRuleEntry_def Let_def simp del: image_iff
        dest!: first_result_Some dest: match_with_alias_entry grouped_match_entry split: option.splits if_splits)
  then show ?thesis by (rule candidates_considered)
qed

lemma lookup_found:
  assumes "findMatchingRuleEntry env ctx rules call behavior skip = Inr (Some e)"
  shows "e \<in> set (rule_pool ctx rules) \<and> entry_considered ctx behavior skip e"
  using assms
  by (auto simp: findMatchingRuleEntry_def Let_def find_Some_iff dest: file_lookup_found split: option.splits)

interpretation lookup: rule_lookup "findMatchingRuleEntry env ctx rules call behavior" "set (rule_pool ctx rules)"
    "entry_considered ctx behavior"
  for env ctx rules call behavior
  by unfold_locales (auto dest: lookup_found simp: entry_considered_def)

lemma pool_entries: "e \<in> set (rule_pool ctx rules) \<Longrightarrow> e \<in> set (entries rules)"
  by (auto simp: rule_pool_def split: if_splits)

text \<open>Outside the two file families a lookup is the first match in the pool and cannot fail.\<close>

lemma lookup_other_tool:
  "fileRuleKindFor (tool_of call) = None \<Longrightarrow>
     findMatchingRuleEntry env ctx rules call behavior skip =
       Inr (find (\<lambda>entry. entry_considered ctx behavior skip entry
              \<and> matchesRuleForCall env ctx (entry_rule entry) call (behavior_direction behavior)) (rule_pool ctx rules))"
  by (simp add: findMatchingRuleEntry_def grouped_elsewhere_def)

lemma lookup_other_tool_hits:
  assumes "fileRuleKindFor (tool_of call) = None" "e \<in> set (rule_pool ctx rules)" "entry_considered ctx behavior skip e"
    and "matchesRuleForCall env ctx (entry_rule e) call (behavior_direction behavior)"
  obtains e' where "findMatchingRuleEntry env ctx rules call behavior skip = Inr (Some e')"
  using assms by (auto simp: lookup_other_tool) (metis (no_types, lifting) find_None_iff not_None_eq)

subsection \<open>Commands taken apart\<close>

text \<open>
  A deny or ask rule for Bash sees every command of a compound: it matches as soon as one of the
  subcommands, as written or after quote removal, matches it; an allow rule matches only a command that can be taken apart
  and only when it matches every subcommand as written.
\<close>

theorem bash_rule_per_subcommand:
  assumes "specifier rule = Some (Pattern source)" "toolName rule = ''Bash''" "tool_of call = ''Bash''"
    and "flattenSubcommands (command_text (input_of call)) = Some parts"
  shows "(matchesRuleForCall env ctx rule call DenyAsk \<longleftrightarrow>
      (\<exists>p \<in> set parts. \<exists>txt \<in> {p, dequoted p}. matchesRule (he_url env) rule (with_command (pc_call call) txt) DenyAsk))
    \<and> (matchesRuleForCall env ctx rule call Allow \<longleftrightarrow>
      parts \<noteq> [] \<and> list_all (\<lambda>p. matchesRule (he_url env) rule (with_command (pc_call call) p) Allow) parts)"
  using assms by (auto simp: matchesRuleForCall_def bash_rule_matches_def SKILL_RULE_TOOL_def Let_def list_ex_iff list_all_iff)

end
