(* ===== verification/Read_Only.thy ===== *)
theory Read_Only
  imports Wrappers
begin

text \<open>
  The read-only recogniser \<open>isRecognizedReadOnly\<close> of \<^verbatim>\<open>permissions/grammar.ts\<close> with its tables of
  commands and write-capable flags. The regular expressions of \<open>WRITE_CAPABLE_FLAGS\<close> and
  \<open>GIT_WRITE_CAPABLE_FLAGS\<close> are written out as functions on strings.
\<close>

definition READ_ONLY_COMMANDS :: "string list" where
  "READ_ONLY_COMMANDS = [''ls'', ''cat'', ''head'', ''tail'', ''grep'', ''rg'', ''find'', ''pwd'', ''echo'']"

definition GIT_READ_ONLY_SUBCOMMANDS :: "string list" where
  "GIT_READ_ONLY_SUBCOMMANDS = [''status'', ''log'', ''diff'']"

definition FIND_ACTIONS :: "string list" where
  "FIND_ACTIONS =
     [''delete'', ''exec'', ''execdir'', ''ok'', ''okdir'', ''fprint'', ''fprint0'', ''fprintf'', ''fls'']"

text \<open>The character class of dollar and backtick.\<close>

definition has_expansion :: "string \<Rightarrow> bool" where
  "has_expansion s \<longleftrightarrow> CHR ''$'' \<in> set s \<or> backtick \<in> set s"

text \<open>
  A dash at the start of the text or after white space, one of the action names, then white space or
  the end; the first argument says whether the text starts at such a boundary.
\<close>

definition action_here :: "string \<Rightarrow> bool" where
  "action_here s \<longleftrightarrow>
     list_ex (\<lambda>n. startsWith s (CHR ''-'' # n) \<and>
                  (let r = drop (Suc (length n)) s in r = [] \<or> is_ws (hd r))) FIND_ACTIONS"

fun find_action :: "bool \<Rightarrow> string \<Rightarrow> bool" where
  "find_action boundary [] = False"
| "find_action boundary (c # s) = ((boundary \<and> action_here (c # s)) \<or> find_action (is_ws c) s)"

text \<open>\<open>WRITE_CAPABLE_FLAGS[first]\<close>: no entry is \<open>None\<close>.\<close>

definition WRITE_CAPABLE_FLAGS :: "string \<Rightarrow> (string \<Rightarrow> bool) option" where
  "WRITE_CAPABLE_FLAGS first =
     (if first = ''find'' then Some (\<lambda>s. find_action True s \<or> has_expansion s)
      else if first = ''rg'' then Some (\<lambda>s. str_includes s ''--pre'' \<or> has_expansion s)
      else None)"

definition GIT_WRITE_CAPABLE_FLAGS :: "string \<Rightarrow> bool" where
  "GIT_WRITE_CAPABLE_FLAGS s \<longleftrightarrow> str_includes s ''--output'' \<or> has_expansion s"

definition argument_views :: "string \<Rightarrow> string list" where
  "argument_views afterWord =
     [afterWord,
      join_with '' '' (map word (shellWords afterWord True Broad)),
      join_with '' '' (map word (shellWords afterWord True Bash))]"

definition isRecognizedReadOnly :: "string \<Rightarrow> bool" where
  "isRecognizedReadOnly command =
     (if scanIfParseable command = None then False
      else
        (let stripped = stripWrappers command Allow in
         if extractRedirectTargets stripped \<noteq> [] then False
         else
           (case leadingWord stripped of
              (None, _) \<Rightarrow> False
            | (Some first, afterWord) \<Rightarrow>
                (let hasFlag = (\<lambda>pattern. list_ex pattern (argument_views afterWord)) in
                 if first = ''git'' then
                   (case fst (leadingWord afterWord) of
                      None \<Rightarrow> False
                    | Some sub \<Rightarrow> sub \<in> set GIT_READ_ONLY_SUBCOMMANDS \<and> \<not> hasFlag GIT_WRITE_CAPABLE_FLAGS)
                 else if first \<notin> set READ_ONLY_COMMANDS then False
                 else (case WRITE_CAPABLE_FLAGS first of None \<Rightarrow> True | Some p \<Rightarrow> \<not> hasFlag p)))))"

lemma isRecognizedReadOnly_cases:
  assumes "isRecognizedReadOnly command"
  obtains first afterWord where
    "scanIfParseable command \<noteq> None"
    "extractRedirectTargets (stripWrappers command Allow) = []"
    "leadingWord (stripWrappers command Allow) = (Some first, afterWord)"
    "first = ''git'' \<or> first \<in> set READ_ONLY_COMMANDS"
    "first = ''git'' \<Longrightarrow> \<exists>sub\<in>set GIT_READ_ONLY_SUBCOMMANDS. fst (leadingWord afterWord) = Some sub
       \<and> (\<forall>v\<in>set (argument_views afterWord). \<not> GIT_WRITE_CAPABLE_FLAGS v)"
    "\<And>p. first \<noteq> ''git'' \<Longrightarrow> WRITE_CAPABLE_FLAGS first = Some p \<Longrightarrow> \<forall>v\<in>set (argument_views afterWord). \<not> p v"
proof -
  obtain w after where lw: "leadingWord (stripWrappers command Allow) = (w, after)"
    by (cases "leadingWord (stripWrappers command Allow)")
  from assms lw obtain first where w: "w = Some first"
    by (cases w) (auto simp: isRecognizedReadOnly_def Let_def split: if_splits)
  show thesis
  proof (rule that)
    show "leadingWord (stripWrappers command Allow) = (Some first, after)" using lw w by simp
  qed (use assms lw w in
      \<open>auto simp: isRecognizedReadOnly_def Let_def list_ex_iff split: if_splits option.splits\<close>)
qed

lemma git_not_table: "''git'' \<notin> set READ_ONLY_COMMANDS"
  by (simp add: READ_ONLY_COMMANDS_def)

lemma find_action_no_expansion_irrelevant: "WRITE_CAPABLE_FLAGS ''find'' = Some p \<Longrightarrow> \<not> p s \<Longrightarrow> \<not> has_expansion s"
  by (auto simp: WRITE_CAPABLE_FLAGS_def)

subsection \<open>Properties\<close>

text \<open>
  What is recognised as read-only. A command \<open>isRecognizedReadOnly\<close> accepts is within the parser
  limit and balanced, writes no file by redirection, and after wrappers its first word is in the
  fixed table of read-only commands, or it is \<open>git\<close> with a read-only subcommand; and none of the
  readings of the arguments of \<open>find\<close>, \<open>rg\<close> or \<open>git\<close> shows a flag that can write.
\<close>

theorem isRecognizedReadOnly_sound:
  assumes "isRecognizedReadOnly command"
  shows "\<exists>first afterWord. scanIfParseable command \<noteq> None
    \<and> extractRedirectTargets (stripWrappers command Allow) = []
    \<and> leadingWord (stripWrappers command Allow) = (Some first, afterWord)
    \<and> (if first = ''git''
       then (\<exists>sub\<in>set GIT_READ_ONLY_SUBCOMMANDS. fst (leadingWord afterWord) = Some sub)
         \<and> \<not> list_ex GIT_WRITE_CAPABLE_FLAGS (argument_views afterWord)
       else first \<in> set READ_ONLY_COMMANDS
         \<and> (case WRITE_CAPABLE_FLAGS first of None \<Rightarrow> True | Some p \<Rightarrow> \<not> list_ex p (argument_views afterWord)))"
  using assms
proof (rule isRecognizedReadOnly_cases)
  fix first afterWord
  assume h: "scanIfParseable command \<noteq> None" "extractRedirectTargets (stripWrappers command Allow) = []"
    "leadingWord (stripWrappers command Allow) = (Some first, afterWord)"
    "first = ''git'' \<or> first \<in> set READ_ONLY_COMMANDS"
    "first = ''git'' \<Longrightarrow> \<exists>sub\<in>set GIT_READ_ONLY_SUBCOMMANDS. fst (leadingWord afterWord) = Some sub
       \<and> (\<forall>v\<in>set (argument_views afterWord). \<not> GIT_WRITE_CAPABLE_FLAGS v)"
    "\<And>p. first \<noteq> ''git'' \<Longrightarrow> WRITE_CAPABLE_FLAGS first = Some p \<Longrightarrow> \<forall>v\<in>set (argument_views afterWord). \<not> p v"
  show ?thesis
  proof (cases "first = ''git''")
    case True
    with h(5) have "(\<exists>sub\<in>set GIT_READ_ONLY_SUBCOMMANDS. fst (leadingWord afterWord) = Some sub)
        \<and> \<not> list_ex GIT_WRITE_CAPABLE_FLAGS (argument_views afterWord)"
      by (auto simp: list_ex_iff)
    with h(1-3) True show ?thesis by auto
  next
    case False
    with h(1-4) h(6) show ?thesis
      by (auto simp: list_ex_iff split: option.split)
  qed
qed

theorem isRecognizedReadOnly_sound_witness:
  "isRecognizedReadOnly ''git log -1'' \<and> extractRedirectTargets (stripWrappers ''git log -1'' Allow) = []"
proof -
  have r: "isRecognizedReadOnly ''git log -1''" by code_simp
  then show ?thesis using isRecognizedReadOnly_sound [OF r] by blast
qed

text \<open>
  An escaped redirection character hides a separator. The splitter takes an ampersand after any
  \<open>>\<close> for the redirection \<open>>&\<close>, also when that \<open>>\<close> is escaped and so an ordinary character: a command
  that runs \<open>echo\<close> in the background and then \<open>rm\<close> is one part, and it is recognised as read-only.
\<close>

theorem escaped_redirect_hides_separator:
  "splitCompound (''echo '' @ [backslash] @ ''>& rm -rf x'') = Some [''echo '' @ [backslash] @ ''>& rm -rf x'']
    \<and> isRecognizedReadOnly (''echo '' @ [backslash] @ ''>& rm -rf x'')"
  by code_simp

end
