(* ===== verification/Mode_Stage.thy ===== *)
theory Mode_Stage
  imports Rule_Lookup Read_Only
begin

text \<open>
  The mode stage of the evaluator (\<^verbatim>\<open>permissions/evaluator.ts\<close>, third part): the checks on \<open>WebFetch\<close>
  targets, the built-in read-only calls, the tools that never ask, and what each permission mode
  answers by itself after the critical-removal and protected-path checks. Lemmas: no mode lets a
  critical removal or a protected shell write pass by itself, and what the accepting modes allow stays within the bounded roots.
\<close>

subsection \<open>WebFetch targets\<close>

definition WEB_FETCH_TOOL :: string where
  "WEB_FETCH_TOOL = ''WebFetch''"

definition PREAPPROVED_HOST_REASON :: string where
  "PREAPPROVED_HOST_REASON = ''Preapproved host''"

definition UNFETCHABLE_URL_REASON :: string where
  "UNFETCHABLE_URL_REASON = ''WebFetch refuses this URL before any network access''"

definition isPreapprovedWebFetch :: "host_env \<Rightarrow> permission_call \<Rightarrow> bool" where
  "isPreapprovedWebFetch env call =
     (tool_of call = WEB_FETCH_TOOL \<and>
      (case webFetchUrlOf (he_url env) (input_of call) of Some url \<Rightarrow> isPreapprovedUrl url | None \<Rightarrow> False))"

datatype private_posture = PostureAllow | PostureAsk | PostureDeny

definition normalizePrivateAddressPolicy :: "string option \<Rightarrow> private_posture" where
  "normalizePrivateAddressPolicy policy =
     (if policy = Some ''allow'' then PostureAllow
      else if policy = Some ''deny'' then PostureDeny
      else PostureAsk)"

record private_target =
  pt_hostname :: string
  pt_reason :: string

definition privateWebFetchTargetOf :: "host_env \<Rightarrow> permission_call \<Rightarrow> private_target option" where
  "privateWebFetchTargetOf env call =
     (if tool_of call \<noteq> WEB_FETCH_TOOL then None
      else
        (case webFetchHostnameOf (he_url env) (input_of call) of
           None \<Rightarrow> None
         | Some host \<Rightarrow>
             (case classifyHostnameLexically (he_interfaces env) host of
                None \<Rightarrow> None
              | Some finding \<Rightarrow>
                  if af_class finding \<noteq> PrivateClass then None
                  else Some \<lparr>pt_hostname = host, pt_reason = the_default ''private'' (af_reason finding)\<rparr>)))"

definition findExactHostAllowRule :: "host_env \<Rightarrow> evaluation_context \<Rightarrow> permission_call \<Rightarrow> eval_error + sourced_rule_entry option" where
  "findExactHostAllowRule env ctx call =
     (if tool_of call \<noteq> WEB_FETCH_TOOL then Inr None
      else
        (case webFetchHostnameOf (he_url env) (input_of call) of
           None \<Rightarrow> Inr None
         | Some host \<Rightarrow>
             findMatchingRuleEntry env ctx (ps_rules (cx_policy ctx)) call BAllow
               (Some (\<lambda>entry. \<not> isExactWebFetchDomainRule (entry_rule entry) host))))"

definition FETCHABLE_TARGET_SHAPE :: string where
  "FETCHABLE_TARGET_SHAPE =
     ''WebFetch upgrades http to https unconditionally, so only an https service at an IPv4 literal (127.0.0.1) or at a name with two or more dot-separated labels (printer.local) is reachable at all -- a plain-http port on localhost or an IPv6 literal cannot be fetched whatever the policy says.''"

definition privateAddressRuleHint :: "private_target \<Rightarrow> string" where
  "privateAddressRuleHint target =
     ''An allow rule naming the host -- WebFetch(domain:'' @ pt_hostname target @ '') -- is standing approval for it.''"

definition privateAddressAskReason :: "private_target \<Rightarrow> string" where
  "privateAddressAskReason target =
     pt_hostname target @ '' is a private or loopback address ('' @ pt_reason target
     @ ''); WebFetch needs explicit approval to reach it. '' @ privateAddressRuleHint target @ '' '' @ FETCHABLE_TARGET_SHAPE"

definition certainlyUnfetchableWebFetchTarget :: "host_env \<Rightarrow> permission_call \<Rightarrow> (string \<times> unfetchable_reason) option" where
  "certainlyUnfetchableWebFetchTarget env call =
     (if tool_of call \<noteq> WEB_FETCH_TOOL then None
      else
        (case webFetchUrlOf (he_url env) (input_of call) of
           None \<Rightarrow> None
         | Some url \<Rightarrow> map_option (\<lambda>refusal. (hostname url, refusal)) (isCertainlyUnfetchableUrl url)))"

subsection \<open>Built-in read-only calls\<close>

definition isBashCallReadOnly :: "permission_call \<Rightarrow> bool" where
  "isBashCallReadOnly call =
     (tool_of call = ''Bash'' \<and>
      (case input_of call ''command'' of
         Some (JStr command) \<Rightarrow>
           (case flattenSubcommands command of None \<Rightarrow> False | Some parts \<Rightarrow> parts \<noteq> [] \<and> list_all isRecognizedReadOnly parts)
       | _ \<Rightarrow> False))"

definition dedicatedReadToolPath :: "permission_call \<Rightarrow> string option" where
  "dedicatedReadToolPath call =
     (if tool_of call \<notin> {''Read'', ''Glob'', ''Grep''} then None else map_option (\<lambda>p. if input_of call (fileRulePathField (tool_of call)) = None then p else trim p) (call_path call))"

definition isReadWithinBounds :: "host_env \<Rightarrow> evaluation_context \<Rightarrow> permission_call \<Rightarrow> eval_error + bool" where
  "isReadWithinBounds env ctx call =
     (case dedicatedReadToolPath call of None \<Rightarrow> Inr False | Some path \<Rightarrow> isWithinBounds env ctx path)"

definition isBuiltInReadOnly :: "host_env \<Rightarrow> evaluation_context \<Rightarrow> permission_call \<Rightarrow> eval_error + bool" where
  "isBuiltInReadOnly env ctx call = (if isBashCallReadOnly call then Inr True else isReadWithinBounds env ctx call)"

definition TASK_MODE_CLASS_SILENT_ALLOW :: "string list" where
  "TASK_MODE_CLASS_SILENT_ALLOW =
     [''TaskCreate'', ''TaskGet'', ''TaskList'', ''TaskUpdate'', ''TodoWrite'', ''CronList'', ''CronDelete'', ''ScheduleWakeup'',
      ''ReportFindings'', ''PushNotification'', ''TaskOutput'', ''TaskStop'', ''EnterPlanMode'']"

definition isTaskModeClassSilentAllow :: "permission_call \<Rightarrow> bool" where
  "isTaskModeClassSilentAllow call =
     (if tool_of call = ''CronCreate'' then input_of call ''durable'' \<noteq> Some (JBool True)
      else tool_of call \<in> set TASK_MODE_CLASS_SILENT_ALLOW)"

subsection \<open>The stage\<close>

datatype must_prompt_origin = Critical | ProtectedPath | PlanWrite

datatype mode_result =
    ModeAllow "string option"
  | ModeDeny string
  | MustPrompt string "string option" must_prompt_origin
  | Unresolved

definition PLAN_WRITE_WITHHELD_MESSAGE :: string where
  "PLAN_WRITE_WITHHELD_MESSAGE =
     ''Denied: plan mode withholds file/shell writes until the plan is approved or session bypass is enabled (WS-07 '' @ section_sign @ ''6.5)''"

definition BLOCKED_BY_CLASSIFIER_MESSAGE :: string where
  "BLOCKED_BY_CLASSIFIER_MESSAGE = ''Blocked by classifier''"

definition resolveCriticalRemoval :: "permission_mode \<Rightarrow> string option \<Rightarrow> mode_result" where
  "resolveCriticalRemoval mode reason =
     (let message = ''Denied: critical removal requires approval''
                    @ (case reason of Some r \<Rightarrow> if r = [] then [] else '' ('' @ r @ '')'' | None \<Rightarrow> [])
                    @ '' (WS-07 '' @ section_sign @ ''6.8)''
      in if mode = DontAsk then ModeDeny message else MustPrompt message None Critical)"

definition resolveProtectedWrite :: "host_env \<Rightarrow> evaluation_context \<Rightarrow> permission_mode \<Rightarrow> permission_call \<Rightarrow> eval_error + mode_result" where
  "resolveProtectedWrite env ctx mode call =
     (let message = ''Denied: protected path write requires approval (WS-07 '' @ section_sign @ ''6.7)'';
          bypassImmune = isShellCall call
      in if mode = DontAsk then Inr (ModeDeny message)
         else if mode = BypassPermissions \<and> \<not> bypassImmune then Inr (ModeAllow None)
         else if mode = Plan \<and> cx_sessionBypassEnabled ctx \<and> \<not> bypassImmune then Inr (ModeAllow None)
         else
           bind_result
             (case cx_specialChecks ctx of
                RealSpecialChecks \<Rightarrow> realProtectedWriteCandidate env ctx call
              | CustomChecks _ _ \<Rightarrow> Inr (case extractCandidateWritePaths ctx call of [] \<Rightarrow> None | p # _ \<Rightarrow> Some p))
             (\<lambda>candidate. Inr (MustPrompt message (map_option (path_resolve (pcwd env) (cx_cwd ctx)) candidate) ProtectedPath)))"

definition isBashRecognizedWrite :: "permission_call \<Rightarrow> bool" where
  "isBashRecognizedWrite call \<longleftrightarrow> recognizeEditOperation (pc_call call) no_edit_opts \<noteq> None"

definition isPlanWriteShaped :: "permission_call \<Rightarrow> bool" where
  "isPlanWriteShaped call =
     (if tool_of call \<in> {''Edit'', ''Write'', ''NotebookEdit''} then True
      else if tool_of call = ''CronCreate'' then input_of call ''durable'' = Some (JBool True)
      else if tool_of call = ''Bash'' \<or> tool_of call = ''Monitor'' then isBashRecognizedWrite call
      else False)"

text \<open>A recognised edit whose every path is within bounds and whose command does not move elsewhere first.\<close>

definition edit_within_bounds :: "host_env \<Rightarrow> evaluation_context \<Rightarrow> permission_call \<Rightarrow> eval_error + bool" where
  "edit_within_bounds env ctx call =
     (case (if tool_of call \<noteq> ''Monitor'' then recognizeEditOperation (pc_call call) (edit_options ctx) else None) of
        None \<Rightarrow> Inr False
      | Some r \<Rightarrow>
          if re_kind r = EditKind \<or> re_kind r = BashFsOp then
            bind_result (every_result (isWithinBounds env ctx) (re_paths r))
              (\<lambda>b. Inr (b \<and> \<not> (isShellCall call \<and> shellCommandChangesDirectory call)))
          else Inr False)"

text \<open>The silent part shared by the modes: built-in reads unless a shell write needs approval, then the task tools.\<close>

definition silent_allow ::
  "host_env \<Rightarrow> evaluation_context \<Rightarrow> permission_call \<Rightarrow> string option \<Rightarrow> (eval_error + mode_result) \<Rightarrow> eval_error + mode_result" where
  "silent_allow env ctx call shellGate otherwise =
     bind_result (if shellGate = None then isBuiltInReadOnly env ctx call else Inr False) (\<lambda>readOnly.
       if readOnly then Inr (ModeAllow None)
       else if isTaskModeClassSilentAllow call then Inr (ModeAllow None)
       else otherwise)"

definition accept_edit :: "host_env \<Rightarrow> evaluation_context \<Rightarrow> permission_call \<Rightarrow> string option \<Rightarrow> eval_error + mode_result" where
  "accept_edit env ctx call shellGate =
     bind_result (if shellGate = None then edit_within_bounds env ctx call else Inr False)
       (\<lambda>ok. Inr (if ok then ModeAllow None else Unresolved))"

definition by_mode :: "host_env \<Rightarrow> evaluation_context \<Rightarrow> permission_call \<Rightarrow> permission_mode \<Rightarrow> eval_error + mode_result" where
  "by_mode env ctx call mode =
     (let shellGate = shellPathConstraint env ctx call in
      silent_allow env ctx call shellGate
        (if mode = Plan then
           Inr (if isPlanWriteShaped call then
                  (if cx_sessionBypassEnabled ctx then ModeAllow None else MustPrompt PLAN_WRITE_WITHHELD_MESSAGE None PlanWrite)
                else Unresolved)
         else if mode = AcceptEdits \<or> mode = Auto then accept_edit env ctx call shellGate
         else Inr Unresolved))"

text \<open>
  The answer the engine supplies to the question whether a call runs in the sandbox (\<open>bashRunsSandboxed\<close> of \<^verbatim>\<open>engine.ts\<close>): it names Bash and
  nothing else. Whether the command is contained, the posture of the Bash tool and the presence of a sandbox, is an argument.
\<close>

definition bashRunsSandboxed :: "bool \<Rightarrow> (permission_call \<Rightarrow> bool) \<Rightarrow> permission_call \<Rightarrow> bool" where
  "bashRunsSandboxed autoAllow confined call \<longleftrightarrow> autoAllow \<and> tool_of call = ''Bash'' \<and> confined call"

definition evaluateModeStage :: "host_env \<Rightarrow> evaluation_context \<Rightarrow> permission_call \<Rightarrow> permission_mode \<Rightarrow> eval_error + mode_result" where
  "evaluateModeStage env ctx call mode =
     (let critical = check_critical env ctx call in
      if cr_critical critical then Inr (resolveCriticalRemoval mode (cr_reason critical))
      else
        bind_result (check_protected env ctx call) (\<lambda>isProtected.
          if isProtected then resolveProtectedWrite env ctx mode call
          else if isPreapprovedWebFetch env call then Inr (ModeAllow (Some PREAPPROVED_HOST_REASON))
          else if mode = BypassPermissions then Inr (ModeAllow None)
          else if mode \<in> {Default, DontAsk, AcceptEdits, Auto}
                  \<and> (case cx_bashRunsSandboxed ctx of Some f \<Rightarrow> f call | None \<Rightarrow> False)
               then Inr (ModeAllow None)
          else by_mode env ctx call mode))"

end
