(* ===== verification/Pipeline.thy ===== *)
theory Pipeline
  imports Mode_Stage
begin

text \<open>
  The permission pipeline (\<^verbatim>\<open>permissions/evaluator.ts\<close>, last part): the stages of \<open>evaluate\<close> in their order, the
  answers of hooks, prompt and classifier, the escape from the sandbox and the read probe. A run of the pipeline
  is the list of the parties it consulted and its outcome, an error or a decision record.
\<close>

subsection \<open>Records and runs\<close>

datatype consultation = PreToolUseHook | RequestHook | Person | Classifier | HeadlessDenialNoted | FallbackNoted answer

type_synonym run = "consultation list \<times> (eval_error + decision_record)"

definition record_of :: "decision \<Rightarrow> mechanism \<Rightarrow> nat \<Rightarrow> tool_input option \<Rightarrow> decision_record" where
  "record_of d m version carried =
     \<lparr>dr_decision = d, dr_mechanism = m, dr_source = None, dr_hookId = None, dr_ruleRef = None,
      dr_transformedInput = carried, dr_message = None, dr_interrupt = None, dr_updatedPermissions = None,
      dr_decisionClassification = None, dr_policyVersion = version, dr_deniedBareSchemaRemoval = False,
      dr_decisionReason = None, dr_explicitApproval = None, dr_promptAnswered = False\<rparr>"

definition denial :: "mechanism \<Rightarrow> nat \<Rightarrow> tool_input option \<Rightarrow> string \<Rightarrow> decision_record" where
  "denial m version carried message = (record_of DDeny m version carried)\<lparr>dr_message := Some message\<rparr>"

definition rule_denial :: "nat \<Rightarrow> tool_input option \<Rightarrow> sourced_rule_entry \<Rightarrow> string \<Rightarrow> decision_record" where
  "rule_denial version carried entry message =
     (denial MRule version carried message)\<lparr>dr_source := Some (entry_source entry), dr_ruleRef := Some (formatRuleRef entry)\<rparr>"

abbreviation mode_of :: "evaluation_context \<Rightarrow> permission_mode" where
  "mode_of ctx \<equiv> ps_mode (cx_policy ctx)"

abbreviation version_of :: "evaluation_context \<Rightarrow> nat" where
  "version_of ctx \<equiv> ps_version (cx_policy ctx)"

definition or_else :: "'a option \<Rightarrow> 'a option \<Rightarrow> 'a option" where
  "or_else a b = (case a of Some x \<Rightarrow> Some x | None \<Rightarrow> b)"

subsection \<open>Answers\<close>

definition markPromptAnswered :: "decision_record \<Rightarrow> decision_record" where
  "markPromptAnswered r = (if dr_decision r = DAllow then r\<lparr>dr_promptAnswered := True\<rparr> else r)"

definition stampExplicitApproval ::
  "host_env \<Rightarrow> evaluation_context \<Rightarrow> permission_call \<Rightarrow> decision_record \<Rightarrow> eval_error + decision_record" where
  "stampExplicitApproval env ctx call r =
     (if dr_decision r \<noteq> DAllow \<or> tool_of call \<noteq> WEB_FETCH_TOOL then Inr r
      else
        (let executed = (case dr_transformedInput r of
                           Some i \<Rightarrow> call\<lparr>pc_call := (pc_call call)\<lparr>call_input := i\<rparr>\<rparr>
                         | None \<Rightarrow> call)
         in bind_result (findExactHostAllowRule env ctx executed) (\<lambda>rule.
              Inr (if rule \<noteq> None then r\<lparr>dr_explicitApproval := Some ApprovedByRule\<rparr>
                   else if dr_promptAnswered r then r\<lparr>dr_explicitApproval := Some ApprovedByPrompt\<rparr>
                   else r))))"

definition tryPermissionRequestHook ::
  "evaluation_context \<Rightarrow> permission_call \<Rightarrow> prompt_meta \<Rightarrow> tool_input option \<Rightarrow> decision_record option" where
  "tryPermissionRequestHook ctx call meta carried =
     (case cx_permissionRequest ctx call meta of
        None \<Rightarrow> None
      | Some h \<Rightarrow>
          (let transformed = or_else (rh_transformedInput h) carried in
           Some (case rh_decision h of
             AnswerDeny \<Rightarrow>
               (record_of DDeny MHook (version_of ctx) transformed)
                 \<lparr>dr_hookId := rh_hookId h, dr_message := rh_message h, dr_interrupt := rh_interrupt h\<rparr>
           | AnswerAllow \<Rightarrow>
               markPromptAnswered ((record_of DAllow MHook (version_of ctx) transformed)
                 \<lparr>dr_hookId := rh_hookId h, dr_updatedPermissions := rh_updatedPermissions h\<rparr>))))"

definition buildRecordFromPromptResult :: "prompt_decision \<Rightarrow> nat \<Rightarrow> tool_input option \<Rightarrow> decision_record" where
  "buildRecordFromPromptResult p version carried =
     markPromptAnswered
       ((record_of (case pd_decision p of AnswerAllow \<Rightarrow> DAllow | AnswerDeny \<Rightarrow> DDeny) MCanUseTool version
          (or_else (pd_transformedInput p) carried))
          \<lparr>dr_message := pd_message p, dr_interrupt := pd_interrupt p, dr_updatedPermissions := pd_updatedPermissions p,
           dr_decisionClassification := pd_decisionClassification p\<rparr>)"

text \<open>The request hook, then the prompt, then the denial the stage gives when nobody answers.\<close>

definition ask_in_turn ::
  "evaluation_context \<Rightarrow> permission_call \<Rightarrow> prompt_meta \<Rightarrow> tool_input option \<Rightarrow> decision_record \<Rightarrow> consultation list \<times> decision_record" where
  "ask_in_turn ctx call meta carried unanswered =
     (case tryPermissionRequestHook ctx call meta carried of
        Some r \<Rightarrow> ([RequestHook], r)
      | None \<Rightarrow>
          ([RequestHook, Person],
           case cx_prompt ctx call meta of
             Some p \<Rightarrow> buildRecordFromPromptResult p (version_of ctx) carried
           | None \<Rightarrow> unanswered))"

definition plain_meta :: "permission_call \<Rightarrow> string \<Rightarrow> prompt_meta" where
  "plain_meta call reason =
     \<lparr>pm_decisionReason = reason, pm_toolUseID = pc_toolUseId call, pm_agentID = pc_agentId call,
      pm_matchedAskRule = None, pm_blockedPath = None\<rparr>"

definition isAutoModeDuringPlanEnabled :: "evaluation_context \<Rightarrow> bool" where
  "isAutoModeDuringPlanEnabled ctx =
     the_default AUTO_MODE_DEFAULT_USE_AUTO_MODE_DURING_PLAN
       (case ps_autoConfig (cx_policy ctx) of Some c \<Rightarrow> amc_useAutoModeDuringPlan c | None \<Rightarrow> None)"

definition AUTO_FALLBACK_REASON :: string where
  "AUTO_FALLBACK_REASON =
     ''auto-mode fallback: the classifier is paused after repeated blocks (WS-07 '' @ section_sign @ ''10.5)''"

definition AUTO_FALLBACK_UNANSWERED :: string where
  "AUTO_FALLBACK_UNANSWERED =
     ''Denied: auto-mode fallback requires human approval and no prompt handler answered (WS-07 '' @ section_sign @ ''10.5)''"

definition blocked_by_classifier :: "evaluation_context \<Rightarrow> tool_input option \<Rightarrow> decision_record" where
  "blocked_by_classifier ctx carried = denial MAutoEngine (version_of ctx) carried BLOCKED_BY_CLASSIFIER_MESSAGE"

definition resolveAutoDecision :: "evaluation_context \<Rightarrow> permission_call \<Rightarrow> tool_input option \<Rightarrow> consultation list \<times> decision_record" where
  "resolveAutoDecision ctx call carried =
     (let verdict = cx_classify ctx call in
      if \<not> av_fallbackToPrompt verdict then
        ([Classifier],
         if av_verdict verdict = VerdictAllow then record_of DAllow MAutoEngine (version_of ctx) carried
         else blocked_by_classifier ctx carried)
      else
        (let meta = plain_meta call AUTO_FALLBACK_REASON;
             (asked, r) = ask_in_turn ctx call meta carried (denial MAutoEngine (version_of ctx) carried AUTO_FALLBACK_UNANSWERED);
             unanswered = tryPermissionRequestHook ctx call meta carried = None \<and> cx_prompt ctx call meta = None
         in (Classifier # asked @ (if unanswered then [HeadlessDenialNoted] else [])
               @ [FallbackNoted (if dr_decision r = DAllow then AnswerAllow else AnswerDeny)], r)))"

subsection \<open>Leaving the sandbox\<close>

definition SANDBOX_ESCAPE_REASON :: string where
  "SANDBOX_ESCAPE_REASON = ''Run outside of the sandbox''"

definition isSandboxEscape :: "evaluation_context \<Rightarrow> permission_call \<Rightarrow> bool" where
  "isSandboxEscape ctx call =
     (if tool_of call \<noteq> ''Bash'' \<or> input_of call ''dangerouslyDisableSandbox'' \<noteq> Some (JBool True) then False
      else (case cx_bashSandboxEscape ctx of Some f \<Rightarrow> f call | None \<Rightarrow> True))"

definition resolveSandboxEscape ::
  "evaluation_context \<Rightarrow> permission_call \<Rightarrow> tool_input option \<Rightarrow> string \<Rightarrow> consultation list \<times> decision_record" where
  "resolveSandboxEscape ctx call carried reason =
     (if mode_of ctx = DontAsk then
        ([], denial MMode (version_of ctx) carried
               ''Denied: dontAsk mode denies running a Bash command outside of the sandbox (dangerouslyDisableSandbox) without an allow rule for it'')
      else
        ask_in_turn ctx call (plain_meta call reason) carried
          (denial MMode (version_of ctx) carried
             ''Denied: running a Bash command outside of the sandbox (dangerouslyDisableSandbox) needs approval and no prompt handler answered it''))"

subsection \<open>Stage 2: what no mode can lift\<close>

definition private_target_of :: "host_env \<Rightarrow> evaluation_context \<Rightarrow> permission_call \<Rightarrow> private_target option" where
  "private_target_of env ctx call =
     (if normalizePrivateAddressPolicy (cx_webFetchPrivateAddressPolicy ctx) = PostureAllow then None
      else privateWebFetchTargetOf env call)"

definition private_denied :: "private_target \<Rightarrow> string" where
  "private_denied t =
     ''Denied: WebFetch will not reach '' @ pt_hostname t @ '': it is a private or loopback address ('' @ pt_reason t
     @ ''), and this session'' @ [squote] @ ''s policy denies WebFetch access to private addresses.''"

definition unfetchable_allowed :: "host_env \<Rightarrow> evaluation_context \<Rightarrow> permission_call \<Rightarrow> tool_input option \<Rightarrow> decision_record option" where
  "unfetchable_allowed env ctx call carried =
     (if certainlyUnfetchableWebFetchTarget env call = None then None
      else Some ((record_of DAllow MMode (version_of ctx) carried)\<lparr>dr_decisionReason := Some UNFETCHABLE_URL_REASON\<rparr>))"

definition web_stage :: "host_env \<Rightarrow> evaluation_context \<Rightarrow> permission_call \<Rightarrow> tool_input option \<Rightarrow> decision_record option" where
  "web_stage env ctx call carried =
     (case private_target_of env ctx call of
        Some t \<Rightarrow>
          if normalizePrivateAddressPolicy (cx_webFetchPrivateAddressPolicy ctx) = PostureDeny
          then Some (denial MMode (version_of ctx) carried (private_denied t))
          else unfetchable_allowed env ctx call carried
      | None \<Rightarrow> unfetchable_allowed env ctx call carried)"

definition blocks_writes_message :: "sourced_rule_entry \<Rightarrow> string" where
  "blocks_writes_message entry =
     ''Denied: deny rule '' @ formatRuleRef entry @ '' blocks writes to this path (WS-07 '' @ section_sign @ ''3.1)''"

definition deny_stage :: "host_env \<Rightarrow> evaluation_context \<Rightarrow> permission_call \<Rightarrow> tool_input option \<Rightarrow> eval_error + decision_record option" where
  "deny_stage env ctx call carried =
     bind_result (findMatchingRuleEntry env ctx (ps_rules (cx_policy ctx)) call BDeny (projectsCarveOutSkip env ctx call)) (\<lambda>denyEntry.
       case denyEntry of
         Some e \<Rightarrow>
           Inr (Some ((rule_denial (version_of ctx) carried e (ruleDenialMessage e))
                        \<lparr>dr_deniedBareSchemaRemoval := isBareEquivalent (entry_rule e)\<rparr>))
       | None \<Rightarrow>
           bind_result (findFileDenyBlockingEdit env ctx call) (\<lambda>blocked.
             case blocked of
               Some e \<Rightarrow> Inr (Some (rule_denial (version_of ctx) carried e (blocks_writes_message e)))
             | None \<Rightarrow>
                 bind_result (case fileRuleKindFor (tool_of call) of
                                Some kind \<Rightarrow> crashCheckEditRulesDuringRead env ctx (ps_rules (cx_policy ctx)) call kind
                              | None \<Rightarrow> Inr ()) (\<lambda>_.
                   Inr (web_stage env ctx call carried))))"

subsection \<open>Stage 3: what must be asked\<close>

definition forced_defer :: "evaluation_context \<Rightarrow> hook_decision \<Rightarrow> tool_input option \<Rightarrow> decision_record" where
  "forced_defer ctx h carried =
     (if mode_of ctx = DontAsk then
        (denial MHook (version_of ctx) carried
           (the_default (''Denied: dontAsk mode denies a PreToolUse hook'' @ [squote] @ ''s forced durable approval (WS-07 '' @ section_sign
              @ ''6.3/WS-08 '' @ section_sign @ ''7)'') (hd_message h)))\<lparr>dr_hookId := hd_hookId h\<rparr>
      else (record_of DDefer MHook (version_of ctx) carried)\<lparr>dr_hookId := hd_hookId h, dr_message := hd_message h\<rparr>)"

record ask_causes =
  ac_rule :: "sourced_rule_entry option"
  ac_question :: bool
  ac_interaction :: bool
  ac_private :: "private_target option"
  ac_suspicious :: "string option"
  ac_hook :: "hook_decision option"

definition must_ask :: "ask_causes \<Rightarrow> bool" where
  "must_ask c \<longleftrightarrow>
     ac_rule c \<noteq> None \<or> ac_question c \<or> ac_interaction c \<or> ac_private c \<noteq> None \<or> ac_suspicious c \<noteq> None \<or> ac_hook c \<noteq> None"

definition dont_ask_denial :: "evaluation_context \<Rightarrow> permission_call \<Rightarrow> ask_causes \<Rightarrow> tool_input option \<Rightarrow> decision_record" where
  "dont_ask_denial ctx call c carried =
     (case ac_rule c of
        Some e \<Rightarrow> rule_denial (version_of ctx) carried e (ruleDenialMessage e)
      | None \<Rightarrow>
          if ac_interaction c then
            denial MMode (version_of ctx) carried
              (''Denied: dontAsk mode denies '' @ [squote] @ tool_of call @ [squote]
               @ '' -- marked requiresUserInteraction (WS-07 '' @ section_sign @ ''6.3; WS-09 '' @ section_sign @ ''6)'')
          else
            (case ac_private c of
               Some t \<Rightarrow>
                 denial MMode (version_of ctx) carried
                   (''Denied: '' @ pt_hostname t @ '' is a private or loopback address ('' @ pt_reason t
                    @ '') and dontAsk mode cannot ask for the approval WebFetch needs to reach it. '' @ privateAddressRuleHint t)
             | None \<Rightarrow>
                 (case ac_suspicious c of
                    Some p \<Rightarrow>
                      denial MMode (version_of ctx) carried
                        (''Denied: dontAsk mode cannot ask for the manual approval a suspicious path requires ('' @ p
                         @ '', WS-07 '' @ section_sign @ ''6.3)'')
                  | None \<Rightarrow>
                      (case ac_hook c of
                         Some h \<Rightarrow>
                           (denial MHook (version_of ctx) carried
                              (the_default (''Denied: dontAsk mode denies a PreToolUse hook'' @ [squote] @ ''s forced interactive approval (WS-07 ''
                                 @ section_sign @ ''6.3/WS-08 '' @ section_sign @ ''3)'') (hd_message h)))\<lparr>dr_hookId := hd_hookId h\<rparr>
                       | None \<Rightarrow>
                           denial MMode (version_of ctx) carried
                             (''Denied: dontAsk mode denies AskUserQuestion (WS-07 '' @ section_sign @ ''6.3/'' @ section_sign @ ''8)'')))))"

definition ask_reason :: "permission_call \<Rightarrow> ask_causes \<Rightarrow> private_target option \<Rightarrow> string" where
  "ask_reason call c target =
     (case ac_rule c of
        Some e \<Rightarrow>
          ''matched ask rule '' @ formatRuleRef e
          @ (case target of Some t \<Rightarrow> ''; '' @ privateAddressAskReason t | None \<Rightarrow> [])
      | None \<Rightarrow>
          if ac_question c then ''AskUserQuestion requires mandatory interaction (WS-07 '' @ section_sign @ ''8)''
          else if ac_interaction c then
            [squote] @ tool_of call @ [squote]
            @ '' is marked requiresUserInteraction and requires mandatory interaction (WS-09 '' @ section_sign @ ''6)''
          else
            (case ac_private c of
               Some t \<Rightarrow> privateAddressAskReason t
             | None \<Rightarrow>
                 (case ac_suspicious c of
                    Some p \<Rightarrow> suspiciousPathAskMessage p
                  | None \<Rightarrow>
                      the_default (''a PreToolUse hook requested interactive approval (WS-08 '' @ section_sign @ ''3)'')
                        (case ac_hook c of Some h \<Rightarrow> hd_message h | None \<Rightarrow> None))))"

definition unanswered_denial :: "evaluation_context \<Rightarrow> permission_call \<Rightarrow> ask_causes \<Rightarrow> tool_input option \<Rightarrow> decision_record" where
  "unanswered_denial ctx call c carried =
     (case ac_rule c of
        Some e \<Rightarrow> rule_denial (version_of ctx) carried e (ruleAskUnresolvedMessage e)
      | None \<Rightarrow>
          if ac_interaction c then
            denial MMode (version_of ctx) carried
              (''Denied: '' @ [squote] @ tool_of call @ [squote] @ '' requires interaction (requiresUserInteraction, WS-09 ''
               @ section_sign @ ''6) and no prompt handler answered it'')
          else
            (case ac_private c of
               Some t \<Rightarrow>
                 denial MMode (version_of ctx) carried
                   (''Denied: '' @ pt_hostname t @ '' is a private or loopback address ('' @ pt_reason t
                    @ ''); WebFetch needs explicit approval to reach it and no prompt handler answered. '' @ privateAddressRuleHint t)
             | None \<Rightarrow>
                 (case ac_suspicious c of
                    Some p \<Rightarrow> denial MMode (version_of ctx) carried (suspiciousPathAskMessage p @ '' No prompt handler answered it.'')
                  | None \<Rightarrow>
                      (case ac_hook c of
                         Some h \<Rightarrow>
                           (denial MHook (version_of ctx) carried
                              (''Denied: a PreToolUse hook requested interactive approval and no prompt handler answered it (WS-08 ''
                               @ section_sign @ ''3)''))\<lparr>dr_hookId := hd_hookId h\<rparr>
                       | None \<Rightarrow>
                           denial MMode (version_of ctx) carried
                             (''Denied: AskUserQuestion requires interaction and no prompt handler answered it (WS-07 '' @ section_sign @ ''8)'')))))"

definition ask_meta :: "permission_call \<Rightarrow> ask_causes \<Rightarrow> private_target option \<Rightarrow> prompt_meta" where
  "ask_meta call c target =
     (plain_meta call (ask_reason call c target))
       \<lparr>pm_matchedAskRule :=
          map_option (\<lambda>e. (entry_source e, rv_toolName (entry_ruleValue e), rv_ruleContent (entry_ruleValue e))) (ac_rule c)\<rparr>"

definition ask_stage ::
  "evaluation_context \<Rightarrow> permission_call \<Rightarrow> ask_causes \<Rightarrow> private_target option \<Rightarrow> tool_input option \<Rightarrow> consultation list \<times> decision_record" where
  "ask_stage ctx call c target carried =
     (if mode_of ctx = DontAsk then ([], dont_ask_denial ctx call c carried)
      else ask_in_turn ctx call (ask_meta call c target) carried (unanswered_denial ctx call c carried))"

definition causes_of ::
  "host_env \<Rightarrow> evaluation_context \<Rightarrow> permission_call \<Rightarrow> hook_decision \<Rightarrow> private_target option \<Rightarrow> sourced_rule_entry option \<Rightarrow> ask_causes" where
  "causes_of env ctx call h mandatoryPrivate askEntry =
     \<lparr>ac_rule = askEntry,
      ac_question = (tool_of call = ASK_USER_QUESTION_TOOL_NAME),
      ac_interaction = (case cx_requiresInteraction ctx of Some f \<Rightarrow> f (tool_of call) | None \<Rightarrow> False),
      ac_private = mandatoryPrivate,
      ac_suspicious = firstSuspiciousWritePath env ctx call,
      ac_hook = (if hd_decision h = HookAsk then Some h else None)\<rparr>"

subsection \<open>Stages 4 to 6\<close>

definition hook_may_allow :: "host_env \<Rightarrow> evaluation_context \<Rightarrow> permission_call \<Rightarrow> eval_error + bool" where
  "hook_may_allow env ctx call =
     (if cr_critical (check_critical env ctx call) then Inr False
      else bind_result (check_protected env ctx call) (\<lambda>isProtected.
        Inr (\<not> isProtected
             \<and> \<not> (mode_of ctx = Plan \<and> isPlanWriteShaped call \<and> \<not> cx_sessionBypassEnabled ctx))))"

text \<open>The classifier during plan mode: its verdict, or on to the next stage when it has none.\<close>

definition classify_in_plan ::
  "evaluation_context \<Rightarrow> permission_call \<Rightarrow> tool_input option \<Rightarrow> consultation list \<times> decision_record \<Rightarrow> consultation list \<times> decision_record" where
  "classify_in_plan ctx call carried later =
     (case av_verdict (cx_classify ctx call) of
        VerdictAllow \<Rightarrow> ([Classifier], record_of DAllow MAutoEngine (version_of ctx) carried)
      | VerdictDeny \<Rightarrow> ([Classifier], blocked_by_classifier ctx carried)
      | NoVerdict \<Rightarrow> (Classifier # fst later, snd later))"

definition must_prompt ::
  "evaluation_context \<Rightarrow> permission_call \<Rightarrow> tool_input option \<Rightarrow> bool \<Rightarrow> string \<Rightarrow> string option \<Rightarrow> must_prompt_origin
    \<Rightarrow> consultation list \<times> decision_record" where
  "must_prompt ctx call carried sandboxEscape message blockedPath origin =
     (if mode_of ctx = Auto \<and> \<not> sandboxEscape then resolveAutoDecision ctx call carried
      else
        (let asked = ask_in_turn ctx call ((plain_meta call message)\<lparr>pm_blockedPath := blockedPath\<rparr>) carried
                       (denial MMode (version_of ctx) carried message)
         in if mode_of ctx = Plan \<and> origin \<noteq> PlanWrite \<and> \<not> cx_sessionBypassEnabled ctx \<and> \<not> sandboxEscape
               \<and> isAutoModeDuringPlanEnabled ctx
            then classify_in_plan ctx call carried asked
            else asked))"

definition auto_skip :: "evaluation_context \<Rightarrow> entry_skip" where
  "auto_skip ctx =
     (if mode_of ctx = Auto then
        Some (\<lambda>entry. isAutoSuspendedAllowRule (entry_rule entry)
               (case ps_autoConfig (cx_policy ctx) of Some c \<Rightarrow> amc_classifyAllShell c = Some True | None \<Rightarrow> False))
      else None)"

definition UNMATCHED_REASON :: string where
  "UNMATCHED_REASON = ''unmatched action reached the prompt stage''"

definition UNMATCHED_UNANSWERED :: string where
  "UNMATCHED_UNANSWERED =
     ''Denied: no canUseTool handler answered this unmatched action (WS-07 '' @ section_sign @ ''6.1 '' @ em_dash @ '' never implicitly allowed)''"

definition unmatched_stage ::
  "evaluation_context \<Rightarrow> permission_call \<Rightarrow> tool_input option \<Rightarrow> bool \<Rightarrow> string option \<Rightarrow> consultation list \<times> decision_record" where
  "unmatched_stage ctx call carried sandboxEscape shellGate =
     (if sandboxEscape then resolveSandboxEscape ctx call carried (the_default SANDBOX_ESCAPE_REASON shellGate)
      else if mode_of ctx = Auto then resolveAutoDecision ctx call carried
      else if mode_of ctx = DontAsk then
        ([], denial MMode (version_of ctx) carried ''Denied: dontAsk mode denies unmatched actions'')
      else
        (let asked = ask_in_turn ctx call (plain_meta call (the_default UNMATCHED_REASON shellGate)) carried
                       (denial MMode (version_of ctx) carried UNMATCHED_UNANSWERED)
         in if mode_of ctx = Plan \<and> isAutoModeDuringPlanEnabled ctx then classify_in_plan ctx call carried asked else asked))"

definition allow_stage ::
  "host_env \<Rightarrow> evaluation_context \<Rightarrow> permission_call \<Rightarrow> tool_input option \<Rightarrow> bool \<Rightarrow> string option \<Rightarrow> run" where
  "allow_stage env ctx call carried sandboxEscape shellGate =
     (case findMatchingRuleEntry env ctx (ps_rules (cx_policy ctx)) call BAllow (auto_skip ctx) of
        Inl e \<Rightarrow> ([], Inl e)
      | Inr allowEntry \<Rightarrow>
          (case (allowEntry, shellGate) of
             (Some e, None) \<Rightarrow>
               ([], Inr ((record_of DAllow MRule (version_of ctx) carried)
                           \<lparr>dr_source := Some (entry_source e), dr_ruleRef := Some (formatRuleRef e)\<rparr>))
           | _ \<Rightarrow> map_prod id Inr (unmatched_stage ctx call carried sandboxEscape shellGate)))"

definition mode_stage :: "host_env \<Rightarrow> evaluation_context \<Rightarrow> permission_call \<Rightarrow> tool_input option \<Rightarrow> run" where
  "mode_stage env ctx call carried =
     (let sandboxEscape = isSandboxEscape ctx call;
          shellGate = shellPathConstraint env ctx call;
          go_on = allow_stage env ctx call carried sandboxEscape shellGate
      in case evaluateModeStage env ctx call (mode_of ctx) of
           Inl e \<Rightarrow> ([], Inl e)
         | Inr (ModeAllow reason) \<Rightarrow>
             if \<not> (sandboxEscape \<and> mode_of ctx \<noteq> BypassPermissions)
             then ([], Inr ((record_of DAllow MMode (version_of ctx) carried)\<lparr>dr_decisionReason := reason\<rparr>))
             else go_on
         | Inr (ModeDeny message) \<Rightarrow> ([], Inr (denial MMode (version_of ctx) carried message))
         | Inr (MustPrompt message blockedPath origin) \<Rightarrow>
             map_prod id Inr (must_prompt ctx call carried sandboxEscape message blockedPath origin)
         | Inr Unresolved \<Rightarrow> go_on)"

definition decide_stage :: "host_env \<Rightarrow> evaluation_context \<Rightarrow> permission_call \<Rightarrow> hook_decision \<Rightarrow> tool_input option \<Rightarrow> run" where
  "decide_stage env ctx call h carried =
     (case (if hd_decision h = HookAllow then hook_may_allow env ctx call else Inr False) of
        Inl e \<Rightarrow> ([], Inl e)
      | Inr True \<Rightarrow> ([], Inr ((record_of DAllow MHook (version_of ctx) carried)\<lparr>dr_hookId := hd_hookId h\<rparr>))
      | Inr False \<Rightarrow> mode_stage env ctx call carried)"

subsection \<open>The pipeline\<close>

definition after_deny :: "host_env \<Rightarrow> evaluation_context \<Rightarrow> permission_call \<Rightarrow> hook_decision \<Rightarrow> tool_input option \<Rightarrow> run" where
  "after_deny env ctx call h carried =
     (let target = private_target_of env ctx call in
      case (if target = None then Inr None else findExactHostAllowRule env ctx call) of
        Inl e \<Rightarrow> ([], Inl e)
      | Inr exactRule \<Rightarrow>
          if hd_decision h = HookDefer then ([], Inr (forced_defer ctx h carried))
          else
            (case findMatchingRuleEntry env ctx (ps_rules (cx_policy ctx)) call BAsk None of
               Inl e \<Rightarrow> ([], Inl e)
             | Inr askEntry \<Rightarrow>
                 (let causes = causes_of env ctx call h (if exactRule = None then target else None) askEntry in
                  if must_ask causes then map_prod id Inr (ask_stage ctx call causes target carried)
                  else decide_stage env ctx call h carried)))"

definition effective_call :: "permission_call \<Rightarrow> hook_decision \<Rightarrow> permission_call" where
  "effective_call call h =
     (case hd_transformedInput h of
        Some i \<Rightarrow> call\<lparr>pc_call := (pc_call call)\<lparr>call_input := i\<rparr>\<rparr>
      | None \<Rightarrow> call)"

definition evaluateStages :: "host_env \<Rightarrow> evaluation_context \<Rightarrow> permission_call \<Rightarrow> run" where
  "evaluateStages env ctx call =
     (let h = cx_preToolUse ctx call; carried = hd_transformedInput h; effective = effective_call call h in
      map_prod (Cons PreToolUseHook) id
        (if hd_decision h = HookDeny then
           ([], Inr ((record_of DDeny MHook (version_of ctx) None)
                       \<lparr>dr_hookId := hd_hookId h, dr_message := hd_message h, dr_interrupt := hd_interrupt h\<rparr>))
         else
           (case deny_stage env ctx effective carried of
              Inl e \<Rightarrow> ([], Inl e)
            | Inr (Some r) \<Rightarrow> ([], Inr r)
            | Inr None \<Rightarrow> after_deny env ctx effective h carried)))"

definition crash_record :: "evaluation_context \<Rightarrow> permission_call \<Rightarrow> decision_record" where
  "crash_record ctx call =
     denial MCrash (version_of ctx) None
       (''The '' @ tool_of call @ '' permission check failed and its fail-closed posture could not be determined. The call is denied.'')"

definition evaluate :: "host_env \<Rightarrow> evaluation_context \<Rightarrow> permission_call \<Rightarrow> run" where
  "evaluate env ctx call =
     (case evaluateStages env ctx call of
        (consulted, Inl (CompileError _)) \<Rightarrow> (consulted, Inr (crash_record ctx call))
      | (consulted, Inl e) \<Rightarrow> (consulted, Inl e)
      | (consulted, Inr staged) \<Rightarrow> (consulted, stampExplicitApproval env ctx call staged))"

text \<open>
  The parties that \<open>evaluate\<close> awaits may also throw. \<open>throws\<close> gives what each of them throws during this call; the first one consulted that does
  ends the run there. What a rule that does not compile throws is turned into the denial; every other error is thrown again to the caller.
\<close>

datatype 'e thrown = RuleCompileError | ThrownError 'e

datatype 'e escaped = PartyError 'e | StageError eval_error

definition evaluate_throwing ::
  "(consultation \<Rightarrow> 'e thrown option) \<Rightarrow> host_env \<Rightarrow> evaluation_context \<Rightarrow> permission_call \<Rightarrow> consultation list \<times> ('e escaped + decision_record)" where
  "evaluate_throwing throws env ctx call =
     (let (consulted, outcome) = evaluate env ctx call; quiet = (\<lambda>party. throws party = None) in
      case dropWhile quiet consulted of
        [] \<Rightarrow> (consulted, map_sum StageError id outcome)
      | party # _ \<Rightarrow>
          (takeWhile quiet consulted @ [party],
           case the (throws party) of RuleCompileError \<Rightarrow> Inr (crash_record ctx call) | ThrownError e \<Rightarrow> Inl (PartyError e)))"

subsection \<open>The read probe\<close>

datatype read_access_probe = ProbeSilent | ProbePrompt | ProbeDeny

definition read_call :: "string \<Rightarrow> permission_call" where
  "read_call filePath =
     \<lparr>pc_call = \<lparr>call_toolName = ''Read'', call_input = [''file_path'' \<mapsto> JStr filePath]\<rparr>, pc_toolUseId = None, pc_agentId = None\<rparr>"

definition ask_or_deny :: "evaluation_context \<Rightarrow> read_access_probe" where
  "ask_or_deny ctx = (if mode_of ctx = DontAsk then ProbeDeny else ProbePrompt)"

definition probeReadAccessStages :: "host_env \<Rightarrow> evaluation_context \<Rightarrow> string \<Rightarrow> eval_error + read_access_probe" where
  "probeReadAccessStages env ctx filePath =
     (let call = read_call filePath; rules = ps_rules (cx_policy ctx) in
      bind_result (findMatchingRuleEntry env ctx rules call BDeny None) (\<lambda>denyEntry.
        if denyEntry \<noteq> None then Inr ProbeDeny
        else bind_result (findMatchingRuleEntry env ctx rules call BAsk None) (\<lambda>askEntry.
          if askEntry \<noteq> None then Inr (ask_or_deny ctx)
          else bind_result (evaluateModeStage env ctx call (mode_of ctx)) (\<lambda>modeResult.
            case modeResult of
              ModeAllow _ \<Rightarrow> Inr ProbeSilent
            | ModeDeny _ \<Rightarrow> Inr ProbeDeny
            | MustPrompt _ _ _ \<Rightarrow> Inr (ask_or_deny ctx)
            | Unresolved \<Rightarrow>
                bind_result (findMatchingRuleEntry env ctx rules call BAllow (auto_skip ctx)) (\<lambda>allowEntry.
                  Inr (if allowEntry \<noteq> None then ProbeSilent else ask_or_deny ctx))))))"

definition probeReadAccess :: "host_env \<Rightarrow> evaluation_context \<Rightarrow> string \<Rightarrow> eval_error + read_access_probe" where
  "probeReadAccess env ctx filePath =
     (case probeReadAccessStages env ctx filePath of
        Inl (CompileError _) \<Rightarrow> Inr ProbeDeny
      | r \<Rightarrow> r)"

end
