(* ===== verification/Pipeline_Safety.thy ===== *)
theory Pipeline_Safety
  imports Pipeline
begin

text \<open>
  What the permission pipeline guarantees. Every stage that asks fulfils the contract of the locale
  \<open>asking_stage\<close>: it answers with an allow or a deny, and without an answer it denies. The case rules for the
  later stages reduce each property of \<open>evaluate\<close> to the stage that gave the decision. The last part shows that
  a call always gets a decision as long as the file system answers.
\<close>

lemmas outcome_splits = sum.splits option.splits if_splits prod.splits

lemma record_of_simps [simp]:
  "dr_decision (record_of d m v c) = d" "dr_mechanism (record_of d m v c) = m" "dr_transformedInput (record_of d m v c) = c"
  "dr_promptAnswered (record_of d m v c) = False" "dr_policyVersion (record_of d m v c) = v"
  by (simp_all add: record_of_def)

lemma denial_simps [simp]:
  "dr_decision (denial m v c t) = DDeny" "dr_mechanism (denial m v c t) = m" "dr_message (denial m v c t) = Some t"
  "dr_decision (rule_denial v c e t) = DDeny" "dr_mechanism (rule_denial v c e t) = MRule"
  by (simp_all add: denial_def rule_denial_def)

lemma ask_denials [simp]:
  "dr_decision (dont_ask_denial ctx call c carried) = DDeny"
  "dr_decision (unanswered_denial ctx call c carried) = DDeny"
  by (simp_all add: dont_ask_denial_def unanswered_denial_def split: option.splits)

lemma web_stage_other_tool [simp]: "tool_of call \<noteq> WEB_FETCH_TOOL \<Longrightarrow> web_stage env ctx call carried = None"
  by (simp add: web_stage_def unfetchable_allowed_def private_target_of_def privateWebFetchTargetOf_def
      certainlyUnfetchableWebFetchTarget_def)

lemma deny_stage_decides:
  assumes "deny_stage env ctx call carried = Inr (Some r)" "tool_of call \<noteq> WEB_FETCH_TOOL"
  shows "dr_decision r = DDeny"
  using assms by (auto simp: deny_stage_def split: option.splits)

lemma silent_allow_Inr:
  "silent_allow env ctx call gate k = Inr r \<Longrightarrow> r = ModeAllow None \<or> k = Inr r"
  by (auto simp: silent_allow_def split: if_splits)

lemma evaluateModeStage_dontAsk: "evaluateModeStage env ctx call DontAsk \<noteq> Inr (MustPrompt m b orig)"
  by (auto simp: evaluateModeStage_def resolveCriticalRemoval_def resolveProtectedWrite_def by_mode_def Let_def
      dest!: silent_allow_Inr split: if_splits option.splits)

lemma unmatched_dontAsk: "mode_of ctx = DontAsk \<Longrightarrow> unmatched_stage ctx call carried esc gate = ([], r) \<Longrightarrow> dr_decision r = DDeny"
  by (auto simp: unmatched_stage_def resolveSandboxEscape_def split: if_splits)

lemma unmatched_dontAsk_silent: "mode_of ctx = DontAsk \<Longrightarrow> fst (unmatched_stage ctx call carried esc gate) = []"
  by (auto simp: unmatched_stage_def resolveSandboxEscape_def)

lemma allow_stage_dontAsk: "mode_of ctx = DontAsk \<Longrightarrow> fst (allow_stage env ctx call carried esc gate) = []"
  by (auto simp: allow_stage_def unmatched_dontAsk_silent split: sum.splits option.splits)

lemma mode_stage_dontAsk: "mode_of ctx = DontAsk \<Longrightarrow> fst (mode_stage env ctx call carried) = []"
  using evaluateModeStage_dontAsk [of env ctx call]
  by (auto simp: mode_stage_def allow_stage_dontAsk Let_def split: sum.splits mode_result.splits)

lemma after_deny_dontAsk: "mode_of ctx = DontAsk \<Longrightarrow> fst (after_deny env ctx call h carried) = []"
  by (auto simp: after_deny_def decide_stage_def ask_stage_def mode_stage_dontAsk Let_def split: sum.splits bool.splits)

lemma fst_evaluate: "fst (evaluate env ctx call) = fst (evaluateStages env ctx call)"
  by (auto simp: evaluate_def split: prod.splits sum.splits eval_error.splits)

lemma evaluate_consults_dontAsk: "mode_of ctx = DontAsk \<Longrightarrow> fst (evaluate env ctx call) = [PreToolUseHook]"
  by (auto simp: fst_evaluate evaluateStages_def after_deny_dontAsk Let_def split: sum.splits option.splits)


lemma stamp_only:
  assumes "stampExplicitApproval env ctx call r = Inr r'"
  shows "\<exists>approved. r' = r\<lparr>dr_explicitApproval := approved\<rparr>"
proof (cases "dr_decision r \<noteq> DAllow \<or> tool_of call \<noteq> WEB_FETCH_TOOL")
  case True
  then have "r' = r\<lparr>dr_explicitApproval := dr_explicitApproval r\<rparr>" using assms by (simp add: stampExplicitApproval_def)
  then show ?thesis by blast
next
  case False
  let ?c = "case dr_transformedInput r of Some i \<Rightarrow> call\<lparr>pc_call := (pc_call call)\<lparr>call_input := i\<rparr>\<rparr> | None \<Rightarrow> call"
  obtain rule where f: "findExactHostAllowRule env ctx ?c = Inr rule"
    using assms False by (cases "findExactHostAllowRule env ctx ?c") (simp_all add: stampExplicitApproval_def Let_def)
  have "r' = r\<lparr>dr_explicitApproval :=
      if rule \<noteq> None then Some ApprovedByRule else if dr_promptAnswered r then Some ApprovedByPrompt else dr_explicitApproval r\<rparr>"
    using assms False by (cases rule; cases "dr_promptAnswered r") (auto simp: stampExplicitApproval_def Let_def f)
  then show ?thesis by blast
qed

lemma stamp_keeps:
  "stampExplicitApproval env ctx call r = Inr r' \<Longrightarrow> dr_decision r' = dr_decision r \<and> dr_mechanism r' = dr_mechanism r"
  by (auto dest!: stamp_only)

lemma stamp_rule:
  "stampExplicitApproval env ctx call r = Inr r' \<Longrightarrow> dr_ruleRef r' = dr_ruleRef r \<and> dr_source r' = dr_source r"
  by (auto dest!: stamp_only)

lemma evaluate_Inr:
  assumes "evaluate env ctx call = (consulted, Inr r)"
  obtains (staged) r' where "evaluateStages env ctx call = (consulted, Inr r')" "dr_decision r = dr_decision r'" "dr_mechanism r = dr_mechanism r'"
      "stampExplicitApproval env ctx call r' = Inr r"
    | (crashed) e where "evaluateStages env ctx call = (consulted, Inl (CompileError e))" "r = crash_record ctx call"
proof -
  obtain seen outcome where e: "evaluateStages env ctx call = (seen, outcome)" by fastforce
  show ?thesis
  proof (cases outcome)
    case (Inl err)
    then obtain x where "err = CompileError x" "seen = consulted" "r = crash_record ctx call"
      using assms e by (cases err) (auto simp: evaluate_def)
    then show ?thesis using e Inl that(2) by blast
  next
    case (Inr r')
    then have "stampExplicitApproval env ctx call r' = Inr r" "seen = consulted" using assms e by (auto simp: evaluate_def)
    then show ?thesis using stamp_keeps [of env ctx call r' r] e Inr that(1) by blast
  qed
qed

lemma crash_record_simps [simp]:
  "dr_decision (crash_record ctx call) = DDeny" "dr_mechanism (crash_record ctx call) = MCrash"
  by (simp_all add: crash_record_def)

text \<open>The run after the PreToolUse hook, as far as rules and web targets do not settle it.\<close>

lemma evaluateStages_cases:
  assumes "evaluateStages env ctx call = (consulted, Inr r)"
  obtains (hook) "hd_decision (cx_preToolUse ctx call) = HookDeny" "dr_decision r = DDeny" "consulted = [PreToolUseHook]"
    | (deny) "deny_stage env ctx (effective_call call (cx_preToolUse ctx call)) (hd_transformedInput (cx_preToolUse ctx call)) = Inr (Some r)"
        "consulted = [PreToolUseHook]"
    | (later) tail where
        "deny_stage env ctx (effective_call call (cx_preToolUse ctx call)) (hd_transformedInput (cx_preToolUse ctx call)) = Inr None"
        "consulted = PreToolUseHook # tail"
        "after_deny env ctx (effective_call call (cx_preToolUse ctx call)) (cx_preToolUse ctx call) (hd_transformedInput (cx_preToolUse ctx call)) = (tail, Inr r)"
  using assms
  by (cases "after_deny env ctx (effective_call call (cx_preToolUse ctx call)) (cx_preToolUse ctx call) (hd_transformedInput (cx_preToolUse ctx call))")
    (auto simp: evaluateStages_def Let_def split: if_splits sum.splits option.splits)

lemma after_deny_cases:
  assumes "after_deny env ctx call h carried = (consulted, Inr r)"
  obtains (deferred) "hd_decision h = HookDefer" "r = forced_defer ctx h carried" "consulted = []"
    | (ask) causes target where "must_ask causes" "ask_stage ctx call causes target carried = (consulted, r)"
    | (decide) "decide_stage env ctx call h carried = (consulted, Inr r)"
        "firstSuspiciousWritePath env ctx call = None" "hd_decision h \<noteq> HookAsk"
        "private_target_of env ctx call = None \<or> (\<exists>e. findExactHostAllowRule env ctx call = Inr (Some e))"
        "findMatchingRuleEntry env ctx (ps_rules (cx_policy ctx)) call BAsk None = Inr None"
proof (cases "hd_decision h = HookDefer")
  case True
  then show ?thesis using assms that(1) by (auto simp: after_deny_def Let_def split: sum.splits)
next
  case False
  obtain exactRule where x: "(if private_target_of env ctx call = None then Inr None else findExactHostAllowRule env ctx call) = Inr exactRule"
    using assms by (auto simp: after_deny_def Let_def split: sum.splits)
  obtain askEntry where a: "findMatchingRuleEntry env ctx (ps_rules (cx_policy ctx)) call BAsk None = Inr askEntry"
    using assms False x by (auto simp: after_deny_def Let_def split: sum.splits)
  let ?target = "private_target_of env ctx call"
  let ?causes = "causes_of env ctx call h (if exactRule = None then ?target else None) askEntry"
  have run: "(if must_ask ?causes then map_prod id Inr (ask_stage ctx call ?causes ?target carried) else decide_stage env ctx call h carried) = (consulted, Inr r)"
    using assms False x a by (simp add: after_deny_def Let_def)
  show ?thesis
  proof (cases "must_ask ?causes")
    case True
    then have "ask_stage ctx call ?causes ?target carried = (consulted, r)"
      using run by (cases "ask_stage ctx call ?causes ?target carried") auto
    then show ?thesis using that(2) True by blast
  next
    case no: False
    then have "firstSuspiciousWritePath env ctx call = None" "hd_decision h \<noteq> HookAsk" "askEntry = None"
      "exactRule = None \<longrightarrow> ?target = None"
      by (auto simp: must_ask_def causes_of_def split: if_splits)
    then show ?thesis using that(3) run no x a by (auto split: if_splits)
  qed
qed


definition nobody_answers :: "evaluation_context \<Rightarrow> bool" where
  "nobody_answers ctx \<longleftrightarrow> (\<forall>call meta. cx_permissionRequest ctx call meta = None \<and> cx_prompt ctx call meta = None)"

locale asking_stage =
  fixes ctx :: evaluation_context and stage :: "consultation list \<times> decision_record"
  assumes allow_or_deny: "dr_decision (snd stage) \<in> {DAllow, DDeny}"
    and quiet_denies: "fst stage = [] \<Longrightarrow> dr_decision (snd stage) = DDeny"
    and unheard_denies: "nobody_answers ctx \<Longrightarrow> Person \<in> set (fst stage) \<Longrightarrow> dr_decision (snd stage) = DDeny"
    and asks_first: "fst stage \<noteq> [] \<Longrightarrow> hd (fst stage) = RequestHook \<or> hd (fst stage) = Classifier \<and> mode_of ctx \<in> {Auto, Plan}"
    and allow_mechanism: "dr_decision (snd stage) = DAllow \<Longrightarrow> dr_mechanism (snd stage) \<in> {MHook, MCanUseTool, MAutoEngine}"
begin

lemma run_decides: "stage = (consulted, r) \<Longrightarrow> dr_decision r = DAllow \<or> dr_decision r = DDeny"
  using allow_or_deny by auto

lemma run_allow:
  assumes "stage = (consulted, r)" "dr_decision r = DAllow"
  shows "\<exists>who others. consulted = who # others \<and> (who = RequestHook \<or> who = Classifier \<and> mode_of ctx \<in> {Auto, Plan})"
  using assms quiet_denies asks_first by (cases consulted) auto

lemma run_mechanism: "stage = (consulted, r) \<Longrightarrow> dr_decision r = DAllow \<Longrightarrow> dr_mechanism r \<notin> {MRule, MMode, MCrash}"
  using allow_mechanism by auto

lemma run_unheard: "stage = (consulted, r) \<Longrightarrow> nobody_answers ctx \<Longrightarrow> Person \<in> set consulted \<Longrightarrow> dr_decision r = DDeny"
  using unheard_denies by auto

end

lemma map_prod_run [simp]: "map_prod id Inr p = (consulted, Inr r) \<longleftrightarrow> p = (consulted, r)"
  by (cases p) auto

lemma ask_in_turn_stage:
  assumes "dr_decision unanswered = DDeny"
  shows "asking_stage ctx (ask_in_turn ctx call meta carried unanswered)"
  using assms
  by unfold_locales
    (auto simp: ask_in_turn_def nobody_answers_def tryPermissionRequestHook_def buildRecordFromPromptResult_def
      markPromptAnswered_def Let_def split: option.splits answer.splits)

interpretation asked: asking_stage ctx "ask_stage ctx call causes target carried"
  for ctx call causes target carried
  by (cases "mode_of ctx = DontAsk")
    (auto simp: ask_stage_def intro!: ask_in_turn_stage asking_stage.intro)

interpretation escape: asking_stage ctx "resolveSandboxEscape ctx call carried reason"
  for ctx call carried reason
  by (cases "mode_of ctx = DontAsk")
    (auto simp: resolveSandboxEscape_def intro!: ask_in_turn_stage asking_stage.intro)

lemma ask_in_turn_unanswered:
  "nobody_answers ctx \<Longrightarrow> ask_in_turn ctx call meta carried unanswered = ([RequestHook, Person], unanswered)"
  by (simp add: ask_in_turn_def nobody_answers_def tryPermissionRequestHook_def)

lemma auto_decision_stage:
  assumes m: "mode_of ctx = Auto"
  shows "asking_stage ctx (resolveAutoDecision ctx call carried)"
proof -
  let ?ask = "ask_in_turn ctx call (plain_meta call AUTO_FALLBACK_REASON) carried (denial MAutoEngine (version_of ctx) carried AUTO_FALLBACK_UNANSWERED)"
  have a: "asking_stage ctx ?ask" by (rule ask_in_turn_stage) simp
  obtain asked r where e: "?ask = (asked, r)" by fastforce
  show "asking_stage ctx (resolveAutoDecision ctx call carried)"
    using a m by (auto simp: resolveAutoDecision_def asking_stage_def blocked_by_classifier_def e Let_def)
qed

lemma classified_stage:
  assumes "asking_stage ctx later" "mode_of ctx = Plan"
  shows "asking_stage ctx (classify_in_plan ctx call carried later)"
  using assms by (auto simp: classify_in_plan_def asking_stage_def blocked_by_classifier_def split: auto_verdict.splits)

interpretation prompted: asking_stage ctx "must_prompt ctx call carried esc message blocked orig"
  for ctx call carried esc message blocked orig
proof -
  have a: "asking_stage ctx (ask_in_turn ctx call meta carried (denial MMode (version_of ctx) carried message))" for meta
    by (rule ask_in_turn_stage) simp
  show "asking_stage ctx (must_prompt ctx call carried esc message blocked orig)"
    by (simp add: must_prompt_def Let_def auto_decision_stage a classified_stage)
qed

interpretation unmatched: asking_stage ctx "unmatched_stage ctx call carried esc gate"
  for ctx call carried esc gate
proof -
  have a: "asking_stage ctx (ask_in_turn ctx call meta carried (denial MMode (version_of ctx) carried message))" for meta message
    by (rule ask_in_turn_stage) simp
  have d: "asking_stage ctx ([], denial MMode (version_of ctx) carried message)" for message
    by unfold_locales simp_all
  show "asking_stage ctx (unmatched_stage ctx call carried esc gate)"
    by (simp add: unmatched_stage_def Let_def auto_decision_stage escape.asking_stage_axioms a d classified_stage)
qed


lemma allow_stage_cases:
  assumes "allow_stage env ctx call carried esc gate = (consulted, Inr r)"
  obtains (rule) e where "findMatchingRuleEntry env ctx (ps_rules (cx_policy ctx)) call BAllow (auto_skip ctx) = Inr (Some e)"
      "gate = None" "consulted = []"
      "r = (record_of DAllow MRule (version_of ctx) carried)\<lparr>dr_source := Some (entry_source e), dr_ruleRef := Some (formatRuleRef e)\<rparr>"
    | (unmatched) "unmatched_stage ctx call carried esc gate = (consulted, r)"
proof -
  obtain entry where e: "findMatchingRuleEntry env ctx (ps_rules (cx_policy ctx)) call BAllow (auto_skip ctx) = Inr entry"
    using assms by (auto simp: allow_stage_def split: sum.splits)
  show ?thesis
    using assms that by (cases entry; cases gate) (auto simp: allow_stage_def e)
qed

lemma mode_stage_cases:
  assumes "mode_stage env ctx call carried = (consulted, Inr r)"
  obtains (by_mode) reason where "evaluateModeStage env ctx call (mode_of ctx) = Inr (ModeAllow reason)"
        "isSandboxEscape ctx call \<Longrightarrow> mode_of ctx = BypassPermissions" "consulted = []" "dr_decision r = DAllow" "dr_mechanism r = MMode"
    | (refused) "consulted = []" "dr_decision r = DDeny" "dr_mechanism r = MMode"
    | (prompted) message blocked orig where "evaluateModeStage env ctx call (mode_of ctx) = Inr (MustPrompt message blocked orig)"
        "must_prompt ctx call carried (isSandboxEscape ctx call) message blocked orig = (consulted, r)"
    | (later) result where "evaluateModeStage env ctx call (mode_of ctx) = Inr result" "result = Unresolved \<or> (\<exists>reason. result = ModeAllow reason)"
        "allow_stage env ctx call carried (isSandboxEscape ctx call) (shellPathConstraint env ctx call) = (consulted, Inr r)"
proof -
  obtain result where e: "evaluateModeStage env ctx call (mode_of ctx) = Inr result"
    using assms by (auto simp: mode_stage_def Let_def split: sum.splits)
  note run = assms [unfolded mode_stage_def Let_def e, simplified]
  show ?thesis
  proof (cases result)
    case (ModeAllow reason)
    then show ?thesis using run e that(1,4) by (auto split: if_splits)
  next
    case (ModeDeny message)
    then show ?thesis using run that(2) by auto
  next
    case (MustPrompt message blocked orig)
    then show ?thesis
      using run e that(3) by (cases "must_prompt ctx call carried (isSandboxEscape ctx call) message blocked orig") auto
  next
    case Unresolved
    then show ?thesis using run e that(4) by auto
  qed
qed

lemma decide_stage_cases:
  assumes "decide_stage env ctx call h carried = (consulted, Inr r)"
  obtains (hook) "hd_decision h = HookAllow" "hook_may_allow env ctx call = Inr True" "consulted = []"
      "dr_decision r = DAllow" "dr_mechanism r = MHook"
    | (mode) "mode_stage env ctx call carried = (consulted, Inr r)"
proof -
  obtain b where b: "(if hd_decision h = HookAllow then hook_may_allow env ctx call else Inr False) = Inr b"
    using assms by (auto simp: decide_stage_def split: sum.splits)
  then show ?thesis using assms that by (cases b) (auto simp: decide_stage_def split: if_splits)
qed

lemma decide_allow_or_deny:
  "decide_stage env ctx call h carried = (consulted, Inr r) \<Longrightarrow> dr_decision r \<in> {DAllow, DDeny}"
  by (elim decide_stage_cases mode_stage_cases allow_stage_cases)
    (auto dest: unmatched.run_decides prompted.run_decides)

lemma deny_stage_allow_or_deny:
  "deny_stage env ctx call carried = Inr (Some r) \<Longrightarrow> dr_decision r \<in> {DAllow, DDeny}"
  by (auto simp: deny_stage_def web_stage_def unfetchable_allowed_def split: option.splits if_splits)

text \<open>
  C5: under the mode \<open>dontAsk\<close> nobody is ever asked: the run consults the PreToolUse hook only, never a
  request hook, a person or the classifier, and it ends with an allow or a deny, never with a pending approval.
\<close>

theorem dontAsk_never_asks:
  assumes "mode_of ctx = DontAsk"
  shows "fst (evaluate env ctx call) = [PreToolUseHook]
    \<and> (\<forall>r. snd (evaluate env ctx call) = Inr r \<longrightarrow> dr_decision r \<in> {DAllow, DDeny})"
proof (intro conjI allI impI)
  show "fst (evaluate env ctx call) = [PreToolUseHook]" using assms by (rule evaluate_consults_dontAsk)
  fix r assume "snd (evaluate env ctx call) = Inr r"
  then obtain consulted where "evaluate env ctx call = (consulted, Inr r)" by (metis prod.collapse)
  then show "dr_decision r \<in> {DAllow, DDeny}"
  proof (cases rule: evaluate_Inr)
    case (staged r')
    from staged(1) have "dr_decision r' \<in> {DAllow, DDeny}"
    proof (cases rule: evaluateStages_cases)
      case (later tail)
      from later(3) show ?thesis
      proof (cases rule: after_deny_cases)
        case deferred
        then show ?thesis using assms by (simp add: forced_defer_def)
      next
        case (ask causes target)
        then show ?thesis using asked.run_decides by blast
      qed (rule decide_allow_or_deny)
    qed (auto dest: deny_stage_allow_or_deny)
    then show ?thesis using staged by simp
  qed simp
qed

abbreviation effective :: "evaluation_context \<Rightarrow> permission_call \<Rightarrow> permission_call" where
  "effective ctx call \<equiv> effective_call call (cx_preToolUse ctx call)"

lemma effective_tool [simp]: "tool_of (effective_call call h) = tool_of call"
  by (auto simp: effective_call_def split: option.splits)

lemma decide_allowed:
  assumes "decide_stage env ctx call h carried = (consulted, Inr r)" "dr_decision r = DAllow"
  obtains (asked) stage where "asking_stage ctx stage" "stage = (consulted, r)"
    | (hook) "consulted = []" "dr_mechanism r = MHook" "hook_may_allow env ctx call = Inr True"
    | (mode) reason where "consulted = []" "dr_mechanism r = MMode" "evaluateModeStage env ctx call (mode_of ctx) = Inr (ModeAllow reason)"
        "isSandboxEscape ctx call \<Longrightarrow> mode_of ctx = BypassPermissions"
    | (rule) e result where "consulted = []" "dr_mechanism r = MRule" "shellPathConstraint env ctx call = None"
        "findMatchingRuleEntry env ctx (ps_rules (cx_policy ctx)) call BAllow (auto_skip ctx) = Inr (Some e)"
        "dr_ruleRef r = Some (formatRuleRef e)" "dr_source r = Some (entry_source e)"
        "evaluateModeStage env ctx call (mode_of ctx) = Inr result" "result = Unresolved \<or> (\<exists>reason. result = ModeAllow reason)"
  using assms(1)
proof (cases rule: decide_stage_cases)
  case hook
  then show ?thesis using that(2) by blast
next
  case mode
  then show ?thesis
  proof (cases rule: mode_stage_cases)
    case (by_mode reason)
    then show ?thesis using that(3) by blast
  next
    case (prompted message blocked orig)
    then show ?thesis using that(1) prompted.asking_stage_axioms by blast
  next
    case (later result)
    from later(3) show ?thesis
    proof (cases rule: allow_stage_cases)
      case (rule e)
      then show ?thesis using that(4) [of e result] later(1,2) by simp
    next
      case unmatched
      then show ?thesis using that(1) unmatched.asking_stage_axioms by blast
    qed
  qed (use assms(2) in simp)
qed

text \<open>The ways a call is allowed: by an answer, or silently by the later stages.\<close>

lemma allowed_cases:
  assumes "evaluate env ctx call = (consulted, Inr r)" "dr_decision r = DAllow"
  obtains (unfetchable) "certainlyUnfetchableWebFetchTarget env (effective ctx call) \<noteq> None" "consulted = [PreToolUseHook]" "dr_mechanism r = MMode"
    | (asked) who others where "consulted = PreToolUseHook # who # others" "who = RequestHook \<or> who = Classifier \<and> mode_of ctx \<in> {Auto, Plan}"
        "dr_mechanism r \<notin> {MRule, MMode, MCrash}"
    | (silent) r' carried where "consulted = [PreToolUseHook]" "dr_decision r' = DAllow"
        "stampExplicitApproval env ctx call r' = Inr r"
        "deny_stage env ctx (effective ctx call) carried = Inr None"
        "decide_stage env ctx (effective ctx call) (cx_preToolUse ctx call) carried = ([], Inr r')"
        "private_target_of env ctx (effective ctx call) = None \<or> (\<exists>e. findExactHostAllowRule env ctx (effective ctx call) = Inr (Some e))"
        "firstSuspiciousWritePath env ctx (effective ctx call) = None"
        "findMatchingRuleEntry env ctx (ps_rules (cx_policy ctx)) (effective ctx call) BAsk None = Inr None"
proof -
  note unfetchable_case = that(1) and asked_case = that(2) and silent_case = that(3)
  from assms(1) obtain r' where s: "evaluateStages env ctx call = (consulted, Inr r')" "dr_decision r' = DAllow"
      "dr_mechanism r = dr_mechanism r'" "stampExplicitApproval env ctx call r' = Inr r"
    by (cases rule: evaluate_Inr) (use assms(2) in auto)
  from s(1) show ?thesis
  proof (cases rule: evaluateStages_cases)
    case deny
    then have "certainlyUnfetchableWebFetchTarget env (effective ctx call) \<noteq> None \<and> dr_mechanism r' = MMode"
      using s(2) by (auto simp: deny_stage_def web_stage_def unfetchable_allowed_def split: option.splits if_splits)
    then show ?thesis using unfetchable_case deny(2) s(3) by auto
  next
    case (later tail)
    have by_answer: ?thesis if "asking_stage ctx stage" "stage = (tail, r')" for stage
      using asking_stage.run_allow [OF that s(2)] asking_stage.run_mechanism [OF that s(2)] later(2) s(3) asked_case by fastforce
    from later(3) show ?thesis
    proof (cases rule: after_deny_cases)
      case deferred
      then show ?thesis using s(2) by (simp add: forced_defer_def split: if_splits)
    next
      case (ask causes target)
      then show ?thesis using by_answer asked.asking_stage_axioms by blast
    next
      case decide
      show ?thesis
      proof (cases "tail = []")
        case True
        then show ?thesis using silent_case [OF _ s(2) s(4) later(1)] decide later(2) by simp
      next
        case False
        from decide(1) s(2) show ?thesis by (cases rule: decide_allowed) (use False by_answer in auto)
      qed
    qed
  qed (use s in auto)
qed

lemma shell_not_webfetch: "isShellCall call \<Longrightarrow> tool_of call \<noteq> WEB_FETCH_TOOL"
  by (auto simp: isShellCall_def WEB_FETCH_TOOL_def)

lemma unfetchable_is_webfetch: "certainlyUnfetchableWebFetchTarget env call \<noteq> None \<Longrightarrow> tool_of call = WEB_FETCH_TOOL"
  by (auto simp: certainlyUnfetchableWebFetchTarget_def split: if_splits)

lemma dangerous_mode_stage:
  assumes "isShellCall call" "cr_critical (check_critical env ctx call) \<or> check_protected env ctx call = Inr True"
    and "evaluateModeStage env ctx call mode = Inr result"
  shows "(\<exists>m. result = ModeDeny m) \<or> (\<exists>m b orig. result = MustPrompt m b orig)"
  using assms
  by (auto simp: evaluateModeStage_def resolveCriticalRemoval_def resolveProtectedWrite_def Let_def split: if_splits)

lemma dangerous_no_hook_allow:
  "cr_critical (check_critical env ctx call) \<or> check_protected env ctx call = Inr True \<Longrightarrow> hook_may_allow env ctx call \<noteq> Inr True"
  by (auto simp: hook_may_allow_def)

text \<open>
  C2: a shell command that removes something critical, or writes a protected path, is never allowed
  silently: no allow rule, no allowing hook and no mode, bypass included, lets it through; if it is allowed, then a
  request hook or a person was asked, or, in the automatic and plan modes, the classifier.
\<close>

theorem dangerous_shell_never_silent:
  assumes "isShellCall call"
    and "cr_critical (check_critical env ctx (effective ctx call)) \<or> check_protected env ctx (effective ctx call) = Inr True"
    and "evaluate env ctx call = (consulted, Inr r)" "dr_decision r = DAllow"
  shows "\<exists>who others. consulted = PreToolUseHook # who # others
    \<and> (who = RequestHook \<or> who = Classifier \<and> mode_of ctx \<in> {Auto, Plan})"
  using assms(3,4)
proof (cases rule: allowed_cases)
  case unfetchable
  then show ?thesis using unfetchable_is_webfetch shell_not_webfetch [OF assms(1)] by fastforce
next
  case (silent r' carried)
  have shell: "isShellCall (effective ctx call)" using assms(1) by (simp add: isShellCall_def)
  from silent(5,2) show ?thesis
    by (cases rule: decide_allowed)
      (use dangerous_no_hook_allow [OF assms(2)] dangerous_mode_stage [OF shell assms(2)] in \<open>auto dest: asking_stage.run_allow [OF _ _ silent(2)]\<close>)
qed blast

text \<open>
  C6: silence is a denial: when neither a request hook nor a prompt handler answers, every run that came
  to asking a person ends with a denial.
\<close>

theorem unanswered_is_denied:
  assumes "nobody_answers ctx" "evaluate env ctx call = (consulted, Inr r)" "Person \<in> set consulted"
  shows "dr_decision r = DDeny"
proof -
  have unheard: "dr_decision r' = DDeny" if "asking_stage ctx stage" "stage = (tail, r')" "Person \<in> set tail" for stage tail r'
    using asking_stage.run_unheard [OF that(1,2) assms(1) that(3)] .
  have decided: "dr_decision r' = DDeny" if d: "decide_stage env ctx c h carried = (tail, Inr r')" and p: "Person \<in> set tail" for c h carried tail r'
  proof (cases "dr_decision r' = DAllow")
    case True
    from d True show ?thesis by (cases rule: decide_allowed) (use p unheard in auto)
  next
    case False
    then show ?thesis using decide_allow_or_deny [OF d] by simp
  qed
  from assms(2) show ?thesis
  proof (cases rule: evaluate_Inr)
    case (staged r')
    from staged(1) have "dr_decision r' = DDeny"
    proof (cases rule: evaluateStages_cases)
      case (later tail)
      have "Person \<in> set tail" using later(2) assms(3) by simp
      from later(3) show ?thesis
      proof (cases rule: after_deny_cases)
        case (ask causes target)
        then show ?thesis using unheard [OF asked.asking_stage_axioms] \<open>Person \<in> set tail\<close> by blast
      qed (use \<open>Person \<in> set tail\<close> decided in auto)
    qed (use assms(3) in auto)
    then show ?thesis using staged by simp
  qed simp
qed

text \<open>
  C11: a private or loopback host is never fetched silently, unless the session allows private addresses:
  an allowed \<open>WebFetch\<close> of such a host was answered by a hook, a person or the classifier, or an allow rule names
  exactly that host, or the fetch tool is certain to refuse the URL without network access.
\<close>

theorem private_host_needs_approval:
  assumes "private_target_of env ctx (effective ctx call) = Some target"
    and "evaluate env ctx call = (consulted, Inr r)" "dr_decision r = DAllow"
  shows "(\<exists>who others. consulted = PreToolUseHook # who # others)
    \<or> certainlyUnfetchableWebFetchTarget env (effective ctx call) \<noteq> None
    \<or> (\<exists>e \<in> set (entries (ps_rules (cx_policy ctx))). entry_behavior e = BAllow \<and> isExactWebFetchDomainRule (entry_rule e) (pt_hostname target))"
  using assms(2,3)
proof (cases rule: allowed_cases)
  case (silent r' carried)
  then obtain e where e: "findExactHostAllowRule env ctx (effective ctx call) = Inr (Some e)" using assms(1) by auto
  obtain host where h: "webFetchHostnameOf (he_url env) (input_of (effective ctx call)) = Some host" "pt_hostname target = host"
    using assms(1) by (auto simp: private_target_of_def privateWebFetchTargetOf_def split: if_splits option.splits)
  have "findMatchingRuleEntry env ctx (ps_rules (cx_policy ctx)) (effective ctx call) BAllow
      (Some (\<lambda>entry. \<not> isExactWebFetchDomainRule (entry_rule entry) host)) = Inr (Some e)"
    using e h(1) by (simp add: findExactHostAllowRule_def split: if_splits)
  from lookup.found [OF this] show ?thesis using h(2) pool_entries
    by (auto simp: entry_considered_def skipped_def)
qed auto

lemma baseline_deny_tools: "isProjectsBaselineDeny env ctx e \<Longrightarrow> toolName (entry_rule e) \<in> {''Write'', ''Edit'', ''NotebookEdit''}"
  by (auto simp: isProjectsBaselineDeny_def PROJECTS_WRITE_FLOOR_TOOLS_def split: if_splits)

lemma carve_out_skips_baseline: "skipped (projectsCarveOutSkip env ctx call) e \<Longrightarrow> isProjectsBaselineDeny env ctx e"
  by (auto simp: skipped_def projectsCarveOutSkip_def workflowScriptCarveOutSkip_def memoryCarveOutSkip_def split: option.splits if_splits)

lemma stamp_denied [simp]: "dr_decision r \<noteq> DAllow \<Longrightarrow> stampExplicitApproval env ctx call r = Inr r"
  by (simp add: stampExplicitApproval_def)

text \<open>
  C3: a deny rule for Bash always wins. When one subcommand of the command, as written or after quote
  removal, matches a deny rule that is in force, the call is denied whatever the mode, the hooks, the allow rules, the
  classifier and the people in reach would answer, and nobody is asked.
\<close>

theorem bash_deny_always_wins:
  assumes "tool_of call = ''Bash''"
    and "e \<in> set (rule_pool ctx (ps_rules (cx_policy ctx)))" "entry_behavior e = BDeny"
    and "toolName (entry_rule e) = ''Bash''" "specifier (entry_rule e) = Some (Pattern source)"
    and "flattenSubcommands (command_text (input_of (effective ctx call))) = Some parts" "p \<in> set parts"
    and "txt \<in> {p, dequoted p}" "matchesRule (he_url env) (entry_rule e) (with_command (pc_call (effective ctx call)) txt) DenyAsk"
  shows "\<exists>r. evaluate env ctx call = ([PreToolUseHook], Inr r) \<and> dr_decision r = DDeny"
proof -
  let ?c = "effective ctx call"
  have kind: "fileRuleKindFor (tool_of ?c) = None" using assms(1) by (simp add: fileRuleKindFor_def)
  have "\<not> skipped (projectsCarveOutSkip env ctx ?c) e"
    using baseline_deny_tools carve_out_skips_baseline assms(4) by fastforce
  then have considered: "entry_considered ctx BDeny (projectsCarveOutSkip env ctx ?c) e" using assms(3) by (simp add: entry_considered_def)
  have "matchesRuleForCall env ctx (entry_rule e) ?c (behavior_direction BDeny)"
    using assms(1,4-9) by (auto simp: matchesRuleForCall_def bash_rule_matches_def SKILL_RULE_TOOL_def Let_def list_ex_iff behavior_direction_def)
  from lookup_other_tool_hits [OF kind assms(2) considered this] obtain e' where
    "findMatchingRuleEntry env ctx (ps_rules (cx_policy ctx)) ?c BDeny (projectsCarveOutSkip env ctx ?c) = Inr (Some e')" .
  then obtain r where "deny_stage env ctx ?c (hd_transformedInput (cx_preToolUse ctx call)) = Inr (Some r)" "dr_decision r = DDeny"
    by (simp add: deny_stage_def)
  then show ?thesis
    by (cases "hd_decision (cx_preToolUse ctx call) = HookDeny") (simp_all add: evaluate_def evaluateStages_def Let_def)
qed

text \<open>
  C9: an allow rule never stretches the reach of a shell command: a shell call that a rule allows writes
  only to targets inside the working directories, does not change directory before it writes, and names its targets literally.
\<close>

theorem rule_allow_respects_write_floor:
  assumes "isShellCall call" "shellCommandOf (pc_call (effective ctx call)) = Some command"
    and "evaluate env ctx call = (consulted, Inr r)" "dr_decision r = DAllow" "dr_mechanism r = MRule"
  shows "shellWriteConstraint command = None
    \<and> (shellWriteTargets ctx (effective ctx call) = []
       \<or> \<not> shellCommandChangesDirectory (effective ctx call)
         \<and> list_all (isShellTargetInWorkingDirs env ctx) (shellWriteTargets ctx (effective ctx call)))"
  using assms(3,4)
proof (cases rule: allowed_cases)
  case (silent r' carried)
  have m: "dr_mechanism r' = MRule" using stamp_keeps [OF silent(3)] assms(5) by simp
  have "shellPathConstraint env ctx (effective ctx call) = None"
    using silent(5,2) by (cases rule: decide_allowed) (use m asking_stage.run_mechanism [OF _ _ silent(2)] in \<open>fastforce+\<close>)
  then show ?thesis
    using assms(2) no_shell_write_approval [of env ctx "effective ctx call"]
    by (auto simp: shellPathConstraint_def list_all_iff split: option.splits)
qed (use assms(5) in auto)

lemma lookup_matched:
  "findMatchingRuleEntry env ctx rules call behavior skip = Inr (Some e) \<Longrightarrow>
     (\<exists>kind. fileRuleKindFor (tool_of call) = Some kind \<and> findMatchingFileRuleEntry env ctx rules call behavior kind skip = Inr (Some e))
     \<or> matchesRuleForCall env ctx (entry_rule e) call (behavior_direction behavior)"
  by (auto simp: findMatchingRuleEntry_def find_Some_iff Let_def split: option.splits)

text \<open>
  C12: in the automatic mode a suspended allow rule decides nothing. A call that a rule allows was matched by the very rule its record names:
  an allow rule in force for the session (of the managed settings only, where the session trusts no other, and not one of an untrusted project), found by the
  file rules for the call's path or matching the call, and not one of the suspended ones.
\<close>

theorem auto_mode_suspends_broad_rules:
  assumes "mode_of ctx = Auto" "evaluate env ctx call = (consulted, Inr r)" "dr_decision r = DAllow" "dr_mechanism r = MRule"
  shows "\<exists>e \<in> set (rule_pool ctx (ps_rules (cx_policy ctx))). entry_behavior e = BAllow
    \<and> \<not> (entry_source e = Project \<and> \<not> cx_trustedWorkspace ctx)
    \<and> dr_ruleRef r = Some (formatRuleRef e) \<and> dr_source r = Some (entry_source e)
    \<and> ((\<exists>kind. fileRuleKindFor (tool_of call) = Some kind
           \<and> findMatchingFileRuleEntry env ctx (ps_rules (cx_policy ctx)) (effective ctx call) BAllow kind (auto_skip ctx) = Inr (Some e))
       \<or> matchesRuleForCall env ctx (entry_rule e) (effective ctx call) Allow)
    \<and> \<not> isAutoSuspendedAllowRule (entry_rule e) (case ps_autoConfig (cx_policy ctx) of Some c \<Rightarrow> amc_classifyAllShell c = Some True | None \<Rightarrow> False)"
  using assms(2,3)
proof (cases rule: allowed_cases)
  case (silent r' carried)
  have m: "dr_mechanism r' = MRule" using stamp_keeps [OF silent(3)] assms(4) by simp
  obtain e where e: "findMatchingRuleEntry env ctx (ps_rules (cx_policy ctx)) (effective ctx call) BAllow (auto_skip ctx) = Inr (Some e)"
    "dr_ruleRef r' = Some (formatRuleRef e)" "dr_source r' = Some (entry_source e)"
    using silent(5,2) by (cases rule: decide_allowed) (use m asking_stage.run_mechanism [OF _ _ silent(2)] in \<open>fastforce+\<close>)
  have "\<not> skipped (auto_skip ctx) e" using lookup.found [OF e(1)] by (simp add: entry_considered_def)
  then have s: "\<not> isAutoSuspendedAllowRule (entry_rule e) (case ps_autoConfig (cx_policy ctx) of Some c \<Rightarrow> amc_classifyAllShell c = Some True | None \<Rightarrow> False)"
    using assms(1) by (simp add: skipped_def auto_skip_def)
  show ?thesis
    using lookup.found [OF e(1)] lookup_matched [OF e(1)] e(2,3) stamp_rule [OF silent(3)] s
    by (intro bexI [of _ e]) (simp_all add: entry_considered_def behavior_direction_def)
qed (use assms(4) in auto)

text \<open>
  C10: the modes let an edit pass on their own only inside the bounds: outside bypass and plan, an edit,
  write or notebook edit that the mode allows silently is made in the accept-edits or automatic mode, at a path that lies with
  its real target and the target of its link chain under a bounded root, and that is not protected. This holds for every answer of the sandbox to the
  engine's question, and for a context without that question.
\<close>

theorem accepted_edits_within_bounds:
  assumes "tool_of call \<in> {''Edit'', ''Write'', ''NotebookEdit''}" "mode_of ctx \<notin> {BypassPermissions, Plan}"
    and "cx_bashRunsSandboxed ctx \<in> {None, Some (bashRunsSandboxed autoAllow confined)}"
    and "evaluate env ctx call = (consulted, Inr r)" "dr_decision r = DAllow" "dr_mechanism r = MMode"
  shows "mode_of ctx \<in> {AcceptEdits, Auto} \<and> check_protected env ctx (effective ctx call) = Inr False
    \<and> (\<exists>p. input_of (effective ctx call) (fileRulePathField (tool_of call)) = Some (JStr p) \<and> isWithinBounds env ctx (trim p) = Inr True)"
proof -
  let ?c = "effective ctx call"
  from assms(4,5) obtain reason where m: "evaluateModeStage env ctx ?c (mode_of ctx) = Inr (ModeAllow reason)"
  proof (cases rule: allowed_cases)
    case unfetchable
    then have "tool_of call = WEB_FETCH_TOOL" using unfetchable_is_webfetch [of env ?c] by simp
    then show ?thesis using assms(1) by (simp add: WEB_FETCH_TOOL_def)
  next
    case (silent r' carried)
    have m: "dr_mechanism r' = MMode" using stamp_keeps [OF silent(3)] assms(6) by simp
    from silent(5,2) show ?thesis
      by (cases rule: decide_allowed) (use m that asking_stage.run_mechanism [OF _ _ silent(2)] in \<open>fastforce+\<close>)
  qed (use assms(6) in auto)
  have n: "\<not> isPreapprovedWebFetch env ?c" "isBashCallReadOnly ?c = False" "dedicatedReadToolPath ?c = None" "\<not> isTaskModeClassSilentAllow ?c"
    using assms(1) by (auto simp: isPreapprovedWebFetch_def WEB_FETCH_TOOL_def isBashCallReadOnly_def dedicatedReadToolPath_def
        isTaskModeClassSilentAllow_def TASK_MODE_CLASS_SILENT_ALLOW_def)
  then have ro: "isBuiltInReadOnly env ctx ?c = Inr False" by (simp add: isBuiltInReadOnly_def isReadWithinBounds_def)
  have sandboxed: "\<not> (case cx_bashRunsSandboxed ctx of Some f \<Rightarrow> f ?c | None \<Rightarrow> False)"
    using assms(1,3) by (auto simp: bashRunsSandboxed_def)
  have pr: "check_protected env ctx ?c = Inr False" and bm: "by_mode env ctx ?c (mode_of ctx) = Inr (ModeAllow reason)"
    using m assms(2) sandboxed n(1) by (auto simp: evaluateModeStage_def resolveCriticalRemoval_def resolveProtectedWrite_def Let_def split: if_splits)
  have gate: "shellPathConstraint env ctx ?c = None" using assms(1) by (auto simp: shellPathConstraint_def shellCommandOf_def)
  have a: "mode_of ctx \<in> {AcceptEdits, Auto}" "edit_within_bounds env ctx ?c = Inr True"
    using bm assms(2) ro n(4) gate by (auto simp: by_mode_def silent_allow_def accept_edit_def Let_def split: if_splits)
  have "tool_of ?c \<noteq> ''Monitor''" using assms(1) by auto
  then show ?thesis
    using a pr assms(1)
    by (auto simp: edit_within_bounds_def recognizeEditOperation_def split: option.splits json.splits if_splits)
qed

subsection \<open>Errors\<close>

definition no_fs_error :: "eval_error + 'a \<Rightarrow> bool" where
  "no_fs_error r \<longleftrightarrow> (\<forall>code. r \<noteq> Inl (FsError code))"

definition fs_answers :: "host_env \<Rightarrow> bool" where
  "fs_answers env \<longleftrightarrow> (\<forall>path. \<exists>target. resolveRealTarget (he_fs env) path = Inr target)"

named_theorems fs_error_free

lemma no_fs_error_basic [fs_error_free]:
  "no_fs_error (Inr a)" "no_fs_error (Inl (CompileError x))" "no_fs_error (map_sum CompileError f s)"
  by (cases s; simp add: no_fs_error_def)+

lemma no_fs_error_map [fs_error_free]: "no_fs_error r \<Longrightarrow> no_fs_error (map_sum id f r)"
  by (cases r) (auto simp: no_fs_error_def)

lemma no_fs_error_bind [fs_error_free]: "no_fs_error r \<Longrightarrow> (\<And>a. no_fs_error (f a)) \<Longrightarrow> no_fs_error (bind_result r f)"
  by (cases r) (auto simp: no_fs_error_def)

lemma no_fs_error_lists [fs_error_free]:
  "(\<And>x. no_fs_error (p x)) \<Longrightarrow> no_fs_error (some_result p xs)"
  "(\<And>x. no_fs_error (p x)) \<Longrightarrow> no_fs_error (every_result p xs)"
  "(\<And>x. no_fs_error (f x)) \<Longrightarrow> no_fs_error (first_result f xs)"
  by (induction xs) (auto intro!: fs_error_free split: option.splits)

lemma real_target_free [fs_error_free]: "fs_answers env \<Longrightarrow> no_fs_error (real_target env path)"
proof -
  assume "fs_answers env"
  then obtain target where "resolveRealTarget (he_fs env) path = Inr target" by (auto simp: fs_answers_def)
  then show ?thesis by (simp add: real_target_def no_fs_error_def)
qed

lemma matchedProtectedEnd_free [fs_error_free]: "fs_answers env \<Longrightarrow> no_fs_error (matchedProtectedEnd env path matcher)"
proof -
  assume "fs_answers env"
  then obtain target where "resolveRealTarget (he_fs env) path = Inr target" by (auto simp: fs_answers_def)
  then show ?thesis by (simp add: matchedProtectedEnd_def resolveSymlinkEnds_def no_fs_error_def)
qed

lemma candidate_free [fs_error_free]:
  "fs_answers env \<Longrightarrow> no_fs_error (protectedShellTargetPath env ctx path)"
  "fs_answers env \<Longrightarrow> no_fs_error (realProtectedWriteCandidate env ctx call)"
  "fs_answers env \<Longrightarrow> no_fs_error (check_protected env ctx call)"
  "fs_answers env \<Longrightarrow> no_fs_error (isWithinBounds env ctx path)"
  by (auto simp: protectedShellTargetPath_def realProtectedWriteCandidate_def check_protected_def isWithinBounds_def Let_def
      intro!: fs_error_free split: special_checks.splits option.splits)

lemma lookup_free [fs_error_free]:
  "no_fs_error (grouped_match env ctx candidates direction path)"
  "no_fs_error (match_with_alias env ctx candidates path)"
  "fs_answers env \<Longrightarrow> no_fs_error (findMatchingFileRuleEntry env ctx rules call behavior kind skip)"
  "fs_answers env \<Longrightarrow> no_fs_error (findMatchingRuleEntry env ctx rules call behavior skip)"
  by (auto simp: grouped_match_def match_with_alias_def findMatchingFileRuleEntry_def findMatchingRuleEntry_def Let_def
      intro!: fs_error_free split: option.splits)

lemma deny_checks_free [fs_error_free]:
  "fs_answers env \<Longrightarrow> no_fs_error (pattern_hits env ctx pattern path)"
  "fs_answers env \<Longrightarrow> no_fs_error (findFileDenyBlockingEdit env ctx call)"
  "no_fs_error (edit_stage_matched env ctx rules ends behavior)"
  "fs_answers env \<Longrightarrow> no_fs_error (crashCheckEditRulesDuringRead env ctx rules call kind)"
  by (auto simp: pattern_hits_def findFileDenyBlockingEdit_def blocking_entry_def edit_stage_matched_def
      crashCheckEditRulesDuringRead_def Let_def intro!: fs_error_free split: option.splits specifier.splits)

lemma mode_checks_free [fs_error_free]:
  "fs_answers env \<Longrightarrow> no_fs_error (isBuiltInReadOnly env ctx call)"
  "fs_answers env \<Longrightarrow> no_fs_error (edit_within_bounds env ctx call)"
  "fs_answers env \<Longrightarrow> no_fs_error (resolveProtectedWrite env ctx mode call)"
  "fs_answers env \<Longrightarrow> no_fs_error (hook_may_allow env ctx call)"
  "fs_answers env \<Longrightarrow> no_fs_error (findExactHostAllowRule env ctx call)"
  by (auto simp: isBuiltInReadOnly_def isReadWithinBounds_def edit_within_bounds_def resolveProtectedWrite_def hook_may_allow_def
      findExactHostAllowRule_def Let_def intro!: fs_error_free split: option.splits special_checks.splits)

lemma mode_stage_free [fs_error_free]:
  "fs_answers env \<Longrightarrow> no_fs_error (evaluateModeStage env ctx call mode)"
  by (auto simp: evaluateModeStage_def by_mode_def silent_allow_def accept_edit_def Let_def intro!: fs_error_free)

lemma deny_stage_free [fs_error_free]:
  "fs_answers env \<Longrightarrow> no_fs_error (deny_stage env ctx call carried)"
  by (auto simp: deny_stage_def intro!: fs_error_free split: option.splits)

lemma allow_stage_free: "fs_answers env \<Longrightarrow> no_fs_error (snd (allow_stage env ctx call carried esc gate))"
  using lookup_free(4) [of env ctx "ps_rules (cx_policy ctx)" call BAllow "auto_skip ctx"]
  by (auto simp: allow_stage_def no_fs_error_def split: sum.splits option.splits)

lemma mode_run_free: "fs_answers env \<Longrightarrow> no_fs_error (snd (mode_stage env ctx call carried))"
  using mode_stage_free [of env ctx call "mode_of ctx"] allow_stage_free [of env]
  by (auto simp: mode_stage_def no_fs_error_def Let_def split: sum.splits mode_result.splits)

lemma decide_stage_free: "fs_answers env \<Longrightarrow> no_fs_error (snd (decide_stage env ctx call h carried))"
  using mode_checks_free(4) [of env ctx call] mode_run_free [of env]
  by (auto simp: decide_stage_def no_fs_error_def split: sum.splits bool.splits if_splits)

lemma after_deny_free: "fs_answers env \<Longrightarrow> no_fs_error (snd (after_deny env ctx call h carried))"
  using mode_checks_free(5) [of env ctx call] decide_stage_free [of env]
    lookup_free(4) [of env ctx "ps_rules (cx_policy ctx)" call BAsk None]
  by (auto simp: after_deny_def no_fs_error_def Let_def split: sum.splits if_splits)

lemma evaluateStages_free: "fs_answers env \<Longrightarrow> no_fs_error (snd (evaluateStages env ctx call))"
  using deny_stage_free [of env ctx "effective ctx call" "hd_transformedInput (cx_preToolUse ctx call)"] after_deny_free [of env]
  by (auto simp: evaluateStages_def no_fs_error_def Let_def split: sum.splits option.splits)

lemma stamp_total: "\<exists>r'. stampExplicitApproval env ctx call r = Inr r'"
proof (cases "dr_decision r = DAllow \<and> tool_of call = WEB_FETCH_TOOL")
  case True
  have t: "\<exists>x. findExactHostAllowRule env ctx c = Inr x" if "tool_of c = WEB_FETCH_TOOL" for c
    using that by (auto simp: findExactHostAllowRule_def lookup_other_tool WEB_FETCH_TOOL_def fileRuleKindFor_def split: option.splits)
  let ?c = "case dr_transformedInput r of Some i \<Rightarrow> call\<lparr>pc_call := (pc_call call)\<lparr>call_input := i\<rparr>\<rparr> | None \<Rightarrow> call"
  have "tool_of ?c = WEB_FETCH_TOOL" using True by (simp split: option.splits)
  from t [OF this] obtain x where "findExactHostAllowRule env ctx ?c = Inr x" by blast
  then show ?thesis using True by (simp add: stampExplicitApproval_def Let_def)
qed (auto simp: stampExplicitApproval_def)

lemma evaluate_outcome:
  "(fs_answers env \<longrightarrow> no_fs_error (snd (evaluate env ctx call))) \<and> snd (evaluate env ctx call) \<noteq> Inl (CompileError x)
    \<and> (snd (evaluateStages env ctx call) = Inl (CompileError y) \<longrightarrow> (\<exists>r. snd (evaluate env ctx call) = Inr r \<and> dr_decision r = DDeny))"
proof -
  obtain seen outcome where e: "evaluateStages env ctx call = (seen, outcome)" by fastforce
  have free: "fs_answers env \<Longrightarrow> no_fs_error outcome" using evaluateStages_free [of env ctx call] e by simp
  show ?thesis
  proof (cases outcome)
    case (Inl err)
    then show ?thesis using e free by (cases err) (auto simp: evaluate_def no_fs_error_def)
  next
    case (Inr r)
    then show ?thesis using e stamp_total [of env ctx call r] by (auto simp: evaluate_def no_fs_error_def)
  qed
qed

text \<open>
  C4: every call gets a decision, or ends with an error that has a cause outside the pipeline. With parties that may throw, a run ends with a
  record, or with a file-system error, and then the file system did not answer, or with the error of the last party it consulted, all those before
  it having answered; so a call is always decided as long as the file system and the consulted parties answer. A rule that does not compile never escapes as an
  error: whether it shows in the stages or in a party, the call is denied.
\<close>

theorem every_call_is_decided:
  assumes "evaluate_throwing throws env ctx call = (consulted, outcome)"
  shows "(case outcome of
        Inr r \<Rightarrow> True
      | Inl (StageError (FsError code)) \<Rightarrow> \<not> fs_answers env
      | Inl (StageError (CompileError x)) \<Rightarrow> False
      | Inl (PartyError e) \<Rightarrow>
          consulted \<noteq> [] \<and> throws (last consulted) = Some (ThrownError e) \<and> list_all (\<lambda>party. throws party = None) (butlast consulted))
    \<and> (list_all (\<lambda>party. throws party = None) consulted \<and> snd (evaluateStages env ctx call) = Inl (CompileError x)
         \<longrightarrow> (\<exists>r. outcome = Inr r \<and> dr_decision r = DDeny))
    \<and> (consulted \<noteq> [] \<and> throws (last consulted) = Some RuleCompileError \<longrightarrow> (\<exists>r. outcome = Inr r \<and> dr_decision r = DDeny))"
proof -
  obtain seen result where e: "evaluate env ctx call = (seen, result)" by fastforce
  have plain: "fs_answers env \<Longrightarrow> result \<noteq> Inl (FsError code)" "result \<noteq> Inl (CompileError y)"
    "snd (evaluateStages env ctx call) = Inl (CompileError y) \<Longrightarrow> \<exists>r. result = Inr r \<and> dr_decision r = DDeny" for code y
    using evaluate_outcome [of env ctx call] e by (auto simp: no_fs_error_def)
  show ?thesis
  proof (cases "dropWhile (\<lambda>party. throws party = None) seen")
    case Nil
    then have quiet: "\<forall>party \<in> set seen. throws party = None" by (simp add: dropWhile_eq_Nil_conv)
    have r: "consulted = seen" "outcome = map_sum StageError id result" using assms e Nil by (simp_all add: evaluate_throwing_def Let_def)
    have last: "consulted \<noteq> [] \<Longrightarrow> throws (last consulted) = None" using quiet r(1) by simp
    show ?thesis
    proof (cases result)
      case (Inl err)
      then show ?thesis using r plain last by (cases err) auto
    next
      case (Inr d)
      then show ?thesis using r plain(3) [of x] last by auto
    qed
  next
    case (Cons party others)
    then have t: "throws party \<noteq> None" using hd_dropWhile [of "\<lambda>party. throws party = None" seen] by simp
    have r: "consulted = takeWhile (\<lambda>party. throws party = None) seen @ [party]"
      "outcome = (case the (throws party) of RuleCompileError \<Rightarrow> Inr (crash_record ctx call) | ThrownError e \<Rightarrow> Inl (PartyError e))"
      using assms e Cons by (simp_all add: evaluate_throwing_def Let_def)
    have q: "list_all (\<lambda>party. throws party = None) (takeWhile (\<lambda>party. throws party = None) seen)"
      by (auto simp: list_all_iff dest: set_takeWhileD)
    show ?thesis using t r q by (cases "the (throws party)") auto
  qed
qed

end
