(* ===== verification/Read_Probe.thy ===== *)
theory Read_Probe
  imports Pipeline_Safety
begin

text \<open>
  The read probe against the pipeline (\<^verbatim>\<open>permissions/evaluator.ts\<close>: \<open>probeReadAccess\<close>): the pipeline run on the synthetic
  Read call is abstracted to the three verdicts of the probe, stage by stage, and the probe refines it.
\<close>

definition verdict_of :: "run \<Rightarrow> eval_error + read_access_probe" where
  "verdict_of e =
     (if fst e \<noteq> [PreToolUseHook] then Inr ProbePrompt
      else map_sum id (\<lambda>r. if dr_decision r = DAllow then ProbeSilent else ProbeDeny) (snd e))"

lemma read_call_fields [simp]:
  "tool_of (read_call p) = ''Read''" "input_of (read_call p) = [''file_path'' \<mapsto> JStr p]"
  by (simp_all add: read_call_def)

lemma read_call_writes_nothing [simp]: "extractCandidateWritePaths ctx (read_call p) = []"
  by (simp add: extractCandidateWritePaths_def recognizeEditOperation_def shellCommandOf_def)

lemma read_call_checks [simp]:
  "projectsCarveOutSkip env ctx (read_call p) = None" "findFileDenyBlockingEdit env ctx (read_call p) = Inr None"
  "firstSuspiciousWritePath env ctx (read_call p) = None" "private_target_of env ctx (read_call p) = None"
  "isSandboxEscape ctx (read_call p) = False" "shellPathConstraint env ctx (read_call p) = None"
  "web_stage env ctx (read_call p) carried = None"
  by (simp_all add: projectsCarveOutSkip_def workflowScriptCarveOutSkip_def callIsEntirelyWorkflowScriptWrite_def
      memoryCarveOutSkip_def callIsEntirelyMemoryWrite_def findFileDenyBlockingEdit_def firstSuspiciousWritePath_def isShellCall_def
      private_target_of_def privateWebFetchTargetOf_def WEB_FETCH_TOOL_def isSandboxEscape_def shellPathConstraint_def shellCommandOf_def)

lemma ask_in_turn_asks [simp]: "fst (ask_in_turn ctx call meta carried unanswered) \<noteq> []"
  by (simp add: ask_in_turn_def split: option.splits)

lemma auto_decision_asks [simp]: "fst (resolveAutoDecision ctx call carried) \<noteq> []"
  by (simp add: resolveAutoDecision_def Let_def split: prod.splits)

lemma plan_asks [simp]: "fst (classify_in_plan ctx call carried later) \<noteq> []"
  by (simp add: classify_in_plan_def split: auto_verdict.splits)

lemma unmatched_verdict:
  "verdict_of (map_prod (Cons PreToolUseHook) id (map_prod id Inr (unmatched_stage ctx call carried False gate))) = Inr (ask_or_deny ctx)"
  by (auto simp: verdict_of_def unmatched_stage_def ask_or_deny_def Let_def)

lemma must_prompt_verdict:
  "mode_of ctx \<noteq> DontAsk \<Longrightarrow>
     verdict_of (map_prod (Cons PreToolUseHook) id (map_prod id Inr (must_prompt ctx call carried False m b orig))) = Inr ProbePrompt"
  by (auto simp: verdict_of_def must_prompt_def Let_def)

lemma ask_verdict:
  "verdict_of (map_prod (Cons PreToolUseHook) id (map_prod id Inr (ask_stage ctx call c target carried))) = Inr (ask_or_deny ctx)"
  by (auto simp: verdict_of_def ask_stage_def ask_or_deny_def)

lemma verdict_error [simp]: "verdict_of ([PreToolUseHook], Inl e) = Inl e"
  by (simp add: verdict_of_def)

lemma allow_verdict:
  "verdict_of (map_prod (Cons PreToolUseHook) id (allow_stage env ctx call carried False None)) =
     bind_result (findMatchingRuleEntry env ctx (ps_rules (cx_policy ctx)) call BAllow (auto_skip ctx)) (\<lambda>allowEntry.
       Inr (if allowEntry \<noteq> None then ProbeSilent else ask_or_deny ctx))"
  using unmatched_verdict [of ctx call carried None]
  by (auto simp: allow_stage_def verdict_of_def split: sum.splits option.splits)

lemma mode_verdict:
  "verdict_of (map_prod (Cons PreToolUseHook) id (mode_stage env ctx (read_call p) carried)) =
     bind_result (evaluateModeStage env ctx (read_call p) (mode_of ctx)) (\<lambda>modeResult.
       case modeResult of
         ModeAllow _ \<Rightarrow> Inr ProbeSilent
       | ModeDeny _ \<Rightarrow> Inr ProbeDeny
       | MustPrompt _ _ _ \<Rightarrow> Inr (ask_or_deny ctx)
       | Unresolved \<Rightarrow>
           bind_result (findMatchingRuleEntry env ctx (ps_rules (cx_policy ctx)) (read_call p) BAllow (auto_skip ctx)) (\<lambda>allowEntry.
             Inr (if allowEntry \<noteq> None then ProbeSilent else ask_or_deny ctx)))"
proof (cases "evaluateModeStage env ctx (read_call p) (mode_of ctx)")
  case (Inr result)
  show ?thesis
  proof (cases result)
    case (MustPrompt m b orig)
    then have "mode_of ctx \<noteq> DontAsk" using Inr evaluateModeStage_dontAsk by metis
    then show ?thesis using Inr MustPrompt must_prompt_verdict [of ctx] by (simp add: mode_stage_def ask_or_deny_def)
  qed (use Inr allow_verdict in \<open>simp_all add: mode_stage_def, simp_all add: verdict_of_def\<close>)
qed (simp add: mode_stage_def)

lemma stages_verdict:
  assumes "cx_preToolUse ctx (read_call p) = h" "hd_decision h = HookNoOpinion" "hd_transformedInput h = None"
    and "\<not> (case cx_requiresInteraction ctx of Some f \<Rightarrow> f ''Read'' | None \<Rightarrow> False)"
    and "crashCheckEditRulesDuringRead env ctx (ps_rules (cx_policy ctx)) (read_call p) ReadRules = Inr ()"
  shows "verdict_of (evaluateStages env ctx (read_call p)) = probeReadAccessStages env ctx p"
proof -
  let ?lookup = "\<lambda>b. findMatchingRuleEntry env ctx (ps_rules (cx_policy ctx)) (read_call p) b None"
  have kind: "fileRuleKindFor ''Read'' = Some ReadRules" by (simp add: fileRuleKindFor_def)
  have e: "effective_call (read_call p) h = read_call p" using assms(3) by (simp add: effective_call_def)
  have decide: "decide_stage env ctx (read_call p) h carried = mode_stage env ctx (read_call p) carried" for carried
    using assms(2) by (simp add: decide_stage_def)
  show ?thesis
  proof (cases "?lookup BDeny")
    case (Inr denied)
    show ?thesis
    proof (cases denied)
      case None
      have "deny_stage env ctx (read_call p) None = Inr None" using Inr None assms(5) kind by (simp add: deny_stage_def)
      then show ?thesis
        using assms Inr None
        by (auto simp: evaluateStages_def e after_deny_def causes_of_def must_ask_def decide probeReadAccessStages_def mode_verdict ask_verdict
            ASK_USER_QUESTION_TOOL_NAME_def Let_def split: sum.splits option.splits)
    next
      case (Some entry)
      then show ?thesis using Inr assms(1-3) by (simp add: evaluateStages_def e deny_stage_def probeReadAccessStages_def verdict_of_def)
    qed
  qed (use assms(1-3) in \<open>simp add: evaluateStages_def e deny_stage_def probeReadAccessStages_def\<close>)
qed

lemma verdict_evaluate:
  assumes "tool_of call \<noteq> WEB_FETCH_TOOL"
  shows "verdict_of (evaluate env ctx call) = (case verdict_of (evaluateStages env ctx call) of Inl (CompileError _) \<Rightarrow> Inr ProbeDeny | v \<Rightarrow> v)"
  using assms by (auto simp: evaluate_def verdict_of_def stampExplicitApproval_def split: prod.splits sum.splits eval_error.splits)

text \<open>
  C38: the read probe answers what a real read would do. When no hook has an opinion and the edit rules compile,
  the verdict of the probe is that of the pipeline on a Read of the path: silent when it allows without asking anybody, a denial
  when it denies without asking anybody, a prompt when it would ask, and the same file-system error.
\<close>

theorem probeReadAccess_refines_evaluate:
  assumes "cx_preToolUse ctx (read_call p) = h" "hd_decision h = HookNoOpinion" "hd_transformedInput h = None"
    and "\<not> (case cx_requiresInteraction ctx of Some f \<Rightarrow> f ''Read'' | None \<Rightarrow> False)"
    and "crashCheckEditRulesDuringRead env ctx (ps_rules (cx_policy ctx)) (read_call p) ReadRules = Inr ()"
  shows "verdict_of (evaluate env ctx (read_call p)) = probeReadAccess env ctx p"
  using stages_verdict [OF assms] by (simp add: verdict_evaluate WEB_FETCH_TOOL_def probeReadAccess_def)

end
