(* ===== verification/Sessions.thy ===== *)
theory Sessions
  imports Read_Probe
begin

text \<open>
  Concrete sessions for the pipeline: a host whose file system has no links, a policy given by its mode and rules, a hook and a
  prompt with fixed answers. They show that the hypotheses of the pipeline's properties hold together.
\<close>

definition plain_host :: host_env where
  "plain_host =
     \<lparr>he_fs = \<lparr>fs_realpath = Inr, fs_readlink = (\<lambda>_. None), fs_cwd = ''/w''\<rparr>,
      he_url = (\<lambda>t. if t = ''http://10.0.0.1/''
                 then Some \<lparr>href = t, hostname = ''10.0.0.1'', pathname = ''/'', protocol = ''http:'', username = [], password = [],
                            httpsHref = ''https://10.0.0.1/''\<rparr>
                 else None),
      he_interfaces = [],
      he_ignore = (\<lambda>patterns path. Inr \<lparr>ir_ignored = path \<in> set patterns, ir_rule = (if path \<in> set patterns then Some path else None)\<rparr>)\<rparr>"

definition hook_saying :: "hook_verdict \<Rightarrow> hook_decision" where
  "hook_saying v = \<lparr>hd_decision = v, hd_transformedInput = None, hd_message = None, hd_interrupt = None, hd_hookId = None\<rparr>"

definition approval :: prompt_decision where
  "approval = \<lparr>pd_decision = AnswerAllow, pd_transformedInput = None, pd_message = None, pd_interrupt = None,
     pd_updatedPermissions = None, pd_decisionClassification = None\<rparr>"

definition session_in ::
  "permission_mode \<Rightarrow> sourced_rule_entry list \<Rightarrow> hook_verdict \<Rightarrow> prompt_decision option \<Rightarrow> evaluation_context" where
  "session_in m rules v reply =
     \<lparr>cx_policy = \<lparr>ps_mode = m, ps_version = 1, ps_rules = \<lparr>entries = rules, set_mode = None, directories = []\<rparr>, ps_autoConfig = None\<rparr>,
      cx_cwd = ''/w'', cx_sessionRoot = ''/w'', cx_home = ''/h'', cx_trustedWorkspace = True, cx_managedOnly = False,
      cx_additionalDirectories = [], cx_sessionBypassEnabled = False, cx_skillIdentities = None, cx_winterHome = None,
      cx_storeHome = None, cx_outputsDir = None, cx_brand = None, cx_bashSandboxEscape = None, cx_bashRunsSandboxed = None,
      cx_requiresInteraction = None, cx_webFetchPrivateAddressPolicy = None, cx_preToolUse = (\<lambda>_. hook_saying v),
      cx_permissionRequest = (\<lambda>_ _. None), cx_prompt = (\<lambda>_ _. reply),
      cx_classify = (\<lambda>_. \<lparr>av_verdict = NoVerdict, av_fallbackToPrompt = False\<rparr>), cx_specialChecks = RealSpecialChecks\<rparr>"

definition user_rule :: "permission_behavior \<Rightarrow> string \<Rightarrow> specifier option \<Rightarrow> sourced_rule_entry" where
  "user_rule b tool spec =
     \<lparr>entry_rule = \<lparr>toolName = tool, specifier = spec, isBareEquivalent = (spec = None)\<rparr>, entry_behavior = b, entry_source = User,
      entry_ruleValue = \<lparr>rv_toolName = tool, rv_ruleContent = None\<rparr>, entry_sourceDir = None\<rparr>"

definition call_to :: "string \<Rightarrow> string \<Rightarrow> string \<Rightarrow> permission_call" where
  "call_to tool field txt =
     \<lparr>pc_call = \<lparr>call_toolName = tool, call_input = [field \<mapsto> JStr txt]\<rparr>, pc_toolUseId = None, pc_agentId = None\<rparr>"

lemma session_effective [simp]: "effective_call call (hook_saying v) = call"
  by (simp add: hook_saying_def effective_call_def)

lemma session_fields [simp]:
  "mode_of (session_in m rules v reply) = m" "entries (ps_rules (cx_policy (session_in m rules v reply))) = rules"
  "cx_preToolUse (session_in m rules v reply) call = hook_saying v" "hd_decision (hook_saying v) = v"
  "hd_transformedInput (hook_saying v) = None" "rule_pool (session_in m rules v reply) rs = entries rs"
  "cx_specialChecks (session_in m rules v reply) = RealSpecialChecks" "cx_cwd (session_in m rules v reply) = ''/w''"
  "cx_permissionRequest (session_in m rules v reply) call meta = None" "cx_prompt (session_in m rules v reply) call meta = reply"
  "cx_requiresInteraction (session_in m rules v reply) = None"
  by (simp_all add: session_in_def hook_saying_def rule_pool_def)

lemma call_to_fields [simp]:
  "tool_of (call_to tool field txt) = tool" "input_of (call_to tool field txt) = [field \<mapsto> JStr txt]"
  by (simp_all add: call_to_def)

lemma user_rule_fields [simp]:
  "toolName (entry_rule (user_rule b tool spec)) = tool" "specifier (entry_rule (user_rule b tool spec)) = spec"
  "entry_behavior (user_rule b tool spec) = b" "entry_source (user_rule b tool spec) = User"
  by (simp_all add: user_rule_def)

lemma plain_host_answers: "fs_answers plain_host"
  by (simp add: fs_answers_def plain_host_def resolveRealTarget.simps)

lemma fst_snd_run: "map_sum (\<lambda>_. ()) f (snd e) = Inr a \<Longrightarrow> \<exists>r. e = (fst e, Inr r) \<and> f r = a"
  by (cases e; cases "snd e") auto

theorem dontAsk_never_asks_witness:
  "mode_of (session_in DontAsk [] HookAsk None) = DontAsk
    \<and> fst (evaluate plain_host (session_in DontAsk [] HookAsk None) (call_to ''Bash'' ''command'' ''rm -rf /p'')) = [PreToolUseHook]"
  using dontAsk_never_asks [of "session_in DontAsk [] HookAsk None" plain_host "call_to ''Bash'' ''command'' ''rm -rf /p''"] by simp

lemma no_shell_rules:
  "isShellCall call \<Longrightarrow> deny_stage env (session_in m [] v reply) call carried = Inr (web_stage env (session_in m [] v reply) call carried)"
  by (auto simp: deny_stage_def lookup_other_tool isShellCall_def fileRuleKindFor_def findFileDenyBlockingEdit_def Let_def)

text \<open>A session whose PreToolUse hook throws.\<close>

definition hook_throws :: "consultation \<Rightarrow> string thrown option" where
  "hook_throws party = (if party = PreToolUseHook then Some (ThrownError ''unreachable'') else None)"

theorem every_call_is_decided_witness:
  "\<exists>consulted. evaluate_throwing hook_throws plain_host (session_in DontAsk [] HookAsk None) (call_to ''Bash'' ''command'' ''rm -rf /p'')
      = (consulted, Inl (PartyError ''unreachable'')) \<and> hook_throws (last consulted) = Some (ThrownError ''unreachable'')"
proof -
  let ?ctx = "session_in DontAsk [] HookAsk None" and ?call = "call_to ''Bash'' ''command'' ''rm -rf /p''"
  have "fst (evaluate plain_host ?ctx ?call) = [PreToolUseHook]" by (rule evaluate_consults_dontAsk) simp
  then have t: "evaluate_throwing hook_throws plain_host ?ctx ?call = ([PreToolUseHook], Inl (PartyError ''unreachable''))"
    by (cases "evaluate plain_host ?ctx ?call") (simp add: evaluate_throwing_def hook_throws_def)
  from every_call_is_decided [OF t] t show ?thesis by simp
qed

lemma shell_web [simp]: "isShellCall call \<Longrightarrow> web_stage env ctx call carried = None"
  by (auto simp: web_stage_def private_target_of_def privateWebFetchTargetOf_def unfetchable_allowed_def
      certainlyUnfetchableWebFetchTarget_def isShellCall_def WEB_FETCH_TOOL_def)

lemma shell_private [simp]: "isShellCall call \<Longrightarrow> private_target_of env ctx call = None"
  by (auto simp: private_target_of_def privateWebFetchTargetOf_def isShellCall_def WEB_FETCH_TOOL_def)

lemma stamp_shell: "isShellCall call \<Longrightarrow> stampExplicitApproval env ctx call r = Inr r"
  by (auto simp: stampExplicitApproval_def isShellCall_def WEB_FETCH_TOOL_def)

lemma asked_by_hook:
  assumes "isShellCall call" "m \<noteq> DontAsk"
  shows "\<exists>r. evaluate env (session_in m [] HookAsk reply) call = ([PreToolUseHook, RequestHook, Person], Inr r)
    \<and> dr_decision r = (case reply of None \<Rightarrow> DDeny | Some p \<Rightarrow> if pd_decision p = AnswerAllow then DAllow else DDeny)"
proof -
  let ?ctx = "session_in m [] HookAsk reply"
  have "findMatchingRuleEntry env ?ctx (ps_rules (cx_policy ?ctx)) call BAsk None = Inr None"
    using assms(1) by (auto simp: lookup_other_tool isShellCall_def fileRuleKindFor_def)
  then have "\<exists>r. evaluateStages env ?ctx call = ([PreToolUseHook, RequestHook, Person], Inr r)
    \<and> dr_decision r = (case reply of None \<Rightarrow> DDeny | Some p \<Rightarrow> if pd_decision p = AnswerAllow then DAllow else DDeny)"
    using assms
    by (auto simp: evaluateStages_def no_shell_rules after_deny_def causes_of_def must_ask_def ask_stage_def
        ask_in_turn_def tryPermissionRequestHook_def buildRecordFromPromptResult_def markPromptAnswered_def record_of_def
        unanswered_denial_def denial_def effective_call_def Let_def split: option.splits answer.splits)
  then show ?thesis using assms(1) by (auto simp: evaluate_def stamp_shell)
qed

theorem unanswered_is_denied_witness:
  "\<exists>consulted r. evaluate plain_host (session_in BypassPermissions [] HookAsk None) (call_to ''Bash'' ''command'' ''ls'') = (consulted, Inr r)
    \<and> dr_decision r = DDeny"
proof -
  let ?ctx = "session_in BypassPermissions [] HookAsk None" and ?call = "call_to ''Bash'' ''command'' ''ls''"
  have n: "nobody_answers ?ctx" by (simp add: nobody_answers_def)
  obtain r where "evaluate plain_host ?ctx ?call = ([PreToolUseHook, RequestHook, Person], Inr r)"
    using asked_by_hook [of ?call BypassPermissions plain_host None] by (auto simp: isShellCall_def)
  with unanswered_is_denied [OF n this] show ?thesis by auto
qed

lemma rm_p_critical: "cr_critical (check_critical plain_host (session_in m rules v reply) (call_to ''Bash'' ''command'' ''rm -rf /p''))"
proof -
  let ?part = "removal_of_part ''/w'' (removal_context (session_in m rules v reply)) ''rm -rf /p''"
  have "cr_critical (the_default not_critical ?part)" by code_simp
  then show ?thesis
    by (cases ?part) (simp_all add: check_critical_def real_isCriticalRemoval_def shellCommandOf_def isCriticalRemoval_def rm_p_flat
        call_to_def plain_host_def not_critical_def)
qed

theorem dangerous_shell_never_silent_witness:
  "cr_critical (check_critical plain_host (session_in BypassPermissions [] HookAsk (Some approval)) (call_to ''Bash'' ''command'' ''rm -rf /p''))
    \<and> (\<exists>r who others. evaluate plain_host (session_in BypassPermissions [] HookAsk (Some approval)) (call_to ''Bash'' ''command'' ''rm -rf /p'')
          = (PreToolUseHook # who # others, Inr r))"
proof -
  let ?ctx = "session_in BypassPermissions [] HookAsk (Some approval)" and ?call = "call_to ''Bash'' ''command'' ''rm -rf /p''"
  have s: "isShellCall ?call" by (simp add: isShellCall_def)
  obtain r consulted where e: "evaluate plain_host ?ctx ?call = (consulted, Inr r)" "dr_decision r = DAllow"
    using asked_by_hook [of ?call BypassPermissions plain_host "Some approval"] by (auto simp: isShellCall_def approval_def)
  have c: "cr_critical (check_critical plain_host ?ctx (effective ?ctx ?call)) \<or> check_protected plain_host ?ctx (effective ?ctx ?call) = Inr True"
    by (simp add: rm_p_critical)
  show ?thesis using dangerous_shell_never_silent [OF s c e] e(1) rm_p_critical by auto
qed

theorem private_host_needs_approval_witness:
  "\<exists>r who others. evaluate plain_host (session_in Default [] HookNoOpinion (Some approval)) (call_to ''WebFetch'' ''url'' ''http://10.0.0.1/'')
    = (PreToolUseHook # who # others, Inr r)"
proof -
  let ?ctx = "session_in Default [] HookNoOpinion (Some approval)" and ?call = "call_to ''WebFetch'' ''url'' ''http://10.0.0.1/''"
  have p: "map_option pt_hostname (private_target_of plain_host ?ctx ?call) = Some ''10.0.0.1''" by code_simp
  then obtain target where t: "private_target_of plain_host ?ctx (effective ?ctx ?call) = Some target" by auto
  have u: "certainlyUnfetchableWebFetchTarget plain_host ?call = None" by code_simp
  have "map_sum (\<lambda>_. ()) dr_decision (snd (evaluate plain_host ?ctx ?call)) = Inr DAllow" by code_simp
  then obtain r consulted where e: "evaluate plain_host ?ctx ?call = (consulted, Inr r)" "dr_decision r = DAllow"
    by (auto dest: fst_snd_run)
  show ?thesis using private_host_needs_approval [OF t e] u e(1) by auto
qed

theorem bash_deny_always_wins_witness:
  "\<exists>r. evaluate plain_host (session_in BypassPermissions [user_rule BDeny ''Bash'' (Some (Pattern ''touch *''))] HookAllow None)
      (call_to ''Bash'' ''command'' ''touch a'') = ([PreToolUseHook], Inr r) \<and> dr_decision r = DDeny"
proof -
  let ?e = "user_rule BDeny ''Bash'' (Some (Pattern ''touch *''))"
  let ?ctx = "session_in BypassPermissions [?e] HookAllow None" and ?call = "call_to ''Bash'' ''command'' ''touch a''"
  have m: "matchesRule (he_url plain_host) (entry_rule ?e) (with_command (pc_call ?call) ''touch a'') DenyAsk" by code_simp
  show ?thesis
    by (rule bash_deny_always_wins [of _ ?e _ "''touch *''" "[''touch a'']" "''touch a''" "''touch a''"])
      (use m touch_a_flat in \<open>simp_all add: command_text_def\<close>)
qed

theorem bash_rule_per_subcommand_witness:
  "matchesRuleForCall plain_host (session_in Default [] HookNoOpinion None) (entry_rule (user_rule BDeny ''Bash'' (Some (Pattern ''touch *''))))
     (call_to ''Bash'' ''command'' ''touch a'') DenyAsk"
proof -
  let ?r = "entry_rule (user_rule BDeny ''Bash'' (Some (Pattern ''touch *'')))" and ?call = "call_to ''Bash'' ''command'' ''touch a''"
  have m: "matchesRule (he_url plain_host) ?r (with_command (pc_call ?call) ''touch a'') DenyAsk" by code_simp
  have h: "specifier ?r = Some (Pattern ''touch *'')" "toolName ?r = ''Bash''" "tool_of ?call = ''Bash''"
    "flattenSubcommands (command_text (input_of ?call)) = Some [''touch a'']"
    by (simp_all add: command_text_def touch_a_flat)
  show ?thesis using bash_rule_per_subcommand [OF h, of plain_host] m by auto
qed

theorem auto_mode_suspends_broad_rules_witness:
  "matchesRuleForCall plain_host (session_in Auto [user_rule BAllow ''Deploy'' None] HookNoOpinion None)
      (entry_rule (user_rule BAllow ''Deploy'' None)) (call_to ''Deploy'' ''site'' ''x'') Allow
    \<and> \<not> isAutoSuspendedAllowRule (entry_rule (user_rule BAllow ''Deploy'' None)) False"
proof -
  let ?ctx = "session_in Auto [user_rule BAllow ''Deploy'' None] HookNoOpinion None" and ?call = "call_to ''Deploy'' ''site'' ''x''"
  have "map_sum (\<lambda>_. ()) (\<lambda>r. (dr_decision r, dr_mechanism r)) (snd (evaluate plain_host ?ctx ?call)) = Inr (DAllow, MRule)" by code_simp
  then obtain r consulted where e: "evaluate plain_host ?ctx ?call = (consulted, Inr r)" "dr_decision r = DAllow" "dr_mechanism r = MRule"
    by (auto dest: fst_snd_run)
  have m: "mode_of ?ctx = Auto" by simp
  have "ps_autoConfig (cx_policy ?ctx) = None" by (simp add: session_in_def)
  with auto_mode_suspends_broad_rules [OF m e] show ?thesis by (simp add: fileRuleKindFor_def)
qed

abbreviation touch_session :: evaluation_context where
  "touch_session \<equiv> session_in Default [user_rule BAllow ''Bash'' (Some (Pattern ''touch *''))] HookNoOpinion None"

abbreviation touch_a :: permission_call where
  "touch_a \<equiv> call_to ''Bash'' ''command'' ''touch a''"

lemma touch_a_command [simp]: "shellCommandOf (pc_call touch_a) = Some ''touch a''"
  by (simp add: call_to_def shellCommandOf_def)

lemma touch_a_paths [simp]: "extractCandidateWritePaths (session_in m rules v reply) touch_a = [''a'']"
proof -
  have "pathOf (Some ''/h'') (''a'', ''a'') = ''a''" by code_simp
  then show ?thesis
    by (simp add: extractCandidateWritePaths_def recognizeEditOperation_shell [OF touch_a_command] recognize_shell_def touch_a_flat
        part_write_words_def touch_a_words raw_word_def edit_options_def session_in_def)
qed

lemma touch_a_gate: "shellPathConstraint plain_host touch_session touch_a = None"
proof -
  have p: "\<not> hasProcessSubstitution ''touch a''" by code_simp
  have t: "tokenizeWords ''touch a'' = [''touch'', ''a'']" by code_simp
  have r: "writeTargetReason ''a'' ''a'' = None" by code_simp
  have c: "\<not> changes_directory ''touch a''" by code_simp
  have i: "isShellTargetInWorkingDirs plain_host touch_session ''a''" by code_simp
  have "part_constraint ''touch a'' = None"
    by (simp add: part_constraint_def touch_a_words t r the_default_def)
  with p have "shellWriteConstraint ''touch a'' = None" by (simp add: shellWriteConstraint_def touch_a_flat)
  then show ?thesis
    using c i by (simp add: shellPathConstraint_def shellWriteNeedsApproval_def shellWriteTargets_def shellCommandChangesDirectory_def
        touch_a_flat isShellCall_def)
qed

lemma touch_a_unresolved: "evaluateModeStage plain_host touch_session touch_a Default = Inr Unresolved"
proof -
  have r: "removal_of_part ''/w'' (removal_context touch_session) ''touch a'' = None" by code_simp
  have ro: "\<not> isRecognizedReadOnly ''touch a''" by code_simp
  have p: "matchedProtectedEnd plain_host (path_resolve (pcwd plain_host) ''/w'' ''a'')
     (\<lambda>candidate. isProtectedWrite (pcwd plain_host) candidate (protected_context plain_host touch_session)) = Inr None" by code_simp
  have q: "protectedShellTargetPath plain_host touch_session ''a'' = Inr None" by code_simp
  have d: "dedicatedReadToolPath touch_a = None" by (simp add: dedicatedReadToolPath_def)
  have b: "isBuiltInReadOnly plain_host touch_session touch_a = Inr False"
    using ro by (simp add: isBuiltInReadOnly_def isBashCallReadOnly_def touch_a_flat isReadWithinBounds_def d)
  have c: "\<not> cr_critical (check_critical plain_host touch_session touch_a)"
    using r by (simp add: check_critical_def real_isCriticalRemoval_def isCriticalRemoval_def touch_a_flat plain_host_def not_critical_def)
  have k: "check_protected plain_host touch_session touch_a = Inr False"
    using p q by (simp add: check_protected_def realProtectedWriteCandidate_def shellWriteTargets_def isShellCall_def)
  have t: "\<not> isTaskModeClassSilentAllow touch_a" by (simp add: isTaskModeClassSilentAllow_def TASK_MODE_CLASS_SILENT_ALLOW_def)
  have w: "\<not> isPreapprovedWebFetch plain_host touch_a" by (simp add: isPreapprovedWebFetch_def WEB_FETCH_TOOL_def)
  have n: "cx_bashRunsSandboxed touch_session = None" by (simp add: session_in_def)
  show ?thesis using b c k t w n touch_a_gate by (simp add: evaluateModeStage_def by_mode_def silent_allow_def)
qed

lemma touch_a_allowed:
  "\<exists>consulted r. evaluate plain_host touch_session touch_a = (consulted, Inr r) \<and> dr_decision r = DAllow \<and> dr_mechanism r = MRule"
proof -
  let ?e = "user_rule BAllow ''Bash'' (Some (Pattern ''touch *''))"
  have m: "matchesRule (he_url plain_host) (entry_rule ?e) (with_command (pc_call touch_a) ''touch a'') Allow" by code_simp
  have lookup: "findMatchingRuleEntry plain_host touch_session (ps_rules (cx_policy touch_session)) touch_a b skip
      = Inr (if b = BAllow \<and> \<not> skipped skip ?e then Some ?e else None)" for b skip
  proof -
    have "matchesRuleForCall plain_host touch_session (entry_rule ?e) touch_a Allow"
      using m by (simp add: matchesRuleForCall_def bash_rule_matches_def command_text_def touch_a_flat SKILL_RULE_TOOL_def)
    moreover have "entry_considered touch_session b skip ?e \<longleftrightarrow> b = BAllow \<and> \<not> skipped skip ?e"
      by (auto simp: entry_considered_def)
    ultimately show ?thesis by (simp add: lookup_other_tool fileRuleKindFor_def behavior_direction_def)
  qed
  have s: "firstSuspiciousWritePath plain_host touch_session touch_a = None"
  proof -
    have "suspicious_candidate plain_host touch_session ''a'' = None" by code_simp
    then show ?thesis by (simp add: firstSuspiciousWritePath_def shellWriteTargets_def isShellCall_def)
  qed
  have d: "deny_stage plain_host touch_session touch_a None = Inr None"
    by (simp add: deny_stage_def lookup findFileDenyBlockingEdit_def Let_def blocking_entry_def WRITE_BLOCKING_DENY_TOOLS_def
        fileRuleKindFor_def isShellCall_def)
  have "\<not> isSandboxEscape touch_session touch_a" by (simp add: isSandboxEscape_def)
  then have "mode_stage plain_host touch_session touch_a None = ([], Inr ((record_of DAllow MRule (version_of touch_session) None)
      \<lparr>dr_source := Some (entry_source ?e), dr_ruleRef := Some (formatRuleRef ?e)\<rparr>))"
    by (simp add: mode_stage_def touch_a_unresolved touch_a_gate allow_stage_def lookup auto_skip_def skipped_def)
  then show ?thesis
    using d s by (simp add: evaluate_def evaluateStages_def after_deny_def lookup causes_of_def must_ask_def decide_stage_def Let_def
        ASK_USER_QUESTION_TOOL_NAME_def stamp_shell isShellCall_def record_of_def)
qed

theorem rule_allow_respects_write_floor_witness:
  "shellWriteConstraint ''touch a'' = None \<and> list_all (isShellTargetInWorkingDirs plain_host touch_session) [''a'']"
proof -
  have s: "isShellCall touch_a" "shellCommandOf (pc_call (effective touch_session touch_a)) = Some ''touch a''" by (simp_all add: isShellCall_def)
  obtain consulted r where "evaluate plain_host touch_session touch_a = (consulted, Inr r)" "dr_decision r = DAllow" "dr_mechanism r = MRule"
    using touch_a_allowed by blast
  from rule_allow_respects_write_floor [OF s this] show ?thesis
    by (simp add: shellWriteTargets_def isShellCall_def)
qed

abbreviation sandboxed_session :: evaluation_context where
  "sandboxed_session \<equiv> (session_in AcceptEdits [] HookNoOpinion None)\<lparr>cx_bashRunsSandboxed := Some (bashRunsSandboxed True (\<lambda>_. True))\<rparr>"

theorem accepted_edits_within_bounds_witness:
  "isWithinBounds plain_host sandboxed_session ''/w/a'' = Inr True"
proof -
  let ?ctx = sandboxed_session and ?call = "call_to ''Edit'' ''file_path'' ''/w/a''"
  have "map_sum (\<lambda>_. ()) (\<lambda>r. (dr_decision r, dr_mechanism r)) (snd (evaluate plain_host ?ctx ?call)) = Inr (DAllow, MMode)" by code_simp
  then obtain r consulted where e: "evaluate plain_host ?ctx ?call = (consulted, Inr r)" "dr_decision r = DAllow" "dr_mechanism r = MMode"
    by (auto dest: fst_snd_run)
  have h: "tool_of ?call \<in> {''Edit'', ''Write'', ''NotebookEdit''}" "mode_of ?ctx \<notin> {BypassPermissions, Plan}"
      "cx_bashRunsSandboxed ?ctx \<in> {None, Some (bashRunsSandboxed True (\<lambda>_. True))}" "effective ?ctx ?call = ?call"
    by (simp_all add: session_in_def hook_saying_def effective_call_def)
  have t: "trim ''/w/a'' = ''/w/a''" by code_simp
  show ?thesis using accepted_edits_within_bounds [OF h(1-3) e] h(4) t by (auto simp: fileRulePathField_def split: if_splits)
qed

theorem probeReadAccess_refines_evaluate_witness:
  "verdict_of (evaluate plain_host (session_in DontAsk [user_rule BDeny ''Read'' (Some (Pattern ''secret''))] HookNoOpinion None) (read_call ''/w/a''))
    = probeReadAccess plain_host (session_in DontAsk [user_rule BDeny ''Read'' (Some (Pattern ''secret''))] HookNoOpinion None) ''/w/a''"
proof -
  let ?ctx = "session_in DontAsk [user_rule BDeny ''Read'' (Some (Pattern ''secret''))] HookNoOpinion None"
  have "crashCheckEditRulesDuringRead plain_host ?ctx (ps_rules (cx_policy ?ctx)) (read_call ''/w/a'') ReadRules = Inr ()" by code_simp
  then show ?thesis by (intro probeReadAccess_refines_evaluate [of _ _ "hook_saying HookNoOpinion"]) simp_all
qed

definition strict_host :: host_env where
  "strict_host = plain_host\<lparr>he_ignore := (\<lambda>patterns path. if ''['' \<in> set patterns then Inl ''Unterminated character class'' else Inr \<lparr>ir_ignored = False, ir_rule = None\<rparr>)\<rparr>"

text \<open>
  The probe does not look at the edit rules. Under an edit rule that does not compile a real
  read is denied by the crash check, in bypass mode too, while the probe answers that it is silent.
\<close>

theorem probe_misses_broken_edit_rule:
  "probeReadAccess strict_host (session_in BypassPermissions [user_rule BAllow ''Edit'' (Some (Pattern ''[''))] HookNoOpinion None) ''/w/a'' = Inr ProbeSilent
    \<and> verdict_of (evaluate strict_host (session_in BypassPermissions [user_rule BAllow ''Edit'' (Some (Pattern ''[''))] HookNoOpinion None) (read_call ''/w/a''))
      = Inr ProbeDeny"
  by code_simp

end
