(* ===== verification/Json_Text.thy ===== *)
theory Json_Text
  imports Address Rule_Match "HOL-Library.AList"
begin

text \<open>
  \<open>JSON.stringify\<close> and \<open>JSON.parse\<close> of the language, as the runtime's journals and hashes use them: compact
  output, objects as association lists in insertion order. Numbers are integers here; a text with a fraction or an
  exponent, which none of the modelled writers produces, is not read. The reader descends over the text with its length as the bound
  on the depth. Reading what was written gives the value back, and the beginning of a written object is never a JSON text.
\<close>

subsection \<open>Writing\<close>

definition hex_lower :: "nat \<Rightarrow> char" where
  "hex_lower n = digit_char (n mod 16)"

definition json_unit :: "char \<Rightarrow> string" where
  "json_unit c =
     (if c = dquote then [backslash, dquote]
      else if c = backslash then [backslash, backslash]
      else if c = CHR 0x08 then [backslash, CHR ''b'']
      else if c = CHR 0x09 then [backslash, CHR ''t'']
      else if c = newline then [backslash, CHR ''n'']
      else if c = CHR 0x0C then [backslash, CHR ''f'']
      else if c = CHR 0x0D then [backslash, CHR ''r'']
      else if (of_char c :: nat) < 32 then [backslash] @ ''u00'' @ [hex_lower (of_char c div 16), hex_lower (of_char c)]
      else [c])"

definition json_text :: "string \<Rightarrow> string" where
  "json_text s = [dquote] @ concat (map json_unit s) @ [dquote]"

definition int_text :: "int \<Rightarrow> string" where
  "int_text i = (if i < 0 then CHR ''-'' # show_radix 10 (nat (- i)) else show_radix 10 (nat i))"

fun stringify :: "json \<Rightarrow> string" where
  "stringify JNull = ''null''"
| "stringify (JBool b) = (if b then ''true'' else ''false'')"
| "stringify (JNum i) = int_text i"
| "stringify (JStr s) = json_text s"
| "stringify (JArr vs) = ''['' @ join_with '','' (map stringify vs) @ '']''"
| "stringify (JObj kvs) = ''{'' @ join_with '','' (map (\<lambda>kv. json_text (fst kv) @ '':'' @ stringify (snd kv)) kvs) @ ''}''"

subsection \<open>Reading\<close>

definition json_ws :: "char \<Rightarrow> bool" where
  "json_ws c \<longleftrightarrow> c \<in> {CHR '' '', CHR 0x09, CHR 0x0A, CHR 0x0D}"

abbreviation skip :: "string \<Rightarrow> string" where
  "skip \<equiv> dropWhile json_ws"

definition simple_escape :: "char \<Rightarrow> char option" where
  "simple_escape c =
     (if c = dquote \<or> c = backslash \<or> c = CHR ''/'' then Some c
      else if c = CHR ''b'' then Some (CHR 0x08)
      else if c = CHR ''f'' then Some (CHR 0x0C)
      else if c = CHR ''n'' then Some newline
      else if c = CHR ''r'' then Some (CHR 0x0D)
      else if c = CHR ''t'' then Some (CHR 0x09)
      else None)"

fun read_string :: "string \<Rightarrow> (string \<times> string) option" where
  "read_string [] = None"
| "read_string (c # t) =
     (if c = dquote then Some ([], t)
      else if c = backslash then
        (case t of
           [] \<Rightarrow> None
         | e # u \<Rightarrow>
             (case simple_escape e of
                Some x \<Rightarrow> map_option (\<lambda>(s, r). (x # s, r)) (read_string u)
              | None \<Rightarrow>
                  if e = CHR ''u'' \<and> 4 \<le> length u \<and> list_all hex_digit (take 4 u)
                  then map_option (\<lambda>(s, r). (fromCodePoint (parse_radix 16 (take 4 u)) @ s, r)) (read_string (drop 4 u))
                  else None))
      else if (of_char c :: nat) < 32 then None
      else map_option (\<lambda>(s, r). (c # s, r)) (read_string t))"

text \<open>The digits of an integer: no leading zero, no fraction, no exponent.\<close>

definition read_nat :: "string \<Rightarrow> (nat \<times> string) option" where
  "read_nat s =
     (let ds = takeWhile is_digit s; r = dropWhile is_digit s in
      if ds = [] \<or> (hd ds = CHR ''0'' \<and> tl ds \<noteq> []) \<or> (r \<noteq> [] \<and> hd r \<in> {CHR ''.'', CHR ''e'', CHR ''E''}) then None
      else Some (parse_radix 10 ds, r))"

definition read_int :: "string \<Rightarrow> (json \<times> string) option" where
  "read_int s =
     (if s \<noteq> [] \<and> hd s = CHR ''-'' then map_option (\<lambda>(n, r). (JNum (- int n), r)) (read_nat (tl s))
      else map_option (\<lambda>(n, r). (JNum (int n), r)) (read_nat s))"

definition read_atom :: "string \<Rightarrow> (json \<times> string) option" where
  "read_atom s =
     (if startsWith s ''null'' then Some (JNull, drop 4 s)
      else if startsWith s ''true'' then Some (JBool True, drop 4 s)
      else if startsWith s ''false'' then Some (JBool False, drop 5 s)
      else read_int s)"

fun read_value :: "nat \<Rightarrow> string \<Rightarrow> (json \<times> string) option"
  and read_elements :: "nat \<Rightarrow> string \<Rightarrow> (json list \<times> string) option"
  and read_members :: "nat \<Rightarrow> string \<Rightarrow> ((string \<times> json) list \<times> string) option" where
  "read_value 0 s = None"
| "read_value (Suc n) s =
     (case skip s of
        [] \<Rightarrow> None
      | c # t \<Rightarrow>
          if c = dquote then map_option (\<lambda>(x, r). (JStr x, r)) (read_string t)
          else if c = CHR ''['' then
            (case skip t of
               [] \<Rightarrow> None
             | d # r \<Rightarrow> if d = CHR '']'' then Some (JArr [], r) else map_option (\<lambda>(vs, r). (JArr vs, r)) (read_elements n t))
          else if c = CHR ''{'' then
            (case skip t of
               [] \<Rightarrow> None
             | d # r \<Rightarrow> if d = CHR ''}'' then Some (JObj [], r) else map_option (\<lambda>(kvs, r). (JObj kvs, r)) (read_members n t))
          else read_atom (c # t))"
| "read_elements 0 s = None"
| "read_elements (Suc n) s =
     (case read_value n s of
        None \<Rightarrow> None
      | Some (v, r) \<Rightarrow>
          (case skip r of
             [] \<Rightarrow> None
           | c # t \<Rightarrow>
               if c = CHR '']'' then Some ([v], t)
               else if c = CHR '','' then map_option (\<lambda>(vs, r). (v # vs, r)) (read_elements n t)
               else None))"
| "read_members 0 s = None"
| "read_members (Suc n) s =
     (case skip s of
        [] \<Rightarrow> None
      | q # s1 \<Rightarrow>
          if q \<noteq> dquote then None
          else
            (case read_string s1 of
               None \<Rightarrow> None
             | Some (k, s2) \<Rightarrow>
                 (case skip s2 of
                    [] \<Rightarrow> None
                  | colon # s3 \<Rightarrow>
                      if colon \<noteq> CHR '':'' then None
                      else
                        (case read_value n s3 of
                           None \<Rightarrow> None
                         | Some (v, r) \<Rightarrow>
                             (case skip r of
                                [] \<Rightarrow> None
                              | c # t \<Rightarrow>
                                  if c = CHR ''}'' then Some ([(k, v)], t)
                                  else if c = CHR '','' then map_option (\<lambda>(kvs, r). ((k, v) # kvs, r)) (read_members n t)
                                  else None)))))"

text \<open>A repeated key keeps its first place and its last value.\<close>

fun json_norm :: "json \<Rightarrow> json" where
  "json_norm (JArr vs) = JArr (map json_norm vs)"
| "json_norm (JObj kvs) = JObj (fold (\<lambda>(k, v) m. AList.update k v m) (map (\<lambda>(k, v). (k, json_norm v)) kvs) [])"
| "json_norm v = v"

definition json_parse :: "string \<Rightarrow> json option" where
  "json_parse s =
     (case read_value (Suc (length s)) s of
        Some (v, r) \<Rightarrow> if skip r = [] then Some (json_norm v) else None
      | None \<Rightarrow> None)"

subsection \<open>Reading what was written\<close>

lemma hex_lower_props: "hex_digit (hex_lower n)" "digit_value (hex_lower n) = n mod 16"
  by (simp_all add: hex_lower_def digit_chars)

lemma read_unit: "read_string (json_unit c @ t) = map_option (\<lambda>(s, r). (c # s, r)) (read_string t)"
proof (cases "c \<in> {dquote, backslash, CHR 0x08, CHR 0x09, newline, CHR 0x0C, CHR 0x0D}")
  case True
  then show ?thesis by (auto simp: json_unit_def simple_escape_def js_defs)
next
  case False
  show ?thesis
  proof (cases "(of_char c :: nat) < 32")
    case True
    let ?n = "of_char c :: nat"
    have u: "json_unit c = [backslash] @ ''u00'' @ [hex_lower (?n div 16), hex_lower ?n]" using False True by (simp add: json_unit_def)
    have z: "hex_digit (CHR ''0'')" "digit_value (CHR ''0'') = 0" by (code_simp+)
    have v: "parse_radix 16 [CHR ''0'', CHR ''0'', hex_lower (?n div 16), hex_lower ?n] = ?n"
      using True by (simp add: parse_radix_def z hex_lower_props)
    have "fromCodePoint ?n = [c]" using True by (simp add: fromCodePoint_def)
    moreover have "simple_escape (CHR ''u'') = None" by (simp add: simple_escape_def js_defs)
    ultimately show ?thesis
      unfolding u using v z hex_lower_props by (simp add: js_defs)
  next
    case big: False
    then show ?thesis using False by (simp add: json_unit_def)
  qed
qed

lemma read_units: "read_string (concat (map json_unit s) @ dquote # r) = Some (s, r)"
  by (induction s) (simp_all add: read_unit)

lemma read_nat_show:
  assumes "r = [] \<or> \<not> is_digit (hd r) \<and> hd r \<notin> {CHR ''.'', CHR ''e'', CHR ''E''}"
  shows "read_nat (show_radix 10 n @ r) = Some (n, r)"
proof -
  have d: "list_all is_digit (show_radix 10 n)" by (rule show_radix_all) (auto simp: digit_chars(3))
  have tw: "takeWhile is_digit (show_radix 10 n @ r) = show_radix 10 n" "dropWhile is_digit (show_radix 10 n @ r) = r"
    using d assms by (cases r; auto simp: list_all_iff takeWhile_append2 dropWhile_append2)+
  have "\<not> (hd (show_radix 10 n) = CHR ''0'' \<and> tl (show_radix 10 n) \<noteq> [])"
  proof (cases "n = 0")
    case True
    then show ?thesis by (subst show_radix.simps) (simp add: show_radix.simps)
  next
    case False
    then show ?thesis using show_radix_hd [of 10 n] by simp
  qed
  then show ?thesis using assms by (auto simp: read_nat_def tw parse_show_radix)
qed

definition delimited :: "string \<Rightarrow> bool" where
  "delimited r \<longleftrightarrow> r = [] \<or> hd r \<in> {CHR '','', CHR '']'', CHR ''}''}"

lemma show10_head: obtains c t where "show_radix 10 n = c # t" "is_digit c"
proof -
  have "list_all is_digit (show_radix 10 n)" by (rule show_radix_all) (auto simp: digit_chars(3))
  then show ?thesis using that by (cases "show_radix 10 n") auto
qed

lemma int_text_head: obtains c t where "int_text i = c # t" "is_digit c \<or> c = CHR ''-''"
  using show10_head [of "nat (- i)"] show10_head [of "nat i"] by (fastforce simp: int_text_def split: if_splits)

lemma number_head:
  assumes "is_digit c \<or> c = CHR ''-''"
  shows "\<not> json_ws c" "c \<notin> {CHR '']'', CHR ''}'', CHR ''['', CHR ''{'', dquote, CHR ''n'', CHR ''t'', CHR ''f''}"
  using assms by (auto simp: is_digit_code json_ws_def js_defs)

lemma read_int_text:
  assumes "delimited r"
  shows "read_atom (int_text i @ r) = Some (JNum i, r)"
proof -
  have d: "r = [] \<or> \<not> is_digit (hd r) \<and> hd r \<notin> {CHR ''.'', CHR ''e'', CHR ''E''}"
    using assms by (auto simp: delimited_def is_digit_code)
  obtain c t where ct: "int_text i = c # t" "is_digit c \<or> c = CHR ''-''" by (rule int_text_head)
  have "\<not> startsWith (int_text i @ r) ''null''" "\<not> startsWith (int_text i @ r) ''true''" "\<not> startsWith (int_text i @ r) ''false''"
    using ct number_head [OF ct(2)] by (auto simp: startsWith_def)
  moreover have "read_int (int_text i @ r) = Some (JNum i, r)"
  proof (cases "i < 0")
    case True
    then show ?thesis using read_nat_show [OF d, of "nat (- i)"] by (simp add: read_int_def int_text_def)
  next
    case False
    obtain c t where c: "show_radix 10 (nat i) = c # t" "is_digit c" by (rule show10_head)
    then have "c \<noteq> CHR ''-''" by (auto simp: is_digit_code)
    then show ?thesis using False c(1) read_nat_show [OF d, of "nat i"] by (simp add: read_int_def int_text_def)
  qed
  ultimately show ?thesis by (simp add: read_atom_def)
qed

lemma stringify_head: "\<exists>c t. stringify v = c # t \<and> \<not> json_ws c \<and> c \<noteq> CHR '']'' \<and> c \<noteq> CHR ''}''"
proof (cases v)
  case (JNum i)
  obtain c t where "int_text i = c # t" "is_digit c \<or> c = CHR ''-''" by (rule int_text_head)
  then show ?thesis using JNum number_head [of c] by auto
qed (auto simp: json_text_def json_ws_def js_defs)

lemma skip_stringify [simp]: "skip (stringify v @ r) = stringify v @ r"
  using stringify_head [of v] by auto

lemma structural [simp]:
  "\<not> json_ws (CHR '','')" "\<not> json_ws (CHR '']'')" "\<not> json_ws (CHR ''}'')" "\<not> json_ws (CHR '':'')" "\<not> json_ws (CHR ''['')"
  "\<not> json_ws (CHR ''{'')" "\<not> json_ws dquote" "CHR ''['' \<noteq> dquote" "CHR ''{'' \<noteq> dquote" "dquote \<noteq> CHR '']''" "dquote \<noteq> CHR ''}''"
  by (simp_all add: json_ws_def js_defs)

lemma stringify_not_Nil [simp]: "stringify v \<noteq> []"
  using stringify_head [of v] by auto

definition readable :: "json \<Rightarrow> bool" where
  "readable v \<longleftrightarrow> (\<forall>n r. length (stringify v) \<le> n \<longrightarrow> delimited r \<longrightarrow> read_value n (stringify v @ r) = Some (v, r))"

lemma readableD: "readable v \<Longrightarrow> length (stringify v) \<le> n \<Longrightarrow> delimited r \<Longrightarrow> read_value n (stringify v @ r) = Some (v, r)"
  by (simp add: readable_def)

lemma readableI:
  assumes "\<And>m r. delimited r \<Longrightarrow> read_value (Suc m) (stringify v @ r) = Some (v, r)"
  shows "readable v"
proof -
  have "read_value n (stringify v @ r) = Some (v, r)" if "length (stringify v) \<le> n" "delimited r" for n r
    using that assms by (cases n) auto
  then show ?thesis by (simp add: readable_def)
qed

lemma delimited_simps [simp]: "delimited (CHR '','' # r)" "delimited (CHR '']'' # r)" "delimited (CHR ''}'' # r)" "delimited []"
  by (simp_all add: delimited_def)

lemma read_elements_text:
  "vs \<noteq> [] \<Longrightarrow> \<forall>v\<in>set vs. readable v \<Longrightarrow> length (join_with '','' (map stringify vs)) < n \<Longrightarrow>
     read_elements n (join_with '','' (map stringify vs) @ CHR '']'' # r) = Some (vs, r)"
proof (induction vs arbitrary: n)
  case (Cons v vs)
  obtain m where n: "n = Suc m" using Cons.prems(3) by (cases n) auto
  show ?case
  proof (cases vs)
    case Nil
    then show ?thesis using Cons.prems n by (simp add: readableD)
  next
    case (Cons w ws)
    have "read_value m (stringify v @ CHR '','' # join_with '','' (map stringify vs) @ CHR '']'' # r)
        = Some (v, CHR '','' # join_with '','' (map stringify vs) @ CHR '']'' # r)"
      using Cons.prems n Cons by (intro readableD) auto
    moreover have "read_elements m (join_with '','' (map stringify vs) @ CHR '']'' # r) = Some (vs, r)"
      using Cons.prems n Cons by (intro Cons.IH) auto
    ultimately show ?thesis using n Cons by simp
  qed
qed simp

definition member_text :: "string \<times> json \<Rightarrow> string" where
  "member_text kv = json_text (fst kv) @ '':'' @ stringify (snd kv)"

lemma read_members_text:
  "kvs \<noteq> [] \<Longrightarrow> \<forall>kv\<in>set kvs. readable (snd kv) \<Longrightarrow> length (join_with '','' (map member_text kvs)) < n \<Longrightarrow>
     read_members n (join_with '','' (map member_text kvs) @ CHR ''}'' # r) = Some (kvs, r)"
proof (induction kvs arbitrary: n)
  case (Cons kv kvs)
  obtain m where n: "n = Suc m" using Cons.prems(3) by (cases n) auto
  obtain k v where kv: "kv = (k, v)" by fastforce
  show ?case
  proof (cases kvs)
    case Nil
    then show ?thesis using Cons.prems n kv by (simp add: member_text_def json_text_def read_units readableD)
  next
    case (Cons w ws)
    let ?tail = "CHR '','' # join_with '','' (map member_text kvs) @ CHR ''}'' # r"
    have "read_value m (stringify v @ ?tail) = Some (v, ?tail)"
      using Cons.prems n Cons kv by (intro readableD) (auto simp: member_text_def)
    moreover have "read_members m (join_with '','' (map member_text kvs) @ CHR ''}'' # r) = Some (kvs, r)"
      using Cons.prems n Cons by (intro Cons.IH) auto
    moreover have "join_with '','' (map member_text (kv # kvs)) @ CHR ''}'' # r
        = dquote # concat (map json_unit k) @ dquote # CHR '':'' # stringify v @ ?tail"
      using Cons kv by (simp add: member_text_def json_text_def)
    ultimately show ?thesis unfolding n using kv by (simp add: read_units)
  qed
qed simp

lemma all_readable: "readable v"
proof (induction v)
  case (JArr vs)
  show ?case unfolding readable_def
  proof (intro allI impI)
    fix n r assume n: "length (stringify (JArr vs)) \<le> n" and r: "delimited r"
    then obtain m where m: "n = Suc m" by (cases n) auto
    show "read_value n (stringify (JArr vs) @ r) = Some (JArr vs, r)"
    proof (cases vs)
      case Nil
      then show ?thesis using m by simp
    next
      case (Cons v ws)
      obtain c t where ct: "join_with '','' (map stringify vs) @ CHR '']'' # r = c # t" "\<not> json_ws c" "c \<noteq> CHR '']''"
        using stringify_head [of v] Cons by (cases ws) auto
      have "read_elements m (join_with '','' (map stringify vs) @ CHR '']'' # r) = Some (vs, r)"
        using JArr n m Cons by (intro read_elements_text) auto
      then show ?thesis using m ct by simp
    qed
  qed
next
  case (JObj kvs)
  show ?case unfolding readable_def
  proof (intro allI impI)
    fix n r assume n: "length (stringify (JObj kvs)) \<le> n" and r: "delimited r"
    then obtain m where m: "n = Suc m" by (cases n) auto
    have mt: "map (\<lambda>kv. json_text (fst kv) @ CHR '':'' # stringify (snd kv)) kvs = map member_text kvs" by (simp add: member_text_def)
    have len: "length (join_with '','' (map member_text kvs)) < m" using n m by (simp add: mt)
    have rd: "\<forall>kv\<in>set kvs. readable (snd kv)"
    proof
      fix kv assume "kv \<in> set kvs"
      then show "readable (snd kv)" using JObj [of kv "snd kv"] by (simp add: prod_set_simps snds.simps prod_eq_iff)
    qed
    show "read_value n (stringify (JObj kvs) @ r) = Some (JObj kvs, r)"
    proof (cases kvs)
      case Nil
      then show ?thesis using m by simp
    next
      case (Cons kv ws)
      obtain t where ct: "join_with '','' (map member_text kvs) @ CHR ''}'' # r = dquote # t"
        using Cons by (cases ws) (auto simp: member_text_def json_text_def)
      have "read_members m (join_with '','' (map member_text kvs) @ CHR ''}'' # r) = Some (kvs, r)"
        using len rd Cons by (intro read_members_text) auto
      then show ?thesis using m ct by (simp add: mt)
    qed
  qed
next
  case (JNum i)
  obtain c t where ct: "int_text i = c # t" "is_digit c \<or> c = CHR ''-''" by (rule int_text_head)
  show ?case
  proof (rule readableI)
    fix m r assume "delimited r"
    then show "read_value (Suc m) (stringify (JNum i) @ r) = Some (JNum i, r)"
      using read_int_text [of r i] ct number_head [OF ct(2)] by auto
  qed
next
  case (JStr s)
  show ?case by (rule readableI) (simp add: json_text_def read_units)
qed (auto intro!: readableI simp: read_atom_def startsWith_def json_ws_def js_defs)

fun distinct_keys :: "json \<Rightarrow> bool" where
  "distinct_keys (JArr vs) = list_all distinct_keys vs"
| "distinct_keys (JObj kvs) = (distinct (map fst kvs) \<and> list_all (\<lambda>kv. distinct_keys (snd kv)) kvs)"
| "distinct_keys v = True"

lemma fold_update_distinct:
  "distinct (map fst m @ map fst kvs) \<Longrightarrow> fold (\<lambda>(k, v) m. AList.update k v m) kvs m = m @ kvs"
proof (induction kvs arbitrary: m)
  case (Cons kv kvs)
  have "AList.update (fst kv) (snd kv) m = m @ [kv]" if "fst kv \<notin> set (map fst m)" for m
    using that by (induction m) auto
  then show ?case using Cons by (cases kv) auto
qed simp

lemma json_norm_distinct: "distinct_keys v \<Longrightarrow> json_norm v = v"
proof (induction v rule: json_norm.induct)
  case (2 kvs)
  have "map (\<lambda>(k, v). (k, json_norm v)) kvs = kvs"
    using 2 by (intro map_idI) (force simp: list_all_iff)
  then show ?case using 2 fold_update_distinct [of "[]" kvs] by simp
qed (auto simp: list_all_iff intro!: map_idI)

lemma json_read_back: "distinct_keys v \<Longrightarrow> json_parse (stringify v) = Some v"
  using readableD [OF all_readable, of v "Suc (length (stringify v))" "[]"] json_norm_distinct [of v]
  by (simp add: json_parse_def)

text \<open>
  Reading a JSON text that was written gives back the value, for every value whose objects have distinct keys.
\<close>

theorem json_roundtrip:
  assumes "distinct_keys v"
  shows "json_parse (stringify v) = Some v"
  using assms by (rule json_read_back)

theorem json_roundtrip_witness: "json_parse (stringify (JObj [(''a'', JArr [JNum (- 12), JStr [dquote, newline]])]))
    = Some (JObj [(''a'', JArr [JNum (- 12), JStr [dquote, newline]])])"
  by (rule json_roundtrip) simp

subsection \<open>Unfinished texts\<close>

lemma read_elementsE:
  assumes "read_elements (Suc n) s = Some (vs, r)"
  obtains v t where "read_value n s = Some (v, t)" "skip t = CHR '']'' # r" "vs = [v]"
    | v t u ws where "read_value n s = Some (v, t)" "skip t = CHR '','' # u" "read_elements n u = Some (ws, r)" "vs = v # ws"
proof -
  from assms obtain v t where v: "read_value n s = Some (v, t)" by (auto split: option.splits)
  show ?thesis using assms v that by (auto split: list.splits if_splits)
qed

lemma read_membersE:
  assumes "read_members (Suc n) s = Some (kvs, r)"
  obtains s1 key s2 s3 v t where "skip s = dquote # s1" "read_string s1 = Some (key, s2)" "skip s2 = CHR '':'' # s3"
      "read_value n s3 = Some (v, t)"
      "skip t = CHR ''}'' # r \<and> kvs = [(key, v)] \<or> (\<exists>u ws. skip t = CHR '','' # u \<and> read_members n u = Some (ws, r) \<and> kvs = (key, v) # ws)"
proof -
  from assms obtain s1 where a: "skip s = dquote # s1" by (auto split: list.splits if_splits)
  with assms obtain key s2 where b: "read_string s1 = Some (key, s2)" by (auto split: option.splits)
  with assms a obtain s3 where c: "skip s2 = CHR '':'' # s3" by (auto split: list.splits if_splits)
  with assms a b obtain v t where d: "read_value n s3 = Some (v, t)" by (auto split: option.splits)
  show ?thesis using assms a b c d by (intro that [OF a b c d]) (auto split: list.splits if_splits)
qed

lemma read_mono:
  "n \<le> m \<Longrightarrow> (\<forall>s x. read_value n s = Some x \<longrightarrow> read_value m s = Some x)
     \<and> (\<forall>s x. read_elements n s = Some x \<longrightarrow> read_elements m s = Some x)
     \<and> (\<forall>s x. read_members n s = Some x \<longrightarrow> read_members m s = Some x)"
proof (induction n arbitrary: m)
  case (Suc n)
  then obtain k where k: "m = Suc k" "n \<le> k" by (cases m) auto
  have V: "\<And>s x. read_value n s = Some x \<Longrightarrow> read_value k s = Some x"
    and E: "\<And>s x. read_elements n s = Some x \<Longrightarrow> read_elements k s = Some x"
    and M: "\<And>s x. read_members n s = Some x \<Longrightarrow> read_members k s = Some x" using Suc.IH [OF k(2)] by auto
  have "read_value (Suc k) s = Some x" if v: "read_value (Suc n) s = Some x" for s x
  proof -
    obtain c t where s: "skip s = c # t" using v by (cases "skip s") auto
    consider "c = dquote" | "c = CHR ''[''" | "c = CHR ''{''" | "c \<notin> {dquote, CHR ''['', CHR ''{''}" by blast
    then show ?thesis
    proof cases
      case 2
      then obtain d u where "skip t = d # u" using v s by (cases "skip t") auto
      then show ?thesis using 2 v s by (auto simp: E split: if_splits)
    next
      case 3
      then obtain d u where "skip t = d # u" using v s by (cases "skip t") auto
      then show ?thesis using 3 v s by (auto simp: M split: if_splits)
    qed (use v s in auto)
  qed
  moreover have "read_elements (Suc k) s = Some (vs, r)" if "read_elements (Suc n) s = Some (vs, r)" for s vs r
    using that by (cases rule: read_elementsE) (use V E in auto)
  moreover have "read_members (Suc k) s = Some (kvs, r)" if "read_members (Suc n) s = Some (kvs, r)" for s kvs r
    using that
  proof (cases rule: read_membersE)
    case (1 s1 key s2 s3 v t)
    then show ?thesis using V [OF 1(4)] M by auto
  qed
  ultimately show ?case unfolding k(1) by auto
qed simp

lemma skip_append: "skip s \<noteq> [] \<Longrightarrow> skip (s @ q) = skip s @ q"
  by (induction s) auto

lemma read_string_append: "read_string s = Some (x, r) \<Longrightarrow> read_string (s @ q) = Some (x, r @ q)"
proof (induction s arbitrary: x r rule: read_string.induct)
  case (2 c t)
  consider "c = dquote" | e u where "c \<noteq> dquote" "c = backslash" "t = e # u" | "c \<noteq> dquote" "c \<noteq> backslash"
    using "2.prems" by (cases t; cases "c = dquote"; cases "c = backslash") auto
  then show ?case
  proof cases
    case 2
    show ?thesis
    proof (cases "simple_escape e")
      case None
      then have e: "e = CHR ''u''" "4 \<le> length u" "list_all hex_digit (take 4 u)"
        using "2.prems" 2 by (simp_all split: if_splits)
      obtain y where "read_string (drop 4 u) = Some (y, r)" "x = fromCodePoint (parse_radix 16 (take 4 u)) @ y"
        using "2.prems" 2 None e by auto
      then show ?thesis using "2.IH"(1) [OF 2(1,2,3) None] 2 None e by auto
    next
      case (Some z)
      obtain y where "read_string u = Some (y, r)" "x = z # y" using "2.prems" 2 Some by auto
      then show ?thesis using "2.IH"(2) [OF 2(1,2,3) Some] 2 Some by simp
    qed
  next
    case 3
    obtain y where "\<not> (of_char c :: nat) < 32" "read_string t = Some (y, r)" "x = c # y" using "2.prems" 3 by (auto split: if_splits)
    then show ?thesis using "2.IH"(3) [OF 3] 3 by simp
  qed (use "2.prems" in simp)
qed simp

lemma while_append:
  "dropWhile P s \<noteq> [] \<Longrightarrow> takeWhile P (s @ q) = takeWhile P s \<and> dropWhile P (s @ q) = dropWhile P s @ q"
  by (induction s) auto

lemma read_nat_append:
  assumes "read_nat s = Some (n, r)" "r \<noteq> []"
  shows "read_nat (s @ q) = Some (n, r @ q)"
proof -
  have r: "r = dropWhile is_digit s" using assms(1) by (simp add: read_nat_def Let_def split: if_splits)
  then have w: "takeWhile is_digit (s @ q) = takeWhile is_digit s" "dropWhile is_digit (s @ q) = r @ q"
    using assms(2) while_append [of is_digit s q] by auto
  show ?thesis using assms by (simp add: read_nat_def Let_def w r [symmetric] split: if_splits)
qed

lemma read_atom_append:
  assumes "read_atom s = Some (v, r)" "r \<noteq> [] \<or> (\<forall>i. v \<noteq> JNum i)"
  shows "read_atom (s @ q) = Some (v, r @ q)"
proof (cases "startsWith s ''null'' \<or> startsWith s ''true'' \<or> startsWith s ''false''")
  case True
  then show ?thesis using assms(1) by (auto simp: read_atom_def startsWith_iff_prefix prefix_def)
next
  case False
  then have i: "read_int s = Some (v, r)" using assms(1) by (simp add: read_atom_def)
  then obtain j where "v = JNum j" by (auto simp: read_int_def split: if_splits)
  then have r: "r \<noteq> []" using assms(2) by simp
  obtain c t where s: "s = c # t" using i by (cases s) (auto simp: read_int_def read_nat_def)
  have "is_digit c \<or> c = CHR ''-''"
  proof (rule ccontr)
    assume "\<not> ?thesis"
    then show False using i s by (auto simp: read_int_def read_nat_def)
  qed
  from number_head [OF this] have "\<not> startsWith (s @ q) ''null''" "\<not> startsWith (s @ q) ''true''" "\<not> startsWith (s @ q) ''false''"
    using s by (auto simp: startsWith_def)
  moreover have "read_int (s @ q) = Some (v, r @ q)"
    using i r s read_nat_append [of "c # t" _ r q] read_nat_append [of t _ r q] by (auto simp: read_int_def split: if_splits)
  ultimately show ?thesis by (simp add: read_atom_def)
qed

lemma read_append:
  "(\<forall>s v r. read_value n s = Some (v, r) \<longrightarrow> r \<noteq> [] \<or> (\<forall>i. v \<noteq> JNum i) \<longrightarrow> read_value n (s @ q) = Some (v, r @ q))
   \<and> (\<forall>s vs r. read_elements n s = Some (vs, r) \<longrightarrow> read_elements n (s @ q) = Some (vs, r @ q))
   \<and> (\<forall>s kvs r. read_members n s = Some (kvs, r) \<longrightarrow> read_members n (s @ q) = Some (kvs, r @ q))"
proof (induction n)
  case (Suc n)
  have V: "\<And>s v r. read_value n s = Some (v, r) \<Longrightarrow> skip r \<noteq> [] \<Longrightarrow> read_value n (s @ q) = Some (v, r @ q)"
    and E: "\<And>s vs r. read_elements n s = Some (vs, r) \<Longrightarrow> read_elements n (s @ q) = Some (vs, r @ q)"
    and M: "\<And>s kvs r. read_members n s = Some (kvs, r) \<Longrightarrow> read_members n (s @ q) = Some (kvs, r @ q)" using Suc.IH by force+
  have "read_value (Suc n) (s @ q) = Some (v, r @ q)"
    if v: "read_value (Suc n) s = Some (v, r)" "r \<noteq> [] \<or> (\<forall>i. v \<noteq> JNum i)" for s v r
  proof -
    obtain c t where s: "skip s = c # t" using v(1) by (cases "skip s") auto
    then have sq: "skip (s @ q) = c # t @ q" by (simp add: skip_append)
    consider "c = dquote" | "c = CHR ''[''" | "c = CHR ''{''" | "c \<notin> {dquote, CHR ''['', CHR ''{''}" by blast
    then show ?thesis
    proof cases
      case 1
      then show ?thesis using v(1) s sq by (auto simp: read_string_append)
    next
      case 2
      then obtain d u where "skip t = d # u" using v(1) s by (cases "skip t") auto
      then show ?thesis using 2 v(1) s sq by (auto simp: skip_append E split: if_splits)
    next
      case 3
      then obtain d u where "skip t = d # u" using v(1) s by (cases "skip t") auto
      then show ?thesis using 3 v(1) s sq by (auto simp: skip_append M split: if_splits)
    next
      case 4
      then show ?thesis using v s sq read_atom_append [of "c # t" v r q] by simp
    qed
  qed
  moreover have "read_elements (Suc n) (s @ q) = Some (vs, r @ q)" if "read_elements (Suc n) s = Some (vs, r)" for s vs r
    using that by (cases rule: read_elementsE) (simp_all add: V E skip_append)
  moreover have "read_members (Suc n) (s @ q) = Some (kvs, r @ q)" if "read_members (Suc n) s = Some (kvs, r)" for s kvs r
    using that by (cases rule: read_membersE) (auto simp: V M skip_append read_string_append)
  ultimately show ?case by blast
qed simp

lemma torn_object:
  assumes "stringify (JObj kvs) = p @ q" "q \<noteq> []"
  shows "json_parse p = None"
proof (rule ccontr)
  assume "json_parse p \<noteq> None"
  then obtain v r where v: "read_value (Suc (length p)) p = Some (v, r)" "skip r = []" by (auto simp: json_parse_def split: option.splits if_splits)
  have "p \<noteq> []" using v(1) by auto
  then obtain t where p: "p = CHR ''{'' # t" using assms(1) by (cases p) auto
  have "\<forall>i. v \<noteq> JNum i" using v(1) p by (auto split: list.splits if_splits)
  then have "read_value (Suc (length p)) (p @ q) = Some (v, r @ q)" using read_append v(1) by blast
  then have "read_value (Suc (length (p @ q))) (p @ q) = Some (v, r @ q)" using read_mono [of "Suc (length p)" "Suc (length (p @ q))"] by auto
  moreover have "read_value (Suc (length (p @ q))) (p @ q) = Some (JObj kvs, [])"
    using readableD [OF all_readable, of "JObj kvs" "Suc (length (p @ q))" "[]"] unfolding assms(1) append_Nil2 by simp
  ultimately show False using assms(2) by simp
qed

end
