(* ===== verification/Approvals.thy ===== *)
theory Approvals
  imports Json_Text Evaluation "HOL-Library.Multiset"
begin

text \<open>
  The durable approval store (\<^verbatim>\<open>permissions/approvals.ts\<close>): a deferred call is parked as a record, answered,
  cancelled, expired or consumed by envelopes that are appended to a log and folded into a map in the order of
  insertion. The file system, the tool registry, the comparison of time stamps (\<open>localeCompare\<close>) and
  the JSON codec of the log are arguments. The locale \<open>log_codec\<close> is the contract of the codec on the
  envelopes of a log; the store replays what it applied, and a torn last line is dropped.
\<close>

subsection \<open>Records\<close>

datatype approval_state = ApPending | ApAllowed | ApDenied | ApCancelled | ApExpired

datatype responder = ByHook | ByCanUseTool | BySystem

record approval_resolution =
  rs_mechanism :: responder
  rs_at :: string
  rs_message :: "string option"
  rs_transformedInput :: "tool_input option"
  rs_updatedPermissions :: "permission_update list option"
  rs_decisionClassification :: "string option"
  rs_reason :: "string option"

record approval_record =
  ap_runtimeKind :: string
  ap_sessionId :: string
  ap_backendSessionId :: string
  ap_requestId :: string
  ap_toolUseID :: string
  ap_agentID :: "string option"
  ap_toolName :: string
  ap_originalInput :: tool_input
  ap_decisionReason :: string
  ap_blockedPath :: "string option"
  ap_permissionSuggestions :: "permission_update list option"
  ap_matchedAskRule :: "(rule_source \<times> string \<times> string option) option"
  ap_policyMode :: permission_mode
  ap_policyVersion :: nat
  ap_policyHash :: "string option"
  ap_issuedAt :: string
  ap_expiresAt :: "string option"
  ap_state :: approval_state
  ap_issuedCwd :: string
  ap_issuedHome :: string
  ap_issuedResolvedTargets :: "string list option"
  ap_resolution :: "approval_resolution option"
  ap_consumedAt :: "string option"
  ap_consumedResult :: "string option"
  ap_consumedIsError :: bool
  ap_consumingAt :: "string option"

definition WINTER_RUNTIME_KIND :: string where
  "WINTER_RUNTIME_KIND = ''winter-agent''"

record approval_response =
  ar_allowed :: bool
  ar_mechanism :: responder
  ar_message :: "string option"
  ar_transformedInput :: "tool_input option"
  ar_updatedPermissions :: "permission_update list option"
  ar_decisionClassification :: "string option"

record consumed_result =
  co_output :: string
  co_isError :: bool

datatype approval_envelope =
    EvRecord approval_record
  | EvResponse string approval_response string
  | EvCancel string string string
  | EvExpire string string string
  | EvConsumed string consumed_result string
  | EvConsuming string string

type_synonym approval_map = "(string \<times> approval_record) list"

datatype approval_error = NoSuchRequest string | MalformedLine nat | UnsafeSegment string string | TargetError string

subsection \<open>Targets\<close>

definition target_key :: "symlink_ends \<Rightarrow> string" where
  "target_key ends =
     (if se_chainTarget ends = Some (se_target ends) then se_target ends
      else ''['' @ json_text (se_target ends) @ '','' @ (case se_chainTarget ends of Some c \<Rightarrow> json_text c | None \<Rightarrow> ''null'') @ '']'')"

definition durableTargetKey :: "file_system \<Rightarrow> string \<Rightarrow> string + string" where
  "durableTargetKey fs absPath = map_sum id target_key (resolveSymlinkEnds fs absPath)"

text \<open>A stable sort, and the order of texts by their code units.\<close>

fun insert_by :: "('a \<Rightarrow> 'a \<Rightarrow> bool) \<Rightarrow> 'a \<Rightarrow> 'a list \<Rightarrow> 'a list" where
  "insert_by le x [] = [x]"
| "insert_by le x (y # ys) = (if le x y then x # y # ys else y # insert_by le x ys)"

definition sort_by :: "('a \<Rightarrow> 'a \<Rightarrow> bool) \<Rightarrow> 'a list \<Rightarrow> 'a list" where
  "sort_by le xs = foldr (insert_by le) xs []"

lemma set_insert_by [simp]: "set (insert_by le x xs) = insert x (set xs)"
  by (induction xs) auto

lemma set_sort_by [simp]: "set (sort_by le xs) = set xs"
  by (induction xs) (simp_all add: sort_by_def)

lemma mset_insert_by: "mset (insert_by le x xs) = add_mset x (mset xs)"
  by (induction xs) auto

lemma mset_sort_by [simp]: "mset (sort_by le xs) = mset xs"
  unfolding sort_by_def by (induction xs) (auto simp: mset_insert_by)

fun unit_le :: "string \<Rightarrow> string \<Rightarrow> bool" where
  "unit_le [] t = True"
| "unit_le (c # s) [] = False"
| "unit_le (c # s) (d # t) = ((of_char c :: nat) < of_char d \<or> c = d \<and> unit_le s t)"

fun all_results :: "('a \<Rightarrow> 'e + 'b) \<Rightarrow> 'a list \<Rightarrow> 'e + 'b list" where
  "all_results f [] = Inr []"
| "all_results f (x # xs) = bind_result (f x) (\<lambda>y. bind_result (all_results f xs) (\<lambda>ys. Inr (y # ys)))"

type_synonym path_extractors = "string \<Rightarrow> (tool_input \<Rightarrow> string list \<times> string list) option"

definition extractNormalizedTargets ::
  "file_system \<Rightarrow> path_extractors \<Rightarrow> string \<Rightarrow> tool_input \<Rightarrow> string \<Rightarrow> string + string list" where
  "extractNormalizedTargets fs registered tool input cwd =
     (let editPath = (if tool \<in> {''Edit'', ''Write'', ''NotebookEdit''}
                      then (case input (fileRulePathField tool) of Some (JStr p) \<Rightarrow> Some p | _ \<Rightarrow> None) else None);
          url = (if tool = ''WebFetch'' then (case input ''url'' of Some (JStr u) \<Rightarrow> Some u | _ \<Rightarrow> None) else None)
      in case editPath of
           Some p \<Rightarrow> map_sum id (\<lambda>k. [k]) (durableTargetKey fs (path_resolve (fs_cwd fs) cwd p))
         | None \<Rightarrow>
             (case url of
                Some u \<Rightarrow> Inr [toLowerCase u]
              | None \<Rightarrow>
                  if tool \<in> {''Bash'', ''Read'', ''Glob'', ''Grep''} then
                    (case registered tool of
                       Some extractPaths \<Rightarrow>
                         map_sum id (sort_by unit_le)
                           (all_results (\<lambda>p. durableTargetKey fs (path_resolve (fs_cwd fs) cwd p))
                             (fst (extractPaths input) @ snd (extractPaths input)))
                     | None \<Rightarrow> Inr [])
                  else Inr []))"

definition withIssuedResolvedTargets :: "file_system \<Rightarrow> path_extractors \<Rightarrow> approval_record \<Rightarrow> string + approval_record" where
  "withIssuedResolvedTargets fs registered approval =
     (if ap_issuedResolvedTargets approval \<noteq> None then Inr approval
      else map_sum id (\<lambda>targets. approval\<lparr>ap_issuedResolvedTargets := Some targets\<rparr>)
             (extractNormalizedTargets fs registered (ap_toolName approval) (ap_originalInput approval) (ap_issuedCwd approval)))"

subsection \<open>Revalidation\<close>

record revalidation_context =
  rv_runtimeKind :: string
  rv_sessionId :: string
  rv_backendSessionId :: string
  rv_toolUseID :: string
  rv_policyMode :: permission_mode
  rv_policyVersion :: nat
  rv_policyHash :: string
  rv_cwd :: string
  rv_home :: string

datatype revalidation_axis = AxisSession | AxisToolCall | AxisPolicy | AxisPaths | AxisRuntime

definition NUL :: char where
  "NUL = CHR 0x00"

fun mode_text :: "permission_mode \<Rightarrow> string" where
  "mode_text Default = ''default''"
| "mode_text AcceptEdits = ''acceptEdits''"
| "mode_text BypassPermissions = ''bypassPermissions''"
| "mode_text Plan = ''plan''"
| "mode_text DontAsk = ''dontAsk''"
| "mode_text Auto = ''auto''"

text \<open>The verdict is \<open>None\<close>, or the axis that failed with the reason.\<close>

definition revalidateApproval ::
  "file_system \<Rightarrow> path_extractors \<Rightarrow> approval_record \<Rightarrow> revalidation_context \<Rightarrow> string + (revalidation_axis \<times> string) option" where
  "revalidateApproval fs registered approval ctx =
     (if ap_sessionId approval \<noteq> rv_sessionId ctx then
        Inr (Some (AxisSession, ''session mismatch: approval issued for session '' @ ap_sessionId approval
                     @ '', current session is '' @ rv_sessionId ctx))
      else if ap_toolUseID approval \<noteq> rv_toolUseID ctx then
        Inr (Some (AxisToolCall, ''tool call mismatch: approval is for toolUseID '' @ ap_toolUseID approval
                     @ '', current toolUseID is '' @ rv_toolUseID ctx))
      else if ap_policyMode approval \<noteq> rv_policyMode ctx then
        Inr (Some (AxisPolicy, ''policy drift: approval issued under mode='' @ mode_text (ap_policyMode approval)
                     @ '', current mode='' @ mode_text (rv_policyMode ctx)))
      else if ap_policyHash approval \<noteq> Some (rv_policyHash ctx) then
        Inr (Some (AxisPolicy, ''policy drift: approval issued under policyHash=''
                     @ the_default ''(absent -- pre-P2-fix-wave record, fails closed)'' (ap_policyHash approval)
                     @ '', current policyHash='' @ rv_policyHash ctx))
      else
        bind_result (case ap_issuedResolvedTargets approval of
                       Some targets \<Rightarrow> Inr targets
                     | None \<Rightarrow> extractNormalizedTargets fs registered (ap_toolName approval) (ap_originalInput approval) (ap_issuedCwd approval))
          (\<lambda>issuedTargets.
        bind_result (extractNormalizedTargets fs registered (ap_toolName approval) (ap_originalInput approval) (rv_cwd ctx)) (\<lambda>currentTargets.
          if join_with [NUL] issuedTargets \<noteq> join_with [NUL] currentTargets then
            Inr (Some (AxisPaths, ''normalized target drift: issued against ['' @ join_with '', '' issuedTargets
                         @ ''], now resolves to ['' @ join_with '', '' currentTargets @ '']''))
          else if ap_runtimeKind approval \<noteq> rv_runtimeKind ctx \<or> ap_backendSessionId approval \<noteq> rv_backendSessionId ctx then
            Inr (Some (AxisRuntime, ''runtime ownership mismatch: approval belongs to '' @ ap_runtimeKind approval @ ''/''
                         @ ap_backendSessionId approval @ '', current runtime is '' @ rv_runtimeKind ctx @ ''/'' @ rv_backendSessionId ctx))
          else Inr None)))"

subsection \<open>Envelopes\<close>

definition system_resolution :: "string \<Rightarrow> string \<Rightarrow> approval_resolution" where
  "system_resolution at reason =
     \<lparr>rs_mechanism = BySystem, rs_at = at, rs_message = None, rs_transformedInput = None, rs_updatedPermissions = None,
      rs_decisionClassification = None, rs_reason = Some reason\<rparr>"

definition response_resolution :: "approval_response \<Rightarrow> string \<Rightarrow> approval_resolution" where
  "response_resolution response at =
     \<lparr>rs_mechanism = ar_mechanism response, rs_at = at, rs_message = ar_message response,
      rs_transformedInput = ar_transformedInput response, rs_updatedPermissions = ar_updatedPermissions response,
      rs_decisionClassification = ar_decisionClassification response, rs_reason = None\<rparr>"

text \<open>What an envelope for a known request makes of its record; \<open>None\<close> when it is inert.\<close>

definition transition :: "approval_record \<Rightarrow> approval_envelope \<Rightarrow> approval_record option" where
  "transition current envelope =
     (case envelope of
        EvRecord _ \<Rightarrow> None
      | EvResponse _ response at \<Rightarrow>
          if ap_state current \<noteq> ApPending then None
          else Some (current\<lparr>ap_state := if ar_allowed response then ApAllowed else ApDenied,
                             ap_resolution := Some (response_resolution response at)\<rparr>)
      | EvCancel _ reason at \<Rightarrow>
          if ap_state current \<noteq> ApPending then None
          else Some (current\<lparr>ap_state := ApCancelled, ap_resolution := Some (system_resolution at reason)\<rparr>)
      | EvExpire _ reason at \<Rightarrow>
          if ap_state current \<noteq> ApPending \<and> ap_state current \<noteq> ApAllowed then None
          else if ap_consumedAt current \<noteq> None then None
          else Some (current\<lparr>ap_state := ApExpired, ap_resolution := Some (system_resolution at reason)\<rparr>)
      | EvConsuming _ at \<Rightarrow>
          if ap_state current \<noteq> ApAllowed then None
          else if ap_consumedAt current \<noteq> None \<or> ap_consumingAt current \<noteq> None then None
          else Some (current\<lparr>ap_consumingAt := Some at\<rparr>)
      | EvConsumed _ result at \<Rightarrow>
          if ap_consumedAt current \<noteq> None then None
          else Some (current\<lparr>ap_consumedAt := Some at, ap_consumedResult := Some (co_output result),
                             ap_consumedIsError := (co_isError result \<or> ap_consumedIsError current)\<rparr>))"

fun envelope_id :: "approval_envelope \<Rightarrow> string" where
  "envelope_id (EvRecord approval) = ap_requestId approval"
| "envelope_id (EvResponse i _ _) = i"
| "envelope_id (EvCancel i _ _) = i"
| "envelope_id (EvExpire i _ _) = i"
| "envelope_id (EvConsumed i _ _) = i"
| "envelope_id (EvConsuming i _) = i"

definition applyEnvelope :: "approval_envelope \<Rightarrow> approval_map \<Rightarrow> approval_map" where
  "applyEnvelope envelope m =
     (case map_of m (envelope_id envelope) of
        None \<Rightarrow> (case envelope of EvRecord approval \<Rightarrow> AList.update (ap_requestId approval) approval m | _ \<Rightarrow> m)
      | Some current \<Rightarrow>
          (case transition current envelope of
             Some updated \<Rightarrow> AList.update (envelope_id envelope) updated m
           | None \<Rightarrow> m))"

definition filterAndSort :: "(string \<Rightarrow> string \<Rightarrow> bool) \<Rightarrow> approval_map \<Rightarrow> string \<Rightarrow> (approval_record \<Rightarrow> bool) \<Rightarrow> approval_record list" where
  "filterAndSort at_most m sessionId statePredicate =
     sort_by (\<lambda>a b. at_most (ap_issuedAt a) (ap_issuedAt b)) (filter (\<lambda>r. ap_sessionId r = sessionId \<and> statePredicate r) (map snd m))"

subsection \<open>Operations\<close>

definition pendingFor :: "(string \<Rightarrow> string \<Rightarrow> bool) \<Rightarrow> approval_map \<Rightarrow> string \<Rightarrow> approval_record list" where
  "pendingFor at_most m sessionId = filterAndSort at_most m sessionId (\<lambda>r. ap_state r = ApPending)"

definition listFor :: "(string \<Rightarrow> string \<Rightarrow> bool) \<Rightarrow> approval_map \<Rightarrow> string \<Rightarrow> approval_record list" where
  "listFor at_most m sessionId = filterAndSort at_most m sessionId (\<lambda>_. True)"

datatype store_op =
    OpRecord approval_record
  | OpRespond string approval_response string
  | OpCancelPending string string string
  | OpExpire string string string
  | OpMarkConsumed string consumed_result string
  | OpMarkConsuming string string

record store_host =
  sh_fs :: file_system
  sh_registered :: path_extractors
  sh_atMost :: "string \<Rightarrow> string \<Rightarrow> bool"

text \<open>The envelopes an operation emits, in order; both stores emit the same.\<close>

definition op_envelopes :: "store_host \<Rightarrow> approval_map \<Rightarrow> store_op \<Rightarrow> approval_error + approval_envelope list" where
  "op_envelopes host m op =
     (case op of
        OpRecord approval \<Rightarrow>
          map_sum TargetError (\<lambda>a. [EvRecord a]) (withIssuedResolvedTargets (sh_fs host) (sh_registered host) approval)
      | OpRespond requestId response at \<Rightarrow>
          if map_of m requestId = None then Inl (NoSuchRequest requestId) else Inr [EvResponse requestId response at]
      | OpCancelPending sessionId reason at \<Rightarrow>
          Inr (map (\<lambda>r. EvCancel (ap_requestId r) reason at) (pendingFor (sh_atMost host) m sessionId))
      | OpExpire requestId reason at \<Rightarrow> Inr [EvExpire requestId reason at]
      | OpMarkConsumed requestId result at \<Rightarrow> Inr [EvConsumed requestId result at]
      | OpMarkConsuming requestId at \<Rightarrow> Inr [EvConsuming requestId at])"

definition createInMemoryApprovalStore :: approval_map where
  "createInMemoryApprovalStore = []"

definition memory_op :: "store_host \<Rightarrow> store_op \<Rightarrow> approval_map \<Rightarrow> approval_error + approval_map" where
  "memory_op host op m = map_sum id (\<lambda>es. fold applyEnvelope es m) (op_envelopes host m op)"

text \<open>Whether \<open>respond\<close> reports that the response was applied.\<close>

definition respond_applied :: "approval_map \<Rightarrow> string \<Rightarrow> bool" where
  "respond_applied m requestId \<longleftrightarrow> (case map_of m requestId of Some r \<Rightarrow> ap_state r = ApPending | None \<Rightarrow> False)"

subsection \<open>The file\<close>

definition assertSafePathSegment :: "string \<Rightarrow> string \<Rightarrow> approval_error option" where
  "assertSafePathSegment value label =
     (if value = [] \<or> value = ''.'' \<or> value = ''..'' \<or> CHR ''/'' \<in> set value then Some (UnsafeSegment label value) else None)"

definition projectDir :: "string \<Rightarrow> string \<Rightarrow> approval_error + string" where
  "projectDir winterHome projectKey =
     (case assertSafePathSegment projectKey ''projectKey'' of
        Some e \<Rightarrow> Inl e
      | None \<Rightarrow> Inr (path_join [winterHome, ''projects'', projectKey]))"

definition approvalsPath :: "string \<Rightarrow> string \<Rightarrow> string \<Rightarrow> approval_error + string" where
  "approvalsPath winterHome projectKey sessionId =
     (case assertSafePathSegment sessionId ''sessionId'' of
        Some e \<Rightarrow> Inl e
      | None \<Rightarrow> bind_result (projectDir winterHome projectKey) (\<lambda>dir. Inr (path_join [dir, sessionId @ ''.approvals.jsonl''])))"

record file_store =
  fst_text :: string
  fst_map :: approval_map

definition appendJsonLine :: "(approval_envelope \<Rightarrow> string) \<Rightarrow> approval_envelope \<Rightarrow> string \<Rightarrow> string" where
  "appendJsonLine line_of envelope txt = txt @ line_of envelope @ [newline]"

definition persistAndApply :: "(approval_envelope \<Rightarrow> string) \<Rightarrow> approval_envelope \<Rightarrow> file_store \<Rightarrow> file_store" where
  "persistAndApply line_of envelope s =
     \<lparr>fst_text = appendJsonLine line_of envelope (fst_text s), fst_map = applyEnvelope envelope (fst_map s)\<rparr>"

definition real_lines :: "string \<Rightarrow> (nat \<times> string) list" where
  "real_lines txt = filter (\<lambda>(_, l). trim l \<noteq> []) (enumerate 0 (split_on newline txt))"

fun load_lines :: "(string \<Rightarrow> approval_envelope option) \<Rightarrow> (nat \<times> string) list \<Rightarrow> approval_map \<Rightarrow> approval_error + approval_map" where
  "load_lines parse [] m = Inr m"
| "load_lines parse ((i, line) # ls) m =
     (case parse line of
        Some envelope \<Rightarrow> load_lines parse ls (applyEnvelope envelope m)
      | None \<Rightarrow> if ls = [] then Inr m else Inl (MalformedLine (i + 1)))"

text \<open>\<open>None\<close> is a missing file.\<close>

definition loadExisting :: "(string \<Rightarrow> approval_envelope option) \<Rightarrow> string option \<Rightarrow> approval_error + approval_map" where
  "loadExisting parse contents = (case contents of None \<Rightarrow> Inr [] | Some txt \<Rightarrow> load_lines parse (real_lines txt) [])"

definition createFileDurableApprovalStore :: "(string \<Rightarrow> approval_envelope option) \<Rightarrow> string option \<Rightarrow> approval_error + file_store" where
  "createFileDurableApprovalStore parse contents =
     map_sum id (\<lambda>m. \<lparr>fst_text = the_default [] contents, fst_map = m\<rparr>) (loadExisting parse contents)"

definition file_op :: "(approval_envelope \<Rightarrow> string) \<Rightarrow> store_host \<Rightarrow> store_op \<Rightarrow> file_store \<Rightarrow> approval_error + file_store" where
  "file_op line_of host op s = map_sum id (\<lambda>es. fold (persistAndApply line_of) es s) (op_envelopes host (fst_map s) op)"

subsection \<open>The life of an approval\<close>

text \<open>One step of a record: the request is fixed, only a pending or an allowed request moves, and what ran is recorded once.\<close>

inductive approval_step :: "approval_record \<Rightarrow> approval_record \<Rightarrow> bool" where
  respond: "ap_state r = ApPending \<Longrightarrow> s \<in> {ApAllowed, ApDenied} \<Longrightarrow>
     approval_step r (r\<lparr>ap_state := s, ap_resolution := Some res\<rparr>)"
| cancel: "ap_state r = ApPending \<Longrightarrow> approval_step r (r\<lparr>ap_state := ApCancelled, ap_resolution := Some res\<rparr>)"
| expire: "ap_state r \<in> {ApPending, ApAllowed} \<Longrightarrow> ap_consumedAt r = None \<Longrightarrow>
     approval_step r (r\<lparr>ap_state := ApExpired, ap_resolution := Some res\<rparr>)"
| consuming: "ap_state r = ApAllowed \<Longrightarrow> ap_consumedAt r = None \<Longrightarrow> ap_consumingAt r = None \<Longrightarrow>
     approval_step r (r\<lparr>ap_consumingAt := Some at\<rparr>)"
| consumed: "ap_consumedAt r = None \<Longrightarrow>
     approval_step r (r\<lparr>ap_consumedAt := Some at, ap_consumedResult := Some out, ap_consumedIsError := err\<rparr>)"

inductive_cases approval_stepE: "approval_step r r'"

lemma transition_step: "transition r envelope = Some r' \<Longrightarrow> approval_step r r'"
  by (cases envelope) (auto simp: transition_def intro: approval_step.intros split: if_splits)

lemma map_of_applyEnvelope:
  "map_of (applyEnvelope envelope m) i =
     (if i = envelope_id envelope then
        (case map_of m i of
           None \<Rightarrow> (case envelope of EvRecord approval \<Rightarrow> Some approval | _ \<Rightarrow> None)
         | Some r \<Rightarrow> (case transition r envelope of Some r' \<Rightarrow> Some r' | None \<Rightarrow> Some r))
      else map_of m i)"
  by (auto simp: applyEnvelope_def update_conv split: option.splits approval_envelope.splits)

lemma applyEnvelope_step:
  "map_of m i = Some r \<Longrightarrow> \<exists>r'. map_of (applyEnvelope envelope m) i = Some r' \<and> approval_step\<^sup>*\<^sup>* r r'"
  by (auto simp: map_of_applyEnvelope split: option.splits dest: transition_step)

lemma replay_steps: "map_of m i = Some r \<Longrightarrow> \<exists>r'. map_of (fold applyEnvelope es m) i = Some r' \<and> approval_step\<^sup>*\<^sup>* r r'"
proof (induction es arbitrary: m r)
  case (Cons e es)
  from applyEnvelope_step [OF Cons.prems] obtain r1 where r1: "map_of (applyEnvelope e m) i = Some r1" "approval_step\<^sup>*\<^sup>* r r1" by blast
  from Cons.IH [OF r1(1)] r1(2) show ?case by (auto intro: rtranclp_trans)
qed auto

definition same_request :: "approval_record \<Rightarrow> approval_record \<Rightarrow> bool" where
  "same_request r r' \<longleftrightarrow>
     ap_requestId r' = ap_requestId r \<and> ap_sessionId r' = ap_sessionId r \<and> ap_toolUseID r' = ap_toolUseID r
     \<and> ap_toolName r' = ap_toolName r \<and> ap_originalInput r' = ap_originalInput r
     \<and> ap_policyMode r' = ap_policyMode r \<and> ap_policyHash r' = ap_policyHash r
     \<and> ap_issuedResolvedTargets r' = ap_issuedResolvedTargets r"

definition outcome_kept :: "approval_record \<Rightarrow> approval_record \<Rightarrow> bool" where
  "outcome_kept r r' \<longleftrightarrow>
     (ap_state r \<in> {ApDenied, ApCancelled, ApExpired} \<longrightarrow> ap_state r' = ap_state r \<and> ap_resolution r' = ap_resolution r)
     \<and> (ap_consumedAt r \<noteq> None \<longrightarrow> ap_consumedAt r' = ap_consumedAt r \<and> ap_consumedResult r' = ap_consumedResult r
          \<and> ap_consumedIsError r' = ap_consumedIsError r)
     \<and> (ap_consumingAt r \<noteq> None \<longrightarrow> ap_consumingAt r' = ap_consumingAt r)
     \<and> (ap_state r' = ApAllowed \<longrightarrow> ap_state r \<in> {ApPending, ApAllowed})
     \<and> (ap_state r = ApAllowed \<longrightarrow> ap_state r' \<in> {ApAllowed, ApExpired})"

lemma step_keeps: "approval_step r r' \<Longrightarrow> same_request r r' \<and> outcome_kept r r'"
  by (induction rule: approval_step.induct) (auto simp: same_request_def outcome_kept_def)

lemma kept_trans:
  assumes "outcome_kept a b" "outcome_kept b c"
  shows "outcome_kept a c"
  using assms unfolding outcome_kept_def by (cases "ap_state a"; cases "ap_state b") simp_all

lemma steps_keep: "approval_step\<^sup>*\<^sup>* r r' \<Longrightarrow> same_request r r' \<and> outcome_kept r r'"
proof (induction rule: rtranclp_induct)
  case base
  then show ?case by (simp add: same_request_def outcome_kept_def)
next
  case (step y z)
  then show ?case using step_keeps [of y z] kept_trans [of r y z] by (simp add: same_request_def)
qed

text \<open>
  C22: a durable approval is settled once. Whatever envelopes follow, the request itself (tool,
  input, session, policy, resolved targets) never changes, a denied, cancelled or expired request stays so with its resolution, an
  allowed one can only expire, and a recorded execution, or the intent of one, is never overwritten.
\<close>

theorem approval_settled_once:
  assumes "map_of m i = Some r"
  shows "\<exists>r'. map_of (fold applyEnvelope es m) i = Some r' \<and> same_request r r' \<and> outcome_kept r r'"
  using replay_steps [OF assms, of es] steps_keep by blast

subsection \<open>The log\<close>

definition log_text :: "(approval_envelope \<Rightarrow> string) \<Rightarrow> approval_envelope list \<Rightarrow> string" where
  "log_text line_of es = concat (map (\<lambda>e. line_of e @ [newline]) es)"

lemma log_text_simps [simp]:
  "log_text line_of [] = []" "log_text line_of (e # es) = line_of e @ newline # log_text line_of es"
  "log_text line_of (es @ fs) = log_text line_of es @ log_text line_of fs"
  by (simp_all add: log_text_def)

lemma filter_enumerate_append:
  "filter P (enumerate n (xs @ ys)) = filter P (enumerate n xs) @ filter P (enumerate (n + length xs) ys)"
  by (simp add: enumerate_append_eq)

lemma filter_enumerate_empty: "filter (\<lambda>(_, l). P l) (enumerate n xs) = [] \<longleftrightarrow> (\<forall>l\<in>set xs. \<not> P l)"
  by (induction xs arbitrary: n) auto

locale log_codec =
  fixes line_of :: "approval_envelope \<Rightarrow> string" and parse :: "string \<Rightarrow> approval_envelope option" and written :: "approval_envelope set"
  assumes parses: "e \<in> written \<Longrightarrow> parse (line_of e) = Some e"
    and one_line: "e \<in> written \<Longrightarrow> newline \<notin> set (line_of e)"
    and not_blank: "e \<in> written \<Longrightarrow> trim (line_of e) \<noteq> []"
begin

lemma split_log: "set es \<subseteq> written \<Longrightarrow> split_on newline (log_text line_of es @ tail) = map line_of es @ split_on newline tail"
  by (induction es) (auto simp: one_line split_on_append)

lemma real_lines_log:
  assumes "set es \<subseteq> written"
  shows "real_lines (log_text line_of es @ tail) =
    enumerate 0 (map line_of es) @ filter (\<lambda>(_, l). trim l \<noteq> []) (enumerate (length es) (split_on newline tail))"
proof -
  have nb: "\<And>e. e \<in> set es \<Longrightarrow> trim (line_of e) \<noteq> []" using assms not_blank by blast
  have "filter (\<lambda>(_, l). trim l \<noteq> []) (enumerate n (map line_of es)) = enumerate n (map line_of es)" for n
    using nb by (induction es arbitrary: n) auto
  then show ?thesis by (simp add: real_lines_def split_log [OF assms] filter_enumerate_append)
qed

lemma load_log:
  "set es \<subseteq> written \<Longrightarrow> load_lines parse (enumerate n (map line_of es) @ ls) m = load_lines parse ls (fold applyEnvelope es m)"
  by (induction es arbitrary: n m) (auto simp: parses)

lemma replay: "set es \<subseteq> written \<Longrightarrow> loadExisting parse (Some (log_text line_of es)) = Inr (fold applyEnvelope es [])"
  using real_lines_log [of es "[]"] load_log [of es 0 "[]" "[]"] by (simp add: loadExisting_def trim_def trimStart_def)

lemma replay_torn:
  assumes "set es \<subseteq> written" "newline \<notin> set torn" "parse torn = None"
  shows "loadExisting parse (Some (log_text line_of es @ torn)) = Inr (fold applyEnvelope es [])"
  using real_lines_log [OF assms(1), of torn] load_log [OF assms(1), of 0] assms(2,3)
  by (auto simp: loadExisting_def split_on_single)

lemma replay_torn_line:
  assumes "set es \<subseteq> written" "newline \<notin> set torn" "parse torn = None" "trim torn \<noteq> []"
  shows "loadExisting parse (Some (log_text line_of es @ torn @ newline # tail)) =
    (if real_lines tail = [] then Inr (fold applyEnvelope es []) else Inl (MalformedLine (Suc (length es))))"
proof -
  have "filter (\<lambda>(_, l). trim l \<noteq> []) (enumerate n (split_on newline tail)) = [] \<longleftrightarrow> real_lines tail = []" for n
    unfolding real_lines_def filter_enumerate_empty ..
  then show ?thesis
    using real_lines_log [OF assms(1), of "torn @ newline # tail"] load_log [OF assms(1), of 0] assms(2-4)
    by (auto simp: loadExisting_def split_on_append)
qed

end

lemma unit_no_newline: "newline \<notin> set (json_unit c)"
proof -
  have "\<not> hex_digit newline" by code_simp
  then have h: "newline \<noteq> hex_lower n" for n using hex_lower_props(1) [of n] by metis
  have "newline \<notin> set ''u00''" "newline \<noteq> CHR ''b''" "newline \<noteq> CHR ''t''" "newline \<noteq> CHR ''n''" "newline \<noteq> CHR ''f''" "newline \<noteq> CHR ''r''"
    by (simp_all add: newline_def)
  then show ?thesis using h by (auto simp: json_unit_def)
qed

lemma json_text_no_newline: "newline \<notin> set (json_text s)"
  using unit_no_newline by (auto simp: json_text_def js_defs)

lemma join_no_newline: "newline \<notin> set sep \<Longrightarrow> \<forall>x\<in>set xs. newline \<notin> set x \<Longrightarrow> newline \<notin> set (join_with sep xs)"
  by (induction sep xs rule: join_with.induct) auto

lemma stringify_no_newline: "newline \<notin> set (stringify v)"
proof (induction v)
  case (JNum i)
  have "list_all (\<lambda>c. c \<noteq> newline) (show_radix 10 n)" for n
  proof (rule show_radix_all)
    fix d :: nat assume "d < 10"
    then have "is_digit (digit_char d)" by (simp add: digit_chars(3))
    moreover have "\<not> is_digit newline" by code_simp
    ultimately show "digit_char d \<noteq> newline" by metis
  qed simp
  then show ?case by (auto simp: int_text_def list_all_iff newline_def)
next
  case (JArr vs)
  then show ?case using join_no_newline [of "'',''" "map stringify vs"] by (auto simp: newline_def)
next
  case (JObj kvs)
  have "newline \<notin> set (stringify (snd kv))" if "kv \<in> set kvs" for kv
    using that JObj [of kv "snd kv"] by (simp add: prod_set_simps snds.simps prod_eq_iff)
  then show ?case
    using json_text_no_newline join_no_newline [of "'',''" "map (\<lambda>kv. json_text (fst kv) @ '':'' @ stringify (snd kv)) kvs"]
    by (auto simp: newline_def)
qed (use json_text_no_newline in \<open>auto simp: newline_def\<close>)

definition json_line :: "(approval_envelope \<Rightarrow> json) \<Rightarrow> approval_envelope \<Rightarrow> string" where
  "json_line encode e = stringify (encode e)"

definition parse_line :: "(json \<Rightarrow> approval_envelope option) \<Rightarrow> string \<Rightarrow> approval_envelope option" where
  "parse_line decode l = Option.bind (json_parse l) decode"

definition writable :: "(approval_envelope \<Rightarrow> json) \<Rightarrow> (json \<Rightarrow> approval_envelope option) \<Rightarrow> approval_envelope \<Rightarrow> bool" where
  "writable encode decode e \<longleftrightarrow> (\<exists>kvs. encode e = JObj kvs) \<and> distinct_keys (encode e) \<and> decode (encode e) = Some e"

lemma trim_Nil: "trim s = [] \<longleftrightarrow> (\<forall>c\<in>set s. is_ws c)"
proof
  assume "trim s = []"
  then have "\<forall>c\<in>set (dropWhile is_ws s). is_ws c" by (simp add: trim_def trimStart_def dropWhile_eq_Nil_conv)
  then have "dropWhile is_ws s = []" by (metis hd_dropWhile hd_in_set)
  then show "\<forall>c\<in>set s. is_ws c" by (simp add: dropWhile_eq_Nil_conv)
next
  assume "\<forall>c\<in>set s. is_ws c"
  then show "trim s = []" by (auto simp: trim_def trimStart_def dest: set_dropWhileD)
qed

lemma object_not_blank: "trim (stringify (JObj kvs)) \<noteq> []"
  by (auto simp: trim_Nil is_ws_def)

interpretation json_log: log_codec "json_line encode" "parse_line decode" "{e. writable encode decode e}" for encode decode
proof unfold_locales
  fix e assume "e \<in> {e. writable encode decode e}"
  then obtain kvs where e: "encode e = JObj kvs" "distinct_keys (encode e)" "decode (encode e) = Some e" by (auto simp: writable_def)
  show "parse_line decode (json_line encode e) = Some e"
    using json_read_back [OF e(2)] e(3) by (simp add: parse_line_def json_line_def)
  show "newline \<notin> set (json_line encode e)" by (simp add: json_line_def stringify_no_newline)
  show "trim (json_line encode e) \<noteq> []" using object_not_blank e(1) by (simp add: json_line_def)
qed

lemma file_fold:
  "fold (persistAndApply line_of) es s = \<lparr>fst_text = fst_text s @ log_text line_of es, fst_map = fold applyEnvelope es (fst_map s)\<rparr>"
  by (induction es arbitrary: s) (simp_all add: persistAndApply_def appendJsonLine_def)

lemma torn_line:
  assumes "writable encode decode e" "k < length (json_line encode e)"
  shows "parse_line decode (take k (json_line encode e)) = None" "newline \<notin> set (take k (json_line encode e))"
proof -
  obtain kvs where e: "encode e = JObj kvs" using assms(1) by (auto simp: writable_def)
  have "stringify (JObj kvs) = take k (json_line encode e) @ drop k (json_line encode e)" using e by (simp add: json_line_def del: stringify.simps)
  moreover have "drop k (json_line encode e) \<noteq> []" using assms(2) by simp
  ultimately have "json_parse (take k (json_line encode e)) = None" by (rule torn_object)
  then show "parse_line decode (take k (json_line encode e)) = None" by (simp add: parse_line_def)
  show "newline \<notin> set (take k (json_line encode e))"
    using stringify_no_newline [of "encode e"] by (auto simp: json_line_def dest: in_set_takeD)
qed

text \<open>
  C23: the file store is the in-memory store made durable. From a file whose lines replay to the map, an
  operation has the effect it has on the in-memory store, the new file replays to the new map, and when the process dies
  inside a line, the file replays to the map after the lines that were written whole.
\<close>

theorem file_store_refines_memory:
  assumes "fst_text s = log_text (json_line encode) es" "fst_map s = fold applyEnvelope es []"
    and "op_envelopes host (fst_map s) op = Inr fs" "\<forall>e\<in>set (es @ fs). writable encode decode e"
  shows "(\<exists>s'. file_op (json_line encode) host op s = Inr s' \<and> memory_op host op (fst_map s) = Inr (fst_map s')
      \<and> loadExisting (parse_line decode) (Some (fst_text s')) = Inr (fst_map s'))
    \<and> (\<forall>gs e hs k. fs = gs @ e # hs \<and> k < length (json_line encode e) \<longrightarrow>
      loadExisting (parse_line decode) (Some (fst_text s @ log_text (json_line encode) gs @ take k (json_line encode e)))
        = Inr (fold applyEnvelope gs (fst_map s)))"
proof (intro conjI allI impI)
  have w: "set (es @ fs) \<subseteq> {e. writable encode decode e}" using assms(4) by auto
  from json_log.replay [OF w] assms(1-3)
  show "\<exists>s'. file_op (json_line encode) host op s = Inr s' \<and> memory_op host op (fst_map s) = Inr (fst_map s')
      \<and> loadExisting (parse_line decode) (Some (fst_text s')) = Inr (fst_map s')"
    by (simp add: file_op_def memory_op_def file_fold)
  fix gs e hs k assume fs: "fs = gs @ e # hs \<and> k < length (json_line encode e)"
  have g: "set (es @ gs) \<subseteq> {e. writable encode decode e}" "writable encode decode e" using w fs by auto
  from json_log.replay_torn [OF g(1) torn_line(2,1) [OF g(2) conjunct2 [OF fs]]]
  show "loadExisting (parse_line decode) (Some (fst_text s @ log_text (json_line encode) gs @ take k (json_line encode e)))
        = Inr (fold applyEnvelope gs (fst_map s))"
    using assms(1,2) by simp
qed

text \<open>
  A torn line swallows the next append. The loader drops an unfinished last line but leaves it in the
  file, so the first envelope written after the restart lands on the same line. When the glued line does not parse, that envelope is lost at the next
  load, and with one more envelope after it the file cannot be loaded at all.
\<close>

theorem torn_line_swallows_append:
  assumes "\<forall>e\<in>set es. writable encode decode e" "writable encode decode e" "k < length (json_line encode e)" "k \<noteq> 0"
    and "parse_line decode (take k (json_line encode e) @ json_line encode e') = None"
  shows "loadExisting (parse_line decode) (Some (appendJsonLine (json_line encode) e' (log_text (json_line encode) es @ take k (json_line encode e))))
      = Inr (fold applyEnvelope es [])
    \<and> (writable encode decode e'' \<longrightarrow>
       loadExisting (parse_line decode) (Some (appendJsonLine (json_line encode) e''
         (appendJsonLine (json_line encode) e' (log_text (json_line encode) es @ take k (json_line encode e)))))
       = Inl (MalformedLine (Suc (length es))))"
proof -
  let ?torn = "take k (json_line encode e) @ json_line encode e'"
  have w: "set es \<subseteq> {e. writable encode decode e}" using assms(1) by auto
  have n: "newline \<notin> set ?torn" using torn_line(2) [OF assms(2,3)] stringify_no_newline by (auto simp: json_line_def)
  obtain kvs where "encode e = JObj kvs" using assms(2) by (auto simp: writable_def)
  then have "CHR ''{'' \<in> set (take k (json_line encode e))" using assms(4) by (cases k) (auto simp: json_line_def)
  then have b: "trim ?torn \<noteq> []" by (auto simp: trim_Nil is_ws_def)
  have l: "real_lines (json_line encode e'' @ [newline]) \<noteq> []" if "writable encode decode e''"
    using json_log.not_blank [of e'' encode decode] json_log.one_line [of e'' encode decode] that
    by (simp add: real_lines_def split_on_append)
  show ?thesis
    using json_log.replay_torn_line [OF w n assms(5) b, of "[]"] json_log.replay_torn_line [OF w n assms(5) b, of "json_line encode e'' @ [newline]"] l
    by (auto simp: appendJsonLine_def real_lines_def trim_Nil)
qed

end
