(* ===== verification/Resume.thy ===== *)
theory Resume
  imports Approvals
begin

text \<open>
  Consuming durable approvals when a session is resumed (\<^verbatim>\<open>engine.ts\<close>: the scan before the turn loop). The scan walks over
  the records of the session, finds the deferred tool result in the rebuilt messages, and replaces it by what became of the
  call. Its outward effects are a sequence of appended envelopes and executions; a crash cuts the
  sequence at any point. Over the whole life of a log, with any number of interrupted resumes, no call runs twice.
\<close>

subsection \<open>Messages\<close>

record tool_result =
  tr_toolUseId :: string
  tr_content :: string
  tr_isError :: bool
  tr_denied :: bool
  tr_error :: bool
  tr_deferred :: bool

datatype content_block = ToolResultBlock tool_result | OtherBlock json

datatype message_content = TextContent string | BlockContent "content_block list"

record provider_message =
  msg_role :: string
  msg_content :: message_content

fun block_index :: "string \<Rightarrow> content_block list \<Rightarrow> nat option" where
  "block_index i [] = None"
| "block_index i (b # bs) =
     (case b of
        ToolResultBlock t \<Rightarrow> if tr_toolUseId t = i then Some 0 else map_option Suc (block_index i bs)
      | OtherBlock _ \<Rightarrow> map_option Suc (block_index i bs))"

fun find_marker :: "string \<Rightarrow> provider_message list \<Rightarrow> (nat \<times> nat) option" where
  "find_marker i [] = None"
| "find_marker i (m # ms) =
     (case (if msg_role m = ''tool'' then (case msg_content m of BlockContent bs \<Rightarrow> block_index i bs | TextContent _ \<Rightarrow> None) else None) of
        Some bi \<Rightarrow> Some (0, bi)
      | None \<Rightarrow> map_option (\<lambda>(mi, bi). (Suc mi, bi)) (find_marker i ms))"

definition substitute :: "nat \<times> nat \<Rightarrow> tool_result \<Rightarrow> provider_message list \<Rightarrow> provider_message list" where
  "substitute pos t messages =
     (let current = messages ! fst pos in
      messages[fst pos := current\<lparr>msg_content :=
        (case msg_content current of
           BlockContent bs \<Rightarrow> BlockContent (bs[snd pos := ToolResultBlock t])
         | TextContent txt \<Rightarrow> TextContent txt)\<rparr>])"

definition result_for :: "approval_record \<Rightarrow> string \<Rightarrow> tool_result" where
  "result_for r content =
     \<lparr>tr_toolUseId = ap_toolUseID r, tr_content = content, tr_isError = False, tr_denied = False, tr_error = False, tr_deferred = False\<rparr>"

subsection \<open>The scan\<close>

datatype resume_effect = Wrote approval_envelope | Executed approval_record tool_input

record resume_host =
  rz_fs :: file_system
  rz_registered :: path_extractors
  rz_context :: "approval_record \<Rightarrow> revalidation_context"
  rz_execute :: "approval_record \<Rightarrow> tool_input \<Rightarrow> string + consumed_result"
  rz_now :: string

definition INTERRUPTED_REASON :: string where
  "INTERRUPTED_REASON =
     ''a prior execution attempt for this approval did not record its outcome (the process may have been interrupted mid-execution); re-approval is required''"

definition state_text :: "approval_state \<Rightarrow> string" where
  "state_text s = (case s of ApPending \<Rightarrow> ''pending'' | ApAllowed \<Rightarrow> ''allowed'' | ApDenied \<Rightarrow> ''denied'' | ApCancelled \<Rightarrow> ''cancelled'' | ApExpired \<Rightarrow> ''expired'')"

definition expired_result :: "approval_record \<Rightarrow> string \<Rightarrow> tool_result" where
  "expired_result r reason = (result_for r (''Approval expired: '' @ reason))\<lparr>tr_denied := True\<rparr>"

definition input_to_execute :: "approval_record \<Rightarrow> tool_input" where
  "input_to_execute r =
     (case Option.bind (ap_resolution r) rs_transformedInput of Some i \<Rightarrow> i | None \<Rightarrow> ap_originalInput r)"

definition run_call :: "resume_host \<Rightarrow> approval_record \<Rightarrow> resume_effect list \<times> tool_result" where
  "run_call host r =
     (let input = input_to_execute r; i = ap_requestId r; at = rz_now host;
          done_with = (\<lambda>res. [Wrote (EvConsuming i at), Executed r input, Wrote (EvConsumed i res at)])
      in case rz_execute host r input of
           Inr res \<Rightarrow> (done_with res, (result_for r (co_output res))\<lparr>tr_isError := co_isError res\<rparr>)
         | Inl txt \<Rightarrow>
             (done_with \<lparr>co_output = ''[error: '' @ txt @ '']'', co_isError = True\<rparr>,
              (result_for r (''[error: '' @ txt @ '']''))\<lparr>tr_error := True\<rparr>))"

text \<open>One record: the effects and the messages after it, or the file-system error that escapes.\<close>

definition resume_record ::
  "resume_host \<Rightarrow> approval_record \<Rightarrow> provider_message list \<Rightarrow> string + (resume_effect list \<times> provider_message list)" where
  "resume_record host r messages =
     (case find_marker (ap_toolUseID r) messages of
        None \<Rightarrow> Inr ([], messages)
      | Some pos \<Rightarrow>
          if ap_consumedAt r \<noteq> None then
            Inr ([], substitute pos ((result_for r (the_default [] (ap_consumedResult r)))\<lparr>tr_error := ap_consumedIsError r\<rparr>) messages)
          else if ap_consumingAt r \<noteq> None then
            Inr ([Wrote (EvExpire (ap_requestId r) INTERRUPTED_REASON (rz_now host))], substitute pos (expired_result r INTERRUPTED_REASON) messages)
          else if ap_state r = ApPending \<or> ap_state r = ApAllowed then
            bind_result (revalidateApproval (rz_fs host) (rz_registered host) r (rz_context host r)) (\<lambda>verdict.
              case verdict of
                Some (_, reason) \<Rightarrow>
                  Inr ([Wrote (EvExpire (ap_requestId r) reason (rz_now host))], substitute pos (expired_result r reason) messages)
              | None \<Rightarrow>
                  if ap_state r = ApPending then Inr ([], messages)
                  else Inr (fst (run_call host r), substitute pos (snd (run_call host r)) messages))
          else
            Inr ([], substitute pos ((result_for r
                       (case ap_resolution r of
                          Some res \<Rightarrow>
                            (case rs_message res of
                               Some msg \<Rightarrow> msg
                             | None \<Rightarrow> the_default (''Approval '' @ state_text (ap_state r)) (rs_reason res))
                        | None \<Rightarrow> ''Approval '' @ state_text (ap_state r)))\<lparr>tr_denied := True\<rparr>) messages))"

fun resume_records ::
  "resume_host \<Rightarrow> approval_record list \<Rightarrow> provider_message list \<Rightarrow> resume_effect list \<times> (string + provider_message list)" where
  "resume_records host [] messages = ([], Inr messages)"
| "resume_records host (r # rs) messages =
     (case resume_record host r messages of
        Inl e \<Rightarrow> ([], Inl e)
      | Inr (effects, messages') \<Rightarrow> map_prod (append effects) id (resume_records host rs messages'))"

definition resume_session ::
  "resume_host \<Rightarrow> (string \<Rightarrow> string \<Rightarrow> bool) \<Rightarrow> approval_map \<Rightarrow> string \<Rightarrow> provider_message list
    \<Rightarrow> resume_effect list \<times> (string + provider_message list)" where
  "resume_session host at_most m sessionId messages = resume_records host (listFor at_most m sessionId) messages"

subsection \<open>Exactly once\<close>

fun writes :: "resume_effect list \<Rightarrow> approval_envelope list" where
  "writes [] = []"
| "writes (Wrote e # es) = e # writes es"
| "writes (Executed r i # es) = writes es"

fun runs :: "resume_effect list \<Rightarrow> string list" where
  "runs [] = []"
| "runs (Wrote e # es) = runs es"
| "runs (Executed r i # es) = ap_requestId r # runs es"

lemma writes_append [simp]: "writes (a @ b) = writes a @ writes b"
  by (induction a rule: writes.induct) auto

lemma runs_append [simp]: "runs (a @ b) = runs a @ runs b"
  by (induction a rule: runs.induct) auto

lemma resume_record_effects:
  assumes "resume_record host r messages = Inr (effects, messages')"
  obtains (none) "effects = []"
    | (expire) reason at where "effects = [Wrote (EvExpire (ap_requestId r) reason at)]"
    | (run) res at input where "effects = [Wrote (EvConsuming (ap_requestId r) at), Executed r input, Wrote (EvConsumed (ap_requestId r) res at)]"
        "ap_state r = ApAllowed" "ap_consumedAt r = None" "ap_consumingAt r = None"
  using assms
  by (auto simp: resume_record_def run_call_def Let_def split: option.splits if_splits sum.splits)

lemma prefix_three: "prefix done [a, b, c] \<longleftrightarrow> done \<in> {[], [a], [a, b], [a, b, c]}"
  by (auto simp: prefix_Cons)

lemma fold_other: "\<forall>e\<in>set es. envelope_id e \<noteq> i \<Longrightarrow> map_of (fold applyEnvelope es m) i = map_of m i"
  by (induction es arbitrary: m) (auto simp: map_of_applyEnvelope)

definition intent :: "approval_map \<Rightarrow> string \<Rightarrow> bool" where
  "intent m i \<longleftrightarrow> (\<exists>r. map_of m i = Some r \<and> ap_consumingAt r \<noteq> None)"

lemma intent_kept: "intent m i \<Longrightarrow> intent (fold applyEnvelope es m) i"
proof -
  assume "intent m i"
  then obtain r where r: "map_of m i = Some r" "ap_consumingAt r \<noteq> None" by (auto simp: intent_def)
  from replay_steps [OF r(1), of es] obtain r' where r': "map_of (fold applyEnvelope es m) i = Some r'" "approval_step\<^sup>*\<^sup>* r r'" by blast
  from steps_keep [OF r'(2)] r(2) have "ap_consumingAt r' \<noteq> None" by (simp add: outcome_kept_def)
  with r'(1) show ?thesis by (auto simp: intent_def)
qed

lemma intent_written:
  assumes "map_of m (ap_requestId r) = Some r" "ap_state r = ApAllowed" "ap_consumedAt r = None" "ap_consumingAt r = None"
  shows "intent (applyEnvelope (EvConsuming (ap_requestId r) at) m) (ap_requestId r)"
  using assms by (simp add: intent_def map_of_applyEnvelope transition_def)

lemma record_prefix:
  assumes "resume_record host r messages = Inr (effects, messages')" "prefix es effects" "map_of m (ap_requestId r) = Some r"
  shows "(runs es = [] \<or> runs es = [ap_requestId r] \<and> ap_consumingAt r = None \<and> intent (fold applyEnvelope (writes es) m) (ap_requestId r))
    \<and> (\<forall>e\<in>set (writes es). envelope_id e = ap_requestId r)"
  using assms(1)
proof (cases rule: resume_record_effects)
  case (run res at input)
  have "intent (applyEnvelope (EvConsuming (ap_requestId r) at) m) (ap_requestId r)" using intent_written assms(3) run(2-4) by blast
  then show ?thesis
    using assms(2) run intent_kept [of _ _ "[EvConsumed (ap_requestId r) res at]"] by (auto simp: prefix_three)
qed (use assms(2) in \<open>auto simp: prefix_Cons\<close>)

lemma records_prefix:
  assumes "prefix es (fst (resume_records host rs messages))" "distinct (map ap_requestId rs)"
    and "\<forall>r\<in>set rs. map_of m (ap_requestId r) = Some r"
  shows "distinct (runs es) \<and> set (runs es) \<subseteq> {ap_requestId r | r. r \<in> set rs \<and> ap_consumingAt r = None}
    \<and> (\<forall>i\<in>set (runs es). intent (fold applyEnvelope (writes es) m) i)"
  using assms
proof (induction rs arbitrary: es messages m)
  case (Cons r rs)
  show ?case
  proof (cases "resume_record host r messages")
    case (Inr p)
    obtain effects messages' where p: "p = (effects, messages')" by fastforce
    have r: "resume_record host r messages = Inr (effects, messages')" "map_of m (ap_requestId r) = Some r" using Inr p Cons.prems(3) by auto
    from Cons.prems(1) have "prefix es (effects @ fst (resume_records host rs messages'))" using Inr p by (simp add: map_prod_def split: prod.splits)
    then consider "prefix es effects" | es' where "es = effects @ es'" "prefix es' (fst (resume_records host rs messages'))"
      by (auto simp: prefix_append)
    then show ?thesis
    proof cases
      case 1
      then show ?thesis using record_prefix [OF r(1) 1 r(2)] by auto
    next
      case 2
      note own = record_prefix [OF r(1) prefix_order.refl r(2)]
      let ?m = "fold applyEnvelope (writes effects) m"
      have "\<forall>r'\<in>set rs. map_of ?m (ap_requestId r') = Some r'"
      proof
        fix r' assume "r' \<in> set rs"
        moreover have "ap_requestId r \<notin> ap_requestId ` set rs" using Cons.prems(2) by simp
        ultimately have "ap_requestId r' \<noteq> ap_requestId r" "map_of m (ap_requestId r') = Some r'" using Cons.prems(3) by (metis image_eqI, simp)
        then show "map_of ?m (ap_requestId r') = Some r'" using own fold_other [of "writes effects" "ap_requestId r'" m] by auto
      qed
      from Cons.IH [OF 2(2) _ this] Cons.prems(2)
      have ih: "distinct (runs es')" "set (runs es') \<subseteq> {ap_requestId r | r. r \<in> set rs \<and> ap_consumingAt r = None}"
        "\<forall>i\<in>set (runs es'). intent (fold applyEnvelope (writes es') ?m) i" by auto
      have "ap_requestId r \<notin> set (runs es')" using ih(2) Cons.prems(2) by auto
      then show ?thesis using own ih 2(1) intent_kept [of ?m "ap_requestId r" "writes es'"] by auto
    qed
  qed (use Cons.prems(1) in simp)
qed simp

subsection \<open>The life of a log\<close>

definition well_keyed :: "approval_map \<Rightarrow> bool" where
  "well_keyed m \<longleftrightarrow> distinct (map fst m) \<and> (\<forall>i r. map_of m i = Some r \<longrightarrow> ap_requestId r = i)"

lemma transition_id: "transition r e = Some r' \<Longrightarrow> ap_requestId r' = ap_requestId r"
  using step_keeps [OF transition_step] by (auto simp: same_request_def)

lemma applyEnvelope_keyed:
  assumes "well_keyed m"
  shows "well_keyed (applyEnvelope e m)"
proof -
  have "distinct (map fst (applyEnvelope e m))"
    using assms by (auto simp: well_keyed_def applyEnvelope_def distinct_update split: option.splits approval_envelope.splits)
  moreover have "ap_requestId r = i" if "map_of (applyEnvelope e m) i = Some r" for i r
    using that assms by (auto simp: well_keyed_def map_of_applyEnvelope dest: transition_id split: if_splits option.splits approval_envelope.splits)
  ultimately show ?thesis by (simp add: well_keyed_def)
qed

lemma replay_keyed: "well_keyed m \<Longrightarrow> well_keyed (fold applyEnvelope es m)"
  by (induction es arbitrary: m) (auto intro: applyEnvelope_keyed)

lemma listFor_keyed:
  assumes "well_keyed m"
  shows "distinct (map ap_requestId (listFor at_most m sid))" "\<forall>r\<in>set (listFor at_most m sid). map_of m (ap_requestId r) = Some r"
proof -
  have d: "distinct (map fst m)" using assms by (simp add: well_keyed_def)
  have k: "map_of m (ap_requestId r) = Some r" if "r \<in> set (map snd m)" for r
    using that assms d map_of_is_SomeI by (fastforce simp: well_keyed_def)
  show "\<forall>r\<in>set (listFor at_most m sid). map_of m (ap_requestId r) = Some r"
    using k by (auto simp: listFor_def filterAndSort_def)
  have eq: "map (\<lambda>p. ap_requestId (snd p)) m = map fst m"
    using assms d by (auto simp: well_keyed_def intro!: map_cong)
  have "distinct (map ap_requestId (map snd m))" unfolding map_map comp_def eq by (rule d)
  then have "distinct (map ap_requestId (filter P (map snd m)))" for P by (rule distinct_map_filter)
  then show "distinct (map ap_requestId (listFor at_most m sid))"
    unfolding listFor_def filterAndSort_def
    by (metis (no_types, lifting) mset_sort_by mset_map mset_eq_imp_distinct_iff)
qed

text \<open>
  A log grows by what hosts and engines append (records, responses, cancellations and expiries), and by the effects
  of a resume up to the point where the process stopped.
\<close>

inductive lifetime :: "approval_envelope list \<Rightarrow> string list \<Rightarrow> bool" where
  fresh: "lifetime [] []"
| appended: "lifetime log executed \<Longrightarrow> lifetime (log @ [e]) executed"
| resumed: "lifetime log executed \<Longrightarrow> prefix es (fst (resume_session host at_most (fold applyEnvelope log []) sid messages)) \<Longrightarrow>
     lifetime (log @ writes es) (executed @ runs es)"

text \<open>
  C13: a durably approved call never runs twice. Over the whole life of the log, with any number of resumes that
  may each stop after any of their effects, and with any other envelopes in between, every request is executed at most once.
\<close>

theorem executed_at_most_once:
  assumes "lifetime log executed"
  shows "distinct executed"
proof -
  have "distinct executed \<and> (\<forall>i\<in>set executed. intent (fold applyEnvelope log []) i)" using assms
  proof (induction rule: lifetime.induct)
    case (appended log executed e)
    then show ?case using intent_kept [of _ _ "[e]"] by auto
  next
    case (resumed log executed es host at_most sid messages)
    let ?m = "fold applyEnvelope log []"
    have "well_keyed ?m" by (rule replay_keyed) (simp add: well_keyed_def)
    from records_prefix [OF _ listFor_keyed [OF this]] resumed.hyps(2)
    have new: "distinct (runs es)" "set (runs es) \<subseteq> {ap_requestId r | r. r \<in> set (listFor at_most ?m sid) \<and> ap_consumingAt r = None}"
      "\<forall>i\<in>set (runs es). intent (fold applyEnvelope (writes es) ?m) i"
      by (auto simp: resume_session_def)
    have "\<not> intent ?m i" if "i \<in> set (runs es)" for i
      using that new(2) listFor_keyed(2) [OF \<open>well_keyed ?m\<close>] by (auto simp: intent_def)
    then show ?case using new resumed.IH intent_kept by auto
  qed simp
  then show ?thesis ..
qed

subsection \<open>Progress\<close>

lemma block_index_Some: "block_index i bs = Some n \<Longrightarrow> n < length bs \<and> (\<exists>t. bs ! n = ToolResultBlock t \<and> tr_toolUseId t = i)"
  by (induction bs arbitrary: n) (auto split: content_block.splits if_splits)

lemma block_index_update:
  "n < length bs \<Longrightarrow> bs ! n = ToolResultBlock t \<Longrightarrow> tr_toolUseId t' = tr_toolUseId t \<Longrightarrow>
     block_index i (bs[n := ToolResultBlock t']) = block_index i bs"
proof (induction bs arbitrary: n)
  case (Cons b bs)
  then show ?case by (cases n) (auto split: content_block.splits)
qed simp

lemma substitute_Suc: "substitute (Suc mi, bi) t (m # ms) = m # substitute (mi, bi) t ms"
  by (simp add: substitute_def Let_def cong: message_content.case_cong)

lemma find_marker_substitute:
  "find_marker j messages = Some pos \<Longrightarrow> tr_toolUseId t = j \<Longrightarrow> find_marker i (substitute pos t messages) = find_marker i messages"
proof (induction messages arbitrary: pos)
  case (Cons m ms)
  show ?case
  proof (cases "if msg_role m = ''tool'' then (case msg_content m of BlockContent bs \<Rightarrow> block_index j bs | TextContent _ \<Rightarrow> None) else None")
    case None
    then obtain mi bi where "find_marker j ms = Some (mi, bi)" "pos = (Suc mi, bi)" using Cons.prems(1) by auto
    then show ?thesis using Cons.IH [of "(mi, bi)"] Cons.prems(2) by (simp add: substitute_Suc cong: option.case_cong)
  next
    case (Some bi)
    then obtain bs where bs: "msg_role m = ''tool''" "msg_content m = BlockContent bs" "block_index j bs = Some bi"
      by (auto split: if_splits message_content.splits)
    have "pos = (0, bi)" using Cons.prems(1) Some by simp
    then show ?thesis
      using bs block_index_Some [OF bs(3)] block_index_update [of bi bs _ t i] Cons.prems(2) by (auto simp: substitute_def)
  qed
qed simp

lemma result_for_id [simp]: "tr_toolUseId (result_for r c) = ap_toolUseID r"
  by (simp add: result_for_def)

lemma resume_record_markers:
  "resume_record host r messages = Inr (effects, messages') \<Longrightarrow> find_marker i messages' = find_marker i messages"
  by (auto simp: resume_record_def run_call_def expired_result_def Let_def find_marker_substitute [of "ap_toolUseID r"]
      split: option.splits if_splits sum.splits)

lemma consumed_kept:
  assumes "map_of m i = Some r" "ap_consumedAt r \<noteq> None"
  shows "\<exists>r'. map_of (fold applyEnvelope es m) i = Some r' \<and> ap_consumedAt r' \<noteq> None"
proof -
  from replay_steps [OF assms(1), of es] obtain r' where r': "map_of (fold applyEnvelope es m) i = Some r'" "approval_step\<^sup>*\<^sup>* r r'" by blast
  from steps_keep [OF r'(2)] assms(2) show ?thesis using r'(1) by (auto simp: outcome_kept_def)
qed

definition runnable :: "resume_host \<Rightarrow> provider_message list \<Rightarrow> approval_record \<Rightarrow> bool" where
  "runnable host messages r \<longleftrightarrow>
     ap_state r = ApAllowed \<and> ap_consumedAt r = None \<and> ap_consumingAt r = None
     \<and> find_marker (ap_toolUseID r) messages \<noteq> None
     \<and> revalidateApproval (rz_fs host) (rz_registered host) r (rz_context host r) = Inr None"

lemma runnable_runs:
  assumes "runnable host messages r" "resume_record host r messages = Inr (effects, messages')" "map_of m (ap_requestId r) = Some r"
  shows "Executed r (input_to_execute r) \<in> set effects
    \<and> (\<exists>r'. map_of (fold applyEnvelope (writes effects) m) (ap_requestId r) = Some r' \<and> ap_consumedAt r' \<noteq> None)"
proof -
  have "effects = fst (run_call host r)"
    using assms(1,2) by (auto simp: runnable_def resume_record_def)
  then obtain at res where "effects = [Wrote (EvConsuming (ap_requestId r) at), Executed r (input_to_execute r), Wrote (EvConsumed (ap_requestId r) res at)]"
    by (auto simp: run_call_def Let_def split: sum.splits)
  then show ?thesis
    using assms(1,3) by (auto simp: runnable_def map_of_applyEnvelope transition_def)
qed

lemma runnable_markers: "resume_record host r0 messages = Inr (effects, messages') \<Longrightarrow> runnable host messages' r = runnable host messages r"
  using resume_record_markers by (simp add: runnable_def)

lemma records_progress:
  assumes "snd (resume_records host rs messages) = Inr messages'" "distinct (map ap_requestId rs)"
    and "\<forall>r\<in>set rs. map_of m (ap_requestId r) = Some r" "r \<in> set rs" "runnable host messages r"
  shows "Executed r (input_to_execute r) \<in> set (fst (resume_records host rs messages))
    \<and> (\<exists>r'. map_of (fold applyEnvelope (writes (fst (resume_records host rs messages))) m) (ap_requestId r) = Some r' \<and> ap_consumedAt r' \<noteq> None)"
  using assms
proof (induction rs arbitrary: messages m)
  case (Cons r0 rs)
  obtain effects ms where one: "resume_record host r0 messages = Inr (effects, ms)"
    using Cons.prems(1) by (cases "resume_record host r0 messages") auto
  let ?tail = "fst (resume_records host rs ms)"
  have all: "fst (resume_records host (r0 # rs) messages) = effects @ ?tail" "snd (resume_records host rs ms) = Inr messages'"
    using one Cons.prems(1) by (auto simp: map_prod_def split: prod.splits)
  have r0: "map_of m (ap_requestId r0) = Some r0" using Cons.prems(3) by simp
  note ids = conjunct2 [OF record_prefix [OF one prefix_order.refl r0]]
  let ?m = "fold applyEnvelope (writes effects) m"
  have m: "map_of ?m (ap_requestId r') = Some r'" if "r' \<in> set rs" for r'
  proof -
    have "ap_requestId r0 \<notin> ap_requestId ` set rs" using Cons.prems(2) by simp
    then have "ap_requestId r' \<noteq> ap_requestId r0" using that by (metis image_eqI)
    then show ?thesis using ids fold_other [of "writes effects" "ap_requestId r'" m] Cons.prems(3) that by simp
  qed
  show ?case
  proof (cases "r = r0")
    case True
    from runnable_runs [OF _ one r0] Cons.prems(5) True
    obtain r' where "Executed r (input_to_execute r) \<in> set effects" "map_of ?m (ap_requestId r) = Some r'" "ap_consumedAt r' \<noteq> None" by auto
    then show ?thesis using all(1) consumed_kept [of ?m "ap_requestId r" r' "writes ?tail"] by simp
  next
    case False
    then have r: "r \<in> set rs" "runnable host ms r" using Cons.prems(4,5) runnable_markers [OF one] by auto
    have "distinct (map ap_requestId rs)" "\<forall>r\<in>set rs. map_of ?m (ap_requestId r) = Some r" using Cons.prems(2) m by auto
    from Cons.IH [OF all(2) this r] show ?thesis using all(1) by simp
  qed
qed simp

text \<open>
  C21: an approved call does run. When a resume scans to its end, every request of the session that is allowed, was
  never started, has its deferred result in the messages and still revalidates is executed with the approved
  input, and the log then records it as consumed.
\<close>

theorem approved_call_runs:
  assumes "m = fold applyEnvelope log []" "snd (resume_session host at_most m sid messages) = Inr messages'"
    and "r \<in> set (listFor at_most m sid)" "runnable host messages r"
  shows "Executed r (input_to_execute r) \<in> set (fst (resume_session host at_most m sid messages))
    \<and> (\<exists>r'. map_of (fold applyEnvelope (log @ writes (fst (resume_session host at_most m sid messages))) []) (ap_requestId r) = Some r'
         \<and> ap_consumedAt r' \<noteq> None)"
proof -
  have w: "well_keyed m" unfolding assms(1) by (rule replay_keyed) (simp add: well_keyed_def)
  show ?thesis
    using records_progress [OF _ listFor_keyed [OF w] assms(3,4)] assms(1,2) by (simp add: resume_session_def)
qed

end
