(* ===== verification/Approval_Sessions.thy ===== *)
theory Approval_Sessions
  imports Resume
begin

text \<open>
  A parked call on concrete values: the log of its request and its answer, the resume that runs it, and the
  codec of two envelopes. The properties of \<open>Approvals\<close> and \<open>Resume\<close> are applied here.
\<close>

subsection \<open>A parked deployment\<close>

definition parked :: approval_record where
  "parked =
     \<lparr>ap_runtimeKind = WINTER_RUNTIME_KIND, ap_sessionId = ''s1'', ap_backendSessionId = ''s1'', ap_requestId = ''r1'', ap_toolUseID = ''t1'',
      ap_agentID = None, ap_toolName = ''Deploy'', ap_originalInput = [''site'' \<mapsto> JStr ''x''], ap_decisionReason = ''hook'', ap_blockedPath = None,
      ap_permissionSuggestions = None, ap_matchedAskRule = None, ap_policyMode = Default, ap_policyVersion = 3, ap_policyHash = Some ''h'',
      ap_issuedAt = ''2026-01-01'', ap_expiresAt = None, ap_state = ApPending, ap_issuedCwd = ''/w'', ap_issuedHome = ''/h'',
      ap_issuedResolvedTargets = Some [], ap_resolution = None, ap_consumedAt = None, ap_consumedResult = None, ap_consumedIsError = False,
      ap_consumingAt = None\<rparr>"

definition yes :: approval_response where
  "yes = \<lparr>ar_allowed = True, ar_mechanism = ByCanUseTool, ar_message = None, ar_transformedInput = None, ar_updatedPermissions = None,
     ar_decisionClassification = None\<rparr>"

definition approved_log :: "approval_envelope list" where
  "approved_log = [EvRecord parked, EvResponse ''r1'' yes ''2026-01-02'']"

definition plain_fs :: file_system where
  "plain_fs = \<lparr>fs_realpath = Inr, fs_readlink = (\<lambda>_. None), fs_cwd = ''/w''\<rparr>"

definition resuming :: resume_host where
  "resuming =
     \<lparr>rz_fs = plain_fs, rz_registered = (\<lambda>_. None),
      rz_context = (\<lambda>r. \<lparr>rv_runtimeKind = WINTER_RUNTIME_KIND, rv_sessionId = ''s1'', rv_backendSessionId = ''s1'', rv_toolUseID = ap_toolUseID r,
        rv_policyMode = Default, rv_policyVersion = 0, rv_policyHash = ''h'', rv_cwd = ''/w'', rv_home = ''/h''\<rparr>),
      rz_execute = (\<lambda>_ _. Inr \<lparr>co_output = ''deployed'', co_isError = False\<rparr>), rz_now = ''2026-01-03''\<rparr>"

definition deferred_messages :: "provider_message list" where
  "deferred_messages =
     [\<lparr>msg_role = ''user'', msg_content = TextContent ''deploy''\<rparr>,
      \<lparr>msg_role = ''tool'', msg_content = BlockContent [ToolResultBlock \<lparr>tr_toolUseId = ''t1'', tr_content = ''[deferred]'', tr_isError = False,
        tr_denied = False, tr_error = False, tr_deferred = True\<rparr>]\<rparr>]"

abbreviation scan :: "resume_effect list \<times> (string + provider_message list)" where
  "scan \<equiv> resume_session resuming unit_le (fold applyEnvelope approved_log []) ''s1'' deferred_messages"

theorem approval_settled_once_witness:
  "\<exists>r'. map_of (fold applyEnvelope [EvResponse ''r1'' yes ''2026-01-02'', EvCancel ''r1'' ''late'' ''2026-01-03''] [(''r1'', parked)]) ''r1'' = Some r'
    \<and> same_request parked r'"
  using approval_settled_once [of "[(''r1'', parked)]" "''r1''" parked "[EvResponse ''r1'' yes ''2026-01-02'', EvCancel ''r1'' ''late'' ''2026-01-03'']"]
  by auto

lemma scan_runs: "runs (fst scan) = [''r1'']"
  by code_simp

theorem executed_at_most_once_witness: "lifetime (approved_log @ writes (fst scan)) [''r1''] \<and> distinct [''r1'']"
proof -
  have "lifetime approved_log []"
    using lifetime.appended [OF lifetime.appended [OF lifetime.fresh]] by (simp add: approved_log_def)
  from lifetime.resumed [OF this prefix_order.refl, of resuming unit_le "''s1''" deferred_messages]
  have "lifetime (approved_log @ writes (fst scan)) [''r1'']"
    by (simp only: scan_runs append_Nil)
  then show ?thesis using executed_at_most_once by blast
qed

theorem approved_call_runs_witness:
  "\<exists>r input. Executed r input \<in> set (fst scan)"
proof -
  have l: "map ap_requestId (listFor unit_le (fold applyEnvelope approved_log []) ''s1'') = [''r1'']" by code_simp
  then obtain r where r: "listFor unit_le (fold applyEnvelope approved_log []) ''s1'' = [r]" by auto
  have "list_all (runnable resuming deferred_messages) (listFor unit_le (fold applyEnvelope approved_log []) ''s1'')" by code_simp
  then have run: "runnable resuming deferred_messages r" using r by simp
  have "isl (snd scan) = False" by code_simp
  then obtain messages' where ok: "snd scan = Inr messages'" by (cases "snd scan") auto
  have "r \<in> set (listFor unit_le (fold applyEnvelope approved_log []) ''s1'')" using r by simp
  from approved_call_runs [OF refl ok this run] show ?thesis by blast
qed

text \<open>A codec for two of the envelopes.\<close>

fun demo_encode :: "approval_envelope \<Rightarrow> json" where
  "demo_encode (EvExpire i reason at) =
     JObj [(''kind'', JStr ''expire''), (''requestId'', JStr i), (''reason'', JStr reason), (''at'', JStr at)]"
| "demo_encode (EvConsuming i at) = JObj [(''kind'', JStr ''consuming''), (''requestId'', JStr i), (''at'', JStr at)]"
| "demo_encode _ = JNull"

definition demo_decode :: "json \<Rightarrow> approval_envelope option" where
  "demo_decode j =
     (case j of
        JObj [(_, JStr k), (_, JStr i), (_, JStr at)] \<Rightarrow> Some (EvConsuming i at)
      | JObj [(_, JStr k), (_, JStr i), (_, JStr reason), (_, JStr at)] \<Rightarrow> Some (EvExpire i reason at)
      | _ \<Rightarrow> None)"

lemma demo_writable: "writable demo_encode demo_decode (EvExpire i reason at)" "writable demo_encode demo_decode (EvConsuming i at)"
  by (simp_all add: writable_def demo_decode_def)

theorem file_store_refines_memory_witness:
  "\<exists>s'. file_op (json_line demo_encode) \<lparr>sh_fs = plain_fs, sh_registered = (\<lambda>_. None), sh_atMost = unit_le\<rparr>
      (OpMarkConsuming ''r1'' ''2026-01-03'') \<lparr>fst_text = [], fst_map = []\<rparr> = Inr s'
    \<and> loadExisting (parse_line demo_decode) (Some (fst_text s')) = Inr (fst_map s')"
proof -
  let ?host = "\<lparr>sh_fs = plain_fs, sh_registered = (\<lambda>_. None), sh_atMost = unit_le\<rparr>" and ?s = "\<lparr>fst_text = [], fst_map = []\<rparr>"
  have h: "fst_text ?s = log_text (json_line demo_encode) []" "fst_map ?s = fold applyEnvelope [] []"
    "op_envelopes ?host (fst_map ?s) (OpMarkConsuming ''r1'' ''2026-01-03'') = Inr [EvConsuming ''r1'' ''2026-01-03'']"
    "\<forall>e\<in>set ([] @ [EvConsuming ''r1'' ''2026-01-03'']). writable demo_encode demo_decode e"
    by (simp_all add: op_envelopes_def demo_writable)
  from file_store_refines_memory [OF h] show ?thesis by blast
qed

theorem torn_line_swallows_append_witness:
  "loadExisting (parse_line demo_decode) (Some (appendJsonLine (json_line demo_encode) (EvConsuming ''r1'' ''2026-01-04'')
     (log_text (json_line demo_encode) [] @ take 20 (json_line demo_encode (EvConsuming ''r1'' ''2026-01-03''))))) = Inr []"
proof -
  have w: "\<forall>e\<in>set []. writable demo_encode demo_decode e" by simp
  have k: "20 < length (json_line demo_encode (EvConsuming ''r1'' ''2026-01-03''))" by code_simp
  have p: "parse_line demo_decode (take 20 (json_line demo_encode (EvConsuming ''r1'' ''2026-01-03'')) @ json_line demo_encode (EvConsuming ''r1'' ''2026-01-04'')) = None"
    by code_simp
  from torn_line_swallows_append [OF w demo_writable(2) k _ p] show ?thesis by simp
qed

end
