(* ===== verification/Stable_Hash.thy ===== *)
theory Stable_Hash
  imports Approvals
begin

text \<open>
  The stable hashes of the automatic mode (\<^verbatim>\<open>permissions/auto/caches.ts\<close>, first part): a text of a
  value in which the members of every object are sorted, and the hashes of the policy, of the
  environment and of an action over it. The digest (\<^verbatim>\<open>createHash("sha256")\<close>) is an argument. The text
  determines the value up to the order of members, so the hashes separate what they should
  separate as long as the digest does not collide on the two texts.
\<close>

subsection \<open>The text\<close>

text \<open>A value as \<open>stableStringify\<close> meets it: an object member may be \<open>undefined\<close>.\<close>

datatype stable_value =
    StUndef | StNull | StBool bool | StNum int | StText string
  | StArr "stable_value list" | StObj "(string \<times> stable_value) list"

definition member :: "string \<times> string \<Rightarrow> string" where
  "member kt = json_text (fst kt) @ '':'' @ snd kt"

definition key_le :: "string \<times> 'a \<Rightarrow> string \<times> 'a \<Rightarrow> bool" where
  "key_le a b = unit_le (fst a) (fst b)"

fun stableStringify :: "stable_value \<Rightarrow> string" where
  "stableStringify StUndef = ''undefined''"
| "stableStringify StNull = ''null''"
| "stableStringify (StBool b) = (if b then ''true'' else ''false'')"
| "stableStringify (StNum i) = int_text i"
| "stableStringify (StText s) = json_text s"
| "stableStringify (StArr vs) = ''['' @ join_with '','' (map (\<lambda>v. if v = StUndef then [] else stableStringify v) vs) @ '']''"
| "stableStringify (StObj kvs) =
     ''{'' @ join_with '','' (map member (sort_by key_le (map (\<lambda>kv. (fst kv, stableStringify (snd kv))) kvs))) @ ''}''"

definition stableHash :: "(string \<Rightarrow> string) \<Rightarrow> stable_value \<Rightarrow> string" where
  "stableHash sha v = sha (stableStringify v)"

text \<open>JSON values without \<open>undefined\<close>.\<close>

fun stable_of :: "json \<Rightarrow> stable_value" where
  "stable_of JNull = StNull"
| "stable_of (JBool b) = StBool b"
| "stable_of (JNum i) = StNum i"
| "stable_of (JStr s) = StText s"
| "stable_of (JArr vs) = StArr (map stable_of vs)"
| "stable_of (JObj kvs) = StObj (map (\<lambda>kv. (fst kv, stable_of (snd kv))) kvs)"

subsection \<open>The hashes\<close>

fun source_text :: "rule_source \<Rightarrow> string" where
  "source_text Managed = ''managed''"
| "source_text User = ''user''"
| "source_text Project = ''project''"
| "source_text Local = ''local''"
| "source_text CliArg = ''cliArg''"
| "source_text Session = ''session''"
| "source_text Sdk = ''sdk''"

fun behavior_text :: "permission_behavior \<Rightarrow> string" where
  "behavior_text BAllow = ''allow''"
| "behavior_text BDeny = ''deny''"
| "behavior_text BAsk = ''ask''"

fun specifier_value :: "specifier \<Rightarrow> stable_value" where
  "specifier_value WildcardAll = StObj [(''kind'', StText ''wildcardAll'')]"
| "specifier_value (Pattern source) = StObj [(''kind'', StText ''pattern''), (''source'', StText source)]"
| "specifier_value (Param field value) =
     StObj [(''kind'', StText ''param''), (''field'', StText field),
            (''value'', case value of SStr s \<Rightarrow> StText s | SBool b \<Rightarrow> StBool b)]"
| "specifier_value (WebFetchDomain source) = StObj [(''kind'', StText ''webFetchDomain''), (''source'', StText source)]"
| "specifier_value (Invalid reason) = StObj [(''kind'', StText ''invalid''), (''reason'', StText reason)]"

definition entry_value :: "sourced_rule_entry \<Rightarrow> stable_value" where
  "entry_value e =
     StObj [(''toolName'', StText (toolName (entry_rule e))),
            (''specifier'', case specifier (entry_rule e) of Some s \<Rightarrow> specifier_value s | None \<Rightarrow> StUndef),
            (''behavior'', StText (behavior_text (entry_behavior e))),
            (''source'', StText (source_text (entry_source e)))]"

definition opt_member :: "string \<Rightarrow> ('a \<Rightarrow> stable_value) \<Rightarrow> 'a option \<Rightarrow> (string \<times> stable_value) list" where
  "opt_member k f opt = (case opt of Some x \<Rightarrow> [(k, f x)] | None \<Rightarrow> [])"

definition texts :: "string list \<Rightarrow> stable_value" where
  "texts xs = StArr (map StText xs)"

definition auto_config_value :: "auto_mode_config \<Rightarrow> stable_value" where
  "auto_config_value c =
     StObj (opt_member ''environment'' texts (amc_environment c) @ opt_member ''allow'' texts (amc_allow c)
            @ opt_member ''soft_deny'' texts (amc_soft_deny c) @ opt_member ''hard_deny'' texts (amc_hard_deny c)
            @ opt_member ''classifyAllShell'' StBool (amc_classifyAllShell c)
            @ opt_member ''useAutoModeDuringPlan'' StBool (amc_useAutoModeDuringPlan c))"

definition policy_value :: "auto_mode_config policy_state \<Rightarrow> stable_value" where
  "policy_value policy =
     StObj [(''mode'', StText (mode_text (ps_mode policy))),
            (''entries'', StArr (map entry_value (entries (ps_rules policy)))),
            (''autoConfig'', case ps_autoConfig policy of Some c \<Rightarrow> auto_config_value c | None \<Rightarrow> StUndef)]"

definition computePolicyHash :: "(string \<Rightarrow> string) \<Rightarrow> auto_mode_config policy_state \<Rightarrow> string" where
  "computePolicyHash sha policy = stableHash sha (policy_value policy)"

definition env_value :: "evaluation_context \<Rightarrow> stable_value" where
  "env_value ctx =
     StObj [(''cwd'', StText (cx_cwd ctx)), (''home'', StText (cx_home ctx)),
            (''trustedWorkspace'', StBool (cx_trustedWorkspace ctx)),
            (''sessionBypassEnabled'', StBool (cx_sessionBypassEnabled ctx)),
            (''additionalDirectories'', texts (sort_by unit_le (cx_additionalDirectories ctx)))]"

definition computeEnvHash :: "(string \<Rightarrow> string) \<Rightarrow> evaluation_context \<Rightarrow> string" where
  "computeEnvHash sha ctx = stableHash sha (env_value ctx)"

text \<open>The input of a call as the object it is, in the order of its members.\<close>

definition action_value :: "string \<Rightarrow> (string \<times> json) list \<Rightarrow> stable_value" where
  "action_value tool object = StObj [(''toolName'', StText tool), (''input'', stable_of (JObj object))]"

definition computeActionFingerprint :: "(string \<Rightarrow> string) \<Rightarrow> string \<Rightarrow> (string \<times> json) list \<Rightarrow> string" where
  "computeActionFingerprint sha tool object = stableHash sha (action_value tool object)"

subsection \<open>Sorting\<close>

lemma insert_by_map: "(\<And>a b. le (f a) (f b) = le' a b) \<Longrightarrow> insert_by le (f x) (map f xs) = map f (insert_by le' x xs)"
  by (induction xs) auto

lemma sort_by_map: "(\<And>a b. le (f a) (f b) = le' a b) \<Longrightarrow> sort_by le (map f xs) = map f (sort_by le' xs)"
  by (induction xs) (simp_all add: sort_by_def insert_by_map)

fun canon_value :: "stable_value \<Rightarrow> stable_value" where
  "canon_value (StArr vs) = StArr (map canon_value vs)"
| "canon_value (StObj kvs) = StObj (sort_by key_le (map (\<lambda>kv. (fst kv, canon_value (snd kv))) kvs))"
| "canon_value v = v"

fun plain_text :: "stable_value \<Rightarrow> string" where
  "plain_text StUndef = ''undefined''"
| "plain_text StNull = ''null''"
| "plain_text (StBool b) = (if b then ''true'' else ''false'')"
| "plain_text (StNum i) = int_text i"
| "plain_text (StText s) = json_text s"
| "plain_text (StArr vs) = ''['' @ join_with '','' (map (\<lambda>v. if v = StUndef then [] else plain_text v) vs) @ '']''"
| "plain_text (StObj kvs) = ''{'' @ join_with '','' (map member (map (\<lambda>kv. (fst kv, plain_text (snd kv))) kvs)) @ ''}''"

lemma canon_undef [simp]: "canon_value v = StUndef \<longleftrightarrow> v = StUndef" "StUndef = canon_value v \<longleftrightarrow> v = StUndef"
  by (cases v; auto)+

lemma stable_plain: "stableStringify v = plain_text (canon_value v)"
proof (induction v)
  case (StArr vs)
  then have "map (\<lambda>v. if v = StUndef then [] else stableStringify v) vs
      = map (\<lambda>v. if v = StUndef then [] else plain_text v) (map canon_value vs)" by simp
  then show ?case by (simp only: stableStringify.simps canon_value.simps plain_text.simps)
next
  case (StObj kvs)
  have m: "map (\<lambda>kv. (fst kv, stableStringify (snd kv))) kvs
      = map (\<lambda>kv. (fst kv, plain_text (snd kv))) (map (\<lambda>kv. (fst kv, canon_value (snd kv))) kvs)"
    using StObj by (auto simp: snds.simps)
  have "sort_by key_le (map (\<lambda>kv. (fst kv, plain_text (snd kv))) xs) = map (\<lambda>kv. (fst kv, plain_text (snd kv))) (sort_by key_le xs)" for xs
    by (rule sort_by_map) (simp add: key_le_def)
  then show ?case unfolding stableStringify.simps m by (simp only: canon_value.simps plain_text.simps)
qed simp_all


subsection \<open>The text determines the value\<close>

text \<open>\<open>undefined\<close> in an array is rendered as nothing, so it is left out there.\<close>

fun tidy :: "stable_value \<Rightarrow> bool" where
  "tidy (StArr vs) \<longleftrightarrow> (\<forall>v \<in> set vs. v \<noteq> StUndef \<and> tidy v)"
| "tidy (StObj kvs) \<longleftrightarrow> (\<forall>kv \<in> set kvs. tidy (snd kv))"
| "tidy v \<longleftrightarrow> True"

fun kind :: "stable_value \<Rightarrow> nat" where
  "kind StUndef = 0" | "kind StNull = 1" | "kind (StBool b) = (if b then 2 else 3)" | "kind (StNum i) = 4" | "kind (StText s) = 5"
| "kind (StArr vs) = 6" | "kind (StObj kvs) = 7"

definition head_kind :: "char \<Rightarrow> nat" where
  "head_kind c =
     (if c = CHR ''u'' then 0 else if c = CHR ''n'' then 1 else if c = CHR ''t'' then 2 else if c = CHR ''f'' then 3
      else if c = dquote then 5 else if c = CHR ''['' then 6 else if c = CHR ''{'' then 7 else 4)"

lemma plain_head_ex: "\<exists>c t. plain_text v = c # t \<and> head_kind c = kind v \<and> c \<noteq> CHR '']'' \<and> c \<noteq> CHR ''}''"
proof (cases v)
  case (StNum i)
  obtain c t where ct: "int_text i = c # t" "is_digit c \<or> c = CHR ''-''" by (rule int_text_head)
  have "c \<noteq> CHR ''u''" using ct(2) by (auto simp: is_digit_code)
  then have "head_kind c = 4" using number_head(2) [OF ct(2)] by (auto simp: head_kind_def)
  then show ?thesis using StNum ct(1) number_head(2) [OF ct(2)] by auto
qed (simp_all add: head_kind_def json_text_def js_defs)

lemma plain_head: obtains c t where "plain_text v = c # t" "head_kind c = kind v" "c \<noteq> CHR '']''" "c \<noteq> CHR ''}''"
  using plain_head_ex [of v] by blast

lemma plain_kind: "plain_text v @ x = plain_text w @ y \<Longrightarrow> kind v = kind w"
  using plain_head [of v] plain_head [of w] by (metis append_Cons list.inject)

definition separates :: "stable_value \<Rightarrow> bool" where
  "separates v \<longleftrightarrow> (\<forall>w x y. tidy w \<longrightarrow> delimited x \<longrightarrow> delimited y \<longrightarrow> plain_text v @ x = plain_text w @ y \<longrightarrow> v = w \<and> x = y)"

lemma separatesD:
  "separates v \<Longrightarrow> plain_text v @ x = plain_text w @ y \<Longrightarrow> tidy w \<Longrightarrow> delimited x \<Longrightarrow> delimited y \<Longrightarrow> v = w \<and> x = y"
  by (auto simp: separates_def)

lemma json_text_separates: "json_text s @ x = json_text t @ y \<Longrightarrow> s = t \<and> x = y"
proof -
  assume "json_text s @ x = json_text t @ y"
  then have "concat (map json_unit s) @ dquote # x = concat (map json_unit t) @ dquote # y" by (simp add: json_text_def)
  then have "Some (s, x) = Some (t, y)" by (metis read_units)
  then show ?thesis by simp
qed

text \<open>A list of items behind separators that start no item, up to a closing character that starts none either.\<close>

lemma items_separate:
  assumes item: "\<And>a b x y. a \<in> set as \<Longrightarrow> b \<in> set bs \<Longrightarrow> delimited x \<Longrightarrow> delimited y \<Longrightarrow> f a @ x = f b @ y \<Longrightarrow> a = b \<and> x = y"
    and start: "\<And>a. a \<in> set as \<union> set bs \<Longrightarrow> \<exists>c t. f a = c # t \<and> c \<noteq> z"
    and z: "z = CHR '']'' \<or> z = CHR ''}''"
  shows "join_with '','' (map f as) @ z # x = join_with '','' (map f bs) @ z # y \<Longrightarrow> as = bs \<and> x = y"
  using item start
proof (induction as arbitrary: bs)
  case Nil
  then show ?case
    by (cases bs; cases "tl bs"; force)
next
  case (Cons a as)
  have hd_a: "\<exists>c t. f a = c # t \<and> c \<noteq> z" using Cons.prems(3) by auto
  show ?case
  proof (cases bs)
    case Nil
    then show ?thesis using Cons.prems(1) hd_a by (cases as) auto
  next
    case (Cons b bs')
    define rest where "rest as' u = (if as' = [] then z # u else CHR '','' # join_with '','' (map f as') @ z # u)" for as' u
    have j: "join_with '','' (map f (a' # as')) @ z # u = f a' @ rest as' u" for a' as' u
      by (cases as') (simp_all add: rest_def)
    have d: "delimited (rest as' u)" for as' u using z by (auto simp: rest_def delimited_def)
    have "a = b \<and> rest as x = rest bs' y"
      using Cons.prems(1,2) Cons d j by (metis list.set_intros(1))
    then have ab: "a = b" and r: "rest as x = rest bs' y" by auto
    have zc: "z \<noteq> CHR '',''" using z by auto
    consider "as = []" "bs' = []" | "as \<noteq> []" "bs' \<noteq> []" using r zc by (auto simp: rest_def split: if_splits)
    then show ?thesis
    proof cases
      case 1
      then show ?thesis using r ab Cons by (simp add: rest_def)
    next
      case 2
      then have "join_with '','' (map f as) @ z # x = join_with '','' (map f bs') @ z # y" using r by (simp add: rest_def)
      then have "as = bs' \<and> x = y" using Cons.prems(2,3) Cons by (intro Cons.IH) auto
      then show ?thesis using ab Cons by simp
    qed
  qed
qed

lemma all_separate: "tidy v \<Longrightarrow> separates v"
proof (induction v)
  case StUndef
  then show ?case unfolding separates_def
  proof (intro allI impI)
    fix w x y assume "plain_text StUndef @ x = plain_text w @ y"
    moreover from plain_kind [OF this] have "w = StUndef" by (cases w) (auto split: if_splits)
    ultimately show "StUndef = w \<and> x = y" by simp
  qed
next
  case StNull
  then show ?case unfolding separates_def
  proof (intro allI impI)
    fix w x y assume "plain_text StNull @ x = plain_text w @ y"
    moreover from plain_kind [OF this] have "w = StNull" by (cases w) (auto split: if_splits)
    ultimately show "StNull = w \<and> x = y" by simp
  qed
next
  case (StBool b)
  then show ?case unfolding separates_def
  proof (intro allI impI)
    fix w x y assume "plain_text (StBool b) @ x = plain_text w @ y"
    moreover from plain_kind [OF this] have "w = StBool b" by (cases w) (auto split: if_splits)
    ultimately show "StBool b = w \<and> x = y" by simp
  qed
next
  case (StNum i)
  then show ?case unfolding separates_def
  proof (intro allI impI)
    fix w x y assume d: "delimited x" "delimited y" and e: "plain_text (StNum i) @ x = plain_text w @ y"
    from plain_kind [OF e] obtain j where w: "w = StNum j" by (cases w) (auto split: if_splits)
    then have "Some (JNum i, x) = Some (JNum j, y)" using e d by (metis plain_text.simps(4) read_int_text)
    then show "StNum i = w \<and> x = y" using w by simp
  qed
next
  case (StText s)
  then show ?case unfolding separates_def
  proof (intro allI impI)
    fix w x y assume e: "plain_text (StText s) @ x = plain_text w @ y"
    from plain_kind [OF e] obtain t where w: "w = StText t" by (cases w) (auto split: if_splits)
    then show "StText s = w \<and> x = y" using e json_text_separates [of s x t y] by simp
  qed
next
  case (StArr vs)
  have sep: "separates v" if "v \<in> set vs" for v using StArr that by auto
  show ?case unfolding separates_def
  proof (intro allI impI)
    fix w x y assume t: "tidy w" and e: "plain_text (StArr vs) @ x = plain_text w @ y"
    from plain_kind [OF e] obtain ws where w: "w = StArr ws" by (cases w) (auto split: if_splits)
    let ?f = "\<lambda>v. if v = StUndef then [] else plain_text v"
    have u: "v \<noteq> StUndef" if "v \<in> set vs \<union> set ws" for v using that StArr.prems t w by auto
    have "vs = ws \<and> x = y"
    proof (rule items_separate [where f = ?f and z = "CHR '']''"])
      show "join_with '','' (map ?f vs) @ CHR '']'' # x = join_with '','' (map ?f ws) @ CHR '']'' # y" using e w by simp
      show "a = b \<and> x' = y'" if "a \<in> set vs" "b \<in> set ws" "delimited x'" "delimited y'" "?f a @ x' = ?f b @ y'" for a b x' y'
        using that u t w separatesD [OF sep, of a x' b y'] by auto
      show "\<exists>c s. ?f a = c # s \<and> c \<noteq> CHR '']''" if "a \<in> set vs \<union> set ws" for a
        using u [OF that] plain_head [of a] by metis
    qed simp
    then show "StArr vs = w \<and> x = y" using w by simp
  qed
next
  case (StObj kvs)
  have sep: "separates (snd kv)" if "kv \<in> set kvs" for kv
    using StObj that by (metis snds.intros surj_pair tidy.simps(2))
  show ?case unfolding separates_def
  proof (intro allI impI)
    fix w x y assume t: "tidy w" and e: "plain_text (StObj kvs) @ x = plain_text w @ y"
    from plain_kind [OF e] obtain ws where w: "w = StObj ws" by (cases w) (auto split: if_splits)
    let ?f = "\<lambda>kv. member (fst kv, plain_text (snd kv))"
    have "kvs = ws \<and> x = y"
    proof (rule items_separate [where f = ?f and z = "CHR ''}''"])
      show "join_with '','' (map ?f kvs) @ CHR ''}'' # x = join_with '','' (map ?f ws) @ CHR ''}'' # y" using e w by (simp add: comp_def)
      show "a = b \<and> x' = y'" if h: "a \<in> set kvs" "b \<in> set ws" "delimited x'" "delimited y'" "?f a @ x' = ?f b @ y'" for a b x' y'
      proof -
        from h(5) have "json_text (fst a) @ CHR '':'' # plain_text (snd a) @ x' = json_text (fst b) @ CHR '':'' # plain_text (snd b) @ y'"
          by (simp add: member_def)
        from json_text_separates [OF this] have k: "fst a = fst b" and v: "plain_text (snd a) @ x' = plain_text (snd b) @ y'" by auto
        have "tidy (snd b)" using t w h(2) by auto
        from separatesD [OF sep [OF h(1)] v this h(3,4)] show ?thesis using k by (simp add: prod_eq_iff)
      qed
      show "\<exists>c s. ?f a = c # s \<and> c \<noteq> CHR ''}''" for a by (auto simp: member_def json_text_def js_defs)
    qed simp
    then show "StObj kvs = w \<and> x = y" using w by simp
  qed
qed


lemma tidy_canon: "tidy v \<Longrightarrow> tidy (canon_value v)"
proof (induction v)
  case (StArr vs)
  then show ?case by auto
next
  case (StObj kvs)
  then have "tidy (canon_value (snd kv))" if "kv \<in> set kvs" for kv using that by (metis snds.intros surj_pair tidy.simps(2))
  then show ?case by (auto simp: set_sort_by)
qed simp_all

lemma stable_text_exact:
  assumes "tidy u" "tidy v"
  shows "stableStringify u = stableStringify v \<longleftrightarrow> canon_value u = canon_value v"
  using separatesD [OF all_separate [OF tidy_canon [OF assms(1)]], of "[]" "canon_value v" "[]"] tidy_canon [OF assms(2)]
  by (auto simp: stable_plain)

subsection \<open>What the policy hash separates\<close>

definition no_collision :: "(string \<Rightarrow> string) \<Rightarrow> stable_value \<Rightarrow> stable_value \<Rightarrow> bool" where
  "no_collision sha u v \<longleftrightarrow> (stableHash sha u = stableHash sha v \<longrightarrow> stableStringify u = stableStringify v)"

type_synonym rule_content = "string \<times> specifier option \<times> permission_behavior \<times> rule_source"

definition rule_content :: "sourced_rule_entry \<Rightarrow> rule_content" where
  "rule_content e = (toolName (entry_rule e), specifier (entry_rule e), entry_behavior e, entry_source e)"

definition policy_content :: "auto_mode_config policy_state \<Rightarrow> permission_mode \<times> rule_content list \<times> auto_mode_config option" where
  "policy_content p = (ps_mode p, map rule_content (entries (ps_rules p)), ps_autoConfig p)"

lemma member_lookup:
  assumes "distinct (map fst kvs)" "distinct (map fst kvs')"
    and "canon_value (StObj kvs) = canon_value (StObj kvs')"
  shows "map_option canon_value (map_of kvs k) = map_option canon_value (map_of kvs' k)"
proof -
  let ?c = "map (\<lambda>kv. (fst kv, canon_value (snd kv)))"
  have m: "map_of (?c xs) k = map_option canon_value (map_of xs k)" for xs by (induction xs) auto
  have d: "distinct (map fst (?c xs)) = distinct (map fst xs)" for xs by (simp add: comp_def)
  have "sort_by key_le (?c kvs) = sort_by key_le (?c kvs')" using assms(3) by (simp only: canon_value.simps stable_value.inject)
  then have "set (?c kvs) = set (?c kvs')" by (metis set_sort_by)
  then have "map_of (?c kvs) = map_of (?c kvs')" using assms(1,2) by (simp only: map_of_inject_set d)
  then show ?thesis by (metis m)
qed

lemma mode_text_inject: "mode_text m = mode_text n \<Longrightarrow> m = n"
  by (cases m; cases n) auto

lemma source_text_inject: "source_text a = source_text b \<Longrightarrow> a = b"
  by (cases a; cases b) auto

lemma behavior_text_inject: "behavior_text a = behavior_text b \<Longrightarrow> a = b"
  by (cases a; cases b) auto

lemma specifier_inject: "canon_value (specifier_value s) = canon_value (specifier_value t) \<Longrightarrow> s = t"
  by (cases s; cases t) (auto simp: sort_by_def key_le_def split: scalar.splits)

lemma specifier_not_undef [simp]: "specifier_value s \<noteq> StUndef" "StUndef \<noteq> specifier_value s"
  by (cases s; simp)+

lemma entry_value_inject:
  assumes "canon_value (entry_value e) = canon_value (entry_value f)"
  shows "rule_content e = rule_content f"
proof -
  note l = member_lookup [OF _ _ assms [unfolded entry_value_def]]
  show ?thesis
    using l [of "''toolName''"] l [of "''specifier''"] l [of "''behavior''"] l [of "''source''"]
    by (auto simp: rule_content_def split: option.splits dest: specifier_inject behavior_text_inject source_text_inject)
qed

lemma map_of_opt_member: "map_of (opt_member k f opt) k' = (if k' = k then map_option f opt else None)"
  by (cases opt) (auto simp: opt_member_def)

lemma map_of_opt_append:
  "map_of (opt_member k f opt @ more') k' = (if k' = k \<and> opt \<noteq> None then map_option f opt else map_of more' k')"
  by (cases opt) (auto simp: opt_member_def)

lemma option_if: "(if opt \<noteq> None then map_option f opt else None) = map_option f opt"
  by (cases opt) auto

lemma opt_member_keys: "map fst (opt_member k f opt) = (if opt = None then [] else [k])"
  by (cases opt) (auto simp: opt_member_def)

lemma texts_canon: "canon_value (texts xs) = texts xs" "texts xs = texts ys \<longleftrightarrow> xs = ys"
  by (auto simp: texts_def inj_map_eq_map inj_def)

lemma auto_config_inject:
  assumes "canon_value (auto_config_value c) = canon_value (auto_config_value d)"
  shows "c = d"
proof -
  note l = member_lookup [OF _ _ assms [unfolded auto_config_value_def]]
  have o: "map_option canon_value (map_option texts a) = map_option canon_value (map_option texts b) \<longleftrightarrow> a = b" for a b
    by (cases a; cases b) (auto simp: texts_canon)
  have b: "map_option canon_value (map_option StBool a) = map_option canon_value (map_option StBool b) \<longleftrightarrow> a = b" for a b
    by (cases a; cases b) auto
  have d: "distinct (map fst (opt_member ''environment'' texts e @ opt_member ''allow'' texts a @ opt_member ''soft_deny'' texts s
      @ opt_member ''hard_deny'' texts h @ opt_member ''classifyAllShell'' StBool k @ opt_member ''useAutoModeDuringPlan'' StBool p))"
    for e a s h k p
    by (simp only: map_append opt_member_keys) simp
  note l' = l [OF d d]
  show ?thesis
    using l' [of "''environment''"] l' [of "''allow''"] l' [of "''soft_deny''"] l' [of "''hard_deny''"] l' [of "''classifyAllShell''"]
      l' [of "''useAutoModeDuringPlan''"]
    by (simp add: map_of_opt_append map_of_opt_member option_if o b del: option.map_comp map_of_append if_split not_None_eq cong del: if_weak_cong)
qed


lemma entry_tidy [simp]: "tidy (entry_value e)" "entry_value e \<noteq> StUndef"
proof -
  have "tidy (specifier_value s)" for s by (cases s) (auto split: scalar.splits)
  then show "tidy (entry_value e)" by (auto simp: entry_value_def split: option.splits)
qed (simp add: entry_value_def)

lemma opt_member_tidy: "kv \<in> set (opt_member k f opt) \<Longrightarrow> (\<And>x. tidy (f x)) \<Longrightarrow> tidy (snd kv)"
  by (auto simp: opt_member_def split: option.splits)

lemma policy_tidy: "tidy (policy_value p)"
proof -
  have "tidy (texts xs)" for xs by (auto simp: texts_def)
  then have "tidy (auto_config_value c)" for c by (auto simp: auto_config_value_def dest!: opt_member_tidy)
  then show ?thesis by (auto simp: policy_value_def split: option.splits)
qed

lemma auto_config_not_undef [simp]: "auto_config_value c \<noteq> StUndef"
  by (simp add: auto_config_value_def)

lemma map_determined: "map f xs = map f ys \<Longrightarrow> (\<And>a b. f a = f b \<Longrightarrow> g a = g b) \<Longrightarrow> map g xs = map g ys"
proof (induction xs arbitrary: ys)
  case (Cons x xs)
  from Cons.prems(1) obtain y ys' where ys: "ys = y # ys'" by (cases ys) auto
  have h: "f x = f y" "map f xs = map f ys'" using Cons.prems(1) ys by simp_all
  have "g x = g y" using h(1) by (rule Cons.prems(2))
  moreover have "map g xs = map g ys'" using h(2) Cons.prems(2) by (rule Cons.IH)
  ultimately show ?case using ys by simp
qed simp

lemma canon_undef_eq: "canon_value StUndef = canon_value v \<longleftrightarrow> v = StUndef" "canon_value v = canon_value StUndef \<longleftrightarrow> v = StUndef"
  by (cases v; auto)+

lemma policy_value_inject:
  assumes "canon_value (policy_value p) = canon_value (policy_value q)"
  shows "policy_content p = policy_content q"
proof -
  note l = member_lookup [OF _ _ assms [unfolded policy_value_def]]
  have "mode_text (ps_mode p) = mode_text (ps_mode q)" using l [of "''mode''"] by simp
  then have m: "ps_mode p = ps_mode q" by (rule mode_text_inject)
  have "map (canon_value \<circ> entry_value) (entries (ps_rules p)) = map (canon_value \<circ> entry_value) (entries (ps_rules q))"
    using l [of "''entries''"] by simp
  then have e: "map rule_content (entries (ps_rules p)) = map rule_content (entries (ps_rules q))" 
    by (rule map_determined) (rule entry_value_inject, simp only: comp_apply)
  have "canon_value (case ps_autoConfig p of Some c \<Rightarrow> auto_config_value c | None \<Rightarrow> StUndef)
      = canon_value (case ps_autoConfig q of Some c \<Rightarrow> auto_config_value c | None \<Rightarrow> StUndef)"
    using l [of "''autoConfig''"] by simp
  then have "ps_autoConfig p = ps_autoConfig q"
    by (cases "ps_autoConfig p"; cases "ps_autoConfig q") (auto simp only: option.case canon_undef_eq auto_config_not_undef dest: auto_config_inject)
  then show ?thesis using m e by (simp only: policy_content_def)
qed

lemma policy_value_content: "policy_content p = policy_content q \<Longrightarrow> policy_value p = policy_value q"
proof -
  assume c: "policy_content p = policy_content q"
  then have "map rule_content (entries (ps_rules p)) = map rule_content (entries (ps_rules q))" by (simp add: policy_content_def)
  then have "map entry_value (entries (ps_rules p)) = map entry_value (entries (ps_rules q))"
    by (rule map_determined) (simp add: rule_content_def entry_value_def)
  then show ?thesis using c by (simp add: policy_content_def policy_value_def)
qed

text \<open>
  The policy hash is the content of the policy. Unless the digest collides on the two texts, two policies have the same
  hash exactly when they agree on the mode, on the automatic-mode configuration and on the tool, the specifier, the behavior and the source of every
  rule in order; version counters, directories and everything else of the state do not count.
\<close>

theorem policy_hash_exact:
  assumes "no_collision sha (policy_value p) (policy_value q)"
  shows "computePolicyHash sha p = computePolicyHash sha q \<longleftrightarrow> policy_content p = policy_content q"
proof
  assume "computePolicyHash sha p = computePolicyHash sha q"
  with assms have "stableStringify (policy_value p) = stableStringify (policy_value q)"
    by (simp add: no_collision_def computePolicyHash_def)
  then show "policy_content p = policy_content q" 
    using stable_text_exact [OF policy_tidy policy_tidy] policy_value_inject by blast
next
  assume "policy_content p = policy_content q"
  then show "computePolicyHash sha p = computePolicyHash sha q" 
    by (simp only: computePolicyHash_def policy_value_content [of p q])
qed

end
