(* ===== verification/Auto_Engine.thy ===== *)
theory Auto_Engine
  imports Stable_Hash
begin

text \<open>
  The automatic mode (\<^verbatim>\<open>permissions/auto/caches.ts\<close>, \<^verbatim>\<open>envelope.ts\<close> and \<^verbatim>\<open>engine.ts\<close>): the fallback counters in memory and in
  their file, the verdict cache, the action envelope, and one classification with its audit records, cache
  and counter updates. The classifier is an argument of a step, as are the digest and the host; time stamps,
  latencies and the model name of an audit record are not part of it. Lemmas: the counters stay within their thresholds, the
  file store is the in-memory store of one session, and a cached allow is only reused for the call it was given for.
\<close>

subsection \<open>The fallback counters\<close>

definition AUTO_FALLBACK_CONSECUTIVE_THRESHOLD :: nat where
  "AUTO_FALLBACK_CONSECUTIVE_THRESHOLD = 3"

definition AUTO_FALLBACK_TOTAL_THRESHOLD :: nat where
  "AUTO_FALLBACK_TOTAL_THRESHOLD = 20"

record auto_counter_state =
  ac_consecutive :: nat
  ac_total :: nat

definition isFallbackActive :: "auto_counter_state \<Rightarrow> bool" where
  "isFallbackActive s \<longleftrightarrow>
     ac_consecutive s \<ge> AUTO_FALLBACK_CONSECUTIVE_THRESHOLD \<or> ac_total s \<ge> AUTO_FALLBACK_TOTAL_THRESHOLD"

definition ZERO_STATE :: auto_counter_state where
  "ZERO_STATE = \<lparr>ac_consecutive = 0, ac_total = 0\<rparr>"

type_synonym counter_map = "(string \<times> auto_counter_state) list"

definition counters_of :: "counter_map \<Rightarrow> string \<Rightarrow> auto_counter_state" where
  "counters_of m sid = the_default ZERO_STATE (map_of m sid)"

definition denied_once :: "auto_counter_state \<Rightarrow> auto_counter_state" where
  "denied_once s = \<lparr>ac_consecutive = ac_consecutive s + 1, ac_total = ac_total s + 1\<rparr>"

definition allowed_once :: "auto_counter_state \<Rightarrow> auto_counter_state" where
  "allowed_once s = \<lparr>ac_consecutive = 0, ac_total = ac_total s\<rparr>"

definition recordDeny :: "string \<Rightarrow> counter_map \<Rightarrow> counter_map" where
  "recordDeny sid m = AList.update sid (denied_once (counters_of m sid)) m"

definition recordAllow :: "string \<Rightarrow> counter_map \<Rightarrow> counter_map" where
  "recordAllow sid m = AList.update sid (allowed_once (counters_of m sid)) m"

text \<open>The file of one session; its text is \<open>None\<close> while it does not exist.\<close>

datatype counter_error = CounterUnsafeSegment string string | CounterMalformed | CounterShape json

definition assertSafeSegment :: "string \<Rightarrow> string \<Rightarrow> counter_error option" where
  "assertSafeSegment value label =
     (if value = [] \<or> value = ''.'' \<or> value = ''..'' \<or> CHR ''/'' \<in> set value then Some (CounterUnsafeSegment label value) else None)"

definition statePath :: "string \<Rightarrow> string \<Rightarrow> string \<Rightarrow> counter_error + string" where
  "statePath winterHome projectKey sessionId =
     (case assertSafeSegment sessionId ''sessionId'' of
        Some e \<Rightarrow> Inl e
      | None \<Rightarrow>
          (case assertSafeSegment projectKey ''projectKey'' of
             Some e \<Rightarrow> Inl e
           | None \<Rightarrow> Inr (path_join [path_join [winterHome, ''projects'', projectKey], sessionId @ ''.auto-state.json''])))"

definition isValidCount :: "json option \<Rightarrow> bool" where
  "isValidCount v = (case v of Some (JNum i) \<Rightarrow> i \<ge> 0 | _ \<Rightarrow> False)"

definition count_of :: "json option \<Rightarrow> nat" where
  "count_of v = (case v of Some (JNum i) \<Rightarrow> nat i | _ \<Rightarrow> 0)"

definition loadCounters :: "(string \<Rightarrow> json option) \<Rightarrow> string option \<Rightarrow> counter_error + auto_counter_state" where
  "loadCounters parse contents =
     (case contents of
        None \<Rightarrow> Inr ZERO_STATE
      | Some txt \<Rightarrow>
          (case parse txt of
             None \<Rightarrow> Inl CounterMalformed
           | Some parsed \<Rightarrow>
               (let field = (\<lambda>k. case parsed of JObj kvs \<Rightarrow> map_of kvs k | _ \<Rightarrow> None) in
                if isValidCount (field ''consecutive'') \<and> isValidCount (field ''total'')
                then Inr \<lparr>ac_consecutive = count_of (field ''consecutive''), ac_total = count_of (field ''total'')\<rparr>
                else Inl (CounterShape parsed))))"

definition counter_text :: "auto_counter_state \<Rightarrow> string" where
  "counter_text s = stringify (JObj [(''consecutive'', JNum (int (ac_consecutive s))), (''total'', JNum (int (ac_total s)))])"

record counter_file =
  cf_text :: "string option"
  cf_state :: auto_counter_state

definition createFileAutoCounterStore :: "(string \<Rightarrow> json option) \<Rightarrow> string option \<Rightarrow> counter_error + counter_file" where
  "createFileAutoCounterStore parse contents = map_sum id (\<lambda>s. \<lparr>cf_text = contents, cf_state = s\<rparr>) (loadCounters parse contents)"

definition persist :: "auto_counter_state \<Rightarrow> counter_file" where
  "persist s = \<lparr>cf_text = Some (counter_text s), cf_state = s\<rparr>"

definition file_recordDeny :: "counter_file \<Rightarrow> counter_file" where
  "file_recordDeny f = persist (denied_once (cf_state f))"

definition file_recordAllow :: "counter_file \<Rightarrow> counter_file" where
  "file_recordAllow f = persist (allowed_once (cf_state f))"

subsection \<open>The action envelope\<close>

function resolveRealTargetBestEffort :: "file_system \<Rightarrow> string \<Rightarrow> string" where
  "resolveRealTargetBestEffort fs path =
     (case fs_realpath fs path of
        Inr real \<Rightarrow> real
      | Inl code \<Rightarrow>
          if code \<noteq> ''ENOENT'' \<or> dirname path = path then path
          else path_join [resolveRealTargetBestEffort fs (dirname path), basename path])"
  by pat_completeness auto
termination
  by (relation "measure (\<lambda>(fs, path). height path)") (auto intro: dirname_height)

declare resolveRealTargetBestEffort.simps [simp del]

record resolved_path =
  rp_path :: string
  rp_target :: string
  rp_isSymlink :: bool

definition candidate_paths :: "evaluation_context \<Rightarrow> permission_call \<Rightarrow> string list" where
  "candidate_paths ctx call =
     (if tool_of call = ''Read'' then (case input_of call ''file_path'' of Some (JStr p) \<Rightarrow> [p] | _ \<Rightarrow> []) else [])
     @ extractCandidateWritePaths ctx call"

definition resolveCandidatePaths :: "host_env \<Rightarrow> evaluation_context \<Rightarrow> permission_call \<Rightarrow> resolved_path list" where
  "resolveCandidatePaths env ctx call =
     map (\<lambda>p. let target = resolveRealTargetBestEffort (he_fs env) p in \<lparr>rp_path = p, rp_target = target, rp_isSymlink = (target \<noteq> p)\<rparr>)
       (rev (remdups (rev (map (path_resolve (pcwd env) (cx_cwd ctx)) (candidate_paths ctx call)))))"

record attributed_context =
  at_hookId :: string
  at_hookName :: "string option"
  at_context :: json

record action_envelope =
  en_toolUseId :: "string option"
  en_agentId :: "string option"
  en_sessionId :: "string option"
  en_runtimeKind :: "string option"
  en_toolName :: string
  en_canonicalToolName :: string
  en_input :: tool_input
  en_cwd :: string
  en_roots :: "string list"
  en_resolvedPaths :: "resolved_path list"
  en_shellSubcommands :: "string list option"
  en_shellRedirectTargets :: "string list option"
  en_protectedWrite :: bool
  en_criticalRemoval :: bool
  en_criticalReason :: "string option"
  en_sessionCreatedResources :: "string list"
  en_networkDestinations :: "string list option"
  en_classifierContext :: "attributed_context list"

definition shell_command :: "permission_call \<Rightarrow> string option" where
  "shell_command call =
     (if tool_of call \<noteq> ''Bash'' then None else (case input_of call ''command'' of Some (JStr c) \<Rightarrow> Some c | _ \<Rightarrow> None))"

definition shellDecomposition :: "permission_call \<Rightarrow> string list option \<times> string list option" where
  "shellDecomposition call =
     (case shell_command call of
        None \<Rightarrow> (None, None)
      | Some c \<Rightarrow> (splitCompound c, if extractRedirectTargets c = [] then None else Some (extractRedirectTargets c)))"

definition buildActionEnvelope ::
  "host_env \<Rightarrow> evaluation_context \<Rightarrow> permission_call \<Rightarrow> string option \<Rightarrow> string option \<Rightarrow> attributed_context list
    \<Rightarrow> eval_error + action_envelope" where
  "buildActionEnvelope env ctx call sessionId runtimeKind contexts =
     bind_result (check_protected env ctx call) (\<lambda>protectedWrite. Inr
       \<lparr>en_toolUseId = pc_toolUseId call, en_agentId = pc_agentId call, en_sessionId = sessionId, en_runtimeKind = runtimeKind,
        en_toolName = tool_of call, en_canonicalToolName = tool_of call, en_input = input_of call, en_cwd = cx_cwd ctx,
        en_roots = boundedRoots ctx, en_resolvedPaths = resolveCandidatePaths env ctx call,
        en_shellSubcommands = fst (shellDecomposition call), en_shellRedirectTargets = snd (shellDecomposition call),
        en_protectedWrite = protectedWrite, en_criticalRemoval = cr_critical (check_critical env ctx call),
        en_criticalReason = cr_reason (check_critical env ctx call), en_sessionCreatedResources = [],
        en_networkDestinations = None, en_classifierContext = contexts\<rparr>)"

subsection \<open>The classifier, the cache and the audit\<close>

record classifier_raw_result =
  cw_verdict :: auto_verdict
  cw_category :: "string option"
  cw_severity :: "string option"
  cw_reasonCode :: "string option"
  cw_auditReason :: "string option"

record classifier_context =
  cc_autoConfig :: normalized_auto_config
  cc_classifierContext :: "attributed_context list"

definition alwaysNoVerdictClassifier :: "action_envelope \<Rightarrow> classifier_context \<Rightarrow> string + classifier_raw_result" where
  "alwaysNoVerdictClassifier envelope context =
     Inr \<lparr>cw_verdict = NoVerdict, cw_category = None, cw_severity = None, cw_reasonCode = Some ''p2_no_real_classifier'', cw_auditReason = None\<rparr>"

record engine_verdict = auto_engine_verdict +
  ev_category :: "string option"
  ev_reasonCode :: "string option"

record verdict_cache_key =
  ck_host :: "string option"
  ck_policyHash :: string
  ck_envHash :: string
  ck_sessionId :: string
  ck_generation :: nat
  ck_actionFingerprint :: string

definition key_value :: "verdict_cache_key \<Rightarrow> stable_value" where
  "key_value k =
     StObj ([(''policyHash'', StText (ck_policyHash k)), (''envHash'', StText (ck_envHash k)), (''sessionId'', StText (ck_sessionId k)),
             (''generation'', StNum (int (ck_generation k))), (''actionFingerprint'', StText (ck_actionFingerprint k))]
            @ opt_member ''host'' StText (ck_host k))"

definition cacheKeyString :: "verdict_cache_key \<Rightarrow> string" where
  "cacheKeyString k = stableStringify (key_value k)"

type_synonym verdict_cache = "(string \<times> engine_verdict) list"

datatype audit_event = PermissionEvaluated | ClassifierStarted | ClassifierResult | ClassifierCacheHit | PermissionDenied | FallbackState

record auto_audit_record =
  au_type :: audit_event
  au_sessionId :: string
  au_toolName :: string
  au_toolUseId :: "string option"
  au_agentId :: "string option"
  au_verdict :: "auto_verdict option"
  au_category :: "string option"
  au_severity :: "string option"
  au_reasonCode :: "string option"
  au_auditReason :: "string option"
  au_fallback :: "auto_counter_state option"
  au_policyVersion :: nat
  au_policyHash :: string

text \<open>\<open>s.split(sep).join(rep)\<close> for a separator that is not empty.\<close>

function replace_all :: "string \<Rightarrow> string \<Rightarrow> string \<Rightarrow> string" where
  "replace_all sep rep s =
     (if s = [] \<or> sep = [] then s
      else if startsWith s sep then rep @ replace_all sep rep (drop (length sep) s)
      else hd s # replace_all sep rep (tl s))"
  by pat_completeness auto
termination
  by (relation "measure (\<lambda>(sep, rep, s). length s)") auto

declare replace_all.simps [simp del]

definition redactAuditReason :: "string option \<Rightarrow> string \<Rightarrow> string \<Rightarrow> string option" where
  "redactAuditReason reason cwd home =
     (case reason of
        None \<Rightarrow> None
      | Some out \<Rightarrow>
          (let out1 = (if home \<noteq> [] then replace_all home ''<redacted-home>'' out else out)
           in Some (if cwd \<noteq> [] then replace_all cwd ''<redacted-cwd>'' out1 else out1)))"


subsection \<open>One classification\<close>

record auto_engine_options =
  ao_sessionId :: string
  ao_runtimeKind :: "string option"
  ao_classifier :: "action_envelope \<Rightarrow> classifier_context \<Rightarrow> string + classifier_raw_result"
  ao_classifierContext :: "attributed_context list"
  ao_generation :: nat

record auto_state =
  as_counters :: counter_map
  as_cache :: verdict_cache
  as_audit :: "auto_audit_record list"

datatype engine_error = EnvelopeError eval_error | ClassifierThrew string

definition audit_base ::
  "(string \<Rightarrow> string) \<Rightarrow> auto_engine_options \<Rightarrow> evaluation_context \<Rightarrow> permission_call \<Rightarrow> audit_event \<Rightarrow> auto_audit_record" where
  "audit_base sha options ctx call event =
     \<lparr>au_type = event, au_sessionId = ao_sessionId options, au_toolName = tool_of call, au_toolUseId = pc_toolUseId call,
      au_agentId = pc_agentId call, au_verdict = None, au_category = None, au_severity = None, au_reasonCode = None,
      au_auditReason = None, au_fallback = None, au_policyVersion = ps_version (cx_policy ctx),
      au_policyHash = computePolicyHash sha (cx_policy ctx)\<rparr>"

definition recordAudit :: "auto_audit_record \<Rightarrow> auto_state \<Rightarrow> auto_state" where
  "recordAudit entry st = st\<lparr>as_audit := as_audit st @ [entry]\<rparr>"

definition cache_key ::
  "(string \<Rightarrow> string) \<Rightarrow> auto_engine_options \<Rightarrow> evaluation_context \<Rightarrow> permission_call \<Rightarrow> (string \<times> json) list \<Rightarrow> action_envelope
    \<Rightarrow> verdict_cache_key" where
  "cache_key sha options ctx call object envelope =
     \<lparr>ck_host = (case en_networkDestinations envelope of Some (h # _) \<Rightarrow> Some h | _ \<Rightarrow> None),
      ck_policyHash = computePolicyHash sha (cx_policy ctx), ck_envHash = computeEnvHash sha ctx,
      ck_sessionId = ao_sessionId options, ck_generation = ao_generation options,
      ck_actionFingerprint = computeActionFingerprint sha (tool_of call) object\<rparr>"

definition terminal_denial :: "evaluation_context \<Rightarrow> auto_verdict \<Rightarrow> bool" where
  "terminal_denial ctx verdict \<longleftrightarrow> verdict = VerdictDeny \<or> verdict \<noteq> VerdictAllow \<and> ps_mode (cx_policy ctx) = Auto"

definition backstopped :: "normalized_auto_config \<Rightarrow> classifier_raw_result \<Rightarrow> auto_verdict" where
  "backstopped config result =
     (if resolveAutoTier (cw_category result) config \<in> {HardDenied, SoftDenied} then VerdictDeny else cw_verdict result)"

definition verdict_audit :: "auto_audit_record \<Rightarrow> auto_verdict \<Rightarrow> string option \<Rightarrow> string option \<Rightarrow> auto_audit_record" where
  "verdict_audit base verdict category reason =
     base\<lparr>au_verdict := Some verdict, au_category := category, au_reasonCode := reason\<rparr>"

definition replay :: "(audit_event \<Rightarrow> auto_audit_record) \<Rightarrow> evaluation_context \<Rightarrow> engine_verdict \<Rightarrow> auto_state \<Rightarrow> auto_state" where
  "replay base ctx cached st =
     (let hit = recordAudit (verdict_audit (base ClassifierCacheHit) (av_verdict cached) (ev_category cached) None) st in
      if terminal_denial ctx (av_verdict cached)
      then recordAudit (verdict_audit (base PermissionDenied) (av_verdict cached) (ev_category cached) (ev_reasonCode cached)) hit
      else hit)"

definition count_verdict :: "string \<Rightarrow> auto_verdict \<Rightarrow> counter_map \<Rightarrow> counter_map" where
  "count_verdict sid verdict m =
     (case verdict of VerdictDeny \<Rightarrow> recordDeny sid m | VerdictAllow \<Rightarrow> recordAllow sid m | NoVerdict \<Rightarrow> m)"

definition settle ::
  "(audit_event \<Rightarrow> auto_audit_record) \<Rightarrow> auto_engine_options \<Rightarrow> evaluation_context \<Rightarrow> normalized_auto_config \<Rightarrow> string
    \<Rightarrow> classifier_raw_result \<Rightarrow> auto_state \<Rightarrow> engine_verdict \<times> auto_state" where
  "settle base options ctx config key result st =
     (let st1 = recordAudit ((verdict_audit (base ClassifierResult) (cw_verdict result) (cw_category result) (cw_reasonCode result))
                  \<lparr>au_severity := cw_severity result,
                   au_auditReason := redactAuditReason (cw_auditReason result) (cx_cwd ctx) (cx_home ctx)\<rparr>) st;
          verdict = backstopped config result;
          answer = \<lparr>av_verdict = verdict, av_fallbackToPrompt = False, ev_category = cw_category result, ev_reasonCode = cw_reasonCode result\<rparr>;
          st2 = st1\<lparr>as_counters := count_verdict (ao_sessionId options) verdict (as_counters st1),
                     as_cache := AList.update key answer (as_cache st1)\<rparr>
      in (answer,
          if terminal_denial ctx verdict
          then recordAudit (verdict_audit (base PermissionDenied) verdict (cw_category result) (cw_reasonCode result)) st2
          else st2))"

definition FALLBACK_VERDICT :: engine_verdict where
  "FALLBACK_VERDICT =
     \<lparr>av_verdict = NoVerdict, av_fallbackToPrompt = True, ev_category = Some ''fallback'', ev_reasonCode = Some ''auto_fallback_active''\<rparr>"

definition config_of :: "evaluation_context \<Rightarrow> normalized_auto_config" where
  "config_of ctx = normalizeAutoModeConfig (ps_autoConfig (cx_policy ctx))"

text \<open>
  A classification runs up to the question to the classifier, waits for the answer, and settles it; other calls may run in between. The call's
  input is given as the object it is, in the order of its members. The state is returned also when the classification throws.
\<close>

datatype begun = Finished "engine_error + engine_verdict" | Asking action_envelope string

definition classify_begin ::
  "host_env \<Rightarrow> (string \<Rightarrow> string) \<Rightarrow> auto_engine_options \<Rightarrow> evaluation_context \<Rightarrow> permission_call \<Rightarrow> (string \<times> json) list
    \<Rightarrow> auto_state \<Rightarrow> begun \<times> auto_state" where
  "classify_begin env sha options ctx call object st =
     (let base = audit_base sha options ctx call;
          st1 = recordAudit (base PermissionEvaluated) st;
          counters = counters_of (as_counters st1) (ao_sessionId options)
      in if isFallbackActive counters then
           (Finished (Inr FALLBACK_VERDICT), recordAudit ((base FallbackState)\<lparr>au_fallback := Some counters\<rparr>) st1)
         else
           (case buildActionEnvelope env ctx call (Some (ao_sessionId options)) (ao_runtimeKind options) (ao_classifierContext options) of
              Inl e \<Rightarrow> (Finished (Inl (EnvelopeError e)), st1)
            | Inr envelope \<Rightarrow>
                (let key = cacheKeyString (cache_key sha options ctx call object envelope) in
                 case map_of (as_cache st1) key of
                   Some cached \<Rightarrow> (Finished (Inr cached), replay base ctx cached st1)
                 | None \<Rightarrow> (Asking envelope key, recordAudit (base ClassifierStarted) st1))))"

definition classify_end ::
  "(string \<Rightarrow> string) \<Rightarrow> auto_engine_options \<Rightarrow> evaluation_context \<Rightarrow> permission_call \<Rightarrow> string \<Rightarrow> string + classifier_raw_result
    \<Rightarrow> auto_state \<Rightarrow> (engine_error + engine_verdict) \<times> auto_state" where
  "classify_end sha options ctx call key answer st =
     (case answer of
        Inl e \<Rightarrow> (Inl (ClassifierThrew e), st)
      | Inr result \<Rightarrow> map_prod Inr id (settle (audit_base sha options ctx call) options ctx (config_of ctx) key result st))"

definition ask_classifier :: "auto_engine_options \<Rightarrow> evaluation_context \<Rightarrow> action_envelope \<Rightarrow> string + classifier_raw_result" where
  "ask_classifier options ctx envelope =
     ao_classifier options envelope \<lparr>cc_autoConfig = config_of ctx, cc_classifierContext = en_classifierContext envelope\<rparr>"

text \<open>A classification during which no other call runs.\<close>

definition classify ::
  "host_env \<Rightarrow> (string \<Rightarrow> string) \<Rightarrow> auto_engine_options \<Rightarrow> evaluation_context \<Rightarrow> permission_call \<Rightarrow> (string \<times> json) list
    \<Rightarrow> auto_state \<Rightarrow> (engine_error + engine_verdict) \<times> auto_state" where
  "classify env sha options ctx call object st =
     (case classify_begin env sha options ctx call object st of
        (Finished outcome, st') \<Rightarrow> (outcome, st')
      | (Asking envelope key, st') \<Rightarrow> classify_end sha options ctx call key (ask_classifier options ctx envelope) st')"

definition noteFallbackResolution :: "string \<Rightarrow> bool \<Rightarrow> auto_state \<Rightarrow> auto_state" where
  "noteFallbackResolution sid allowed st = (if allowed then st\<lparr>as_counters := recordAllow sid (as_counters st)\<rparr> else st)"

definition noteHeadlessFallbackDenial ::
  "(string \<Rightarrow> string) \<Rightarrow> auto_engine_options \<Rightarrow> evaluation_context \<Rightarrow> permission_call \<Rightarrow> auto_state \<Rightarrow> auto_state" where
  "noteHeadlessFallbackDenial sha options ctx call st =
     recordAudit ((audit_base sha options ctx call PermissionDenied)\<lparr>au_reasonCode := Some ''auto_fallback_no_prompt_handler''\<rparr>) st"

subsection \<open>The engine as a transition system\<close>

text \<open>A classification that waits for its answer, and one that was answered.\<close>

type_synonym waiting = "auto_engine_options \<times> evaluation_context \<times> permission_call \<times> (string \<times> json) list \<times> string"
type_synonym asked = "auto_engine_options \<times> evaluation_context \<times> permission_call \<times> (string \<times> json) list \<times> classifier_raw_result"

text \<open>What the classifier is asked and what it answers, when a classification asks it at all.\<close>

definition asked_now ::
  "host_env \<Rightarrow> (string \<Rightarrow> string) \<Rightarrow> auto_engine_options \<Rightarrow> evaluation_context \<Rightarrow> permission_call \<Rightarrow> (string \<times> json) list
    \<Rightarrow> auto_state \<Rightarrow> asked list" where
  "asked_now env sha options ctx call object st =
     (case fst (classify_begin env sha options ctx call object st) of
        Finished outcome \<Rightarrow> []
      | Asking envelope key \<Rightarrow>
          (case ask_classifier options ctx envelope of Inl e \<Rightarrow> [] | Inr result \<Rightarrow> [(options, ctx, call, object, result)]))"

definition denied_by :: "asked \<Rightarrow> bool" where
  "denied_by q = (case q of (options, ctx, call, object, result) \<Rightarrow> backstopped (config_of ctx) result = VerdictDeny)"

definition input_object :: "permission_call \<Rightarrow> (string \<times> json) list \<Rightarrow> bool" where
  "input_object call object \<longleftrightarrow> distinct (map fst object) \<and> map_of object = input_of call"

definition now_waiting :: "auto_engine_options \<Rightarrow> evaluation_context \<Rightarrow> permission_call \<Rightarrow> (string \<times> json) list \<Rightarrow> begun \<Rightarrow> waiting list" where
  "now_waiting options ctx call object b =
     (case b of Finished outcome \<Rightarrow> [] | Asking envelope key \<Rightarrow> [(options, ctx, call, object, key)])"

text \<open>
  One session, with the classifications that wait for an answer and the questions answered so far. The identifier of the session is fixed; every other
  option and the context may change from call to call, and at most \<open>width\<close> classifications wait at the same time. The classifier may give any answer, and throw.
  A restart keeps what the counter file holds and loses the rest.
\<close>

inductive engine_step ::
  "host_env \<Rightarrow> (string \<Rightarrow> string) \<Rightarrow> string \<Rightarrow> nat \<Rightarrow> auto_state \<times> waiting list \<times> asked list \<Rightarrow> auto_state \<times> waiting list \<times> asked list \<Rightarrow> bool"
  for env sha sid width where
  restarted: "createFileAutoCounterStore json_parse (Some (counter_text (counters_of (as_counters st) sid))) = Inr f \<Longrightarrow>
     engine_step env sha sid width (st, ws, h) (\<lparr>as_counters = [(sid, cf_state f)], as_cache = [], as_audit = []\<rparr>, [], h)"
| begun: "ao_sessionId options = sid \<Longrightarrow> input_object call object \<Longrightarrow> classify_begin env sha options ctx call object st = (b, st') \<Longrightarrow>
     length (ws @ now_waiting options ctx call object b) \<le> width \<Longrightarrow>
     engine_step env sha sid width (st, ws, h) (st', ws @ now_waiting options ctx call object b, h)"
| answered: "classify_end sha options ctx call key (Inr result) st = (outcome, st') \<Longrightarrow>
     engine_step env sha sid width (st, before @ (options, ctx, call, object, key) # after, h) (st', before @ after, h @ [(options, ctx, call, object, result)])"
| threw: "classify_end sha options ctx call key (Inl e) st = (outcome, st') \<Longrightarrow>
     engine_step env sha sid width (st, before @ (options, ctx, call, object, key) # after, h) (st', before @ after, h)"
| resolved: "engine_step env sha sid width (st, ws, h) (noteFallbackResolution sid allowed st, ws, h)"
| headless: "ao_sessionId options = sid \<Longrightarrow> engine_step env sha sid width (st, ws, h) (noteHeadlessFallbackDenial sha options ctx call st, ws, h)"

inductive_cases engine_stepE: "engine_step env sha sid width sh sh'"

inductive engine_reachable :: "host_env \<Rightarrow> (string \<Rightarrow> string) \<Rightarrow> string \<Rightarrow> nat \<Rightarrow> auto_state \<times> waiting list \<times> asked list \<Rightarrow> bool"
  for env sha sid width where
  created: "engine_reachable env sha sid width (\<lparr>as_counters = [], as_cache = [], as_audit = []\<rparr>, [], [])"
| stepped: "engine_reachable env sha sid width sh \<Longrightarrow> engine_step env sha sid width sh sh' \<Longrightarrow> engine_reachable env sha sid width sh'"

subsection \<open>The counters\<close>

lemma counter_text_read: "json_parse (counter_text s)
   = Some (JObj [(''consecutive'', JNum (int (ac_consecutive s))), (''total'', JNum (int (ac_total s)))])"
  unfolding counter_text_def by (rule json_read_back) simp

lemma loadCounters_text: "loadCounters json_parse (Some (counter_text s)) = Inr s"
  by (simp add: loadCounters_def counter_text_read isValidCount_def count_of_def)

lemma counters_of_update [simp]:
  "counters_of (recordDeny sid m) sid = denied_once (counters_of m sid)"
  "counters_of (recordAllow sid m) sid = allowed_once (counters_of m sid)"
  by (simp_all add: counters_of_def recordDeny_def recordAllow_def update_conv')

lemma counters_of_other:
  "sid' \<noteq> sid \<Longrightarrow> counters_of (recordDeny sid' m) sid = counters_of m sid"
  "sid' \<noteq> sid \<Longrightarrow> counters_of (recordAllow sid' m) sid = counters_of m sid"
  by (simp_all add: counters_of_def recordDeny_def recordAllow_def update_conv')

lemma audit_counters [simp]: "as_counters (recordAudit e st) = as_counters st" "as_cache (recordAudit e st) = as_cache st"
  by (simp_all add: recordAudit_def)

lemma replay_counters [simp]: "as_counters (replay base ctx v st) = as_counters st" "as_cache (replay base ctx v st) = as_cache st"
  by (simp_all add: replay_def Let_def)

lemma settle_state:
  "as_counters (snd (settle base options ctx config key result st)) = count_verdict (ao_sessionId options) (backstopped config result) (as_counters st)"
  "as_cache (snd (settle base options ctx config key result st)) = AList.update key (fst (settle base options ctx config key result st)) (as_cache st)"
  "fst (settle base options ctx config key result st)
     = \<lparr>av_verdict = backstopped config result, av_fallbackToPrompt = False, ev_category = cw_category result, ev_reasonCode = cw_reasonCode result\<rparr>"
  by (simp_all add: settle_def Let_def)

subsection \<open>The keys of the cache\<close>

definition key_of ::
  "(string \<Rightarrow> string) \<Rightarrow> auto_engine_options \<Rightarrow> evaluation_context \<Rightarrow> permission_call \<Rightarrow> (string \<times> json) list \<Rightarrow> verdict_cache_key" where
  "key_of sha options ctx call object =
     \<lparr>ck_host = None, ck_policyHash = computePolicyHash sha (cx_policy ctx), ck_envHash = computeEnvHash sha ctx,
      ck_sessionId = ao_sessionId options, ck_generation = ao_generation options,
      ck_actionFingerprint = computeActionFingerprint sha (tool_of call) object\<rparr>"

abbreviation key_text ::
  "(string \<Rightarrow> string) \<Rightarrow> auto_engine_options \<Rightarrow> evaluation_context \<Rightarrow> permission_call \<Rightarrow> (string \<times> json) list \<Rightarrow> string" where
  "key_text sha options ctx call object \<equiv> cacheKeyString (key_of sha options ctx call object)"

lemma envelope_no_network: "buildActionEnvelope env ctx call s r cs = Inr envelope \<Longrightarrow> en_networkDestinations envelope = None"
  by (auto simp: buildActionEnvelope_def)

lemma cache_key_of:
  "buildActionEnvelope env ctx call s r cs = Inr envelope \<Longrightarrow> cache_key sha options ctx call object envelope = key_of sha options ctx call object"
  by (simp add: cache_key_def key_of_def envelope_no_network)

text \<open>The two halves of a classification by the way they go.\<close>

lemma begin_cases:
  assumes "classify_begin env sha options ctx call object st = (b, st')"
  obtains (paused) "isFallbackActive (counters_of (as_counters st) (ao_sessionId options))" "b = Finished (Inr FALLBACK_VERDICT)"
    | (failed) e where "b = Finished (Inl e)"
    | (cached) v where "map_of (as_cache st) (key_text sha options ctx call object) = Some v" "b = Finished (Inr v)"
    | (asking) envelope where "\<not> isFallbackActive (counters_of (as_counters st) (ao_sessionId options))"
        "b = Asking envelope (key_text sha options ctx call object)"
proof (cases "isFallbackActive (counters_of (as_counters st) (ao_sessionId options))")
  case True
  then show thesis using assms paused by (simp add: classify_begin_def Let_def)
next
  case active: False
  show thesis
  proof (cases "buildActionEnvelope env ctx call (Some (ao_sessionId options)) (ao_runtimeKind options) (ao_classifierContext options)")
    case (Inl e)
    then show thesis using assms active failed by (auto simp: classify_begin_def Let_def)
  next
    case (Inr envelope)
    show thesis
    proof (cases "map_of (as_cache st) (key_text sha options ctx call object)")
      case None
      then show thesis
        using assms active Inr asking [OF active, of envelope] by (auto simp: classify_begin_def Let_def cache_key_of)
    next
      case (Some v)
      then show thesis
        using assms active Inr cached [OF Some] by (simp add: classify_begin_def Let_def cache_key_of)
    qed
  qed
qed

lemma begin_state:
  assumes "classify_begin env sha options ctx call object st = (b, st')"
  shows "as_counters st' = as_counters st" "as_cache st' = as_cache st"
  using assms by (auto simp: classify_begin_def Let_def split: if_splits sum.splits option.splits)

lemma end_threw [simp]: "classify_end sha options ctx call key (Inl e) st = (Inl (ClassifierThrew e), st)"
  by (simp add: classify_end_def)

lemma end_answered:
  assumes "classify_end sha options ctx call key (Inr result) st = (outcome, st')"
  obtains v where "outcome = Inr v" "av_verdict v = backstopped (config_of ctx) result"
    "as_counters st' = count_verdict (ao_sessionId options) (backstopped (config_of ctx) result) (as_counters st)"
    "as_cache st' = AList.update key v (as_cache st)"
proof -
  let ?s = "settle (audit_base sha options ctx call) options ctx (config_of ctx) key result st"
  have "outcome = Inr (fst ?s)" "st' = snd ?s" using assms by (cases ?s; simp add: classify_end_def)+
  then show thesis using that by (simp add: settle_state)
qed

lemma counter_simps [simp]:
  "ac_total (allowed_once s) = ac_total s" "ac_total (denied_once s) = Suc (ac_total s)"
  "ac_consecutive (allowed_once s) = 0" "ac_consecutive (denied_once s) = Suc (ac_consecutive s)"
  by (simp_all add: allowed_once_def denied_once_def)

text \<open>
  What holds in every state: the classifications that wait belong to the session and carry their key; the total counter counts the denials given; and
  neither counter can pass its threshold by more than the waiting classifications that saw it below the threshold.
\<close>

definition session_ok :: "(string \<Rightarrow> string) \<Rightarrow> string \<Rightarrow> nat \<Rightarrow> auto_state \<times> waiting list \<times> asked list \<Rightarrow> bool" where
  "session_ok sha sid width s \<longleftrightarrow>
     (case s of (st, ws, h) \<Rightarrow>
        let c = counters_of (as_counters st) sid in
        list_all (\<lambda>(options, ctx, call, object, key). ao_sessionId options = sid \<and> input_object call object
          \<and> key = key_text sha options ctx call object) ws
        \<and> list_all (\<lambda>(options, ctx, call, object, result). input_object call object) h
        \<and> length ws \<le> width \<and> ac_consecutive c \<le> ac_total c \<and> ac_total c = length (filter denied_by h)
        \<and> ac_total c + length ws \<le> AUTO_FALLBACK_TOTAL_THRESHOLD - 1 + width
        \<and> ac_consecutive c + length ws \<le> AUTO_FALLBACK_CONSECUTIVE_THRESHOLD - 1 + width)"

lemma session_okI:
  assumes "list_all (\<lambda>(options, ctx, call, object, key). ao_sessionId options = sid \<and> input_object call object
      \<and> key = key_text sha options ctx call object) ws"
    and "list_all (\<lambda>(options, ctx, call, object, result). input_object call object) h" "length ws \<le> width"
    and "ac_consecutive (counters_of (as_counters st) sid) \<le> ac_total (counters_of (as_counters st) sid)"
    and "ac_total (counters_of (as_counters st) sid) = length (filter denied_by h)"
    and "ac_total (counters_of (as_counters st) sid) + length ws \<le> AUTO_FALLBACK_TOTAL_THRESHOLD - 1 + width"
    and "ac_consecutive (counters_of (as_counters st) sid) + length ws \<le> AUTO_FALLBACK_CONSECUTIVE_THRESHOLD - 1 + width"
  shows "session_ok sha sid width (st, ws, h)"
  using assms by (simp add: session_ok_def Let_def)

lemma session_okD:
  assumes "session_ok sha sid width (st, ws, h)"
  shows "list_all (\<lambda>(options, ctx, call, object, key). ao_sessionId options = sid \<and> input_object call object
      \<and> key = key_text sha options ctx call object) ws"
    and "list_all (\<lambda>(options, ctx, call, object, result). input_object call object) h" and "length ws \<le> width"
    and "ac_consecutive (counters_of (as_counters st) sid) \<le> ac_total (counters_of (as_counters st) sid)"
    and "ac_total (counters_of (as_counters st) sid) = length (filter denied_by h)"
    and "ac_total (counters_of (as_counters st) sid) + length ws \<le> AUTO_FALLBACK_TOTAL_THRESHOLD - 1 + width"
    and "ac_consecutive (counters_of (as_counters st) sid) + length ws \<le> AUTO_FALLBACK_CONSECUTIVE_THRESHOLD - 1 + width"
  using assms by (simp_all add: session_ok_def Let_def)

lemma session_ok_same_counters:
  assumes "session_ok sha sid width (st, ws, h)" "counters_of (as_counters st') sid = counters_of (as_counters st) sid"
  shows "session_ok sha sid width (st', ws, h)"
  using assms by (simp add: session_ok_def)

lemma session_ok_step:
  assumes "engine_step env sha sid width s s'" "session_ok sha sid width s"
  shows "session_ok sha sid width s'"
  using assms(1)
proof cases
  case (restarted st f ws h)
  note ok = session_okD [OF assms(2) [unfolded restarted(1)]]
  have "counters_of [(sid, cf_state f)] sid = counters_of (as_counters st) sid"
    using restarted(3) by (auto simp: createFileAutoCounterStore_def loadCounters_text counters_of_def)
  then show ?thesis unfolding restarted(2) by (intro session_okI) (use ok in simp_all)
next
  case (begun options call object ctx st b st' ws h)
  note ok = session_okD [OF assms(2) [unfolded begun(1)]]
  have c: "as_counters st' = as_counters st" by (rule begin_state [OF begun(5)])
  show ?thesis using begun(5)
  proof (cases rule: begin_cases)
    case (asking envelope)
    then show ?thesis unfolding begun(2)
      by (intro session_okI) (use ok begun(3,4,6) c in \<open>auto simp: now_waiting_def isFallbackActive_def\<close>)
  qed (use assms(2) begun(1,2) c in \<open>simp_all add: now_waiting_def session_ok_def\<close>)
next
  case (answered options ctx call key result st outcome st' before object after h)
  note ok = session_okD [OF assms(2) [unfolded answered(1)]]
  obtain v where v: "as_counters st' = count_verdict (ao_sessionId options) (backstopped (config_of ctx) result) (as_counters st)"
    using end_answered [OF answered(3)] by metis
  have "ao_sessionId options = sid" "input_object call object" using ok(1) by auto
  then show ?thesis unfolding answered(2)
    by (intro session_okI) (use ok v in \<open>auto simp: count_verdict_def denied_by_def split: auto_verdict.splits\<close>)
next
  case (threw options ctx call key e st outcome st' before object after h)
  note ok = session_okD [OF assms(2) [unfolded threw(1)]]
  show ?thesis unfolding threw(2) by (intro session_okI) (use ok threw(3) in auto)
next
  case (resolved st ws h allowed)
  note ok = session_okD [OF assms(2) [unfolded resolved(1)]]
  show ?thesis unfolding resolved(2)
    by (intro session_okI) (use ok in \<open>auto simp: noteFallbackResolution_def\<close>)
next
  case (headless options st ws h ctx call)
  show ?thesis
    using assms(2) session_ok_same_counters unfolding headless(1,2) by (simp add: noteHeadlessFallbackDenial_def session_ok_def)
qed

lemma reachable_ok: "engine_reachable env sha sid width s \<Longrightarrow> session_ok sha sid width s"
proof (induction rule: engine_reachable.induct)
  case created
  then show ?case by (simp add: session_ok_def counters_of_def the_default_def ZERO_STATE_def)
qed (rule session_ok_step)

text \<open>
  C16: the brakes hold up to the calls already under way. In every state a session can reach, through classifications that wait for the classifier while
  others begin, throwing classifiers, human answers and restarts from the counter file, the total counter is the number of denials the classifier
  gave (after the tiers). With at most \<open>width\<close> classifications waiting at a time, the denials and the waiting classifications
  together stay below \<open>20 + width\<close>, and those in a row below \<open>3 + width\<close>. So calls classified one after another get at most 20 denials, at most 3 in a row.
\<close>

theorem fallback_counters_bounded:
  assumes "engine_reachable env sha sid width (st, ws, h)"
  shows "ac_total (counters_of (as_counters st) sid) = length (filter denied_by h)
    \<and> length (filter denied_by h) + length ws < 20 + width
    \<and> ac_consecutive (counters_of (as_counters st) sid) + length ws < 3 + width
    \<and> ac_consecutive (counters_of (as_counters st) sid) \<le> ac_total (counters_of (as_counters st) sid)"
  using session_okD [OF reachable_ok [OF assms]]
  by (simp add: AUTO_FALLBACK_CONSECUTIVE_THRESHOLD_def AUTO_FALLBACK_TOTAL_THRESHOLD_def)

lemma total_step: "engine_step env sha sid width s s' \<Longrightarrow>
   ac_total (counters_of (as_counters (fst s)) sid) \<le> ac_total (counters_of (as_counters (fst s')) sid)"
proof (induction rule: engine_step.induct)
  case (restarted st f ws h)
  then show ?case by (auto simp: createFileAutoCounterStore_def loadCounters_text counters_of_def)
next
  case (begun options call object ctx st b st' ws h)
  then show ?case by (simp add: begin_state)
next
  case (answered options ctx call key result st outcome st' before object after h)
  obtain v where "as_counters st' = count_verdict (ao_sessionId options) (backstopped (config_of ctx) result) (as_counters st)"
    using end_answered [OF answered] by metis
  then show ?case
    by (cases "ao_sessionId options = sid")
      (auto simp: count_verdict_def counters_of_other split: auto_verdict.splits)
qed (auto simp: noteFallbackResolution_def noteHeadlessFallbackDenial_def)

lemma total_grows:
  assumes "(engine_step env sha sid width)\<^sup>*\<^sup>* s s'"
  shows "ac_total (counters_of (as_counters (fst s)) sid) \<le> ac_total (counters_of (as_counters (fst s')) sid)"
  using assms by induction (auto dest: total_step intro: order_trans)

text \<open>
  C17: the total brake never lets go. Once a session has seen 20 classifier denials, every call whose classification begins later, whatever humans answered in
  between, whatever other classifications were still waiting, and also after a restart, is sent to the human prompt without asking the classifier or the cache.
\<close>

theorem total_brake_holds:
  assumes "(engine_step env sha sid width)\<^sup>*\<^sup>* (st, ws, h) (st', ws', h')"
    and "ac_total (counters_of (as_counters st) sid) \<ge> AUTO_FALLBACK_TOTAL_THRESHOLD"
    and "ao_sessionId options = sid"
  shows "fst (classify_begin env sha options ctx call object st') = Finished (Inr FALLBACK_VERDICT)
    \<and> fst (classify env sha options ctx call object st') = Inr FALLBACK_VERDICT \<and> asked_now env sha options ctx call object st' = []"
proof -
  have "isFallbackActive (counters_of (as_counters st') sid)"
    using total_grows [OF assms(1)] assms(2) by (simp add: isFallbackActive_def)
  then show ?thesis using assms(3) by (simp add: classify_def classify_begin_def asked_now_def Let_def)
qed

subsection \<open>What a cached verdict stands for\<close>

definition gives :: "(string \<Rightarrow> string) \<Rightarrow> string \<Rightarrow> auto_verdict \<Rightarrow> asked \<Rightarrow> bool" where
  "gives sha key verdict q \<longleftrightarrow>
     (case q of (options, ctx, call, object, result) \<Rightarrow>
        key = cacheKeyString (key_of sha options ctx call object) \<and> verdict = backstopped (config_of ctx) result)"

definition from_history :: "(string \<Rightarrow> string) \<Rightarrow> asked list \<Rightarrow> string \<Rightarrow> auto_verdict \<Rightarrow> bool" where
  "from_history sha h key verdict \<longleftrightarrow> list_ex (gives sha key verdict) h"

lemma from_history_append [simp]: "from_history sha (h @ h') k v \<longleftrightarrow> from_history sha h k v \<or> from_history sha h' k v"
  by (simp add: from_history_def)

lemma set_update: "set (AList.update k v xs) \<subseteq> insert (k, v) (set xs)"
  by (induction xs) auto

lemma cache_from_history:
  assumes "engine_reachable env sha sid width s" "(k, v) \<in> set (as_cache (fst s))"
  shows "from_history sha (snd (snd s)) k (av_verdict v)"
  using assms
proof (induction arbitrary: k v)
  case (stepped s s')
  show ?case using stepped.hyps(2)
  proof cases
    case (begun options call object ctx st b st' ws h)
    then show ?thesis using stepped.IH stepped.prems begin_state [OF begun(5)] by simp
  next
    case (answered options ctx call key result st outcome st' before object after h)
    obtain w where w: "av_verdict w = backstopped (config_of ctx) result" "as_cache st' = AList.update key w (as_cache st)"
      using end_answered [OF answered(3)] by metis
    have "key = key_text sha options ctx call object"
      using session_okD(1) [OF reachable_ok [OF stepped.hyps(1), unfolded answered(1)]] by simp
    then have "from_history sha [(options, ctx, call, object, result)] key (av_verdict w)" using w(1) by (simp add: from_history_def gives_def)
    moreover have "(k, v) = (key, w) \<or> (k, v) \<in> set (as_cache st)"
      using stepped.prems answered(2) w(2) set_update by fastforce
    ultimately show ?thesis using stepped.IH answered(1,2) by auto
  qed (use stepped in \<open>auto simp: noteFallbackResolution_def noteHeadlessFallbackDenial_def split: if_splits\<close>)
qed simp

definition collision_free :: "(string \<Rightarrow> string) \<Rightarrow> bool" where
  "collision_free sha \<longleftrightarrow> (\<forall>u v. no_collision sha u v)"

lemma hash_exact: "collision_free sha \<Longrightarrow> tidy u \<Longrightarrow> tidy v \<Longrightarrow> stableHash sha u = stableHash sha v \<Longrightarrow> canon_value u = canon_value v"
  by (metis collision_free_def no_collision_def stable_text_exact)

lemma stable_of_tidy [simp]: "tidy (stable_of v)" "stable_of v \<noteq> StUndef"
proof -
  show u: "stable_of v \<noteq> StUndef" for v by (cases v) auto
  show "tidy (stable_of v)"
  proof (induction v)
    case (JObj kvs)
    then have "tidy (stable_of (snd kv))" if "kv \<in> set kvs" for kv using that by (metis snds.intros surj_pair)
    then show ?case by auto
  qed (auto simp: u)
qed

lemma texts_tidy [simp]: "tidy (texts xs)"
  by (auto simp: texts_def)

lemma key_exact:
  assumes "cacheKeyString (key_of sha options ctx call object) = cacheKeyString (key_of sha options' ctx' call' object')"
  shows "computePolicyHash sha (cx_policy ctx) = computePolicyHash sha (cx_policy ctx') \<and> computeEnvHash sha ctx = computeEnvHash sha ctx'
    \<and> computeActionFingerprint sha (tool_of call) object = computeActionFingerprint sha (tool_of call') object'"
proof -
  define kv where "kv = key_value (key_of sha options ctx call object)"
  define kv' where "kv' = key_value (key_of sha options' ctx' call' object')"
  have t: "tidy kv" "tidy kv'" by (simp_all add: kv_def kv'_def key_value_def key_of_def opt_member_def)
  have c: "canon_value kv = canon_value kv'"
    using assms by (simp only: cacheKeyString_def kv_def [symmetric] kv'_def [symmetric] stable_text_exact [OF t])
  note l = member_lookup [OF _ _ c [unfolded kv_def kv'_def key_value_def]]
  show ?thesis
    using l [of "''policyHash''"] l [of "''envHash''"] l [of "''actionFingerprint''"] by (simp add: key_of_def opt_member_def)
qed

definition same_input :: "tool_input \<Rightarrow> tool_input \<Rightarrow> bool" where
  "same_input i j \<longleftrightarrow> (\<forall>k. map_option (\<lambda>v. canon_value (stable_of v)) (i k) = map_option (\<lambda>v. canon_value (stable_of v)) (j k))"

definition same_situation :: "evaluation_context \<times> permission_call \<Rightarrow> evaluation_context \<times> permission_call \<Rightarrow> bool" where
  "same_situation a b \<longleftrightarrow>
     (case a of (ctx, call) \<Rightarrow> case b of (ctx', call') \<Rightarrow>
        policy_content (cx_policy ctx) = policy_content (cx_policy ctx')
        \<and> cx_cwd ctx = cx_cwd ctx' \<and> cx_home ctx = cx_home ctx' \<and> cx_trustedWorkspace ctx = cx_trustedWorkspace ctx'
        \<and> cx_sessionBypassEnabled ctx = cx_sessionBypassEnabled ctx'
        \<and> mset (cx_additionalDirectories ctx) = mset (cx_additionalDirectories ctx')
        \<and> tool_of call = tool_of call' \<and> same_input (input_of call) (input_of call'))"

lemma same_object_same_input:
  assumes "input_object call object" "input_object call' object'"
    and "canon_value (stable_of (JObj object)) = canon_value (stable_of (JObj object'))"
  shows "same_input (input_of call) (input_of call')"
proof -
  let ?s = "map (\<lambda>kv. (fst kv, stable_of (snd kv)))"
  have d: "distinct (map fst (?s object))" "distinct (map fst (?s object'))"
    using assms(1,2) by (simp_all add: input_object_def comp_def)
  have m: "map_of (?s xs) k = map_option stable_of (map_of xs k)" for xs k by (induction xs) auto
  have "map_option canon_value (map_of (?s object) k) = map_option canon_value (map_of (?s object') k)" for k
    by (rule member_lookup [OF d]) (use assms(3) in \<open>simp only: stable_of.simps\<close>)
  then show ?thesis
    using assms(1,2) by (simp add: same_input_def m input_object_def option.map_comp comp_def del: map_option_eq_Some)
qed

lemma same_key_same_situation:
  assumes "collision_free sha" "input_object call object" "input_object call' object'"
    and "key_text sha options ctx call object = key_text sha options' ctx' call' object'"
  shows "same_situation (ctx, call) (ctx', call')"
proof -
  note k = key_exact [OF assms(4)]
  have p: "policy_content (cx_policy ctx) = policy_content (cx_policy ctx')"
    by (rule policy_value_inject, rule hash_exact [OF assms(1) policy_tidy policy_tidy]) (use k in \<open>simp only: computePolicyHash_def\<close>)
  have t: "tidy (env_value c)" "tidy (action_value (tool_of l) j)" for c l j
    by (simp_all add: env_value_def action_value_def del: stable_of.simps tidy.simps(1))
  have e: "canon_value (env_value ctx) = canon_value (env_value ctx')"
    by (rule hash_exact [OF assms(1) t(1) t(1)]) (use k in \<open>simp only: computeEnvHash_def\<close>)
  have f: "canon_value (action_value (tool_of call) object) = canon_value (action_value (tool_of call') object')"
    by (rule hash_exact [OF assms(1) t(2) t(2)]) (use k in \<open>simp only: computeActionFingerprint_def\<close>)
  note le = member_lookup [OF _ _ e [unfolded env_value_def]] and lf = member_lookup [OF _ _ f [unfolded action_value_def]]
  have facts: "cx_cwd ctx = cx_cwd ctx'" "cx_home ctx = cx_home ctx'" "cx_trustedWorkspace ctx = cx_trustedWorkspace ctx'"
    "cx_sessionBypassEnabled ctx = cx_sessionBypassEnabled ctx'"
    using le [of "''cwd''"] le [of "''home''"] le [of "''trustedWorkspace''"] le [of "''sessionBypassEnabled''"] by simp_all
  have "sort_by unit_le (cx_additionalDirectories ctx) = sort_by unit_le (cx_additionalDirectories ctx')"
    using le [of "''additionalDirectories''"] by (simp add: texts_canon)
  then have dirs: "mset (cx_additionalDirectories ctx) = mset (cx_additionalDirectories ctx')" by (metis mset_sort_by)
  have "tool_of call = tool_of call'" and c: "canon_value (stable_of (JObj object)) = canon_value (stable_of (JObj object'))"
    using lf [of "''toolName''"] lf [of "''input''"] by (simp_all del: stable_of.simps canon_value.simps(2))
  with same_object_same_input [OF assms(2,3) c] show ?thesis using p facts dirs by (simp add: same_situation_def)
qed

text \<open>
  An allow of the classifier is reused for nothing else. When a classification allows a call, the classifier was asked, in this session
  or just now, about the same tool with the same input (up to the order of members) under the same policy content, working directory, home, trust of
  the workspace, bypass flag and additional directories, and it answered allow with a category that is neither hard-denied nor an uncleared soft-denied one
  under the present configuration. The digest is taken to be free of collisions.
\<close>

theorem allow_only_as_classified:
  assumes "engine_reachable env sha sid width (st, ws, h)" and "fst (classify env sha options ctx call object st) = Inr v"
    and "av_verdict v = VerdictAllow" and "collision_free sha" and "input_object call object"
  shows "\<exists>options' ctx' call' object' result. (options', ctx', call', object', result) \<in> set (h @ asked_now env sha options ctx call object st)
    \<and> same_situation (ctx, call) (ctx', call') \<and> cw_verdict result = VerdictAllow
    \<and> resolveAutoTier (cw_category result) (config_of ctx) \<notin> {HardDenied, SoftDenied}"
proof -
  let ?h = "h @ asked_now env sha options ctx call object st"
  obtain b st1 where b: "classify_begin env sha options ctx call object st = (b, st1)" by fastforce
  have "from_history sha ?h (key_text sha options ctx call object) VerdictAllow"
    using b
  proof (cases rule: begin_cases)
    case paused
    then show ?thesis using assms(2,3) b by (auto simp: classify_def FALLBACK_VERDICT_def)
  next
    case (failed e)
    then show ?thesis using assms(2) b by (simp add: classify_def)
  next
    case (cached w)
    then have "(key_text sha options ctx call object, v) \<in> set (as_cache st)"
      using assms(2) b by (auto simp: classify_def dest: map_of_SomeD)
    from cache_from_history [OF assms(1)] this show ?thesis using assms(3) by fastforce
  next
    case (asking envelope)
    obtain result where r: "ask_classifier options ctx envelope = Inr result"
      using assms(2) b asking by (cases "ask_classifier options ctx envelope") (auto simp: classify_def)
    obtain outcome st2 where e: "classify_end sha options ctx call (key_text sha options ctx call object) (Inr result) st1 = (outcome, st2)" by fastforce
    have "outcome = Inr v" using assms(2) b asking r e by (simp add: classify_def)
    then have "backstopped (config_of ctx) result = VerdictAllow" using end_answered [OF e] assms(3) by (metis sum.inject(2))
    then show ?thesis using b asking r by (simp add: asked_now_def from_history_def gives_def)
  qed
  then obtain asked where a: "asked \<in> set ?h" "gives sha (key_text sha options ctx call object) VerdictAllow asked"
    unfolding from_history_def list_ex_iff by blast
  obtain options' ctx' call' object' result where "asked = (options', ctx', call', object', result)" by (cases asked)
  with a have
    q: "(options', ctx', call', object', result) \<in> set ?h" "key_text sha options ctx call object = key_text sha options' ctx' call' object'"
      "backstopped (config_of ctx') result = VerdictAllow"
    by (simp_all only: gives_def prod.case)
  have "list_all (\<lambda>(options, ctx, call, object, result). input_object call object) ?h"
    using session_okD(2) [OF reachable_ok [OF assms(1)]] assms(5) by (auto simp: asked_now_def split: begun.splits sum.splits)
  then have "input_object call' object'" using q(1) by (auto simp: list_all_iff simp del: set_append)
  then have s: "same_situation (ctx, call) (ctx', call')" using same_key_same_situation [OF assms(4,5) _ q(2)] by simp
  then have "config_of ctx' = config_of ctx" by (simp add: same_situation_def policy_content_def config_of_def)
  then have "cw_verdict result = VerdictAllow" "resolveAutoTier (cw_category result) (config_of ctx) \<notin> {HardDenied, SoftDenied}"
    using q(3) by (auto simp: backstopped_def split: if_splits)
  then show ?thesis using q(1) s by blast
qed

end
