(* ===== verification/Inheritance.thy ===== *)
theory Inheritance
  imports Stable_Hash
begin

text \<open>
  The permission mode of a subagent (\<^verbatim>\<open>permissions/auto/inheritance.ts\<close>): which mode a new child gets from
  its parent and its definition, and which mode a resumed child gets. The comparator of the code is shown to be
  the meet of a partial order on the modes, except for the one pair it refuses to compare; the order is an instance of the
  library's class of orders.
\<close>

subsection \<open>The comparator\<close>

definition AUTO_MODE_STRICTNESS_ORDER :: "permission_mode list" where
  "AUTO_MODE_STRICTNESS_ORDER = [DontAsk, Plan, Default, AcceptEdits, Auto, BypassPermissions]"

text \<open>Every mode is in the list, so the error of a missing member cannot occur.\<close>

definition strictnessRank :: "permission_mode \<Rightarrow> nat" where
  "strictnessRank mode = length (takeWhile (\<lambda>m. m \<noteq> mode) AUTO_MODE_STRICTNESS_ORDER)"

definition RULE_SILENCING_MODES :: "permission_mode list" where
  "RULE_SILENCING_MODES = [Plan, Auto]"

definition isRuleSilencing :: "permission_mode \<Rightarrow> bool" where
  "isRuleSilencing mode \<longleftrightarrow> mode \<in> set RULE_SILENCING_MODES"

definition breadthRank :: "permission_mode \<Rightarrow> nat" where
  "breadthRank mode = strictnessRank mode"

datatype inheritance_error = ChildResumeModeIncomparable permission_mode permission_mode

definition INCOMPARABLE_MODE_PAIRS :: "string list" where
  "INCOMPARABLE_MODE_PAIRS = [''dontAsk:auto'', ''auto:dontAsk'']"

definition incomparablePairKey :: "permission_mode \<Rightarrow> permission_mode \<Rightarrow> string" where
  "incomparablePairKey a b = mode_text a @ '':'' @ mode_text b"

definition stricterOf :: "permission_mode \<Rightarrow> permission_mode \<Rightarrow> inheritance_error + permission_mode" where
  "stricterOf a b =
     (if incomparablePairKey a b \<in> set INCOMPARABLE_MODE_PAIRS then Inl (ChildResumeModeIncomparable a b)
      else if isRuleSilencing a \<noteq> isRuleSilencing b then Inr (if isRuleSilencing a then a else b)
      else Inr (if breadthRank a \<le> breadthRank b then a else b))"

subsection \<open>New children\<close>

definition FORCED_MODES :: "permission_mode list" where
  "FORCED_MODES = [BypassPermissions, AcceptEdits, Auto]"

record child_policy =
  ch_effectiveMode :: permission_mode
  ch_parentPolicyVersion :: nat
  ch_parentPolicyHash :: string

text \<open>The mode of the definition, if it has one; whether the managed policy disables the bypass mode, if it says so.\<close>

definition computeChildPolicy ::
  "(string \<Rightarrow> string) \<Rightarrow> auto_mode_config policy_state \<Rightarrow> permission_mode option \<Rightarrow> bool option \<Rightarrow> child_policy" where
  "computeChildPolicy sha parent def_mode disableBypass =
     \<lparr>ch_effectiveMode =
        (case def_mode of
           Some mode \<Rightarrow>
             if ps_mode parent \<in> set FORCED_MODES then ps_mode parent
             else if mode = BypassPermissions \<and> disableBypass = Some True then ps_mode parent else mode
         | None \<Rightarrow> ps_mode parent),
      ch_parentPolicyVersion = ps_version parent, ch_parentPolicyHash = computePolicyHash sha parent\<rparr>"

subsection \<open>Resumed children\<close>

definition resolveChildResumeMode :: "child_policy \<Rightarrow> permission_mode \<Rightarrow> inheritance_error + permission_mode" where
  "resolveChildResumeMode recorded currentParentMode = stricterOf (ch_effectiveMode recorded) currentParentMode"

text \<open>
  The resume of a stored child by a message (\<^verbatim>\<open>subagents/child-engine.ts\<close>). The present definition counts as it would for a new child of the present
  parent; the recorded mode and the present parent bound the outcome, and so does the mode that was computed when the handle was made. A resume that
  compares incomparable modes leaves the record as it is.
\<close>

definition definitionMode ::
  "(string \<Rightarrow> string) \<Rightarrow> child_policy \<Rightarrow> permission_mode option \<Rightarrow> permission_mode \<Rightarrow> bool \<Rightarrow> inheritance_error + permission_mode" where
  "definitionMode sha recorded def_mode parentMode disableBypass =
     (let parent = \<lparr>ps_mode = parentMode, ps_version = ch_parentPolicyVersion recorded,
                     ps_rules = \<lparr>entries = [], set_mode = None, directories = []\<rparr>, ps_autoConfig = None\<rparr>;
          fresh = computeChildPolicy sha parent def_mode (Some disableBypass)
      in bind_result (resolveChildResumeMode recorded (ch_effectiveMode fresh)) (\<lambda>mode.
           resolveChildResumeMode (recorded\<lparr>ch_effectiveMode := mode\<rparr>) parentMode))"

record resume_request =
  rq_definition :: "permission_mode option"
  rq_current :: "(permission_mode \<times> nat \<times> string) option"
  rq_inherited :: permission_mode
  rq_disableBypass :: bool

definition present_mode :: "child_policy \<Rightarrow> resume_request \<Rightarrow> permission_mode" where
  "present_mode recorded q = (case rq_current q of Some (mode, version, hash) \<Rightarrow> mode | None \<Rightarrow> ch_effectiveMode recorded)"

definition resume_child :: "(string \<Rightarrow> string) \<Rightarrow> child_policy \<Rightarrow> resume_request \<Rightarrow> inheritance_error + child_policy" where
  "resume_child sha recorded q =
     bind_result (definitionMode sha recorded (rq_definition q) (present_mode recorded q) (rq_disableBypass q)) (\<lambda>mode.
     bind_result (resolveChildResumeMode (recorded\<lparr>ch_effectiveMode := mode\<rparr>) (rq_inherited q)) (\<lambda>resumeMode.
       Inr (case rq_current q of
              Some (_, version, hash) \<Rightarrow> \<lparr>ch_effectiveMode = resumeMode, ch_parentPolicyVersion = version, ch_parentPolicyHash = hash\<rparr>
            | None \<Rightarrow> recorded\<lparr>ch_effectiveMode := resumeMode\<rparr>)))"

text \<open>One record through any number of resumes, refused ones included.\<close>

inductive resumed_to :: "(string \<Rightarrow> string) \<Rightarrow> child_policy \<Rightarrow> child_policy \<Rightarrow> bool"
  for sha recorded where
  not_resumed: "resumed_to sha recorded recorded"
| resumed: "resumed_to sha recorded child \<Longrightarrow> resume_child sha child q = Inr child' \<Longrightarrow> resumed_to sha recorded child'"
| refused: "resumed_to sha recorded child \<Longrightarrow> resume_child sha child q = Inl e \<Longrightarrow> resumed_to sha recorded child"

subsection \<open>The order\<close>

text \<open>
  How strict a mode is: the first component is whether it withholds a whole category from every rule, the second what it does with the rest.
  A mode is at most another when it is as strict in the first and, with both equal, in the second; the automatic mode and
  \<open>dontAsk\<close> are not comparable.
\<close>

instantiation permission_mode :: order
begin

definition less_eq_permission_mode :: "permission_mode \<Rightarrow> permission_mode \<Rightarrow> bool" where
  "less_eq_permission_mode a b \<longleftrightarrow>
     a = b \<or> a = Plan \<or> b = BypassPermissions
     \<or> a \<in> {Auto, DontAsk} \<and> b \<in> {Default, AcceptEdits} \<or> a = Default \<and> b = AcceptEdits"

definition less_permission_mode :: "permission_mode \<Rightarrow> permission_mode \<Rightarrow> bool" where
  "less_permission_mode a b \<longleftrightarrow> a \<le> b \<and> \<not> b \<le> a"

instance
proof
  fix a b c :: permission_mode
  show "(a < b) = (a \<le> b \<and> \<not> b \<le> a)" by (rule less_permission_mode_def)
  show "a \<le> a" by (simp add: less_eq_permission_mode_def)
  show "a \<le> b \<Longrightarrow> b \<le> c \<Longrightarrow> a \<le> c" by (cases a; cases b; cases c) (simp_all add: less_eq_permission_mode_def)
  show "a \<le> b \<Longrightarrow> b \<le> a \<Longrightarrow> a = b" by (cases a; cases b) (simp_all add: less_eq_permission_mode_def)
qed

end

definition unrelated :: "permission_mode \<Rightarrow> permission_mode \<Rightarrow> bool" where
  "unrelated a b \<longleftrightarrow> a = DontAsk \<and> b = Auto \<or> a = Auto \<and> b = DontAsk"

lemmas inheritance_defs =
  stricterOf_def incomparablePairKey_def INCOMPARABLE_MODE_PAIRS_def isRuleSilencing_def RULE_SILENCING_MODES_def breadthRank_def
  strictnessRank_def AUTO_MODE_STRICTNESS_ORDER_def less_eq_permission_mode_def

text \<open>The comparator, on all 36 pairs.\<close>

lemma stricterOf_order:
  "stricterOf a b = (if unrelated a b then Inl (ChildResumeModeIncomparable a b) else Inr (if a \<le> b then a else b))"
  by (cases a; cases b) (simp_all add: inheritance_defs unrelated_def)

lemma comparable: "\<not> unrelated a b \<Longrightarrow> a \<le> b \<or> b \<le> a"
  by (cases a; cases b) (simp_all add: less_eq_permission_mode_def unrelated_def)

lemma stricterOf_meet: "stricterOf a b = Inr m \<Longrightarrow> m \<in> {a, b} \<and> m \<le> a \<and> m \<le> b"
  using comparable [of a b] by (auto simp: stricterOf_order split: if_splits)

definition fresh_mode :: "(string \<Rightarrow> string) \<Rightarrow> child_policy \<Rightarrow> resume_request \<Rightarrow> permission_mode" where
  "fresh_mode sha recorded q =
     ch_effectiveMode (computeChildPolicy sha
       \<lparr>ps_mode = present_mode recorded q, ps_version = ch_parentPolicyVersion recorded,
        ps_rules = \<lparr>entries = [], set_mode = None, directories = []\<rparr>, ps_autoConfig = None\<rparr> (rq_definition q) (Some (rq_disableBypass q)))"

lemma resume_child_meet:
  assumes "resume_child sha recorded q = Inr child"
  shows "ch_effectiveMode child \<in> {ch_effectiveMode recorded, fresh_mode sha recorded q, present_mode recorded q, rq_inherited q}
    \<and> ch_effectiveMode child \<le> ch_effectiveMode recorded \<and> ch_effectiveMode child \<le> fresh_mode sha recorded q
    \<and> ch_effectiveMode child \<le> present_mode recorded q \<and> ch_effectiveMode child \<le> rq_inherited q"
proof -
  obtain m1 m2 m3 where m: "stricterOf (ch_effectiveMode recorded) (fresh_mode sha recorded q) = Inr m1"
    "stricterOf m1 (present_mode recorded q) = Inr m2" "stricterOf m2 (rq_inherited q) = Inr m3" "ch_effectiveMode child = m3"
    using assms by (auto simp: resume_child_def definitionMode_def resolveChildResumeMode_def fresh_mode_def Let_def split: option.splits)
  show ?thesis
    using stricterOf_meet [OF m(1)] stricterOf_meet [OF m(2)] stricterOf_meet [OF m(3)] m(4) by (auto intro: order_trans)
qed

text \<open>
  C20: a resumed child is never wider than it was, than its parent is, or than a new child would be. Whatever resumes a stored child went
  through before, refused ones included, the mode it gets at a resume is as strict as the one first recorded, the one recorded last, the
  parent's present one, the one inherited by its handle, and the one a new child of that definition would get now; and it is one of the last four, never an invented one.
\<close>

theorem resumed_child_never_wider:
  assumes "resumed_to sha recorded child" "resume_child sha child q = Inr final"
  shows "ch_effectiveMode final \<le> ch_effectiveMode recorded \<and> ch_effectiveMode final \<le> ch_effectiveMode child
    \<and> ch_effectiveMode final \<le> rq_inherited q
    \<and> (case rq_current q of Some (mode, version, hash) \<Rightarrow> ch_effectiveMode final \<le> mode | None \<Rightarrow> True)
    \<and> ch_effectiveMode final \<le> fresh_mode sha child q
    \<and> ch_effectiveMode final \<in> {ch_effectiveMode child, fresh_mode sha child q, present_mode child q, rq_inherited q}"
proof -
  have "ch_effectiveMode child \<le> ch_effectiveMode recorded"
    using assms(1) by induction (auto dest!: resume_child_meet intro: order_trans)
  then show ?thesis
    using resume_child_meet [OF assms(2)] by (auto simp: present_mode_def intro: order_trans split: option.splits)
qed

text \<open>A resume is refused only between the automatic mode and \<open>dontAsk\<close>.\<close>

lemma resume_refused: "resume_child sha recorded q = Inl (ChildResumeModeIncomparable a b) \<Longrightarrow> unrelated a b"
  by (auto simp: resume_child_def definitionMode_def resolveChildResumeMode_def stricterOf_order Let_def split: if_splits)

text \<open>
  What a new child may become. A parent in a forced mode gives its mode; the bypass mode reaches a
  child of another parent only when the definition asks for it and the managed policy has not disabled it; and a child without a definition of
  the mode has the parent's.
\<close>

theorem child_bypass_only_if_allowed:
  "ch_effectiveMode (computeChildPolicy sha parent def_mode disableBypass) = BypassPermissions \<longleftrightarrow>
     ps_mode parent = BypassPermissions
     \<or> ps_mode parent \<notin> {AcceptEdits, Auto} \<and> def_mode = Some BypassPermissions \<and> disableBypass \<noteq> Some True"
  by (cases "ps_mode parent"; cases def_mode) (auto simp: computeChildPolicy_def FORCED_MODES_def)

end
