(* ===== verification/Auto_Safety.thy ===== *)
theory Auto_Safety
  imports Pipeline_Safety Approval_Sessions Auto_Engine Inheritance
begin

text \<open>
  The automatic mode and the durable approvals inside the permission pipeline: an automatic allow of \<open>evaluate\<close> goes back to
  the classifier through the engine of \<open>Auto_Engine\<close>, and a parked call runs only under the policy it was
  approved under. Then the properties of the automatic mode on concrete values.
\<close>

subsection \<open>Where an automatic allow comes from\<close>

definition automatic :: "decision_record \<Rightarrow> bool" where
  "automatic r \<longleftrightarrow> dr_decision r = DAllow \<and> dr_mechanism r = MAutoEngine"

lemma not_automatic [simp]:
  "dr_decision r \<noteq> DAllow \<Longrightarrow> \<not> automatic r"
  "dr_mechanism r \<noteq> MAutoEngine \<Longrightarrow> \<not> automatic r"
  by (simp_all add: automatic_def)

lemma ask_not_automatic [simp]:
  assumes "dr_decision unanswered = DDeny"
  shows "\<not> automatic (snd (ask_in_turn ctx call meta carried unanswered))"
  using assms
  by (auto simp: ask_in_turn_def tryPermissionRequestHook_def buildRecordFromPromptResult_def markPromptAnswered_def automatic_def Let_def
      split: option.splits answer.splits)

lemma resolve_automatic: "automatic (snd (resolveAutoDecision ctx call carried)) \<Longrightarrow> av_verdict (cx_classify ctx call) = VerdictAllow"
proof (cases "av_fallbackToPrompt (cx_classify ctx call)")
  case True
  let ?ask = "ask_in_turn ctx call (plain_meta call AUTO_FALLBACK_REASON) carried (denial MAutoEngine (version_of ctx) carried AUTO_FALLBACK_UNANSWERED)"
  have "\<not> automatic (snd ?ask)" by simp
  moreover have "snd (resolveAutoDecision ctx call carried) = snd ?ask"
    using True by (simp add: resolveAutoDecision_def Let_def split: prod.splits)
  moreover assume "automatic (snd (resolveAutoDecision ctx call carried))"
  ultimately show ?thesis by simp
qed (auto simp: resolveAutoDecision_def automatic_def blocked_by_classifier_def split: if_splits)

lemma plan_automatic:
  "automatic (snd (classify_in_plan ctx call carried later)) \<Longrightarrow> \<not> automatic (snd later) \<Longrightarrow> av_verdict (cx_classify ctx call) = VerdictAllow"
  by (auto simp: classify_in_plan_def blocked_by_classifier_def automatic_def split: auto_verdict.splits)

lemma must_prompt_automatic:
  "automatic (snd (must_prompt ctx call carried esc message blocked orig)) \<Longrightarrow> av_verdict (cx_classify ctx call) = VerdictAllow"
  by (auto simp: must_prompt_def Let_def dest: resolve_automatic plan_automatic split: if_splits)

lemma escape_not_automatic [simp]: "\<not> automatic (snd (resolveSandboxEscape ctx call carried reason))"
  by (simp add: resolveSandboxEscape_def)

lemma unmatched_automatic:
  "automatic (snd (unmatched_stage ctx call carried esc gate)) \<Longrightarrow> av_verdict (cx_classify ctx call) = VerdictAllow"
  by (auto simp: unmatched_stage_def Let_def dest: resolve_automatic plan_automatic split: if_splits)

lemma mode_stage_automatic:
  assumes "mode_stage env ctx call carried = (consulted, Inr r)" "automatic r"
  shows "av_verdict (cx_classify ctx call) = VerdictAllow"
  using assms(1)
proof (cases rule: mode_stage_cases)
  case (prompted message blocked orig)
  then show ?thesis using assms(2) must_prompt_automatic by (metis snd_conv)
next
  case (later result)
  from later(3) show ?thesis
  proof (cases rule: allow_stage_cases)
    case unmatched
    then show ?thesis using assms(2) unmatched_automatic by (metis snd_conv)
  qed (use assms(2) in \<open>auto simp: automatic_def\<close>)
qed (use assms(2) in \<open>auto simp: automatic_def\<close>)

lemma ask_stage_not_automatic: "\<not> automatic (snd (ask_stage ctx call causes target carried))"
  by (cases "mode_of ctx = DontAsk") (simp_all add: ask_stage_def)

lemma evaluate_automatic:
  assumes "evaluate env ctx call = (consulted, Inr r)" "automatic r"
  shows "av_verdict (cx_classify ctx (effective ctx call)) = VerdictAllow"
proof -
  from assms(1) obtain r' where s: "evaluateStages env ctx call = (consulted, Inr r')" "automatic r'"
    by (cases rule: evaluate_Inr) (use assms(2) in \<open>auto simp: automatic_def\<close>)
  from s(1) show ?thesis
  proof (cases rule: evaluateStages_cases)
    case deny
    then show ?thesis
      using s(2) by (auto simp: deny_stage_def web_stage_def unfetchable_allowed_def automatic_def rule_denial_def split: option.splits if_splits)
  next
    case (later tail)
    from later(3) show ?thesis
    proof (cases rule: after_deny_cases)
      case deferred
      then show ?thesis using s(2) by (simp add: forced_defer_def automatic_def split: if_splits)
    next
      case (ask causes target)
      then show ?thesis using s(2) ask_stage_not_automatic by (metis snd_conv)
    next
      case decide
      then show ?thesis
        by (cases rule: decide_stage_cases) (use s(2) mode_stage_automatic in \<open>auto simp: automatic_def\<close>)
    qed
  qed (use s(2) in \<open>auto simp: automatic_def\<close>)
qed

text \<open>
  The engine of a session in the place of the classifier stage: the object is the call's input, and the answer the pipeline sees is the engine's verdict
  from that state. A verdict that had to wait for the classifier does not depend on what the state became meanwhile (\<open>verdict_of_answer\<close>).
\<close>

lemma verdict_of_answer:
  "fst (classify_end sha options ctx call key answer st) = fst (classify_end sha options ctx call key answer st')"
  by (cases answer) (simp_all add: classify_end_def map_prod_def case_prod_beta settle_state)

definition engine_plugged ::
  "host_env \<Rightarrow> (string \<Rightarrow> string) \<Rightarrow> auto_engine_options \<Rightarrow> evaluation_context \<Rightarrow> auto_state \<Rightarrow> permission_call \<Rightarrow> (string \<times> json) list \<Rightarrow> bool" where
  "engine_plugged env sha options ctx st call object \<longleftrightarrow>
     input_object call object
     \<and> (\<exists>v. fst (classify env sha options ctx call object st) = Inr v
        \<and> cx_classify ctx call = \<lparr>av_verdict = av_verdict v, av_fallbackToPrompt = av_fallbackToPrompt v\<rparr>)"

text \<open>
  C14: an automatic allow is the classifier's own allow for that situation. When the pipeline lets a call run on the word of the automatic mode, with
  the session's engine behind it, the classifier was asked, in this session or for this very call, about the same tool and the same input (up to the order of
  members of nested objects) under the same policy content, working directory, home, additional directories, trust and bypass flag; it
  answered allow, and its category is neither hard-denied nor an uncleared soft-denied one.
  The call meant is the one the hook left, other classifications may overlap, and the digest is taken to be free of collisions.
\<close>

theorem automatic_allow_was_classified:
  assumes "evaluate env ctx call = (consulted, Inr r)" and "dr_decision r = DAllow" and "dr_mechanism r = MAutoEngine"
    and "engine_reachable env sha sid width (st, ws, h)" and "engine_plugged env sha options ctx st (effective ctx call) object"
    and "collision_free sha"
  shows "\<exists>options' ctx' call' object' result.
      (options', ctx', call', object', result) \<in> set (h @ asked_now env sha options ctx (effective ctx call) object st)
    \<and> same_situation (ctx, effective ctx call) (ctx', call') \<and> cw_verdict result = VerdictAllow
    \<and> resolveAutoTier (cw_category result) (config_of ctx) \<notin> {HardDenied, SoftDenied}"
proof -
  obtain v where v: "fst (classify env sha options ctx (effective ctx call) object st) = Inr v" "input_object (effective ctx call) object"
    "cx_classify ctx (effective ctx call) = \<lparr>av_verdict = av_verdict v, av_fallbackToPrompt = av_fallbackToPrompt v\<rparr>"
    using assms(5) unfolding engine_plugged_def by blast
  have "av_verdict v = VerdictAllow"
    using evaluate_automatic [OF assms(1)] assms(2,3) v(3) by (simp add: automatic_def)
  then show ?thesis by (rule allow_only_as_classified [OF assms(4) v(1) _ assms(6) v(2)])
qed

subsection \<open>What a parked call runs under\<close>

lemma revalidated:
  assumes "revalidateApproval fs registered r ctx = Inr None"
  shows "ap_sessionId r = rv_sessionId ctx \<and> ap_toolUseID r = rv_toolUseID ctx \<and> ap_policyMode r = rv_policyMode ctx
    \<and> ap_policyHash r = Some (rv_policyHash ctx) \<and> ap_runtimeKind r = rv_runtimeKind ctx \<and> ap_backendSessionId r = rv_backendSessionId ctx
    \<and> (\<exists>issued now. join_with [NUL] issued = join_with [NUL] now
         \<and> (ap_issuedResolvedTargets r = Some issued \<or> ap_issuedResolvedTargets r = None)
         \<and> extractNormalizedTargets fs registered (ap_toolName r) (ap_originalInput r) (rv_cwd ctx) = Inr now)"
  using assms by (auto simp: revalidateApproval_def split: if_splits option.splits)

lemma executed_by_record:
  assumes "resume_record host r0 messages = Inr (effects, messages')" "Executed r input \<in> set effects"
  shows "r = r0 \<and> ap_state r = ApAllowed \<and> input = input_to_execute r
    \<and> revalidateApproval (rz_fs host) (rz_registered host) r (rz_context host r) = Inr None"
proof (cases "revalidateApproval (rz_fs host) (rz_registered host) r0 (rz_context host r0)")
  case (Inl e)
  then show ?thesis using assms by (auto simp: resume_record_def split: option.splits if_splits)
next
  case (Inr verdict)
  have "verdict = None"
    using assms Inr by (cases verdict) (auto simp: resume_record_def split: option.splits if_splits)
  then show ?thesis
    using assms Inr by (auto simp: resume_record_def run_call_def Let_def split: option.splits if_splits sum.splits)
qed

lemma executed_revalidated:
  assumes "Executed r input \<in> set (fst (resume_records host rs messages))"
  shows "r \<in> set rs \<and> ap_state r = ApAllowed \<and> input = input_to_execute r
    \<and> revalidateApproval (rz_fs host) (rz_registered host) r (rz_context host r) = Inr None"
  using assms
proof (induction rs arbitrary: messages)
  case (Cons r0 rs)
  show ?case
  proof (cases "resume_record host r0 messages")
    case (Inr p)
    obtain effects messages' where p: "p = (effects, messages')" by fastforce
    from Cons.prems Inr p have "Executed r input \<in> set effects \<or> Executed r input \<in> set (fst (resume_records host rs messages'))"
      by (auto simp: map_prod_def split: prod.splits)
    then show ?thesis
    proof
      assume "Executed r input \<in> set effects"
      moreover have "resume_record host r0 messages = Inr (effects, messages')" using Inr p by simp
      ultimately show ?thesis using executed_by_record by fastforce
    next
      assume "Executed r input \<in> set (fst (resume_records host rs messages'))"
      from Cons.IH [OF this] show ?thesis by auto
    qed
  qed (use Cons.prems in simp)
qed simp

text \<open>
  C15: an approved call runs only under the policy it was approved under. When a resume executes a parked call, the policy of the
  resumed session has the same mode, the same rules in the same order and the same automatic-mode configuration as the policy whose hash the record
  was issued with, the record is the session's own and was answered with allow, and it runs with the input the responder left. The digest is taken not to collide on the two policies.
\<close>

theorem executed_under_issued_policy:
  assumes "Executed r input \<in> set (fst (resume_session host at_most m sid messages))"
    and "ap_policyHash r = Some (computePolicyHash sha issued)" and "rv_policyHash (rz_context host r) = computePolicyHash sha current"
    and "no_collision sha (policy_value issued) (policy_value current)"
  shows "policy_content current = policy_content issued \<and> ap_sessionId r = sid \<and> ap_state r = ApAllowed
    \<and> ap_sessionId r = rv_sessionId (rz_context host r) \<and> ap_policyMode r = rv_policyMode (rz_context host r) \<and> input = input_to_execute r"
proof -
  note e = executed_revalidated [OF assms(1) [unfolded resume_session_def]]
  then have v: "revalidateApproval (rz_fs host) (rz_registered host) r (rz_context host r) = Inr None" by blast
  have "computePolicyHash sha issued = computePolicyHash sha current" using revalidated [OF v] assms(2,3) by simp
  then have "policy_content issued = policy_content current" using policy_hash_exact [OF assms(4)] by blast
  moreover have "ap_sessionId r = sid" using e by (auto simp: listFor_def filterAndSort_def)
  ultimately show ?thesis using e revalidated [OF v] by simp
qed

end
