(* ===== verification/Auto_Sessions.thy ===== *)
theory Auto_Sessions
  imports Sessions Auto_Safety
begin

text \<open>
  Concrete runs of the automatic mode and of the resumes: an engine whose classifier has a fixed answer, a child that is resumed
  three times, and a parked call whose policy is checked again. They show that the hypotheses of the
  properties in \<open>Auto_Engine\<close>, \<open>Inheritance\<close> and \<open>Auto_Safety\<close> hold together.
\<close>

definition answering :: "auto_verdict \<Rightarrow> auto_engine_options" where
  "answering v =
     \<lparr>ao_sessionId = ''s1'', ao_runtimeKind = None,
      ao_classifier = (\<lambda>_ _. Inr \<lparr>cw_verdict = v, cw_category = None, cw_severity = None, cw_reasonCode = None, cw_auditReason = None\<rparr>),
      ao_classifierContext = [], ao_generation = 0\<rparr>"

definition fresh_engine :: auto_state where
  "fresh_engine = \<lparr>as_counters = [], as_cache = [], as_audit = []\<rparr>"

abbreviation deploy :: permission_call where
  "deploy \<equiv> call_to ''Deploy'' ''site'' ''x''"

abbreviation deploy_input :: "(string \<times> json) list" where
  "deploy_input \<equiv> [(''site'', JStr ''x'')]"

definition auto_session :: evaluation_context where
  "auto_session = (session_in Auto [] HookNoOpinion None)\<lparr>cx_classify := (\<lambda>_. \<lparr>av_verdict = VerdictAllow, av_fallbackToPrompt = False\<rparr>)\<rparr>"

lemma fresh_reachable: "engine_reachable env sha sid width (fresh_engine, [], [])"
  unfolding fresh_engine_def by (rule created)

lemma deploy_object: "input_object deploy deploy_input"
  by (simp add: input_object_def fun_eq_iff)

definition after_denial :: auto_state where
  "after_denial = snd (classify plain_host id (answering VerdictDeny) auto_session deploy deploy_input fresh_engine)"

abbreviation denial_asked :: "asked list" where
  "denial_asked \<equiv> asked_now plain_host id (answering VerdictDeny) auto_session deploy deploy_input fresh_engine"

text \<open>A classification that nothing interrupts, as two steps of the session.\<close>

lemma classified_reachable:
  assumes "engine_reachable env sha sid width (st, [], h)" "ao_sessionId options = sid" "input_object call object" "width \<noteq> 0"
  shows "engine_reachable env sha sid width
    (snd (classify env sha options ctx call object st), [], h @ asked_now env sha options ctx call object st)"
proof -
  obtain b st1 where b: "classify_begin env sha options ctx call object st = (b, st1)" by fastforce
  have w: "length ([] @ now_waiting options ctx call object b) \<le> width"
    using assms(4) by (cases b) (simp_all add: now_waiting_def)
  from stepped [OF assms(1) begun [OF assms(2,3) b w]]
  have s: "engine_reachable env sha sid width (st1, now_waiting options ctx call object b, h)" by simp
  show ?thesis
  proof (cases b)
    case (Finished outcome)
    then show ?thesis using s b by (simp add: classify_def asked_now_def now_waiting_def)
  next
    case (Asking envelope key)
    then have s1: "engine_reachable env sha sid width (st1, [] @ (options, ctx, call, object, key) # [], h)"
      using s by (simp add: now_waiting_def)
    obtain outcome st2 where e: "classify_end sha options ctx call key (ask_classifier options ctx envelope) st1 = (outcome, st2)" by fastforce
    show ?thesis
    proof (cases "ask_classifier options ctx envelope")
      case (Inl err)
      from stepped [OF s1 threw [OF e [unfolded Inl]]] show ?thesis
        using b Asking Inl e by (simp add: classify_def asked_now_def)
    next
      case (Inr result)
      from stepped [OF s1 answered [OF e [unfolded Inr]]] show ?thesis
        using b Asking Inr e by (simp add: classify_def asked_now_def)
    qed
  qed
qed

lemma after_denial_reachable: "engine_reachable plain_host id ''s1'' 1 (after_denial, [], denial_asked)"
  using classified_reachable [OF fresh_reachable _ deploy_object, of "answering VerdictDeny" "''s1''" 1 plain_host id auto_session]
  by (simp add: after_denial_def answering_def)

lemma after_denial_count: "ac_total (counters_of (as_counters after_denial) ''s1'') = 1"
  by code_simp

theorem fallback_counters_bounded_witness:
  "ac_total (counters_of (as_counters after_denial) ''s1'') = 1 \<and> length (filter denied_by denial_asked) = 1"
  using fallback_counters_bounded [OF after_denial_reachable] after_denial_count by simp

theorem total_brake_holds_witness:
  "fst (classify plain_host id (answering VerdictAllow) auto_session deploy deploy_input
     \<lparr>as_counters = [(''s1'', \<lparr>ac_consecutive = 0, ac_total = 20\<rparr>)], as_cache = [], as_audit = []\<rparr>) = Inr FALLBACK_VERDICT"
proof -
  let ?st = "\<lparr>as_counters = [(''s1'', \<lparr>ac_consecutive = 0, ac_total = 20\<rparr>)], as_cache = [], as_audit = []\<rparr>"
  have r: "(engine_step plain_host id ''s1'' 1)\<^sup>*\<^sup>* (?st, [], []) (?st, [], [])" by simp
  have t: "ac_total (counters_of (as_counters ?st) ''s1'') \<ge> AUTO_FALLBACK_TOTAL_THRESHOLD" by code_simp
  show ?thesis using total_brake_holds [OF r t, of "answering VerdictAllow"] by (simp add: answering_def)
qed

definition stored_child :: child_policy where
  "stored_child = \<lparr>ch_effectiveMode = AcceptEdits, ch_parentPolicyVersion = 1, ch_parentPolicyHash = ''h''\<rparr>"

definition plan_resume :: resume_request where
  "plan_resume = \<lparr>rq_definition = Some Plan, rq_current = Some (Default, 2, ''g''), rq_inherited = AcceptEdits, rq_disableBypass = False\<rparr>"

theorem resumed_child_never_wider_witness:
  "\<exists>final. resume_child id stored_child plan_resume = Inr final \<and> ch_effectiveMode final \<le> Default \<and> ch_effectiveMode final = Plan"
proof -
  have "resume_child id stored_child plan_resume = Inr \<lparr>ch_effectiveMode = Plan, ch_parentPolicyVersion = 2, ch_parentPolicyHash = ''g''\<rparr>"
    by code_simp
  from resumed_child_never_wider [OF not_resumed this] this show ?thesis by (simp add: plan_resume_def)
qed

theorem automatic_allow_was_classified_witness:
  "\<exists>options' ctx' call' object' result.
     (options', ctx', call', object', result) \<in> set (asked_now plain_host id (answering VerdictAllow) auto_session deploy deploy_input fresh_engine)
     \<and> cw_verdict result = VerdictAllow"
proof -
  have "map_sum (\<lambda>_. ()) (\<lambda>r. (dr_decision r, dr_mechanism r)) (snd (evaluate plain_host auto_session deploy)) = Inr (DAllow, MAutoEngine)"
    by code_simp
  then obtain r consulted where e: "evaluate plain_host auto_session deploy = (consulted, Inr r)" "dr_decision r = DAllow" "dr_mechanism r = MAutoEngine"
    by (auto dest: fst_snd_run)
  have eff: "effective auto_session deploy = deploy" by (simp add: auto_session_def)
  have "map_sum (\<lambda>_. ()) (\<lambda>v. (av_verdict v, av_fallbackToPrompt v))
      (fst (classify plain_host id (answering VerdictAllow) auto_session deploy deploy_input fresh_engine)) = Inr (VerdictAllow, False)"
    by code_simp
  then obtain v where v: "fst (classify plain_host id (answering VerdictAllow) auto_session deploy deploy_input fresh_engine) = Inr v"
      "av_verdict v = VerdictAllow" "av_fallbackToPrompt v = False"
    by (cases "fst (classify plain_host id (answering VerdictAllow) auto_session deploy deploy_input fresh_engine)") auto
  then have p: "engine_plugged plain_host id (answering VerdictAllow) auto_session fresh_engine (effective auto_session deploy) deploy_input"
    unfolding engine_plugged_def eff using deploy_object by (auto simp: auto_session_def)
  have c: "collision_free id" by (simp add: collision_free_def no_collision_def stableHash_def)
  show ?thesis
    using automatic_allow_was_classified [OF e fresh_reachable [of _ _ _ 1] p c] unfolding eff append_Nil by blast
qed

definition deploy_policy :: "auto_mode_config policy_state" where
  "deploy_policy = cx_policy (session_in Default [user_rule BAsk ''Deploy'' None] HookNoOpinion None)"

definition parked_under :: approval_record where
  "parked_under = parked\<lparr>ap_policyHash := Some (computePolicyHash id deploy_policy)\<rparr>"

definition resuming_under :: resume_host where
  "resuming_under = resuming\<lparr>rz_context := (\<lambda>r. (rz_context resuming r)\<lparr>rv_policyHash := computePolicyHash id deploy_policy\<rparr>)\<rparr>"

abbreviation hashed_scan :: "resume_effect list \<times> (string + provider_message list)" where
  "hashed_scan \<equiv> resume_session resuming_under unit_le (fold applyEnvelope [EvRecord parked_under, EvResponse ''r1'' yes ''2026-01-02''] []) ''s1'' deferred_messages"

fun ran_hashed :: "resume_effect \<Rightarrow> bool" where
  "ran_hashed (Executed r input) \<longleftrightarrow> ap_policyHash r = Some (computePolicyHash id deploy_policy)"
| "ran_hashed _ \<longleftrightarrow> False"

theorem executed_under_issued_policy_witness:
  "\<exists>r input. Executed r input \<in> set (fst hashed_scan) \<and> ap_sessionId r = ''s1'' \<and> ap_state r = ApAllowed"
proof -
  have "list_ex ran_hashed (fst hashed_scan)" by code_simp
  then obtain e where e: "e \<in> set (fst hashed_scan)" "ran_hashed e" unfolding list_ex_iff by blast
  then obtain r input where x: "Executed r input \<in> set (fst hashed_scan)" "ap_policyHash r = Some (computePolicyHash id deploy_policy)"
    by (cases rule: ran_hashed.elims(2) [OF e(2)]) blast
  have h: "rv_policyHash (rz_context resuming_under r) = computePolicyHash id deploy_policy" by (simp add: resuming_under_def)
  have n: "no_collision id (policy_value deploy_policy) (policy_value deploy_policy)" by (simp add: no_collision_def)
  show ?thesis using executed_under_issued_policy [OF x h n] x(1) by blast
qed

end
