(* ===== verification/Bash_Lex.thy ===== *)
theory Bash_Lex
  imports Wrappers Shell_Structure
begin

text \<open>
  The character picture of a command and the lexical pre-checks of the read-only test
  (\<^verbatim>\<open>permissions/bash-read-only.ts\<close>, from \<open>lex\<close> to \<open>passesSecurityValidators\<close>). A lexed command is a
  list of cells, one per character, with the quoting it sits in and its role; the three views are selections of cells.
  The loops over positions of the source are functions on the text from a position on,
  with the character before it where the source looks back.
\<close>

subsection \<open>Helpers\<close>

definition is_blank_at :: "string \<Rightarrow> bool" where
  "is_blank_at s \<longleftrightarrow> s \<noteq> [] \<and> is_ws (hd s)"

definition starts_in :: "string \<Rightarrow> string \<Rightarrow> bool" where
  "starts_in cs s \<longleftrightarrow> s \<noteq> [] \<and> hd s \<in> set cs"

text \<open>Some position of a text, given the character before it and the text from there on, has a property.\<close>

fun some_place :: "(char option \<Rightarrow> string \<Rightarrow> bool) \<Rightarrow> char option \<Rightarrow> string \<Rightarrow> bool" where
  "some_place p prev [] \<longleftrightarrow> False"
| "some_place p prev (c # s) \<longleftrightarrow> p prev (c # s) \<or> some_place p (Some c) s"

text \<open>The text after the first occurrence of \<open>p\<close>: what \<open>indexOf\<close> and a start position give.\<close>

fun after_first :: "string \<Rightarrow> string \<Rightarrow> string option" where
  "after_first p [] = (if p = [] then Some [] else None)"
| "after_first p (c # s) = (if startsWith (c # s) p then Some (drop (length p) (c # s)) else after_first p s)"

text \<open>\<open>s.split(/\s+/)\<close> and a split at every element with a property.\<close>

function split_ws :: "string \<Rightarrow> string list" where
  "split_ws s =
     (let w = takeWhile (\<lambda>c. \<not> is_ws c) s; r = dropWhile (\<lambda>c. \<not> is_ws c) s
      in if r = [] then [w] else w # split_ws (dropWhile is_ws r))"
  by pat_completeness auto
termination
proof (relation "measure length", goal_cases)
  case (2 s w r)
  then have r: "r = dropWhile (\<lambda>c. \<not> is_ws c) s" "r \<noteq> []" by simp_all
  then have "is_ws (hd r)" using hd_dropWhile [of "\<lambda>c. \<not> is_ws c" s] by simp
  then have "length (dropWhile is_ws r) < length r"
    using r(2) length_dropWhile_le [of is_ws "tl r"] by (cases r) (auto simp: le_imp_less_Suc)
  also have "length r \<le> length s" using r(1) length_dropWhile_le [of "\<lambda>c. \<not> is_ws c" s] by simp
  finally show ?case by simp
qed simp

declare split_ws.simps [simp del]

fun split_by :: "('a \<Rightarrow> bool) \<Rightarrow> 'a list \<Rightarrow> 'a list list" where
  "split_by p [] = [[]]"
| "split_by p (x # xs) =
     (if p x then [] # split_by p xs else (case split_by p xs of [] \<Rightarrow> [[x]] | y # ys \<Rightarrow> (x # y) # ys))"

definition is_quote_mark :: "char \<Rightarrow> bool" where
  "is_quote_mark c \<longleftrightarrow> c = squote \<or> c = dquote"

definition is_letter :: "char \<Rightarrow> bool" where
  "is_letter c \<longleftrightarrow> is_upper c \<or> is_lower c"

abbreviation CR :: char where
  "CR \<equiv> CHR 0x0D"

abbreviation TAB :: char where
  "TAB \<equiv> CHR 0x09"

subsection \<open>The character picture\<close>

datatype quoting = Unquoted | InSingle | InDouble

datatype role = TextRole | QuoteMark | EscapeRole | EscapedRole

datatype cell = Cell (cell_char: char) (cell_quoting: quoting) (cell_role: role)

record lexed =
  lx_cells :: "cell list"
  lx_unterminated :: bool

function lex_loop :: "quoting \<Rightarrow> string \<Rightarrow> cell list \<times> quoting" where
  "lex_loop opened [] = ([], opened)"
| "lex_loop opened (c # s) =
     (if opened = InSingle then
        (if c = squote then apfst (Cons (Cell c InSingle QuoteMark)) (lex_loop Unquoted s)
         else apfst (Cons (Cell c InSingle TextRole)) (lex_loop opened s))
      else if c = backslash \<and> s \<noteq> [] then
        apfst (append [Cell c opened EscapeRole, Cell (hd s) opened EscapedRole]) (lex_loop opened (tl s))
      else if opened = InDouble then
        (if c = dquote then apfst (Cons (Cell c InDouble QuoteMark)) (lex_loop Unquoted s)
         else apfst (Cons (Cell c InDouble TextRole)) (lex_loop opened s))
      else if c = squote then apfst (Cons (Cell c InSingle QuoteMark)) (lex_loop InSingle s)
      else if c = dquote then apfst (Cons (Cell c InDouble QuoteMark)) (lex_loop InDouble s)
      else apfst (Cons (Cell c Unquoted TextRole)) (lex_loop opened s))"
  by pat_completeness auto
termination
  by (relation "measure (\<lambda>(q, s). length s)") auto

definition lex_command :: "string \<Rightarrow> lexed" where
  "lex_command txt = (case lex_loop Unquoted txt of (cs, opened) \<Rightarrow> \<lparr>lx_cells = cs, lx_unterminated = (opened \<noteq> Unquoted)\<rparr>)"

definition lx_text :: "lexed \<Rightarrow> string" where
  "lx_text lx = map cell_char (lx_cells lx)"

definition isBare :: "cell \<Rightarrow> bool" where
  "isBare c \<longleftrightarrow> cell_quoting c = Unquoted \<and> cell_role c = TextRole"

subsection \<open>Views\<close>

record text_views =
  outsideSingle :: string
  bareText :: string
  bareWithMarks :: string

definition viewsOf :: "lexed \<Rightarrow> bool \<Rightarrow> text_views" where
  "viewsOf lx keepDoubleMarks =
     (let pick = (\<lambda>p. map cell_char (filter p (lx_cells lx))) in
      \<lparr>outsideSingle = pick (\<lambda>c. if cell_role c = QuoteMark then cell_char c = dquote \<and> keepDoubleMarks else cell_quoting c \<noteq> InSingle),
       bareText = pick (\<lambda>c. cell_role c \<noteq> QuoteMark \<and> cell_quoting c = Unquoted),
       bareWithMarks = pick (\<lambda>c. cell_role c = QuoteMark \<or> cell_quoting c = Unquoted)\<rparr>)"

fun spans_from :: "nat \<Rightarrow> nat option \<Rightarrow> cell list \<Rightarrow> (nat \<times> nat) list" where
  "spans_from i st [] = (case st of None \<Rightarrow> [] | Some a \<Rightarrow> [(a, i)])"
| "spans_from i st (c # cs) =
     (if isBare c \<and> is_ws (cell_char c) then (case st of None \<Rightarrow> [] | Some a \<Rightarrow> [(a, i)]) @ spans_from (Suc i) None cs
      else spans_from (Suc i) (Some (the_default i st)) cs)"

definition wordSpans :: "lexed \<Rightarrow> (nat \<times> nat) list" where
  "wordSpans lx = spans_from 0 None (lx_cells lx)"

text \<open>Redirections that cannot write a file: the span of each, by the position of its operator.\<close>

definition skipBlanks :: "string \<Rightarrow> nat \<Rightarrow> nat" where
  "skipBlanks view k = scan_while (\<lambda>j. is_ws (view ! j)) (length view) k"

definition endsWord :: "string \<Rightarrow> nat \<Rightarrow> bool" where
  "endsWord view k \<longleftrightarrow> k = length view \<or> is_blank_at (drop k view)"

definition devNullAt :: "string \<Rightarrow> nat \<Rightarrow> nat option" where
  "devNullAt view k = (if startsWith (drop k view) ''/dev/null'' \<and> endsWord view (k + 9) then Some (k + 9) else None)"

definition last_solid :: "string \<Rightarrow> nat \<Rightarrow> nat option" where
  "last_solid view i = (case filter (\<lambda>j. \<not> is_ws (view ! j)) [0..<i] of [] \<Rightarrow> None | js \<Rightarrow> Some (last js))"

definition harmless_span :: "string \<Rightarrow> nat \<Rightarrow> (nat \<times> nat) option" where
  "harmless_span view i =
     (if view ! i = CHR ''<'' then map_option (Pair i) (devNullAt view (skipBlanks view (i + 1)))
      else if view ! i = CHR ''>'' \<and> char_at view (i + 1) = Some (CHR ''&'') then
        (let one = skipBlanks view (i + 2) in
         case last_solid view i of
           None \<Rightarrow> None
         | Some two \<Rightarrow>
             if char_at view one = Some (CHR ''1'') \<and> endsWord view (one + 1) \<and> view ! two = CHR ''2''
                \<and> two > 0 \<and> is_ws (view ! (two - 1))
             then Some (two, one + 1) else None)
      else if view ! i = CHR ''>'' then map_option (Pair i) (devNullAt view (skipBlanks view (i + 1)))
      else None)"

definition withoutHarmlessRedirections :: "string \<Rightarrow> string" where
  "withoutHarmlessRedirections view =
     (let spans = List.map_filter (harmless_span view) [0..<length view] in
      map (nth view) (filter (\<lambda>j. \<not> list_ex (\<lambda>(a, b). a \<le> j \<and> j < b) spans) [0..<length view]))"

subsection \<open>Unreadable text\<close>

definition control_character :: "char \<Rightarrow> bool" where
  "control_character c \<longleftrightarrow>
     (let n = of_char c :: nat in n \<le> 8 \<or> n \<in> {11, 12} \<or> 14 \<le> n \<and> n \<le> 31 \<or> n = 127)"

text \<open>The Unicode white space: the no-break space stands for every other unit of the class, and the byte-order mark is in it.\<close>

definition unicode_whitespace :: "char \<Rightarrow> bool" where
  "unicode_whitespace c \<longleftrightarrow> c = CHR 0xA0 \<or> c = BOM"

definition MIDWAY_OPENINGS :: "string list" where
  "MIDWAY_OPENINGS = [''-'', '';'', ''>'', ''<'', ''&&'', ''||'']"

definition startsMidway :: "string \<Rightarrow> bool" where
  "startsMidway txt \<longleftrightarrow>
     TAB \<in> set (takeWhile is_ws txt) \<or> list_ex (startsWith (trimStart txt)) MIDWAY_OPENINGS"

subsection \<open>Hidden words\<close>

fun single_quote_scan :: "bool \<Rightarrow> nat \<Rightarrow> cell list \<Rightarrow> bool" where
  "single_quote_scan inside trailing [] \<longleftrightarrow> False"
| "single_quote_scan inside trailing (c # cs) \<longleftrightarrow>
     (if cell_quoting c \<noteq> InSingle then single_quote_scan inside trailing cs
      else if cell_role c = QuoteMark then
        inside \<and> (odd trailing \<or> trailing > 0 \<and> squote \<in> cell_char ` set cs) \<or> single_quote_scan (\<not> inside) 0 cs
      else single_quote_scan inside (if cell_char c = backslash then trailing + 1 else 0) cs)"

definition singleQuoteEndsInBackslash :: "lexed \<Rightarrow> bool" where
  "singleQuoteEndsInBackslash lx \<longleftrightarrow> single_quote_scan False 0 (lx_cells lx)"

definition GLUED_QUOTED_VALUE_OPTION :: "string \<Rightarrow> string option" where
  "GLUED_QUOTED_VALUE_OPTION base = (if base = ''cut'' then Some ''-d'' else None)"

text \<open>The text is given from the dash on.\<close>

definition quoteInsideFlagName :: "string \<Rightarrow> string \<Rightarrow> bool" where
  "quoteInsideFlagName from_dash base \<longleftrightarrow>
     (let head = takeWhile (\<lambda>c. \<not> is_ws c \<and> c \<noteq> CHR ''='') from_dash;
          name_part = takeWhile (\<lambda>c. \<not> is_quote_mark c) head
      in name_part \<noteq> head \<and> GLUED_QUOTED_VALUE_OPTION base \<noteq> Some name_part
         \<and> (case char_at from_dash (length name_part + 1) of
              None \<Rightarrow> True
            | Some follower \<Rightarrow> is_name_char follower \<or> is_quote_mark follower \<or> follower = CHR ''-''))"

function quote_runs :: "char option \<Rightarrow> string \<Rightarrow> (char option \<times> nat \<times> string) list" where
  "quote_runs prev [] = []"
| "quote_runs prev (c # s) =
     (if is_quote_mark c then
        (prev, Suc (length (takeWhile is_quote_mark s)), dropWhile is_quote_mark s)
          # quote_runs (Some (last (c # takeWhile is_quote_mark s))) (dropWhile is_quote_mark s)
      else quote_runs (Some c) s)"
  by pat_completeness auto
termination
  by (relation "measure (\<lambda>(b, s). length s)") (auto simp: le_imp_less_Suc length_dropWhile_le)

definition quoteRunNearDash :: "string \<Rightarrow> bool" where
  "quoteRunNearDash txt \<longleftrightarrow>
     list_ex (\<lambda>(prev, n, after).
         let opensWord = (case prev of None \<Rightarrow> True | Some b \<Rightarrow> is_ws b) in
         n \<ge> 2 \<and> (opensWord \<or> prev = Some (CHR ''$'')) \<and> startsWith (dropWhile is_ws after) ''-''
         \<or> n \<ge> 3 \<and> (opensWord \<or> startsWith after ''-''))
       (quote_runs None txt)"

definition flagSpelledWithQuotes :: "lexed \<Rightarrow> string \<Rightarrow> bool" where
  "flagSpelledWithQuotes lx base \<longleftrightarrow>
     (let txt = lx_text lx in
      if base = ''echo'' \<and> \<not> list_ex (\<lambda>c. c \<in> set ''|&;'') txt then False
      else str_includes txt [CHR ''$'', squote] \<or> str_includes txt [CHR ''$'', dquote] \<or> quoteRunNearDash txt
        \<or> list_ex (\<lambda>(a, b).
             if cell_role (lx_cells lx ! a) = QuoteMark then startsWith (dequoteShellWord (slice txt a b)) ''-''
             else txt ! a = CHR ''-'' \<and> quoteInsideFlagName (drop a txt) base)
           (wordSpans lx))"

fun comment_scan :: "bool \<Rightarrow> cell list \<Rightarrow> bool" where
  "comment_scan inComment [] \<longleftrightarrow> False"
| "comment_scan inComment (c # cs) \<longleftrightarrow>
     (if inComment then
        (if cell_char c = newline then comment_scan False cs else is_quote_mark (cell_char c) \<or> comment_scan True cs)
      else comment_scan (cell_char c = CHR ''#'' \<and> isBare c) cs)"

definition commentHoldsQuoteMark :: "lexed \<Rightarrow> bool" where
  "commentHoldsQuoteMark lx \<longleftrightarrow> comment_scan False (lx_cells lx)"

fun newline_scan :: "cell list \<Rightarrow> bool" where
  "newline_scan [] \<longleftrightarrow> False"
| "newline_scan (c # cs) \<longleftrightarrow>
     cell_char c = newline \<and> cell_quoting c \<noteq> Unquoted \<and> cell_role c = TextRole
       \<and> startsWith (dropWhile (\<lambda>d. d \<noteq> newline \<and> is_ws d) (map cell_char cs)) ''#''
     \<or> newline_scan cs"

definition quotedNewlineBeforeCommentLine :: "lexed \<Rightarrow> bool" where
  "quotedNewlineBeforeCommentLine lx \<longleftrightarrow>
     newline \<in> set (lx_text lx) \<and> CHR ''#'' \<in> set (lx_text lx) \<and> newline_scan (lx_cells lx)"

definition glued_hash :: "string \<Rightarrow> bool" where
  "glued_hash s \<longleftrightarrow>
     list_ex (\<lambda>w. list_ex (\<lambda>i. w ! i = CHR ''#'' \<and> \<not> endsWith (take i w) ''${'') [1..<length w]) (split_ws s)"

definition hashInsideWord :: "string \<Rightarrow> bool" where
  "hashInsideWord s \<longleftrightarrow> glued_hash s \<or> glued_hash (joinLineContinuations s)"

definition occurrences :: "string \<Rightarrow> char \<Rightarrow> nat" where
  "occurrences s c = length (filter (\<lambda>d. d = c) s)"

fun unescapedOccurrences :: "bool \<Rightarrow> string \<Rightarrow> char \<Rightarrow> nat" where
  "unescapedOccurrences afterBackslash [] c = 0"
| "unescapedOccurrences afterBackslash (d # s) c =
     (if d = c \<and> \<not> afterBackslash then 1 else 0) + unescapedOccurrences (d = backslash) s c"

definition unbalanced :: "string \<Rightarrow> bool" where
  "unbalanced w \<longleftrightarrow>
     occurrences w (CHR ''{'') \<noteq> occurrences w (CHR ''}'') \<or> occurrences w (CHR ''('') \<noteq> occurrences w (CHR '')'')
     \<or> occurrences w (CHR ''['') \<noteq> occurrences w (CHR '']'')
     \<or> odd (unescapedOccurrences False w dquote) \<or> odd (unescapedOccurrences False w squote)"

definition unbalancedWordNearSeparator :: "lexed \<Rightarrow> string \<Rightarrow> bool" where
  "unbalancedWordNearSeparator lx bare \<longleftrightarrow>
     (str_includes bare '';'' \<or> str_includes bare ''&&'' \<or> str_includes bare ''||'')
     \<and> (lx_unterminated lx
        \<or> list_ex (\<lambda>cs. cs \<noteq> [] \<and> unbalanced (first_word (shellWords (map cell_char cs) False Broad)))
            (split_by (\<lambda>c. isBare c \<and> (is_ws (cell_char c) \<or> cell_char c \<in> set '';&|<>()'')) (lx_cells lx)))"

subsection \<open>Smuggled operators\<close>

definition lineBreakStartsCommand :: "string \<Rightarrow> bool" where
  "lineBreakStartsCommand bare \<longleftrightarrow>
     list_ex (\<lambda>i. (bare ! i = newline \<or> bare ! i = CR) \<and> list_ex (\<lambda>c. \<not> is_ws c) (drop (Suc i) bare)
                  \<and> \<not> (i \<ge> 2 \<and> bare ! (i - 1) = backslash \<and> is_ws (bare ! (i - 2))))
       [0..<length bare]"

definition routing :: "char option \<Rightarrow> bool" where
  "routing c \<longleftrightarrow> c \<in> {Some (CHR ''<''), Some (CHR ''>''), Some (CHR ''|'')}"

definition first_solid :: "string \<Rightarrow> char option" where
  "first_solid s = (case dropWhile is_ws s of [] \<Rightarrow> None | c # _ \<Rightarrow> Some c)"

text \<open>The first argument is the last character before the position that is not blank.\<close>

fun variable_scan :: "char option \<Rightarrow> string \<Rightarrow> bool" where
  "variable_scan solid [] \<longleftrightarrow> False"
| "variable_scan solid (c # s) \<longleftrightarrow>
     c = CHR ''$'' \<and> s \<noteq> [] \<and> is_name_start (hd s) \<and> (routing solid \<or> routing (first_solid (dropWhile is_name_char s)))
     \<or> variable_scan (if is_ws c then solid else Some c) s"

definition variableBesideRedirectionOrPipe :: "string \<Rightarrow> bool" where
  "variableBesideRedirectionOrPipe view \<longleftrightarrow> variable_scan None view"

fun escape_scan :: "cell list \<Rightarrow> bool" where
  "escape_scan (c # d # cs) \<longleftrightarrow>
     cell_role c = EscapeRole \<and> cell_quoting c = Unquoted \<and> (cell_char d = CHR '' '' \<or> cell_char d = TAB \<or> cell_char d \<in> set '';|&<>'')
     \<or> escape_scan (d # cs)"
| "escape_scan _ \<longleftrightarrow> False"

definition escapesBlankOrOperator :: "lexed \<Rightarrow> bool" where
  "escapesBlankOrOperator lx \<longleftrightarrow> escape_scan (lx_cells lx)"

text \<open>The text is given from after the opening quote mark on.\<close>

definition spanHas :: "string \<Rightarrow> string \<Rightarrow> bool \<Rightarrow> bool" where
  "spanHas after chars mustEndWord \<longleftrightarrow>
     (let inner = takeWhile (\<lambda>c. \<not> is_quote_mark c) after; closing = dropWhile (\<lambda>c. \<not> is_quote_mark c) after in
      closing \<noteq> [] \<and> (mustEndWord \<longrightarrow> tl closing = [] \<or> is_blank_at (tl closing)) \<and> list_ex (\<lambda>c. c \<in> set chars) inner)"

definition opens_quote :: "string \<Rightarrow> bool" where
  "opens_quote s \<longleftrightarrow> s \<noteq> [] \<and> is_quote_mark (hd s)"

definition after_predicate :: "string \<Rightarrow> string \<Rightarrow> string \<Rightarrow> bool" where
  "after_predicate predicate chars s \<longleftrightarrow>
     startsWith s predicate \<and> is_blank_at (drop (length predicate) s)
     \<and> opens_quote (dropWhile is_ws (drop (length predicate) s))
     \<and> spanHas (tl (dropWhile is_ws (drop (length predicate) s))) chars False"

definition separatorInsideQuoteMarks :: "string \<Rightarrow> bool" where
  "separatorInsideQuoteMarks s \<longleftrightarrow>
     some_place (\<lambda>prev t. opens_quote t \<and> (case prev of None \<Rightarrow> True | Some b \<Rightarrow> is_ws b) \<and> spanHas (tl t) '';&'' True) None s
     \<or> list_ex (\<lambda>(predicate, chars). some_place (\<lambda>_. after_predicate predicate chars) None s)
         [(''-name'', '';|&''), (''-path'', '';|&''), (''-iname'', '';|&''), (''-regex'', '';&'')]"

subsection \<open>Text that changes when it is run\<close>

definition hasLiveBacktick :: "lexed \<Rightarrow> bool" where
  "hasLiveBacktick lx \<longleftrightarrow>
     list_ex (\<lambda>c. cell_char c = backtick \<and> cell_quoting c \<noteq> InSingle \<and> cell_role c \<noteq> EscapedRole) (lx_cells lx)"

definition zsh_equals :: "char option \<Rightarrow> string \<Rightarrow> bool" where
  "zsh_equals prev s \<longleftrightarrow>
     (case prev of None \<Rightarrow> True | Some b \<Rightarrow> is_ws b \<or> b \<in> set '';&|'')
     \<and> startsWith s ''='' \<and> tl s \<noteq> [] \<and> is_name_start (hd (tl s))"

definition zsh_always :: "string \<Rightarrow> bool" where
  "zsh_always s \<longleftrightarrow>
     startsWith s ''}'' \<and> startsWith (dropWhile is_ws (tl s)) ''always''
     \<and> startsWith (dropWhile is_ws (drop 6 (dropWhile is_ws (tl s)))) ''{''"

definition SUBSTITUTION_PATTERNS :: "(string \<Rightarrow> bool) list" where
  "SUBSTITUTION_PATTERNS =
     [\<lambda>s. str_includes s ''<('', \<lambda>s. str_includes s ''>('', \<lambda>s. str_includes s ''=('',
      some_place zsh_equals None,
      \<lambda>s. str_includes s ''$('', \<lambda>s. str_includes s ''${'', \<lambda>s. str_includes s ''$['', \<lambda>s. str_includes s ''~['',
      \<lambda>s. str_includes s ''(e:'', \<lambda>s. str_includes s ''(+'',
      some_place (\<lambda>_. zsh_always) None,
      \<lambda>s. str_includes s ''<#'']"

datatype brace_event = OpenBrace | CloseBrace | SeparatorEvent

text \<open>Whether the character before was an odd run of backslashes is carried along.\<close>

fun brace_events :: "bool \<Rightarrow> string \<Rightarrow> brace_event list" where
  "brace_events escaped [] = []"
| "brace_events escaped (c # s) =
     (if c = CHR ''{'' \<and> \<not> escaped then [OpenBrace]
      else if c = CHR ''}'' \<and> \<not> escaped then [CloseBrace]
      else if c = CHR '','' \<or> startsWith (c # s) ''..'' then [SeparatorEvent] else [])
     @ brace_events (c = backslash \<and> \<not> escaped) s"

text \<open>The braces still open, innermost first; each says whether a separator belongs to it.\<close>

fun expands :: "bool list \<Rightarrow> brace_event list \<Rightarrow> bool" where
  "expands opened [] \<longleftrightarrow> False"
| "expands opened (OpenBrace # es) \<longleftrightarrow> expands (False # opened) es"
| "expands opened (SeparatorEvent # es) \<longleftrightarrow> expands (case opened of [] \<Rightarrow> [] | _ # bs \<Rightarrow> True # bs) es"
| "expands opened (CloseBrace # es) \<longleftrightarrow> (case opened of [] \<Rightarrow> expands [] es | b # bs \<Rightarrow> b \<or> expands bs es)"

definition quoted_brace :: "string \<Rightarrow> bool" where
  "quoted_brace s \<longleftrightarrow>
     (case s of a # b # c # _ \<Rightarrow> (b = CHR ''{'' \<or> b = CHR ''}'') \<and> is_quote_mark a \<and> is_quote_mark c | _ \<Rightarrow> False)"

definition hasBraceExpansion :: "string \<Rightarrow> string \<Rightarrow> bool" where
  "hasBraceExpansion bare txt \<longleftrightarrow>
     (let events = brace_events False bare;
          opens = length (filter (\<lambda>e. e = OpenBrace) events);
          closes = length (filter (\<lambda>e. e = CloseBrace) events)
      in opens > 0 \<and> closes > opens \<or> expands [] events \<or> opens \<noteq> 0 \<and> some_place (\<lambda>_. quoted_brace) None txt)"

definition mentionsIfs :: "string \<Rightarrow> bool" where
  "mentionsIfs txt \<longleftrightarrow>
     str_includes txt ''$IFS''
     \<or> list_ex (\<lambda>stretch. case after_first ''${'' stretch of None \<Rightarrow> False | Some r \<Rightarrow> str_includes r ''IFS'') (split_on (CHR ''}'') txt)"

subsection \<open>Reads beyond the arguments\<close>

definition calls_system :: "char option \<Rightarrow> string \<Rightarrow> bool" where
  "calls_system prev s \<longleftrightarrow>
     startsWith s ''system'' \<and> (case prev of None \<Rightarrow> True | Some b \<Rightarrow> \<not> is_name_char b)
     \<and> startsWith (dropWhile is_ws (drop 6 s)) ''(''"

definition reads_file_option :: "string \<Rightarrow> bool" where
  "reads_file_option w \<longleftrightarrow>
     list_ex (startsWith w) [''--from-file'', ''--rawfile'', ''--slurpfile'', ''--library-path'']
     \<or> startsWith w ''-'' \<and> \<not> startsWith w ''--''
       \<and> (let letters = takeWhile is_letter (tl w) in CHR ''f'' \<in> set letters \<or> CHR ''L'' \<in> set letters)"

definition jqReachesBeyondItsFilter :: "string \<Rightarrow> string \<Rightarrow> bool" where
  "jqReachesBeyondItsFilter txt base \<longleftrightarrow>
     base = ''jq'' \<and> (some_place calls_system None txt \<or> list_ex reads_file_option (drop 1 (split_ws txt)))"

definition ZSH_DANGEROUS_COMMANDS :: "string list" where
  "ZSH_DANGEROUS_COMMANDS =
     [''zmodload'', ''emulate'', ''sysopen'', ''sysread'', ''syswrite'', ''sysseek'', ''zpty'', ''ztcp'', ''zsocket'', ''mapfile'',
      ''zf_rm'', ''zf_mv'', ''zf_ln'', ''zf_chmod'', ''zf_chown'', ''zf_mkdir'', ''zf_rmdir'', ''zf_chgrp'']"

definition ZSH_PRECOMMAND_MODIFIERS :: "string list" where
  "ZSH_PRECOMMAND_MODIFIERS = [''command'', ''builtin'', ''noglob'', ''nocorrect'']"

definition prefix_word :: "string \<Rightarrow> bool" where
  "prefix_word w \<longleftrightarrow>
     w \<in> set ZSH_PRECOMMAND_MODIFIERS
     \<or> w \<noteq> [] \<and> is_name_start (hd w) \<and> startsWith (dropWhile is_name_char w) ''=''"

text \<open>
  The program a line names and the text after it. A prefix word is peeled only while another word follows,
  as the pattern's last group needs one.
\<close>

function peel_prefixes :: "string \<Rightarrow> string \<times> string" where
  "peel_prefixes s =
     (let w = takeWhile (\<lambda>c. \<not> is_ws c) s; r = dropWhile (\<lambda>c. \<not> is_ws c) s; next_word = dropWhile is_ws r in
      if w \<noteq> [] \<and> prefix_word w \<and> next_word \<noteq> [] then peel_prefixes next_word else (w, r))"
  by pat_completeness auto
termination
proof (relation "measure length", goal_cases)
  case (2 s w r n)
  have "n = dropWhile is_ws (drop (length w) s)" using 2 by (simp add: dropWhile_eq_drop)
  then have "length n \<le> length s - length w" by (metis length_drop length_dropWhile_le)
  moreover have "w \<noteq> []" "length w \<le> length s" using 2 by (auto simp: length_takeWhile_le)
  ultimately show ?case by (cases w) auto
qed simp

declare peel_prefixes.simps [simp del]

definition PROGRAM_AFTER_PREFIXES :: "string \<Rightarrow> (string \<times> string) option" where
  "PROGRAM_AFTER_PREFIXES txt = (case trimStart txt of [] \<Rightarrow> None | s \<Rightarrow> Some (peel_prefixes s))"

definition runsZshBuiltin :: "string \<Rightarrow> bool" where
  "runsZshBuiltin txt \<longleftrightarrow>
     (case PROGRAM_AFTER_PREFIXES txt of
        None \<Rightarrow> False
      | Some (program, after) \<Rightarrow>
          program \<in> set ZSH_DANGEROUS_COMMANDS
          \<or> program = ''fc'' \<and> list_ex (\<lambda>w. startsWith w ''-'' \<and> CHR ''e'' \<in> set (tl w)) (split_ws after))"

text \<open>
  Lines are cut at the two ASCII line breaks; the two Unicode ones are white space that the first group
  of checks refuses anyway.
\<close>

definition readsProcessEnvironment :: "string \<Rightarrow> bool" where
  "readsProcessEnvironment txt \<longleftrightarrow>
     list_ex (\<lambda>line. case after_first ''/proc/'' line of None \<Rightarrow> False | Some r \<Rightarrow> str_includes r ''/environ'')
       (split_by (\<lambda>c. c = newline \<or> c = CR) txt)"

subsection \<open>All pre-checks\<close>

record scanned = text_views +
  sn_text :: string
  sn_lexed :: lexed
  sn_base :: string
  sn_cleaned :: string

definition PRE_CHECKS :: "(scanned \<Rightarrow> bool) list list" where
  "PRE_CHECKS =
     [ \<comment> \<open>unreadable\<close>
       [\<lambda>s. CR \<in> set (sn_text s),
        \<lambda>s. list_ex control_character (sn_text s) \<or> list_ex unicode_whitespace (sn_text s),
        \<lambda>s. startsMidway (sn_text s)],
       \<comment> \<open>hides a word\<close>
       [\<lambda>s. flagSpelledWithQuotes (sn_lexed s) (sn_base s),
        \<lambda>s. hashInsideWord (bareWithMarks s),
        \<lambda>s. commentHoldsQuoteMark (sn_lexed s),
        \<lambda>s. quotedNewlineBeforeCommentLine (sn_lexed s),
        \<lambda>s. singleQuoteEndsInBackslash (sn_lexed s),
        \<lambda>s. unbalancedWordNearSeparator (sn_lexed s) (bareText s)],
       \<comment> \<open>smuggles an operator\<close>
       [\<lambda>s. lineBreakStartsCommand (bareText s),
        \<lambda>s. CHR ''<'' \<in> set (sn_cleaned s) \<or> CHR ''>'' \<in> set (sn_cleaned s),
        \<lambda>s. variableBesideRedirectionOrPipe (sn_cleaned s),
        \<lambda>s. escapesBlankOrOperator (sn_lexed s),
        \<lambda>s. separatorInsideQuoteMarks (outsideSingle s)],
       \<comment> \<open>expands at run time\<close>
       [\<lambda>s. hasLiveBacktick (sn_lexed s),
        \<lambda>s. list_ex (\<lambda>pattern. pattern (outsideSingle s)) SUBSTITUTION_PATTERNS,
        \<lambda>s. hasBraceExpansion (bareText s) (sn_text s),
        \<lambda>s. mentionsIfs (sn_text s)],
       \<comment> \<open>reaches beyond its arguments\<close>
       [\<lambda>s. jqReachesBeyondItsFilter (sn_text s) (sn_base s),
        \<lambda>s. runsZshBuiltin (sn_text s),
        \<lambda>s. readsProcessEnvironment (sn_text s)]]"

definition scan_command :: "string \<Rightarrow> scanned" where
  "scan_command command =
     (let program = takeWhile (\<lambda>c. c \<noteq> CHR '' '') command; lx = lex_command command; views = viewsOf lx (program = ''jq'') in
      \<lparr>outsideSingle = outsideSingle views, bareText = bareText views, bareWithMarks = bareWithMarks views,
       sn_text = command, sn_lexed = lx, sn_base = program, sn_cleaned = withoutHarmlessRedirections (bareText views)\<rparr>)"

definition passesSecurityValidators :: "string \<Rightarrow> bool" where
  "passesSecurityValidators command \<longleftrightarrow> list_all (list_all (\<lambda>fires. \<not> fires (scan_command command))) PRE_CHECKS"

end
