(* ===== verification/Bash_Commands.thy ===== *)
theory Bash_Commands
  imports Bash_Lex
begin

text \<open>
  Reading the simple commands of a command line (\<open>readSimpleCommands\<close> of \<^verbatim>\<open>permissions/bash-read-only.ts\<close>): one pass over the cells,
  with the word in progress, the redirection that still lacks its target, the words of the present command and the
  commands already read. The reader is then shown to account for every character of a text it accepts: words, blanks, separators and
  redirections that only throw output away, and nothing else.
\<close>

subsection \<open>Words and commands\<close>

record bash_word =
  bw_raw :: string
  bw_value :: string

record simple_command =
  sc_words :: "bash_word list"
  sc_text :: string

definition word_of :: "string \<Rightarrow> bash_word" where
  "word_of w = \<lparr>bw_raw = w, bw_value = dequoteShellWord w\<rparr>"

definition command_of :: "bash_word list \<Rightarrow> simple_command" where
  "command_of ws = \<lparr>sc_words = ws, sc_text = join_with '' '' (map bw_raw ws)\<rparr>"

definition SHELL_OPERATORS :: "string list" where
  "SHELL_OPERATORS =
     [''<<<'', ''&&'', ''||'', ''|&'', '';;'', '';&'', ''&>'', ''>>'', ''>&'', ''>|'', ''<<'', ''<&'', ''<>'', ''>'', ''<'', ''&'', ''|'', '';'']"

definition COMMAND_SEPARATORS :: "string list" where
  "COMMAND_SEPARATORS = ['';'', ''&&'', ''||'', ''|'']"

definition throwsOutputAway :: "string \<Rightarrow> string option \<Rightarrow> string \<Rightarrow> bool" where
  "throwsOutputAway operator descriptor target \<longleftrightarrow>
     (if operator = ''>'' then
        target = ''/dev/null'' \<and> (case descriptor of None \<Rightarrow> True | Some d \<Rightarrow> d \<in> set [''0'', ''1'', ''2''])
      else operator = ''>&'' \<and> descriptor = Some ''2'' \<and> target = ''1'')"

subsection \<open>The reader\<close>

record read_state =
  rs_commands :: "simple_command list"
  rs_words :: "bash_word list"
  rs_current :: "string option"
  rs_awaiting :: "(string \<times> string option) option"
  rs_endedBySemicolon :: bool

definition read_start :: read_state where
  "read_start = \<lparr>rs_commands = [], rs_words = [], rs_current = None, rs_awaiting = None, rs_endedBySemicolon = False\<rparr>"

definition closeWord :: "read_state \<Rightarrow> read_state option" where
  "closeWord st =
     (case rs_current st of
        None \<Rightarrow> Some st
      | Some w \<Rightarrow>
          (case rs_awaiting st of
             Some (operator, descriptor) \<Rightarrow>
               if throwsOutputAway operator descriptor w then Some (st\<lparr>rs_current := None, rs_awaiting := None\<rparr>) else None
           | None \<Rightarrow> Some (st\<lparr>rs_current := None, rs_words := rs_words st @ [word_of w]\<rparr>)))"

definition extend :: "read_state \<Rightarrow> char \<Rightarrow> read_state" where
  "extend st c = st\<lparr>rs_current := Some (the_default [] (rs_current st) @ [c])\<rparr>"

definition opensSubstitution :: "string \<Rightarrow> bool \<Rightarrow> bool" where
  "opensSubstitution s quoteForms \<longleftrightarrow>
     startsWith s ''$'' \<and> (starts_in ''({['' (tl s) \<or> quoteForms \<and> starts_in [squote, dquote] (tl s))"

definition operator_at :: "string \<Rightarrow> string" where
  "operator_at s = the_default (take 1 s) (List.find (startsWith s) SHELL_OPERATORS)"

definition is_number_text :: "string \<Rightarrow> bool" where
  "is_number_text s \<longleftrightarrow> s \<noteq> [] \<and> list_all is_digit s"

definition glued_descriptor :: "string \<Rightarrow> read_state \<Rightarrow> string option" where
  "glued_descriptor operator st =
     (case rs_current st of
        None \<Rightarrow> None
      | Some w \<Rightarrow> if is_number_text w \<and> starts_in ''><'' operator then Some w else None)"

definition read_operator :: "string \<Rightarrow> read_state \<Rightarrow> read_state option" where
  "read_operator operator st =
     (let descriptor = glued_descriptor operator st in
      case (if descriptor = None then closeWord st else Some (st\<lparr>rs_current := None\<rparr>)) of
        None \<Rightarrow> None
      | Some st' \<Rightarrow>
          if rs_awaiting st' \<noteq> None then None
          else if descriptor = None \<and> operator \<in> set COMMAND_SEPARATORS then
            (if rs_words st' = [] then None
             else Some (st'\<lparr>rs_commands := rs_commands st' @ [command_of (rs_words st')], rs_words := [],
                            rs_endedBySemicolon := (operator = '';'')\<rparr>))
          else Some (st'\<lparr>rs_awaiting := Some (operator, descriptor)\<rparr>))"

function read_loop :: "cell list \<Rightarrow> read_state \<Rightarrow> read_state option" where
  "read_loop [] st = Some st"
| "read_loop (c # cs) st =
     (let ch = cell_char c; s = map cell_char (c # cs) in
      if \<not> isBare c then
        (if cell_role c = TextRole \<and> cell_quoting c = InDouble \<and> (ch = backtick \<or> opensSubstitution s False) then None
         else read_loop cs (extend st ch))
      else if ch \<in> {CHR '' '', TAB, newline} then
        (case closeWord st of
           None \<Rightarrow> None
         | Some st' \<Rightarrow> if ch = newline \<and> list_ex (\<lambda>d. \<not> is_ws d) (tl s) then None else read_loop cs st')
      else if ch \<in> {backtick, CHR ''('', CHR '')'', backslash} then None
      else if opensSubstitution s True then None
      else if ch = CHR ''#'' \<and> rs_current st = None then None
      else if ch \<notin> set '';&|<>'' then read_loop cs (extend st ch)
      else
        (case read_operator (operator_at s) st of
           None \<Rightarrow> None
         | Some st' \<Rightarrow> read_loop (drop (length (operator_at s) - 1) cs) st'))"
  by pat_completeness auto
termination
  by (relation "measure (\<lambda>(cs, st). length cs)") auto

declare read_loop.simps(2) [simp del]

definition readSimpleCommands :: "string \<Rightarrow> simple_command list option" where
  "readSimpleCommands txt =
     (let lx = lex_command txt in
      if lx_unterminated lx \<or> CR \<in> set txt then None
      else case read_loop (lx_cells lx) read_start of
             None \<Rightarrow> None
           | Some st \<Rightarrow>
               (case closeWord st of
                  None \<Rightarrow> None
                | Some st' \<Rightarrow>
                    if rs_awaiting st' \<noteq> None then None
                    else if rs_words st' \<noteq> [] then Some (rs_commands st' @ [command_of (rs_words st')])
                    else if rs_commands st' \<noteq> [] \<and> rs_endedBySemicolon st' then Some (rs_commands st')
                    else None))"

subsection \<open>The lexer as an automaton\<close>

text \<open>The state is the quoting and whether the next character is escaped.\<close>

definition cell_step :: "quoting \<times> bool \<Rightarrow> cell \<Rightarrow> (quoting \<times> bool) option" where
  "cell_step q c =
     (case q of (opened, escaping) \<Rightarrow>
        let ch = cell_char c; is = (\<lambda>k r. cell_quoting c = k \<and> cell_role c = r) in
        if escaping then (if is opened EscapedRole then Some (opened, False) else None)
        else if opened = InSingle then
          (if ch = squote then (if is InSingle QuoteMark then Some (Unquoted, False) else None)
           else if is InSingle TextRole then Some (InSingle, False) else None)
        else if ch = backslash then
          (if is opened EscapeRole then Some (opened, True) else if is opened TextRole then Some (opened, False) else None)
        else if opened = InDouble then
          (if ch = dquote then (if is InDouble QuoteMark then Some (Unquoted, False) else None)
           else if is InDouble TextRole then Some (InDouble, False) else None)
        else if ch = squote then (if is InSingle QuoteMark then Some (InSingle, False) else None)
        else if ch = dquote then (if is InDouble QuoteMark then Some (InDouble, False) else None)
        else if is Unquoted TextRole then Some (Unquoted, False) else None)"

fun cell_run :: "quoting \<times> bool \<Rightarrow> cell list \<Rightarrow> (quoting \<times> bool) option" where
  "cell_run q [] = Some q"
| "cell_run q (c # cs) = (case cell_step q c of None \<Rightarrow> None | Some q' \<Rightarrow> cell_run q' cs)"

text \<open>A backslash that is the last character of the text escapes nothing.\<close>

definition lone :: "cell \<Rightarrow> bool" where
  "lone c \<longleftrightarrow> cell_char c = backslash \<and> cell_role c = TextRole \<and> cell_quoting c \<noteq> InSingle"

lemma cell_run_append [simp]:
  "cell_run q (a @ b) = (case cell_run q a of None \<Rightarrow> None | Some q' \<Rightarrow> cell_run q' b)"
  by (induction a arbitrary: q) (auto split: option.splits)

lemma cell_step_lexed [simp]:
  "cell_step (opened, False) (Cell c opened EscapeRole) = (if c = backslash \<and> opened \<noteq> InSingle then Some (opened, True) else None)"
  "cell_step (opened, True) (Cell c opened EscapedRole) = Some (opened, False)"
  "cell_step (opened, False) (Cell c opened TextRole)
     = (if c = squote \<and> opened \<noteq> InDouble \<or> c = dquote \<and> opened \<noteq> InSingle then None else Some (opened, False))"
  "cell_step (InSingle, False) (Cell squote InSingle QuoteMark) = Some (Unquoted, False)"
  "cell_step (InDouble, False) (Cell dquote InDouble QuoteMark) = Some (Unquoted, False)"
  "cell_step (Unquoted, False) (Cell squote InSingle QuoteMark) = Some (InSingle, False)"
  "cell_step (Unquoted, False) (Cell dquote InDouble QuoteMark) = Some (InDouble, False)"
  by (cases opened; simp add: cell_step_def)+

lemma lone_Cell [simp]: "lone (Cell c k r) \<longleftrightarrow> c = backslash \<and> r = TextRole \<and> k \<noteq> InSingle"
  by (simp add: lone_def)

lemma lex_run:
  "cell_run (opened, False) (fst (lex_loop opened s)) = Some (snd (lex_loop opened s), False)
   \<and> (\<forall>c \<in> set (fst (lex_loop opened s)). lone c \<longrightarrow> cell_quoting c = snd (lex_loop opened s))"
proof (induction opened s rule: lex_loop.induct)
  case (2 opened c s)
  show ?case
  proof (cases opened)
    case InSingle
    then show ?thesis using 2(1,2) by (cases "c = squote") simp_all
  next
    case Unquoted
    consider "c = backslash" "s \<noteq> []" | "c = backslash" "s = []" | "c = squote" | "c = dquote" | "c \<notin> {backslash, squote, dquote}" by blast
    then show ?thesis using 2(3,6,7,8) Unquoted by cases simp_all
  next
    case InDouble
    consider "c = backslash" "s \<noteq> []" | "c = backslash" "s = []" | "c = dquote" | "c \<notin> {backslash, dquote}" by blast
    then show ?thesis using 2(3,4,5) InDouble by cases simp_all
  qed
qed simp

lemma lex_text [simp]: "map cell_char (fst (lex_loop opened s)) = s"
  by (induction opened s rule: lex_loop.induct) auto

lemma lx_text_lex [simp]: "lx_text (lex_command s) = s"
  by (simp add: lx_text_def lex_command_def case_prod_beta)

lemma cell_cases: "c = Cell (cell_char c) (cell_quoting c) (cell_role c)"
  by (cases c) simp

lemma run_lex: "cell_run (opened, False) w = Some (q, False) \<Longrightarrow> \<forall>c \<in> set w. \<not> lone c \<Longrightarrow> lex_loop opened (map cell_char w) = (w, q)"
proof (induction w arbitrary: opened rule: length_induct)
  case (1 w)
  show ?case
  proof (cases w)
    case (Cons c cs)
    obtain ch k r where c: "c = Cell ch k r" by (cases c)
    show ?thesis
    proof (cases "ch = backslash \<and> opened \<noteq> InSingle")
      case True
      then have r: "k = opened" "r = EscapeRole" "cell_run (opened, True) cs = Some (q, False)"
        using 1(2,3) Cons c by (auto simp: cell_step_def lone_def split: if_splits)
      then obtain d ds where cs: "cs = d # ds" by (cases cs) auto
      obtain dh dk dr where d: "d = Cell dh dk dr" by (cases d)
      have "dk = opened" "dr = EscapedRole" "cell_run (opened, False) ds = Some (q, False)"
        using r(3) cs d by (auto simp: cell_step_def split: if_splits)
      then show ?thesis using 1(1,3) True Cons cs c d r by auto
    next
      case False
      then have "\<exists>o'. cell_run (o', False) cs = Some (q, False) \<and> cell_step (opened, False) c = Some (o', False)"
        using 1(2) Cons c by (cases opened) (auto simp: cell_step_def split: if_splits option.splits)
      then obtain o' where o: "cell_run (o', False) cs = Some (q, False)" "cell_step (opened, False) c = Some (o', False)" by blast
      have "lex_loop o' (map cell_char cs) = (cs, q)" using 1(1,3) Cons o(1) by simp
      then show ?thesis
        using o(2) False Cons c by (cases opened) (auto simp: cell_step_def split: if_splits)
    qed
  qed (use 1(2) in simp)
qed

lemma bare_step: "isBare c \<Longrightarrow> cell_step q c = Some q' \<Longrightarrow> q = (Unquoted, False) \<and> q' = (Unquoted, False)"
  by (cases q; cases "fst q") (auto simp: isBare_def cell_step_def Let_def split: if_splits)

lemma operator_cell_bare:
  assumes "cell_char c \<in> set '';&|<>''" "cell_step (Unquoted, False) c = Some q"
  shows "q = (Unquoted, False) \<and> isBare c"
proof -
  have "cell_char c \<notin> {backslash, squote, dquote}" using assms(1) by (auto simp: char_consts)
  then show ?thesis using assms(2) by (simp add: isBare_def cell_step_def Let_def split: if_splits)
qed

lemma run_skips_operator:
  "cell_run (Unquoted, False) cs = Some q \<Longrightarrow> n \<le> length cs \<Longrightarrow> set (map cell_char (take n cs)) \<subseteq> set '';&|<>''
    \<Longrightarrow> cell_run (Unquoted, False) (drop n cs) = Some q"
proof (induction n arbitrary: cs)
  case (Suc n)
  then obtain c ds where cs: "cs = c # ds" by (cases cs) auto
  with Suc.prems obtain q' where q': "cell_step (Unquoted, False) c = Some q'" "cell_run q' ds = Some q" by (auto split: option.splits)
  moreover have "q' = (Unquoted, False)" using operator_cell_bare [OF _ q'(1)] Suc.prems cs by simp
  ultimately show ?case using Suc cs by simp
qed simp

subsection \<open>What an accepted text consists of\<close>

datatype item = Gap string | Token string | Redirection "string option" string string string | Separator string

fun show_item :: "item \<Rightarrow> string" where
  "show_item (Gap g) = g"
| "show_item (Token w) = w"
| "show_item (Redirection descriptor operator g target) = the_default [] descriptor @ operator @ g @ target"
| "show_item (Separator operator) = operator"

definition blank_text :: "string \<Rightarrow> bool" where
  "blank_text g \<longleftrightarrow> set g \<subseteq> {CHR '' '', TAB, newline}"

definition metacharacters :: string where
  "metacharacters = [CHR '' '', TAB, newline, backtick, backslash] @ ''();&|<>''"

text \<open>A text that is one word for bash wherever it stands: read on its own, its quotes close and nothing outside them ends a word.\<close>

definition one_word :: "string \<Rightarrow> bool" where
  "one_word w \<longleftrightarrow>
     w \<noteq> [] \<and> \<not> lx_unterminated (lex_command w)
     \<and> (\<forall>c \<in> set (lx_cells (lex_command w)). isBare c \<longrightarrow> cell_char c \<notin> set metacharacters)"

fun item_ok :: "item \<Rightarrow> bool" where
  "item_ok (Gap g) \<longleftrightarrow> g \<noteq> [] \<and> blank_text g"
| "item_ok (Token w) \<longleftrightarrow> one_word w"
| "item_ok (Redirection descriptor operator g target) \<longleftrightarrow> throwsOutputAway operator descriptor target \<and> blank_text g"
| "item_ok (Separator operator) \<longleftrightarrow> operator \<in> set COMMAND_SEPARATORS"

text \<open>
  After a word or the target of a redirection there must be a blank, a separator or a redirection without a descriptor: nothing else ends a word for
  bash, and a digit written against a word is not a descriptor.
\<close>

fun ends_word :: "item \<Rightarrow> bool" where
  "ends_word (Token w) \<longleftrightarrow> True"
| "ends_word (Redirection descriptor operator g target) \<longleftrightarrow> True"
| "ends_word _ \<longleftrightarrow> False"

fun stops_word :: "item \<Rightarrow> bool" where
  "stops_word (Token w) \<longleftrightarrow> False"
| "stops_word (Redirection descriptor operator g target) \<longleftrightarrow> descriptor = None"
| "stops_word _ \<longleftrightarrow> True"

fun spaced :: "item list \<Rightarrow> bool" where
  "spaced (i # j # items) \<longleftrightarrow> (ends_word i \<longrightarrow> stops_word j) \<and> spaced (j # items)"
| "spaced _ \<longleftrightarrow> True"

lemma spaced_snoc: "spaced (items @ [j]) \<longleftrightarrow> spaced items \<and> (items \<noteq> [] \<and> ends_word (last items) \<longrightarrow> stops_word j)"
  by (induction items rule: spaced.induct) auto

lemma spaced_after: "spaced items \<Longrightarrow> stops_word j \<or> items = [] \<or> \<not> ends_word (last items) \<Longrightarrow> spaced (items @ [j])"
  by (auto simp: spaced_snoc)

text \<open>A line break outside quotes is followed by nothing but blanks.\<close>

fun breaks_last :: "cell list \<Rightarrow> bool" where
  "breaks_last [] \<longleftrightarrow> True"
| "breaks_last (c # cs) \<longleftrightarrow> (isBare c \<and> cell_char c = newline \<longrightarrow> list_all (\<lambda>d. is_ws (cell_char d)) cs) \<and> breaks_last cs"

text \<open>The commands the items make up, and the words of the command still open.\<close>

fun add_item :: "simple_command list \<times> bash_word list \<Rightarrow> item \<Rightarrow> simple_command list \<times> bash_word list" where
  "add_item (cs, ws) (Token w) = (cs, ws @ [word_of w])"
| "add_item (cs, ws) (Separator operator) = (cs @ [command_of ws], [])"
| "add_item (cs, ws) _ = (cs, ws)"

definition commands_of :: "item list \<Rightarrow> simple_command list" where
  "commands_of is = (case foldl add_item ([], []) is of (cs, ws) \<Rightarrow> if ws = [] then cs else cs @ [command_of ws])"

definition pending_text :: "(string \<times> string option) option \<Rightarrow> string \<Rightarrow> string" where
  "pending_text awaiting g = (case awaiting of None \<Rightarrow> g | Some (operator, descriptor) \<Rightarrow> the_default [] descriptor @ operator @ g)"

definition word_cells :: "quoting \<times> bool \<Rightarrow> cell list \<Rightarrow> bool" where
  "word_cells q w \<longleftrightarrow>
     cell_run (Unquoted, False) w = Some q \<and> (\<forall>c \<in> set w. \<not> lone c \<and> (isBare c \<longrightarrow> cell_char c \<notin> set metacharacters))"

text \<open>A word, or a redirection with its descriptor, may start here.\<close>

definition apart :: "item list \<Rightarrow> (string \<times> string option) option \<Rightarrow> bool" where
  "apart items awaiting \<longleftrightarrow> items = [] \<or> \<not> ends_word (last items) \<or> (\<exists>operator. awaiting = Some (operator, None))"

text \<open>
  The invariant of the reader: what it has consumed, in the automaton's state \<open>q\<close>. With \<open>b\<close> set, the word in progress (or the next one) is apart
  from what was read before.
\<close>

definition reads :: "bool \<Rightarrow> quoting \<times> bool \<Rightarrow> string \<Rightarrow> read_state \<Rightarrow> bool" where
  "reads b q consumed st \<longleftrightarrow>
     (\<exists>items g w.
        concat (map show_item items) @ pending_text (rs_awaiting st) g @ map cell_char w = consumed
        \<and> (rs_awaiting st = None \<longrightarrow> g = []) \<and> blank_text g \<and> list_all item_ok items
        \<and> spaced items \<and> (b \<longrightarrow> apart items (rs_awaiting st))
        \<and> foldl add_item ([], []) items = (rs_commands st, rs_words st)
        \<and> list_all (\<lambda>c. sc_words c \<noteq> []) (rs_commands st)
        \<and> word_cells q w \<and> rs_current st = (if w = [] then None else Some (map cell_char w)))"

lemma readsI:
  assumes "concat (map show_item items) @ pending_text (rs_awaiting st) g @ map cell_char w = consumed"
    "rs_awaiting st = None \<Longrightarrow> g = []" "blank_text g" "list_all item_ok items"
    "foldl add_item ([], []) items = (rs_commands st, rs_words st)" "word_cells q w"
    "rs_current st = (if w = [] then None else Some (map cell_char w))" "list_all (\<lambda>c. sc_words c \<noteq> []) (rs_commands st)"
    "spaced items" "b \<Longrightarrow> apart items (rs_awaiting st)"
  shows "reads b q consumed st"
  unfolding reads_def by (rule exI [of _ items], rule exI [of _ g], rule exI [of _ w]) (use assms in simp)

lemma readsE:
  assumes "reads b q consumed st"
  obtains items g w where "concat (map show_item items) @ pending_text (rs_awaiting st) g @ map cell_char w = consumed"
    "rs_awaiting st = None \<Longrightarrow> g = []" "blank_text g" "list_all item_ok items"
    "foldl add_item ([], []) items = (rs_commands st, rs_words st)" "word_cells q w"
    "rs_current st = (if w = [] then None else Some (map cell_char w))" "list_all (\<lambda>c. sc_words c \<noteq> []) (rs_commands st)"
    "spaced items" "b \<Longrightarrow> apart items (rs_awaiting st)"
  using assms(1) unfolding reads_def by (elim exE conjE) (rule that; simp)

lemma reads_mono:
  assumes "reads b' q consumed st" "b \<Longrightarrow> b'"
  shows "reads b q consumed st"
  using assms(1)
proof (cases rule: readsE)
  case (1 items g w)
  show ?thesis by (rule readsI [of items _ g w]) (use 1 assms(2) in simp_all)
qed

lemma word_cells_one_word: "word_cells (Unquoted, False) w \<Longrightarrow> w \<noteq> [] \<Longrightarrow> one_word (map cell_char w)"
  using run_lex [of Unquoted w Unquoted] by (auto simp: word_cells_def one_word_def lex_command_def)

lemma word_cells_Nil [simp]: "word_cells q [] \<longleftrightarrow> q = (Unquoted, False)"
  by (auto simp: word_cells_def)

lemma blank_text_simps [simp]: "blank_text []" "blank_text (g @ g') \<longleftrightarrow> blank_text g \<and> blank_text g'" "blank_text [c] \<longleftrightarrow> c \<in> {CHR '' '', TAB, newline}"
  by (auto simp: blank_text_def)

lemma pending_simps [simp]: "pending_text None g = g" "pending_text a (g @ g') = pending_text a g @ g'"
  by (auto simp: pending_text_def split: option.splits)

lemma reads_extend:
  assumes "reads True q consumed st" "cell_step q c = Some q'" "\<not> lone c" "isBare c \<Longrightarrow> cell_char c \<notin> set metacharacters"
  shows "reads True q' (consumed @ [cell_char c]) (extend st (cell_char c))"
  using assms(1)
proof (cases rule: readsE)
  case (1 items g w)
  have "word_cells q' (w @ [c])" using 1(6) assms(2-) by (auto simp: word_cells_def)
  then show ?thesis
    by (intro readsI [of items _ g "w @ [c]"]) (use 1 in \<open>auto simp: extend_def the_default_def\<close>)
qed

lemma reads_close:
  assumes "reads True (Unquoted, False) consumed st" "closeWord st = Some st'"
  shows "reads (rs_awaiting st' \<noteq> None) (Unquoted, False) consumed st' \<and> rs_current st' = None \<and> rs_endedBySemicolon st' = rs_endedBySemicolon st"
  using assms(1)
proof (cases rule: readsE)
  case (1 items g w)
  show ?thesis
  proof (cases "w = []")
    case True
    then have "st' = st" "rs_current st = None" using 1(7) assms(2) by (simp_all add: closeWord_def)
    then show ?thesis using assms(1) reads_mono by blast
  next
    case word: False
    show ?thesis
    proof (cases "rs_awaiting st")
      case None
      have "reads (rs_awaiting st' \<noteq> None) (Unquoted, False) consumed st'"
        by (rule readsI [of "items @ [Token (map cell_char w)]" _ "[]" "[]"])
          (use 1 None word assms(2) word_cells_one_word in \<open>auto simp: closeWord_def apart_def intro!: spaced_after\<close>)
      then show ?thesis using None word 1 assms(2) by (auto simp: closeWord_def)
    next
      case (Some a)
      obtain op d where a: "a = (op, d)" by (cases a)
      have t: "throwsOutputAway op d (map cell_char w)" "st' = st\<lparr>rs_current := None, rs_awaiting := None\<rparr>"
        using Some a word 1(7) assms(2) by (auto simp: closeWord_def split: if_splits)
      have "reads (rs_awaiting st' \<noteq> None) (Unquoted, False) consumed st'"
        by (rule readsI [of "items @ [Redirection d op g (map cell_char w)]" _ "[]" "[]"])
          (use 1 Some a t in \<open>auto simp: pending_text_def apart_def intro!: spaced_after\<close>)
      then show ?thesis using t by simp
    qed
  qed
qed

lemma reads_blank:
  assumes "reads (rs_awaiting st \<noteq> None) (Unquoted, False) consumed st" "rs_current st = None" "c \<in> {CHR '' '', TAB, newline}"
  shows "reads True (Unquoted, False) (consumed @ [c]) st"
  using assms(1)
proof (cases rule: readsE)
  case (1 items g w)
  have w: "w = []" using 1(7) assms(2) by (auto split: if_splits)
  show ?thesis
  proof (cases "rs_awaiting st")
    case None
    show ?thesis by (rule readsI [of "items @ [Gap [c]]" _ "[]" "[]"]) (use 1 w None assms in \<open>auto simp: apart_def intro!: spaced_after\<close>)
  next
    case (Some a)
    show ?thesis by (rule readsI [of items _ "g @ [c]" "[]"]) (use 1 w Some assms in auto)
  qed
qed

lemma reads_operator:
  assumes "reads True (Unquoted, False) consumed st" "read_operator op st = Some st'"
  shows "reads True (Unquoted, False) (consumed @ op) st'"
proof (cases "glued_descriptor op st")
  case None
  then obtain st1 where st1: "closeWord st = Some st1" "rs_awaiting st1 = None"
    using assms(2) by (cases "closeWord st") (auto simp: read_operator_def Let_def simp del: not_None_eq split: if_splits)
  from reads_close [OF assms(1) st1(1)] have r: "reads (rs_awaiting st1 \<noteq> None) (Unquoted, False) consumed st1" "rs_current st1 = None" by simp_all
  from r(1) show ?thesis
  proof (cases rule: readsE)
    case (1 items g w)
    have w: "w = []" using 1(7) r(2) by (auto split: if_splits)
    show ?thesis
    proof (cases "op \<in> set COMMAND_SEPARATORS")
      case True
      then have "rs_words st1 \<noteq> []"
          "st' = st1\<lparr>rs_commands := rs_commands st1 @ [command_of (rs_words st1)], rs_words := [], rs_endedBySemicolon := (op = '';'')\<rparr>"
        using assms(2) None st1 by (auto simp: read_operator_def Let_def split: if_splits)
      then show ?thesis
        by (intro readsI [of "items @ [Separator op]" _ "[]" "[]"]) (use 1 w st1 r True in \<open>auto simp: command_of_def apart_def intro!: spaced_after\<close>)
    next
      case False
      then have "st' = st1\<lparr>rs_awaiting := Some (op, None)\<rparr>"
        using assms(2) None st1 by (auto simp: read_operator_def Let_def)
      then show ?thesis
        by (intro readsI [of items _ "[]" "[]"]) (use 1 w st1 r in \<open>auto simp: pending_text_def the_default_def apart_def\<close>)
    qed
  qed
next
  case (Some d)
  then have d: "rs_current st = Some d" "is_number_text d" by (auto simp: glued_descriptor_def split: option.splits if_splits)
  have st': "rs_awaiting st = None" "st' = st\<lparr>rs_current := None, rs_awaiting := Some (op, Some d)\<rparr>"
    using assms(2) Some by (auto simp: read_operator_def Let_def simp del: not_None_eq split: if_splits)
  from assms(1) show ?thesis
  proof (cases rule: readsE)
    case (1 items g w)
    have "map cell_char w = d" using 1(7) d by (auto split: if_splits)
    then show ?thesis
      by (intro readsI [of items _ "[]" "[]"]) (use 1 st' in \<open>auto simp: pending_text_def the_default_def apart_def\<close>)
  qed
qed

lemma operator_at_chars:
  assumes "c \<in> set '';&|<>''"
  shows "startsWith (c # s) (operator_at (c # s)) \<and> operator_at (c # s) \<noteq> [] \<and> set (operator_at (c # s)) \<subseteq> set '';&|<>''"
proof (cases "List.find (startsWith (c # s)) SHELL_OPERATORS")
  case None
  then show ?thesis using assms by (simp add: operator_at_def the_default_def startsWith_def)
next
  case (Some op)
  then have "op \<in> set SHELL_OPERATORS" "startsWith (c # s) op" by (auto simp: find_Some_iff in_set_conv_nth)
  moreover from this(1) have "op \<noteq> [] \<and> set op \<subseteq> set '';&|<>''" by (auto simp: SHELL_OPERATORS_def)
  ultimately show ?thesis using Some by (simp add: operator_at_def the_default_def)
qed

lemma cell_run_ConsE:
  assumes "cell_run q (c # cs) = Some q'"
  obtains q1 where "cell_step q c = Some q1" "cell_run q1 cs = Some q'"
  using assms by (cases "cell_step q c") simp_all

lemma read_loop_ConsE:
  assumes "read_loop (c # cs) st = Some st'"
  obtains (quoted) "\<not> isBare c" "read_loop cs (extend st (cell_char c)) = Some st'"
  | (blank) st1 where "isBare c" "cell_char c \<in> {CHR '' '', TAB, newline}" "closeWord st = Some st1" "read_loop cs st1 = Some st'"
  | (plain) "isBare c" "cell_char c \<notin> set metacharacters" "read_loop cs (extend st (cell_char c)) = Some st'"
  | (operator) st1 where "isBare c" "cell_char c \<in> set '';&|<>''" "read_operator (operator_at (map cell_char (c # cs))) st = Some st1"
      "read_loop (drop (length (operator_at (map cell_char (c # cs))) - 1) cs) st1 = Some st'"
proof (cases "isBare c")
  case False
  then show thesis using assms quoted by (simp add: read_loop.simps(2) Let_def split: if_splits)
next
  case bare: True
  show thesis
  proof (cases "cell_char c \<in> {CHR '' '', TAB, newline}")
    case True
    then show thesis using assms blank bare by (auto simp: read_loop.simps(2) Let_def split: option.splits if_splits)
  next
    case nb: False
    show thesis
    proof (cases "cell_char c \<in> set '';&|<>''")
      case True
      moreover have "cell_char c \<notin> {backtick, CHR ''('', CHR '')'', backslash}" "\<not> (cell_char c = CHR ''#'')" using True by (auto simp: char_consts)
      moreover have "\<not> opensSubstitution (map cell_char (c # cs)) True" using True by (auto simp: opensSubstitution_def startsWith_def)
      ultimately show thesis
        using assms operator [OF bare True] bare nb
        by (cases "read_operator (operator_at (map cell_char (c # cs))) st") (simp_all add: read_loop.simps(2) Let_def)
    next
      case False
      then show thesis
        using assms plain [OF bare] bare nb by (simp add: read_loop.simps(2) Let_def metacharacters_def split: if_splits)
    qed
  qed
qed

lemma read_loop_reads:
  assumes "read_loop cs st = Some st'" "cell_run q cs = Some q'" "reads True q consumed st"
    "\<forall>c \<in> set cs. lone c \<longrightarrow> cell_quoting c = Unquoted"
  shows "reads True q' (consumed @ map cell_char cs) st'"
  using assms
proof (induction cs arbitrary: st q consumed rule: length_induct)
  case (1 cs)
  show ?case
  proof (cases cs)
    case Nil
    then show ?thesis using 1(2-4) by simp
  next
    case (Cons c ds)
    let ?s = "map cell_char (c # ds)"
    obtain q1 where q1: "cell_step q c = Some q1" "cell_run q1 ds = Some q'" using 1(3) Cons cell_run_ConsE by blast
    have tail: "\<forall>c \<in> set ds. lone c \<longrightarrow> cell_quoting c = Unquoted" using 1(5) Cons by simp
    have more: "reads True q2 (consumed @ u) st2 \<Longrightarrow> read_loop es st2 = Some st' \<Longrightarrow> cell_run q2 es = Some q' \<Longrightarrow> set es \<subseteq> set ds
        \<Longrightarrow> length es \<le> length ds \<Longrightarrow> u @ map cell_char es = ?s \<Longrightarrow> ?thesis" for q2 u st2 es
      using 1(1) [rule_format, of es st2 q2 "consumed @ u"] tail Cons by auto
    from 1(2) [unfolded Cons] show ?thesis
    proof (cases rule: read_loop_ConsE)
      case quoted
      then have "\<not> lone c" using 1(5) Cons by (auto simp: isBare_def lone_def)
      from reads_extend [OF 1(4) q1(1) this] quoted show ?thesis
        by (intro more [of q1 "[cell_char c]" _ ds]) (simp_all add: q1)
    next
      case plain
      then have "\<not> lone c" by (auto simp: lone_def metacharacters_def)
      from reads_extend [OF 1(4) q1(1) this] plain show ?thesis
        by (intro more [of q1 "[cell_char c]" _ ds]) (simp_all add: q1)
    next
      case (blank st1)
      have q: "q = (Unquoted, False)" "q1 = (Unquoted, False)" using bare_step [OF blank(1) q1(1)] by simp_all
      have r: "reads (rs_awaiting st1 \<noteq> None) (Unquoted, False) consumed st1" "rs_current st1 = None"
        using reads_close [OF 1(4) [unfolded q(1)] blank(3)] by simp_all
      show ?thesis
        by (rule more [OF reads_blank [OF r blank(2)] blank(4)]) (use q q1 in simp_all)
    next
      case (operator st1)
      let ?op = "operator_at ?s"
      have q: "q = (Unquoted, False)" "q1 = (Unquoted, False)" using bare_step [OF operator(1) q1(1)] by simp_all
      have op: "startsWith ?s ?op" "?op \<noteq> []" "set ?op \<subseteq> set '';&|<>''" using operator_at_chars [OF operator(2)] by simp_all
      define n where "n = length ?op - 1"
      have n: "length ?op = Suc n" using op(2) by (cases ?op) (simp_all add: n_def)
      have t: "take (Suc n) ?s = ?op" using op(1) n by (simp add: startsWith_def)
      then have s: "?op @ map cell_char (drop n ds) = ?s"
        by (metis append_take_drop_id drop_Suc_Cons drop_map list.simps(9))
      have "length (take (Suc n) ?s) = Suc n" using t n by simp
      then have "n \<le> length ds" by simp
      moreover have "set (map cell_char (take n ds)) \<subseteq> set ?op" using t by (metis set_subset_Cons list.simps(9) take_Suc_Cons take_map)
      ultimately have "cell_run (Unquoted, False) (drop n ds) = Some q'"
        using run_skips_operator [of ds q' n] q1(2) q(2) op(3) by blast
      with reads_operator [OF 1(4) [unfolded q(1)] operator(3)] operator(4) s show ?thesis
        by (intro more [of _ ?op _ "drop n ds"]) (auto simp: n_def dest: in_set_dropD)
    qed
  qed
qed

lemma read_loop_newline:
  "read_loop (c # cs) st = Some st' \<Longrightarrow> isBare c \<Longrightarrow> cell_char c = newline \<Longrightarrow> list_all (\<lambda>d. is_ws (cell_char d)) cs"
  by (auto simp: read_loop.simps(2) Let_def list_all_iff list_ex_iff split: if_splits option.splits)

lemma breaks_last_drop:
  "breaks_last (drop n cs) \<Longrightarrow> n \<le> length cs \<Longrightarrow> newline \<notin> cell_char ` set (take n cs) \<Longrightarrow> breaks_last cs"
proof (induction n arbitrary: cs)
  case (Suc n)
  then obtain c ds where "cs = c # ds" by (cases cs) auto
  with Suc show ?case by auto
qed simp

lemma operator_cells:
  assumes "cell_char c \<in> set '';&|<>''"
  shows "length (operator_at (map cell_char (c # cs))) - 1 \<le> length cs"
    and "newline \<notin> cell_char ` set (take (length (operator_at (map cell_char (c # cs))) - 1) cs)"
proof -
  let ?s = "map cell_char (c # cs)"
  let ?op = "operator_at ?s"
  have op: "startsWith ?s ?op" "?op \<noteq> []" "set ?op \<subseteq> set '';&|<>''" using operator_at_chars [OF assms] by simp_all
  then obtain t where t: "?s = ?op @ t" by (metis append_take_drop_id startsWith_def)
  then have "length ?s = length ?op + length t" by (metis length_append)
  then show "length ?op - 1 \<le> length cs" by simp
  have "map cell_char cs = tl ?op @ t" using arg_cong [OF t, of tl] op(2) by (simp add: tl_append2)
  then have "take (length (tl ?op)) (map cell_char cs) = tl ?op" by (metis append_eq_conv_conj)
  then have "map cell_char (take (length ?op - 1) cs) = tl ?op" by (metis length_tl take_map)
  then have "cell_char ` set (take (length ?op - 1) cs) \<subseteq> set ?op" using op(2) by (metis list.set_map list.set_sel(2) subsetI)
  moreover have "newline \<notin> set '';&|<>''" by (simp add: newline_def)
  ultimately show "newline \<notin> cell_char ` set (take (length ?op - 1) cs)" using op(3) by blast
qed

lemma read_loop_breaks: "read_loop cs st = Some st' \<Longrightarrow> breaks_last cs"
proof (induction cs arbitrary: st rule: length_induct)
  case (1 cs)
  show ?case
  proof (cases cs)
    case (Cons c ds)
    have n: "isBare c \<and> cell_char c = newline \<longrightarrow> list_all (\<lambda>d. is_ws (cell_char d)) ds"
      using read_loop_newline [OF 1(2)[unfolded Cons]] by blast
    have shorter: "length ys \<le> length ds \<Longrightarrow> read_loop ys st1 = Some st' \<Longrightarrow> breaks_last ys" for ys st1
      using 1(1) Cons by (metis le_imp_less_Suc length_Cons)
    from 1(2) [unfolded Cons] show ?thesis
    proof (cases rule: read_loop_ConsE)
      case (operator st1)
      let ?n = "length (operator_at (map cell_char (c # ds))) - 1"
      have "breaks_last (drop ?n ds)" by (rule shorter [OF _ operator(4)]) simp
      then show ?thesis using breaks_last_drop operator_cells [OF operator(2)] n Cons by simp
    qed (use n shorter Cons in auto)
  qed simp
qed

lemma readSimpleCommands_breaks:
  "readSimpleCommands txt = Some commands \<Longrightarrow> breaks_last (lx_cells (lex_command txt))"
  by (auto simp: readSimpleCommands_def Let_def split: if_splits option.splits dest: read_loop_breaks)

lemma reads_start: "reads True (Unquoted, False) [] read_start"
  by (rule readsI [of "[]" _ "[]" "[]"]) (simp_all add: read_start_def apart_def)

lemma lex_command_run:
  assumes "\<not> lx_unterminated (lex_command txt)"
  shows "cell_run (Unquoted, False) (lx_cells (lex_command txt)) = Some (Unquoted, False)"
    and "\<forall>c \<in> set (lx_cells (lex_command txt)). lone c \<longrightarrow> cell_quoting c = Unquoted"
  using assms lex_run [of Unquoted "txt"] by (simp_all add: lex_command_def case_prod_beta)

lemma readSimpleCommands_reads:
  assumes "readSimpleCommands txt = Some cs"
  obtains st where "reads False (Unquoted, False) txt st" "rs_current st = None" "rs_awaiting st = None"
    "cs = (if rs_words st = [] then rs_commands st else rs_commands st @ [command_of (rs_words st)])" "cs \<noteq> []"
proof -
  let ?lx = "lex_command txt"
  have t: "\<not> lx_unterminated ?lx" using assms by (simp add: readSimpleCommands_def Let_def split: if_splits)
  obtain st0 where st0: "read_loop (lx_cells ?lx) read_start = Some st0"
    using assms by (simp add: readSimpleCommands_def Let_def split: if_splits option.splits)
  obtain st where st: "closeWord st0 = Some st"
    using assms st0 t by (simp add: readSimpleCommands_def Let_def split: if_splits option.splits)
  have "map cell_char (lx_cells ?lx) = txt" using lx_text_lex [of "txt"] by (simp add: lx_text_def)
  then have "reads True (Unquoted, False) txt st0"
    using read_loop_reads [OF st0 lex_command_run(1) [OF t] reads_start lex_command_run(2) [OF t]] by simp
  from reads_close [OF this st] have "reads False (Unquoted, False) txt st" "rs_current st = None" by (auto elim: reads_mono)
  moreover have "rs_awaiting st = None"
    "cs = (if rs_words st = [] then rs_commands st else rs_commands st @ [command_of (rs_words st)])" "cs \<noteq> []"
    using assms st0 st t by (auto simp: readSimpleCommands_def Let_def simp del: not_None_eq split: if_splits)
  ultimately show thesis using that by blast
qed

text \<open>
  The reader drops nothing but harmless redirections. A text whose simple commands are read is, character by character, a sequence of blanks, words,
  separators and redirections; each redirection goes to \<^verbatim>\<open>/dev/null\<close> or is \<^verbatim>\<open>2>&1\<close>; each word closes its own quotes and has
  no blank, operator, parenthesis, backtick or stray backslash outside them, so it is one word wherever it stands; and the commands returned are the
  groups of words between the separators, in order, each with a word at least.
\<close>

theorem reader_accounts:
  assumes "readSimpleCommands txt = Some commands"
  shows "\<exists>items. concat (map show_item items) = txt \<and> list_all item_ok items \<and> spaced items \<and> commands_of items = commands \<and> commands \<noteq> []
    \<and> list_all (\<lambda>c. sc_words c \<noteq> []) commands"
  using assms
proof (cases rule: readSimpleCommands_reads)
  case (1 st)
  from 1(1) show ?thesis
  proof (cases rule: readsE)
    case items: (1 items g w)
    have "w = []" using items(7) 1(2) by (auto split: if_splits)
    moreover have "g = []" by (rule items(2)) (rule 1(3))
    ultimately show ?thesis
      using items 1 by (intro exI [of _ items]) (simp add: commands_of_def command_of_def)
  qed
qed

text \<open>The words of the commands, for later: each is a single word and carries its own value.\<close>

definition good_word :: "bash_word \<Rightarrow> bool" where
  "good_word w \<longleftrightarrow> one_word (bw_raw w) \<and> bw_value w = dequoteShellWord (bw_raw w)"

definition good_command :: "simple_command \<Rightarrow> bool" where
  "good_command c \<longleftrightarrow> list_all good_word (sc_words c) \<and> sc_text c = join_with '' '' (map bw_raw (sc_words c))"

text \<open>The reader never returns a command without a word.\<close>

lemma good_simps [simp]: "good_word (word_of w) \<longleftrightarrow> one_word w" "good_command (command_of ws) \<longleftrightarrow> list_all good_word ws"
  by (simp_all add: good_word_def word_of_def good_command_def command_of_def)

lemma fold_good:
  "list_all item_ok items \<Longrightarrow> list_all good_command (fst a) \<Longrightarrow> list_all good_word (snd a) \<Longrightarrow>
   list_all good_command (fst (foldl add_item a items)) \<and> list_all good_word (snd (foldl add_item a items))"
proof (induction items arbitrary: a)
  case (Cons i items)
  obtain cs ws where a: "a = (cs, ws)" by (cases a)
  show ?case using Cons a by (cases i) simp_all
qed simp

lemma commands_good:
  assumes "readSimpleCommands txt = Some commands"
  shows "list_all (\<lambda>c. good_command c \<and> sc_words c \<noteq> []) commands"
  using assms
proof (cases rule: readSimpleCommands_reads)
  case (1 st)
  from 1(1) show ?thesis
  proof (cases rule: readsE)
    case items: (1 items g w)
    then have "list_all good_command commands" using 1 fold_good [OF items(4), of "([], [])"] by simp
    moreover have "list_all (\<lambda>c. sc_words c \<noteq> []) commands" using items 1 by (simp add: command_of_def)
    ultimately show ?thesis by (simp add: list_all_iff)
  qed
qed

end
