(* ===== verification/Bash_Options.thy ===== *)
theory Bash_Options
  imports Bash_Lex
begin

text \<open>
  Reading a command's options against its flag table (\<open>readOptionWord\<close> to \<open>partitionArguments\<close> and
  \<open>namesNewRef\<close> of \<^verbatim>\<open>permissions/bash-read-only.ts\<close>). There are two readers, the one that accepts options and the one that sorts
  arguments for the checks on operands; they are shown to agree on which words are options, values and operands.
\<close>

subsection \<open>Flag tables\<close>

datatype arg_kind = NoArg | NumberArg | StringArg | CharArg | BracesArg | EofArg | AttachedArg

text \<open>An object literal with spreads: a later entry of the same name replaces an earlier one.\<close>

type_synonym flag_table = "(string \<times> arg_kind) list"

definition takes :: "arg_kind \<Rightarrow> string list \<Rightarrow> flag_table" where
  "takes kind names = map (\<lambda>name. (name, kind)) names"

definition kindOf :: "flag_table \<Rightarrow> string \<Rightarrow> arg_kind option" where
  "kindOf flags name = map_of (rev flags) name"

record command_spec =
  cs_flags :: flag_table
  cs_pattern :: "(string \<Rightarrow> bool) option"
  cs_dangerous :: "string \<Rightarrow> string list \<Rightarrow> bool"
  cs_respectsDoubleDash :: bool

definition plain_spec :: "flag_table \<Rightarrow> command_spec" where
  "plain_spec flags = \<lparr>cs_flags = flags, cs_pattern = None, cs_dangerous = (\<lambda>_ _. False), cs_respectsDoubleDash = True\<rparr>"

subsection \<open>One word\<close>

datatype option_word = EndOfOptions | Operand | LongOption string "string option" | ShortOption string "string option"

definition readOptionWord :: "string \<Rightarrow> option_word" where
  "readOptionWord token =
     (if token = ''--'' then EndOfOptions
      else if length token < 2 \<or> \<not> startsWith token ''-'' then Operand
      else
        (let head = takeWhile (\<lambda>c. c \<noteq> CHR ''='') token;
             inline = (if CHR ''='' \<in> set token then Some (tl (dropWhile (\<lambda>c. c \<noteq> CHR ''='') token)) else None)
         in if startsWith head ''--'' then LongOption head inline else ShortOption (tl head) inline))"

fun option_name :: "option_word \<Rightarrow> string" where
  "option_name (LongOption name inline) = name"
| "option_name (ShortOption letters inline) = CHR ''-'' # letters"
| "option_name _ = []"

fun option_inline :: "option_word \<Rightarrow> string option" where
  "option_inline (LongOption name inline) = inline"
| "option_inline (ShortOption letters inline) = inline"
| "option_inline _ = None"

definition looksLikeOption :: "string \<Rightarrow> bool" where
  "looksLikeOption token \<longleftrightarrow> length token > 1 \<and> startsWith token ''-''"

definition digits_text :: "string \<Rightarrow> bool" where
  "digits_text s \<longleftrightarrow> s \<noteq> [] \<and> list_all is_digit s"

definition valueFits :: "arg_kind \<Rightarrow> string \<Rightarrow> string \<Rightarrow> string \<Rightarrow> bool" where
  "valueFits kind val flag command \<longleftrightarrow>
     (case kind of
        NumberArg \<Rightarrow> digits_text val
      | StringArg \<Rightarrow> \<not> startsWith val ''-'' \<or> command = ''git'' \<and> flag = ''--sort'' \<and> tl val \<noteq> [] \<and> is_letter (hd (tl val))
      | AttachedArg \<Rightarrow> \<not> startsWith val ''-'' \<or> command = ''git'' \<and> flag = ''--sort'' \<and> tl val \<noteq> [] \<and> is_letter (hd (tl val))
      | CharArg \<Rightarrow> length val = 1
      | BracesArg \<Rightarrow> val = ''{}''
      | EofArg \<Rightarrow> val = ''EOF''
      | NoArg \<Rightarrow> False)"

text \<open>An option the table does not name: a count, a number glued to a flag that takes a value, or a cluster of flags without values.\<close>

definition accept_cluster :: "string \<Rightarrow> flag_table \<Rightarrow> string \<Rightarrow> bool" where
  "accept_cluster letters flags command \<longleftrightarrow>
     command = ''git'' \<and> digits_text letters
     \<or> (command = ''grep'' \<or> command = ''rg'')
       \<and> kindOf flags [CHR ''-'', hd letters] \<in> {Some NumberArg, Some StringArg} \<and> digits_text (tl letters)
     \<or> list_all (\<lambda>letter. kindOf flags [CHR ''-'', letter] = Some NoArg) letters"

text \<open>The option at the head of the words: how many words it uses, if it is accepted.\<close>

fun acceptOption :: "string list \<Rightarrow> flag_table \<Rightarrow> string \<Rightarrow> nat option" where
  "acceptOption [] flags command = None"
| "acceptOption (token # tokens) flags command =
     (let w = readOptionWord token; name = option_name w; inline = option_inline w; used = (\<lambda>ok n. if ok then Some n else None) in
      if w = EndOfOptions \<or> w = Operand then None
      else
        (case kindOf flags name of
           Some NoArg \<Rightarrow> used (inline = None) 1
         | Some AttachedArg \<Rightarrow> (case inline of None \<Rightarrow> None | Some v \<Rightarrow> used (valueFits AttachedArg v name command) 1)
         | Some kind \<Rightarrow>
             (case inline of
                Some v \<Rightarrow> used (valueFits kind v name command) 1
              | None \<Rightarrow>
                  (case tokens of
                     [] \<Rightarrow> None
                   | v # _ \<Rightarrow> used (\<not> looksLikeOption v \<and> valueFits kind v name command) 2))
         | None \<Rightarrow>
             (case w of
                ShortOption letters None \<Rightarrow> used (accept_cluster letters flags command) 1
              | _ \<Rightarrow> None)))"

subsection \<open>All the words\<close>

function optionsAllowed :: "string list \<Rightarrow> command_spec \<Rightarrow> string \<Rightarrow> bool" where
  "optionsAllowed [] spec command \<longleftrightarrow> True"
| "optionsAllowed (token # tokens) spec command \<longleftrightarrow>
     (case readOptionWord token of
        Operand \<Rightarrow> optionsAllowed tokens spec command
      | EndOfOptions \<Rightarrow> cs_respectsDoubleDash spec \<or> optionsAllowed tokens spec command
      | _ \<Rightarrow>
          (case acceptOption (token # tokens) (cs_flags spec) command of
             None \<Rightarrow> False
           | Some used \<Rightarrow> optionsAllowed (drop (used - 1) tokens) spec command))"
  by pat_completeness auto
termination
  by (relation "measure (\<lambda>(ts, s, c). length ts)") auto

definition XARGS_SAFE_TARGETS :: "string list" where
  "XARGS_SAFE_TARGETS = [''echo'', ''printf'', ''wc'', ''grep'', ''head'', ''tail'']"

function xargsAllowed :: "string list \<Rightarrow> command_spec \<Rightarrow> bool" where
  "xargsAllowed [] spec \<longleftrightarrow> True"
| "xargsAllowed (token # tokens) spec \<longleftrightarrow>
     (case readOptionWord token of
        EndOfOptions \<Rightarrow> tokens \<noteq> [] \<and> hd tokens \<in> set XARGS_SAFE_TARGETS
      | Operand \<Rightarrow> token \<in> set XARGS_SAFE_TARGETS
      | _ \<Rightarrow>
          (case acceptOption (token # tokens) (cs_flags spec) ''xargs'' of
             None \<Rightarrow> False
           | Some used \<Rightarrow> xargsAllowed (drop (used - 1) tokens) spec))"
  by pat_completeness auto
termination
  by (relation "measure (\<lambda>(ts, s). length ts)") auto

definition consumes_next :: "flag_table \<Rightarrow> option_word \<Rightarrow> bool" where
  "consumes_next flags w \<longleftrightarrow>
     option_inline w = None
     \<and> kindOf flags (option_name w) \<in> {Some NumberArg, Some StringArg, Some CharArg, Some BracesArg, Some EofArg}"

text \<open>The options (each as written) and the operands; the first argument says whether \<open>--\<close> has been read.\<close>

function partition_from :: "bool \<Rightarrow> string list \<Rightarrow> flag_table \<Rightarrow> string list \<times> string list" where
  "partition_from over [] flags = ([], [])"
| "partition_from over (token # args) flags =
     (case (if over then Operand else readOptionWord token) of
        EndOfOptions \<Rightarrow> partition_from True args flags
      | Operand \<Rightarrow> apsnd (Cons token) (partition_from over args flags)
      | w \<Rightarrow> apfst (Cons token) (partition_from over (if consumes_next flags w then drop 1 args else args) flags))"
  by pat_completeness auto
termination
  by (relation "measure (\<lambda>(b, ts, f). length ts)") auto

definition partitionArguments :: "string list \<Rightarrow> flag_table \<Rightarrow> string list \<times> string list" where
  "partitionArguments args flags = partition_from False args flags"

definition operandsOf :: "string list \<Rightarrow> flag_table \<Rightarrow> string list" where
  "operandsOf args flags = snd (partitionArguments args flags)"

subsection \<open>Operands that create a reference\<close>

record ref_scan =
  rf_listing :: bool
  rf_optionsOver :: bool
  rf_lastOption :: string

function names_ref_from :: "ref_scan \<Rightarrow> string list \<Rightarrow> flag_table \<Rightarrow> string list \<Rightarrow> bool" where
  "names_ref_from v [] flags optionalValue \<longleftrightarrow> False"
| "names_ref_from v (token # args) flags optionalValue \<longleftrightarrow>
     (if token = [] then names_ref_from v args flags optionalValue
      else case (if rf_optionsOver v then Operand else readOptionWord token) of
        EndOfOptions \<Rightarrow> names_ref_from (v\<lparr>rf_optionsOver := True, rf_lastOption := []\<rparr>) args flags optionalValue
      | Operand \<Rightarrow>
          \<not> rf_listing v \<and> rf_lastOption v \<notin> set optionalValue \<or> names_ref_from v args flags optionalValue
      | w \<Rightarrow>
          (let v' = v\<lparr>rf_lastOption := option_name w\<rparr> in
           if option_inline w \<noteq> None then names_ref_from v' args flags optionalValue
           else
             (let lists = (case w of ShortOption letters _ \<Rightarrow> CHR ''l'' \<in> set letters | _ \<Rightarrow> option_name w = ''--list'');
                  valued = kindOf flags (option_name w) \<in> {Some NumberArg, Some StringArg, Some CharArg}
              in names_ref_from (v'\<lparr>rf_listing := rf_listing v \<or> lists\<rparr>) (if valued then drop 1 args else args) flags optionalValue)))"
  by pat_completeness auto
termination
  by (relation "measure (\<lambda>(v, ts, f, vs). length ts)") auto

definition namesNewRef :: "string list \<Rightarrow> flag_table \<Rightarrow> string list \<Rightarrow> bool" where
  "namesNewRef args flags optionalValue =
     names_ref_from \<lparr>rf_listing = False, rf_optionsOver = False, rf_lastOption = []\<rparr> args flags optionalValue"

subsection \<open>The two readers agree\<close>

lemma option_name_hd: "readOptionWord token \<noteq> EndOfOptions \<Longrightarrow> readOptionWord token \<noteq> Operand \<Longrightarrow> startsWith token ''-'' \<and> length token \<ge> 2"
  by (auto simp: readOptionWord_def Let_def split: if_splits)

lemma acceptOption_used:
  assumes "acceptOption (token # tokens) flags command = Some n"
  shows "n = (if consumes_next flags (readOptionWord token) then 2 else 1) \<and> (n = 2 \<longrightarrow> tokens \<noteq> [])"
proof -
  let ?w = "readOptionWord token"
  have w: "?w \<noteq> EndOfOptions" "?w \<noteq> Operand" using assms by (auto simp: Let_def)
  show ?thesis
  proof (cases "kindOf flags (option_name ?w)")
    case None
    then show ?thesis using assms w by (cases ?w) (simp_all add: Let_def consumes_next_def split: option.splits if_splits)
  next
    case (Some kind)
    then show ?thesis
      using assms w by (cases kind; cases "option_inline ?w"; cases tokens) (simp_all add: Let_def consumes_next_def split: if_splits)
  qed
qed

lemma acceptOption_drop:
  "acceptOption (token # tokens) flags command = Some n \<Longrightarrow>
   drop (n - 1) tokens = (if consumes_next flags (readOptionWord token) then drop 1 tokens else tokens)"
  using acceptOption_used by fastforce

text \<open>
  The options among the words of a command, each with the value that belongs to it: the text after \<open>=\<close>, or the next word where the table says that
  the option takes one. \<open>dashes\<close> says whether \<open>--\<close> ends the options, \<open>stops\<close> whether the first operand does.
\<close>

function options_read :: "bool \<Rightarrow> bool \<Rightarrow> string list \<Rightarrow> flag_table \<Rightarrow> (option_word \<times> string option) list" where
  "options_read dashes stops [] flags = []"
| "options_read dashes stops (token # tokens) flags =
     (case readOptionWord token of
        EndOfOptions \<Rightarrow> if dashes then [] else options_read dashes stops tokens flags
      | Operand \<Rightarrow> if stops then [] else options_read dashes stops tokens flags
      | w \<Rightarrow>
          if consumes_next flags w then (w, if tokens = [] then None else Some (hd tokens)) # options_read dashes stops (drop 1 tokens) flags
          else (w, option_inline w) # options_read dashes stops tokens flags)"
  by pat_completeness auto
termination
  by (relation "measure (\<lambda>(d, s, ts, f). length ts)") auto

text \<open>
  An option in the table carries no value, or one of the declared kind, attached where the table asks for that; one that is not in it is a cluster of
  flags without values, or a count that the command takes.
\<close>

definition use_ok :: "flag_table \<Rightarrow> string \<Rightarrow> option_word \<times> string option \<Rightarrow> bool" where
  "use_ok flags command u \<longleftrightarrow>
     (case u of (w, v) \<Rightarrow>
        case kindOf flags (option_name w) of
          Some NoArg \<Rightarrow> v = None
        | Some kind \<Rightarrow> v \<noteq> None \<and> valueFits kind (the v) (option_name w) command \<and> (kind = AttachedArg \<longrightarrow> option_inline w = v)
        | None \<Rightarrow> (case w of ShortOption letters None \<Rightarrow> accept_cluster letters flags command | _ \<Rightarrow> False))"

lemma acceptOption_use:
  assumes "acceptOption (token # tokens) flags command = Some n"
  shows "use_ok flags command (readOptionWord token,
    if consumes_next flags (readOptionWord token) then (if tokens = [] then None else Some (hd tokens)) else option_inline (readOptionWord token))"
proof -
  let ?w = "readOptionWord token"
  have w: "?w \<noteq> EndOfOptions" "?w \<noteq> Operand" using assms by (auto simp: Let_def)
  show ?thesis
  proof (cases "kindOf flags (option_name ?w)")
    case None
    then show ?thesis using assms w by (cases ?w) (simp_all add: Let_def use_ok_def consumes_next_def split: option.splits if_splits)
  next
    case (Some kind)
    then show ?thesis
      using assms w by (cases kind; cases "option_inline ?w"; cases tokens) (simp_all add: Let_def use_ok_def consumes_next_def split: if_splits)
  qed
qed

lemma read_option_step:
  assumes "acceptOption (token # tokens) flags command = Some n"
    and "list_all (use_ok flags command) (options_read dashes stops (drop (n - 1) tokens) flags)"
  shows "list_all (use_ok flags command) (options_read dashes stops (token # tokens) flags)"
proof -
  have "readOptionWord token \<noteq> EndOfOptions" "readOptionWord token \<noteq> Operand" using assms(1) by (auto simp: Let_def)
  then show ?thesis
    using assms(2) acceptOption_use [OF assms(1)] acceptOption_drop [OF assms(1)] by (cases "readOptionWord token") (simp_all split: if_splits)
qed

lemma partition_over [simp]: "partition_from True args flags = ([], args)"
  by (induction args) auto

lemma options_from_table:
  "optionsAllowed tokens spec command \<Longrightarrow>
   list_all (use_ok (cs_flags spec) command) (options_read (cs_respectsDoubleDash spec) False tokens (cs_flags spec))"
proof (induction tokens spec command rule: optionsAllowed.induct)
  case (2 token tokens spec command)
  show ?case
  proof (cases "readOptionWord token")
    case (LongOption name inline)
    then show ?thesis using 2(3,5) read_option_step by (auto simp del: options_read.simps split: option.splits)
  next
    case (ShortOption letters inline)
    then show ?thesis using 2(4,5) read_option_step by (auto simp del: options_read.simps split: option.splits)
  qed (use 2 in auto)
qed simp

lemma xargs_options:
  "xargsAllowed tokens spec \<Longrightarrow> list_all (use_ok (cs_flags spec) ''xargs'') (options_read True True tokens (cs_flags spec))"
proof (induction tokens spec rule: xargsAllowed.induct)
  case (2 token tokens spec)
  show ?case
  proof (cases "readOptionWord token")
    case (LongOption name inline)
    then show ?thesis using 2(1,3) read_option_step by (auto simp del: options_read.simps split: option.splits)
  next
    case (ShortOption letters inline)
    then show ?thesis using 2(2,3) read_option_step by (auto simp del: options_read.simps split: option.splits)
  qed simp_all
qed simp

text \<open>The word that \<open>xargs\<close> runs is the first operand, read by the other reader.\<close>

lemma xargs_target:
  "xargsAllowed tokens spec \<Longrightarrow>
   case snd (partition_from False tokens (cs_flags spec)) of [] \<Rightarrow> True | target # _ \<Rightarrow> target \<in> set XARGS_SAFE_TARGETS"
proof (induction tokens spec rule: xargsAllowed.induct)
  case (2 token tokens spec)
  show ?case
  proof (cases "readOptionWord token")
    case EndOfOptions
    then show ?thesis using 2(3) by (cases tokens) simp_all
  next
    case Operand
    then show ?thesis using 2(3) by simp
  next
    case (LongOption name inline)
    then obtain n where n: "acceptOption (token # tokens) (cs_flags spec) ''xargs'' = Some n" "xargsAllowed (drop (n - 1) tokens) spec"
      using 2(3) by (auto split: option.splits)
    show ?thesis using acceptOption_drop [OF n(1)] 2(1) [OF LongOption n(1) n(2)] LongOption by simp
  next
    case (ShortOption letters inline)
    then obtain n where n: "acceptOption (token # tokens) (cs_flags spec) ''xargs'' = Some n" "xargsAllowed (drop (n - 1) tokens) spec"
      using 2(3) by (auto split: option.splits)
    show ?thesis using acceptOption_drop [OF n(1)] 2(2) [OF ShortOption n(1) n(2)] ShortOption by simp
  qed
qed simp

end
