(* ===== verification/Regexes.thy ===== *)
theory Regexes
  imports JS_Prelude
begin

text \<open>
  The part of JavaScript's regular expressions that the anchored patterns \<open>/^...$/\<close> of the modelled code use, with
  character classes as predicates. \<open>matches\<close> runs a pattern by derivatives; it is
  proved to decide the language the pattern denotes, so the tests of the model are the tests
  of the source whatever order a backtracking engine tries them in.
\<close>

datatype rex = NoMatch | Empty | Cls "char \<Rightarrow> bool" | Alt rex rex | Cat rex rex | Star rex

text \<open>The usual abbreviations: \<open>r+\<close>, \<open>r?\<close>, a literal text, a sequence and an alternative of several.\<close>

definition Many :: "rex \<Rightarrow> rex" where
  "Many r = Cat r (Star r)"

definition Maybe :: "rex \<Rightarrow> rex" where
  "Maybe r = Alt Empty r"

fun Text :: "string \<Rightarrow> rex" where
  "Text [] = Empty"
| "Text (c # s) = Cat (Cls (\<lambda>d. d = c)) (Text s)"

fun Seq :: "rex list \<Rightarrow> rex" where
  "Seq [] = Empty"
| "Seq [r] = r"
| "Seq (r # rs) = Cat r (Seq rs)"

fun OneOf :: "rex list \<Rightarrow> rex" where
  "OneOf [] = NoMatch"
| "OneOf (r # rs) = Alt r (OneOf rs)"

abbreviation Space :: rex where
  "Space \<equiv> Cls is_ws"

abbreviation AnyOf :: "string \<Rightarrow> rex" where
  "AnyOf cs \<equiv> Cls (\<lambda>c. c \<in> set cs)"

abbreviation NoneOf :: "string \<Rightarrow> rex" where
  "NoneOf cs \<equiv> Cls (\<lambda>c. c \<notin> set cs)"

subsection \<open>The language of a pattern\<close>

inductive_set star :: "string set \<Rightarrow> string set" for A where
  star_Nil: "[] \<in> star A"
| star_step: "a \<in> A \<Longrightarrow> b \<in> star A \<Longrightarrow> a @ b \<in> star A"

fun lang :: "rex \<Rightarrow> string set" where
  "lang NoMatch = {}"
| "lang Empty = {[]}"
| "lang (Cls p) = {[c] |c. p c}"
| "lang (Alt r s) = lang r \<union> lang s"
| "lang (Cat r s) = {a @ b |a b. a \<in> lang r \<and> b \<in> lang s}"
| "lang (Star r) = star (lang r)"

subsection \<open>The matcher\<close>

fun nullable :: "rex \<Rightarrow> bool" where
  "nullable NoMatch \<longleftrightarrow> False"
| "nullable Empty \<longleftrightarrow> True"
| "nullable (Cls p) \<longleftrightarrow> False"
| "nullable (Alt r s) \<longleftrightarrow> nullable r \<or> nullable s"
| "nullable (Cat r s) \<longleftrightarrow> nullable r \<and> nullable s"
| "nullable (Star r) \<longleftrightarrow> True"

text \<open>Alternatives and sequences that drop a dead branch, so derivatives stay small.\<close>

fun alt :: "rex \<Rightarrow> rex \<Rightarrow> rex" where
  "alt NoMatch s = s"
| "alt r NoMatch = r"
| "alt r s = Alt r s"

fun cat :: "rex \<Rightarrow> rex \<Rightarrow> rex" where
  "cat NoMatch s = NoMatch"
| "cat Empty s = s"
| "cat r s = Cat r s"

fun deriv :: "char \<Rightarrow> rex \<Rightarrow> rex" where
  "deriv c NoMatch = NoMatch"
| "deriv c Empty = NoMatch"
| "deriv c (Cls p) = (if p c then Empty else NoMatch)"
| "deriv c (Alt r s) = alt (deriv c r) (deriv c s)"
| "deriv c (Cat r s) = (if nullable r then alt (cat (deriv c r) s) (deriv c s) else cat (deriv c r) s)"
| "deriv c (Star r) = cat (deriv c r) (Star r)"

fun matches :: "rex \<Rightarrow> string \<Rightarrow> bool" where
  "matches r [] \<longleftrightarrow> nullable r"
| "matches r (c # s) \<longleftrightarrow> matches (deriv c r) s"

subsection \<open>The matcher decides the language\<close>

lemma nullable_lang: "nullable r \<longleftrightarrow> [] \<in> lang r"
  by (induction r) (auto intro: star_Nil)

lemma alt_lang [simp]: "lang (alt r s) = lang r \<union> lang s"
  by (induction r s rule: alt.induct) auto

lemma cat_lang [simp]: "lang (cat r s) = {a @ b |a b. a \<in> lang r \<and> b \<in> lang s}"
  by (induction r s rule: cat.induct) auto

lemma star_Cons: "c # s \<in> star A \<longleftrightarrow> (\<exists>a b. s = a @ b \<and> c # a \<in> A \<and> b \<in> star A)"
proof
  assume "c # s \<in> star A"
  then show "\<exists>a b. s = a @ b \<and> c # a \<in> A \<and> b \<in> star A"
  proof (induction "c # s" arbitrary: c s)
    case (star_step a b)
    then show ?case by (cases a) auto
  qed
qed (metis append_Cons star_step)

lemma deriv_lang: "s \<in> lang (deriv c r) \<longleftrightarrow> c # s \<in> lang r"
proof (induction r arbitrary: s)
  case (Cat r1 r2)
  have "c # s \<in> lang (Cat r1 r2) \<longleftrightarrow>
      (\<exists>a b. s = a @ b \<and> c # a \<in> lang r1 \<and> b \<in> lang r2) \<or> [] \<in> lang r1 \<and> c # s \<in> lang r2"
    by (auto simp: Cons_eq_append_conv)
  then show ?case using Cat by (auto simp: nullable_lang)
next
  case (Star r)
  then show ?case by (auto simp: star_Cons)
qed auto

text \<open>
  A pattern test is membership in the language of the pattern. For every pattern and every text, the test by derivatives succeeds exactly when
  the text is in the language the pattern denotes; so no order of trying alternatives and no backtracking limit is part of the model.
\<close>

theorem matches_lang: "matches r s \<longleftrightarrow> s \<in> lang r"
  by (induction s arbitrary: r) (simp_all add: nullable_lang deriv_lang)

end
