(* ===== verification/Bash_Table.thy ===== *)
theory Bash_Table
  imports Bash_Commands Bash_Options Regexes
begin

text \<open>
  The per-command flag tables of the read-only test (\<open>COMMAND_SPECS\<close> of \<^verbatim>\<open>permissions/bash-read-only.ts\<close>), the checks that go with some of them, and
  the decision they give for one simple command. Each entry of the table is a definition of its own, in the order of the source.
\<close>

subsection \<open>Shared flags\<close>

definition GIT_REF_SELECTION :: "flag_table" where
  "GIT_REF_SELECTION =
     takes NoArg [''--all'', ''--branches'', ''--tags'', ''--remotes'']"

definition GIT_DATE_FILTERS :: "flag_table" where
  "GIT_DATE_FILTERS =
     takes StringArg [''--since'', ''--after'', ''--until'', ''--before'']"

definition GIT_LOG_DISPLAY :: "flag_table" where
  "GIT_LOG_DISPLAY =
     takes NoArg [''--oneline'', ''--graph'', ''--decorate'', ''--no-decorate'', ''--relative-date'']
     @ takes StringArg [''--date'']"

definition GIT_COUNT :: "flag_table" where
  "GIT_COUNT =
     takes NumberArg [''--max-count'', ''-n'']"

definition GIT_STAT :: "flag_table" where
  "GIT_STAT =
     takes NoArg [''--stat'', ''--numstat'', ''--shortstat'', ''--name-only'', ''--name-status'']"

definition GIT_COLOR :: "flag_table" where
  "GIT_COLOR =
     takes NoArg [''--color'', ''--no-color'']"

definition GIT_PATCH :: "flag_table" where
  "GIT_PATCH =
     takes NoArg [''--patch'', ''-p'', ''--no-patch'', ''--no-ext-diff'', ''-s'']"

definition GIT_AUTHOR_FILTERS :: "flag_table" where
  "GIT_AUTHOR_FILTERS =
     takes StringArg [''--author'', ''--committer'', ''--grep'']"

definition GIT_TAG_FLAGS :: "flag_table" where
  "GIT_TAG_FLAGS =
     takes NoArg [''-l'', ''--list'', ''--column'', ''--no-column'', ''-i'', ''--ignore-case'']
     @ takes NumberArg [''-n'']
     @ takes StringArg [''--contains'', ''--no-contains'', ''--merged'', ''--no-merged'', ''--sort'', ''--format'', ''--points-at'']"

definition GIT_BRANCH_FLAGS :: "flag_table" where
  "GIT_BRANCH_FLAGS =
     takes NoArg
       [''-l'', ''--list'', ''-a'', ''--all'', ''-r'', ''--remotes'', ''-v'', ''-vv'', ''--verbose'', ''--color'', ''--no-color'',
        ''--column'', ''--no-column'', ''--no-abbrev'', ''--merged'', ''--no-merged'', ''--show-current'', ''-i'', ''--ignore-case'']
     @ takes AttachedArg [''--abbrev'']
     @ takes StringArg [''--contains'', ''--no-contains'', ''--points-at'', ''--sort'']"

definition BASE64_FLAGS :: "flag_table" where
  "BASE64_FLAGS =
     takes NoArg [''-d'', ''-D'', ''--decode'', ''--ignore-garbage'', ''-h'', ''--help'', ''--version'']
     @ takes NumberArg [''-b'', ''--break'', ''-w'', ''--wrap'']
     @ takes StringArg [''-i'', ''--input'']"

definition DATE_FLAGS :: "flag_table" where
  "DATE_FLAGS =
     takes StringArg [''-d'', ''--date'', ''-r'', ''--reference'']
     @ takes AttachedArg [''--iso-8601'', ''--rfc-3339'']
     @ takes NoArg [''-u'', ''--utc'', ''--universal'', ''-I'', ''-R'', ''--rfc-email'', ''--debug'', ''--help'', ''--version'']"

definition TPUT_FLAGS :: "flag_table" where
  "TPUT_FLAGS =
     takes StringArg [''-T'']
     @ takes NoArg [''-V'', ''-x'']"

definition FD_FLAGS :: "flag_table" where
  "FD_FLAGS =
     takes NoArg
       [''-h'', ''--help'', ''-V'', ''--version'', ''-H'', ''--hidden'', ''-I'', ''--no-ignore'', ''--no-ignore-vcs'',
        ''--no-ignore-parent'', ''-s'', ''--case-sensitive'', ''-i'', ''--ignore-case'', ''-g'', ''--glob'', ''--regex'', ''-F'',
        ''--fixed-strings'', ''-a'', ''--absolute-path'', ''-L'', ''--follow'', ''-p'', ''--full-path'', ''-0'', ''--print0'', ''-1'',
        ''-q'', ''--quiet'', ''--show-errors'', ''--strip-cwd-prefix'', ''--one-file-system'', ''--prune'', ''--no-require-git'']
     @ takes NumberArg
       [''-d'', ''--max-depth'', ''--min-depth'', ''--exact-depth'', ''-j'', ''--threads'', ''--max-results'', ''--batch-size'']
     @ takes StringArg
       [''-t'', ''--type'', ''-e'', ''--extension'', ''-S'', ''--size'', ''--changed-within'', ''--changed-before'', ''-o'', ''--owner'',
        ''-E'', ''--exclude'', ''--ignore-file'', ''-c'', ''--color'', ''--max-buffer-time'', ''--search-path'', ''--base-directory'',
        ''--path-separator'', ''--hyperlink'', ''--and'', ''--format'']"

definition CHECKSUM_FLAGS :: "flag_table" where
  "CHECKSUM_FLAGS =
     takes NoArg
       [''-b'', ''--binary'', ''-t'', ''--text'', ''-c'', ''--check'', ''--ignore-missing'', ''--quiet'', ''--status'', ''--strict'',
        ''-w'', ''--warn'', ''--tag'', ''-z'', ''--zero'', ''--help'', ''--version'']"

subsection \<open>Checks on the arguments\<close>

definition REFLOG_WRITING_SUBCOMMANDS :: "string list" where
  "REFLOG_WRITING_SUBCOMMANDS = [''expire'', ''delete'', ''exists'']"

definition reflogWrites :: "string \<Rightarrow> string list \<Rightarrow> bool" where
  "reflogWrites sub args \<longleftrightarrow> list_ex (\<lambda>arg. arg \<in> set REFLOG_WRITING_SUBCOMMANDS) args"

definition BRANCH_OPTIONAL_COMMIT :: "string list" where
  "BRANCH_OPTIONAL_COMMIT = [''--merged'', ''--no-merged'']"

definition dateSetsClock :: "string \<Rightarrow> string list \<Rightarrow> bool" where
  "dateSetsClock sub args \<longleftrightarrow> list_ex (\<lambda>operand. \<not> startsWith operand ''+'') (operandsOf args DATE_FLAGS)"

definition TPUT_DANGEROUS_CAPABILITIES :: "string list" where
  "TPUT_DANGEROUS_CAPABILITIES =
     [''init'', ''reset'', ''rs1'', ''rs2'', ''rs3'', ''is1'', ''is2'', ''is3'', ''iprog'', ''if'', ''rf'', ''clear'', ''flash'',
      ''mc0'', ''mc4'', ''mc5'', ''mc5i'', ''mc5p'', ''pfkey'', ''pfloc'', ''pfx'', ''pfxl'', ''smcup'', ''rmcup'']"

definition tputChangesTerminal :: "string \<Rightarrow> string list \<Rightarrow> bool" where
  "tputChangesTerminal sub args \<longleftrightarrow>
     (case partitionArguments args TPUT_FLAGS of (options, operands) \<Rightarrow>
        list_ex (\<lambda>option. \<not> startsWith option ''--'' \<and> CHR ''S'' \<in> set (takeWhile (\<lambda>c. c \<noteq> CHR ''='') option)) options
        \<or> list_ex (\<lambda>operand. operand \<in> set TPUT_DANGEROUS_CAPABILITIES) operands)"

definition REMOTE_NAME :: "string \<Rightarrow> bool" where
  "REMOTE_NAME s \<longleftrightarrow> s \<noteq> [] \<and> list_all (\<lambda>c. is_name_char c \<or> c = CHR ''-'') s"

definition remoteShowReachesBeyondOneRemote :: "string \<Rightarrow> string list \<Rightarrow> bool" where
  "remoteShowReachesBeyondOneRemote sub args \<longleftrightarrow>
     (let names = filter (\<lambda>arg. arg \<noteq> ''-n'') args in list_ex (\<lambda>arg. \<not> REMOTE_NAME arg) names \<or> length names \<noteq> 1)"

definition REMOTE_LISTING_OPTIONS :: "string list" where
  "REMOTE_LISTING_OPTIONS = [''-v'', ''--verbose'']"

definition remoteDoesMoreThanList :: "string \<Rightarrow> string list \<Rightarrow> bool" where
  "remoteDoesMoreThanList sub args \<longleftrightarrow> \<not> list_all (\<lambda>arg. arg \<in> set REMOTE_LISTING_OPTIONS) args"

definition psPrintsEnvironments :: "string \<Rightarrow> string list \<Rightarrow> bool" where
  "psPrintsEnvironments sub args \<longleftrightarrow> list_ex (\<lambda>arg. arg \<noteq> [] \<and> list_all is_letter arg \<and> CHR ''e'' \<in> set arg) args"

definition lsofWritesMountSupplement :: "string \<Rightarrow> string list \<Rightarrow> bool" where
  "lsofWritesMountSupplement sub args \<longleftrightarrow> list_ex (\<lambda>arg. take 2 arg = ''+m'') args"

definition pyrightWatches :: "string \<Rightarrow> string list \<Rightarrow> bool" where
  "pyrightWatches sub args \<longleftrightarrow> ''--watch'' \<in> set args \<or> ''-w'' \<in> set args"

subsection \<open>sed\<close>

definition SED_QUIET :: "string list" where
  "SED_QUIET = [''-n'', ''--quiet'', ''--silent'']"

definition SED_PRINT_OPTIONS :: "string list \<times> string" where
  "SED_PRINT_OPTIONS = ([''--quiet'', ''--silent'', ''--regexp-extended'', ''--zero-terminated'', ''--posix''], ''nErz'')"

definition SED_SUBSTITUTE_OPTIONS :: "string list \<times> string" where
  "SED_SUBSTITUTE_OPTIONS = ([''--regexp-extended'', ''--posix''], ''Er'')"

definition sedOptionsWithin :: "string list \<Rightarrow> string list \<times> string \<Rightarrow> bool" where
  "sedOptionsWithin options allowed \<longleftrightarrow>
     list_all (\<lambda>option.
         if startsWith option ''--'' then option \<in> set (fst allowed)
         else length option > 1 \<and> list_all (\<lambda>letter. letter \<in> set (snd allowed)) (tl option)) options"

definition SED_PRINT_SCRIPT :: rex where
  "SED_PRINT_SCRIPT =
     (let digits = Many (Cls is_digit);
          address = Maybe (Seq [digits, Maybe (Seq [Text '','', digits])])
      in Seq [address, Text ''p'', Star Space, Star (Seq [Text '';'', Star Space, address, Text ''p'', Star Space])])"

definition sedPrintScript :: "string \<Rightarrow> bool" where
  "sedPrintScript script \<longleftrightarrow> (let trimmed = trim script in newline \<notin> set trimmed \<and> matches SED_PRINT_SCRIPT trimmed)"

text \<open>The positions of the unescaped slashes, or none when an escaped slash is met.\<close>

function sed_delimiters :: "nat \<Rightarrow> string \<Rightarrow> nat list option" where
  "sed_delimiters i [] = Some []"
| "sed_delimiters i (c # s) =
     (if c = backslash then (if startsWith s ''/'' then None else sed_delimiters (i + 2) (drop 1 s))
      else if c = CHR ''/'' then map_option (Cons i) (sed_delimiters (i + 1) s)
      else sed_delimiters (i + 1) s)"
  by pat_completeness auto
termination
  by (relation "measure (\<lambda>(i, s). length s)") auto

definition SED_FLAGS :: rex where
  "SED_FLAGS = Seq [Star (AnyOf ''gpimIM''), Maybe (AnyOf ''123456789''), Star (AnyOf ''gpimIM'')]"

definition sed_misread :: "char option \<Rightarrow> string \<Rightarrow> bool" where
  "sed_misread prev s \<longleftrightarrow>
     (let c = hd s; next_char = (\<lambda>cs. tl s \<noteq> [] \<and> hd (tl s) \<in> set cs) in
      c = CHR 0x00 \<or> of_char c > (127::nat) \<or> c = newline \<or> c \<in> set ''{}#;!~''
      \<or> c = backslash \<and> prev = Some (CHR ''s'')
      \<or> c = backslash \<and> (tl s = [] \<or> next_char ''|#%@'')
      \<or> is_ws c \<and> next_char ''wWeE''
      \<or> c = CHR '','' \<and> starts_in ''+-'' (dropWhile is_ws (tl s)))"

definition transliterates :: "string \<Rightarrow> bool" where
  "transliterates s \<longleftrightarrow> some_place (\<lambda>_ t. startsWith t ''y'' \<and> tl t \<noteq> [] \<and> hd (tl t) \<notin> {backslash, newline}) None s"

definition sedSubstituteScript :: "string \<Rightarrow> bool" where
  "sedSubstituteScript script \<longleftrightarrow>
     (let s = trim script in
      startsWith s ''s/'' \<and> occurrences s (CHR ''/'') = 3
      \<and> (case sed_delimiters 0 s of
           Some [_, _, third] \<Rightarrow> matches SED_FLAGS (drop (third + 1) s)
         | _ \<Rightarrow> False)
      \<and> \<not> some_place sed_misread None s
      \<and> \<not> (transliterates s \<and> list_ex (\<lambda>c. c \<in> set ''wWeE'') s))"

definition bundled_script :: "string \<Rightarrow> bool" where
  "bundled_script s \<longleftrightarrow>
     some_place (\<lambda>_ t. startsWith t ''-e'' \<and> starts_in ''wWe'' (drop 2 t) \<or> startsWith t ''-w'' \<and> starts_in ''eE'' (drop 2 t)) None s"

definition sedIsAllowed :: "string \<Rightarrow> string list \<Rightarrow> bool" where
  "sedIsAllowed sub args \<longleftrightarrow>
     startsWith sub ''sed '' \<and> \<not> bundled_script (drop 4 sub)
     \<and> (let options = filter (\<lambda>a. startsWith a ''-'' \<and> a \<noteq> ''--'') args; operands = filter (\<lambda>a. \<not> startsWith a ''-'') args in
         case operands of
           [] \<Rightarrow> False
         | script # _ \<Rightarrow>
             if list_ex (\<lambda>option. option \<in> set SED_QUIET \<or> \<not> startsWith option ''--'' \<and> CHR ''n'' \<in> set option) options
                \<and> sedOptionsWithin options SED_PRINT_OPTIONS
             then sedPrintScript script
             else length operands = 1 \<and> sedOptionsWithin options SED_SUBSTITUTE_OPTIONS \<and> sedSubstituteScript script)"

subsection \<open>The table\<close>

definition HOSTNAME_PATTERN :: rex where
  "HOSTNAME_PATTERN =
     Seq [Text ''hostname'',
          Star (Seq [Many Space, OneOf [Seq [Text ''-'', Cls is_letter], Seq [Text ''--'', Many (Cls (\<lambda>c. is_letter c \<or> c = CHR ''-''))]]]),
          Star Space]"

definition xargs_spec :: "string \<times> command_spec" where
  "xargs_spec =
     (''xargs'',
      plain_spec (
       takes BracesArg [''-I'']
       @ takes NumberArg [''-n'', ''-P'', ''-L'', ''-s'']
       @ takes EofArg [''-E'']
       @ takes NoArg [''-0'', ''-t'', ''-r'', ''-x'']
       @ takes CharArg [''-d'']))"

definition git_diff_spec :: "string \<times> command_spec" where
  "git_diff_spec =
     (''git diff'',
      plain_spec (
       GIT_STAT
       @ GIT_COLOR
       @ takes NoArg
         [''--dirstat'', ''--summary'', ''--patch-with-stat'', ''--word-diff'', ''--color-words'', ''--no-renames'', ''--no-ext-diff'',
          ''--check'', ''--full-index'', ''--binary'', ''--break-rewrites'', ''--find-renames'', ''--find-copies'',
          ''--find-copies-harder'', ''--irreversible-delete'', ''--histogram'', ''--patience'', ''--minimal'', ''--ignore-space-at-eol'',
          ''--ignore-space-change'', ''--ignore-all-space'', ''--ignore-blank-lines'', ''--function-context'', ''--exit-code'',
          ''--quiet'', ''--cached'', ''--staged'', ''--pickaxe-regex'', ''--pickaxe-all'', ''--no-index'', ''-p'', ''-u'', ''-s'', ''-M'',
          ''-C'', ''-B'', ''-D'', ''-l'', ''-R'']
       @ takes StringArg
         [''--word-diff-regex'', ''--ws-error-highlight'', ''--diff-algorithm'', ''--relative'', ''--diff-filter'', ''-S'', ''-G'', ''-O'']
       @ takes NumberArg [''--abbrev'', ''--inter-hunk-context'']))"

definition git_log_spec :: "string \<times> command_spec" where
  "git_log_spec =
     (''git log'',
      plain_spec (
       GIT_LOG_DISPLAY
       @ GIT_REF_SELECTION
       @ GIT_DATE_FILTERS
       @ GIT_COUNT
       @ GIT_STAT
       @ GIT_COLOR
       @ GIT_PATCH
       @ GIT_AUTHOR_FILTERS
       @ takes NoArg
         [''--abbrev-commit'', ''--full-history'', ''--dense'', ''--sparse'', ''--simplify-merges'', ''--ancestry-path'', ''--source'',
          ''--first-parent'', ''--merges'', ''--no-merges'', ''--reverse'', ''--walk-reflogs'', ''--no-min-parents'', ''--no-max-parents'',
          ''--follow'', ''--no-walk'', ''--left-right'', ''--cherry-mark'', ''--cherry-pick'', ''--boundary'', ''--topo-order'',
          ''--date-order'', ''--author-date-order'', ''--pickaxe-regex'', ''--pickaxe-all'']
       @ takes NumberArg [''--skip'', ''--max-age'', ''--min-age'']
       @ takes StringArg [''--pretty'', ''--format'', ''--diff-filter'', ''-S'', ''-G'']))"

definition git_show_spec :: "string \<times> command_spec" where
  "git_show_spec =
     (''git show'',
      plain_spec (
       GIT_LOG_DISPLAY
       @ GIT_STAT
       @ GIT_COLOR
       @ GIT_PATCH
       @ takes NoArg [''--abbrev-commit'', ''--word-diff'', ''--color-words'', ''--first-parent'', ''--raw'', ''-m'', ''--quiet'']
       @ takes StringArg [''--word-diff-regex'', ''--pretty'', ''--format'', ''--diff-filter'']))"

definition git_shortlog_spec :: "string \<times> command_spec" where
  "git_shortlog_spec =
     (''git shortlog'',
      plain_spec (
       GIT_REF_SELECTION
       @ GIT_DATE_FILTERS
       @ takes NoArg [''-s'', ''--summary'', ''-n'', ''--numbered'', ''-e'', ''--email'', ''-c'', ''--committer'', ''--no-merges'']
       @ takes StringArg [''--group'', ''--format'', ''--author'']))"

definition git_reflog_spec :: "string \<times> command_spec" where
  "git_reflog_spec =
     (''git reflog'',
      (plain_spec (
       GIT_LOG_DISPLAY
       @ GIT_REF_SELECTION
       @ GIT_DATE_FILTERS
       @ GIT_COUNT
       @ GIT_AUTHOR_FILTERS))
       \<lparr>cs_respectsDoubleDash := False, cs_dangerous := reflogWrites\<rparr>)"

definition git_stash_list_spec :: "string \<times> command_spec" where
  "git_stash_list_spec =
     (''git stash list'',
      (plain_spec (
       GIT_LOG_DISPLAY
       @ GIT_REF_SELECTION
       @ GIT_COUNT))
       \<lparr>cs_respectsDoubleDash := False\<rparr>)"

definition git_ls_remote_spec :: "string \<times> command_spec" where
  "git_ls_remote_spec =
     (''git ls-remote'',
      (plain_spec (
       takes NoArg
         [''--branches'', ''-b'', ''--tags'', ''-t'', ''--heads'', ''-h'', ''--refs'', ''--quiet'', ''-q'', ''--exit-code'', ''--get-url'',
          ''--symref'']
       @ takes StringArg [''--sort'']))
       \<lparr>cs_respectsDoubleDash := False\<rparr>)"

definition git_status_spec :: "string \<times> command_spec" where
  "git_status_spec =
     (''git status'',
      plain_spec (
       takes NoArg
         [''--short'', ''-s'', ''--branch'', ''-b'', ''--porcelain'', ''--long'', ''--verbose'', ''-v'', ''--ignored'', ''--column'',
          ''--no-column'', ''--ahead-behind'', ''--no-ahead-behind'', ''--renames'', ''--no-renames'']
       @ takes StringArg [''--untracked-files'', ''-u'', ''--ignore-submodules'', ''--find-renames'', ''-M'']))"

definition git_blame_spec :: "string \<times> command_spec" where
  "git_blame_spec =
     (''git blame'',
      plain_spec (
       GIT_COLOR
       @ takes StringArg [''-L'', ''--date'', ''--ignore-rev'', ''--ignore-revs-file'']
       @ takes NoArg
         [''--porcelain'', ''-p'', ''--line-porcelain'', ''--incremental'', ''--root'', ''--show-stats'', ''--show-name'',
          ''--show-number'', ''-n'', ''--show-email'', ''-e'', ''-f'', ''-w'', ''-M'', ''-C'', ''--score-debug'', ''-s'', ''-l'', ''-t'']
       @ takes NumberArg [''--abbrev'']))"

definition git_ls_files_spec :: "string \<times> command_spec" where
  "git_ls_files_spec =
     (''git ls-files'',
      plain_spec (
       takes NoArg
         [''--cached'', ''-c'', ''--deleted'', ''-d'', ''--modified'', ''-m'', ''--others'', ''-o'', ''--ignored'', ''-i'', ''--stage'',
          ''-s'', ''--killed'', ''-k'', ''--unmerged'', ''-u'', ''--directory'', ''--no-empty-directory'', ''--eol'', ''--full-name'',
          ''--debug'', ''-z'', ''-t'', ''-v'', ''-f'', ''--exclude-standard'', ''--error-unmatch'', ''--recurse-submodules'']
       @ takes NumberArg [''--abbrev'']
       @ takes StringArg [''--exclude'', ''-x'', ''--exclude-from'', ''-X'', ''--exclude-per-directory'']))"

definition git_config_get_spec :: "string \<times> command_spec" where
  "git_config_get_spec =
     (''git config --get'',
      plain_spec (
       takes NoArg
         [''--local'', ''--global'', ''--system'', ''--worktree'', ''--bool'', ''--int'', ''--bool-or-int'', ''--path'', ''--expiry-date'',
          ''-z'', ''--null'', ''--name-only'', ''--show-origin'', ''--show-scope'']
       @ takes StringArg [''--default'', ''--type'']))"

definition git_remote_show_spec :: "string \<times> command_spec" where
  "git_remote_show_spec =
     (''git remote show'',
      (plain_spec (
       takes NoArg [''-n'']))
       \<lparr>cs_dangerous := remoteShowReachesBeyondOneRemote\<rparr>)"

definition git_remote_spec :: "string \<times> command_spec" where
  "git_remote_spec =
     (''git remote'',
      (plain_spec (
       takes NoArg [''-v'', ''--verbose'']))
       \<lparr>cs_dangerous := remoteDoesMoreThanList\<rparr>)"

definition git_merge_base_spec :: "string \<times> command_spec" where
  "git_merge_base_spec =
     (''git merge-base'',
      plain_spec (
       takes NoArg [''--is-ancestor'', ''--fork-point'', ''--octopus'', ''--independent'', ''--all'']))"

definition git_rev_parse_spec :: "string \<times> command_spec" where
  "git_rev_parse_spec =
     (''git rev-parse'',
      plain_spec (
       takes NoArg
         [''--verify'', ''--abbrev-ref'', ''--symbolic'', ''--symbolic-full-name'', ''--show-toplevel'', ''--show-cdup'',
          ''--show-prefix'', ''--git-dir'', ''--git-common-dir'', ''--absolute-git-dir'', ''--show-superproject-working-tree'',
          ''--is-inside-work-tree'', ''--is-inside-git-dir'', ''--is-bare-repository'', ''--is-shallow-repository'',
          ''--is-shallow-update'', ''--path-prefix'']
       @ takes StringArg [''--short'']))"

definition git_rev_list_spec :: "string \<times> command_spec" where
  "git_rev_list_spec =
     (''git rev-list'',
      plain_spec (
       GIT_REF_SELECTION
       @ GIT_DATE_FILTERS
       @ GIT_COUNT
       @ GIT_AUTHOR_FILTERS
       @ takes NoArg
         [''--count'', ''--reverse'', ''--first-parent'', ''--ancestry-path'', ''--merges'', ''--no-merges'', ''--no-min-parents'',
          ''--no-max-parents'', ''--walk-reflogs'', ''--oneline'', ''--abbrev-commit'', ''--full-history'', ''--dense'', ''--sparse'',
          ''--source'', ''--graph'']
       @ takes NumberArg [''--min-parents'', ''--max-parents'', ''--skip'', ''--max-age'', ''--min-age'', ''--abbrev'']
       @ takes StringArg [''--pretty'', ''--format'']))"

definition git_describe_spec :: "string \<times> command_spec" where
  "git_describe_spec =
     (''git describe'',
      plain_spec (
       takes NoArg [''--tags'', ''--long'', ''--always'', ''--contains'', ''--first-match'', ''--exact-match'', ''--dirty'', ''--broken'']
       @ takes StringArg [''--match'', ''--exclude'']
       @ takes NumberArg [''--abbrev'', ''--candidates'']))"

definition git_cat_file_spec :: "string \<times> command_spec" where
  "git_cat_file_spec =
     (''git cat-file'',
      plain_spec (
       takes NoArg [''-t'', ''-s'', ''-p'', ''-e'', ''--batch-check'', ''--allow-undetermined-type'']))"

definition git_for_each_ref_spec :: "string \<times> command_spec" where
  "git_for_each_ref_spec =
     (''git for-each-ref'',
      plain_spec (
       takes StringArg [''--format'', ''--sort'', ''--contains'', ''--no-contains'', ''--merged'', ''--no-merged'', ''--points-at'']
       @ takes NumberArg [''--count'']))"

definition git_grep_spec :: "string \<times> command_spec" where
  "git_grep_spec =
     (''git grep'',
      plain_spec (
       takes StringArg [''-e'']
       @ takes NoArg
         [''-E'', ''--extended-regexp'', ''-G'', ''--basic-regexp'', ''-F'', ''--fixed-strings'', ''-P'', ''--perl-regexp'', ''-i'',
          ''--ignore-case'', ''-v'', ''--invert-match'', ''-w'', ''--word-regexp'', ''-n'', ''--line-number'', ''-c'', ''--count'', ''-l'',
          ''--files-with-matches'', ''-L'', ''--files-without-match'', ''-h'', ''-H'', ''--heading'', ''--break'', ''--full-name'',
          ''--color'', ''--no-color'', ''-o'', ''--only-matching'', ''--and'', ''--or'', ''--not'', ''--untracked'', ''--no-index'',
          ''--recurse-submodules'', ''--cached'', ''-q'', ''--quiet'']
       @ takes NumberArg [''-A'', ''--after-context'', ''-B'', ''--before-context'', ''-C'', ''--context'', ''--max-depth'', ''--threads'']))"

definition git_stash_show_spec :: "string \<times> command_spec" where
  "git_stash_show_spec =
     (''git stash show'',
      (plain_spec (
       GIT_STAT
       @ GIT_COLOR
       @ GIT_PATCH
       @ takes NoArg [''--word-diff'']
       @ takes StringArg [''--word-diff-regex'', ''--diff-filter'']
       @ takes NumberArg [''--abbrev'']))
       \<lparr>cs_respectsDoubleDash := False\<rparr>)"

definition git_worktree_list_spec :: "string \<times> command_spec" where
  "git_worktree_list_spec =
     (''git worktree list'',
      plain_spec (
       takes NoArg [''--porcelain'', ''-v'', ''--verbose'']
       @ takes StringArg [''--expire'']))"

definition git_tag_spec :: "string \<times> command_spec" where
  "git_tag_spec =
     (''git tag'',
      (plain_spec (
       GIT_TAG_FLAGS))
       \<lparr>cs_dangerous := (\<lambda>_ args. namesNewRef args GIT_TAG_FLAGS [])\<rparr>)"

definition git_branch_spec :: "string \<times> command_spec" where
  "git_branch_spec =
     (''git branch'',
      (plain_spec (
       GIT_BRANCH_FLAGS))
       \<lparr>cs_dangerous := (\<lambda>_ args. namesNewRef args GIT_BRANCH_FLAGS BRANCH_OPTIONAL_COMMIT)\<rparr>)"

definition file_spec :: "string \<times> command_spec" where
  "file_spec =
     (''file'',
      plain_spec (
       takes NoArg
         [''--brief'', ''-b'', ''--mime'', ''-i'', ''--mime-type'', ''--mime-encoding'', ''--apple'', ''--check-encoding'', ''-c'',
          ''--print0'', ''-0'', ''--help'', ''--version'', ''-v'', ''--no-dereference'', ''-h'', ''--dereference'', ''-L'',
          ''--keep-going'', ''-k'', ''--list'', ''-l'', ''--no-buffer'', ''-n'', ''--preserve-date'', ''-p'', ''--raw'', ''-r'', ''-s'',
          ''--special-files'', ''--uncompress'', ''-z'']
       @ takes StringArg [''--exclude'', ''--exclude-quiet'', ''-f'', ''-F'', ''--separator'', ''--magic-file'', ''-m'']))"

definition sed_spec :: "string \<times> command_spec" where
  "sed_spec =
     (''sed'',
      (plain_spec (
       takes StringArg [''--expression'', ''-e'']
       @ takes NoArg
         [''--quiet'', ''--silent'', ''-n'', ''--regexp-extended'', ''-r'', ''--posix'', ''-E'', ''--zero-terminated'', ''-z'',
          ''--separate'', ''-s'', ''--unbuffered'', ''-u'', ''--debug'', ''--help'', ''--version'']
       @ takes NumberArg [''--line-length'', ''-l'']))
       \<lparr>cs_dangerous := (\<lambda>sub args. \<not> sedIsAllowed sub args)\<rparr>)"

definition sort_spec :: "string \<times> command_spec" where
  "sort_spec =
     (''sort'',
      plain_spec (
       takes NoArg
         [''--ignore-leading-blanks'', ''-b'', ''--dictionary-order'', ''-d'', ''--ignore-case'', ''-f'', ''--general-numeric-sort'',
          ''-g'', ''--human-numeric-sort'', ''-h'', ''--ignore-nonprinting'', ''-i'', ''--month-sort'', ''-M'', ''--numeric-sort'', ''-n'',
          ''--random-sort'', ''-R'', ''--reverse'', ''-r'', ''--stable'', ''-s'', ''--unique'', ''-u'', ''--version-sort'', ''-V'',
          ''--zero-terminated'', ''-z'', ''--check'', ''-c'', ''--check-char-order'', ''-C'', ''--merge'', ''-m'', ''--help'', ''--version'']
       @ takes StringArg [''--sort'', ''--key'', ''-k'', ''--field-separator'', ''-t'', ''--buffer-size'', ''-S'']
       @ takes NumberArg [''--parallel'', ''--batch-size'']))"

definition man_spec :: "string \<times> command_spec" where
  "man_spec =
     (''man'',
      plain_spec (
       takes NoArg [''-a'', ''--all'', ''-d'', ''-f'', ''--whatis'', ''-h'', ''-k'', ''--apropos'', ''-w'']
       @ takes StringArg [''-l'', ''-S'', ''-s'']))"

definition help_spec :: "string \<times> command_spec" where
  "help_spec =
     (''help'',
      plain_spec (
       takes NoArg [''-d'', ''-m'', ''-s'']))"

definition netstat_spec :: "string \<times> command_spec" where
  "netstat_spec =
     (''netstat'',
      plain_spec (
       takes NoArg [''-a'', ''-L'', ''-l'', ''-n'', ''-g'', ''-i'', ''-s'', ''-r'', ''-m'', ''-v'']
       @ takes StringArg [''-f'', ''-I'']))"

definition ps_spec :: "string \<times> command_spec" where
  "ps_spec =
     (''ps'',
      (plain_spec (
       takes NoArg
         [''-e'', ''-A'', ''-a'', ''-d'', ''-N'', ''--deselect'', ''-f'', ''-F'', ''-l'', ''-j'', ''-y'', ''-w'', ''-ww'', ''-c'', ''-H'',
          ''--forest'', ''--headers'', ''--no-headers'', ''-L'', ''-T'', ''-m'', ''--help'', ''--info'', ''-V'', ''--version'']
       @ takes NumberArg [''--width'']
       @ takes StringArg
         [''-n'', ''--sort'', ''-C'', ''-G'', ''-g'', ''-p'', ''--pid'', ''-q'', ''--quick-pid'', ''-s'', ''--sid'', ''-t'', ''--tty'',
          ''-U'', ''-u'', ''--user'']))
       \<lparr>cs_dangerous := psPrintsEnvironments\<rparr>)"

definition base64_spec :: "string \<times> command_spec" where
  "base64_spec =
     (''base64'',
      (plain_spec (
       BASE64_FLAGS))
       \<lparr>cs_respectsDoubleDash := False, cs_dangerous := (\<lambda>_ args. length (operandsOf args BASE64_FLAGS) > 1)\<rparr>)"

definition grep_spec :: "string \<times> command_spec" where
  "grep_spec =
     (''grep'',
      plain_spec (
       takes StringArg
         [''-e'', ''--regexp'', ''-f'', ''--file'', ''--color'', ''--colour'', ''--label'', ''--group-separator'', ''--binary-files'',
          ''-D'', ''--devices'', ''-d'', ''--directories'', ''--exclude'', ''--exclude-from'', ''--exclude-dir'', ''--include'']
       @ takes NoArg
         [''-F'', ''--fixed-strings'', ''-G'', ''--basic-regexp'', ''-E'', ''--extended-regexp'', ''-P'', ''--perl-regexp'', ''-i'',
          ''--ignore-case'', ''--no-ignore-case'', ''-v'', ''--invert-match'', ''-w'', ''--word-regexp'', ''-x'', ''--line-regexp'',
          ''-c'', ''--count'', ''-L'', ''--files-without-match'', ''-l'', ''--files-with-matches'', ''-o'', ''--only-matching'', ''-q'',
          ''--quiet'', ''--silent'', ''-s'', ''--no-messages'', ''-b'', ''--byte-offset'', ''-H'', ''--with-filename'', ''-h'',
          ''--no-filename'', ''-n'', ''--line-number'', ''-T'', ''--initial-tab'', ''-u'', ''--unix-byte-offsets'', ''-Z'', ''--null'',
          ''-z'', ''--null-data'', ''--no-group-separator'', ''-a'', ''--text'', ''-r'', ''--recursive'', ''-R'',
          ''--dereference-recursive'', ''--line-buffered'', ''-U'', ''--binary'', ''--help'', ''-V'', ''--version'']
       @ takes NumberArg [''-m'', ''--max-count'', ''-A'', ''--after-context'', ''-B'', ''--before-context'', ''-C'', ''--context'']))"

definition rg_spec :: "string \<times> command_spec" where
  "rg_spec =
     (''rg'',
      plain_spec (
       takes StringArg [''-e'', ''--regexp'', ''-f'', ''-g'', ''--glob'', ''-t'', ''--type'', ''-T'', ''--type-not'', ''--color'']
       @ takes NoArg
         [''-i'', ''--ignore-case'', ''-S'', ''--smart-case'', ''-F'', ''--fixed-strings'', ''-w'', ''--word-regexp'', ''-v'',
          ''--invert-match'', ''-c'', ''--count'', ''-l'', ''--files-with-matches'', ''--files-without-match'', ''-n'', ''--line-number'',
          ''-o'', ''--only-matching'', ''-H'', ''-h'', ''--heading'', ''--no-heading'', ''-q'', ''--quiet'', ''--column'', ''--type-list'',
          ''--hidden'', ''--no-ignore'', ''-u'', ''-a'', ''--text'', ''-z'', ''-L'', ''--follow'', ''--json'', ''--stats'', ''--help'',
          ''--version'', ''--debug'', ''--'']
       @ takes NumberArg
         [''-A'', ''--after-context'', ''-B'', ''--before-context'', ''-C'', ''--context'', ''-m'', ''--max-count'', ''-d'', ''--max-depth'']))"

definition sha256sum_spec :: "string \<times> command_spec" where
  "sha256sum_spec =
     (''sha256sum'',
      plain_spec (
       CHECKSUM_FLAGS))"

definition sha1sum_spec :: "string \<times> command_spec" where
  "sha1sum_spec =
     (''sha1sum'',
      plain_spec (
       CHECKSUM_FLAGS))"

definition md5sum_spec :: "string \<times> command_spec" where
  "md5sum_spec =
     (''md5sum'',
      plain_spec (
       CHECKSUM_FLAGS))"

definition tree_spec :: "string \<times> command_spec" where
  "tree_spec =
     (''tree'',
      (plain_spec (
       takes NoArg
         [''-a'', ''-d'', ''-l'', ''-f'', ''-x'', ''--gitignore'', ''--ignore-case'', ''--matchdirs'', ''--metafirst'', ''--prune'',
          ''--info'', ''--noreport'', ''-q'', ''-N'', ''-Q'', ''-p'', ''-u'', ''-g'', ''-s'', ''-h'', ''--si'', ''--du'', ''-D'', ''-F'',
          ''--inodes'', ''--device'', ''-v'', ''-t'', ''-c'', ''-U'', ''-r'', ''--dirsfirst'', ''--filesfirst'', ''-i'', ''-A'', ''-S'',
          ''-n'', ''-C'', ''-X'', ''-J'', ''--nolinks'', ''--hyperlink'', ''--fromfile'', ''--fromtabfile'', ''--fflinks'', ''--help'',
          ''--version'']
       @ takes NumberArg [''-L'', ''--filelimit'']
       @ takes StringArg
         [''-P'', ''-I'', ''--gitfile'', ''--infofile'', ''--charset'', ''--timefmt'', ''--sort'', ''-H'', ''--hintro'', ''--houtro'',
          ''-T'', ''--scheme'', ''--authority'']))
       \<lparr>cs_respectsDoubleDash := False\<rparr>)"

definition date_spec :: "string \<times> command_spec" where
  "date_spec =
     (''date'',
      (plain_spec (
       DATE_FLAGS))
       \<lparr>cs_dangerous := dateSetsClock\<rparr>)"

definition hostname_spec :: "string \<times> command_spec" where
  "hostname_spec =
     (''hostname'',
      (plain_spec (
       takes NoArg
         [''-f'', ''--fqdn'', ''--long'', ''-s'', ''--short'', ''-i'', ''--ip-address'', ''-I'', ''--all-ip-addresses'', ''-a'',
          ''--alias'', ''-d'', ''--domain'', ''-A'', ''--all-fqdns'', ''-v'', ''--verbose'', ''-h'', ''--help'', ''-V'', ''--version'']))
       \<lparr>cs_pattern := Some (matches HOSTNAME_PATTERN)\<rparr>)"

definition info_spec :: "string \<times> command_spec" where
  "info_spec =
     (''info'',
      plain_spec (
       takes StringArg [''-f'', ''--file'', ''-d'', ''--directory'', ''-n'', ''--node'', ''-k'', ''--apropos'']
       @ takes NoArg
         [''-a'', ''--all'', ''-w'', ''--where'', ''--location'', ''--show-options'', ''--vi-keys'', ''--subnodes'', ''-h'', ''--help'',
          ''--usage'', ''--version'']))"

definition lsof_spec :: "string \<times> command_spec" where
  "lsof_spec =
     (''lsof'',
      (plain_spec (
       takes NoArg
         [''-?'', ''-h'', ''-v'', ''-a'', ''-b'', ''-C'', ''-l'', ''-n'', ''-N'', ''-O'', ''-P'', ''-Q'', ''-R'', ''-t'', ''-U'', ''-V'',
          ''-X'', ''-H'', ''-E'', ''-F'', ''-g'', ''-i'', ''-K'', ''-L'', ''-o'', ''-r'', ''-s'', ''-S'', ''-T'', ''-x'']
       @ takes StringArg [''-A'', ''-c'', ''-d'', ''-e'', ''-k'', ''-p'', ''-u'']))
       \<lparr>cs_respectsDoubleDash := False, cs_dangerous := lsofWritesMountSupplement\<rparr>)"

definition pgrep_spec :: "string \<times> command_spec" where
  "pgrep_spec =
     (''pgrep'',
      plain_spec (
       takes StringArg
         [''-d'', ''--delimiter'', ''-g'', ''--pgroup'', ''-G'', ''--group'', ''-O'', ''--older'', ''-P'', ''--parent'', ''-s'',
          ''--session'', ''-t'', ''--terminal'', ''-u'', ''--euid'', ''-U'', ''--uid'', ''-F'', ''--pidfile'', ''-r'', ''--runstates'',
          ''--ns'', ''--nslist'']
       @ takes NoArg
         [''-l'', ''--list-name'', ''-a'', ''--list-full'', ''-v'', ''--inverse'', ''-w'', ''--lightweight'', ''-c'', ''--count'', ''-f'',
          ''--full'', ''-i'', ''--ignore-case'', ''-n'', ''--newest'', ''-o'', ''--oldest'', ''-x'', ''--exact'', ''-L'', ''--logpidfile'',
          ''--help'', ''-V'', ''--version'']))"

definition tput_spec :: "string \<times> command_spec" where
  "tput_spec =
     (''tput'',
      (plain_spec (
       TPUT_FLAGS))
       \<lparr>cs_dangerous := tputChangesTerminal\<rparr>)"

definition ss_spec :: "string \<times> command_spec" where
  "ss_spec =
     (''ss'',
      plain_spec (
       takes NoArg
         [''-h'', ''--help'', ''-V'', ''--version'', ''-n'', ''--numeric'', ''-r'', ''--resolve'', ''-a'', ''--all'', ''-l'',
          ''--listening'', ''-o'', ''--options'', ''-e'', ''--extended'', ''-m'', ''--memory'', ''-p'', ''--processes'', ''-i'',
          ''--info'', ''-s'', ''--summary'', ''-4'', ''--ipv4'', ''-6'', ''--ipv6'', ''-0'', ''--packet'', ''-t'', ''--tcp'', ''-M'',
          ''--mptcp'', ''-S'', ''--sctp'', ''-u'', ''--udp'', ''-d'', ''--dccp'', ''-w'', ''--raw'', ''-x'', ''--unix'', ''--tipc'',
          ''--vsock'', ''-Z'', ''--context'', ''-z'', ''--contexts'', ''-b'', ''--bpf'', ''-E'', ''--events'', ''-H'', ''--no-header'',
          ''-O'', ''--oneline'', ''--tipcinfo'', ''--tos'', ''--cgroup'', ''--inet-sockopt'']
       @ takes StringArg [''-f'', ''--family'', ''-A'', ''--query'', ''--socket'']))"

definition fd_spec :: "string \<times> command_spec" where
  "fd_spec =
     (''fd'',
      plain_spec (
       FD_FLAGS))"

definition fdfind_spec :: "string \<times> command_spec" where
  "fdfind_spec =
     (''fdfind'',
      plain_spec (
       FD_FLAGS))"

definition pyright_spec :: "string \<times> command_spec" where
  "pyright_spec =
     (''pyright'',
      (plain_spec (
       takes NoArg [''--outputjson'', ''--stats'', ''--verbose'', ''--version'', ''--dependencies'', ''--warnings'']
       @ takes StringArg [''--project'', ''-p'', ''--pythonversion'', ''--pythonplatform'', ''--typeshedpath'', ''--venvpath'', ''--level'']))
       \<lparr>cs_respectsDoubleDash := False, cs_dangerous := pyrightWatches\<rparr>)"

definition docker_logs_spec :: "string \<times> command_spec" where
  "docker_logs_spec =
     (''docker logs'',
      plain_spec (
       takes NoArg [''--follow'', ''-f'', ''--timestamps'', ''-t'', ''--details'']
       @ takes StringArg [''--tail'', ''-n'', ''--since'', ''--until'']))"

definition docker_inspect_spec :: "string \<times> command_spec" where
  "docker_inspect_spec =
     (''docker inspect'',
      plain_spec (
       takes StringArg [''--format'', ''-f'', ''--type'']
       @ takes NoArg [''--size'', ''-s'']))"

definition COMMAND_SPECS :: "(string \<times> command_spec) list" where
  "COMMAND_SPECS =
     [xargs_spec, git_diff_spec, git_log_spec, git_show_spec, git_shortlog_spec, git_reflog_spec, git_stash_list_spec, git_ls_remote_spec,
      git_status_spec, git_blame_spec, git_ls_files_spec, git_config_get_spec, git_remote_show_spec, git_remote_spec, git_merge_base_spec,
      git_rev_parse_spec, git_rev_list_spec, git_describe_spec, git_cat_file_spec, git_for_each_ref_spec, git_grep_spec,
      git_stash_show_spec, git_worktree_list_spec, git_tag_spec, git_branch_spec, file_spec, sed_spec, sort_spec, man_spec, help_spec,
      netstat_spec, ps_spec, base64_spec, grep_spec, rg_spec, sha256sum_spec, sha1sum_spec, md5sum_spec, tree_spec, date_spec,
      hostname_spec, info_spec, lsof_spec, pgrep_spec, tput_spec, ss_spec, fd_spec, fdfind_spec, pyright_spec, docker_logs_spec,
      docker_inspect_spec]"

lemmas spec_defs =
  xargs_spec_def git_diff_spec_def git_log_spec_def git_show_spec_def git_shortlog_spec_def git_reflog_spec_def
  git_stash_list_spec_def git_ls_remote_spec_def git_status_spec_def git_blame_spec_def git_ls_files_spec_def git_config_get_spec_def
  git_remote_show_spec_def git_remote_spec_def git_merge_base_spec_def git_rev_parse_spec_def git_rev_list_spec_def
  git_describe_spec_def git_cat_file_spec_def git_for_each_ref_spec_def git_grep_spec_def git_stash_show_spec_def
  git_worktree_list_spec_def git_tag_spec_def git_branch_spec_def file_spec_def sed_spec_def sort_spec_def man_spec_def
  help_spec_def netstat_spec_def ps_spec_def base64_spec_def grep_spec_def rg_spec_def sha256sum_spec_def sha1sum_spec_def
  md5sum_spec_def tree_spec_def date_spec_def hostname_spec_def info_spec_def lsof_spec_def pgrep_spec_def tput_spec_def
  ss_spec_def fd_spec_def fdfind_spec_def pyright_spec_def docker_logs_spec_def docker_inspect_spec_def

text \<open>The names of the table, in its order.\<close>

definition TABLE_NAMES :: "string list" where
  "TABLE_NAMES =
     [''xargs'', ''git diff'', ''git log'', ''git show'', ''git shortlog'', ''git reflog'', ''git stash list'', ''git ls-remote'',
      ''git status'', ''git blame'', ''git ls-files'', ''git config --get'', ''git remote show'', ''git remote'', ''git merge-base'',
      ''git rev-parse'', ''git rev-list'', ''git describe'', ''git cat-file'', ''git for-each-ref'', ''git grep'', ''git stash show'',
      ''git worktree list'', ''git tag'', ''git branch'', ''file'', ''sed'', ''sort'', ''man'', ''help'', ''netstat'', ''ps'', ''base64'',
      ''grep'', ''rg'', ''sha256sum'', ''sha1sum'', ''md5sum'', ''tree'', ''date'', ''hostname'', ''info'', ''lsof'', ''pgrep'', ''tput'',
      ''ss'', ''fd'', ''fdfind'', ''pyright'', ''docker logs'', ''docker inspect'']"

lemma table_names: "map fst COMMAND_SPECS = TABLE_NAMES"
  by (simp add: COMMAND_SPECS_def TABLE_NAMES_def spec_defs)

subsection \<open>One simple command\<close>

type_synonym spec_entry = "string list \<times> command_spec"

definition SPEC_LEADING_WORDS :: "spec_entry list" where
  "SPEC_LEADING_WORDS = map (\<lambda>(name, spec). (split_on (CHR '' '') name, spec)) COMMAND_SPECS"

text \<open>Whether the platform is Windows is a parameter.\<close>

definition commandSpecFor :: "bool \<Rightarrow> string list \<Rightarrow> (command_spec \<times> nat) option" where
  "commandSpecFor win32 tokens =
     map_option (\<lambda>(leading, spec). (spec, length leading))
       (List.find (\<lambda>(leading, spec). take (length leading) tokens = leading \<and> \<not> (hd leading = ''xargs'' \<and> win32)) SPEC_LEADING_WORDS)"

definition namesRemoteLocation :: "string \<Rightarrow> bool" where
  "namesRemoteLocation token \<longleftrightarrow>
     token \<noteq> [] \<and> \<not> startsWith token ''-''
     \<and> (str_includes token ''://'' \<or> CHR ''@'' \<in> set token \<or> CHR '':'' \<in> set token \<or> CHR ''$'' \<in> set token)"

definition expandsAtRunTime :: "string \<Rightarrow> bool" where
  "expandsAtRunTime token \<longleftrightarrow>
     CHR ''$'' \<in> set token \<or> CHR ''{'' \<in> set token \<and> (CHR '','' \<in> set token \<or> str_includes token ''..'')"

definition text_fits :: "command_spec \<Rightarrow> string \<Rightarrow> string \<Rightarrow> bool" where
  "text_fits spec sub program \<longleftrightarrow>
     (case cs_pattern spec of
        Some pattern \<Rightarrow> pattern sub
      | None \<Rightarrow> backtick \<notin> set sub \<and> \<not> ((program = ''rg'' \<or> program = ''grep'') \<and> (newline \<in> set sub \<or> CR \<in> set sub)))"

definition isSafeViaFlagAllowlist :: "bool \<Rightarrow> simple_command \<Rightarrow> bool" where
  "isSafeViaFlagAllowlist win32 sub \<longleftrightarrow>
     (let tokens = map bw_value (sc_words sub) in
      case commandSpecFor win32 tokens of
        None \<Rightarrow> False
      | Some (spec, n) \<Rightarrow>
          (let args = drop n tokens in
           \<not> list_ex expandsAtRunTime args
           \<and> \<not> (hd tokens = ''git'' \<and> char_at tokens 1 = Some ''ls-remote'' \<and> list_ex namesRemoteLocation args)
           \<and> (if hd tokens = ''xargs'' then xargsAllowed args spec else optionsAllowed args spec (hd tokens))
           \<and> text_fits spec (sc_text sub) (hd tokens)
           \<and> \<not> cs_dangerous spec (sc_text sub) args))"

end
