(* ===== verification/Bash_Patterns.thy ===== *)
theory Bash_Patterns
  imports Bash_Commands Regexes
begin

text \<open>
  The recognisers that read a simple command as written (\<open>READ_ONLY_REGEXES\<close>, \<open>findOnlyLists\<close> and
  \<open>matchesReadOnlyPattern\<close> of \<^verbatim>\<open>permissions/bash-read-only.ts\<close>): the list of plain commands, the command patterns, and
  \<open>find\<close> without an action. What follows the name of the program in a pattern is shown to begin with a blank.
\<close>

subsection \<open>Patterns\<close>

definition PLAIN_READ_ONLY_COMMANDS :: "string list" where
  "PLAIN_READ_ONLY_COMMANDS =
     [''docker ps'', ''docker images'',
      ''cal'', ''uptime'',
      ''cat'', ''head'', ''tail'', ''wc'', ''stat'', ''strings'', ''hexdump'', ''od'', ''nl'',
      ''id'', ''uname'', ''free'', ''df'', ''du'', ''locale'', ''groups'', ''nproc'',
      ''basename'', ''dirname'', ''realpath'',
      ''cut'', ''paste'', ''tr'', ''column'', ''tac'', ''rev'', ''fold'', ''expand'', ''unexpand'', ''fmt'', ''comm'', ''cmp'', ''numfmt'',
      ''readlink'', ''diff'', ''true'', ''false'',
      ''sleep'', ''which'', ''type'', ''expr'', ''test'', ''getconf'', ''seq'', ''tsort'', ''pr'']"

definition shell_syntax :: string where
  "shell_syntax = ''<>()$|{}&;'' @ [backtick, newline, CR]"

text \<open>The argument part \<open>(?:\s|$)[^...]*$\<close>: nothing, or a blank and anything without shell syntax.\<close>

definition PLAIN_ARGUMENTS :: rex where
  "PLAIN_ARGUMENTS = Maybe (Cat Space (Star (NoneOf shell_syntax)))"

abbreviation Spaces :: rex where
  "Spaces \<equiv> Many Space"

abbreviation letters_dash :: "char \<Rightarrow> bool" where
  "letters_dash \<equiv> \<lambda>c. is_letter c \<or> c = CHR ''-''"

text \<open>A long option with an optional attached value that is not blank.\<close>

definition LongOpt :: rex where
  "LongOpt = Seq [Text ''--'', Many (Cls letters_dash), Maybe (Cat (Text ''='') (Many (Cls (\<lambda>c. \<not> is_ws c))))]"

definition SingleQuoted :: rex where
  "SingleQuoted = Seq [Text [squote], Star (NoneOf [squote]), Text [squote]]"

definition DoubleQuoted :: rex where
  "DoubleQuoted = Seq [Text [dquote], Star (NoneOf [dquote]), Text [dquote]]"

definition ECHO_TAIL :: rex where
  "ECHO_TAIL =
     Seq [Star (Cat Spaces (OneOf
            [SingleQuoted,
             Seq [Text [dquote], Star (NoneOf ([dquote, newline, CR] @ ''$<>'')), Text [dquote]],
             Many (Cls (\<lambda>c. c \<notin> set (''|;&$(){}><#!'' @ [backtick, backslash, dquote, squote]) \<and> \<not> is_ws c))])),
          Maybe (Cat Spaces (Text ''2>&1'')), Star Space]"

definition UNIQ_TAIL :: rex where
  "UNIQ_TAIL =
     Cat (Star (Cat Spaces (OneOf
            [Cat (Text ''-'') (Many (Cls is_letter)), LongOpt,
             Seq [Text ''-'', AnyOf ''fsw'', Spaces, Many (Cls is_digit)]])))
       (Star Space)"

definition HISTORY_TAIL :: rex where
  "HISTORY_TAIL = Cat (Maybe (Cat Spaces (Many (Cls is_digit)))) (Star Space)"

definition ARCH_TAIL :: rex where
  "ARCH_TAIL = Cat (Maybe (Cat Spaces (OneOf [Text ''--help'', Text ''-h'']))) (Star Space)"

definition IFCONFIG_TAIL :: rex where
  "IFCONFIG_TAIL =
     Cat (Maybe (Seq [Spaces, Cls is_letter, Star (Cls (\<lambda>c. is_name_char c \<or> c = CHR ''-''))])) (Star Space)"

definition JQ_TAIL :: rex where
  "JQ_TAIL =
     Seq [Star (Cat Spaces (OneOf [Cat (Text ''-'') (Many (Cls is_letter)), LongOpt])),
          Many (Cat Spaces (OneOf
            [Seq [Text [squote], Star (NoneOf [squote, backtick]), Text [squote]],
             Seq [Text [dquote], Star (NoneOf [dquote, backtick]), Text [dquote]],
             Cat (Cls (\<lambda>c. c \<notin> {CHR ''-'', squote, dquote} \<and> \<not> is_ws c)) (Star (Cls (\<lambda>c. \<not> is_ws c)))])),
          Star Space]"

definition CD_TAIL :: rex where
  "CD_TAIL =
     Maybe (Cat Spaces (OneOf
       [SingleQuoted, DoubleQuoted,
        Many (Cls (\<lambda>c. c \<notin> set ('';|&$(){}><#'' @ [backtick, backslash]) \<and> \<not> is_ws c))]))"

definition LS_TAIL :: rex where
  "LS_TAIL = Maybe (Cat Spaces (Star (NoneOf shell_syntax)))"

text \<open>
  The look-ahead of the jq pattern, on the text after the name: blanks, then on the line that starts there one of the options that read
  a file, or a word for the environment.
\<close>

definition word_boundary :: "string \<Rightarrow> bool" where
  "word_boundary s \<longleftrightarrow> s = [] \<or> \<not> is_name_char (hd s)"

definition jq_refused_at :: "char option \<Rightarrow> string \<Rightarrow> bool" where
  "jq_refused_at prev s \<longleftrightarrow>
     list_ex (\<lambda>w. startsWith s w \<and> word_boundary (drop (length w) s)) [''-f'', ''-L'', ''$ENV'']
     \<or> list_ex (startsWith s) [''--from-file'', ''--rawfile'', ''--slurpfile'', ''--run-tests'', ''--library-path'']
     \<or> startsWith s ''env'' \<and> word_boundary (drop 3 s) \<and> (case prev of None \<Rightarrow> True | Some b \<Rightarrow> \<not> is_name_char b)"

definition jq_lookahead :: "string \<Rightarrow> bool" where
  "jq_lookahead after \<longleftrightarrow>
     is_blank_at after
     \<and> some_place jq_refused_at (Some (CHR '' '')) (takeWhile (\<lambda>c. c \<noteq> newline \<and> c \<noteq> CR) (dropWhile is_ws after))"

text \<open>A pattern is the name it begins with, the rest, and what it refuses.\<close>

type_synonym read_only_pattern = "string \<times> rex \<times> (string \<Rightarrow> bool)"

definition COMMAND_PATTERNS :: "read_only_pattern list" where
  "COMMAND_PATTERNS =
     [(''echo'', ECHO_TAIL, \<lambda>_. False),
      (''claude -h'', Empty, \<lambda>_. False),
      (''claude --help'', Empty, \<lambda>_. False),
      (''uniq'', UNIQ_TAIL, \<lambda>_. False),
      (''pwd'', Empty, \<lambda>_. False),
      (''whoami'', Empty, \<lambda>_. False),
      (''node -v'', Empty, \<lambda>_. False),
      (''node --version'', Empty, \<lambda>_. False),
      (''python --version'', Empty, \<lambda>_. False),
      (''python3 --version'', Empty, \<lambda>_. False),
      (''history'', HISTORY_TAIL, \<lambda>_. False),
      (''alias'', Empty, \<lambda>_. False),
      (''arch'', ARCH_TAIL, \<lambda>_. False),
      (''ip addr'', Empty, \<lambda>_. False),
      (''ifconfig'', IFCONFIG_TAIL, \<lambda>_. False),
      (''jq'', JQ_TAIL, jq_lookahead),
      (''cd'', CD_TAIL, \<lambda>_. False),
      (''ls'', LS_TAIL, \<lambda>_. False)]"

definition READ_ONLY_REGEXES :: "read_only_pattern list" where
  "READ_ONLY_REGEXES = map (\<lambda>name. (name, PLAIN_ARGUMENTS, \<lambda>_. False)) PLAIN_READ_ONLY_COMMANDS @ COMMAND_PATTERNS"

definition pattern_test :: "read_only_pattern \<Rightarrow> string \<Rightarrow> bool" where
  "pattern_test p s \<longleftrightarrow>
     (case p of (name, tail, refused) \<Rightarrow>
        startsWith s name \<and> matches tail (drop (length name) s) \<and> \<not> refused (drop (length name) s))"

subsection \<open>find\<close>

definition FIND_ACTION_NAMES :: "string list" where
  "FIND_ACTION_NAMES = [''delete'', ''exec'', ''execdir'', ''ok'', ''okdir'', ''fprint'', ''fprint0'', ''fls'', ''fprintf'']"

definition has_find_action :: "string \<Rightarrow> bool" where
  "has_find_action s \<longleftrightarrow>
     some_place (\<lambda>_ t. startsWith t ''-'' \<and>
       list_ex (\<lambda>name. startsWith (tl t) name \<and> word_boundary (drop (length name) (tl t))) FIND_ACTION_NAMES) None s"

function find_syntax_free :: "string \<Rightarrow> bool" where
  "find_syntax_free [] \<longleftrightarrow> True"
| "find_syntax_free (c # s) \<longleftrightarrow>
     (if c = backslash \<and> starts_in ''()'' s then find_syntax_free (tl s)
      else c \<notin> set shell_syntax \<and> find_syntax_free s)"
  by pat_completeness auto
termination
  by (relation "measure length") auto

definition findOnlyLists :: "simple_command \<Rightarrow> bool" where
  "findOnlyLists simple \<longleftrightarrow>
     bw_raw (hd (sc_words simple)) = ''find''
     \<and> (let args = drop 4 (sc_text simple) in
        find_syntax_free args \<and> \<not> has_find_action args \<and> list_all (\<lambda>w. \<not> has_find_action (bw_value w)) (sc_words simple))"

subsection \<open>The test\<close>

definition GIT_CONFIGURING_OPTION :: "string \<Rightarrow> bool" where
  "GIT_CONFIGURING_OPTION s \<longleftrightarrow>
     some_place (\<lambda>_ t. is_blank_at t \<and>
       list_ex (\<lambda>option. startsWith (tl t) option \<and> (is_blank_at (drop (length option) (tl t)) \<or> starts_in ''='' (drop (length option) (tl t))))
         [''-c'', ''--exec-path'', ''--config-env'']) None s"

definition matchesReadOnlyPattern :: "simple_command \<Rightarrow> bool" where
  "matchesReadOnlyPattern simple \<longleftrightarrow>
     \<not> list_ex (\<lambda>w. startsWith (bw_value w) ''-'' \<and> backslash \<in> set (bw_raw w)) (sc_words simple)
     \<and> (list_ex (\<lambda>p. pattern_test p (sc_text simple)) READ_ONLY_REGEXES \<or> findOnlyLists simple)
     \<and> \<not> (str_includes (sc_text simple) ''git'' \<and> GIT_CONFIGURING_OPTION (sc_text simple))"

subsection \<open>After the name comes a blank\<close>

text \<open>A pattern that matches a nonempty text only if the text begins with a blank.\<close>

fun first_chars :: "rex \<Rightarrow> char \<Rightarrow> bool" where
  "first_chars NoMatch c \<longleftrightarrow> False"
| "first_chars Empty c \<longleftrightarrow> False"
| "first_chars (Cls p) c \<longleftrightarrow> p c"
| "first_chars (Alt r s) c \<longleftrightarrow> first_chars r c \<or> first_chars s c"
| "first_chars (Cat r s) c \<longleftrightarrow> first_chars r c \<or> nullable r \<and> first_chars s c"
| "first_chars (Star r) c \<longleftrightarrow> first_chars r c"

lemma first_chars_lang: "c # s \<in> lang r \<Longrightarrow> first_chars r c"
proof (induction r arbitrary: s)
  case (Cat r1 r2)
  then obtain a b where "c # s = a @ b" "a \<in> lang r1" "b \<in> lang r2" by auto
  then show ?case using Cat.IH by (cases a) (auto simp: nullable_lang)
next
  case (Star r)
  then show ?case by (auto simp: star_Cons)
qed auto

lemma tails_blank:
  assumes "(name, tail, refused) \<in> set READ_ONLY_REGEXES" "first_chars tail c"
  shows "is_ws c"
  using assms
  by (auto simp: READ_ONLY_REGEXES_def COMMAND_PATTERNS_def PLAIN_ARGUMENTS_def ECHO_TAIL_def UNIQ_TAIL_def HISTORY_TAIL_def
      ARCH_TAIL_def IFCONFIG_TAIL_def JQ_TAIL_def CD_TAIL_def LS_TAIL_def Many_def Maybe_def)

lemma pattern_text:
  assumes "(name, tail, refused) \<in> set READ_ONLY_REGEXES" "pattern_test (name, tail, refused) s"
  obtains "s = name" | b t where "s = name @ b # t" "is_ws b"
proof (cases "drop (length name) s")
  case Nil
  then have "s = name" using assms(2) by (auto simp: pattern_test_def startsWith_def)
  then show thesis using that(1) by blast
next
  case (Cons b t)
  have "s = name @ b # t" using assms(2) Cons append_take_drop_id [of "length name" s] by (simp add: pattern_test_def startsWith_def)
  moreover have "b # t \<in> lang tail" using assms(2) Cons by (simp add: pattern_test_def matches_lang)
  then have "is_ws b" using tails_blank [OF assms(1)] first_chars_lang by blast
  ultimately show thesis using that(2) by blast
qed

end
