(* ===== verification/Bash_Read_Only.thy ===== *)
theory Bash_Read_Only
  imports Bash_Table Bash_Patterns Redirects Node_Path
begin

text \<open>
  The decision whether a Bash command is provably read-only (\<open>isBashCommandReadOnly\<close> of \<^verbatim>\<open>permissions/bash-read-only.ts\<close>): the questions about the
  whole text, the hardening of git, the questions about each simple command, and what an accepted command can run. The platform and what \<open>stat\<close> finds at a path are parameters.
\<close>

subsection \<open>Windows paths\<close>

definition isPathSeparator :: "char \<Rightarrow> bool" where
  "isPathSeparator c \<longleftrightarrow> c = CHR ''/'' \<or> c = backslash"

definition starts_with_digits :: "string \<Rightarrow> string \<Rightarrow> bool" where
  "starts_with_digits after s \<longleftrightarrow>
     (let ds = takeWhile is_digit s in ds \<noteq> [] \<and> startsWith (map lower_char (dropWhile is_digit s)) after)"

definition WEBDAV_MARKERS :: "string \<Rightarrow> bool" where
  "WEBDAV_MARKERS s \<longleftrightarrow>
     some_place (\<lambda>_ t. let l = map lower_char t in
         startsWith l ''@ssl@'' \<and> starts_with_digits [] (drop 5 t)
         \<or> startsWith l ''@'' \<and> starts_with_digits ''@ssl'' (drop 1 t)
         \<or> startsWith l ''davwwwroot'') None s"

text \<open>A run of separators, with the character before it and the text after it.\<close>

function separator_runs :: "char option \<Rightarrow> string \<Rightarrow> (char option \<times> string \<times> string) list" where
  "separator_runs prev [] = []"
| "separator_runs prev (c # s) =
     (if isPathSeparator c then
        (prev, c # takeWhile isPathSeparator s, dropWhile isPathSeparator s)
          # separator_runs (Some (last (c # takeWhile isPathSeparator s))) (dropWhile isPathSeparator s)
      else separator_runs (Some c) s)"
  by pat_completeness auto
termination
  by (relation "measure (\<lambda>(b, s). length s)") (auto simp: le_imp_less_Suc length_dropWhile_le)

definition containsVulnerableUncPath :: "bool \<Rightarrow> string \<Rightarrow> bool" where
  "containsVulnerableUncPath win32 s \<longleftrightarrow>
     win32 \<and>
     (WEBDAV_MARKERS s
      \<or> list_ex (\<lambda>(prev, run, after).
           length run \<ge> 2 \<and> after \<noteq> [] \<and> \<not> is_ws (hd after) \<and> \<not> (run = ''//'' \<and> prev = Some (CHR '':'')))
         (separator_runs None s))"

subsection \<open>Git\<close>

record read_only_context =
  bc_cwd :: string
  bc_originalCwd :: string
  bc_sandboxEnabled :: bool

definition DIRECTORY_CHANGERS :: "string list" where
  "DIRECTORY_CHANGERS = [''cd'', ''pushd'', ''popd'']"

definition programsRunBy :: "simple_command \<Rightarrow> string list" where
  "programsRunBy simple =
     bw_value (hd (sc_words simple))
     # (case fst (leadingWord (stripWrappers (sc_text simple) DenyAsk)) of None \<Rightarrow> [] | Some w \<Rightarrow> [dequoteShellWord w])
     @ (if bw_value (hd (sc_words simple)) = ''xargs'' then map bw_value (sc_words simple) else [])"

datatype entry_kind = FileEntry | DirectoryEntry | OtherEntry | MissingEntry

definition BARE_REPOSITORY_MARKERS :: "(string \<times> entry_kind) list" where
  "BARE_REPOSITORY_MARKERS = [(''HEAD'', FileEntry), (''objects'', DirectoryEntry), (''refs'', DirectoryEntry)]"

definition isCurrentDirectoryBareGitRepo :: "(string \<Rightarrow> entry_kind) \<Rightarrow> string \<Rightarrow> bool" where
  "isCurrentDirectoryBareGitRepo entryKind cwd \<longleftrightarrow>
     (let dotGit = entryKind (path_join [cwd, ''.git'']);
          workingRepository = dotGit = FileEntry \<or> dotGit = DirectoryEntry \<and> entryKind (path_join [cwd, ''.git'', ''HEAD'']) = FileEntry
      in \<not> workingRepository \<and> list_ex (\<lambda>(name, kind). entryKind (path_join [cwd, name]) = kind) BARE_REPOSITORY_MARKERS)"

definition GIT_INTERNAL_TOP_LEVEL :: "string list" where
  "GIT_INTERNAL_TOP_LEVEL = [''objects'', ''refs'', ''hooks'']"

definition namesGitInternals :: "string \<Rightarrow> bool" where
  "namesGitInternals path \<longleftrightarrow>
     (case filter (\<lambda>segment. segment \<noteq> [] \<and> segment \<noteq> ''.'') (split_on (CHR ''/'') path) of
        [] \<Rightarrow> False
      | segment # below \<Rightarrow> segment = ''HEAD'' \<and> below = [] \<or> segment \<in> set GIT_INTERNAL_TOP_LEVEL)"

definition CREATING_COMMANDS :: "string list" where
  "CREATING_COMMANDS = [''mkdir'', ''touch'', ''cp'', ''mv'']"

definition gitRunsUnsafely :: "(string \<Rightarrow> entry_kind) \<Rightarrow> string \<Rightarrow> simple_command list \<Rightarrow> read_only_context \<Rightarrow> bool" where
  "gitRunsUnsafely entryKind joined commands ctx \<longleftrightarrow>
     (let programs = map programsRunBy commands in
      list_ex (\<lambda>ps. ''git'' \<in> set ps) programs
      \<and> (list_ex (\<lambda>ps. list_ex (\<lambda>changer. changer \<in> set ps) DIRECTORY_CHANGERS) programs
         \<or> isCurrentDirectoryBareGitRepo entryKind (bc_cwd ctx)
         \<or> list_ex namesGitInternals (extractRedirectTargets joined)
         \<or> list_ex (\<lambda>simple. bw_value (hd (sc_words simple)) \<in> set CREATING_COMMANDS
              \<and> list_ex (\<lambda>w. \<not> startsWith (bw_value w) ''-'' \<and> namesGitInternals (bw_value w)) (tl (sc_words simple))) commands
         \<or> bc_sandboxEnabled ctx \<and> bc_cwd ctx \<noteq> bc_originalCwd ctx))"

subsection \<open>One simple command\<close>

definition PARAMETER_START :: "char \<Rightarrow> bool" where
  "PARAMETER_START c \<longleftrightarrow> is_name_char c \<or> c \<in> set ''@*#?!$-''"

fun expands_scan :: "cell list \<Rightarrow> bool" where
  "expands_scan [] \<longleftrightarrow> False"
| "expands_scan (c # cs) \<longleftrightarrow>
     cell_role c = TextRole
       \<and> (cell_quoting c = Unquoted \<and> cell_char c \<in> set ''*?[]''
          \<or> cell_char c = CHR ''$'' \<and> cell_quoting c \<noteq> InSingle \<and> cs \<noteq> [] \<and> PARAMETER_START (cell_char (hd cs)))
     \<or> expands_scan cs"

definition expandsWhenRun :: "string \<Rightarrow> bool" where
  "expandsWhenRun s \<longleftrightarrow> expands_scan (lx_cells (lex_command s))"

definition takesPatterns :: "simple_command \<Rightarrow> bool" where
  "takesPatterns simple \<longleftrightarrow>
     (let first = bw_value (hd (sc_words simple)) in
      first \<in> set [''grep'', ''rg'', ''fd'', ''fdfind'', ''find'', ''sed'']
      \<or> first = ''git'' \<and> map_option bw_value (char_at (sc_words simple) 1) = Some ''grep'')"

definition keptBackslashMisleads :: "simple_command \<Rightarrow> bool" where
  "keptBackslashMisleads simple \<longleftrightarrow>
     list_ex (\<lambda>w.
         startsWith (bw_value w) [backslash] \<and> \<not> startsWith (first_word (shellWords (bw_raw w) False Broad)) [backslash]
         \<and> (\<not> takesPatterns simple \<or> starts_in ''-+{}'' (drop 1 (bw_value w))))
       (sc_words simple)"

definition isSimpleCommandReadOnly :: "bool \<Rightarrow> simple_command \<Rightarrow> bool" where
  "isSimpleCommandReadOnly win32 simple \<longleftrightarrow>
     \<not> (containsVulnerableUncPath win32 (sc_text simple) \<or> expandsWhenRun (sc_text simple) \<or> keptBackslashMisleads simple)
     \<and> (isSafeViaFlagAllowlist win32 simple \<or> matchesReadOnlyPattern simple)"

subsection \<open>The decision\<close>

definition READ_ONLY_LENGTH_LIMIT :: nat where
  "READ_ONLY_LENGTH_LIMIT = 4096"

definition WHOLE_TEXT_REFUSALS :: "bool \<Rightarrow> (string \<Rightarrow> bool) list" where
  "WHOLE_TEXT_REFUSALS win32 =
     [\<lambda>s. length s > min PARSE_LIMIT READ_ONLY_LENGTH_LIMIT,
      \<lambda>s. trim s = [],
      \<lambda>s. splitCompound s = None,
      \<lambda>s. \<not> passesSecurityValidators s,
      containsVulnerableUncPath win32]"

definition isBashCommandReadOnly :: "bool \<Rightarrow> (string \<Rightarrow> entry_kind) \<Rightarrow> string \<Rightarrow> read_only_context \<Rightarrow> bool" where
  "isBashCommandReadOnly win32 entryKind command ctx \<longleftrightarrow>
     \<not> list_ex (\<lambda>refuses. refuses command) (WHOLE_TEXT_REFUSALS win32)
     \<and> (let joined = joinLineContinuations command; commands = the_default [] (readSimpleCommands joined) in
        the_default [[]] (substitutionBodies joined False) = []
        \<and> commands \<noteq> [] \<and> \<not> gitRunsUnsafely entryKind joined commands ctx
        \<and> list_all (\<lambda>simple. passesSecurityValidators (sc_text simple) \<and> isSimpleCommandReadOnly win32 simple) commands)"

end
