(* ===== verification/Bash_Safety.thy ===== *)
theory Bash_Safety
  imports Bash_Read_Only
begin

text \<open>
  What an accepted Bash command can run: the words of a command against the text of a pattern, the programs of the
  two recognisers, and the properties of the decision.
\<close>

subsection \<open>Words and the text of a pattern\<close>

lemma lex_plain: "\<forall>d \<in> set a. \<not> quoting_char d \<Longrightarrow>
    lex_loop Unquoted (a @ s) = apfst (append (map (\<lambda>d. Cell d Unquoted TextRole) a)) (lex_loop Unquoted s)"
  by (induction a) (auto simp: quoting_char_def apfst_def map_prod_def split: prod.splits)

lemma first_blank_quoted:
  assumes "one_word (a @ b # t)" "b \<in> {CHR '' '', TAB, newline}"
  shows "\<exists>d \<in> set a. quoting_char d"
proof (rule ccontr)
  assume "\<not> ?thesis"
  then have "lex_loop Unquoted (a @ b # t) = apfst (append (map (\<lambda>d. Cell d Unquoted TextRole) a)) (lex_loop Unquoted (b # t))"
    by (intro lex_plain) simp
  moreover have "b \<notin> {backslash, squote, dquote}" using assms(2) by (auto simp: char_consts)
  ultimately have "Cell b Unquoted TextRole \<in> set (lx_cells (lex_command (a @ b # t)))"
    by (auto simp: lex_command_def case_prod_beta)
  then show False using assms by (auto simp: one_word_def isBare_def metacharacters_def dest: bspec)
qed

definition plain_name :: "string \<Rightarrow> bool" where
  "plain_name n \<longleftrightarrow> n \<noteq> [] \<and> list_all (\<lambda>c. \<not> quoting_char c \<and> \<not> is_ws c) n"

lemma name_is_word:
  assumes "one_word r" "plain_name n" "r @ (if later = [] then [] else CHR '' '' # later) = n @ t" "t = [] \<or> (\<exists>b u. t = b # u \<and> b \<in> {CHR '' '', TAB, newline})"
  shows "r = n"
proof -
  from assms(3) consider us where "r = n @ us" "us @ (if later = [] then [] else CHR '' '' # later) = t"
    | us where "r @ us = n" "(if later = [] then [] else CHR '' '' # later) = us @ t"
    by (auto simp: append_eq_append_conv2)
  then show ?thesis
  proof cases
    case 1
    show ?thesis
    proof (cases us)
      case (Cons b u)
      then have "b \<in> {CHR '' '', TAB, newline}" using 1(2) assms(4) by (auto split: if_splits)
      then show ?thesis using first_blank_quoted [of n b u] 1(1) Cons assms(1,2) by (auto simp: plain_name_def list_all_iff)
    qed (use 1 in simp)
  next
    case 2
    show ?thesis
    proof (cases us)
      case (Cons b u)
      then have "b = CHR '' ''" using 2(2) by (auto split: if_splits)
      moreover have "b \<in> set n" using 2(1) Cons by auto
      ultimately show ?thesis using assms(2) by (auto simp: plain_name_def list_all_iff is_ws_def)
    qed (use 2 in simp)
  qed
qed

lemma join_rest: "join_with sep (p # ps) = p @ (if ps = [] then [] else sep @ join_with sep ps)"
  by (cases ps) simp_all

lemma words_begin:
  assumes "list_all one_word rs" "list_all plain_name ns" "ns \<noteq> []"
    and "join_with '' '' rs = join_with '' '' ns @ t" "t = [] \<or> (\<exists>b u. t = b # u \<and> b \<in> {CHR '' '', TAB, newline})"
  shows "take (length ns) rs = ns"
  using assms
proof (induction ns arbitrary: rs)
  case (Cons n ns)
  have rs: "rs \<noteq> []"
  proof
    assume "rs = []"
    then have "join_with '' '' (n # ns) = []" using Cons.prems(4) by simp
    then show False using Cons.prems(2) by (simp add: join_rest plain_name_def)
  qed
  then obtain r rs' where r: "rs = r # rs'" by (cases rs) auto
  let ?later = "join_with '' '' rs'"
  have ne: "rs' \<noteq> [] \<Longrightarrow> ?later \<noteq> []" using Cons.prems(1) r by (cases rs') (auto simp: join_rest one_word_def)
  have joined: "r @ (if ?later = [] then [] else CHR '' '' # ?later) = n @ (if ns = [] then [] else CHR '' '' # join_with '' '' ns) @ t"
    using Cons.prems(4) r ne by (cases "rs' = []") (simp_all add: join_rest)
  have w: "one_word r" "plain_name n" using Cons.prems(1,2) r by simp_all
  have "r = n"
    by (rule name_is_word [OF w joined]) (use Cons.prems(5) in \<open>auto split: if_splits\<close>)
  show ?case
  proof (cases "ns = []")
    case False
    have "join_with '' '' rs' = join_with '' '' ns @ t"
      using joined \<open>r = n\<close> False by (auto split: if_splits)
    with Cons.IH [of rs'] Cons.prems(1,2,5) r False \<open>r = n\<close> show ?thesis by simp
  qed (use r \<open>r = n\<close> in simp)
qed simp

lemma values_begin:
  assumes "good_command c" "list_all plain_name ns" "take (length ns) (map bw_raw (sc_words c)) = ns"
  shows "take (length ns) (map bw_value (sc_words c)) = ns"
proof -
  have "map bw_value (take (length ns) (sc_words c)) = map dequoteShellWord (map bw_raw (take (length ns) (sc_words c)))"
    using assms(1) by (auto simp: good_command_def good_word_def list_all_iff dest: in_set_takeD)
  also have "map bw_raw (take (length ns) (sc_words c)) = ns" using assms(3) by (simp add: take_map)
  also have "map dequoteShellWord ns = ns"
    using assms(2) by (intro map_idI dequoteShellWord_plain) (auto simp: plain_name_def list_all_iff)
  finally show ?thesis by (simp add: take_map)
qed

subsection \<open>The blanks of a checked text\<close>

lemma controls: "control_character (CHR 0x0B)" "control_character (CHR 0x0C)"
  by code_simp+

lemma checked_blanks:
  assumes "passesSecurityValidators s" "c \<in> set s" "is_ws c"
  shows "c \<in> {CHR '' '', TAB, newline}"
proof -
  have "CR \<notin> set s" "\<not> list_ex control_character s" "\<not> list_ex unicode_whitespace s"
    using assms(1) unfolding passesSecurityValidators_def PRE_CHECKS_def by (simp_all add: scan_command_def Let_def)
  then have "c \<noteq> CR" "\<not> control_character c" "\<not> unicode_whitespace c" using assms(2) by (auto simp: list_ex_iff)
  then have "c \<notin> {CR, CHR 0x0B, CHR 0x0C, CHR 0xA0, BOM}" using controls unfolding unicode_whitespace_def by blast
  then show ?thesis using assms(3) unfolding is_ws_def newline_def by blast
qed

subsection \<open>The programs of the two recognisers\<close>

definition name_words :: "string \<Rightarrow> string list" where
  "name_words name = split_on (CHR '' '') name"

definition begins_with :: "string list \<Rightarrow> string \<Rightarrow> bool" where
  "begins_with tokens name \<longleftrightarrow> take (length (name_words name)) tokens = name_words name"

definition PATTERN_NAMES :: "string list" where
  "PATTERN_NAMES = map fst READ_ONLY_REGEXES @ [''find'']"

lemma pattern_names_plain: "list_all (\<lambda>name. list_all plain_name (name_words name)) PATTERN_NAMES"
  by code_simp

text \<open>No name of the table and no name of a pattern can begin the same command.\<close>

definition compatible :: "string list \<Rightarrow> string list \<Rightarrow> bool" where
  "compatible xs ys \<longleftrightarrow> take (length ys) xs = take (length xs) ys"

text \<open>The names word by word, for the comparisons below.\<close>

definition table_words :: "string list list" where
  "table_words =
     [[''xargs''], [''git'', ''diff''], [''git'', ''log''], [''git'', ''show''], [''git'', ''shortlog''], [''git'', ''reflog''],
      [''git'', ''stash'', ''list''], [''git'', ''ls-remote''], [''git'', ''status''], [''git'', ''blame''], [''git'', ''ls-files''],
      [''git'', ''config'', ''--get''], [''git'', ''remote'', ''show''], [''git'', ''remote''], [''git'', ''merge-base''],
      [''git'', ''rev-parse''], [''git'', ''rev-list''], [''git'', ''describe''], [''git'', ''cat-file''], [''git'', ''for-each-ref''],
      [''git'', ''grep''], [''git'', ''stash'', ''show''], [''git'', ''worktree'', ''list''], [''git'', ''tag''], [''git'', ''branch''],
      [''file''], [''sed''], [''sort''], [''man''], [''help''], [''netstat''], [''ps''], [''base64''], [''grep''], [''rg''],
      [''sha256sum''], [''sha1sum''], [''md5sum''], [''tree''], [''date''], [''hostname''], [''info''], [''lsof''], [''pgrep''],
      [''tput''], [''ss''], [''fd''], [''fdfind''], [''pyright''], [''docker'', ''logs''], [''docker'', ''inspect'']]"

definition pattern_words :: "string list list" where
  "pattern_words =
     [[''docker'', ''ps''], [''docker'', ''images''], [''cal''], [''uptime''], [''cat''], [''head''], [''tail''], [''wc''], [''stat''],
      [''strings''], [''hexdump''], [''od''], [''nl''], [''id''], [''uname''], [''free''], [''df''], [''du''], [''locale''], [''groups''],
      [''nproc''], [''basename''], [''dirname''], [''realpath''], [''cut''], [''paste''], [''tr''], [''column''], [''tac''], [''rev''],
      [''fold''], [''expand''], [''unexpand''], [''fmt''], [''comm''], [''cmp''], [''numfmt''], [''readlink''], [''diff''], [''true''],
      [''false''], [''sleep''], [''which''], [''type''], [''expr''], [''test''], [''getconf''], [''seq''], [''tsort''], [''pr''],
      [''echo''], [''claude'', ''-h''], [''claude'', ''--help''], [''uniq''], [''pwd''], [''whoami''], [''node'', ''-v''],
      [''node'', ''--version''], [''python'', ''--version''], [''python3'', ''--version''], [''history''], [''alias''], [''arch''],
      [''ip'', ''addr''], [''ifconfig''], [''jq''], [''cd''], [''ls''], [''find'']]"

lemma words_of_names: "map name_words TABLE_NAMES = table_words" "map name_words PATTERN_NAMES = pattern_words"
  by code_simp+

lemma words_disjoint: "list_all (\<lambda>p. list_all (\<lambda>n. \<not> compatible p n) table_words) pattern_words"
  by code_simp

lemma names_disjoint: "list_all (\<lambda>p. list_all (\<lambda>n. \<not> compatible (name_words p) (name_words n)) TABLE_NAMES) PATTERN_NAMES"
  using words_disjoint by (simp add: words_of_names [symmetric] list_all_iff)

lemma find_no_pattern: "list_all (\<lambda>p. fst p \<noteq> ''find'') READ_ONLY_REGEXES"
  by code_simp

lemma find_compatible: "list_all (\<lambda>p. compatible [''find''] p \<longrightarrow> p = [''find'']) pattern_words"
  by code_simp

lemma begins_compatible: "begins_with tokens p \<Longrightarrow> begins_with tokens n \<Longrightarrow> compatible (name_words p) (name_words n)"
  unfolding begins_with_def compatible_def by (metis take_take min.commute)

lemma find_member: "List.find P xs = Some x \<Longrightarrow> x \<in> set xs \<and> P x"
  by (auto simp: find_Some_iff)

lemma table_name:
  assumes "commandSpecFor win32 tokens = Some (spec, n)"
  shows "\<exists>name. (name, spec) \<in> set COMMAND_SPECS \<and> begins_with tokens name \<and> n = length (name_words name)"
proof -
  obtain leading where f: "List.find (\<lambda>(leading, spec). take (length leading) tokens = leading \<and> \<not> (hd leading = ''xargs'' \<and> win32)) SPEC_LEADING_WORDS
      = Some (leading, spec)" "n = length leading"
    using assms unfolding commandSpecFor_def by (auto simp only: map_option_eq_Some split: prod.splits)
  from find_member [OF f(1)] have "(leading, spec) \<in> set SPEC_LEADING_WORDS" "take (length leading) tokens = leading" by simp_all
  then obtain name where "(name, spec) \<in> set COMMAND_SPECS" "leading = split_on (CHR '' '') name"
    unfolding SPEC_LEADING_WORDS_def by auto
  then show ?thesis
    using f(2) \<open>take (length leading) tokens = leading\<close> unfolding begins_with_def name_words_def by blast
qed

lemma name_words_ne: "name_words name \<noteq> []"
  by (simp add: name_words_def)

lemma name_words_join: "join_with '' '' (name_words name) = name"
  by (simp add: name_words_def split_on_join)

lemma pattern_name:
  assumes "good_command c" "sc_words c \<noteq> []" "passesSecurityValidators (sc_text c)" "matchesReadOnlyPattern c"
  shows "\<exists>name \<in> set PATTERN_NAMES. begins_with (map bw_value (sc_words c)) name \<and> (name = ''find'' \<longrightarrow> findOnlyLists c)"
proof (cases "findOnlyLists c")
  case True
  then have "bw_raw (hd (sc_words c)) = ''find''" by (simp add: findOnlyLists_def)
  then have "take (length [''find'']) (map bw_raw (sc_words c)) = [''find'']" using assms(2) by (cases "sc_words c") auto
  moreover have "list_all plain_name [''find'']" by code_simp
  ultimately have "take (length [''find'']) (map bw_value (sc_words c)) = [''find'']" using values_begin [OF assms(1)] by blast
  moreover have "name_words ''find'' = [''find'']" by code_simp
  ultimately show ?thesis using True by (auto simp: PATTERN_NAMES_def begins_with_def)
next
  case False
  then obtain p where p: "p \<in> set READ_ONLY_REGEXES" "pattern_test p (sc_text c)"
    using assms(4) by (auto simp: matchesReadOnlyPattern_def list_ex_iff)
  obtain name tail refused where p': "p = (name, tail, refused)" by (cases p)
  have n: "name \<in> set PATTERN_NAMES" using p(1) p' by (force simp: PATTERN_NAMES_def)
  have plain: "list_all plain_name (name_words name)" using pattern_names_plain n by (simp add: list_all_iff)
  obtain t where t: "sc_text c = name @ t" "t = [] \<or> (\<exists>b u. t = b # u \<and> b \<in> {CHR '' '', TAB, newline})"
    using pattern_text [OF p(1)[unfolded p'] p(2)[unfolded p']] checked_blanks [OF assms(3)] by (metis append_Nil2 in_set_conv_decomp)
  have good: "list_all one_word (map bw_raw (sc_words c))" "sc_text c = join_with '' '' (map bw_raw (sc_words c))"
    using assms(1) by (auto simp: good_command_def good_word_def list_all_iff)
  have "take (length (name_words name)) (map bw_raw (sc_words c)) = name_words name"
    by (rule words_begin [OF good(1) plain name_words_ne]) (use good(2) t name_words_join in auto)
  then have "begins_with (map bw_value (sc_words c)) name"
    unfolding begins_with_def by (rule values_begin [OF assms(1) plain])
  moreover have "name \<noteq> ''find''" using find_no_pattern p(1) p' by (auto simp: list_all_iff)
  ultimately show ?thesis using n by blast
qed

subsection \<open>What an accepted command can run\<close>

lemma accepted:
  assumes "isBashCommandReadOnly win32 entryKind command ctx"
  obtains commands where "readSimpleCommands (joinLineContinuations command) = Some commands" "commands \<noteq> []"
    "\<And>c. c \<in> set commands \<Longrightarrow> good_command c \<and> sc_words c \<noteq> [] \<and> passesSecurityValidators (sc_text c) \<and> isSimpleCommandReadOnly win32 c"
proof -
  let ?r = "readSimpleCommands (joinLineContinuations command)"
  have a: "the_default [] ?r \<noteq> []"
    "list_all (\<lambda>c. passesSecurityValidators (sc_text c) \<and> isSimpleCommandReadOnly win32 c) (the_default [] ?r)"
    using assms unfolding isBashCommandReadOnly_def Let_def by blast+
  then obtain commands where r: "?r = Some commands" by (cases ?r) auto
  with a commands_good [OF r] show thesis using that by (auto simp: list_all_iff)
qed

text \<open>A command begins with a name of the table and passed it, or with a name of the patterns and passed them.\<close>

lemma recognised:
  assumes "good_command c" "sc_words c \<noteq> []" "passesSecurityValidators (sc_text c)" "isSimpleCommandReadOnly win32 c"
  obtains (by_table) name where "name \<in> set TABLE_NAMES" "begins_with (map bw_value (sc_words c)) name" "isSafeViaFlagAllowlist win32 c"
  | (by_pattern) name where "name \<in> set PATTERN_NAMES" "begins_with (map bw_value (sc_words c)) name" "matchesReadOnlyPattern c"
      "name = ''find'' \<Longrightarrow> findOnlyLists c"
proof (cases "isSafeViaFlagAllowlist win32 c")
  case True
  then obtain spec n where "commandSpecFor win32 (map bw_value (sc_words c)) = Some (spec, n)"
    unfolding isSafeViaFlagAllowlist_def Let_def by (auto split: option.splits)
  from table_name [OF this] show thesis using by_table True by (force simp: table_names [symmetric])
next
  case False
  then have "matchesReadOnlyPattern c" using assms(4) by (simp add: isSimpleCommandReadOnly_def)
  from pattern_name [OF assms(1-3) this] this show thesis using by_pattern by blast
qed

lemma set_joined: "c \<in> set (joinLineContinuations s) \<Longrightarrow> c \<in> set s"
  unfolding joinLineContinuations_bash_join by (induction s rule: bash_join.induct) (auto split: if_splits)

text \<open>
  C18: an accepted command runs nothing but listed programs. When a command line is found read-only, its text (line continuations joined) is, character by
  character, blanks, words, separators and redirections that throw output away, and the commands between the separators are exactly the ones the reader
  returned. The items stand as bash tells them apart: a word or the target of a redirection is followed by a blank, a separator or a redirection without
  a descriptor, and a line break outside quotes is followed by blanks only. Every one of the commands begins, after quote removal, with the words of a
  name of the flag table or of the read-only patterns. So no other program, no other git or docker subcommand and no redirection to a file can hide in it;
  what \<^verbatim>\<open>xargs\<close> runs in turn is the subject of another property.
\<close>

theorem accepted_runs_listed_programs:
  assumes "isBashCommandReadOnly win32 entryKind command ctx"
  shows "\<exists>items. concat (map show_item items) = joinLineContinuations command \<and> list_all item_ok items \<and> spaced items
    \<and> breaks_last (lx_cells (lex_command (joinLineContinuations command)))
    \<and> list_all (\<lambda>ch. is_ws ch \<longrightarrow> ch \<in> {CHR '' '', TAB, newline}) (joinLineContinuations command)
    \<and> readSimpleCommands (joinLineContinuations command) = Some (commands_of items) \<and> commands_of items \<noteq> []
    \<and> (\<forall>c \<in> set (commands_of items). sc_words c \<noteq> [] \<and> list_ex (begins_with (map bw_value (sc_words c))) (TABLE_NAMES @ PATTERN_NAMES))"
proof -
  obtain commands where c: "readSimpleCommands (joinLineContinuations command) = Some commands" "commands \<noteq> []"
    "\<And>c. c \<in> set commands \<Longrightarrow> good_command c \<and> sc_words c \<noteq> [] \<and> passesSecurityValidators (sc_text c) \<and> isSimpleCommandReadOnly win32 c"
    by (rule accepted [OF assms]) blast
  obtain items where i: "concat (map show_item items) = joinLineContinuations command" "list_all item_ok items" "spaced items" "commands_of items = commands"
    using reader_accounts [OF c(1)] by blast
  have "passesSecurityValidators command" using assms by (simp add: isBashCommandReadOnly_def WHOLE_TEXT_REFUSALS_def)
  then have ws: "list_all (\<lambda>ch. is_ws ch \<longrightarrow> ch \<in> {CHR '' '', TAB, newline}) (joinLineContinuations command)"
    using checked_blanks set_joined by (auto simp: list_all_iff simp del: insert_iff)
  have "list_ex (begins_with (map bw_value (sc_words s))) (TABLE_NAMES @ PATTERN_NAMES)" if "s \<in> set commands" for s
  proof -
    have s: "good_command s" "sc_words s \<noteq> []" "passesSecurityValidators (sc_text s)" "isSimpleCommandReadOnly win32 s" using c(3) [OF that] by simp_all
    then show ?thesis by (cases rule: recognised) (auto simp: list_ex_iff)
  qed
  then show ?thesis using i c ws readSimpleCommands_breaks [OF c(1)] by (intro exI [of _ items]) simp
qed

text \<open>
  C19: find only lists. In an accepted command line, no word of a \<^verbatim>\<open>find\<close> command holds, after quote removal, an action that deletes, executes or writes a
  file, however the word was quoted.
\<close>

theorem accepted_find_never_acts:
  assumes "isBashCommandReadOnly win32 entryKind command ctx"
    and "c \<in> set (the_default [] (readSimpleCommands (joinLineContinuations command)))" and "bw_value (hd (sc_words c)) = ''find''"
  shows "\<forall>w \<in> set (sc_words c). \<not> has_find_action (bw_value w)"
proof -
  obtain commands where r: "readSimpleCommands (joinLineContinuations command) = Some commands"
    "\<And>c. c \<in> set commands \<Longrightarrow> good_command c \<and> sc_words c \<noteq> [] \<and> passesSecurityValidators (sc_text c) \<and> isSimpleCommandReadOnly win32 c"
    using accepted [OF assms(1)] by metis
  have s: "good_command c" "sc_words c \<noteq> []" "passesSecurityValidators (sc_text c)" "isSimpleCommandReadOnly win32 c"
    using r assms(2) by simp_all
  have b: "begins_with (map bw_value (sc_words c)) ''find''"
    using assms(3) s(2) by (cases "sc_words c") (auto simp: begins_with_def name_words_def)
  from s show ?thesis
  proof (cases rule: recognised)
    case (by_table name)
    then show ?thesis using begins_compatible [OF b by_table(2)] names_disjoint by (auto simp: list_all_iff PATTERN_NAMES_def)
  next
    case (by_pattern name)
    have n: "name_words name \<in> set pattern_words" using by_pattern(1) words_of_names(2) by (metis imageI list.set_map)
    have "compatible [''find''] (name_words name)" using begins_compatible [OF b by_pattern(2)] by (simp add: name_words_def)
    then have "name_words name = [''find'']" using find_compatible n by (auto simp: list_all_iff)
    then have "name = ''find''" using name_words_join [of name] by simp
    then show ?thesis using by_pattern(4) by (simp add: findOnlyLists_def Let_def list_all_iff)
  qed
qed

text \<open>
  A command of the table carries only options of the table. When an accepted simple command begins with the words of a table entry, every option
  read from its words is a flag of that entry with no value or a value of the declared kind, or a cluster its flags cover; for an entry whose command keeps
  reading options after \<open>--\<close> the words after it are included; the entry's own check on the arguments did not fire. For \<^verbatim>\<open>xargs\<close> the options
  are those before the first operand, and that operand, the program it runs, is one of the safe targets.
\<close>

theorem accepted_options_in_table:
  assumes "isBashCommandReadOnly win32 entryKind command ctx"
    and "c \<in> set (the_default [] (readSimpleCommands (joinLineContinuations command)))" and "tokens = map bw_value (sc_words c)"
    and "commandSpecFor win32 tokens = Some (spec, n)"
  shows "\<not> cs_dangerous spec (sc_text c) (drop n tokens)
    \<and> list_all (use_ok (cs_flags spec) (hd tokens))
        (options_read (hd tokens = ''xargs'' \<or> cs_respectsDoubleDash spec) (hd tokens = ''xargs'') (drop n tokens) (cs_flags spec))
    \<and> (hd tokens = ''xargs'' \<longrightarrow> (case operandsOf (drop n tokens) (cs_flags spec) of [] \<Rightarrow> True | target # _ \<Rightarrow> target \<in> set XARGS_SAFE_TARGETS))"
proof -
  obtain commands where r: "readSimpleCommands (joinLineContinuations command) = Some commands"
    "\<And>c. c \<in> set commands \<Longrightarrow> good_command c \<and> sc_words c \<noteq> [] \<and> passesSecurityValidators (sc_text c) \<and> isSimpleCommandReadOnly win32 c"
    using accepted [OF assms(1)] by metis
  have s: "good_command c" "sc_words c \<noteq> []" "passesSecurityValidators (sc_text c)" "isSimpleCommandReadOnly win32 c"
    using r assms(2) by simp_all
  obtain entry where e: "entry \<in> set TABLE_NAMES" "begins_with tokens entry"
    using table_name [OF assms(4)] by (force simp: table_names [symmetric])
  from s have "isSafeViaFlagAllowlist win32 c"
  proof (cases rule: recognised)
    case (by_pattern name)
    then show ?thesis using begins_compatible [OF by_pattern(2) [folded assms(3)] e(2)] names_disjoint e(1) by (auto simp: list_all_iff)
  qed
  then have a: "\<not> cs_dangerous spec (sc_text c) (drop n tokens)"
    "if hd tokens = ''xargs'' then xargsAllowed (drop n tokens) spec else optionsAllowed (drop n tokens) spec (hd tokens)"
    using assms(3,4) by (simp_all add: isSafeViaFlagAllowlist_def Let_def)
  show ?thesis
  proof (cases "hd tokens = ''xargs''")
    case True
    then show ?thesis using a xargs_options [of "drop n tokens" spec] xargs_target [of "drop n tokens" spec]
      by (simp add: partitionArguments_def operandsOf_def)
  next
    case False
    then show ?thesis using a options_from_table [of "drop n tokens" spec "hd tokens"] by simp
  qed
qed

end
