(* ===== verification/Bash_Sessions.thy ===== *)
theory Bash_Sessions
  imports Bash_Safety
begin

text \<open>
  Accepted command lines on concrete texts: a pipe into \<^verbatim>\<open>xargs\<close> and a \<^verbatim>\<open>find\<close>, in a directory where nothing
  is found by \<open>stat\<close>. The properties of \<open>Bash_Safety\<close> are applied here.
\<close>

definition plain_context :: read_only_context where
  "plain_context = \<lparr>bc_cwd = ''/w'', bc_originalCwd = ''/w'', bc_sandboxEnabled = False\<rparr>"

definition empty_disk :: "string \<Rightarrow> entry_kind" where
  "empty_disk path = MissingEntry"

text \<open>The parts of the decision, one by one.\<close>

lemma acceptedI:
  assumes "length command \<le> 4096" "trim command \<noteq> []" "splitCompound command \<noteq> None" "passesSecurityValidators command"
    and "joinLineContinuations command = command" "substitutionBodies command False = Some []"
    and "readSimpleCommands command = Some commands" "commands \<noteq> []" "\<not> list_ex (\<lambda>c. ''git'' \<in> set (programsRunBy c)) commands"
    and "list_all (\<lambda>c. passesSecurityValidators (sc_text c)) commands" "list_all (isSimpleCommandReadOnly False) commands"
  shows "isBashCommandReadOnly False entryKind command ctx"
  using assms
  by (simp add: isBashCommandReadOnly_def WHOLE_TEXT_REFUSALS_def READ_ONLY_LENGTH_LIMIT_def PARSE_LIMIT_def containsVulnerableUncPath_def
      gitRunsUnsafely_def list_all_iff list_ex_iff)

abbreviation find_here :: simple_command where
  "find_here \<equiv> command_of [word_of ''find'', word_of ''.'']"

abbreviation list_here :: simple_command where
  "list_here \<equiv> command_of [word_of ''ls'']"

abbreviation count_each :: simple_command where
  "count_each \<equiv> command_of [word_of ''xargs'', word_of ''-n'', word_of ''1'', word_of ''wc'']"

lemma simple_accepted:
  "isSimpleCommandReadOnly False find_here" "isSimpleCommandReadOnly False list_here" "isSimpleCommandReadOnly False count_each"
  by code_simp+

lemma simple_checked:
  "passesSecurityValidators (sc_text find_here)" "passesSecurityValidators (sc_text list_here)" "passesSecurityValidators (sc_text count_each)"
  by code_simp+

lemma simple_programs:
  "programsRunBy find_here = [''find'', ''find'']" "programsRunBy list_here = [''ls'', ''ls'']"
  "''git'' \<notin> set (programsRunBy count_each)"
  by code_simp+

lemma find_read: "readSimpleCommands ''find .'' = Some [find_here]" and find_joined: "joinLineContinuations ''find .'' = ''find .''"
  by code_simp+

lemma find_accepted: "isBashCommandReadOnly False empty_disk ''find .'' plain_context"
proof (rule acceptedI [OF _ _ _ _ find_joined _ find_read])
  show "splitCompound ''find .'' \<noteq> None" "trim ''find .'' \<noteq> []" "substitutionBodies ''find .'' False = Some []"
    "passesSecurityValidators ''find .''"
    by code_simp+
qed (simp_all add: simple_accepted simple_checked simple_programs)

lemma xargs_read: "readSimpleCommands ''ls | xargs -n 1 wc'' = Some [list_here, count_each]"
  and xargs_joined: "joinLineContinuations ''ls | xargs -n 1 wc'' = ''ls | xargs -n 1 wc''"
  by code_simp+

lemma xargs_accepted: "isBashCommandReadOnly False empty_disk ''ls | xargs -n 1 wc'' plain_context"
proof (rule acceptedI [OF _ _ _ _ xargs_joined _ xargs_read])
  show "splitCompound ''ls | xargs -n 1 wc'' \<noteq> None" "trim ''ls | xargs -n 1 wc'' \<noteq> []"
    "substitutionBodies ''ls | xargs -n 1 wc'' False = Some []" "passesSecurityValidators ''ls | xargs -n 1 wc''"
    by code_simp+
qed (simp_all add: simple_accepted simple_checked simple_programs)

theorem accepted_runs_listed_programs_witness:
  "\<exists>items. concat (map show_item items) = ''ls | xargs -n 1 wc'' \<and> list_all item_ok items
    \<and> (\<forall>c \<in> set (commands_of items). list_ex (begins_with (map bw_value (sc_words c))) (TABLE_NAMES @ PATTERN_NAMES))"
  using accepted_runs_listed_programs [OF xargs_accepted] unfolding xargs_joined by blast

theorem accepted_find_never_acts_witness:
  "\<not> has_find_action (bw_value (word_of ''find'')) \<and> \<not> has_find_action (bw_value (word_of ''.''))"
proof -
  have m: "find_here \<in> set (the_default [] (readSimpleCommands (joinLineContinuations ''find .'')))"
    by (simp add: find_joined find_read)
  have f: "bw_value (hd (sc_words find_here)) = ''find''" by code_simp
  from accepted_find_never_acts [OF find_accepted m f] show ?thesis by (simp add: command_of_def)
qed

theorem accepted_options_in_table_witness:
  "operandsOf [''-n'', ''1'', ''wc''] (cs_flags (snd xargs_spec)) = [''wc''] \<and> ''wc'' \<in> set XARGS_SAFE_TARGETS"
proof -
  let ?t = "[''xargs'', ''-n'', ''1'', ''wc'']"
  have m: "count_each \<in> set (the_default [] (readSimpleCommands (joinLineContinuations ''ls | xargs -n 1 wc'')))"
    by (simp add: xargs_joined xargs_read)
  have v: "?t = map bw_value (sc_words count_each)" by code_simp
  have s: "commandSpecFor False ?t = Some (snd xargs_spec, 1)"
    by (simp add: commandSpecFor_def SPEC_LEADING_WORDS_def COMMAND_SPECS_def xargs_spec_def)
  have o: "operandsOf [''-n'', ''1'', ''wc''] (cs_flags (snd xargs_spec)) = [''wc'']" by code_simp
  from accepted_options_in_table [OF xargs_accepted m v s] o show ?thesis by simp
qed

end
