(* ===== verification/Hook_Registry.thy ===== *)
theory Hook_Registry
  imports Rule_Match Json_Text
begin

text \<open>
  The registry of hooks (\<^verbatim>\<open>hooks/registry.ts\<close>): the events, the registrations with their sources, the matcher language and the list a registry is, sorted by
  source and without the untrusted project's entries. The constructor of regular expressions is the parameter \<open>regex\<close>: an error text, or the test
  of the pattern on a text.
\<close>

subsection \<open>Events and registrations\<close>

datatype hook_event =
    PreToolUse | PostToolUse | PostToolUseFailure | UserPromptSubmit | Stop | SubagentStart | SubagentStop
  | PreCompact | PermissionRequest | Notification | PostToolBatch | UserPromptExpansion | MessageDisplay | StopFailure
  | PostCompact | PermissionDenied | SessionStart | SessionEnd | Setup | TeammateIdle | TaskCreated
  | TaskCompleted | Elicitation | ElicitationResult | ConfigChange | InstructionsLoaded | WorktreeCreate | WorktreeRemove
  | CwdChanged | FileChanged | DirectoryAdded

fun event_name :: "hook_event \<Rightarrow> string" where
  "event_name PreToolUse = ''PreToolUse''"
| "event_name PostToolUse = ''PostToolUse''"
| "event_name PostToolUseFailure = ''PostToolUseFailure''"
| "event_name UserPromptSubmit = ''UserPromptSubmit''"
| "event_name Stop = ''Stop''"
| "event_name SubagentStart = ''SubagentStart''"
| "event_name SubagentStop = ''SubagentStop''"
| "event_name PreCompact = ''PreCompact''"
| "event_name PermissionRequest = ''PermissionRequest''"
| "event_name Notification = ''Notification''"
| "event_name PostToolBatch = ''PostToolBatch''"
| "event_name UserPromptExpansion = ''UserPromptExpansion''"
| "event_name MessageDisplay = ''MessageDisplay''"
| "event_name StopFailure = ''StopFailure''"
| "event_name PostCompact = ''PostCompact''"
| "event_name PermissionDenied = ''PermissionDenied''"
| "event_name SessionStart = ''SessionStart''"
| "event_name SessionEnd = ''SessionEnd''"
| "event_name Setup = ''Setup''"
| "event_name TeammateIdle = ''TeammateIdle''"
| "event_name TaskCreated = ''TaskCreated''"
| "event_name TaskCompleted = ''TaskCompleted''"
| "event_name Elicitation = ''Elicitation''"
| "event_name ElicitationResult = ''ElicitationResult''"
| "event_name ConfigChange = ''ConfigChange''"
| "event_name InstructionsLoaded = ''InstructionsLoaded''"
| "event_name WorktreeCreate = ''WorktreeCreate''"
| "event_name WorktreeRemove = ''WorktreeRemove''"
| "event_name CwdChanged = ''CwdChanged''"
| "event_name FileChanged = ''FileChanged''"
| "event_name DirectoryAdded = ''DirectoryAdded''"

datatype hook_source = HookManaged | HookUser | HookProject | HookLocal | HookSdk | HookPlugin

record sourced_hook_entry =
  hk_id :: string
  hk_name :: "string option"
  hk_event :: hook_event
  hk_matcher :: "string option"
  hk_source :: hook_source
  hk_timeoutMs :: "nat option"
  hk_command :: "string option"
  hk_failClosed :: bool
  hk_pluginRoot :: "string option"
  hk_async :: bool

definition TOOL_SCOPED_HOOK_EVENTS :: "hook_event list" where
  "TOOL_SCOPED_HOOK_EVENTS = [PreToolUse, PostToolUse, PostToolUseFailure, PostToolBatch, PermissionRequest]"

definition isToolScopedHookEvent :: "hook_event \<Rightarrow> bool" where
  "isToolScopedHookEvent e \<longleftrightarrow> e \<in> set TOOL_SCOPED_HOOK_EVENTS"

definition MATCHER_SUBJECT_FIELD :: "hook_event \<Rightarrow> string option" where
  "MATCHER_SUBJECT_FIELD e =
     (case e of
        SessionStart \<Rightarrow> Some ''source''
      | SubagentStart \<Rightarrow> Some ''agent_type''
      | SubagentStop \<Rightarrow> Some ''agent_type''
      | PreCompact \<Rightarrow> Some ''trigger''
      | PostCompact \<Rightarrow> Some ''trigger''
      | Notification \<Rightarrow> Some ''notification_type''
      | _ \<Rightarrow> None)"

fun SOURCE_RANK :: "hook_source \<Rightarrow> nat" where
  "SOURCE_RANK HookManaged = 0"
| "SOURCE_RANK HookUser = 1"
| "SOURCE_RANK HookProject = 2"
| "SOURCE_RANK HookLocal = 3"
| "SOURCE_RANK HookSdk = 4"
| "SOURCE_RANK HookPlugin = 5"

subsection \<open>Matchers\<close>

type_synonym regex_engine = "string \<Rightarrow> string + (string \<Rightarrow> bool)"

definition name_list_char :: "char \<Rightarrow> bool" where
  "name_list_char c \<longleftrightarrow> is_name_char c \<or> c \<in> set ''|, -''"

definition NAME_LIST_MATCHER :: "string \<Rightarrow> bool" where
  "NAME_LIST_MATCHER s \<longleftrightarrow> s \<noteq> [] \<and> list_all name_list_char s"

definition winter_glob_char :: "char \<Rightarrow> bool" where
  "winter_glob_char c \<longleftrightarrow> is_name_char c \<or> c \<in> set ''*-''"

definition WINTER_GLOB_MATCHER :: "string \<Rightarrow> bool" where
  "WINTER_GLOB_MATCHER s \<longleftrightarrow>
     (let b = takeWhile winter_glob_char s; after = dropWhile winter_glob_char s in b \<noteq> [] \<and> (after = [] \<or> after = ''(*)''))"

record compiled_matcher =
  cm_test :: "string \<Rightarrow> bool"
  cm_invalid :: bool

definition matcher_names :: "string \<Rightarrow> string list" where
  "matcher_names matcher = filter (\<lambda>n. n \<noteq> []) (map trim (concat (map (split_on (CHR '','')) (split_on (CHR ''|'') matcher))))"

definition bare_call :: "string \<Rightarrow> tool_call" where
  "bare_call name = \<lparr>call_toolName = name, call_input = (\<lambda>_. None)\<rparr>"

definition compileMatcher :: "url_parser \<Rightarrow> regex_engine \<Rightarrow> string \<Rightarrow> compiled_matcher" where
  "compileMatcher url regex matcher =
     (if matcher = ''*'' then \<lparr>cm_test = (\<lambda>_. True), cm_invalid = False\<rparr>
      else if NAME_LIST_MATCHER matcher then \<lparr>cm_test = (\<lambda>t. t \<in> set (matcher_names matcher)), cm_invalid = False\<rparr>
      else if WINTER_GLOB_MATCHER matcher \<and> isBareEquivalent (parseRule url matcher) then
        \<lparr>cm_test = (\<lambda>t. matchesRule url (parseRule url matcher) (bare_call t) DenyAsk), cm_invalid = False\<rparr>
      else
        (case regex matcher of
           Inl _ \<Rightarrow> \<lparr>cm_test = (\<lambda>_. False), cm_invalid = True\<rparr>
         | Inr test \<Rightarrow> \<lparr>cm_test = test, cm_invalid = False\<rparr>))"

definition matcherApplies :: "sourced_hook_entry \<Rightarrow> compiled_matcher option \<Rightarrow> string option \<Rightarrow> bool" where
  "matcherApplies entry compiled subject =
     (case compiled of
        None \<Rightarrow> True
      | Some c \<Rightarrow>
          if cm_invalid c \<and> hk_failClosed entry then True
          else (case subject of None \<Rightarrow> False | Some t \<Rightarrow> cm_test c t))"

subsection \<open>The registry\<close>

definition normalise_entry :: "sourced_hook_entry \<Rightarrow> sourced_hook_entry" where
  "normalise_entry e = (if hk_matcher e = Some [] then e\<lparr>hk_matcher := None\<rparr> else e)"

definition buildHookRegistry :: "bool \<Rightarrow> sourced_hook_entry list \<Rightarrow> sourced_hook_entry list" where
  "buildHookRegistry trustedWorkspace entries =
     (let normalised = map normalise_entry entries;
          gated = (if trustedWorkspace then normalised else filter (\<lambda>e. hk_source e \<noteq> HookProject \<and> hk_source e \<noteq> HookLocal) normalised)
      in sort_key (\<lambda>e. SOURCE_RANK (hk_source e)) gated)"

definition compiled_for :: "url_parser \<Rightarrow> regex_engine \<Rightarrow> sourced_hook_entry \<Rightarrow> compiled_matcher option" where
  "compiled_for url regex e = map_option (compileMatcher url regex) (hk_matcher e)"

definition matching :: "url_parser \<Rightarrow> regex_engine \<Rightarrow> sourced_hook_entry list \<Rightarrow> hook_event \<Rightarrow> string option \<Rightarrow> sourced_hook_entry list" where
  "matching url regex registry event subject =
     (let forEvent = filter (\<lambda>e. hk_event e = event) registry in
      if isToolScopedHookEvent event \<or> MATCHER_SUBJECT_FIELD event \<noteq> None \<and> subject \<noteq> None
      then filter (\<lambda>e. matcherApplies e (compiled_for url regex e) subject) forEvent
      else forEvent)"

text \<open>The lines written while a registry is built: once for a pattern that does not compile, and once for every fail-closed entry with such a pattern.\<close>

definition invalid_pattern :: "url_parser \<Rightarrow> regex_engine \<Rightarrow> string \<Rightarrow> string option" where
  "invalid_pattern url regex matcher =
     (if cm_invalid (compileMatcher url regex matcher)
      then (case regex matcher of Inl e \<Rightarrow> Some e | Inr _ \<Rightarrow> None) else None)"

fun registry_warnings :: "url_parser \<Rightarrow> regex_engine \<Rightarrow> string list \<Rightarrow> sourced_hook_entry list \<Rightarrow> string list" where
  "registry_warnings url regex seen [] = []"
| "registry_warnings url regex seen (e # es) =
     (if \<not> isToolScopedHookEvent (hk_event e) \<and> MATCHER_SUBJECT_FIELD (hk_event e) = None then registry_warnings url regex seen es
      else
        (case hk_matcher e of
           None \<Rightarrow> registry_warnings url regex seen es
         | Some m \<Rightarrow>
             (case invalid_pattern url regex m of
                None \<Rightarrow> []
              | Some err \<Rightarrow>
                  (if m \<in> set seen then []
                   else [''winter: hook matcher '' @ json_text m @ '' is not a valid regular expression, so its hooks will never run: '' @ err])
                  @ (if hk_failClosed e
                     then [''winter: hook '' @ hk_id e @ '' is fail-closed and its matcher '' @ json_text m
                           @ '' does not compile, so it runs for EVERY '' @ event_name (hk_event e)
                           @ '' call instead of none -- fix the matcher to narrow it'']
                     else []))
             @ registry_warnings url regex (m # seen) es))"

subsection \<open>What a registry guarantees\<close>

lemma matching_event: "e \<in> set (matching url regex registry event subject) \<Longrightarrow> hk_event e = event \<and> e \<in> set registry"
  by (auto simp: matching_def Let_def split: if_splits)

lemma registry_sorted: "sorted (map (\<lambda>e. SOURCE_RANK (hk_source e)) (buildHookRegistry trusted entries))"
  by (simp add: buildHookRegistry_def Let_def)

lemma normalise_fields [simp]:
  "hk_source (normalise_entry e) = hk_source e" "hk_event (normalise_entry e) = hk_event e" "hk_id (normalise_entry e) = hk_id e"
  "hk_failClosed (normalise_entry e) = hk_failClosed e"
  by (simp_all add: normalise_entry_def)

lemma untrusted_excluded: "e \<in> set (buildHookRegistry False entries) \<Longrightarrow> hk_source e \<noteq> HookProject \<and> hk_source e \<noteq> HookLocal"
  by (auto simp: buildHookRegistry_def Let_def)

lemma registered:
  assumes "e \<in> set entries" "trusted \<or> hk_source e \<notin> {HookProject, HookLocal}"
  shows "normalise_entry e \<in> set (buildHookRegistry trusted entries)"
  using assms by (auto simp: buildHookRegistry_def Let_def)

text \<open>The order within one source is the order of registration.\<close>

lemma registration_order:
  "filter (\<lambda>e. hk_source e = s) (buildHookRegistry trusted entries) =
   filter (\<lambda>e. hk_source e = s) (if trusted then map normalise_entry entries
     else filter (\<lambda>e. hk_source e \<noteq> HookProject \<and> hk_source e \<noteq> HookLocal) (map normalise_entry entries))"
proof -
  have inj: "SOURCE_RANK a = SOURCE_RANK b \<longleftrightarrow> a = b" for a b by (cases a; cases b) simp_all
  have "filter (\<lambda>e. SOURCE_RANK (hk_source e) = SOURCE_RANK s) (sort_key (\<lambda>e. SOURCE_RANK (hk_source e)) xs)
      = filter (\<lambda>e. SOURCE_RANK (hk_source e) = SOURCE_RANK s) xs" for xs
    by (rule sort_key_stable)
  then have "filter (\<lambda>e. hk_source e = s) (sort_key (\<lambda>e. SOURCE_RANK (hk_source e)) xs) = filter (\<lambda>e. hk_source e = s) xs"
    for xs :: "sourced_hook_entry list"
    by (simp add: inj)
  then show ?thesis unfolding buildHookRegistry_def Let_def by (simp del: filter_filter)
qed

text \<open>A fail-closed hook on a tool event whose matcher does not compile runs for every call.\<close>

lemma broken_matcher_gates:
  assumes "e \<in> set registry" "isToolScopedHookEvent (hk_event e)" "hk_failClosed e"
    "hk_matcher e = Some m" "cm_invalid (compileMatcher url regex m)"
  shows "e \<in> set (matching url regex registry (hk_event e) subject)"
  using assms by (simp add: matching_def matcherApplies_def compiled_for_def)

lemma unscoped_matches:
  assumes "e \<in> set registry" "hk_matcher e = None"
  shows "e \<in> set (matching url regex registry (hk_event e) subject)"
  using assms by (simp add: matching_def matcherApplies_def compiled_for_def Let_def)

end
