(* ===== verification/Hook_Reducer.thy ===== *)
theory Hook_Reducer
  imports Hook_Registry Ruleset
begin

text \<open>
  The reducer of hook outcomes (\<^verbatim>\<open>hooks/reducer.ts\<close>): the outcomes of the hooks of one event, in their order, become one composite. The strictest decision
  wins and brings its message; transforms chain over the entries no stricter decision overrode; contexts, notices and block reasons accumulate. The contributions
  of the outcomes are texts and JSON values, as the interpreters of the runner produce them; permission updates are JSON values here.
\<close>

subsection \<open>Outcomes and the composite\<close>

datatype hook_permission_decision = PermAllow | PermAsk | PermDefer | PermDeny

record hook_outcome_fields =
  of_transformedInput :: "json option"
  of_transformedOutput :: "json option"
  of_extraContext :: "string option"
  of_classifierContext :: "string option"
  of_message :: "string option"
  of_interrupt :: "bool option"
  of_updatedPermissions :: "json list option"
  of_blockReason :: "string option"
  of_preventContinuation :: bool
  of_stopReason :: "string option"
  of_systemMessage :: "string option"
  of_suppressOutput :: bool

definition no_fields :: hook_outcome_fields where
  "no_fields =
     \<lparr>of_transformedInput = None, of_transformedOutput = None, of_extraContext = None, of_classifierContext = None, of_message = None,
      of_interrupt = None, of_updatedPermissions = None, of_blockReason = None, of_preventContinuation = False, of_stopReason = None,
      of_systemMessage = None, of_suppressOutput = False\<rparr>"

datatype hook_outcome =
    DecisionOutcome hook_permission_decision hook_outcome_fields
  | NoneOutcome hook_outcome_fields
  | ErrorOutcome "string option" "string option"
  | TimeoutOutcome
  | SkippedOutcome

datatype hook_invocation_outcome = DecisionKind | NoneKind | ErrorKind | TimeoutKind | SkippedKind

fun lifecycleOutcomeOf :: "hook_outcome \<Rightarrow> hook_invocation_outcome" where
  "lifecycleOutcomeOf (DecisionOutcome _ _) = DecisionKind"
| "lifecycleOutcomeOf (NoneOutcome _) = NoneKind"
| "lifecycleOutcomeOf (ErrorOutcome _ _) = ErrorKind"
| "lifecycleOutcomeOf TimeoutOutcome = TimeoutKind"
| "lifecycleOutcomeOf SkippedOutcome = SkippedKind"

record attributed_text =
  ac_hookId :: string
  ac_hookName :: "string option"
  ac_context :: string

record hook_lifecycle_record =
  lm_hookId :: string
  lm_hookName :: "string option"
  lm_event :: hook_event
  lm_matchedMatcher :: "string option"
  lm_source :: hook_source
  lm_outcome :: hook_invocation_outcome
  lm_decision :: "hook_permission_decision option"

record stop_request =
  sr_hookId :: string
  sr_hookName :: "string option"
  sr_reason :: "string option"

record hook_composite =
  hc_decision :: "hook_permission_decision option"
  hc_transformedInput :: "json option"
  hc_transformedOutput :: "json option"
  hc_extraContext :: "attributed_text list"
  hc_classifierContext :: "attributed_text list"
  hc_message :: "string option"
  hc_interrupt :: "bool option"
  hc_updatedPermissions :: "json list option"
  hc_blockReasons :: "attributed_text list"
  hc_systemMessages :: "attributed_text list"
  hc_preventContinuation :: "stop_request option"
  hc_lifecycleMessages :: "hook_lifecycle_record list"

type_synonym hook_outcome_entry = "sourced_hook_entry \<times> hook_outcome"

fun RANK :: "hook_permission_decision \<Rightarrow> nat" where
  "RANK PermAllow = 0"
| "RANK PermAsk = 1"
| "RANK PermDefer = 2"
| "RANK PermDeny = 3"

subsection \<open>The fold\<close>

definition decision_of :: "hook_outcome \<Rightarrow> hook_permission_decision option" where
  "decision_of o' = (case o' of DecisionOutcome d _ \<Rightarrow> Some d | _ \<Rightarrow> None)"

definition contribution :: "hook_outcome \<Rightarrow> hook_outcome_fields option" where
  "contribution o' = (case o' of DecisionOutcome _ f \<Rightarrow> Some f | NoneOutcome f \<Rightarrow> Some f | _ \<Rightarrow> None)"

definition lifecycle_record :: "hook_outcome_entry \<Rightarrow> hook_lifecycle_record" where
  "lifecycle_record x =
     (case x of (p, o') \<Rightarrow>
        \<lparr>lm_hookId = hk_id p, lm_hookName = hk_name p, lm_event = hk_event p, lm_matchedMatcher = hk_matcher p, lm_source = hk_source p,
         lm_outcome = lifecycleOutcomeOf o', lm_decision = decision_of o'\<rparr>)"

definition attributed :: "sourced_hook_entry \<Rightarrow> string option \<Rightarrow> attributed_text list" where
  "attributed p v = (case v of Some c \<Rightarrow> [\<lparr>ac_hookId = hk_id p, ac_hookName = hk_name p, ac_context = c\<rparr>] | None \<Rightarrow> [])"

text \<open>The first pass. The winning rank is \<open>None\<close> before the first decision.\<close>

definition winner_rank :: "hook_composite \<Rightarrow> nat option" where
  "winner_rank c = map_option RANK (hc_decision c)"

definition beats :: "hook_permission_decision \<Rightarrow> hook_composite \<Rightarrow> bool" where
  "beats d c \<longleftrightarrow> (case winner_rank c of None \<Rightarrow> True | Some r \<Rightarrow> RANK d > r)"

definition contribute :: "sourced_hook_entry \<Rightarrow> hook_outcome_fields \<Rightarrow> hook_composite \<Rightarrow> hook_composite" where
  "contribute p f c =
     c\<lparr>hc_extraContext := hc_extraContext c @ attributed p (of_extraContext f),
       hc_classifierContext := hc_classifierContext c @ attributed p (of_classifierContext f),
       hc_blockReasons := hc_blockReasons c @ attributed p (of_blockReason f),
       hc_systemMessages := hc_systemMessages c @ attributed p (of_systemMessage f),
       hc_preventContinuation :=
         (if of_preventContinuation f \<and> hc_preventContinuation c = None
          then Some \<lparr>sr_hookId = hk_id p, sr_hookName = hk_name p, sr_reason = of_stopReason f\<rparr>
          else hc_preventContinuation c)\<rparr>"

definition take_decision :: "hook_permission_decision \<Rightarrow> hook_outcome_fields \<Rightarrow> hook_composite \<Rightarrow> hook_composite" where
  "take_decision d f c =
     (if beats d c
      then c\<lparr>hc_decision := Some d, hc_message := of_message f, hc_interrupt := of_interrupt f, hc_updatedPermissions := of_updatedPermissions f\<rparr>
      else c)"

definition first_pass :: "hook_outcome_entry \<Rightarrow> hook_composite \<Rightarrow> hook_composite" where
  "first_pass x c =
     (let p = fst x; c1 = c\<lparr>hc_lifecycleMessages := hc_lifecycleMessages c @ [lifecycle_record x]\<rparr> in
      case snd x of
        DecisionOutcome d f \<Rightarrow> take_decision d f (contribute p f c1)
      | NoneOutcome f \<Rightarrow> contribute p f c1
      | _ \<Rightarrow> c1)"

text \<open>The second pass: the transforms of the entries no stricter decision overrode.\<close>

definition chains :: "hook_permission_decision option \<Rightarrow> hook_outcome \<Rightarrow> bool" where
  "chains winner o' =
     (case o' of
        NoneOutcome _ \<Rightarrow> True
      | DecisionOutcome d _ \<Rightarrow> Some (RANK d) = map_option RANK winner
      | _ \<Rightarrow> False)"

definition latest :: "'a option \<Rightarrow> 'a option \<Rightarrow> 'a option" where
  "latest new old = (case new of Some v \<Rightarrow> Some v | None \<Rightarrow> old)"

definition second_pass :: "hook_outcome_entry \<Rightarrow> hook_composite \<Rightarrow> hook_composite" where
  "second_pass x c =
     (case contribution (snd x) of
        None \<Rightarrow> c
      | Some f \<Rightarrow>
          if \<not> chains (hc_decision c) (snd x) then c
          else c\<lparr>hc_transformedInput := latest (of_transformedInput f) (hc_transformedInput c),
                 hc_transformedOutput := latest (of_transformedOutput f) (hc_transformedOutput c)\<rparr>)"

definition empty_composite :: hook_composite where
  "empty_composite =
     \<lparr>hc_decision = None, hc_transformedInput = None, hc_transformedOutput = None, hc_extraContext = [], hc_classifierContext = [],
      hc_message = None, hc_interrupt = None, hc_updatedPermissions = None, hc_blockReasons = [], hc_systemMessages = [],
      hc_preventContinuation = None, hc_lifecycleMessages = []\<rparr>"

definition reduceHookOutcomes :: "hook_outcome_entry list \<Rightarrow> hook_composite" where
  "reduceHookOutcomes results = fold second_pass results (fold first_pass results empty_composite)"

subsection \<open>The strictest decision\<close>

lemma RANK_inject [simp]: "RANK a = RANK b \<longleftrightarrow> a = b"
  by (cases a; cases b) simp_all

instantiation hook_permission_decision :: linorder
begin

definition less_eq_hook_permission_decision :: "hook_permission_decision \<Rightarrow> hook_permission_decision \<Rightarrow> bool" where
  "a \<le> b \<longleftrightarrow> RANK a \<le> RANK b"

definition less_hook_permission_decision :: "hook_permission_decision \<Rightarrow> hook_permission_decision \<Rightarrow> bool" where
  "a < b \<longleftrightarrow> RANK a < RANK b"

instance
  by standard (auto simp: less_eq_hook_permission_decision_def less_hook_permission_decision_def)

end

definition decisions :: "hook_outcome_entry list \<Rightarrow> hook_permission_decision list" where
  "decisions results = List.map_filter (decision_of \<circ> snd) results"

lemma decisions_simps [simp]:
  "decisions [] = []"
  "decisions (x # xs) = (case decision_of (snd x) of Some d \<Rightarrow> d # decisions xs | None \<Rightarrow> decisions xs)"
  by (simp_all add: decisions_def List.map_filter_simps split: option.split)

lemma decisions_append [simp]: "decisions (xs @ ys) = decisions xs @ decisions ys"
  by (induction xs) (auto split: option.split)

lemma in_decisions: "d \<in> set (decisions results) \<longleftrightarrow> (\<exists>(p, o') \<in> set results. decision_of o' = Some d)"
  by (induction results) (auto split: option.split)

lemma beats_less: "beats d c \<longleftrightarrow> (case hc_decision c of None \<Rightarrow> True | Some w \<Rightarrow> w < d)"
  by (auto simp: beats_def winner_rank_def less_hook_permission_decision_def split: option.split)

lemma second_pass_keeps [simp]:
  "hc_decision (fold second_pass xs c) = hc_decision c" "hc_message (fold second_pass xs c) = hc_message c"
  "hc_interrupt (fold second_pass xs c) = hc_interrupt c" "hc_updatedPermissions (fold second_pass xs c) = hc_updatedPermissions c"
  "hc_lifecycleMessages (fold second_pass xs c) = hc_lifecycleMessages c" "hc_extraContext (fold second_pass xs c) = hc_extraContext c"
  "hc_preventContinuation (fold second_pass xs c) = hc_preventContinuation c"
  "hc_systemMessages (fold second_pass xs c) = hc_systemMessages c" "hc_blockReasons (fold second_pass xs c) = hc_blockReasons c"
  by (induction xs arbitrary: c) (auto simp: second_pass_def split: option.split)

lemma first_pass_decision:
  "hc_decision (first_pass x c) =
    (case decision_of (snd x) of None \<Rightarrow> hc_decision c
     | Some d \<Rightarrow> (case hc_decision c of None \<Rightarrow> Some d | Some w \<Rightarrow> Some (max w d)))"
  by (auto simp: first_pass_def decision_of_def take_decision_def contribute_def beats_less Let_def max_def split: hook_outcome.split option.split)

definition strictest :: "hook_permission_decision list \<Rightarrow> hook_permission_decision option" where
  "strictest ds = (if ds = [] then None else Some (Max (set ds)))"

lemma first_pass_strictest:
  "hc_decision (fold first_pass results c) =
    (case hc_decision c of None \<Rightarrow> strictest (decisions results) | Some w \<Rightarrow> strictest (w # decisions results))"
proof (induction results arbitrary: c)
  case Nil
  then show ?case by (auto simp: strictest_def split: option.split)
next
  case (Cons x results)
  show ?case
    by (cases "decision_of (snd x)"; cases "hc_decision c"; cases "decisions results = []")
      (simp_all add: Cons.IH first_pass_decision strictest_def max.assoc max.commute max.left_commute)
qed

lemma reduce_decision: "hc_decision (reduceHookOutcomes results) = strictest (decisions results)"
  by (simp add: reduceHookOutcomes_def first_pass_strictest) (simp add: empty_composite_def)

lemma lifecycle_all: "hc_lifecycleMessages (reduceHookOutcomes results) = map lifecycle_record results"
proof -
  have "hc_lifecycleMessages (fold first_pass results c) = hc_lifecycleMessages c @ map lifecycle_record results" for c
    by (induction results arbitrary: c)
      (auto simp: first_pass_def contribute_def take_decision_def Let_def split: hook_outcome.split)
  then show ?thesis by (simp add: reduceHookOutcomes_def empty_composite_def)
qed

subsection \<open>The composite against its reference\<close>

text \<open>
  The rules as they are stated: the first hook with the strictest decision gives the message, the flag and the updates; the transforms
  that count are those of hooks without a decision and of hooks that share the strictest one, and the last of them is the result.
\<close>

definition first_with :: "hook_permission_decision \<Rightarrow> hook_outcome_entry list \<Rightarrow> hook_outcome_fields option" where
  "first_with w results =
     (case List.find (\<lambda>x. decision_of (snd x) = Some w) results of Some x \<Rightarrow> contribution (snd x) | None \<Rightarrow> None)"

definition winner_fields :: "hook_outcome_entry list \<Rightarrow> hook_outcome_fields option" where
  "winner_fields results = (case strictest (decisions results) of Some w \<Rightarrow> first_with w results | None \<Rightarrow> None)"

definition surviving :: "hook_outcome_entry list \<Rightarrow> hook_outcome_fields list" where
  "surviving results =
     List.map_filter (\<lambda>x. if decision_of (snd x) = None \<or> decision_of (snd x) = strictest (decisions results) then contribution (snd x) else None) results"

definition last_some :: "'a option list \<Rightarrow> 'a option" where
  "last_some vs = (let present = filter (\<lambda>v. v \<noteq> None) vs in if present = [] then None else last present)"

lemma last_some_simps: "last_some [] = None" "last_some (vs @ [v]) = latest v (last_some vs)"
  by (auto simp: last_some_def latest_def split: option.split)

lemma last_some_fold: "fold latest vs a = latest (last_some vs) a"
  by (induction vs rule: rev_induct) (auto simp: last_some_simps latest_def split: option.split)

lemma find_append: "List.find P (xs @ ys) = (case List.find P xs of Some x \<Rightarrow> Some x | None \<Rightarrow> List.find P ys)"
  by (induction xs) (auto split: option.split)

lemma find_decision: "List.find (\<lambda>x. decision_of (snd x) = Some w) results = None \<longleftrightarrow> w \<notin> set (decisions results)"
  by (induction results) (auto split: option.split)

lemma decision_contributes: "decision_of out = Some d \<Longrightarrow> \<exists>f. out = DecisionOutcome d f \<and> contribution out = Some f"
  by (cases out) (auto simp: decision_of_def contribution_def)

lemma strictest_snoc:
  "strictest (ds @ [d]) = (case strictest ds of None \<Rightarrow> Some d | Some w \<Rightarrow> Some (max w d))"
  by (auto simp: strictest_def max.commute)

lemma winner_snoc:
  "winner_fields (results @ [x]) =
    (case decision_of (snd x) of
       None \<Rightarrow> winner_fields results
     | Some d \<Rightarrow> if (case strictest (decisions results) of None \<Rightarrow> True | Some w \<Rightarrow> w < d) then contribution (snd x) else winner_fields results)"
proof (cases "decision_of (snd x)")
  case None
  then show ?thesis by (auto simp: winner_fields_def first_with_def find_append split: option.split)
next
  case (Some d)
  show ?thesis
  proof (cases "strictest (decisions results)")
    case None
    then have "decisions results = []" by (simp add: strictest_def split: if_splits)
    then show ?thesis using Some None find_decision [of d results]
      by (simp add: winner_fields_def first_with_def find_append strictest_def)
  next
    case w: (Some w)
    then have ds: "decisions results \<noteq> []" "w = Max (set (decisions results))" by (auto simp: strictest_def split: if_splits)
    have top: "\<forall>e \<in> set (decisions results). e \<le> w" and here: "w \<in> set (decisions results)" using ds by simp_all
    show ?thesis
    proof (cases "w < d")
      case True
      then have "d \<notin> set (decisions results)" using top by auto
      then have "List.find (\<lambda>x. decision_of (snd x) = Some d) results = None" by (simp add: find_decision)
      moreover have "max w d = d" using True by simp
      ultimately show ?thesis using Some w True by (simp add: winner_fields_def first_with_def find_append strictest_snoc)
    next
      case False
      then have m: "max w d = w" by simp
      have "List.find (\<lambda>x. decision_of (snd x) = Some w) results \<noteq> None" using here by (simp add: find_decision)
      then show ?thesis using Some w False m by (auto simp: winner_fields_def first_with_def find_append strictest_snoc)
    qed
  qed
qed

lemma first_pass_winner:
  "let c = fold first_pass results empty_composite in
     hc_decision c = strictest (decisions results) \<and>
     hc_message c = (case winner_fields results of Some f \<Rightarrow> of_message f | None \<Rightarrow> None) \<and>
     hc_interrupt c = (case winner_fields results of Some f \<Rightarrow> of_interrupt f | None \<Rightarrow> None) \<and>
     hc_updatedPermissions c = (case winner_fields results of Some f \<Rightarrow> of_updatedPermissions f | None \<Rightarrow> None)"
proof (induction results rule: rev_induct)
  case Nil
  show ?case by (simp add: empty_composite_def strictest_def winner_fields_def)
next
  case (snoc x results)
  let ?c = "fold first_pass results empty_composite"
  have IH: "hc_decision ?c = strictest (decisions results)" using snoc by (simp add: Let_def)
  have "hc_decision (first_pass x ?c) = strictest (decisions (results @ [x]))"
    using IH by (auto simp: first_pass_decision strictest_snoc split: option.split)
  moreover
  show ?case
  proof (cases "decision_of (snd x)")
    case None
    then show ?thesis using snoc calculation unfolding winner_snoc
      by (cases "snd x") (auto simp: first_pass_def contribute_def decision_of_def Let_def)
  next
    case (Some d)
    then obtain f where f: "snd x = DecisionOutcome d f" "contribution (snd x) = Some f" using decision_contributes by blast
    let ?d = "contribute (fst x) f (?c\<lparr>hc_lifecycleMessages := hc_lifecycleMessages ?c @ [lifecycle_record x]\<rparr>)"
    have fp: "first_pass x ?c = take_decision d f ?d" by (simp add: first_pass_def f Let_def)
    have keep: "hc_message ?d = hc_message ?c" "hc_interrupt ?d = hc_interrupt ?c" "hc_updatedPermissions ?d = hc_updatedPermissions ?c"
      "hc_decision ?d = hc_decision ?c"
      by (simp_all add: contribute_def)
    have b: "beats d ?d \<longleftrightarrow> (case strictest (decisions results) of None \<Rightarrow> True | Some w \<Rightarrow> w < d)"
      by (simp add: beats_less keep IH)
    show ?thesis
    proof (cases "beats d ?d")
      case True
      then have "winner_fields (results @ [x]) = Some f" using b by (simp add: winner_snoc Some f(2))
      then show ?thesis using calculation True by (simp add: fp take_decision_def Let_def)
    next
      case False
      then have "winner_fields (results @ [x]) = winner_fields results" using b by (simp add: winner_snoc Some)
      then show ?thesis using calculation False snoc by (simp add: fp take_decision_def Let_def keep)
    qed
  qed
qed

lemma chains_survives:
  "contribution out \<noteq> None \<Longrightarrow> chains w out \<longleftrightarrow> decision_of out = None \<or> decision_of out = w"
  by (cases out; cases w) (auto simp: chains_def decision_of_def contribution_def)

lemma second_pass_transforms:
  "hc_transformedInput (fold second_pass results c) =
     latest (last_some (map of_transformedInput (List.map_filter (\<lambda>x. if decision_of (snd x) = None \<or> decision_of (snd x) = hc_decision c
        then contribution (snd x) else None) results))) (hc_transformedInput c)"
proof (induction results rule: rev_induct)
  case Nil
  show ?case by (simp add: List.map_filter_simps last_some_simps latest_def)
next
  case (snoc x results)
  let ?g = "\<lambda>x. if decision_of (snd x) = None \<or> decision_of (snd x) = hc_decision c then contribution (snd x) else None"
  have mf: "List.map_filter ?g (xs @ [y]) = List.map_filter ?g xs @ (case ?g y of Some v \<Rightarrow> [v] | None \<Rightarrow> [])" for xs y
    by (induction xs) (auto simp: List.map_filter_simps split: option.split)
  show ?case
  proof (cases "?g x")
    case None
    then have "contribution (snd x) = None \<or> \<not> chains (hc_decision c) (snd x)"
      by (cases "contribution (snd x)") (simp_all add: chains_survives split: if_splits)
    then have "second_pass x (fold second_pass results c) = fold second_pass results c"
      by (auto simp: second_pass_def split: option.split)
    then show ?thesis using snoc.IH unfolding mf None by simp
  next
    case (Some f)
    then have f: "contribution (snd x) = Some f" "chains (hc_decision c) (snd x)" by (simp_all add: chains_survives split: if_splits)
    then have "hc_transformedInput (second_pass x (fold second_pass results c)) = latest (of_transformedInput f) (hc_transformedInput (fold second_pass results c))"
      by (simp add: second_pass_def)
    moreover have "latest a (latest b d) = latest (latest a b) d" for a b d :: "json option" by (simp add: latest_def split: option.split)
    ultimately show ?thesis using snoc.IH unfolding mf Some by (simp add: last_some_simps)
  qed
qed

text \<open>
  C26: the composite is what the rules say. For every list of outcomes the two passes of the reducer give the strictest decision; the message, the interrupt flag and
  the permission updates of the first hook that reached it; and as the input the last rewrite by a hook that either decided nothing or agreed with the
  strictest decision, a rewrite by an overruled hook being dropped.
\<close>

theorem composite_reference:
  "hc_decision (reduceHookOutcomes results) = strictest (decisions results) \<and>
   hc_message (reduceHookOutcomes results) = (case winner_fields results of Some f \<Rightarrow> of_message f | None \<Rightarrow> None) \<and>
   hc_interrupt (reduceHookOutcomes results) = (case winner_fields results of Some f \<Rightarrow> of_interrupt f | None \<Rightarrow> None) \<and>
   hc_updatedPermissions (reduceHookOutcomes results) = (case winner_fields results of Some f \<Rightarrow> of_updatedPermissions f | None \<Rightarrow> None) \<and>
   hc_transformedInput (reduceHookOutcomes results) = last_some (map of_transformedInput (surviving results))"
proof -
  let ?c = "fold first_pass results empty_composite"
  have "hc_transformedInput ?c = None"
  proof -
    have "hc_transformedInput (first_pass x c) = hc_transformedInput c" for x c
      by (auto simp: first_pass_def contribute_def take_decision_def Let_def split: hook_outcome.split)
    then have "hc_transformedInput (fold first_pass results c) = hc_transformedInput c" for c
      by (induction results arbitrary: c) simp_all
    then show ?thesis by (simp add: empty_composite_def)
  qed
  then show ?thesis
    using first_pass_winner [of results]
    by (simp add: reduceHookOutcomes_def Let_def second_pass_transforms surviving_def latest_def split: option.split)
qed

end
