(* ===== verification/Json_Values.thy ===== *)
theory Json_Values
  imports Json_Text
begin

text \<open>
  A value that crossed a process boundary, read field by field: what \<open>typeof\<close> and member access answer for a parsed JSON value. An absent field is
  \<open>None\<close> and a field that holds \<open>null\<close> is \<open>Some JNull\<close>; the elements of an array are fields named by their positions.
\<close>

definition isObject :: "json \<Rightarrow> bool" where
  "isObject v = (case v of JObj _ \<Rightarrow> True | JArr _ \<Rightarrow> True | _ \<Rightarrow> False)"

definition js_field :: "json \<Rightarrow> string \<Rightarrow> json option" where
  "js_field v k =
     (case v of
        JObj members \<Rightarrow> map_of members k
      | JArr xs \<Rightarrow> if k = ''length'' then Some (JNum (int (length xs))) else map_of (zip (map (show_radix 10) [0..<length xs]) xs) k
      | _ \<Rightarrow> None)"

definition text_of :: "json option \<Rightarrow> string option" where
  "text_of v = (case v of Some (JStr s) \<Rightarrow> Some s | _ \<Rightarrow> None)"

definition bool_of :: "json option \<Rightarrow> bool option" where
  "bool_of v = (case v of Some (JBool b) \<Rightarrow> Some b | _ \<Rightarrow> None)"

text \<open>A field whose declared type is trusted: a value read as an input is its fields, a value read as a flag its truth.\<close>

definition truthy :: "json \<Rightarrow> bool" where
  "truthy v = (case v of JNull \<Rightarrow> False | JBool b \<Rightarrow> b | JNum i \<Rightarrow> i \<noteq> 0 | JStr s \<Rightarrow> s \<noteq> [] | _ \<Rightarrow> True)"

lemma text_of_Some [simp]: "text_of v = Some s \<longleftrightarrow> v = Some (JStr s)"
  by (auto simp: text_of_def split: option.splits json.splits)

lemma bool_of_Some [simp]: "bool_of v = Some b \<longleftrightarrow> v = Some (JBool b)"
  by (auto simp: bool_of_def split: option.splits json.splits)

lemma isObject_cases: "isObject v \<longleftrightarrow> (\<exists>fs. v = JObj fs) \<or> (\<exists>xs. v = JArr xs)"
  by (cases v) (simp_all add: isObject_def)

end
