(* ===== verification/Rpc_Bridge.thy ===== *)
theory Rpc_Bridge
  imports Json_Text
begin

text \<open>
  The runtime's half of the control channel (\<^verbatim>\<open>rpc/bridge.ts\<close>): requests to the host and the promises that wait for their
  answers. The state holds the pending requests and the frames not yet written, both in insertion order as a JavaScript
  \<open>Map\<close> keeps them, the armed timers and the attached abort listeners, the frames written and the settlements made.
  A promise is a number, its place in the order of the calls of \<open>request\<close>; its timer and its listener carry that number. Time is not measured: an armed
  timer may fire at any later step, and a listener may be called at any step. The steps of the host and of the clock are a relation, so an execution is any interleaving of them.
\<close>

subsection \<open>Frames, errors and the state\<close>

datatype 'p out_frame = ControlRequest string string 'p | ControlCancelRequest string

datatype rpc_error = WinterRpcError string string | WinterRpcTimeoutError string nat | OtherError string

datatype settlement = Resolved "json option" | Rejected rpc_error

record control_response =
  cr_requestId :: string
  cr_ok :: bool
  cr_payload :: "json option"
  cr_error :: "(string option \<times> string option) option"

record request_opts =
  ro_timeoutMs :: "nat option"
  ro_requestId :: "string option"
  ro_signal :: "bool option"
  ro_cancelGraceMs :: "nat option"

record pending_rpc =
  pe_subtype :: string
  pe_promise :: nat

datatype armed_timer = RequestTimer string string nat | GraceTimer string string nat

record abort_listener =
  al_requestId :: string
  al_subtype :: string
  al_grace :: "nat option"

record 'p rpc_bridge =
  rb_pending :: "(string \<times> pending_rpc) list"
  rb_held :: "(string \<times> 'p out_frame) list option"
  rb_closed :: bool
  rb_allowedSubtypes :: "string list option"
  rb_timers :: "(nat \<times> armed_timer) list"
  rb_listeners :: "(nat \<times> abort_listener) list"
  rb_output :: "'p out_frame list"
  rb_settled :: "(nat \<times> settlement) list"
  rb_promises :: nat

definition createRpcBridge :: "bool \<Rightarrow> string list option \<Rightarrow> 'p rpc_bridge" where
  "createRpcBridge holdUntilOpen allowedSubtypes =
     \<lparr>rb_pending = [], rb_held = (if holdUntilOpen then Some [] else None), rb_closed = False, rb_allowedSubtypes = allowedSubtypes,
      rb_timers = [], rb_listeners = [], rb_output = [], rb_settled = [], rb_promises = 0\<rparr>"

subsection \<open>The operations\<close>

definition write_frame :: "'p out_frame \<Rightarrow> 'p rpc_bridge \<Rightarrow> 'p rpc_bridge" where
  "write_frame frame b = b\<lparr>rb_output := rb_output b @ [frame]\<rparr>"

definition settle_promise :: "nat \<Rightarrow> settlement \<Rightarrow> 'p rpc_bridge \<Rightarrow> 'p rpc_bridge" where
  "settle_promise n s b = b\<lparr>rb_settled := rb_settled b @ [(n, s)]\<rparr>"

definition clear_timer :: "nat \<Rightarrow> 'p rpc_bridge \<Rightarrow> 'p rpc_bridge" where
  "clear_timer n b = b\<lparr>rb_timers := AList.delete n (rb_timers b)\<rparr>"

definition detach_listener :: "nat \<Rightarrow> 'p rpc_bridge \<Rightarrow> 'p rpc_bridge" where
  "detach_listener n b = b\<lparr>rb_listeners := AList.delete n (rb_listeners b)\<rparr>"

definition drop_pending :: "string \<Rightarrow> 'p rpc_bridge \<Rightarrow> 'p rpc_bridge" where
  "drop_pending requestId b = b\<lparr>rb_pending := AList.delete requestId (rb_pending b)\<rparr>"

definition drop_held :: "string \<Rightarrow> 'p rpc_bridge \<Rightarrow> 'p rpc_bridge" where
  "drop_held requestId b = b\<lparr>rb_held := map_option (AList.delete requestId) (rb_held b)\<rparr>"

definition is_held :: "'p rpc_bridge \<Rightarrow> string \<Rightarrow> bool" where
  "is_held b requestId \<longleftrightarrow> (case rb_held b of Some held \<Rightarrow> requestId \<in> fst ` set held | None \<Rightarrow> False)"

definition refusal :: "'p rpc_bridge \<Rightarrow> string \<Rightarrow> request_opts \<Rightarrow> rpc_error option" where
  "refusal b subtype opts =
     (if rb_closed b then
        Some (WinterRpcError ''connection_closed'' (''rpc bridge is closed: cannot issue a '' @ [squote] @ subtype @ [squote] @ '' request''))
      else if (case rb_allowedSubtypes b of Some allowed \<Rightarrow> subtype \<notin> set allowed | None \<Rightarrow> False) then
        Some (WinterRpcError ''unsupported_subtype'' ''rpc subtype unavailable for this session'')
      else if ro_signal opts = Some True then
        Some (WinterRpcError ''cancelled'' (''the '' @ [squote] @ subtype @ [squote] @ '' request was cancelled before it was issued''))
      else None)"

definition arm_request :: "nat \<Rightarrow> string \<Rightarrow> string \<Rightarrow> request_opts \<Rightarrow> 'p rpc_bridge \<Rightarrow> 'p rpc_bridge" where
  "arm_request n requestId subtype opts b =
     b\<lparr>rb_timers := (case ro_timeoutMs opts of Some t \<Rightarrow> (n, RequestTimer requestId subtype t) # rb_timers b | None \<Rightarrow> rb_timers b),
       rb_listeners :=
         (case ro_signal opts of
            Some _ \<Rightarrow> (n, \<lparr>al_requestId = requestId, al_subtype = subtype, al_grace = ro_cancelGraceMs opts\<rparr>) # rb_listeners b
          | None \<Rightarrow> rb_listeners b)\<rparr>"

definition bridge_request :: "string \<Rightarrow> 'p \<Rightarrow> request_opts \<Rightarrow> string \<Rightarrow> 'p rpc_bridge \<Rightarrow> 'p rpc_bridge" where
  "bridge_request subtype payload opts uuid b =
     (let n = rb_promises b; b0 = b\<lparr>rb_promises := Suc n\<rparr>
      in case refusal b subtype opts of
           Some e \<Rightarrow> settle_promise n (Rejected e) b0
         | None \<Rightarrow>
             (let requestId = the_default uuid (ro_requestId opts);
                  b1 = arm_request n requestId subtype opts b0;
                  b2 = b1\<lparr>rb_pending := AList.update requestId \<lparr>pe_subtype = subtype, pe_promise = n\<rparr> (rb_pending b1)\<rparr>;
                  frame = ControlRequest requestId subtype payload
              in case rb_held b2 of
                   Some held \<Rightarrow> b2\<lparr>rb_held := Some (AList.update requestId frame held)\<rparr>
                 | None \<Rightarrow> write_frame frame b2))"

definition bridge_open :: "'p rpc_bridge \<Rightarrow> 'p rpc_bridge" where
  "bridge_open b =
     (case rb_held b of
        None \<Rightarrow> b
      | Some held \<Rightarrow> fold write_frame (map snd held) (b\<lparr>rb_held := None\<rparr>))"

definition ownsRequest :: "'p rpc_bridge \<Rightarrow> string \<Rightarrow> string option \<Rightarrow> bool" where
  "ownsRequest b requestId subtype \<longleftrightarrow>
     (case map_of (rb_pending b) requestId of
        None \<Rightarrow> False
      | Some entry \<Rightarrow> (case subtype of None \<Rightarrow> True | Some s \<Rightarrow> pe_subtype entry = s))"

definition answer_of :: "control_response \<Rightarrow> settlement" where
  "answer_of frame =
     (if cr_ok frame then Resolved (cr_payload frame)
      else
        (let e = the_default (None, None) (cr_error frame)
         in Rejected (WinterRpcError (the_default ''unknown_error'' (fst e)) (the_default ''control request failed'' (snd e)))))"

definition handleResponse :: "control_response \<Rightarrow> 'p rpc_bridge \<Rightarrow> bool \<times> 'p rpc_bridge" where
  "handleResponse frame b =
     (case map_of (rb_pending b) (cr_requestId frame) of
        None \<Rightarrow> (False, b)
      | Some entry \<Rightarrow>
          (let n = pe_promise entry
           in (True, settle_promise n (answer_of frame) (detach_listener n (clear_timer n (drop_pending (cr_requestId frame) b))))))"

definition reject_entry :: "string \<Rightarrow> pending_rpc \<Rightarrow> 'p rpc_bridge \<Rightarrow> 'p rpc_bridge" where
  "reject_entry err entry b =
     (let n = pe_promise entry in settle_promise n (Rejected (OtherError err)) (detach_listener n (clear_timer n b)))"

definition rejectAllPending :: "string \<Rightarrow> 'p rpc_bridge \<Rightarrow> 'p rpc_bridge" where
  "rejectAllPending err b =
     (fold (reject_entry err) (map snd (rb_pending b)) (b\<lparr>rb_closed := True\<rparr>))\<lparr>rb_pending := [], rb_held := map_option (\<lambda>_. []) (rb_held b)\<rparr>"

definition bridge_cancel :: "string \<Rightarrow> 'p rpc_bridge \<Rightarrow> 'p rpc_bridge" where
  "bridge_cancel requestId b =
     (case map_of (rb_pending b) requestId of
        None \<Rightarrow> b
      | Some entry \<Rightarrow>
          (let n = pe_promise entry in drop_held requestId (drop_pending requestId (detach_listener n (clear_timer n b)))))"

text \<open>The callbacks: a request that is given up, the two timers and the abort listener.\<close>

definition is_entry :: "'p rpc_bridge \<Rightarrow> string \<Rightarrow> nat \<Rightarrow> bool" where
  "is_entry b requestId n \<longleftrightarrow> map_option pe_promise (map_of (rb_pending b) requestId) = Some n"

definition give_up :: "nat \<Rightarrow> string \<Rightarrow> string \<Rightarrow> 'p rpc_bridge \<Rightarrow> 'p rpc_bridge" where
  "give_up n requestId subtype b =
     (if \<not> is_entry b requestId n then b
      else
        settle_promise n
          (Rejected (WinterRpcError ''cancelled''
             (''the '' @ [squote] @ subtype @ [squote] @ '' request was cancelled: the runtime stopped waiting for it'')))
          (drop_pending requestId b))"

definition timer_fires :: "nat \<Rightarrow> 'p rpc_bridge \<Rightarrow> 'p rpc_bridge" where
  "timer_fires n b =
     (case map_of (rb_timers b) n of
        None \<Rightarrow> b
      | Some (RequestTimer requestId subtype t) \<Rightarrow>
          settle_promise n (Rejected (WinterRpcTimeoutError subtype t))
            (detach_listener n (drop_held requestId (drop_pending requestId (clear_timer n b))))
      | Some (GraceTimer requestId subtype t) \<Rightarrow> give_up n requestId subtype (clear_timer n b))"

definition abort_fires :: "nat \<Rightarrow> 'p rpc_bridge \<Rightarrow> 'p rpc_bridge" where
  "abort_fires n b =
     (case map_of (rb_listeners b) n of
        None \<Rightarrow> b
      | Some l \<Rightarrow>
          (let requestId = al_requestId l; subtype = al_subtype l; b1 = detach_listener n b
           in if \<not> is_entry b1 requestId n then b1
              else
                (let b2 = clear_timer n b1; wasHeld = is_held b2 requestId; b3 = drop_held requestId b2;
                     b4 = (if wasHeld then b3 else write_frame (ControlCancelRequest requestId) b3)
                 in case al_grace l of
                      Some grace \<Rightarrow>
                        if wasHeld then give_up n requestId subtype b4
                        else b4\<lparr>rb_timers := (n, GraceTimer requestId subtype grace) # rb_timers b4\<rparr>
                    | None \<Rightarrow> give_up n requestId subtype b4)))"

subsection \<open>Executions\<close>

datatype 'p bridge_event =
    DoRequest string 'p request_opts string
  | DoOpen
  | HostResponds control_response
  | TransportDies string
  | DoCancel string
  | TimerFires nat
  | SignalAborts nat

inductive bridge_step :: "'p rpc_bridge \<Rightarrow> 'p bridge_event \<Rightarrow> 'p rpc_bridge \<Rightarrow> bool" where
  step_request: "bridge_step b (DoRequest subtype payload opts uuid) (bridge_request subtype payload opts uuid b)"
| step_open: "bridge_step b DoOpen (bridge_open b)"
| step_response: "bridge_step b (HostResponds frame) (snd (handleResponse frame b))"
| step_dies: "bridge_step b (TransportDies err) (rejectAllPending err b)"
| step_cancel: "bridge_step b (DoCancel requestId) (bridge_cancel requestId b)"
| step_timer: "n \<in> fst ` set (rb_timers b) \<Longrightarrow> bridge_step b (TimerFires n) (timer_fires n b)"
| step_abort: "n \<in> fst ` set (rb_listeners b) \<Longrightarrow> bridge_step b (SignalAborts n) (abort_fires n b)"

inductive bridge_run :: "'p rpc_bridge \<Rightarrow> 'p bridge_event list \<Rightarrow> 'p rpc_bridge \<Rightarrow> bool" where
  run_nil: "bridge_run b [] b"
| run_step: "bridge_run b es c \<Longrightarrow> bridge_step c e d \<Longrightarrow> bridge_run b (es @ [e]) d"

text \<open>An invariant of the steps holds after every execution.\<close>

lemma bridge_run_invariant:
  assumes "bridge_run b es c" "P b" "\<And>b e c. bridge_step b e c \<Longrightarrow> P b \<Longrightarrow> P c"
  shows "P c"
  using assms by (induction rule: bridge_run.induct) blast+

end
