(* ===== verification/Prompt_Stage.thy ===== *)
theory Prompt_Stage
  imports Json_Values Rpc_Bridge Pipeline
begin

text \<open>
  The prompt of the pipeline over the control channel (\<^verbatim>\<open>permissions/prompt-stage.ts\<close>): the payload that asks the host, with the suggestions it
  offers, the check of the answer and its reading. The answer is the settlement of a request of \<open>Rpc_Bridge\<close>. Fields of an allow that
  are typed but never checked are read as their type says; the updates in it are decoded by the parameter \<open>as_update\<close>, the
  reading of a JSON value as a permission update where it is applied. The field \<open>mcpServer\<close> of a call, which the evaluator
  does not read, is an argument here.
\<close>

record mcp_server_identity =
  ms_name :: string
  ms_configName :: string
  ms_readOnlyHint :: "bool option"

record permission_request_payload =
  pp_toolName :: string
  pp_input :: tool_input
  pp_suggestions :: "permission_update list option"
  pp_blockedPath :: "string option"
  pp_decisionReason :: string
  pp_toolUseID :: string
  pp_agentID :: "string option"
  pp_requestId :: string
  pp_matchedAskRule :: "(rule_source \<times> string \<times> string option) option"
  pp_mcpServer :: "mcp_server_identity option"
  pp_policyVersion :: nat

definition session_allow :: "string \<Rightarrow> string option \<Rightarrow> permission_update" where
  "session_allow tool content = AddRules [\<lparr>rv_toolName = tool, rv_ruleContent = content\<rparr>] BAllow ''session''"

definition webToolSuggestion :: "url_parser \<Rightarrow> permission_call \<Rightarrow> permission_update list option" where
  "webToolSuggestion url call =
     (if tool_of call = ''WebSearch'' then Some [session_allow ''WebSearch'' None]
      else if tool_of call = ''WebFetch'' then
        (case webFetchHostnameOf url (input_of call) of
           None \<Rightarrow> None
         | Some host \<Rightarrow> Some [session_allow ''WebFetch'' (Some (''domain:'' @ host))])
      else None)"

definition buildSuggestions :: "url_parser \<Rightarrow> permission_call \<Rightarrow> prompt_meta \<Rightarrow> permission_update list option" where
  "buildSuggestions url call meta =
     (case pm_matchedAskRule meta of
        None \<Rightarrow> webToolSuggestion url call
      | Some (_, tool, content) \<Rightarrow> Some [session_allow tool content])"

definition buildPayload ::
  "url_parser \<Rightarrow> permission_call \<Rightarrow> mcp_server_identity option \<Rightarrow> nat \<Rightarrow> prompt_meta \<Rightarrow> string \<Rightarrow> permission_request_payload" where
  "buildPayload url call server version meta requestId =
     \<lparr>pp_toolName = tool_of call, pp_input = input_of call, pp_suggestions = buildSuggestions url call meta,
      pp_blockedPath = pm_blockedPath meta, pp_decisionReason = pm_decisionReason meta,
      pp_toolUseID = the_default [] (pc_toolUseId call), pp_agentID = pc_agentId call, pp_requestId = requestId,
      pp_matchedAskRule = pm_matchedAskRule meta, pp_mcpServer = server, pp_policyVersion = version\<rparr>"

definition isValidPermissionResult :: "json option \<Rightarrow> bool" where
  "isValidPermissionResult value =
     (case value of
        None \<Rightarrow> False
      | Some v \<Rightarrow>
          if \<not> isObject v then False
          else if js_field v ''behavior'' = Some (JStr ''allow'') then True
          else if js_field v ''behavior'' = Some (JStr ''deny'') then text_of (js_field v ''message'') \<noteq> None
          else False)"

text \<open>
  An answer whose \<open>updatedPermissions\<close> is no list, which the declared type rules out, counts here as one without updates.
\<close>

definition toPromptDecision :: "(json \<Rightarrow> permission_update) \<Rightarrow> json \<Rightarrow> prompt_decision" where
  "toPromptDecision as_update result =
     (if js_field result ''behavior'' = Some (JStr ''allow'') then
        \<lparr>pd_decision = AnswerAllow, pd_transformedInput = map_option js_field (js_field result ''updatedInput''),
         pd_message = None, pd_interrupt = None,
         pd_updatedPermissions =
           map_option (\<lambda>v. case v of JArr xs \<Rightarrow> map as_update xs | _ \<Rightarrow> []) (js_field result ''updatedPermissions''),
         pd_decisionClassification = text_of (js_field result ''decisionClassification'')\<rparr>
      else
        \<lparr>pd_decision = AnswerDeny, pd_transformedInput = None, pd_message = text_of (js_field result ''message''),
         pd_interrupt = map_option truthy (js_field result ''interrupt''), pd_updatedPermissions = None,
         pd_decisionClassification = text_of (js_field result ''decisionClassification'')\<rparr>)"

text \<open>The request the stage issues, and the decision its settlement becomes.\<close>

definition prompt_opts :: "bool option \<Rightarrow> string \<Rightarrow> request_opts" where
  "prompt_opts signal requestId =
     \<lparr>ro_timeoutMs = None, ro_requestId = Some requestId, ro_signal = signal, ro_cancelGraceMs = None\<rparr>"

definition issue_prompt ::
  "permission_request_payload \<Rightarrow> bool option \<Rightarrow> permission_request_payload rpc_bridge \<Rightarrow> permission_request_payload rpc_bridge" where
  "issue_prompt payload signal b =
     bridge_request ''permission'' payload (prompt_opts signal (pp_requestId payload)) (pp_requestId payload) b"

definition prompt_outcome :: "(json \<Rightarrow> permission_update) \<Rightarrow> settlement \<Rightarrow> prompt_decision option" where
  "prompt_outcome as_update s =
     (case s of
        Rejected _ \<Rightarrow> None
      | Resolved value \<Rightarrow>
          if \<not> isValidPermissionResult value then None
          else map_option (toPromptDecision as_update) value)"

definition bridge_prompt ::
  "url_parser \<Rightarrow> (json \<Rightarrow> permission_update) \<Rightarrow> (permission_call \<Rightarrow> mcp_server_identity option) \<Rightarrow> nat
    \<Rightarrow> (permission_request_payload \<Rightarrow> settlement) \<Rightarrow> (permission_call \<Rightarrow> prompt_meta \<Rightarrow> string)
    \<Rightarrow> permission_call \<Rightarrow> prompt_meta \<Rightarrow> prompt_decision option" where
  "bridge_prompt url as_update server version host fresh call meta =
     prompt_outcome as_update (host (buildPayload url call (server call) version meta (fresh call meta)))"

subsection \<open>The answers\<close>

lemma prompt_outcome_allow:
  "prompt_outcome as_update s = Some p \<Longrightarrow> pd_decision p = AnswerAllow \<longleftrightarrow>
    (\<exists>v. s = Resolved (Some v) \<and> js_field v ''behavior'' = Some (JStr ''allow''))"
  by (auto simp: prompt_outcome_def isValidPermissionResult_def toPromptDecision_def split: settlement.splits option.splits if_splits)

lemma prompt_outcome_deny:
  "prompt_outcome as_update s = Some p \<Longrightarrow> pd_decision p = AnswerDeny \<Longrightarrow> \<exists>m. pd_message p = Some m"
  by (auto simp: prompt_outcome_def isValidPermissionResult_def toPromptDecision_def text_of_def split: settlement.splits option.splits if_splits json.splits)

text \<open>Everything but a well-formed answer is no opinion.\<close>

lemma no_opinion:
  "prompt_outcome as_update s = None \<longleftrightarrow> (\<forall>v. s = Resolved v \<longrightarrow> \<not> isValidPermissionResult v)"
  by (auto simp: prompt_outcome_def isValidPermissionResult_def split: settlement.splits option.splits)

text \<open>What is suggested is one allow rule for the session.\<close>

lemma suggestions_for_session:
  "buildSuggestions url call meta = Some us \<Longrightarrow> \<exists>t c. us = [session_allow t c]"
  by (auto simp: buildSuggestions_def webToolSuggestion_def split: option.splits if_splits)

end
