(* ===== verification/Hook_Answers.thy ===== *)
theory Hook_Answers
  imports Hook_Reducer Json_Values Prompt_Stage
begin

text \<open>
  The answers of hooks (\<^verbatim>\<open>hooks/runner.ts\<close>, \<^verbatim>\<open>hooks/bounds.ts\<close>): the bounds of the texts a hook contributes and the reading of its JSON answer for each event. An answer
  that tries to decide in a shape the reader does not know is an error outcome, never an opinion. The schema validator of tool inputs is a
  parameter: no complaint, or a complaint with its reason.
\<close>

subsection \<open>Bounds of texts\<close>

definition MAX_HOOK_TEXT_CHARS :: nat where
  "MAX_HOOK_TEXT_CHARS = 10000"

definition hookTruncationMarker :: "nat \<Rightarrow> string" where
  "hookTruncationMarker limit =
     [newline] @ ''['' @ fromCodePoint 8230 @ ''truncated: hook output exceeded '' @ show_radix 10 limit @ '' characters]''"

text \<open>The code of a unit decides whether the cut would split a surrogate pair.\<close>

definition capHookText :: "nat \<Rightarrow> string \<Rightarrow> string" where
  "capHookText limit txt =
     (if length txt \<le> limit then txt
      else
        (let code = (case char_at txt (limit - 1) of Some c \<Rightarrow> of_char c :: nat | None \<Rightarrow> 0);
             stop = (if limit > 0 \<and> 55296 \<le> code \<and> code \<le> 56319 then limit - 1 else limit)
         in take stop txt @ hookTruncationMarker limit))"

abbreviation cap :: "string \<Rightarrow> string" where
  "cap \<equiv> capHookText MAX_HOOK_TEXT_CHARS"

subsection \<open>Reading an answer\<close>

datatype classified_output = MalformedOutput | AsyncOutput | SyncOutput json

definition classifyRawOutput :: "json \<Rightarrow> classified_output" where
  "classifyRawOutput got =
     (if \<not> isObject got then MalformedOutput
      else if js_field got ''async'' = Some (JBool True) then AsyncOutput
      else SyncOutput got)"

definition hookSpecificOutputOf :: "json \<Rightarrow> json option" where
  "hookSpecificOutputOf sync =
     (case js_field sync ''hookSpecificOutput'' of
        Some hso \<Rightarrow> if isObject hso then Some hso else None
      | None \<Rightarrow> None)"

text \<open>The event-specific output, when it names the event; and a field of it.\<close>

definition own_output :: "hook_event \<Rightarrow> json \<Rightarrow> json option" where
  "own_output event sync =
     (case hookSpecificOutputOf sync of
        Some hso \<Rightarrow> if js_field hso ''hookEventName'' = Some (JStr (event_name event)) then Some hso else None
      | None \<Rightarrow> None)"

definition field_of :: "json option \<Rightarrow> string \<Rightarrow> json option" where
  "field_of v k = (case v of Some w \<Rightarrow> js_field w k | None \<Rightarrow> None)"

definition DEFER_CAPABLE_HOOK_EVENTS :: "hook_event list" where
  "DEFER_CAPABLE_HOOK_EVENTS = [PreToolUse, PermissionRequest]"

definition hasInvalidDefer :: "json option \<Rightarrow> hook_event \<Rightarrow> bool" where
  "hasInvalidDefer hso event \<longleftrightarrow>
     (case hso of
        None \<Rightarrow> False
      | Some h \<Rightarrow> js_field h ''permissionDecision'' = Some (JStr ''defer'') \<and> event \<notin> set DEFER_CAPABLE_HOOK_EVENTS)"

definition permission_decision_of :: "string \<Rightarrow> hook_permission_decision option" where
  "permission_decision_of s =
     (if s = ''allow'' then Some PermAllow
      else if s = ''ask'' then Some PermAsk
      else if s = ''deny'' then Some PermDeny
      else if s = ''defer'' then Some PermDefer
      else None)"

definition stringify_field :: "json option \<Rightarrow> string" where
  "stringify_field v = (case v of Some w \<Rightarrow> stringify w | None \<Rightarrow> ''undefined'')"

type_synonym tool_input_validator = "string \<Rightarrow> json \<Rightarrow> string option option"

definition invalidUpdatedInputMessage :: "string \<Rightarrow> string \<Rightarrow> string option \<Rightarrow> string" where
  "invalidUpdatedInputMessage label tool reason =
     ''Denied: hook '' @ label @ '' returned an updatedInput that does not match ''
     @ (if tool \<noteq> [] then tool @ [squote] @ ''s'' else ''the tool'' @ [squote] @ ''s'')
     @ '' input schema ('' @ the_default ''schema validation failed'' reason @ ''), so the call was not run with it.''"

text \<open>A rewritten input: absent, refused with the outcome that refuses it, or accepted.\<close>

definition read_updated_input ::
  "tool_input_validator \<Rightarrow> string \<Rightarrow> string \<Rightarrow> string \<Rightarrow> json option \<Rightarrow> hook_outcome + json option" where
  "read_updated_input validator tool label what got =
     (case got of
        None \<Rightarrow> Inr None
      | Some v \<Rightarrow>
          if \<not> isObject v then Inl (ErrorOutcome (Some (what @ '' is not an object'')) None)
          else
            (case validator tool v of
               Some reason \<Rightarrow> Inl (DecisionOutcome PermDeny (no_fields\<lparr>of_message := Some (invalidUpdatedInputMessage label tool reason)\<rparr>))
             | None \<Rightarrow> Inr (Some v)))"

definition interpretPreToolUse :: "tool_input_validator \<Rightarrow> string \<Rightarrow> string \<Rightarrow> json \<Rightarrow> hook_outcome" where
  "interpretPreToolUse validator tool label sync =
     (let pre = own_output PreToolUse sync;
          rawDecision = field_of pre ''permissionDecision'';
          decision = (case rawDecision of Some (JStr s) \<Rightarrow> permission_decision_of s | _ \<Rightarrow> None)
      in if rawDecision \<noteq> None \<and> decision = None
         then ErrorOutcome (Some (''malformed permissionDecision: '' @ stringify_field rawDecision)) None
         else
           (case read_updated_input validator tool label ''updatedInput'' (field_of pre ''updatedInput'') of
              Inl refused \<Rightarrow> refused
            | Inr transformed \<Rightarrow>
                (let base = no_fields\<lparr>of_transformedInput := transformed, of_extraContext := text_of (field_of pre ''additionalContext'')\<rparr>
                 in case decision of
                      Some d \<Rightarrow> DecisionOutcome d (base\<lparr>of_message := text_of (field_of pre ''permissionDecisionReason'')\<rparr>)
                    | None \<Rightarrow>
                        (let legacy = js_field sync ''decision'' in
                         if legacy = None then NoneOutcome base
                         else if legacy \<noteq> Some (JStr ''approve'') \<and> legacy \<noteq> Some (JStr ''block'')
                         then ErrorOutcome (Some (''malformed top-level decision: '' @ stringify_field legacy)) None
                         else DecisionOutcome (if legacy = Some (JStr ''block'') then PermDeny else PermAllow)
                                (base\<lparr>of_message := text_of (js_field sync ''reason'')\<rparr>)))))"

definition postToolFeedback :: "json \<Rightarrow> json option \<Rightarrow> string option" where
  "postToolFeedback sync hso =
     (let present = (\<lambda>v. case text_of v of Some s \<Rightarrow> if s \<noteq> [] then [s] else [] | None \<Rightarrow> []);
          parts = present (field_of hso ''additionalContext'')
                  @ (if js_field sync ''decision'' = Some (JStr ''block'') then present (js_field sync ''reason'') else [])
      in if parts = [] then None else Some (join_with [newline, newline] parts))"

definition nullish_or :: "json option \<Rightarrow> json option \<Rightarrow> json option" where
  "nullish_or a b = (if a = None \<or> a = Some JNull then b else a)"

definition interpretPostToolUse :: "json \<Rightarrow> hook_outcome" where
  "interpretPostToolUse sync =
     (let post = own_output PostToolUse sync in
      NoneOutcome (no_fields
        \<lparr>of_transformedOutput := nullish_or (field_of post ''updatedToolOutput'') (field_of post ''updatedMCPToolOutput''),
         of_extraContext := postToolFeedback sync post,
         of_classifierContext := text_of (field_of post ''classifierContext'')\<rparr>))"

definition interpretPostToolUseFailure :: "json \<Rightarrow> hook_outcome" where
  "interpretPostToolUseFailure sync =
     NoneOutcome (no_fields\<lparr>of_extraContext := postToolFeedback sync (own_output PostToolUseFailure sync)\<rparr>)"

datatype block_reading = NoBlock | MalformedBlock | BlockBecause string

definition blockReasonOf :: "json \<Rightarrow> block_reading" where
  "blockReasonOf sync =
     (case js_field sync ''decision'' of
        None \<Rightarrow> NoBlock
      | Some v \<Rightarrow>
          if v = JStr ''approve'' then NoBlock
          else if v \<noteq> JStr ''block'' then MalformedBlock
          else (case text_of (js_field sync ''reason'') of
                  Some r \<Rightarrow> if trim r \<noteq> [] then BlockBecause r else BlockBecause ''Blocked by hook''
                | None \<Rightarrow> BlockBecause ''Blocked by hook''))"

text \<open>The reader of the block-capable lifecycle events: UserPromptSubmit, Stop and SubagentStop.\<close>

definition interpretStopLike :: "hook_event \<Rightarrow> json \<Rightarrow> hook_outcome" where
  "interpretStopLike event sync =
     (let base = no_fields\<lparr>of_extraContext := text_of (field_of (own_output event sync) ''additionalContext'')\<rparr>
      in case blockReasonOf sync of
           MalformedBlock \<Rightarrow> ErrorOutcome (Some (''malformed top-level decision: '' @ stringify_field (js_field sync ''decision''))) None
         | NoBlock \<Rightarrow> NoneOutcome base
         | BlockBecause r \<Rightarrow> NoneOutcome (base\<lparr>of_blockReason := Some r\<rparr>))"

definition interpretUserPromptSubmit :: "json \<Rightarrow> hook_outcome" where
  "interpretUserPromptSubmit sync = interpretStopLike UserPromptSubmit sync"

definition interpretGeneric :: "json \<Rightarrow> hook_outcome" where
  "interpretGeneric sync =
     NoneOutcome (no_fields\<lparr>of_extraContext := text_of (field_of (hookSpecificOutputOf sync) ''additionalContext'')\<rparr>)"

definition interpretPermissionRequest :: "tool_input_validator \<Rightarrow> string \<Rightarrow> string \<Rightarrow> json \<Rightarrow> hook_outcome" where
  "interpretPermissionRequest validator tool label sync =
     (case own_output PermissionRequest sync of
        None \<Rightarrow> NoneOutcome no_fields
      | Some pr \<Rightarrow>
          (case js_field pr ''decision'' of
             None \<Rightarrow> NoneOutcome no_fields
           | Some d \<Rightarrow>
               if \<not> isObject d then ErrorOutcome (Some ''PermissionRequest decision is not an object'') None
               else if js_field d ''behavior'' = Some (JStr ''allow'') then
                 (case read_updated_input validator tool label ''PermissionRequest decision.updatedInput'' (js_field d ''updatedInput'') of
                    Inl refused \<Rightarrow> refused
                  | Inr transformed \<Rightarrow>
                      (case js_field d ''updatedPermissions'' of
                         None \<Rightarrow> DecisionOutcome PermAllow (no_fields\<lparr>of_transformedInput := transformed\<rparr>)
                       | Some (JArr us) \<Rightarrow>
                           DecisionOutcome PermAllow (no_fields\<lparr>of_transformedInput := transformed, of_updatedPermissions := Some us\<rparr>)
                       | Some _ \<Rightarrow> ErrorOutcome (Some ''PermissionRequest decision.updatedPermissions is not an array'') None))
               else if js_field d ''behavior'' = Some (JStr ''deny'') then
                 DecisionOutcome PermDeny
                   (no_fields\<lparr>of_message := text_of (js_field d ''message''), of_interrupt := bool_of (js_field d ''interrupt'')\<rparr>)
               else
                 ErrorOutcome
                   (Some (''PermissionRequest decision.behavior is not '' @ [dquote] @ ''allow'' @ [dquote] @ '' or '' @ [dquote] @ ''deny'' @ [dquote] @ '': ''
                          @ stringify_field (js_field d ''behavior''))) None))"

definition HOOK_EVENT_INTERPRETERS :: "hook_event \<Rightarrow> tool_input_validator \<Rightarrow> string \<Rightarrow> string \<Rightarrow> json \<Rightarrow> hook_outcome" where
  "HOOK_EVENT_INTERPRETERS event validator tool label sync =
     (case event of
        PreToolUse \<Rightarrow> interpretPreToolUse validator tool label sync
      | PostToolUse \<Rightarrow> interpretPostToolUse sync
      | PostToolUseFailure \<Rightarrow> interpretPostToolUseFailure sync
      | PermissionRequest \<Rightarrow> interpretPermissionRequest validator tool label sync
      | UserPromptSubmit \<Rightarrow> interpretUserPromptSubmit sync
      | Stop \<Rightarrow> interpretStopLike Stop sync
      | SubagentStop \<Rightarrow> interpretStopLike SubagentStop sync
      | _ \<Rightarrow> interpretGeneric sync)"

definition cap_fields :: "json \<Rightarrow> hook_outcome_fields \<Rightarrow> hook_outcome_fields" where
  "cap_fields sync f =
     (let nonempty = (\<lambda>v. case text_of v of Some s \<Rightarrow> if s \<noteq> [] then Some (cap s) else None | None \<Rightarrow> None);
          stops = (js_field sync ''continue'' = Some (JBool False))
      in f\<lparr>of_extraContext := map_option cap (of_extraContext f),
           of_classifierContext := map_option cap (of_classifierContext f),
           of_blockReason := map_option cap (of_blockReason f),
           of_message := map_option cap (of_message f),
           of_preventContinuation := stops,
           of_stopReason := (if stops then nonempty (js_field sync ''stopReason'') else None),
           of_systemMessage := nonempty (js_field sync ''systemMessage''),
           of_suppressOutput := (js_field sync ''suppressOutput'' = Some (JBool True))\<rparr>)"

definition applyHookEnvelope :: "hook_outcome \<Rightarrow> json \<Rightarrow> hook_outcome" where
  "applyHookEnvelope out sync =
     (case out of
        DecisionOutcome d f \<Rightarrow> DecisionOutcome d (cap_fields sync f)
      | NoneOutcome f \<Rightarrow> NoneOutcome (cap_fields sync f)
      | other \<Rightarrow> other)"

definition interpretSyncOutput :: "hook_event \<Rightarrow> tool_input_validator \<Rightarrow> string \<Rightarrow> string \<Rightarrow> json \<Rightarrow> hook_outcome" where
  "interpretSyncOutput event validator tool label sync =
     (if hasInvalidDefer (hookSpecificOutputOf sync) event
      then ErrorOutcome (Some (''defer is invalid on '' @ event_name event @ '' (non-suspendable event, WS-08 '' @ section_sign @ ''7)'')) None
      else applyHookEnvelope (HOOK_EVENT_INTERPRETERS event validator tool label sync) sync)"

definition mismatchedEventName :: "json \<Rightarrow> hook_event \<Rightarrow> bool" where
  "mismatchedEventName sync event \<longleftrightarrow>
     (case hookSpecificOutputOf sync of
        None \<Rightarrow> False
      | Some hso \<Rightarrow> js_field hso ''hookEventName'' \<noteq> Some (JStr (event_name event)))"

end
