(* ===== verification/Hook_Runner.thy ===== *)
theory Hook_Runner
  imports Hook_Answers
begin

text \<open>
  The hook runner (\<^verbatim>\<open>hooks/runner.ts\<close>): the request of an invocation, the failures of a hook with the fail-closed denial, and the loop that invokes
  the matched hooks in order until one denies. A run is the list of its effects (lifecycle frames, invocations, audit records) and the composite. The invoker is a parameter: it
  answers a request and its time limit with a JSON value, with a thrown error, or not in time. The lookup of the
  server behind a tool name and the ids of the requests are parameters too. Times, random audit ids and the abort signal of a timed-out hook are host effects.
\<close>

subsection \<open>Requests and answers\<close>

record hook_invocation_request =
  rq_event :: hook_event
  rq_matchedMatcher :: "string option"
  rq_sessionId :: string
  rq_agentID :: "string option"
  rq_toolUseID :: "string option"
  rq_toolName :: "string option"
  rq_mcpServerName :: "string option"
  rq_mcpToolName :: "string option"
  rq_mcpServer :: "mcp_server_identity option"
  rq_input :: "tool_input option"
  rq_payload :: "json option"
  rq_policyVersion :: string
  rq_requestId :: string
  rq_hookId :: string
  rq_hookName :: "string option"

record process_output =
  po_stdout :: string
  po_stderr :: string
  po_exitCode :: "int option"

text \<open>A thrown value: its fields when it is an object, and the message it carries when it is an error or a text.\<close>

record thrown_value =
  th_fields :: "(string \<Rightarrow> json option) option"
  th_message :: "string option"

datatype raw_answer =
    Answers json "process_output option"
  | Throws thrown_value "process_output option"
  | NotInTime

record run_hooks_call =
  rc_toolUseID :: "string option"
  rc_toolName :: "string option"
  rc_mcpServer :: "mcp_server_identity option"
  rc_input :: "tool_input option"
  rc_payload :: "json option"

record run_hooks_context =
  rx_registry :: "sourced_hook_entry list"
  rx_url :: url_parser
  rx_regex :: regex_engine
  rx_invoke :: "hook_invocation_request \<Rightarrow> nat \<Rightarrow> raw_answer"
  rx_sessionId :: string
  rx_policyVersion :: nat
  rx_agentID :: "string option"
  rx_gatingTimeoutMs :: "nat option"
  rx_observationalTimeoutMs :: "nat option"
  rx_validator :: "tool_input_validator option"
  rx_mcpProvenance :: "string \<Rightarrow> (string \<times> string) option"
  rx_requestId :: "nat \<Rightarrow> string"

definition GATING_HOOK_EVENTS :: "hook_event list" where
  "GATING_HOOK_EVENTS = [PreToolUse, PermissionRequest, UserPromptSubmit, Stop, PreCompact]"

definition MCP_SERVER_IDENTITY_EVENTS :: "hook_event list" where
  "MCP_SERVER_IDENTITY_EVENTS = [PreToolUse, PostToolUse, PostToolUseFailure]"

definition FAIL_CLOSED_EVENTS :: "hook_event list" where
  "FAIL_CLOSED_EVENTS = [PreToolUse, PermissionRequest]"

definition DEFAULT_GATING_TIMEOUT_MS :: nat where
  "DEFAULT_GATING_TIMEOUT_MS = 60000"

definition DEFAULT_OBSERVATIONAL_TIMEOUT_MS :: nat where
  "DEFAULT_OBSERVATIONAL_TIMEOUT_MS = 30000"

definition defaultTimeoutMsFor :: "run_hooks_context \<Rightarrow> hook_event \<Rightarrow> sourced_hook_entry \<Rightarrow> nat" where
  "defaultTimeoutMsFor ctx event entry =
     (case hk_timeoutMs entry of
        Some t \<Rightarrow> t
      | None \<Rightarrow>
          if event \<in> set GATING_HOOK_EVENTS then the_default DEFAULT_GATING_TIMEOUT_MS (rx_gatingTimeoutMs ctx)
          else the_default DEFAULT_OBSERVATIONAL_TIMEOUT_MS (rx_observationalTimeoutMs ctx))"

definition NO_SCHEMAS_YET_VALIDATOR :: tool_input_validator where
  "NO_SCHEMAS_YET_VALIDATOR tool value = None"

definition matcherSubjectOf :: "hook_event \<Rightarrow> run_hooks_call \<Rightarrow> string option" where
  "matcherSubjectOf event call =
     (case rc_toolName call of
        Some t \<Rightarrow> Some t
      | None \<Rightarrow>
          (case (MATCHER_SUBJECT_FIELD event, rc_payload call) of
             (Some name, Some payload) \<Rightarrow> if isObject payload then text_of (js_field payload name) else None
           | _ \<Rightarrow> None))"

definition buildRequest ::
  "sourced_hook_entry \<Rightarrow> hook_event \<Rightarrow> run_hooks_call \<Rightarrow> run_hooks_context \<Rightarrow> tool_input option \<Rightarrow> string \<Rightarrow> hook_invocation_request" where
  "buildRequest entry event call ctx currentInput requestId =
     (let provenance = (case rc_toolName call of Some t \<Rightarrow> rx_mcpProvenance ctx t | None \<Rightarrow> None)
      in \<lparr>rq_event = event, rq_matchedMatcher = hk_matcher entry, rq_sessionId = rx_sessionId ctx, rq_agentID = rx_agentID ctx,
          rq_toolUseID = rc_toolUseID call, rq_toolName = rc_toolName call,
          rq_mcpServerName = map_option fst provenance, rq_mcpToolName = map_option snd provenance,
          rq_mcpServer = (if event \<in> set MCP_SERVER_IDENTITY_EVENTS then rc_mcpServer call else None),
          rq_input = currentInput, rq_payload = rc_payload call, rq_policyVersion = show_radix 10 (rx_policyVersion ctx),
          rq_requestId = requestId, rq_hookId = hk_id entry, rq_hookName = hk_name entry\<rparr>)"

subsection \<open>Failures\<close>

definition code_char :: "char \<Rightarrow> bool" where
  "code_char c \<longleftrightarrow> is_name_char c \<or> c \<in> set ''.-''"

definition failureCodeOf :: "thrown_value \<Rightarrow> string" where
  "failureCodeOf err =
     (case th_fields err of
        None \<Rightarrow> ''hook_error''
      | Some get \<Rightarrow>
          (case (case get ''code'' of Some (JStr c) \<Rightarrow> if c \<noteq> [] \<and> length c \<le> 64 \<and> list_all code_char c then Some c else None | _ \<Rightarrow> None) of
             Some c \<Rightarrow> c
           | None \<Rightarrow>
               (case get ''exitCode'' of
                  Some (JNum n) \<Rightarrow> ''exit_code_'' @ int_text n
                | Some JNull \<Rightarrow> if get ''name'' = Some (JStr ''CommandHookError'') then ''terminated'' else ''hook_error''
                | _ \<Rightarrow> ''hook_error'')))"

definition hookLabelOf :: "sourced_hook_entry \<Rightarrow> string" where
  "hookLabelOf entry =
     (case hk_name entry of
        Some n \<Rightarrow> if n \<noteq> [] then [dquote] @ n @ [dquote] @ '' ('' @ hk_id entry @ '')'' else [dquote] @ hk_id entry @ [dquote]
      | None \<Rightarrow> [dquote] @ hk_id entry @ [dquote])"

definition failClosedDenial :: "sourced_hook_entry \<Rightarrow> hook_event \<Rightarrow> string \<Rightarrow> hook_outcome" where
  "failClosedDenial entry event code =
     DecisionOutcome PermDeny
       (no_fields\<lparr>of_message := Some (''Denied: the '' @ event_name event @ '' hook '' @ hookLabelOf entry @ '' failed ('' @ code
          @ ''), and it is fail-closed, so the call was not allowed to proceed without its answer.'')\<rparr>)"

definition fail_closed :: "sourced_hook_entry \<Rightarrow> hook_event \<Rightarrow> bool" where
  "fail_closed entry event \<longleftrightarrow> hk_failClosed entry \<and> event \<in> set FAIL_CLOSED_EVENTS"

text \<open>What the hook did, before the policy on failures.\<close>

definition read_answer :: "run_hooks_context \<Rightarrow> hook_event \<Rightarrow> run_hooks_call \<Rightarrow> sourced_hook_entry \<Rightarrow> raw_answer \<Rightarrow> hook_outcome" where
  "read_answer ctx event call entry answer =
     (let strict = fail_closed entry event; malformed = (\<lambda>reason. ErrorOutcome (Some reason) (Some ''malformed_output'')) in
      case answer of
        NotInTime \<Rightarrow> TimeoutOutcome
      | Throws err _ \<Rightarrow> ErrorOutcome (th_message err) (Some (failureCodeOf err))
      | Answers v _ \<Rightarrow>
          (case classifyRawOutput v of
             MalformedOutput \<Rightarrow> malformed ''malformed hook output''
           | AsyncOutput \<Rightarrow> if strict then malformed ''async answer from a fail-closed gating hook'' else NoneOutcome no_fields
           | SyncOutput sync \<Rightarrow>
               if strict \<and> mismatchedEventName sync event then malformed ''hookSpecificOutput names another event''
               else
                 (case interpretSyncOutput event (the_default NO_SCHEMAS_YET_VALIDATOR (rx_validator ctx)) (the_default [] (rc_toolName call))
                         (hookLabelOf entry) sync of
                    ErrorOutcome reason None \<Rightarrow> ErrorOutcome reason (Some ''malformed_output'')
                  | other \<Rightarrow> other)))"

text \<open>A fail-closed hook that failed denies.\<close>

definition apply_fail_closed :: "sourced_hook_entry \<Rightarrow> hook_event \<Rightarrow> hook_outcome \<Rightarrow> hook_outcome" where
  "apply_fail_closed entry event out =
     (if \<not> fail_closed entry event then out
      else
        (case out of
           ErrorOutcome _ code \<Rightarrow> failClosedDenial entry event (the_default ''hook_error'' code)
         | TimeoutOutcome \<Rightarrow> failClosedDenial entry event ''timeout''
         | other \<Rightarrow> other))"

subsection \<open>The loop\<close>

datatype public_outcome = PublicSuccess | PublicError

fun publicLifecycleOutcomeOf :: "hook_outcome \<Rightarrow> public_outcome" where
  "publicLifecycleOutcomeOf (DecisionOutcome _ _) = PublicSuccess"
| "publicLifecycleOutcomeOf (NoneOutcome _) = PublicSuccess"
| "publicLifecycleOutcomeOf _ = PublicError"

record hook_audit_record =
  au_hookId :: string
  au_hookName :: "string option"
  au_hookEvent :: hook_event
  au_sessionId :: string
  au_toolUseID :: "string option"
  au_agentID :: "string option"
  au_requestId :: "string option"
  au_outcome :: hook_invocation_outcome
  au_decision :: "hook_permission_decision option"

datatype hook_effect =
    HookStarted string
  | HookInvoked hook_invocation_request nat
  | HookAudited hook_audit_record
  | HookResponded string public_outcome "(string \<times> string \<times> int option) option"

definition buildAuditRecord ::
  "sourced_hook_entry \<Rightarrow> hook_event \<Rightarrow> run_hooks_context \<Rightarrow> run_hooks_call \<Rightarrow> hook_outcome \<Rightarrow> string option \<Rightarrow> hook_audit_record" where
  "buildAuditRecord entry event ctx call out requestId =
     \<lparr>au_hookId = hk_id entry, au_hookName = hk_name entry, au_hookEvent = event, au_sessionId = rx_sessionId ctx,
      au_toolUseID = rc_toolUseID call, au_agentID = rx_agentID ctx, au_requestId = requestId,
      au_outcome = lifecycleOutcomeOf out, au_decision = decision_of out\<rparr>"

definition process_output_of :: "raw_answer \<Rightarrow> process_output option" where
  "process_output_of answer = (case answer of Answers _ p \<Rightarrow> p | Throws _ p \<Rightarrow> p | NotInTime \<Rightarrow> None)"

definition shown_output :: "hook_outcome \<Rightarrow> raw_answer \<Rightarrow> (string \<times> string \<times> int option) option" where
  "shown_output out answer =
     (let suppress = (case contribution out of Some f \<Rightarrow> of_suppressOutput f | None \<Rightarrow> False)
      in map_option (\<lambda>p. (if suppress then [] else po_stdout p, po_stderr p, po_exitCode p)) (process_output_of answer))"

definition next_input :: "hook_outcome \<Rightarrow> tool_input option \<Rightarrow> tool_input option" where
  "next_input out current =
     (case contribution out of
        Some f \<Rightarrow> (case of_transformedInput f of Some v \<Rightarrow> Some (js_field v) | None \<Rightarrow> current)
      | None \<Rightarrow> current)"

text \<open>One invocation: its effects and its outcome.\<close>

definition hook_turn ::
  "run_hooks_context \<Rightarrow> hook_event \<Rightarrow> run_hooks_call \<Rightarrow> nat \<Rightarrow> tool_input option \<Rightarrow> sourced_hook_entry \<Rightarrow> hook_effect list \<times> hook_outcome" where
  "hook_turn ctx event call n currentInput entry =
     (let request = buildRequest entry event call ctx currentInput (rx_requestId ctx n);
          timeoutMs = defaultTimeoutMsFor ctx event entry;
          answer = rx_invoke ctx request timeoutMs;
          did = read_answer ctx event call entry answer;
          out = apply_fail_closed entry event did
      in ([HookStarted (hk_id entry), HookInvoked request timeoutMs,
           HookAudited (buildAuditRecord entry event ctx call out (Some (rq_requestId request))),
           HookResponded (hk_id entry) (publicLifecycleOutcomeOf did) (shown_output out answer)],
          out))"

fun hook_loop ::
  "run_hooks_context \<Rightarrow> hook_event \<Rightarrow> run_hooks_call \<Rightarrow> nat \<Rightarrow> bool \<Rightarrow> tool_input option \<Rightarrow> sourced_hook_entry list
    \<Rightarrow> hook_effect list \<times> hook_outcome_entry list" where
  "hook_loop ctx event call n denied currentInput [] = ([], [])"
| "hook_loop ctx event call n denied currentInput (entry # later) =
     (if denied then
        (let (effects, results) = hook_loop ctx event call (Suc n) denied currentInput later
         in (HookAudited (buildAuditRecord entry event ctx call SkippedOutcome None) # effects, (entry, SkippedOutcome) # results))
      else
        (let (done, out) = hook_turn ctx event call n currentInput entry;
             (effects, results) =
               hook_loop ctx event call (Suc n) (decision_of out = Some PermDeny) (next_input out currentInput) later
         in (done @ effects, (entry, out) # results)))"

definition runHooks :: "hook_event \<Rightarrow> run_hooks_call \<Rightarrow> run_hooks_context \<Rightarrow> hook_effect list \<times> hook_composite" where
  "runHooks event call ctx =
     (let matched = matching (rx_url ctx) (rx_regex ctx) (rx_registry ctx) event (matcherSubjectOf event call);
          (effects, results) = hook_loop ctx event call 0 False (rc_input call) matched
      in (effects, reduceHookOutcomes results))"

end
