(* ===== verification/Hook_Stage.thy ===== *)
theory Hook_Stage
  imports Hook_Runner
begin

text \<open>
  The hook stage of the pipeline (\<^verbatim>\<open>hooks/hook-stage.ts\<close>): the composite of a run becomes the decision the evaluator reads, for the event before a tool runs and for the
  event before a person is asked. Then the pipeline with all its stages wired: hooks, prompt and policy.
\<close>

subsection \<open>From composites to decisions\<close>

definition stopAsDenial :: "hook_composite \<Rightarrow> hook_composite" where
  "stopAsDenial c =
     (case hc_preventContinuation c of
        None \<Rightarrow> c
      | Some s \<Rightarrow>
          if hc_decision c = Some PermDeny then c
          else c\<lparr>hc_decision := Some PermDeny,
                 hc_message := Some (case sr_reason s of Some r \<Rightarrow> ''Stopped by hook: '' @ r | None \<Rightarrow> ''Stopped by hook'')\<rparr>)"

definition winningHookId :: "hook_composite \<Rightarrow> string option" where
  "winningHookId c =
     (case hc_decision c of
        None \<Rightarrow> None
      | Some d \<Rightarrow>
          map_option lm_hookId
            (List.find (\<lambda>m. lm_outcome m = DecisionKind \<and> lm_decision m = Some d) (hc_lifecycleMessages c)))"

definition answering_hook :: "hook_composite \<Rightarrow> string option" where
  "answering_hook c =
     (case winningHookId c of Some i \<Rightarrow> Some i | None \<Rightarrow> map_option sr_hookId (hc_preventContinuation c))"

definition stage_context :: "run_hooks_context \<Rightarrow> nat \<Rightarrow> permission_call \<Rightarrow> run_hooks_context" where
  "stage_context deps version call =
     deps\<lparr>rx_policyVersion := version,
          rx_agentID := (case rx_agentID deps of Some a \<Rightarrow> Some a | None \<Rightarrow> pc_agentId call)\<rparr>"

definition pre_tool_use_call :: "(permission_call \<Rightarrow> mcp_server_identity option) \<Rightarrow> permission_call \<Rightarrow> run_hooks_call" where
  "pre_tool_use_call server call =
     \<lparr>rc_toolUseID = pc_toolUseId call, rc_toolName = Some (tool_of call), rc_mcpServer = server call, rc_input = Some (input_of call), rc_payload = None\<rparr>"

definition hook_decision_of :: "hook_composite \<Rightarrow> hook_decision" where
  "hook_decision_of c =
     (let transformed = map_option js_field (hc_transformedInput c); hookId = answering_hook c in
      case hc_decision c of
        Some PermDeny \<Rightarrow>
          \<lparr>hd_decision = HookDeny, hd_transformedInput = transformed, hd_message = hc_message c, hd_interrupt = hc_interrupt c, hd_hookId = hookId\<rparr>
      | Some PermAsk \<Rightarrow>
          \<lparr>hd_decision = HookAsk, hd_transformedInput = transformed, hd_message = hc_message c, hd_interrupt = None, hd_hookId = hookId\<rparr>
      | Some PermDefer \<Rightarrow>
          \<lparr>hd_decision = HookDefer, hd_transformedInput = transformed, hd_message = hc_message c, hd_interrupt = None, hd_hookId = hookId\<rparr>
      | Some PermAllow \<Rightarrow>
          \<lparr>hd_decision = HookAllow, hd_transformedInput = transformed, hd_message = None, hd_interrupt = None, hd_hookId = hookId\<rparr>
      | None \<Rightarrow>
          \<lparr>hd_decision = HookNoOpinion, hd_transformedInput = transformed, hd_message = None, hd_interrupt = None, hd_hookId = None\<rparr>)"

definition preToolUse ::
  "run_hooks_context \<Rightarrow> (permission_call \<Rightarrow> mcp_server_identity option) \<Rightarrow> nat \<Rightarrow> permission_call \<Rightarrow> hook_decision" where
  "preToolUse deps server version call =
     hook_decision_of (stopAsDenial (snd (runHooks PreToolUse (pre_tool_use_call server call) (stage_context deps version call))))"

text \<open>The suggestion offered to the hooks of a permission request, as the JSON value of their payload.\<close>

definition suggestion_payload :: "prompt_meta \<Rightarrow> json option" where
  "suggestion_payload meta =
     (case pm_matchedAskRule meta of
        None \<Rightarrow> None
      | Some (_, tool, content) \<Rightarrow>
          Some (JObj [(''permission_suggestions'',
            JArr [JObj [(''type'', JStr ''addRules''),
                        (''rules'', JArr [JObj ((''toolName'', JStr tool) # (case content of Some c \<Rightarrow> [(''ruleContent'', JStr c)] | None \<Rightarrow> []))]),
                        (''behavior'', JStr ''allow''), (''destination'', JStr ''session'')]])]))"

definition permission_request_call :: "permission_call \<Rightarrow> prompt_meta \<Rightarrow> run_hooks_call" where
  "permission_request_call call meta =
     \<lparr>rc_toolUseID = pc_toolUseId call, rc_toolName = Some (tool_of call), rc_mcpServer = None, rc_input = Some (input_of call),
      rc_payload = suggestion_payload meta\<rparr>"

definition request_decision_of :: "(json \<Rightarrow> permission_update) \<Rightarrow> hook_composite \<Rightarrow> request_hook_decision option" where
  "request_decision_of as_update c =
     (case hc_decision c of
        Some PermDeny \<Rightarrow>
          Some \<lparr>rh_decision = AnswerDeny, rh_transformedInput = None, rh_updatedPermissions = None, rh_message = hc_message c,
                rh_interrupt = hc_interrupt c, rh_hookId = answering_hook c\<rparr>
      | Some PermAllow \<Rightarrow>
          Some \<lparr>rh_decision = AnswerAllow, rh_transformedInput = map_option js_field (hc_transformedInput c),
                rh_updatedPermissions = map_option (map as_update) (hc_updatedPermissions c), rh_message = None, rh_interrupt = None,
                rh_hookId = answering_hook c\<rparr>
      | _ \<Rightarrow> None)"

definition permissionRequest ::
  "run_hooks_context \<Rightarrow> (json \<Rightarrow> permission_update) \<Rightarrow> nat \<Rightarrow> permission_call \<Rightarrow> prompt_meta \<Rightarrow> request_hook_decision option" where
  "permissionRequest deps as_update version call meta =
     request_decision_of as_update
       (stopAsDenial (snd (runHooks PermissionRequest (permission_request_call call meta) (stage_context deps version call))))"

subsection \<open>The wired pipeline\<close>

record host_stages =
  hs_deps :: run_hooks_context
  hs_server :: "permission_call \<Rightarrow> mcp_server_identity option"
  hs_as_update :: "json \<Rightarrow> permission_update"
  hs_host :: "permission_request_payload \<Rightarrow> settlement"
  hs_fresh :: "permission_call \<Rightarrow> prompt_meta \<Rightarrow> string"

definition wired :: "host_stages \<Rightarrow> evaluation_context \<Rightarrow> evaluation_context" where
  "wired st ctx =
     ctx\<lparr>cx_preToolUse := preToolUse (hs_deps st) (hs_server st) (version_of ctx),
         cx_permissionRequest := permissionRequest (hs_deps st) (hs_as_update st) (version_of ctx),
         cx_prompt := bridge_prompt (rx_url (hs_deps st)) (hs_as_update st) (hs_server st) (version_of ctx) (hs_host st) (hs_fresh st)\<rparr>"

subsection \<open>What a run guarantees\<close>

lemma stage_context_simps [simp]:
  "rx_registry (stage_context deps v call) = rx_registry deps" "rx_url (stage_context deps v call) = rx_url deps"
  "rx_regex (stage_context deps v call) = rx_regex deps" "rx_invoke (stage_context deps v call) = rx_invoke deps"
  "rx_validator (stage_context deps v call) = rx_validator deps"
  by (simp_all add: stage_context_def)

lemma subject_pre [simp]: "matcherSubjectOf event (pre_tool_use_call server call) = Some (tool_of call)"
  by (simp add: matcherSubjectOf_def pre_tool_use_call_def)

lemma buildRequest_id [simp]: "rq_hookId (buildRequest entry event call ctx input i) = hk_id entry"
  by (simp add: buildRequest_def Let_def)

text \<open>The results of a run: one per hook, in order; skipped after a denial.\<close>

lemma loop_hooks: "map fst (snd (hook_loop ctx event call n denied input hooks)) = hooks"
  by (induction hooks arbitrary: n denied input) (auto simp: case_prod_beta)

lemma loop_audits:
  "List.map_filter (\<lambda>e. case e of HookAudited a \<Rightarrow> Some (au_hookId a, au_outcome a) | _ \<Rightarrow> None) (fst (hook_loop ctx event call n denied input hooks))
    = map (\<lambda>(h, out). (hk_id h, lifecycleOutcomeOf out)) (snd (hook_loop ctx event call n denied input hooks))"
  by (induction hooks arbitrary: n denied input)
    (auto simp: case_prod_beta hook_turn_def Let_def buildAuditRecord_def List.map_filter_simps)

lemma loop_invoked:
  "HookInvoked r t \<in> set (fst (hook_loop ctx event call n denied input hooks)) \<Longrightarrow> \<exists>h \<in> set hooks. rq_hookId r = hk_id h"
  by (induction hooks arbitrary: n denied input) (auto simp: case_prod_beta hook_turn_def Let_def split: if_splits)

lemma loop_denied: "snd (hook_loop ctx event call n True input hooks) = map (\<lambda>h. (h, SkippedOutcome)) hooks"
  by (induction hooks arbitrary: n) (auto simp: case_prod_beta)

lemma loop_skips:
  assumes "snd (hook_loop ctx event call n denied input hooks) = done @ (h, out) # later" "decision_of out = Some PermDeny"
  shows "\<forall>(h', out') \<in> set later. out' = SkippedOutcome"
  using assms
proof (induction hooks arbitrary: n denied input "done")
  case (Cons x hooks)
  then show ?case
  proof (cases denied)
    case True
    then have "(h, out) \<in> set (map (\<lambda>h. (h, SkippedOutcome)) (x # hooks))"
      using Cons.prems(1) loop_denied [of ctx event call n input "x # hooks"] by (metis in_set_conv_decomp)
    then show ?thesis using Cons.prems(2) by (auto simp: decision_of_def)
  next
    case False
    then show ?thesis
      using Cons.prems Cons.IH loop_denied
      by (cases "done") (fastforce simp: case_prod_beta)+
  qed
qed simp

text \<open>A hook that would deny is reached, or an earlier hook denied.\<close>

definition denies :: "run_hooks_context \<Rightarrow> hook_event \<Rightarrow> run_hooks_call \<Rightarrow> sourced_hook_entry \<Rightarrow> bool" where
  "denies ctx event call h \<longleftrightarrow>
     (\<forall>request t. rq_hookId request = hk_id h \<longrightarrow>
        decision_of (apply_fail_closed h event (read_answer ctx event call h (rx_invoke ctx request t))) = Some PermDeny)"

lemma loop_denies:
  assumes "h \<in> set hooks" "denies ctx event call h"
  shows "PermDeny \<in> set (decisions (snd (hook_loop ctx event call n False input hooks)))"
  using assms(1)
proof (induction hooks arbitrary: n input)
  case (Cons x hooks)
  let ?turn = "hook_turn ctx event call n input x"
  have turn: "decision_of (snd ?turn) = Some PermDeny" if "x = h"
    using assms(2) that by (simp add: hook_turn_def Let_def denies_def)
  show ?case
  proof (cases "decision_of (snd ?turn) = Some PermDeny")
    case True
    then show ?thesis by (simp add: case_prod_beta)
  next
    case False
    then have "h \<in> set hooks" using Cons.prems turn by auto
    from Cons.IH [OF this] False show ?thesis by (auto simp: case_prod_beta split: option.splits)
  qed
qed simp

lemma PermDeny_top [simp]: "d \<le> PermDeny"
  by (cases d) (simp_all add: less_eq_hook_permission_decision_def)

lemma strictest_deny: "PermDeny \<in> set ds \<Longrightarrow> strictest ds = Some PermDeny"
  unfolding strictest_def by (cases "ds = []") (simp_all, rule Max_eqI, simp_all)

lemma run_denies:
  assumes "h \<in> set (matching (rx_url ctx) (rx_regex ctx) (rx_registry ctx) event (matcherSubjectOf event call))" "denies ctx event call h"
  shows "hc_decision (snd (runHooks event call ctx)) = Some PermDeny"
  using strictest_deny [OF loop_denies [OF assms]] by (simp add: runHooks_def case_prod_beta reduce_decision Let_def)

lemma stop_keeps_deny [simp]: "hc_decision c = Some PermDeny \<Longrightarrow> stopAsDenial c = c"
  by (simp add: stopAsDenial_def split: option.split)

lemma stage_denies:
  assumes "h \<in> set (matching (rx_url deps) (rx_regex deps) (rx_registry deps) PreToolUse (Some (tool_of call)))"
    and "denies (stage_context deps version call) PreToolUse (pre_tool_use_call server call) h"
  shows "hd_decision (preToolUse deps server version call) = HookDeny"
  using run_denies [of h "stage_context deps version call" PreToolUse "pre_tool_use_call server call"] assms
  by (simp add: preToolUse_def hook_decision_of_def Let_def)

text \<open>A fail-closed hook that fails denies.\<close>

definition fails :: "hook_event \<Rightarrow> raw_answer \<Rightarrow> bool" where
  "fails event answer \<longleftrightarrow>
     (case answer of
        NotInTime \<Rightarrow> True
      | Throws _ _ \<Rightarrow> True
      | Answers v _ \<Rightarrow> (case classifyRawOutput v of SyncOutput sync \<Rightarrow> mismatchedEventName sync event | _ \<Rightarrow> True))"

lemma fail_closed_denies:
  assumes "hk_failClosed h" "event \<in> set FAIL_CLOSED_EVENTS" "\<forall>request t. rq_hookId request = hk_id h \<longrightarrow> fails event (rx_invoke ctx request t)"
  shows "denies ctx event call h"
proof -
  have "decision_of (apply_fail_closed h event (read_answer ctx event call h a)) = Some PermDeny" if "fails event a" for a
    using that assms(1,2)
    by (auto simp: read_answer_def apply_fail_closed_def fail_closed_def fails_def failClosedDenial_def decision_of_def Let_def
        split: raw_answer.splits classified_output.splits)
  then show ?thesis using assms(3) by (simp add: denies_def)
qed

end
