(* ===== verification/Rpc_Safety.thy ===== *)
theory Rpc_Safety
  imports Rpc_Bridge
begin

text \<open>
  What holds in every execution of the control channel, whatever the host, the clock and the callers do and in which order: the books of the pending requests, the
  frames on the wire, and the requests when the connection ends.
\<close>

definition timer_id :: "armed_timer \<Rightarrow> string" where
  "timer_id t = (case t of RequestTimer k _ _ \<Rightarrow> k | GraceTimer k _ _ \<Rightarrow> k)"

declare map_of_eq_Some_iff [simp del] Some_eq_map_of_iff [simp del]

lemma delete_map [simp]: "map_of (AList.delete k al) = (map_of al)(k := None)"
  by (simp add: AList.delete_conv')

lemma update_map [simp]: "map_of (AList.update k v al) = (map_of al)(k \<mapsto> v)"
  by (simp add: AList.update_conv')

text \<open>
  What the bridge keeps between its pending entries, its timers and its settlements: a pending entry or an armed timer is of a promise issued and not
  settled, and no two entries have the same promise. The lemmas are its ways to change.
\<close>

definition books_ok :: "(string \<rightharpoonup> pending_rpc) \<Rightarrow> (nat \<rightharpoonup> armed_timer) \<Rightarrow> nat list \<Rightarrow> nat \<Rightarrow> bool" where
  "books_ok P T S p \<longleftrightarrow> distinct S \<and> (\<forall>n \<in> set S. n < p) \<and> (\<forall>n t. T n = Some t \<longrightarrow> n < p \<and> n \<notin> set S) \<and>
     (\<forall>k e. P k = Some e \<longrightarrow> pe_promise e < p \<and> pe_promise e \<notin> set S \<and> (\<forall>t. T (pe_promise e) = Some t \<longrightarrow> timer_id t = k)) \<and>
     (\<forall>k e k' e'. P k = Some e \<longrightarrow> P k' = Some e' \<longrightarrow> pe_promise e = pe_promise e' \<longrightarrow> k = k')"

lemma books_less: "books_ok P T S p \<Longrightarrow> P' \<subseteq>\<^sub>m P \<Longrightarrow> T' \<subseteq>\<^sub>m T \<Longrightarrow> books_ok P' T' S p"
  unfolding books_ok_def by (auto simp: map_le_def dom_def)

lemma books_settle:
  "books_ok P T S p \<Longrightarrow> n < p \<Longrightarrow> n \<notin> set S \<Longrightarrow> T n = None \<Longrightarrow> \<forall>k e. P k = Some e \<longrightarrow> pe_promise e \<noteq> n \<Longrightarrow> books_ok P T (S @ [n]) p"
  by (force simp: books_ok_def)

lemma books_refuse: "books_ok P T S p \<Longrightarrow> books_ok P T (S @ [p]) (Suc p)"
  unfolding books_ok_def by (auto simp: less_Suc_eq)

lemma books_issue:
  assumes "books_ok P T S p" "\<forall>t. timer = Some t \<longrightarrow> timer_id t = k"
  shows "books_ok (P(k \<mapsto> \<lparr>pe_subtype = s, pe_promise = p\<rparr>)) (T(p := timer)) S (Suc p)"
  using assms unfolding books_ok_def by (auto simp: less_Suc_eq)

lemma books_arm:
  assumes "books_ok P T S p" "P k = Some e" "timer_id t = k"
  shows "books_ok P (T(pe_promise e \<mapsto> t)) S p"
  using assms unfolding books_ok_def by (auto split: if_splits)

lemma books_leave:
  assumes "books_ok P T S p" "P k = Some e"
  shows "books_ok (P(k := None)) (T(pe_promise e := None)) (S @ [pe_promise e]) p"
proof (rule books_settle)
  show "books_ok (P(k := None)) (T(pe_promise e := None)) S p"
    by (rule books_less [OF assms(1)]) (auto simp: map_le_def)
qed (use assms in \<open>auto simp: books_ok_def\<close>)

text \<open>The state of the bridge in these terms.\<close>

definition bridge_ok :: "'p rpc_bridge \<Rightarrow> bool" where
  "bridge_ok b \<longleftrightarrow> distinct (map fst (rb_pending b)) \<and>
     books_ok (map_of (rb_pending b)) (map_of (rb_timers b)) (map fst (rb_settled b)) (rb_promises b)"

lemmas bridge_ops = write_frame_def settle_promise_def clear_timer_def detach_listener_def drop_pending_def drop_held_def

lemma entry_facts:
  assumes "bridge_ok b" "map_of (rb_pending b) k = Some e"
  shows "pe_promise e < rb_promises b" "pe_promise e \<notin> set (map fst (rb_settled b))"
    "map_of (rb_timers b) (pe_promise e) = Some t \<Longrightarrow> timer_id t = k"
    "map_of (rb_pending b) k' = Some e' \<Longrightarrow> pe_promise e' = pe_promise e \<Longrightarrow> k' = k"
  using assms unfolding bridge_ok_def books_ok_def by metis+

lemma reject_all_fields:
  "rb_pending (fold (reject_entry err) es b) = rb_pending b"
  "rb_held (fold (reject_entry err) es b) = rb_held b"
  "rb_closed (fold (reject_entry err) es b) = rb_closed b"
  "rb_output (fold (reject_entry err) es b) = rb_output b"
  "rb_promises (fold (reject_entry err) es b) = rb_promises b"
  "rb_settled (fold (reject_entry err) es b) = rb_settled b @ map (\<lambda>e. (pe_promise e, Rejected (OtherError err))) es"
  by (induction es arbitrary: b) (auto simp: reject_entry_def Let_def bridge_ops)

lemma reject_all_books:
  assumes "books_ok P (map_of (rb_timers b)) (map fst (rb_settled b)) (rb_promises b)"
    and "distinct (map fst al)" "map_of al \<subseteq>\<^sub>m P"
  shows "books_ok (\<lambda>_. None) (map_of (rb_timers (fold (reject_entry err) (map snd al) b)))
    (map fst (rb_settled (fold (reject_entry err) (map snd al) b))) (rb_promises b)"
  using assms
proof (induction al arbitrary: b P)
  case Nil
  then show ?case by (auto intro: books_less)
next
  case (Cons x al)
  obtain k e where x: "x = (k, e)" by (cases x)
  have "P k = Some e" using Cons.prems(3) x by (auto simp: map_le_def dom_def)
  from books_leave [OF Cons.prems(1) this]
  have "books_ok (P(k := None)) (map_of (rb_timers (reject_entry err e b))) (map fst (rb_settled (reject_entry err e b))) (rb_promises (reject_entry err e b))"
    by (simp add: reject_entry_def Let_def bridge_ops)
  moreover have "map_of al \<subseteq>\<^sub>m P(k := None)"
    using Cons.prems(2,3) x by (force simp: map_le_def dom_def dest: map_of_SomeD split: if_splits)
  moreover have "rb_promises (reject_entry err e b) = rb_promises b" by (simp add: reject_entry_def Let_def bridge_ops)
  ultimately show ?case
    using Cons.IH [of "P(k := None)" "reject_entry err e b"] Cons.prems(2) x by (simp del: fun_upd_apply add: fun_upd_def)
qed

lemma open_fields:
  "rb_pending (fold write_frame fs b) = rb_pending b" "rb_timers (fold write_frame fs b) = rb_timers b"
  "rb_closed (fold write_frame fs b) = rb_closed b" "rb_settled (fold write_frame fs b) = rb_settled b"
  "rb_promises (fold write_frame fs b) = rb_promises b" "rb_held (fold write_frame fs b) = rb_held b"
  "rb_output (fold write_frame fs b) = rb_output b @ fs"
  by (induction fs arbitrary: b) (auto simp: write_frame_def)

lemma arm_fields [simp]:
  "rb_pending (arm_request n k s opts b) = rb_pending b" "rb_held (arm_request n k s opts b) = rb_held b"
  "rb_closed (arm_request n k s opts b) = rb_closed b" "rb_output (arm_request n k s opts b) = rb_output b"
  "rb_settled (arm_request n k s opts b) = rb_settled b" "rb_promises (arm_request n k s opts b) = rb_promises b"
  "map_of (rb_timers (arm_request n k s opts b)) =
     (case ro_timeoutMs opts of Some t \<Rightarrow> (map_of (rb_timers b))(n \<mapsto> RequestTimer k s t) | None \<Rightarrow> map_of (rb_timers b))"
  by (auto simp: arm_request_def split: option.splits)

lemma request_fields:
  assumes "refusal b subtype opts = None" and "k = the_default uuid (ro_requestId opts)"
  shows "rb_settled (bridge_request subtype payload opts uuid b) = rb_settled b"
    and "rb_promises (bridge_request subtype payload opts uuid b) = Suc (rb_promises b)"
    and "rb_pending (bridge_request subtype payload opts uuid b) = AList.update k \<lparr>pe_subtype = subtype, pe_promise = rb_promises b\<rparr> (rb_pending b)"
    and "map_of (rb_timers (bridge_request subtype payload opts uuid b)) =
      (case ro_timeoutMs opts of Some t \<Rightarrow> (map_of (rb_timers b))(rb_promises b \<mapsto> RequestTimer k subtype t) | None \<Rightarrow> map_of (rb_timers b))"
    and "rb_closed (bridge_request subtype payload opts uuid b) = rb_closed b"
  using assms by (auto simp: bridge_request_def Let_def write_frame_def split: option.splits)

lemma refused_fields:
  assumes "refusal b subtype opts = Some e"
  shows "bridge_request subtype payload opts uuid b = settle_promise (rb_promises b) (Rejected e) (b\<lparr>rb_promises := Suc (rb_promises b)\<rparr>)"
  using assms by (simp add: bridge_request_def Let_def)

text \<open>Every operation and callback keeps it.\<close>

lemma ok_request:
  assumes "bridge_ok b"
  shows "bridge_ok (bridge_request subtype payload opts uuid b)"
proof (cases "refusal b subtype opts")
  case None
  note f = request_fields [OF None refl]
  have o: "books_ok (map_of (rb_pending b)) (map_of (rb_timers b)) (map fst (rb_settled b)) (rb_promises b)"
    using assms by (simp add: bridge_ok_def)
  have t: "map_of (rb_timers b) = (map_of (rb_timers b))(rb_promises b := None)"
    using o by (auto simp: books_ok_def fun_eq_iff)
  show ?thesis
  proof (cases "ro_timeoutMs opts")
    case None
    then show ?thesis
      using books_issue [OF o, of None] assms unfolding bridge_ok_def f t [symmetric] by (simp add: AList.distinct_update)
  next
    case (Some t)
    then show ?thesis
      using books_issue [OF o, of "Some (RequestTimer (the_default uuid (ro_requestId opts)) subtype t)"] assms
      unfolding bridge_ok_def f by (simp add: AList.distinct_update timer_id_def)
  qed
next
  case (Some e)
  show ?thesis using assms unfolding refused_fields [OF Some] by (simp add: bridge_ok_def books_refuse settle_promise_def)
qed

lemma ok_open: "bridge_ok b \<Longrightarrow> bridge_ok (bridge_open b)"
  by (auto simp: bridge_open_def bridge_ok_def open_fields split: option.splits)

lemma ok_response: "bridge_ok b \<Longrightarrow> bridge_ok (snd (handleResponse frame b))"
  by (auto simp: handleResponse_def Let_def bridge_ok_def bridge_ops AList.distinct_delete books_leave split: option.splits)

lemma ok_cancel: "bridge_ok b \<Longrightarrow> bridge_ok (bridge_cancel k b)"
  by (auto simp: bridge_cancel_def Let_def bridge_ok_def bridge_ops AList.distinct_delete map_le_def split: option.splits
      elim!: books_less)

lemma ok_dies: "bridge_ok b \<Longrightarrow> bridge_ok (rejectAllPending err b)"
  using reject_all_books [of "map_of (rb_pending b)" "b\<lparr>rb_closed := True\<rparr>" "rb_pending b" err]
  by (simp add: rejectAllPending_def bridge_ok_def reject_all_fields)

lemma ok_give_up:
  assumes "bridge_ok b" "map_of (rb_timers b) n = None"
  shows "bridge_ok (give_up n k s b)"
proof (cases "is_entry b k n")
  case True
  then obtain e where e: "map_of (rb_pending b) k = Some e" "n = pe_promise e" by (auto simp: is_entry_def)
  have "(map_of (rb_timers b))(n := None) = map_of (rb_timers b)" using assms(2) by (auto simp: fun_eq_iff)
  then show ?thesis
    using assms e books_leave [of "map_of (rb_pending b)" "map_of (rb_timers b)" _ _ k e] True
    by (simp add: give_up_def bridge_ok_def bridge_ops AList.distinct_delete)
qed (use assms in \<open>simp add: give_up_def\<close>)

lemma ok_timer: 
  assumes "bridge_ok b"
  shows "bridge_ok (timer_fires n b)"
proof -
  consider "map_of (rb_timers b) n = None" | k s t where "map_of (rb_timers b) n = Some (RequestTimer k s t)"
    | k s t where "map_of (rb_timers b) n = Some (GraceTimer k s t)"
    by (metis armed_timer.exhaust not_None_eq)
  then show ?thesis
  proof cases
    case 2
    have o: "books_ok (map_of (rb_pending b)) (map_of (rb_timers b)) (map fst (rb_settled b)) (rb_promises b)"
      using assms by (simp add: bridge_ok_def)
    have "books_ok ((map_of (rb_pending b))(k := None)) ((map_of (rb_timers b))(n := None)) (map fst (rb_settled b) @ [n]) (rb_promises b)"
    proof (rule books_settle)
      show "books_ok ((map_of (rb_pending b))(k := None)) ((map_of (rb_timers b))(n := None)) (map fst (rb_settled b)) (rb_promises b)"
        by (rule books_less [OF o]) (auto simp: map_le_def)
      show "n < rb_promises b" "n \<notin> set (map fst (rb_settled b))" using o 2 unfolding books_ok_def by metis+
      show "\<forall>k' e. ((map_of (rb_pending b))(k := None)) k' = Some e \<longrightarrow> pe_promise e \<noteq> n"
        using entry_facts(3) [OF assms, of _ _ "RequestTimer k s t"] 2 by (auto simp: timer_id_def)
    qed simp
    then show ?thesis using assms 2 by (simp add: timer_fires_def bridge_ok_def bridge_ops AList.distinct_delete)
  next
    case 3
    have "bridge_ok (clear_timer n b)" using assms by (auto simp: bridge_ok_def bridge_ops map_le_def elim!: books_less)
    then show ?thesis using 3 by (simp add: timer_fires_def ok_give_up clear_timer_def)
  qed (use assms in \<open>simp add: timer_fires_def\<close>)
qed

lemma ok_plain:
  "bridge_ok (write_frame f b) = bridge_ok b" "bridge_ok (drop_held k b) = bridge_ok b" "bridge_ok (detach_listener n b) = bridge_ok b"
  "bridge_ok b \<Longrightarrow> bridge_ok (clear_timer n b)"
  by (auto simp: bridge_ok_def bridge_ops map_le_def elim!: books_less)

lemma is_entry_plain [simp]:
  "is_entry (write_frame f b) = is_entry b" "is_entry (drop_held k b) = is_entry b" "is_entry (detach_listener n b) = is_entry b"
  "is_entry (clear_timer n b) = is_entry b"
  by (auto simp: is_entry_def bridge_ops fun_eq_iff)

lemma ok_grace:
  assumes "bridge_ok b" "is_entry b k n" "ts = rb_timers b"
  shows "bridge_ok (b\<lparr>rb_timers := (n, GraceTimer k s t) # ts\<rparr>)"
  using assms books_arm [of _ "map_of (rb_timers b)" _ _ k _ "GraceTimer k s t"]
  by (auto simp: is_entry_def bridge_ok_def timer_id_def)

lemma timers_plain [simp]:
  "rb_timers (write_frame f b) = rb_timers b" "rb_timers (drop_held k b) = rb_timers b"
  "map_of (rb_timers (clear_timer n b)) m = (if m = n then None else map_of (rb_timers b) m)"
  by (simp_all add: bridge_ops)

lemma ok_abort: "bridge_ok b \<Longrightarrow> bridge_ok (abort_fires n b)"
  unfolding abort_fires_def Let_def
  by (auto simp: ok_plain ok_give_up intro!: ok_grace split: option.splits)

lemma ok_step: "bridge_step b e c \<Longrightarrow> bridge_ok b \<Longrightarrow> bridge_ok c"
  by (induction rule: bridge_step.induct)
    (simp_all add: ok_request ok_open ok_response ok_dies ok_cancel ok_timer ok_abort)

lemma ok_new: "bridge_ok (createRpcBridge h a)"
  by (simp add: createRpcBridge_def bridge_ok_def books_ok_def)

lemma ok_run: "bridge_run (createRpcBridge h a) es b \<Longrightarrow> bridge_ok b"
  by (erule bridge_run_invariant) (auto simp: ok_new ok_step)

text \<open>
  C24: a promise is settled at most once. Whatever the host answers, and however its answers, time-outs, aborts, cancellations and the end of
  the connection interleave, no request of the bridge is resolved or rejected twice, even when request ids are used again.
\<close>

theorem promise_settled_once:
  assumes "bridge_run (createRpcBridge hold allowed) events b"
  shows "distinct (map fst (rb_settled b)) \<and> (\<forall>n \<in> fst ` set (rb_settled b). n < rb_promises b)
    \<and> (\<forall>k e. map_of (rb_pending b) k = Some e \<longrightarrow> pe_promise e \<notin> fst ` set (rb_settled b))"
  using ok_run [OF assms] by (simp add: bridge_ok_def books_ok_def)


subsection \<open>What is written\<close>

definition requested :: "string \<Rightarrow> 'p out_frame list \<Rightarrow> bool" where
  "requested k out \<longleftrightarrow> (\<exists>s p. ControlRequest k s p \<in> set out)"

text \<open>
  Nothing is written while the bridge holds; a pending request is held or was written; a cancellation follows its request.
\<close>

definition cancels_ok :: "'p out_frame list \<Rightarrow> bool" where
  "cancels_ok out \<longleftrightarrow> (\<forall>i k. i < length out \<and> out ! i = ControlCancelRequest k \<longrightarrow> requested k (take i out))"

definition wire_ok :: "'p rpc_bridge \<Rightarrow> bool" where
  "wire_ok b \<longleftrightarrow> cancels_ok (rb_output b) \<and>
     (case rb_held b of
        Some held \<Rightarrow> rb_output b = [] \<and> distinct (map fst held) \<and> (\<forall>(k, f) \<in> set held. \<exists>s p. f = ControlRequest k s p) \<and>
          fst ` set (rb_pending b) \<subseteq> fst ` set held
      | None \<Rightarrow> \<forall>k \<in> fst ` set (rb_pending b). requested k (rb_output b))"

lemma requested_append [simp]: "requested k (xs @ ys) \<longleftrightarrow> requested k xs \<or> requested k ys"
  by (auto simp: requested_def)

lemma requested_frames [simp]: "requested k [ControlRequest k' s p] \<longleftrightarrow> k' = k" "\<not> requested k [ControlCancelRequest k']" "\<not> requested k []"
  by (auto simp: requested_def)

lemma cancels_snoc: "cancels_ok (out @ [f]) \<longleftrightarrow> cancels_ok out \<and> (\<forall>k. f = ControlCancelRequest k \<longrightarrow> requested k out)"
  unfolding cancels_ok_def length_append_singleton less_Suc_eq
  by (intro iffI conjI allI impI) (force simp: nth_append)+

lemma cancels_requests: "\<forall>f \<in> set fs. \<exists>k s p. f = ControlRequest k s p \<Longrightarrow> cancels_ok fs"
  by (force simp: cancels_ok_def dest: nth_mem)

lemma delete_keys [simp]: "fst ` set (AList.delete k al) = fst ` set al - {k}"
  by (simp add: AList.delete_keys flip: set_map)

lemma delete_mem: "x \<in> set (AList.delete k al) \<Longrightarrow> x \<in> set al"
  by (simp add: AList.delete_eq)

lemma update_mem: "x \<in> set (AList.update k v al) \<Longrightarrow> x = (k, v) \<or> x \<in> set al"
  by (induction al) (auto split: if_splits)

lemma wire_cong:
  assumes "rb_pending c = rb_pending b" "rb_held c = rb_held b" "rb_output c = rb_output b"
  shows "wire_ok c = wire_ok b"
  using assms by (auto simp: wire_ok_def split: option.splits)

lemma wire_plain [simp]:
  "wire_ok (settle_promise n s b) = wire_ok b" "wire_ok (clear_timer n b) = wire_ok b" "wire_ok (detach_listener n b) = wire_ok b"
  "wire_ok (b\<lparr>rb_timers := ts\<rparr>) = wire_ok b"
  by (rule wire_cong, simp_all add: bridge_ops)+

lemma wire_pending: "wire_ok b \<Longrightarrow> wire_ok (drop_pending k b)"
  by (auto simp: wire_ok_def drop_pending_def split: option.splits)

lemma wire_both: "wire_ok b \<Longrightarrow> wire_ok (drop_held k (drop_pending k b))"
  by (auto simp: wire_ok_def drop_pending_def drop_held_def AList.distinct_delete dest!: delete_mem split: option.splits)

lemma wire_give_up: "wire_ok b \<Longrightarrow> wire_ok (give_up n k s b)"
  by (simp add: give_up_def wire_pending)

lemma wire_cancel_frame:
  assumes "wire_ok b" "is_entry b k n" "\<not> is_held b k"
  shows "wire_ok (write_frame (ControlCancelRequest k) (drop_held k b))"
proof -
  have k: "k \<in> fst ` set (rb_pending b)" using assms(2) by (force simp: is_entry_def dest: map_of_SomeD)
  have "rb_held b = None" using assms(1,3) k by (auto simp: wire_ok_def is_held_def split: option.splits)
  then show ?thesis using assms(1) k by (auto simp: wire_ok_def write_frame_def drop_held_def cancels_snoc)
qed

lemma give_up_held:
  assumes "is_entry b k n"
  shows "give_up n k s (drop_held k b) = settle_promise n (Rejected (WinterRpcError ''cancelled''
             (''the '' @ [squote] @ s @ [squote] @ '' request was cancelled: the runtime stopped waiting for it''))) (drop_held k (drop_pending k b))"
  using assms by (simp add: give_up_def is_entry_def bridge_ops)

lemma wire_request:
  assumes "wire_ok b"
  shows "wire_ok (bridge_request subtype payload opts uuid b)"
proof (cases "refusal b subtype opts")
  case None
  then show ?thesis using assms
    by (auto simp: bridge_request_def Let_def wire_ok_def write_frame_def AList.distinct_update AList.dom_update cancels_snoc
        dest!: update_mem split: option.splits)
next
  case (Some e)
  then show ?thesis using assms by (simp add: refused_fields wire_cong [of "b\<lparr>rb_promises := Suc (rb_promises b)\<rparr>" b])
qed

lemma wire_open: "wire_ok b \<Longrightarrow> wire_ok (bridge_open b)"
proof (cases "rb_held b")
  case (Some held)
  assume w: "wire_ok b"
  have f: "\<exists>s p. snd x = ControlRequest (fst x) s p" if "x \<in> set held" for x
    using w Some that by (auto simp: wire_ok_def)
  then have "cancels_ok (map snd held)" by (intro cancels_requests) fastforce
  moreover have "requested k (map snd held)" if k: "k \<in> fst ` set held" for k
  proof -
    obtain g where "(k, g) \<in> set held" using k by fastforce
    with f [of "(k, g)"] show ?thesis by (force simp: requested_def)
  qed
  moreover have "fst ` set (rb_pending b) \<subseteq> fst ` set held" "rb_output b = []" using w Some by (simp_all add: wire_ok_def)
  ultimately show ?thesis using Some unfolding bridge_open_def wire_ok_def by (auto simp: open_fields subset_iff)
qed (simp add: bridge_open_def)

lemma wire_dies: "wire_ok b \<Longrightarrow> wire_ok (rejectAllPending err b)"
  by (auto simp: rejectAllPending_def wire_ok_def reject_all_fields split: option.splits)

lemma wire_timer: "wire_ok b \<Longrightarrow> wire_ok (timer_fires n b)"
  by (auto simp: timer_fires_def wire_give_up wire_both split: option.splits armed_timer.splits)

lemma wire_abort: "wire_ok b \<Longrightarrow> wire_ok (abort_fires n b)"
  by (auto simp: abort_fires_def Let_def give_up_held wire_both wire_cancel_frame wire_give_up split: option.splits)

lemma wire_step: "bridge_step b e c \<Longrightarrow> wire_ok b \<Longrightarrow> wire_ok c"
  by (induction rule: bridge_step.induct)
    (auto simp: wire_request wire_open wire_dies wire_timer wire_abort wire_pending wire_both handleResponse_def bridge_cancel_def Let_def
      split: option.splits)

lemma wire_run: "bridge_run (createRpcBridge h a) es b \<Longrightarrow> wire_ok b"
  by (erule bridge_run_invariant) (erule wire_step | simp add: wire_ok_def createRpcBridge_def cancels_ok_def)+

text \<open>
  Nothing goes out before the handshake, and a cancellation only after its request. While a bridge built to hold is not opened it has written
  nothing, however many requests were issued; and in every execution a cancel frame on the wire follows the request frame of the same id, so the host never hears of the
  end of a request it has not seen.
\<close>

theorem wire_discipline:
  assumes "bridge_run (createRpcBridge hold allowed) events b"
  shows "(rb_held b \<noteq> None \<longrightarrow> rb_output b = []) \<and>
    (\<forall>i k. i < length (rb_output b) \<and> rb_output b ! i = ControlCancelRequest k \<longrightarrow>
       (\<exists>s p. ControlRequest k s p \<in> set (take i (rb_output b))))"
  using wire_run [OF assms] by (auto simp: wire_ok_def cancels_ok_def requested_def split: option.splits)


subsection \<open>Nobody is left waiting\<close>

text \<open>An execution in which no caller withdraws with \<open>cancel\<close> and no id is issued again while it is pending.\<close>

definition orderly_event :: "'p rpc_bridge \<Rightarrow> 'p bridge_event \<Rightarrow> bool" where
  "orderly_event b e \<longleftrightarrow>
     (case e of
        DoRequest _ _ opts uuid \<Rightarrow> the_default uuid (ro_requestId opts) \<notin> fst ` set (rb_pending b)
      | DoCancel _ \<Rightarrow> False
      | _ \<Rightarrow> True)"

inductive orderly_run :: "'p rpc_bridge \<Rightarrow> 'p bridge_event list \<Rightarrow> 'p rpc_bridge \<Rightarrow> bool" where
  orderly_nil: "orderly_run b [] b"
| orderly_step: "orderly_run b es c \<Longrightarrow> orderly_event c e \<Longrightarrow> bridge_step c e d \<Longrightarrow> orderly_run b (es @ [e]) d"

definition waiting :: "'p rpc_bridge \<Rightarrow> nat set" where
  "waiting b = pe_promise ` ran (map_of (rb_pending b))"

text \<open>Every promise waits or is settled, every armed timer is of the entry it names, and nothing waits in a closed bridge.\<close>

definition accounted :: "'p rpc_bridge \<Rightarrow> bool" where
  "accounted b \<longleftrightarrow> (\<forall>n < rb_promises b. n \<in> waiting b \<or> n \<in> fst ` set (rb_settled b)) \<and>
     (\<forall>n t. map_of (rb_timers b) n = Some t \<longrightarrow> is_entry b (timer_id t) n) \<and>
     (rb_closed b \<longrightarrow> rb_pending b = [])"

lemma waiting_iff: "n \<in> waiting b \<longleftrightarrow> (\<exists>k. is_entry b k n)"
  by (auto simp: waiting_def is_entry_def ran_def)

lemma closed_plain [simp]:
  "rb_closed (write_frame f b) = rb_closed b" "rb_closed (settle_promise n s b) = rb_closed b" "rb_closed (clear_timer n b) = rb_closed b"
  "rb_closed (detach_listener n b) = rb_closed b" "rb_closed (drop_pending k b) = rb_closed b" "rb_closed (drop_held k b) = rb_closed b"
  by (simp_all add: bridge_ops)

lemma accounted_leave:
  assumes "accounted b" "bridge_ok b" "is_entry b k n" "rb_promises c = rb_promises b" "rb_closed c = rb_closed b"
    and "map_of (rb_pending c) = (map_of (rb_pending b))(k := None)" "map_of (rb_timers c) = (map_of (rb_timers b))(n := None)"
    and "fst ` set (rb_settled c) = insert n (fst ` set (rb_settled b))"
  shows "accounted c"
proof -
  obtain e where e: "map_of (rb_pending b) k = Some e" "pe_promise e = n" using assms(3) by (auto simp: is_entry_def)
  have other: "is_entry c k' m" if "is_entry b k' m" "m \<noteq> n" for k' m
    using that e by (auto simp: is_entry_def assms(6))
  have "\<not> rb_closed b" using assms(1) e(1) by (auto simp: accounted_def)
  then show ?thesis
    using assms(1,4,5) other unfolding accounted_def waiting_iff assms(7,8) by (auto split: if_splits) blast+
qed

lemma accounted_cong:
  assumes "rb_promises c = rb_promises b" "rb_closed c = rb_closed b" "rb_pending c = rb_pending b"
    "map_of (rb_timers c) = map_of (rb_timers b)" "rb_settled c = rb_settled b"
  shows "accounted c = accounted b"
  unfolding accounted_def waiting_iff is_entry_def assms ..

lemma accounted_request:
  assumes "accounted b" "the_default uuid (ro_requestId opts) \<notin> fst ` set (rb_pending b)"
  shows "accounted (bridge_request subtype payload opts uuid b)"
proof (cases "refusal b subtype opts")
  case None
  let ?c = "bridge_request subtype payload opts uuid b"
  let ?k = "the_default uuid (ro_requestId opts)"
  note f = request_fields [OF None refl]
  have "\<not> rb_closed b" using None by (auto simp: refusal_def)
  moreover have "map_of (rb_pending b) ?k = None" using assms(2) by (simp add: map_of_eq_None_iff)
  then have "is_entry ?c k n \<longleftrightarrow> is_entry b k n \<or> k = ?k \<and> n = rb_promises b" for k n
    by (auto simp: is_entry_def f)
  ultimately show ?thesis
    using assms(1) unfolding accounted_def waiting_iff f
    by (auto simp: less_Suc_eq timer_id_def split: option.splits if_splits)
next
  case (Some e)
  then show ?thesis
    using assms(1) by (auto simp: refused_fields accounted_def waiting_iff is_entry_def settle_promise_def less_Suc_eq)
qed

lemma accounted_dies:
  fixes b :: "'p rpc_bridge"
  assumes "accounted b" "bridge_ok b"
  shows "accounted (rejectAllPending err b)"
proof -
  let ?c = "rejectAllPending err b"
  have "map_of (rb_timers (fold (reject_entry err) es c)) n = (if n \<in> pe_promise ` set es then None else map_of (rb_timers c) n)"
    for es n and c :: "'p rpc_bridge"
    by (induction es arbitrary: c) (auto simp: reject_entry_def Let_def bridge_ops)
  then have "map_of (rb_timers ?c) n = (if n \<in> pe_promise ` snd ` set (rb_pending b) then None else map_of (rb_timers b) n)" for n
    by (simp add: rejectAllPending_def)
  moreover have entry: "n \<in> pe_promise ` snd ` set (rb_pending b)" if "is_entry b k n" for k n
    using that by (force simp: is_entry_def dest: map_of_SomeD)
  ultimately have "map_of (rb_timers ?c) n = None" for n
    using assms(1) unfolding accounted_def by (metis option.exhaust)
  moreover have "n \<in> fst ` set (rb_settled ?c)" if "n < rb_promises b" for n
  proof -
    have "n \<in> fst ` set (rb_settled b) \<union> pe_promise ` snd ` set (rb_pending b)"
      using assms(1) that entry unfolding accounted_def waiting_iff by blast
    then show ?thesis by (auto simp: rejectAllPending_def reject_all_fields image_Un image_image)
  qed
  moreover have "rb_pending ?c = []" "rb_promises ?c = rb_promises b" by (simp_all add: rejectAllPending_def reject_all_fields)
  ultimately show ?thesis unfolding accounted_def by simp
qed

lemma accounted_give_up:
  assumes "accounted b" "bridge_ok b" "is_entry b k n" "c = clear_timer n b"
  shows "accounted (give_up n k s c)"
  using assms by (auto simp: give_up_def bridge_ops is_entry_def intro!: accounted_leave [OF assms(1-3)])


lemma accounted_response:
  assumes "accounted b" "bridge_ok b"
  shows "accounted (snd (handleResponse frame b))"
proof (cases "map_of (rb_pending b) (cr_requestId frame)")
  case (Some e)
  show ?thesis
    by (rule accounted_leave [OF assms, of "cr_requestId frame" "pe_promise e"])
      (simp_all add: Some handleResponse_def Let_def bridge_ops is_entry_def)
qed (use assms in \<open>simp add: handleResponse_def\<close>)

lemma accounted_timer:
  assumes "accounted b" "bridge_ok b"
  shows "accounted (timer_fires n b)"
proof (cases "map_of (rb_timers b) n")
  case (Some t)
  then have e: "is_entry b (timer_id t) n" using assms(1) by (simp add: accounted_def)
  show ?thesis
  proof (cases t)
    case (RequestTimer k s ms)
    show ?thesis
      by (rule accounted_leave [OF assms e]) (simp_all add: Some RequestTimer timer_fires_def bridge_ops timer_id_def)
  next
    case (GraceTimer k s ms)
    then show ?thesis using accounted_give_up [OF assms e refl] Some by (simp add: timer_fires_def timer_id_def)
  qed
qed (use assms in \<open>simp add: timer_fires_def\<close>)

lemma accounted_plain:
  "accounted (write_frame f b) = accounted b" "accounted (drop_held k b) = accounted b" "accounted (detach_listener n b) = accounted b"
  by (rule accounted_cong, simp_all add: bridge_ops)+

lemma accounted_clear: "accounted b \<Longrightarrow> accounted (clear_timer n b)"
  by (auto simp: accounted_def waiting_iff is_entry_def bridge_ops)

lemma clear_ops: "write_frame f (clear_timer n b) = clear_timer n (write_frame f b)" "drop_held k (clear_timer n b) = clear_timer n (drop_held k b)"
  by (simp_all add: bridge_ops)

lemma accounted_abort:
  assumes "accounted b" "bridge_ok b"
  shows "accounted (abort_fires n b)"
proof -
  have plain: "accounted (f (detach_listener n b)) \<and> bridge_ok (f (detach_listener n b)) \<and> is_entry (f (detach_listener n b)) k n"
    if "f = drop_held k \<or> f = write_frame g \<circ> drop_held k" "is_entry b k n" for f k g
    using that assms by (auto simp: accounted_plain ok_plain)
  have g: "accounted (give_up n k s (drop_held k (clear_timer n (detach_listener n b))))"
    "accounted (give_up n k s (write_frame fr (drop_held k (clear_timer n (detach_listener n b)))))" if "is_entry b k n" for k s fr
    unfolding clear_ops using that assms
    by (rule_tac accounted_give_up [OF _ _ _ refl]; simp add: accounted_plain ok_plain)+
  have t: "accounted (c\<lparr>rb_timers := (n, GraceTimer k s ms) # rb_timers c\<rparr>)" if "accounted c" "is_entry c k n" for c k s ms
    using that by (auto simp: accounted_def waiting_iff is_entry_def timer_id_def)
  show ?thesis
    using assms g unfolding abort_fires_def Let_def
    by (auto simp: accounted_plain accounted_clear intro!: t simp del: timers_plain split: option.splits)
qed

lemma accounted_step: "bridge_step b e c \<Longrightarrow> orderly_event b e \<Longrightarrow> accounted b \<Longrightarrow> bridge_ok b \<Longrightarrow> accounted c"
proof (induction rule: bridge_step.induct)
  case (step_open b)
  then show ?case by (auto simp: bridge_open_def accounted_def waiting_iff is_entry_def open_fields split: option.splits)
qed (simp_all add: orderly_event_def accounted_request accounted_response accounted_dies accounted_timer accounted_abort)

lemma accounted_run: "orderly_run (createRpcBridge h a :: 'p rpc_bridge) es b \<Longrightarrow> accounted b \<and> bridge_ok b"
proof (induction "createRpcBridge h a :: 'p rpc_bridge" es b rule: orderly_run.induct)
  case orderly_nil
  show ?case by (simp add: ok_new) (simp add: accounted_def createRpcBridge_def)
qed (blast intro: accounted_step ok_step)


end
