(* ===== verification/Host_Safety.thy ===== *)
theory Host_Safety
  imports Hook_Stage Rpc_Safety Pipeline_Safety
begin

text \<open>
  The pipeline with its stages wired: what hooks and the host can and cannot do to a call. Denials of hooks are final, a fail-closed hook that fails denies,
  the untrusted project's hooks never run, and a call is allowed by a person only when the host's answer says so.
\<close>

subsection \<open>Who allowed a call\<close>

text \<open>An allow that names the person or a hook as its mechanism has an answer behind it, and the person was asked in the run.\<close>

fun answered :: "evaluation_context \<Rightarrow> permission_call \<Rightarrow> consultation list \<times> decision_record \<Rightarrow> bool" where
  "answered ctx call (consulted, r) \<longleftrightarrow>
     (dr_decision r = DAllow \<longrightarrow> dr_mechanism r = MCanUseTool \<longrightarrow>
        Person \<in> set consulted \<and> (\<exists>meta p. cx_prompt ctx call meta = Some p \<and> pd_decision p = AnswerAllow)) \<and>
     (dr_decision r = DAllow \<longrightarrow> dr_mechanism r = MHook \<longrightarrow>
        (\<exists>meta h. cx_permissionRequest ctx call meta = Some h \<and> rh_decision h = AnswerAllow))"

declare answered.simps [simp del]

lemma not_answer [simp]:
  "dr_decision r \<noteq> DAllow \<Longrightarrow> answered ctx call (consulted, r)"
  "dr_mechanism r \<notin> {MCanUseTool, MHook} \<Longrightarrow> answered ctx call (consulted, r)"
  by (auto simp: answered.simps)

lemma answered_more: "answered ctx call run \<Longrightarrow> set (fst run) \<subseteq> set consulted \<Longrightarrow> answered ctx call (consulted, snd run)"
  by (cases run) (auto simp: answered.simps)

lemma asked_answered [simp]:
  assumes "dr_decision unanswered = DDeny"
  shows "answered ctx call (ask_in_turn ctx call meta carried unanswered)"
  using assms
  by (auto simp: ask_in_turn_def tryPermissionRequestHook_def buildRecordFromPromptResult_def markPromptAnswered_def answered.simps Let_def
      split: option.splits answer.splits)

lemma resolve_answered [simp]: "answered ctx call (resolveAutoDecision ctx call carried)"
proof (cases "av_fallbackToPrompt (cx_classify ctx call)")
  case True
  let ?ask = "ask_in_turn ctx call (plain_meta call AUTO_FALLBACK_REASON) carried (denial MAutoEngine (version_of ctx) carried AUTO_FALLBACK_UNANSWERED)"
  have "snd (resolveAutoDecision ctx call carried) = snd ?ask" "set (fst ?ask) \<subseteq> set (fst (resolveAutoDecision ctx call carried))"
    using True by (auto simp: resolveAutoDecision_def Let_def split: prod.splits)
  moreover have "answered ctx call ?ask" by simp
  ultimately show ?thesis by (metis answered_more prod.collapse)
qed (auto simp: resolveAutoDecision_def blocked_by_classifier_def)

lemma plan_answered: "answered ctx call later \<Longrightarrow> answered ctx call (classify_in_plan ctx call carried later)"
  by (auto simp: classify_in_plan_def blocked_by_classifier_def intro: answered_more split: auto_verdict.splits)

lemma must_prompt_answered: "answered ctx call (must_prompt ctx call carried esc message blocked orig)"
  by (simp add: must_prompt_def Let_def plan_answered)

lemma escape_answered [simp]: "answered ctx call (resolveSandboxEscape ctx call carried reason)"
  by (simp add: resolveSandboxEscape_def)

lemma unmatched_answered: "answered ctx call (unmatched_stage ctx call carried esc gate)"
  by (simp add: unmatched_stage_def Let_def plan_answered)

lemma ask_stage_answered: "answered ctx call (ask_stage ctx call causes target carried)"
  by (cases "mode_of ctx = DontAsk") (simp_all add: ask_stage_def)

lemma mode_stage_answered:
  assumes "mode_stage env ctx call carried = (consulted, Inr r)"
  shows "answered ctx call (consulted, r)"
  using assms
proof (cases rule: mode_stage_cases)
  case (prompted message blocked orig)
  then show ?thesis using must_prompt_answered by metis
next
  case (later result)
  from later(3) show ?thesis
  proof (cases rule: allow_stage_cases)
    case unmatched
    then show ?thesis using unmatched_answered by metis
  qed simp
qed simp_all

lemma answered_after: "consulted = x # tail \<Longrightarrow> answered ctx call (tail, r) \<Longrightarrow> answered ctx call (consulted, r)"
  using answered_more [of ctx call "(tail, r)" consulted] by auto

lemma evaluate_answered:
  assumes "evaluate env ctx call = (consulted, Inr r)" "hd_decision (cx_preToolUse ctx call) \<noteq> HookAllow"
  shows "answered ctx (effective ctx call) (consulted, r)"
  using assms(1)
proof (cases rule: evaluate_Inr)
  case (staged r')
  from staged(1) have "answered ctx (effective ctx call) (consulted, r')"
  proof (cases rule: evaluateStages_cases)
    case deny
    then have "dr_decision r' = DDeny \<or> dr_mechanism r' = MMode"
      by (auto simp: deny_stage_def web_stage_def unfetchable_allowed_def bind_result_def rule_denial_def denial_def split: sum.splits option.splits if_splits)
    then show ?thesis by (auto simp: answered.simps)
  next
    case (later tail)
    from later(3) show ?thesis
    proof (cases rule: after_deny_cases)
      case (ask causes target)
      then show ?thesis using answered_after [OF later(2)] ask_stage_answered by metis
    next
      case decide
      from decide(1) show ?thesis
        by (cases rule: decide_stage_cases) (use assms(2) mode_stage_answered answered_after [OF later(2)] in auto)
    qed (simp add: forced_defer_def)
  qed simp
  then show ?thesis using staged(2,3) by (simp add: answered.simps)
qed simp

lemma evaluate_person:
  assumes "evaluate env ctx call = (consulted, Inr r)" "dr_decision r = DAllow" "dr_mechanism r = MCanUseTool"
  shows "Person \<in> set consulted \<and> (\<exists>meta p. cx_prompt ctx (effective ctx call) meta = Some p \<and> pd_decision p = AnswerAllow)"
  using assms(1)
proof (cases rule: evaluate_Inr)
  case (staged r')
  have r': "dr_decision r' = DAllow" "dr_mechanism r' = MCanUseTool" using staged assms by simp_all
  have person: ?thesis if "answered ctx (effective ctx call) (consulted, r')" using that r' by (simp add: answered.simps)
  from staged(1) show ?thesis
  proof (cases rule: evaluateStages_cases)
    case deny
    then show ?thesis using r'
      by (auto simp: deny_stage_def web_stage_def unfetchable_allowed_def bind_result_def rule_denial_def denial_def split: sum.splits option.splits if_splits)
  next
    case (later tail)
    from later(3) show ?thesis
    proof (cases rule: after_deny_cases)
      case (ask causes target)
      then show ?thesis using person answered_after [OF later(2)] ask_stage_answered by metis
    next
      case decide
      from decide(1) show ?thesis
        by (cases rule: decide_stage_cases) (use r' person mode_stage_answered answered_after [OF later(2)] in auto)
    qed (use r' in \<open>simp add: forced_defer_def split: if_splits\<close>)
  qed (use r' in simp)
qed (use assms in simp)

lemma wired_simps [simp]:
  "cx_preToolUse (wired st ctx) = preToolUse (hs_deps st) (hs_server st) (version_of ctx)"
  "cx_permissionRequest (wired st ctx) = permissionRequest (hs_deps st) (hs_as_update st) (version_of ctx)"
  "cx_prompt (wired st ctx) = bridge_prompt (rx_url (hs_deps st)) (hs_as_update st) (hs_server st) (version_of ctx) (hs_host st) (hs_fresh st)"
  "cx_policy (wired st ctx) = cx_policy ctx"
  by (simp_all add: wired_def)


subsection \<open>What hooks decide\<close>

text \<open>
  C8: a fail-closed hook gates. A registered fail-closed hook for the event before a tool, of a source the workspace may run and whose matcher is absent, does not compile or matches the
  tool, denies the call when it fails: when it is not in time, throws, answers no object, answers in the background, or answers for another event. No policy, mode or person is
  consulted after it.
\<close>

theorem fail_closed_hook_gates:
  assumes "hook \<in> set hooks" "hk_event hook = PreToolUse" "hk_failClosed hook" "trusted \<or> hk_source hook \<notin> {HookProject, HookLocal}"
    and "rx_registry (hs_deps st) = buildHookRegistry trusted hooks"
    and "\<forall>m. hk_matcher hook = Some m \<and> m \<noteq> [] \<longrightarrow>
      (let c = compileMatcher (rx_url (hs_deps st)) (rx_regex (hs_deps st)) m in cm_invalid c \<or> cm_test c (tool_of call))"
    and "\<forall>request t. rq_hookId request = hk_id hook \<longrightarrow> fails PreToolUse (rx_invoke (hs_deps st) request t)"
  shows "\<exists>r. evaluate env (wired st ctx) call = ([PreToolUseHook], Inr r) \<and> dr_decision r = DDeny \<and> dr_mechanism r = MHook"
proof -
  let ?deps = "hs_deps st" and ?h = "normalise_entry hook"
  have h: "?h \<in> set (rx_registry ?deps)" using registered [OF assms(1)] assms(4,5) by auto
  have "?h \<in> set (matching (rx_url ?deps) (rx_regex ?deps) (rx_registry ?deps) (hk_event ?h) (Some (tool_of call)))"
  proof (cases "hk_matcher ?h")
    case None
    then show ?thesis using unscoped_matches [OF h] by simp
  next
    case (Some m)
    then have "hk_matcher hook = Some m \<and> m \<noteq> []" by (auto simp: normalise_entry_def split: if_splits)
    then have "cm_invalid (compileMatcher (rx_url ?deps) (rx_regex ?deps) m) \<or> cm_test (compileMatcher (rx_url ?deps) (rx_regex ?deps) m) (tool_of call)"
      using assms(6) by (simp add: Let_def)
    then show ?thesis using h Some assms(3)
      by (auto simp: matching_def matcherApplies_def compiled_for_def Let_def)
  qed
  moreover have "denies (stage_context ?deps (version_of ctx) call) PreToolUse (pre_tool_use_call (hs_server st) call) ?h"
    by (rule fail_closed_denies) (use assms(3,7) in \<open>auto simp: FAIL_CLOSED_EVENTS_def\<close>)
  ultimately have "hd_decision (preToolUse ?deps (hs_server st) (version_of ctx) call) = HookDeny"
    using stage_denies assms(2) by simp
  then show ?thesis by (simp add: evaluate_def evaluateStages_def Let_def)
qed

text \<open>
  The untrusted project runs no code through hooks. In a workspace that is not trusted, every hook a run invokes was registered by a source other than the
  project and local settings, for the very event of the run; so the settings of a cloned repository start nothing.
\<close>

theorem untrusted_hooks_never_run:
  assumes "rx_registry ctx = buildHookRegistry False hooks" "HookInvoked request t \<in> set (fst (runHooks event call ctx))"
  shows "\<exists>h \<in> set hooks. rq_hookId request = hk_id h \<and> hk_event h = event \<and> hk_source h \<notin> {HookProject, HookLocal}"
proof -
  obtain h where h: "h \<in> set (matching (rx_url ctx) (rx_regex ctx) (rx_registry ctx) event (matcherSubjectOf event call))" "rq_hookId request = hk_id h"
    using loop_invoked assms(2) by (fastforce simp: runHooks_def Let_def case_prod_beta)
  have e: "hk_event h = event" "h \<in> set (buildHookRegistry False hooks)" using matching_event [OF h(1)] assms(1) by simp_all
  then obtain g where "g \<in> set hooks" "h = normalise_entry g" by (auto simp: buildHookRegistry_def Let_def)
  then show ?thesis using h(2) e untrusted_excluded [OF e(2)] by auto
qed

text \<open>
  Hooks answer in order and the first denial ends them. A run records every matched hook exactly once, in the order of the registry; when a hook denies, every hook
  after it is recorded as skipped and none of them runs; and the composite is the denial.
\<close>

theorem hooks_in_order:
  assumes "matched = matching (rx_url ctx) (rx_regex ctx) (rx_registry ctx) event (matcherSubjectOf event call)"
  shows "\<exists>outs. length outs = length matched
    \<and> List.map_filter (\<lambda>e. case e of HookAudited a \<Rightarrow> Some (au_hookId a, au_outcome a) | _ \<Rightarrow> None) (fst (runHooks event call ctx))
        = zip (map hk_id matched) (map lifecycleOutcomeOf outs)
    \<and> snd (runHooks event call ctx) = reduceHookOutcomes (zip matched outs)
    \<and> (\<forall>i < length outs. decision_of (outs ! i) = Some PermDeny \<longrightarrow>
         hc_decision (snd (runHooks event call ctx)) = Some PermDeny \<and> (\<forall>j. i < j \<and> j < length outs \<longrightarrow> outs ! j = SkippedOutcome))"
proof -
  let ?results = "snd (hook_loop ctx event call 0 False (rc_input call) matched)"
  let ?outs = "map snd ?results"
  have m: "map fst ?results = matched" by (rule loop_hooks)
  have z: "?results = zip matched ?outs" by (metis m zip_map_fst_snd)
  have len: "length ?outs = length matched" by (metis length_map m)
  have run: "snd (runHooks event call ctx) = reduceHookOutcomes ?results" "fst (runHooks event call ctx) = fst (hook_loop ctx event call 0 False (rc_input call) matched)"
    by (simp_all add: runHooks_def Let_def case_prod_beta assms)
  have audits: "map (\<lambda>(h, out). (hk_id h, lifecycleOutcomeOf out)) ?results = zip (map hk_id matched) (map lifecycleOutcomeOf ?outs)"
  proof -
    have "map (\<lambda>(h, out). (hk_id h, lifecycleOutcomeOf out)) xs = zip (map hk_id (map fst xs)) (map lifecycleOutcomeOf (map snd xs))" for xs
      by (induction xs) auto
    from this [of ?results] show ?thesis by (simp only: m)
  qed
  have skipped: "?outs ! j = SkippedOutcome"
    if "decision_of (?outs ! i) = Some PermDeny" "i < j" "j < length ?outs" for i j
  proof -
    have i: "i < length ?results" using that by simp
    have split: "?results = take i ?results @ (fst (?results ! i), snd (?results ! i)) # drop (Suc i) ?results"
      using id_take_nth_drop [OF i] by simp
    have "\<forall>(h', out') \<in> set (drop (Suc i) ?results). out' = SkippedOutcome"
      by (rule loop_skips [OF split]) (use that(1) i in simp)
    moreover have "?results ! j \<in> set (drop (Suc i) ?results)"
      using that(2,3) by (auto simp: in_set_conv_nth intro!: exI [of _ "j - Suc i"])
    ultimately show ?thesis using that(3) by (cases "?results ! j") auto
  qed
  have denied: "hc_decision (reduceHookOutcomes ?results) = Some PermDeny" if "i < length ?outs" "decision_of (?outs ! i) = Some PermDeny" for i
  proof -
    have "PermDeny \<in> set (decisions ?results)"
      using that nth_mem [of i ?results] by (cases "?results ! i") (force simp: in_decisions)
    then show ?thesis by (simp add: reduce_decision strictest_deny)
  qed
  show ?thesis
    using len audits z run denied skipped by (intro exI [of _ ?outs]) (simp add: loop_audits)
qed

end
