(* ===== verification/Host_Sessions.thy ===== *)
theory Host_Sessions
  imports Host_Safety Sessions
begin

text \<open>
  Concrete executions of the control channel and of the wired pipeline, at which the properties of \<open>Rpc_Safety\<close>, \<open>Hook_Reducer\<close> and \<open>Host_Safety\<close>
  apply.
\<close>

subsection \<open>The control channel\<close>

definition plain_opts :: request_opts where
  "plain_opts = \<lparr>ro_timeoutMs = None, ro_requestId = Some ''r1'', ro_signal = None, ro_cancelGraceMs = None\<rparr>"

definition yes_frame :: control_response where
  "yes_frame = \<lparr>cr_requestId = ''r1'', cr_ok = True, cr_payload = Some JNull, cr_error = None\<rparr>"

definition asking :: "json bridge_event" where
  "asking = DoRequest ''permission'' JNull plain_opts ''u1''"

abbreviation asked_bridge :: "bool \<Rightarrow> json rpc_bridge" where
  "asked_bridge hold \<equiv> bridge_request ''permission'' JNull plain_opts ''u1'' (createRpcBridge hold None)"

lemma one_step: "bridge_step b e c \<Longrightarrow> bridge_run b [e] c"
  using run_step [OF run_nil] by simp

lemma two_steps: "bridge_step b e c \<Longrightarrow> bridge_step c f d \<Longrightarrow> bridge_run b [e, f] d"
  using run_step [OF one_step] by simp

lemma asked: "bridge_step (createRpcBridge hold None) asking (asked_bridge hold)"
  unfolding asking_def by (rule step_request)

text \<open>The host answers twice; the second answer is dropped.\<close>

theorem promise_settled_once_witness:
  "map fst (rb_settled (snd (handleResponse yes_frame (snd (handleResponse yes_frame (asked_bridge False)))))) = [0]
    \<and> distinct (map fst (rb_settled (snd (handleResponse yes_frame (snd (handleResponse yes_frame (asked_bridge False)))))))"
proof -
  let ?b = "snd (handleResponse yes_frame (snd (handleResponse yes_frame (asked_bridge False))))"
  have "bridge_run (createRpcBridge False None) ([asking, HostResponds yes_frame] @ [HostResponds yes_frame]) ?b"
    by (rule run_step [OF two_steps [OF asked step_response] step_response])
  from promise_settled_once [OF this] have "distinct (map fst (rb_settled ?b))" by blast
  moreover have "map fst (rb_settled ?b) = [0]" by code_simp
  ultimately show ?thesis by blast
qed

theorem wire_discipline_witness:
  "rb_held (asked_bridge True) \<noteq> None \<and> rb_output (asked_bridge True) = []"
proof -
  have "rb_held (asked_bridge True) \<noteq> None" by code_simp
  with wire_discipline [OF one_step [OF asked [of True]]] show ?thesis by blast
qed


subsection \<open>Hooks\<close>

definition hook_named :: "string \<Rightarrow> hook_source \<Rightarrow> sourced_hook_entry" where
  "hook_named i s =
     \<lparr>hk_id = i, hk_name = None, hk_event = PreToolUse, hk_matcher = None, hk_source = s, hk_timeoutMs = None, hk_command = None,
      hk_failClosed = True, hk_pluginRoot = None, hk_async = False\<rparr>"

definition deps_with :: "sourced_hook_entry list \<Rightarrow> raw_answer \<Rightarrow> run_hooks_context" where
  "deps_with registry answer =
     \<lparr>rx_registry = registry, rx_url = (\<lambda>_. None), rx_regex = (\<lambda>_. Inl ''bad pattern''), rx_invoke = (\<lambda>_ _. answer), rx_sessionId = ''s'',
      rx_policyVersion = 1, rx_agentID = None, rx_gatingTimeoutMs = None, rx_observationalTimeoutMs = None, rx_validator = None,
      rx_mcpProvenance = (\<lambda>_. None), rx_requestId = show_radix 10\<rparr>"

definition stages_with :: "sourced_hook_entry list \<Rightarrow> raw_answer \<Rightarrow> settlement \<Rightarrow> host_stages" where
  "stages_with registry answer reply =
     \<lparr>hs_deps = deps_with registry answer, hs_server = (\<lambda>_. None), hs_as_update = (\<lambda>_. UnknownUpdate ''?''), hs_host = (\<lambda>_. reply),
      hs_fresh = (\<lambda>_ _. ''r1'')\<rparr>"

lemma deps_fields [simp]:
  "rx_registry (deps_with registry answer) = registry" "rx_invoke (deps_with registry answer) request t = answer"
  "hs_deps (stages_with registry answer reply) = deps_with registry answer" "hs_host (stages_with registry answer reply) payload = reply"
  by (simp_all add: deps_with_def stages_with_def)

definition ls_call :: permission_call where
  "ls_call = call_to ''Bash'' ''command'' ''ls''"

theorem fail_closed_hook_gates_witness:
  "\<exists>r. evaluate plain_host (wired (stages_with (buildHookRegistry False [hook_named ''h1'' HookUser]) NotInTime (Rejected (OtherError ''eof'')))
      (session_in BypassPermissions [] HookNoOpinion None)) ls_call = ([PreToolUseHook], Inr r) \<and> dr_decision r = DDeny \<and> dr_mechanism r = MHook"
  by (rule fail_closed_hook_gates [of "hook_named ''h1'' HookUser" "[hook_named ''h1'' HookUser]" False])
    (simp_all add: hook_named_def fails_def)

definition run_of_user_hook :: "hook_effect list \<times> hook_composite" where
  "run_of_user_hook =
     runHooks PreToolUse (pre_tool_use_call (\<lambda>_. None) ls_call)
       (deps_with (buildHookRegistry False [hook_named ''h0'' HookProject, hook_named ''h1'' HookUser]) NotInTime)"

definition user_request :: hook_invocation_request where
  "user_request =
     buildRequest (hook_named ''h1'' HookUser) PreToolUse (pre_tool_use_call (\<lambda>_. None) ls_call)
       (deps_with (buildHookRegistry False [hook_named ''h0'' HookProject, hook_named ''h1'' HookUser]) NotInTime) (Some (input_of ls_call)) (show_radix 10 0)"

lemma registry_of_two: "buildHookRegistry False [hook_named ''h0'' HookProject, hook_named ''h1'' HookUser] = [hook_named ''h1'' HookUser]"
  by (simp add: buildHookRegistry_def hook_named_def normalise_entry_def)

lemma matched_one:
  "matching url regex [hook_named ''h1'' HookUser] PreToolUse subject = [hook_named ''h1'' HookUser]"
  by (simp add: matching_def hook_named_def matcherApplies_def compiled_for_def Let_def)

theorem untrusted_hooks_never_run_witness:
  "HookInvoked user_request 60000 \<in> set (fst run_of_user_hook)
    \<and> (\<exists>h \<in> set [hook_named ''h0'' HookProject, hook_named ''h1'' HookUser]. rq_hookId user_request = hk_id h \<and> hk_event h = PreToolUse \<and> hk_source h \<notin> {HookProject, HookLocal})"
proof -
  let ?ctx = "deps_with (buildHookRegistry False [hook_named ''h0'' HookProject, hook_named ''h1'' HookUser]) NotInTime"
  have "defaultTimeoutMsFor ?ctx PreToolUse (hook_named ''h1'' HookUser) = 60000"
    by (simp add: defaultTimeoutMsFor_def hook_named_def GATING_HOOK_EVENTS_def deps_with_def DEFAULT_GATING_TIMEOUT_MS_def)
  moreover have "rx_requestId ?ctx 0 = show_radix 10 0" "rc_input (pre_tool_use_call (\<lambda>_. None) ls_call) = Some (input_of ls_call)"
    by (simp_all add: deps_with_def pre_tool_use_call_def)
  ultimately have i: "HookInvoked user_request 60000 \<in> set (fst run_of_user_hook)"
    by (simp add: run_of_user_hook_def user_request_def runHooks_def registry_of_two matched_one hook_turn_def Let_def case_prod_beta)
  from untrusted_hooks_never_run [of ?ctx "[hook_named ''h0'' HookProject, hook_named ''h1'' HookUser]", OF _ i [unfolded run_of_user_hook_def]] i
  show ?thesis by simp
qed

theorem hooks_in_order_witness:
  "matching (\<lambda>_. None) (\<lambda>_. Inl ''bad pattern'') [hook_named ''h1'' HookUser] PreToolUse (Some ''Bash'') = [hook_named ''h1'' HookUser]
    \<and> (\<exists>outs. length outs = 1 \<and> snd run_of_user_hook = reduceHookOutcomes (zip [hook_named ''h1'' HookUser] outs))"
proof -
  let ?ctx = "deps_with (buildHookRegistry False [hook_named ''h0'' HookProject, hook_named ''h1'' HookUser]) NotInTime"
  have "[hook_named ''h1'' HookUser] = matching (rx_url ?ctx) (rx_regex ?ctx) (rx_registry ?ctx) PreToolUse (matcherSubjectOf PreToolUse (pre_tool_use_call (\<lambda>_. None) ls_call))"
    by (simp add: registry_of_two matched_one)
  from hooks_in_order [OF this] show ?thesis by (auto simp: run_of_user_hook_def matched_one)
qed

subsection \<open>The host's answer\<close>

definition question :: permission_call where
  "question = call_to ''AskUserQuestion'' ''question'' ''go on?''"

definition allow_answer :: json where
  "allow_answer = JObj [(''behavior'', JStr ''allow'')]"

definition answered_stages :: host_stages where
  "answered_stages = stages_with [] NotInTime (Resolved (Some allow_answer))"

lemma no_hooks: "preToolUse (deps_with [] NotInTime) server version call = \<lparr>hd_decision = HookNoOpinion, hd_transformedInput = None, hd_message = None, hd_interrupt = None, hd_hookId = None\<rparr>"
  "permissionRequest (deps_with [] NotInTime) as_update version call meta = None"
  by (simp_all add: preToolUse_def permissionRequest_def runHooks_def matching_def reduceHookOutcomes_def empty_composite_def
      stopAsDenial_def hook_decision_of_def request_decision_of_def answering_hook_def Let_def)

lemma question_allowed:
  "\<exists>r. evaluate plain_host (wired answered_stages (session_in Default [] HookNoOpinion None)) question = ([PreToolUseHook, RequestHook, Person], Inr r)
    \<and> dr_decision r = DAllow \<and> dr_mechanism r = MCanUseTool"
proof -
  let ?ctx = "wired answered_stages (session_in Default [] HookNoOpinion None)"
  have st: "cx_preToolUse ?ctx call = \<lparr>hd_decision = HookNoOpinion, hd_transformedInput = None, hd_message = None, hd_interrupt = None, hd_hookId = None\<rparr>"
    "cx_permissionRequest ?ctx call meta = None" for call meta
    by (simp_all add: answered_stages_def no_hooks)
  have host: "hs_host answered_stages payload = Resolved (Some allow_answer)" for payload by (simp add: answered_stages_def)
  have v: "isValidPermissionResult (Some allow_answer)" by code_simp
  have "pd_decision (toPromptDecision as_update allow_answer) = AnswerAllow" for as_update
    by (simp add: toPromptDecision_def allow_answer_def js_field_def)
  then have p: "\<exists>p. cx_prompt ?ctx call meta = Some p \<and> pd_decision p = AnswerAllow" for call meta
    by (simp add: bridge_prompt_def prompt_outcome_def host v)
  have lookup: "findMatchingRuleEntry plain_host ?ctx rules question b skip = Inr None" if "entries rules = []" for rules b skip
    using that by (simp add: question_def lookup_other_tool fileRuleKindFor_def rule_pool_def wired_def session_in_def)
  have q: "tool_of question = ''AskUserQuestion''" by (simp add: question_def)
  have none: "entries (ps_rules (cx_policy ?ctx)) = []" "mode_of ?ctx = Default" by simp_all
  have pool: "rule_pool ?ctx rs = entries rs" for rs by (simp add: rule_pool_def wired_def session_in_def)
  have "deny_stage plain_host ?ctx question carried = Inr None" for carried
    by (simp add: deny_stage_def lookup none pool findFileDenyBlockingEdit_def q fileRuleKindFor_def web_stage_other_tool WEB_FETCH_TOOL_def Let_def)
  moreover have "private_target_of plain_host ?ctx question = None"
    by (simp add: private_target_of_def privateWebFetchTargetOf_def q WEB_FETCH_TOOL_def)
  moreover have must: "must_ask (causes_of plain_host ?ctx question h target entry)" for h target entry
    by (simp add: must_ask_def causes_of_def q ASK_USER_QUESTION_TOOL_NAME_def)
  moreover
  let ?h = "\<lparr>hd_decision = HookNoOpinion, hd_transformedInput = None, hd_message = None, hd_interrupt = None, hd_hookId = None\<rparr>"
  let ?causes = "causes_of plain_host ?ctx question ?h None None"
  obtain p where p': "cx_prompt ?ctx question (ask_meta question ?causes None) = Some p" "pd_decision p = AnswerAllow" using p by blast
  let ?r = "buildRecordFromPromptResult p (version_of ?ctx) None"
  have "ask_stage ?ctx question ?causes None None = ([RequestHook, Person], ?r)"
    unfolding ask_stage_def ask_in_turn_def tryPermissionRequestHook_def st(2) none(2) p'(1) by simp
  ultimately have "evaluateStages plain_host ?ctx question = ([PreToolUseHook, RequestHook, Person], Inr ?r)"
    unfolding evaluateStages_def st(1) after_deny_def Let_def effective_call_def by (simp add: lookup none)
  moreover have "dr_decision ?r = DAllow" "dr_mechanism ?r = MCanUseTool"
    using p'(2) by (simp_all add: buildRecordFromPromptResult_def markPromptAnswered_def)
  ultimately obtain r where "evaluateStages plain_host ?ctx question = ([PreToolUseHook, RequestHook, Person], Inr r)"
    "dr_decision r = DAllow" "dr_mechanism r = MCanUseTool"
    by blast
  then show ?thesis by (auto simp: evaluate_def stampExplicitApproval_def q WEB_FETCH_TOOL_def)
qed


end
