(* ===== verification/Spec2Isabelle.thy ===== *)
theory Spec2Isabelle
  imports Auto_Sessions Bash_Sessions Host_Sessions
begin

text \<open>
  The permission system of the Winter agent runtime (\<^verbatim>\<open>src/packages/runtime/src/permissions\<close>) with what it relies on: the web
  address screening (\<^verbatim>\<open>src/packages/web/src\<close>, \<^verbatim>\<open>src/packages/runtime/src/web\<close>), the hooks
  (\<^verbatim>\<open>src/packages/runtime/src/hooks\<close>) and the control channel to the host (\<^verbatim>\<open>src/packages/runtime/src/rpc/bridge.ts\<close>).

  \<^bold>\<open>The program.\<close> An agent asks to run a tool: a shell command, a file edit, a fetch. Before the tool runs, the
  pipeline \<^verbatim>\<open>evaluate\<close> decides between allow, deny, ask and defer. It consults a PreToolUse hook, the rules of
  the policy (deny, then ask, then allow), the permission mode, a PermissionRequest hook, the
  user's prompt and, in automatic mode, a classifier. Rules are short texts such as \<^verbatim>\<open>Bash(git log:*)\<close>, \<^verbatim>\<open>Read(~/secrets/**)\<close> or
  \<^verbatim>\<open>WebFetch(domain:example.com)\<close>; to apply them the pipeline takes shell commands apart, resolves paths and symbolic links, and
  classifies addresses. The policy is a versioned store of sourced rules that updates change. A call that a hook defers is
  parked in a durable log and runs after a person approved it, when the session is resumed. Hooks are processes and callbacks whose answers are
  reduced to one; the prompt is a request to the host over a channel that may time out, be cancelled or die.

  \<^bold>\<open>Theories, in the order the code is layered.\<close>

  \<^item> \<open>JS_Prelude\<close>: the operations of JavaScript strings and options the code uses, with the generic lemmas; \<open>Node_Path\<close>: the path
    module of the platform (normalize, join, resolve, dirname, relative) on POSIX paths.
  \<^item> \<open>Shell_Scan\<close>, \<open>Shell_Words\<close>, \<open>Redirects\<close>, \<open>Wrappers\<close>, \<open>Read_Only\<close>: the shell part of \<^verbatim>\<open>grammar.ts\<close>. One scan with quotes and parentheses as
    its state (\<open>scan_vars\<close>), the splitting at separators, words in both quote readings, redirections, leading assignments and
    wrapper commands, the table of read-only commands.
  \<^item> \<open>Glob\<close>, \<open>Rule_Text\<close>, \<open>Rule_Match\<close>: rule text, patterns and matching (\<^verbatim>\<open>grammar.ts\<close>). \<open>Skill_Rules\<close>: the rules for skills
    (\<^verbatim>\<open>skills/permission-rules.ts\<close>).
  \<^item> \<open>Shell_Structure\<close>: here-documents, substitutions and the recursive flattening of a command (\<^verbatim>\<open>shell-structure.ts\<close>).
  \<^item> \<open>Edit_Recognition\<close>: which paths a call writes (\<^verbatim>\<open>edit-recognition.ts\<close>). \<open>Protected\<close>: protected paths and critical removals
    (\<^verbatim>\<open>protected.ts\<close>).
  \<^item> \<open>Paths\<close>, \<open>Symlinks\<close>, \<open>File_Rules\<close>: file rules, their globs, both ends of symbolic links, and the grouped matching through the
    ignore package (\<^verbatim>\<open>paths.ts\<close>, \<^verbatim>\<open>file-rules.ts\<close>).
  \<^item> \<open>Ruleset\<close>, \<open>Store_Contract\<close>, \<open>Policy_State\<close>: sourced rules, permission updates and their authority, the versioned
    store with its bypass gate (\<^verbatim>\<open>ruleset.ts\<close>, \<^verbatim>\<open>policy-state.ts\<close>). \<open>Auto_Config\<close>: the automatic mode's configuration
    (\<^verbatim>\<open>auto/config.ts\<close>).
  \<^item> \<open>Address\<close>, \<open>Web_Target\<close>: IPv4 and IPv6 addresses, host names, refused URLs and preapproved hosts (\<^verbatim>\<open>address.ts\<close>,
    \<^verbatim>\<open>private-address.ts\<close>, \<^verbatim>\<open>url.ts\<close>, \<^verbatim>\<open>fetchable-url.ts\<close>, \<^verbatim>\<open>preapproved-hosts.ts\<close>).
  \<^item> \<open>Evaluation\<close>, \<open>Rule_Lookup\<close>, \<open>Mode_Stage\<close>, \<open>Pipeline\<close>: \<^verbatim>\<open>evaluator.ts\<close>, in its order: the context and the path checks, the
    lookup of a rule for a call, the mode stage, and the stages of \<open>evaluate\<close> with the read probe. A run is the list of the
    parties consulted and an outcome, an error or a decision record.
  \<^item> \<open>Pipeline_Safety\<close>, \<open>Read_Probe\<close>: what the pipeline guarantees; \<open>Sessions\<close>: concrete sessions in which the
    hypotheses of these properties hold. \<open>evaluate_throwing\<close> is \<open>evaluate\<close> with hooks, prompt and classifier that may throw.
  \<^item> \<open>Regexes\<close>, \<open>Bash_Lex\<close>, \<open>Bash_Commands\<close>, \<open>Bash_Options\<close>, \<open>Bash_Table\<close>, \<open>Bash_Patterns\<close>, \<open>Bash_Read_Only\<close>: the test that a
    command is read-only (\<^verbatim>\<open>bash-read-only.ts\<close>), with its table of flags for every command; \<open>Bash_Safety\<close> and \<open>Bash_Sessions\<close>:
    what an accepted command can run.
  \<^item> \<open>Json_Text\<close>: \<open>JSON.stringify\<close> and \<open>JSON.parse\<close>. \<open>Approvals\<close>, \<open>Resume\<close>, \<open>Approval_Sessions\<close>: the durable approvals, in memory and as a
    log file (\<^verbatim>\<open>approvals.ts\<close>), and the scan that consumes them (\<^verbatim>\<open>engine.ts\<close>), with crashes between any two of its effects.
  \<^item> \<open>Stable_Hash\<close>, \<open>Auto_Engine\<close>, \<open>Auto_Safety\<close>, \<open>Auto_Sessions\<close>: the automatic mode (\<^verbatim>\<open>auto/caches.ts\<close>, \<^verbatim>\<open>auto/envelope.ts\<close>,
    \<^verbatim>\<open>auto/engine.ts\<close>): hashes, verdict cache, fallback counters and their file. A classification has two halves around the wait for the classifier
    (\<open>classify_begin\<close>, \<open>classify_end\<close>), and in \<open>engine_step\<close> other steps of the session may come between them.
    \<open>Inheritance\<close>: the modes of new and resumed children (\<^verbatim>\<open>auto/inheritance.ts\<close>, \<^verbatim>\<open>subagents/child-engine.ts\<close>).
  \<^item> \<open>Json_Values\<close>, \<open>Rpc_Bridge\<close>, \<open>Rpc_Safety\<close>: the control channel (\<^verbatim>\<open>rpc/bridge.ts\<close>) as a step relation over its operations, timers and
    abort listeners. \<open>Prompt_Stage\<close>: the prompt as a request of this channel (\<^verbatim>\<open>prompt-stage.ts\<close>).
  \<^item> \<open>Hook_Registry\<close>, \<open>Hook_Reducer\<close>, \<open>Hook_Answers\<close>, \<open>Hook_Runner\<close>, \<open>Hook_Stage\<close>: the hooks (\<^verbatim>\<open>hooks/registry.ts\<close>, \<^verbatim>\<open>reducer.ts\<close>,
    \<^verbatim>\<open>runner.ts\<close>, \<^verbatim>\<open>bounds.ts\<close>, \<^verbatim>\<open>hook-stage.ts\<close>). \<open>wired\<close> puts them and the prompt into the context of \<open>evaluate\<close>; \<open>Host_Safety\<close> and
    \<open>Host_Sessions\<close> hold what then holds of the pipeline.

  \<^bold>\<open>Correspondence.\<close> Every TypeScript function is one definition of the same name; an interface is a record, a union of
  literals a datatype, \<open>undefined\<close> and \<open>null\<close> are \<open>None\<close>, a thrown error is a value on the left of a sum. Loops over a
  text are \<open>function\<close>s with a termination proof; no fuel is used. Regular expressions of the code are written out as
  recognisers, or as terms of \<open>Regexes\<close> with a matcher by derivatives. Texts are lists of 8-bit characters, so case folding and white space are those of Latin-1.
  Bytes of addresses are 8-bit words and the masks of IPv4 blocks 32-bit words.

  \<^bold>\<open>Parameters.\<close> The file system (\<open>realpath\<close>, \<open>readlink\<close>, the working directory), the WHATWG URL parser, the ignore
  package, the network interfaces and the name resolver are arguments. The hook stage, the prompt stage and the classifier are
  interfaces of \<^verbatim>\<open>evaluator.ts\<close>; the context holds their answers as functions of the call, and \<open>wired\<close> fills in the modelled ones. The classifier,
  SHA-256, the codec of the approval log, the platform and the file lookup of the read-only test, the regular expression engine of hook matchers, the answer of a hook to a request within its time, the validator of
  tool inputs, the settlement the host gives a prompt, and whether a command is confined by the sandbox are arguments too.

  \<^bold>\<open>What is shown.\<close> For the shell: splitting loses no text and flattening reports every command that runs; a deny
  rule looks through wrappers and assignments that an allow rule does not. For rules: printing and parsing
  agree, prefix rules match exactly their prefixes, dangerous assignments are never covered by an allow rule. For
  paths: the glob compiler agrees with a language of segments, escaped segments are literal, an allow needs both ends of a link,
  link chains settle. For the store: managed rules cannot be weakened, project rules need trust, bypass mode cannot be
  reached without its gate. For addresses: the refused blocks are exactly the special-purpose ones,
  every spelling of an address is the same address, and nothing private hides in an IPv6 address. For the pipeline:
  a critical removal or protected write by a shell is never allowed silently, a matching deny rule always wins,
  nobody is asked in dontAsk mode, silence is a denial, an allow rule does not lift the write floor, modes accept edits only
  within bounds, private hosts need approval, suspended rules decide nothing in automatic mode, and every call is decided
  unless one of the parties throws.
  For read-only commands: an accepted line runs only programs of the tables, and \<open>find\<close> never acts. For approvals:
  an approval is settled once, a call runs at most once over crashes and resumes while the log is not torn, an approved call runs, and
  nothing runs under another policy than the one it was approved under; the file store does what the store in memory does. For the automatic mode:
  an automatic allow goes back to a classifier that was asked about that input under that policy and environment, the counters stay below their
  thresholds plus the classifications in flight, and the total brake is never released. A resumed child is never wider
  than its record, its definition and its parents. For the host: a promise is settled once and, once the channel is closed, always; only an answer of the
  host allows in the name of the person; a fail-closed hook that fails denies; the reducer of hooks is what its rules say.
  Interfaces are locales interpreted on the model: the store contract, the directions of a match, both-ends
  composition, rule lookup and the asking stages.

  \<^bold>\<open>Not modelled.\<close> The translation of deny globs to sandbox profiles in \<^verbatim>\<open>file-rules.ts\<close>, the rule journal on disk in
  \<^verbatim>\<open>ruleset.ts\<close>, the classifier's model request, hook processes and background hooks (\<^verbatim>\<open>command-invoker.ts\<close>, \<^verbatim>\<open>async-hooks.ts\<close>), and owners,
  modes and descriptors of the files. The two approval stores share one definition of their envelopes, \<open>op_envelopes\<close>, where the code has two bodies that
  coincide. An append to the approval log is atomic where calls are counted; what a torn line does is stated apart
  (\<open>torn_line_swallows_append\<close>). The rest
  of the repository (engine, providers, transports, tools, client) is asynchronous orchestration of services, processes and networks.
\<close>

end
